(* ===== verification/Prelude.thy ===== *)
theory Prelude
  imports Complex_Main "HOL-Library.Char_ord" "HOL-Library.List_Lexorder"
    "HOL-Library.Product_Lexorder" "HOL-Library.Sublist"
begin

text \<open>
  Shared vocabulary of the development: the pieces of the Python language, of its standard
  library and of SQLite that the modelled code uses, with the lemmas the components share.
  \<^item> Strings are lists of Latin-1 code points; \<open>py_strip\<close>, \<open>py_lower\<close> and \<open>py_startswith\<close> are
    \<open>str.strip\<close>, \<open>str.lower\<close> and \<open>str.startswith\<close> on them.
  \<^item> A SQLite table is the list of its rows in rowid order; \<open>sql_update\<close>, \<open>sql_delete\<close>,
    \<open>sql_insert_ignore\<close>, \<open>sql_insert_replace\<close>, \<open>sql_lookup\<close> and \<open>sql_rowcount\<close> are the statements
    the stores execute. A NULL column is an \<open>option\<close>; a comparison with NULL is never true.
  \<^item> A Python \<open>dict\<close> whose insertion order matters is an association list, read by \<open>map_of\<close> and
    written by \<open>dict_set\<close> and \<open>dict_pop\<close>.
  \<^item> Clock readings are reals and are arguments of the operations that take them.
  \<^item> \<open>metrics_sink\<close> is the optional metrics collector: the names incremented so far.
  \<^item> The locale \<open>op_system\<close> is the interface of a component whose operations keep an invariant;
    every stateful component interprets it on its own operations; \<open>guarded_system\<close> is the interface
    of a fact that survives every operation of a certain kind.
\<close>

named_theorems sql_simps \<open>evaluation of the SQL statements on keyed tables\<close>
named_theorems py_simps \<open>evaluation of the Python string helpers\<close>

type_synonym metrics_sink = "string list option"

section \<open>Python strings\<close>

definition is_py_space :: "char \<Rightarrow> bool" where
  "is_py_space c = (let n = of_char c :: nat in
     (9 \<le> n \<and> n \<le> 13) \<or> (28 \<le> n \<and> n \<le> 32) \<or> n = 133 \<or> n = 160)"

definition py_strip :: "string \<Rightarrow> string" where
  "py_strip s = rev (dropWhile is_py_space (rev (dropWhile is_py_space s)))"

definition py_lower_char :: "char \<Rightarrow> char" where
  "py_lower_char c = (let n = of_char c :: nat in
     if (65 \<le> n \<and> n \<le> 90) \<or> (192 \<le> n \<and> n \<le> 222 \<and> n \<noteq> 215) then char_of (n + 32) else c)"

definition py_lower :: "string \<Rightarrow> string" where
  "py_lower s = map py_lower_char s"

definition py_startswith :: "string \<Rightarrow> string \<Rightarrow> bool" where
  "py_startswith s p = (take (length p) s = p)"

definition str_or :: "string option \<Rightarrow> string" where
  "str_or s = (case s of None \<Rightarrow> '''' | Some v \<Rightarrow> v)"

definition opt_or :: "string option \<Rightarrow> string option \<Rightarrow> string option" where
  "opt_or a b = (case a of None \<Rightarrow> b | Some v \<Rightarrow> if v = '''' then b else Some v)"

section \<open>Metrics\<close>

definition metric_increment :: "string \<Rightarrow> metrics_sink \<Rightarrow> metrics_sink" where
  "metric_increment name m = map_option (\<lambda>l. l @ [name]) m"

section \<open>SQLite tables as lists of rows\<close>

definition sql_update :: "('r \<Rightarrow> bool) \<Rightarrow> ('r \<Rightarrow> 'r) \<Rightarrow> 'r list \<Rightarrow> 'r list" where
  "sql_update p f rows = map (\<lambda>r. if p r then f r else r) rows"

definition sql_rowcount :: "('r \<Rightarrow> bool) \<Rightarrow> 'r list \<Rightarrow> nat" where
  "sql_rowcount p rows = length (filter p rows)"

definition sql_delete :: "('r \<Rightarrow> bool) \<Rightarrow> 'r list \<Rightarrow> 'r list" where
  "sql_delete p rows = filter (\<lambda>r. \<not> p r) rows"

definition sql_lookup :: "('r \<Rightarrow> 'k) \<Rightarrow> 'k \<Rightarrow> 'r list \<Rightarrow> 'r option" where
  "sql_lookup k key rows = find (\<lambda>r. k r = key) rows"

definition sql_insert_ignore :: "('r \<Rightarrow> 'k) \<Rightarrow> 'r \<Rightarrow> 'r list \<Rightarrow> 'r list" where
  "sql_insert_ignore k r rows = (if k r \<in> k ` set rows then rows else rows @ [r])"

definition sql_insert_replace :: "('r \<Rightarrow> 'k) \<Rightarrow> 'r \<Rightarrow> 'r list \<Rightarrow> 'r list" where
  "sql_insert_replace k r rows = filter (\<lambda>x. k x \<noteq> k r) rows @ [r]"

definition unique_key :: "('r \<Rightarrow> 'k) \<Rightarrow> 'r list \<Rightarrow> bool" where
  "unique_key k rows = distinct (map k rows)"

section \<open>Ordered dictionaries\<close>

fun dict_set :: "'k \<Rightarrow> 'v \<Rightarrow> ('k \<times> 'v) list \<Rightarrow> ('k \<times> 'v) list" where
  "dict_set k v [] = [(k, v)]"
| "dict_set k v ((k', v') # d) = (if k' = k then (k, v) # d else (k', v') # dict_set k v d)"

definition dict_pop :: "'k \<Rightarrow> ('k \<times> 'v) list \<Rightarrow> ('k \<times> 'v) list" where
  "dict_pop k d = filter (\<lambda>e. fst e \<noteq> k) d"

section \<open>Lemmas on strings\<close>

lemma str_or_simps [simp]: "str_or None = ''''" "str_or (Some v) = v"
  by (simp_all add: str_or_def)

lemma py_startswith_prefix: "py_startswith s p \<longleftrightarrow> prefix p s"
  unfolding py_startswith_def prefix_def by (metis append_eq_conv_conj)

lemma dropWhile_head_not: "dropWhile P xs \<noteq> [] \<Longrightarrow> \<not> P (hd (dropWhile P xs))"
  by (rule hd_dropWhile)

lemma dropWhile_strip_idem: "dropWhile P (dropWhile P xs) = dropWhile P xs"
  by (induction xs) auto

lemma rev_dropWhile_rev_head:
  "zs \<noteq> [] \<Longrightarrow> \<not> P (hd zs) \<Longrightarrow> rev (dropWhile P (rev zs)) \<noteq> [] \<and> hd (rev (dropWhile P (rev zs))) = hd zs"
proof (induction zs)
  case (Cons z zs)
  then have "dropWhile P (rev zs @ [z]) = dropWhile P (rev zs) @ [z]"
    by (auto simp: dropWhile_append dropWhile_eq_Nil_conv)
  then show ?case by simp
qed simp

lemma py_strip_idem [simp]: "py_strip (py_strip s) = py_strip s"
proof (cases "dropWhile is_py_space s = []")
  case True
  then have "py_strip s = []" by (simp add: py_strip_def del: dropWhile_eq_Nil_conv)
  moreover have "py_strip [] = []" by (simp add: py_strip_def)
  ultimately show ?thesis by (simp only:)
next
  case False
  let ?z = "dropWhile is_py_space s"
  let ?t = "rev (dropWhile is_py_space (rev ?z))"
  have "?t \<noteq> [] \<and> hd ?t = hd ?z"
    using rev_dropWhile_rev_head [of ?z is_py_space] False hd_dropWhile [of is_py_space s] by blast
  then have "\<not> is_py_space (hd ?t)" "?t \<noteq> []"
    using False hd_dropWhile [of is_py_space s] by auto
  then have "dropWhile is_py_space ?t = ?t"
    by (cases ?t) auto
  then show ?thesis
    by (simp add: py_strip_def dropWhile_strip_idem)
qed

section \<open>Lemmas on keyed tables\<close>

lemma sql_update_Nil [simp]: "sql_update p f [] = []"
  by (simp add: sql_update_def)

lemma sql_lookup_Nil [simp]: "sql_lookup k key [] = None"
  by (simp add: sql_lookup_def)

lemma map_key_update:
  "(\<And>r. k (f r) = k r) \<Longrightarrow> map k (sql_update p f rows) = map k rows"
  by (simp add: sql_update_def)

lemma unique_key_update [sql_simps]:
  "(\<And>r. k (f r) = k r) \<Longrightarrow> unique_key k (sql_update p f rows) = unique_key k rows"
  by (simp add: unique_key_def map_key_update)

lemma unique_key_delete [intro]: "unique_key k rows \<Longrightarrow> unique_key k (sql_delete p rows)"
  by (simp add: unique_key_def sql_delete_def distinct_map_filter)

lemma unique_key_insert_ignore [intro]:
  "unique_key k rows \<Longrightarrow> unique_key k (sql_insert_ignore k r rows)"
  by (auto simp: unique_key_def sql_insert_ignore_def)

lemma unique_key_insert_replace [intro]:
  "unique_key k rows \<Longrightarrow> unique_key k (sql_insert_replace k r rows)"
  by (auto simp: unique_key_def sql_insert_replace_def distinct_map_filter)

lemma unique_key_append [intro]:
  "unique_key k rows \<Longrightarrow> sql_lookup k (k r) rows = None \<Longrightarrow> unique_key k (rows @ [r])"
  by (auto simp: unique_key_def sql_lookup_def find_None_iff)

lemma unique_key_Nil [simp]: "unique_key k []"
  by (simp add: unique_key_def)

lemma sql_lookup_None_iff: "sql_lookup k key rows = None \<longleftrightarrow> key \<notin> k ` set rows"
  by (auto simp: sql_lookup_def find_None_iff)

lemma sql_lookup_SomeD: "sql_lookup k key rows = Some r \<Longrightarrow> r \<in> set rows \<and> k r = key"
  by (auto simp: sql_lookup_def find_Some_iff)

lemma sql_lookup_unique:
  "unique_key k rows \<Longrightarrow> r \<in> set rows \<Longrightarrow> sql_lookup k (k r) rows = Some r"
  by (induction rows) (auto simp: sql_lookup_def unique_key_def rev_image_eqI)

lemma sql_lookup_Some_iff:
  "unique_key k rows \<Longrightarrow> sql_lookup k key rows = Some r \<longleftrightarrow> r \<in> set rows \<and> k r = key"
  using sql_lookup_SomeD sql_lookup_unique by fastforce

lemma sql_lookup_update [sql_simps]:
  "(\<And>r. k (f r) = k r) \<Longrightarrow>
   sql_lookup k key (sql_update p f rows) = map_option (\<lambda>r. if p r then f r else r) (sql_lookup k key rows)"
  by (induction rows) (auto simp: sql_lookup_def sql_update_def)

lemma set_sql_delete: "set (sql_delete p rows) = {r \<in> set rows. \<not> p r}"
  by (auto simp: sql_delete_def)

lemma sql_lookup_delete:
  "unique_key k rows \<Longrightarrow> sql_lookup k key (sql_delete p rows) =
     (case sql_lookup k key rows of None \<Rightarrow> None | Some r \<Rightarrow> if p r then None else Some r)"
proof (cases "sql_lookup k key rows")
  case None
  then have "sql_lookup k key (sql_delete p rows) = None"
    by (auto simp: sql_lookup_None_iff sql_delete_def)
  with None show ?thesis by simp
next
  case (Some r)
  assume u: "unique_key k rows"
  have r: "r \<in> set rows" "k r = key" using sql_lookup_SomeD [OF Some] by auto
  have only: "x = r" if "x \<in> set rows" "k x = key" for x
    using sql_lookup_unique [OF u that(1)] that(2) Some by simp
  show ?thesis
  proof (cases "p r")
    case True
    then have "sql_lookup k key (sql_delete p rows) = None"
      using only by (auto simp: sql_lookup_None_iff set_sql_delete)
    with True Some show ?thesis by simp
  next
    case False
    with r have "r \<in> set (sql_delete p rows)" by (simp add: set_sql_delete)
    from sql_lookup_unique [OF unique_key_delete [OF u] this] r(2) False Some
    show ?thesis by simp
  qed
qed

lemma sql_lookup_append:
  "sql_lookup k key (rows @ [r]) =
     (case sql_lookup k key rows of None \<Rightarrow> if k r = key then Some r else None | Some x \<Rightarrow> Some x)"
  by (induction rows) (auto simp: sql_lookup_def)

lemma sql_lookup_insert_ignore [sql_simps]:
  "sql_lookup k key (sql_insert_ignore k r rows) =
     (case sql_lookup k key rows of None \<Rightarrow> if k r = key then Some r else None | Some x \<Rightarrow> Some x)"
  by (auto simp: sql_insert_ignore_def sql_lookup_append sql_lookup_None_iff split: option.splits)

lemma sql_lookup_filter_other:
  "key \<noteq> key' \<Longrightarrow> sql_lookup k key (filter (\<lambda>x. k x \<noteq> key') rows) = sql_lookup k key rows"
  by (induction rows) (auto simp: sql_lookup_def)

lemma sql_lookup_filter_same: "sql_lookup k key (filter (\<lambda>x. k x \<noteq> key) rows) = None"
  by (auto simp: sql_lookup_None_iff)

lemma sql_lookup_insert_replace [sql_simps]:
  "sql_lookup k key (sql_insert_replace k r rows) = (if k r = key then Some r else sql_lookup k key rows)"
  by (auto simp: sql_insert_replace_def sql_lookup_append sql_lookup_filter_same
      sql_lookup_filter_other split: option.splits)

lemma sql_find_key:
  "unique_key k rows \<Longrightarrow> find (\<lambda>r. k r = key \<and> P r) rows =
     (case sql_lookup k key rows of None \<Rightarrow> None | Some r \<Rightarrow> if P r then Some r else None)"
proof (induction rows)
  case (Cons a rows)
  have "find (\<lambda>r. k r = key \<and> P r) rows = None" if "k a = key"
    using Cons.prems that by (fastforce simp: unique_key_def find_None_iff image_iff)
  moreover have "unique_key k rows" using Cons.prems by (simp add: unique_key_def)
  ultimately show ?case using Cons.IH by (auto simp: sql_lookup_def)
qed simp

lemma sql_rowcount_pos:
  "unique_key k rows \<Longrightarrow>
   0 < sql_rowcount (\<lambda>r. k r = key \<and> p r) rows \<longleftrightarrow> (\<exists>r. sql_lookup k key rows = Some r \<and> p r)"
  by (auto simp: sql_rowcount_def filter_empty_conv sql_lookup_Some_iff)

lemma sql_rowcount_key_one:
  "unique_key k rows \<Longrightarrow> sql_lookup k key rows = Some r \<Longrightarrow> sql_rowcount (\<lambda>r. k r = key) rows = 1"
proof (induction rows)
  case (Cons a rows)
  have "filter (\<lambda>r. k r = key) rows = []" if "k a = key"
    using Cons.prems that by (auto simp: unique_key_def filter_empty_conv rev_image_eqI)
  with Cons show ?case by (auto simp: sql_rowcount_def sql_lookup_def unique_key_def split: if_splits)
qed simp

lemma sql_rowcount_key_pos:
  "0 < sql_rowcount (\<lambda>r. k r = key) rows \<longleftrightarrow> sql_lookup k key rows \<noteq> None"
  by (auto simp: sql_rowcount_def filter_empty_conv sql_lookup_None_iff)

lemma in_set_sql_update:
  "x \<in> set (sql_update p f rows) \<longleftrightarrow> (\<exists>r\<in>set rows. x = (if p r then f r else r))"
  by (auto simp: sql_update_def)

lemma sql_update_all:
  "(\<And>r. r \<in> set rows \<Longrightarrow> P r) \<Longrightarrow> (\<And>r. r \<in> set rows \<Longrightarrow> p r \<Longrightarrow> P r \<Longrightarrow> P (f r)) \<Longrightarrow>
   \<forall>r\<in>set (sql_update p f rows). P r"
  by (auto simp: in_set_sql_update)

lemma sql_update_none: "(\<And>r. r \<in> set rows \<Longrightarrow> \<not> p r) \<Longrightarrow> sql_update p f rows = rows"
  by (simp add: sql_update_def map_idI)

lemma set_insert_ignore_subset: "set (sql_insert_ignore k r rows) \<subseteq> insert r (set rows)"
  by (auto simp: sql_insert_ignore_def)

lemma set_insert_replace: "set (sql_insert_replace k r rows) = insert r {x \<in> set rows. k x \<noteq> k r}"
  by (auto simp: sql_insert_replace_def)

section \<open>Lemmas on ordered dictionaries\<close>

lemma map_of_dict_set [simp]: "map_of (dict_set k v d) = (map_of d)(k \<mapsto> v)"
  by (induction k v d rule: dict_set.induct) (auto simp: fun_eq_iff)

lemma keys_dict_set: "set (map fst (dict_set k v d)) = insert k (set (map fst d))"
  by (induction k v d rule: dict_set.induct) auto

lemma distinct_dict_set: "distinct (map fst d) \<Longrightarrow> distinct (map fst (dict_set k v d))"
proof (induction k v d rule: dict_set.induct)
  case (2 k v k' v' d)
  then show ?case using keys_dict_set [of k v d] by auto
qed simp

lemma dict_set_fresh: "k \<notin> set (map fst d) \<Longrightarrow> dict_set k v d = d @ [(k, v)]"
  by (induction k v d rule: dict_set.induct) auto

lemma map_of_dict_pop [simp]: "map_of (dict_pop k d) = (map_of d)(k := None)"
  by (induction d) (auto simp: dict_pop_def fun_eq_iff)

lemma distinct_dict_pop: "distinct (map fst d) \<Longrightarrow> distinct (map fst (dict_pop k d))"
  by (simp add: dict_pop_def distinct_map_filter)

text \<open>Two dictionaries with the same keys in the same order and related values.\<close>

definition rel_dict :: "('v \<Rightarrow> 'w \<Rightarrow> bool) \<Rightarrow> ('k \<times> 'v) list \<Rightarrow> ('k \<times> 'w) list \<Rightarrow> bool" where
  "rel_dict Q = list_all2 (\<lambda>a b. fst a = fst b \<and> Q (snd a) (snd b))"

lemma rel_dict_simps [simp]:
  "rel_dict Q [] []" "rel_dict Q (a # d) (b # e) \<longleftrightarrow> (fst a = fst b \<and> Q (snd a) (snd b)) \<and> rel_dict Q d e"
  by (simp_all add: rel_dict_def)

lemma rel_dict_induct [consumes 1, case_names Nil Cons]:
  assumes "rel_dict Q d e" "P [] []"
    "\<And>k v w d e. Q v w \<Longrightarrow> rel_dict Q d e \<Longrightarrow> P d e \<Longrightarrow> P ((k, v) # d) ((k, w) # e)"
  shows "P d e"
  using assms(1) unfolding rel_dict_def
proof (induction rule: list_all2_induct)
  case (Cons a d b e)
  then show ?case using assms(3) [of "snd a" "snd b" d e "fst a"] by (cases a; cases b) (simp add: rel_dict_def)
qed (rule assms(2))

lemma rel_dict_map_of: "rel_dict Q d e \<Longrightarrow> rel_option Q (map_of d k) (map_of e k)"
  by (induction rule: rel_dict_induct) auto

lemma rel_dict_set: "rel_dict Q d e \<Longrightarrow> Q v w \<Longrightarrow> rel_dict Q (dict_set k v d) (dict_set k w e)"
  by (induction rule: rel_dict_induct) auto

lemma rel_dict_pop: "rel_dict Q d e \<Longrightarrow> rel_dict Q (dict_pop k d) (dict_pop k e)"
  unfolding dict_pop_def by (induction rule: rel_dict_induct) auto

lemma rel_dict_length: "rel_dict Q d e \<Longrightarrow> length d = length e"
  by (induction rule: rel_dict_induct) auto

lemma rel_dict_filter_keys:
  "rel_dict Q d e \<Longrightarrow> (\<And>v w. Q v w \<Longrightarrow> p v = p' w) \<Longrightarrow>
   map fst (filter (\<lambda>(k, v). p v) d) = map fst (filter (\<lambda>(k, w). p' w) e)"
  by (induction rule: rel_dict_induct) auto

lemma rel_dict_set_left:
  "rel_dict Q d e \<Longrightarrow> (\<And>w. map_of e k = Some w \<Longrightarrow> Q v w) \<Longrightarrow> map_of d k \<noteq> None \<Longrightarrow> rel_dict Q (dict_set k v d) e"
  by (induction rule: rel_dict_induct) (auto split: if_splits)

section \<open>Components whose operations keep an invariant\<close>

locale op_system =
  fixes exec :: "'op \<Rightarrow> 's \<Rightarrow> 's"
    and inv :: "'s \<Rightarrow> bool"
  assumes exec_inv: "inv s \<Longrightarrow> inv (exec op s)"
begin

lemma run_inv: "inv s \<Longrightarrow> inv (fold exec ops s)"
  by (induction ops arbitrary: s) (auto intro: exec_inv)

end

locale monotone_system = op_system +
  fixes ge :: "'s \<Rightarrow> 's \<Rightarrow> bool"
  assumes ge_refl: "ge s s"
    and ge_trans: "ge u t \<Longrightarrow> ge t s \<Longrightarrow> ge u s"
    and exec_ge: "inv s \<Longrightarrow> ge (exec op s) s"
begin

lemma run_ge: "inv s \<Longrightarrow> ge (fold exec ops s) s"
proof (induction ops arbitrary: s)
  case Nil
  show ?case by (simp add: ge_refl)
next
  case (Cons op ops)
  have "ge (fold exec ops (exec op s)) (exec op s)"
    by (rule Cons.IH) (rule exec_inv [OF Cons.prems])
  from this exec_ge [OF Cons.prems] show ?case
    by (simp add: ge_trans)
qed

end

locale guarded_system =
  fixes exec :: "'op \<Rightarrow> 's \<Rightarrow> 's"
    and ok :: "'op \<Rightarrow> bool"
    and inv :: "'s \<Rightarrow> bool"
  assumes exec_keeps: "inv s \<Longrightarrow> ok op \<Longrightarrow> inv (exec op s)"
begin

lemma guarded_run: "inv s \<Longrightarrow> list_all ok ops \<Longrightarrow> inv (fold exec ops s)"
  by (induction ops arbitrary: s) (auto intro: exec_keeps)

end

end
