(* ===== verification/Posture_Model.thy ===== *)
theory Posture_Model
  imports Prelude
begin

text \<open>
  The execution posture of \<open>hi_agent/config/posture.py\<close>: the three postures, their resolution from
  the process environment, and the fail-closed flags every store derives from it. An environment
  variable is an optional string (\<open>None\<close>: not set). Logging is not modelled.
\<close>

datatype posture = Dev | Research | Prod

datatype posture_error = InvalidPosture string

definition posture_value :: "posture \<Rightarrow> string" where
  "posture_value p = (case p of Dev \<Rightarrow> ''dev'' | Research \<Rightarrow> ''research'' | Prod \<Rightarrow> ''prod'')"

definition posture_of_value :: "string \<Rightarrow> posture option" where
  "posture_of_value s =
     (if s = ''dev'' then Some Dev else if s = ''research'' then Some Research
      else if s = ''prod'' then Some Prod else None)"

definition env_get :: "string option \<Rightarrow> string \<Rightarrow> string" where
  "env_get v d = (case v of None \<Rightarrow> d | Some s \<Rightarrow> s)"

definition posture_from_env :: "string option \<Rightarrow> posture_error + posture" where
  "posture_from_env env =
     (let raw = py_lower (py_strip (env_get env ''dev'')) in
      case posture_of_value raw of Some p \<Rightarrow> Inr p | None \<Rightarrow> Inl (InvalidPosture raw))"

definition is_strict :: "posture \<Rightarrow> bool" where
  "is_strict p = (p = Research \<or> p = Prod)"

definition requires_durable_queue :: "posture \<Rightarrow> bool" where
  "requires_durable_queue p = is_strict p"

definition resolve_runtime_mode :: "string option \<Rightarrow> string option \<Rightarrow> string" where
  "resolve_runtime_mode posture_env legacy_env =
     (let p = py_lower (py_strip (env_get posture_env '''')) in
      if p \<in> {''dev'', ''research'', ''prod''} then p
      else let l = py_lower (py_strip (env_get legacy_env '''')) in
        if l \<in> {''dev'', ''research'', ''prod''} then l else ''prod'')"

lemma posture_roundtrip [simp]: "posture_of_value (posture_value p) = Some p"
  by (cases p) (simp_all add: posture_of_value_def posture_value_def)

lemma posture_of_value_Some: "posture_of_value s = Some p \<Longrightarrow> s = posture_value p"
  by (auto simp: posture_of_value_def posture_value_def split: if_splits)

lemma is_strict_simps [simp]: "is_strict Research" "is_strict Prod" "\<not> is_strict Dev"
  by (simp_all add: is_strict_def)

lemma posture_from_env_canonical [simp]: "posture_from_env (Some (posture_value p)) = Inr p"
  by (cases p) (simp_all add: posture_from_env_def env_get_def posture_value_def py_strip_def
      is_py_space_def py_lower_def py_lower_char_def posture_of_value_def)

lemma posture_from_env_unset [simp]: "posture_from_env None = Inr Dev"
  using posture_from_env_canonical [of Dev]
  by (simp add: posture_from_env_def env_get_def posture_value_def)

text \<open>
  Where the posture variable names a posture, the two readers agree; an unset variable is read as
  \<open>dev\<close> by \<open>from_env\<close> and as \<open>prod\<close> by \<open>resolve_runtime_mode\<close>.
\<close>

lemma resolve_runtime_mode_agrees:
  "posture_from_env (Some v) = Inr p \<Longrightarrow> resolve_runtime_mode (Some v) l = posture_value p"
  by (auto simp: posture_from_env_def resolve_runtime_mode_def env_get_def Let_def
      posture_of_value_def posture_value_def split: if_splits)

lemma resolve_runtime_mode_unset: "resolve_runtime_mode None None = ''prod''"
  by (simp add: resolve_runtime_mode_def env_get_def py_strip_def py_lower_def)

end
