(* ===== verification/Run_State.thy ===== *)
theory Run_State
  imports Prelude
begin

text \<open>
  The run state validator of \<open>hi_agent/server/run_state_transitions.py\<close>: the legal state graph,
  the terminal states and \<open>transition\<close>, the only writer of \<open>ManagedRun.state\<close>. States are the
  strings the code uses, so that unknown states arrive as the code sees them; an exception is the
  left of a sum and leaves the run as it was.
\<close>

record managed_run =
  mr_run_id :: string
  mr_state :: string

datatype transition_error = UnknownCurrentState string | IllegalTransition string string

definition LEGAL_TRANSITIONS :: "(string \<times> string list) list" where
  "LEGAL_TRANSITIONS =
    [(''created'', [''running'', ''failed'', ''cancelled'']),
     (''running'', [''completed'', ''failed'', ''cancelled'', ''active'', ''waiting'',
        ''recovering'', ''aborted'', ''queue_timeout'', ''queue_full'']),
     (''completed'', []),
     (''failed'', []),
     (''cancelled'', []),
     (''active'', [''completed'', ''failed'', ''cancelled'']),
     (''waiting'', [''completed'', ''failed'', ''cancelled'']),
     (''recovering'', [''completed'', ''failed'', ''cancelled'']),
     (''aborted'', []),
     (''queue_timeout'', []),
     (''queue_full'', [])]"

definition TERMINAL_STATES :: "string list" where
  "TERMINAL_STATES =
    [''completed'', ''failed'', ''cancelled'', ''aborted'', ''queue_timeout'', ''queue_full'']"

definition is_terminal :: "string \<Rightarrow> bool" where
  "is_terminal s = (s \<in> set TERMINAL_STATES)"

definition transition :: "managed_run \<Rightarrow> string \<Rightarrow> transition_error + managed_run" where
  "transition run target =
     (let cur = mr_state run in
      if cur = target then Inr run
      else if cur \<in> set TERMINAL_STATES \<and> target \<in> set TERMINAL_STATES then Inr run
      else case map_of LEGAL_TRANSITIONS cur of
        None \<Rightarrow> Inl (UnknownCurrentState cur)
      | Some allowed \<Rightarrow>
          if target \<notin> set allowed then Inl (IllegalTransition cur target)
          else Inr (run\<lparr>mr_state := target\<rparr>))"

text \<open>The run after an attempted transition (a raised \<open>ValueError\<close> changes nothing), and the
  number of attempts of a sequence that really change the state.\<close>

definition attempt :: "string \<Rightarrow> managed_run \<Rightarrow> managed_run" where
  "attempt target run = (case transition run target of Inl _ \<Rightarrow> run | Inr r \<Rightarrow> r)"

fun effective_changes :: "managed_run \<Rightarrow> string list \<Rightarrow> nat" where
  "effective_changes run [] = 0"
| "effective_changes run (t # ts) =
     (if mr_state (attempt t run) = mr_state run then 0 else 1) + effective_changes (attempt t run) ts"

text \<open>How far a state is from the end of every path of the graph.\<close>

definition phase :: "string \<Rightarrow> nat" where
  "phase s = (if s = ''created'' then 3 else if s = ''running'' then 2
     else if s \<in> {''active'', ''waiting'', ''recovering''} then 1 else 0)"

definition run_ok :: "managed_run \<Rightarrow> bool" where
  "run_ok run = (mr_state run \<in> fst ` set LEGAL_TRANSITIONS)"

section \<open>The graph\<close>

lemma legal_graph_check:
  "list_all (\<lambda>(s, ts). list_all (\<lambda>t. t \<in> set (map fst LEGAL_TRANSITIONS) \<and> phase t < phase s) ts)
     LEGAL_TRANSITIONS"
  by code_simp

lemma legal_terminal_check:
  "list_all (\<lambda>s. map_of LEGAL_TRANSITIONS s = Some []) TERMINAL_STATES"
  by code_simp

lemma phase_terminal_check:
  "list_all (\<lambda>s. (s \<in> set TERMINAL_STATES) = (phase s = 0)) (map fst LEGAL_TRANSITIONS)"
  by code_simp

lemma legal_edge:
  "map_of LEGAL_TRANSITIONS s = Some ts \<Longrightarrow> t \<in> set ts \<Longrightarrow>
   t \<in> fst ` set LEGAL_TRANSITIONS \<and> phase t < phase s"
  using legal_graph_check by (fastforce simp: list_all_iff dest: map_of_SomeD)

lemmas legal_closed = legal_edge [THEN conjunct1]
lemmas legal_phase = legal_edge [THEN conjunct2]

lemma terminal_no_exit: "is_terminal s \<Longrightarrow> map_of LEGAL_TRANSITIONS s = Some []"
  using legal_terminal_check by (simp add: is_terminal_def list_all_iff)

lemma terminal_iff_phase: "s \<in> fst ` set LEGAL_TRANSITIONS \<Longrightarrow> is_terminal s \<longleftrightarrow> phase s = 0"
  using phase_terminal_check by (auto simp: is_terminal_def list_all_iff)

lemma transition_Inr:
  "transition run target = Inr run' \<Longrightarrow>
   run' = run \<or> (\<exists>ts. map_of LEGAL_TRANSITIONS (mr_state run) = Some ts \<and> target \<in> set ts \<and>
     run' = run\<lparr>mr_state := target\<rparr>)"
  unfolding transition_def Let_def by (simp split: if_splits option.splits)

lemma attempt_moves:
  "attempt target run = run \<or>
   (\<exists>ts. map_of LEGAL_TRANSITIONS (mr_state run) = Some ts \<and> target \<in> set ts \<and>
     attempt target run = run\<lparr>mr_state := target\<rparr>)"
  using transition_Inr [of run target] by (simp add: attempt_def split: sum.splits)

lemma attempt_cases:
  obtains (same) "attempt target run = run"
    | (moved) ts where "map_of LEGAL_TRANSITIONS (mr_state run) = Some ts" "target \<in> set ts"
        "attempt target run = run\<lparr>mr_state := target\<rparr>"
  using attempt_moves [of target run] by blast

lemma attempt_ok: "run_ok run \<Longrightarrow> run_ok (attempt target run)"
  by (rule attempt_cases [of target run]) (auto simp: run_ok_def dest: legal_closed)

lemma attempt_terminal: "is_terminal (mr_state run) \<Longrightarrow> attempt target run = run"
  by (rule attempt_cases [of target run]) (auto dest: terminal_no_exit)

lemma attempt_phase: "phase (mr_state (attempt target run)) \<le> phase (mr_state run)"
  by (rule attempt_cases [of target run]) (auto dest: legal_phase)

lemma attempt_phase_less:
  "mr_state (attempt target run) \<noteq> mr_state run \<Longrightarrow>
   phase (mr_state (attempt target run)) < phase (mr_state run)"
  by (rule attempt_cases [of target run]) (auto dest: legal_phase)

interpretation run_life: monotone_system attempt run_ok
  "\<lambda>t s. is_terminal (mr_state s) \<longrightarrow> t = s"
  by unfold_locales (auto simp: attempt_ok attempt_terminal)

lemma effective_changes_phase: "effective_changes run ts \<le> phase (mr_state run)"
proof (induction ts arbitrary: run)
  case (Cons t ts)
  have "effective_changes (attempt t run) ts \<le> phase (mr_state (attempt t run))"
    by (rule Cons.IH)
  then show ?case
    using attempt_phase [of t run] attempt_phase_less [of t run] by (cases "mr_state (attempt t run) = mr_state run") auto
qed simp

section \<open>Properties\<close>

text \<open>Whatever transitions are attempted on a run that starts in a known state, legal or not, its
  state stays a known one; at most three attempts really change it (fewer from a later state); and
  once it is terminal no attempt changes the run again.\<close>

lemma run_lifecycle:
  assumes "run_ok run"
  shows "run_ok (fold attempt targets run) \<and>
    effective_changes run targets \<le> phase (mr_state run) \<and> phase (mr_state run) \<le> 3 \<and>
    (is_terminal (mr_state (fold attempt targets run)) \<longrightarrow>
       fold attempt (targets @ later) run = fold attempt targets run)"
proof (intro conjI impI)
  show ok: "run_ok (fold attempt targets run)" by (rule run_life.run_inv [OF assms])
  show "effective_changes run targets \<le> phase (mr_state run)" by (rule effective_changes_phase)
  show "phase (mr_state run) \<le> 3" by (simp add: phase_def)
  show "fold attempt (targets @ later) run = fold attempt targets run"
    if "is_terminal (mr_state (fold attempt targets run))"
    using run_life.run_ge [OF ok, of later] that by simp
qed

text \<open>\<open>transition\<close> raises exactly when the target differs from the current state, not both are
  terminal, and the graph has no such edge, naming an unknown current state as such; otherwise the
  state becomes the target when the graph has the edge, and is kept when the target is the current
  state or both are terminal.\<close>

lemma transition_outcomes:
  "transition run target =
     (if mr_state run = target \<or> (is_terminal (mr_state run) \<and> is_terminal target) then Inr run
      else if mr_state run \<notin> fst ` set LEGAL_TRANSITIONS then Inl (UnknownCurrentState (mr_state run))
      else if \<exists>ts. (mr_state run, ts) \<in> set LEGAL_TRANSITIONS \<and> target \<in> set ts
      then Inr (run\<lparr>mr_state := target\<rparr>)
      else Inl (IllegalTransition (mr_state run) target))"
proof (cases "map_of LEGAL_TRANSITIONS (mr_state run)")
  case None
  then have "mr_state run \<notin> fst ` set LEGAL_TRANSITIONS" by (simp add: map_of_eq_None_iff)
  with None show ?thesis by (simp add: transition_def Let_def is_terminal_def)
next
  case (Some ts)
  have "distinct (map fst LEGAL_TRANSITIONS)" by code_simp
  then have "(mr_state run, ts') \<in> set LEGAL_TRANSITIONS \<longleftrightarrow> ts' = ts" for ts'
    using Some map_of_eq_Some_iff by (metis option.inject)
  moreover from Some have "mr_state run \<in> fst ` set LEGAL_TRANSITIONS"
    by (metis domI dom_map_of_conv_image_fst)
  ultimately show ?thesis using Some by (auto simp add: transition_def Let_def is_terminal_def)
qed

end
