(* ===== verification/Trace_Machines.thy ===== *)
theory Trace_Machines
  imports Prelude
begin

text \<open>
  The generic finite state machine of \<open>hi_agent/state_machine/machine.py\<close> and the six machines of
  \<open>hi_agent/state_machine/definitions.py\<close>. A Python set of states is a list without significance of
  order; \<open>_callbacks\<close> holds identifiers of the registered callbacks and \<open>sm_calls\<close> the invocations
  they received (what a callback does is code of the caller and is not modelled).
\<close>

record state_machine =
  sm_name :: string
  sm_states :: "string list"
  sm_current :: string
  sm_transitions :: "(string \<times> string list) list"
  sm_terminal :: "string list"
  sm_history :: "(string \<times> string \<times> string) list"
  sm_callbacks :: "nat list"
  sm_calls :: "(nat \<times> string \<times> string) list"

datatype machine_error = InitialNotInStates string | InvalidTransition string string string

definition mk_state_machine ::
  "string \<Rightarrow> string list \<Rightarrow> string \<Rightarrow> (string \<times> string list) list \<Rightarrow> string list option \<Rightarrow>
   machine_error + state_machine" where
  "mk_state_machine name states initial transitions terminal =
     (if initial \<notin> set states then Inl (InitialNotInStates initial)
      else Inr \<lparr>sm_name = name, sm_states = states, sm_current = initial,
        sm_transitions = transitions,
        sm_terminal = (case terminal of None \<Rightarrow> [] | Some t \<Rightarrow> t),
        sm_history = [], sm_callbacks = [], sm_calls = []\<rparr>)"

definition sm_is_terminal :: "state_machine \<Rightarrow> bool" where
  "sm_is_terminal m = (sm_current m \<in> set (sm_terminal m))"

definition available_transitions :: "state_machine \<Rightarrow> string list" where
  "available_transitions m =
     (case map_of (sm_transitions m) (sm_current m) of None \<Rightarrow> [] | Some ts \<Rightarrow> ts)"

definition can_transition :: "state_machine \<Rightarrow> string \<Rightarrow> bool" where
  "can_transition m to_state =
     (if to_state \<notin> set (sm_states m) then False
      else to_state \<in> set (case map_of (sm_transitions m) (sm_current m) of None \<Rightarrow> [] | Some ts \<Rightarrow> ts))"

definition sm_transition :: "state_machine \<Rightarrow> string \<Rightarrow> machine_error + state_machine" where
  "sm_transition m to_state =
     (if \<not> can_transition m to_state
      then Inl (InvalidTransition (sm_name m) (sm_current m) to_state)
      else let from_state = sm_current m in
        Inr (m\<lparr>sm_current := to_state,
          sm_history := sm_history m @ [(from_state, to_state, sm_name m)],
          sm_calls := sm_calls m @ map (\<lambda>cb. (cb, from_state, to_state)) (sm_callbacks m)\<rparr>))"

definition on_transition :: "state_machine \<Rightarrow> nat \<Rightarrow> state_machine" where
  "on_transition m callback = m\<lparr>sm_callbacks := sm_callbacks m @ [callback]\<rparr>"

definition run_state_machine :: "machine_error + state_machine" where
  "run_state_machine = mk_state_machine ''run''
     [''created'', ''active'', ''waiting'', ''recovering'', ''completed'', ''failed'', ''aborted'', ''cancelled'']
     ''created''
     [(''created'', [''active'', ''cancelled'']),
      (''active'', [''waiting'', ''completed'', ''failed'', ''aborted'', ''cancelled'']),
      (''waiting'', [''active'', ''recovering'', ''aborted'', ''cancelled'']),
      (''recovering'', [''active'', ''failed'', ''aborted'', ''cancelled''])]
     (Some [''completed'', ''failed'', ''aborted'', ''cancelled''])"

definition stage_state_machine :: "machine_error + state_machine" where
  "stage_state_machine = mk_state_machine ''stage''
     [''pending'', ''active'', ''blocked'', ''completed'', ''failed''] ''pending''
     [(''pending'', [''active'']),
      (''active'', [''blocked'', ''completed'', ''failed'']),
      (''blocked'', [''active'', ''failed''])]
     (Some [''completed'', ''failed''])"

definition branch_state_machine :: "machine_error + state_machine" where
  "branch_state_machine = mk_state_machine ''branch''
     [''proposed'', ''active'', ''pruned'', ''waiting'', ''succeeded'', ''failed''] ''proposed''
     [(''proposed'', [''active'', ''pruned'']),
      (''active'', [''pruned'', ''waiting'', ''succeeded'', ''failed'']),
      (''waiting'', [''active'', ''pruned''])]
     (Some [''pruned'', ''succeeded'', ''failed''])"

definition action_state_machine :: "machine_error + state_machine" where
  "action_state_machine = mk_state_machine ''action''
     [''prepared'', ''dispatched'', ''acknowledged'', ''succeeded'', ''effect_unknown'', ''failed'', ''compensated'']
     ''prepared''
     [(''prepared'', [''dispatched'']),
      (''dispatched'', [''acknowledged'', ''failed'', ''effect_unknown'']),
      (''acknowledged'', [''succeeded'', ''failed'', ''effect_unknown'', ''compensated''])]
     (Some [''succeeded'', ''effect_unknown'', ''failed'', ''compensated''])"

definition wait_state_machine :: "machine_error + state_machine" where
  "wait_state_machine = mk_state_machine ''wait''
     [''none'', ''external_callback'', ''human_review'', ''scheduled_resume''] ''none''
     [(''none'', [''external_callback'', ''human_review'', ''scheduled_resume'']),
      (''external_callback'', [''none'']),
      (''human_review'', [''none'']),
      (''scheduled_resume'', [''none''])]
     None"

definition review_state_machine :: "machine_error + state_machine" where
  "review_state_machine = mk_state_machine ''review''
     [''not_required'', ''requested'', ''in_review'', ''approved'', ''rejected''] ''not_required''
     [(''not_required'', [''requested'']),
      (''requested'', [''in_review'']),
      (''in_review'', [''approved'', ''rejected''])]
     (Some [''approved'', ''rejected''])"

section \<open>Runs of a machine\<close>

definition sm_attempt :: "string \<Rightarrow> state_machine \<Rightarrow> state_machine" where
  "sm_attempt to_state m = (case sm_transition m to_state of Inl _ \<Rightarrow> m | Inr m' \<Rightarrow> m')"

text \<open>One edge of a machine's table that \<open>can_transition\<close> accepts.\<close>

definition sm_edge :: "state_machine \<Rightarrow> string \<Rightarrow> string \<Rightarrow> bool" where
  "sm_edge m s t = can_transition (m\<lparr>sm_current := s\<rparr>) t"

text \<open>A list of history entries is a path of edges from \<open>s\<close> to \<open>t\<close>.\<close>

fun history_path :: "state_machine \<Rightarrow> string \<Rightarrow> (string \<times> string \<times> string) list \<Rightarrow> string \<Rightarrow> bool" where
  "history_path m s [] t = (s = t)"
| "history_path m s ((a, b, n) # h) t = (a = s \<and> n = sm_name m \<and> sm_edge m a b \<and> history_path m b h t)"

text \<open>The table names only declared states and no terminal state has a way out.\<close>

definition table_ok :: "state_machine \<Rightarrow> bool" where
  "table_ok m =
     (list_all (\<lambda>(s, ts). s \<in> set (sm_states m) \<and> s \<notin> set (sm_terminal m) \<and> list_all (\<lambda>t. t \<in> set (sm_states m)) ts)
        (sm_transitions m) \<and> list_all (\<lambda>s. s \<in> set (sm_states m)) (sm_terminal m))"

text \<open>The states from which a terminal state is reached in at most \<open>n\<close> edges.\<close>

fun finishing :: "state_machine \<Rightarrow> nat \<Rightarrow> string list" where
  "finishing m 0 = sm_terminal m"
| "finishing m (Suc n) =
     (let f = finishing m n in f @ filter (\<lambda>s. list_ex (sm_edge m s) f) (sm_states m))"

lemma sm_edge_iff: "sm_edge m s t \<longleftrightarrow>
  t \<in> set (sm_states m) \<and> (\<exists>ts. map_of (sm_transitions m) s = Some ts \<and> t \<in> set ts)"
  by (cases "map_of (sm_transitions m) s") (auto simp: sm_edge_def can_transition_def)

lemma can_transition_edge: "can_transition m t = sm_edge m (sm_current m) t"
  by (simp add: sm_edge_def)

lemma table_ok_terminal: "table_ok m \<Longrightarrow> s \<in> set (sm_terminal m) \<Longrightarrow> \<not> sm_edge m s t"
  by (auto simp: table_ok_def sm_edge_iff list_all_iff dest!: map_of_SomeD)

lemma sm_attempt_cases:
  "(\<not> can_transition m t \<and> sm_attempt t m = m) \<or>
   (can_transition m t \<and> sm_attempt t m = m\<lparr>sm_current := t,
      sm_history := sm_history m @ [(sm_current m, t, sm_name m)],
      sm_calls := sm_calls m @ map (\<lambda>cb. (cb, sm_current m, t)) (sm_callbacks m)\<rparr>)"
  by (simp add: sm_attempt_def sm_transition_def Let_def)

lemma sm_edge_cong:
  "sm_states m' = sm_states m \<Longrightarrow> sm_transitions m' = sm_transitions m \<Longrightarrow> sm_edge m' = sm_edge m"
  by (auto simp: fun_eq_iff sm_edge_iff)

lemma history_path_append:
  "history_path m s (h @ [(a, b, n)]) t \<longleftrightarrow>
   history_path m s h a \<and> n = sm_name m \<and> sm_edge m a b \<and> b = t"
  by (induction h arbitrary: s) auto

lemma history_path_cong:
  "sm_states m' = sm_states m \<Longrightarrow> sm_transitions m' = sm_transitions m \<Longrightarrow> sm_name m' = sm_name m \<Longrightarrow>
   history_path m' s h t = history_path m s h t"
  using sm_edge_cong [of m' m] by (induction m s h t rule: history_path.induct) auto

text \<open>The static part of a machine, which no transition writes.\<close>

definition same_table :: "state_machine \<Rightarrow> state_machine \<Rightarrow> bool" where
  "same_table m' m = (sm_name m' = sm_name m \<and> sm_states m' = sm_states m \<and>
     sm_transitions m' = sm_transitions m \<and> sm_terminal m' = sm_terminal m)"

text \<open>What holds of a machine at any time of its life.\<close>

definition machine_inv :: "state_machine \<Rightarrow> state_machine \<Rightarrow> bool" where
  "machine_inv m0 m = (same_table m m0 \<and> sm_current m \<in> set (sm_states m0) \<and>
     history_path m0 (sm_current m0) (sm_history m) (sm_current m))"

lemma sm_attempt_inv: "machine_inv m0 m \<Longrightarrow> machine_inv m0 (sm_attempt t m)"
  using sm_attempt_cases [of m t] sm_edge_cong [of m m0]
  by (auto simp: machine_inv_def same_table_def history_path_append can_transition_edge sm_edge_iff)

lemma sm_attempt_terminal:
  assumes "table_ok m0" "machine_inv m0 m" "sm_is_terminal m"
  shows "sm_attempt t m = m"
  using sm_attempt_cases [of m t] table_ok_terminal [OF assms(1), of "sm_current m" t] assms(2,3)
    sm_edge_cong [of m m0]
  by (auto simp: machine_inv_def same_table_def sm_is_terminal_def can_transition_edge)

interpretation machine_life: op_system sm_attempt "machine_inv m0" for m0
  by unfold_locales (rule sm_attempt_inv)

lemma terminal_run:
  assumes "table_ok m0" "machine_inv m0 m" "sm_is_terminal m"
  shows "fold sm_attempt ts m = m"
  by (induction ts) (simp_all add: sm_attempt_terminal [OF assms])

lemma mk_machine_inv:
  "mk_state_machine name states initial transitions terminal = Inr m \<Longrightarrow> machine_inv m m"
  by (auto simp: mk_state_machine_def machine_inv_def same_table_def split: if_splits)

lemma finishing_reaches:
  "s \<in> set (finishing m n) \<Longrightarrow> \<exists>t\<in>set (sm_terminal m). (sm_edge m)\<^sup>*\<^sup>* s t"
proof (induction n arbitrary: s)
  case (Suc n)
  then consider "s \<in> set (finishing m n)" | u where "u \<in> set (finishing m n)" "sm_edge m s u"
    by (auto simp: Let_def list_ex_iff)
  then show ?case
    by cases (use Suc.IH in \<open>blast intro: converse_rtranclp_into_rtranclp\<close>)+
qed auto

text \<open>The predefined machines are built without an error and have sound tables; all but the wait
  machine, which has no terminal state, can finish from each of their states.\<close>

definition trace_machines :: "(machine_error + state_machine) list" where
  "trace_machines = [run_state_machine, stage_state_machine, branch_state_machine,
     action_state_machine, wait_state_machine, review_state_machine]"

definition machine_check :: "machine_error + state_machine \<Rightarrow> bool" where
  "machine_check r = (case r of Inl _ \<Rightarrow> False | Inr m \<Rightarrow> table_ok m \<and> machine_inv m m \<and>
     (sm_terminal m = [] \<or> list_all (\<lambda>s. s \<in> set (finishing m 3)) (sm_states m)))"

lemma trace_machines_check: "list_all machine_check trace_machines"
  by code_simp

lemma trace_machine_ok:
  "Inr m \<in> set trace_machines \<Longrightarrow>
   table_ok m \<and> machine_inv m m \<and>
   (sm_terminal m = [] \<or> (\<forall>s\<in>set (sm_states m). s \<in> set (finishing m 3)))"
  using trace_machines_check by (auto simp: list_all_iff machine_check_def)

lemma trace_machines_built: "Inl e \<notin> set trace_machines"
  using trace_machines_check by (fastforce simp: list_all_iff machine_check_def)

lemma trace_machine_Inr: "r \<in> set trace_machines \<Longrightarrow> \<exists>m. r = Inr m"
  using trace_machines_built by (cases r) auto

lemma review_machine_Inr: "\<exists>m. review_state_machine = Inr m"
  by (rule trace_machine_Inr) (simp add: trace_machines_def)

section \<open>Properties\<close>

text \<open>Every predefined machine, driven by any sequence of attempted transitions, is in a declared
  state; its recorded history is a path of allowed edges from the initial state to the current one;
  and once it is in a terminal state further attempts leave it exactly as it is.\<close>

lemma trace_machine_life:
  assumes "Inr m \<in> set trace_machines"
  shows "machine_inv m (fold sm_attempt targets m) \<and>
    (sm_is_terminal (fold sm_attempt targets m) \<longrightarrow>
       fold sm_attempt (targets @ later) m = fold sm_attempt targets m)"
proof -
  have ok: "table_ok m" "machine_inv m m" using trace_machine_ok [OF assms] by auto
  have "machine_inv m (fold sm_attempt targets m)" by (rule machine_life.run_inv [OF ok(2)])
  then show ?thesis using terminal_run [OF ok(1)] by simp
qed

text \<open>All six predefined machines are built without a configuration error, and every one but the
  wait machine, which declares no terminal state, can reach a terminal state from each of its
  states.\<close>

lemma trace_machines_can_finish:
  "list_all (\<lambda>r. \<exists>m. r = Inr m) trace_machines \<and>
   (\<forall>m. Inr m \<in> set trace_machines \<longrightarrow> sm_terminal m \<noteq> [] \<longrightarrow>
      (\<forall>s\<in>set (sm_states m). \<exists>t\<in>set (sm_terminal m). (sm_edge m)\<^sup>*\<^sup>* s t)) \<and>
   (\<forall>m. Inr m \<in> set trace_machines \<and> sm_terminal m = [] \<longrightarrow> Inr m = wait_state_machine)"
proof (intro conjI allI impI ballI)
  show "list_all (\<lambda>r. \<exists>m. r = Inr m) trace_machines"
    by (auto simp: list_all_iff intro: trace_machine_Inr)
  show "\<exists>t\<in>set (sm_terminal m). (sm_edge m)\<^sup>*\<^sup>* s t"
    if "Inr m \<in> set trace_machines" "sm_terminal m \<noteq> []" "s \<in> set (sm_states m)" for m s
    using trace_machine_ok [OF that(1)] that finishing_reaches by blast
  have "list_all (\<lambda>r. sm_terminal (projr r) \<noteq> []) (removeAll wait_state_machine trace_machines)"
    by code_simp
  then show "Inr m = wait_state_machine" if "Inr m \<in> set trace_machines \<and> sm_terminal m = []" for m
    using that by (force simp: list_all_iff)
qed

end
