(* ===== verification/Run_Queue.thy ===== *)
theory Run_Queue
  imports Posture_Model
begin

text \<open>
  The durable run queue of \<open>hi_agent/server/run_queue.py\<close>: the tables \<open>run_queue\<close> and
  \<open>dead_lettered_runs\<close>, and every method that reads or writes them. A method runs under the
  queue's lock, so it is one function from the tables to the tables and its result; the clock
  readings (\<open>now\<close>, and \<open>now_iso\<close> where the code also formats one) and the posture variable of the
  environment are arguments. \<open>TenantScopeError\<close> is the only exception, a left value that comes
  with unchanged tables.

  Not modelled: opening the database file, the schema migration of old files and the choice of
  the file path (\<open>__init__\<close>, \<open>_migrate\<close>, \<open>_resolve_db_path\<close>, \<open>close\<close>), and logging.
\<close>

section \<open>State\<close>

datatype rq_status = Queued | Leased | Completed | Failed

record run_row =
  rq_run_id :: string
  rq_status :: rq_status
  rq_priority :: int
  rq_attempt_count :: int
  rq_max_attempts :: int
  rq_worker_id :: "string option"
  rq_lease_expires_at :: "real option"
  rq_cancellation_flag :: bool
  rq_payload_json :: string
  rq_enqueued_at :: real
  rq_updated_at :: real
  rq_tenant_id :: string
  rq_user_id :: string
  rq_session_id :: string
  rq_project_id :: string
  rq_adoption_token :: "string option"

record dlq_row =
  dl_run_id :: string
  dl_reason :: string
  dl_original_state :: string
  dl_dead_lettered_at :: string
  dl_tenant_id :: string
  dl_requeue_count :: int
  dl_last_requeue_at :: "string option"
  dl_attempts_count :: int

record run_queue =
  rq_rows :: "run_row list"
  rq_dlq :: "dlq_row list"
  rq_lease_timeout :: real
  rq_metrics :: metrics_sink

datatype scope_failure = PostureResolutionFailed | TenantMissing

datatype rq_error = TenantScopeError string scope_failure

type_synonym 'a rq_result = "(rq_error + 'a) \<times> run_queue"

text \<open>A new queue: empty tables, and the heartbeat interval the constructor advertises.\<close>

definition rq_init :: "real \<Rightarrow> metrics_sink \<Rightarrow> run_queue" where
  "rq_init lease_timeout_seconds m =
     \<lparr>rq_rows = [], rq_dlq = [], rq_lease_timeout = lease_timeout_seconds, rq_metrics = m\<rparr>"

definition lease_heartbeat_interval_seconds :: "run_queue \<Rightarrow> real" where
  "lease_heartbeat_interval_seconds q = max 1 (rq_lease_timeout q / 3)"

section \<open>Tenant scope\<close>

definition check_tenant_scope ::
  "string option \<Rightarrow> string option \<Rightarrow> string \<Rightarrow> rq_error + string option" where
  "check_tenant_scope env tenant_id method =
     (let value = py_strip (str_or tenant_id) in
      if value \<noteq> '''' then Inr (Some value)
      else case posture_from_env env of
        Inl _ \<Rightarrow> Inl (TenantScopeError method PostureResolutionFailed)
      | Inr posture \<Rightarrow>
          if is_strict posture then Inl (TenantScopeError method TenantMissing) else Inr None)"

definition in_scope :: "string option \<Rightarrow> string \<Rightarrow> bool" where
  "in_scope scoped tenant = (case scoped of None \<Rightarrow> True | Some t \<Rightarrow> tenant = t)"

definition with_scope ::
  "string option \<Rightarrow> string option \<Rightarrow> string \<Rightarrow> run_queue \<Rightarrow> (string option \<Rightarrow> 'a \<times> run_queue) \<Rightarrow>
   'a rq_result" where
  "with_scope env tenant_id method q body =
     (case check_tenant_scope env tenant_id method of
        Inl e \<Rightarrow> (Inl e, q)
      | Inr scoped \<Rightarrow> (case body scoped of (v, q') \<Rightarrow> (Inr v, q')))"

section \<open>Operations\<close>

definition enqueue ::
  "real \<Rightarrow> string \<Rightarrow> int \<Rightarrow> string \<Rightarrow> string \<Rightarrow> string \<Rightarrow> string \<Rightarrow> string \<Rightarrow> run_queue \<Rightarrow> run_queue" where
  "enqueue now run_id priority payload_json tenant_id user_id session_id project_id q =
     q\<lparr>rq_rows := sql_insert_ignore rq_run_id
         \<lparr>rq_run_id = run_id, rq_status = Queued, rq_priority = priority, rq_attempt_count = 0,
          rq_max_attempts = 3, rq_worker_id = None, rq_lease_expires_at = None,
          rq_cancellation_flag = False, rq_payload_json = payload_json, rq_enqueued_at = now,
          rq_updated_at = now, rq_tenant_id = tenant_id, rq_user_id = user_id,
          rq_session_id = session_id, rq_project_id = project_id, rq_adoption_token = None\<rparr>
         (rq_rows q)\<rparr>"

definition reenqueue ::
  "string option \<Rightarrow> real \<Rightarrow> string \<Rightarrow> string option \<Rightarrow> run_queue \<Rightarrow> bool rq_result" where
  "reenqueue env now run_id tenant_id q = with_scope env tenant_id ''reenqueue'' q (\<lambda>scoped.
     let p = (\<lambda>r. rq_run_id r = run_id \<and> in_scope scoped (rq_tenant_id r)) in
     (0 < sql_rowcount p (rq_rows q),
      q\<lparr>rq_rows := sql_update p
          (\<lambda>r. r\<lparr>rq_status := Queued, rq_worker_id := None, rq_lease_expires_at := None,
                rq_adoption_token := None, rq_updated_at := now\<rparr>) (rq_rows q)\<rparr>))"

text \<open>The SELECT of \<open>claim_next\<close>: the first claimable row in the order of the index
  \<open>(status, priority, enqueued_at)\<close>, whose ties follow the rowid.\<close>

definition claimable :: "run_row \<Rightarrow> bool" where
  "claimable r = (rq_status r = Queued \<and> \<not> rq_cancellation_flag r)"

definition claim_candidate :: "run_queue \<Rightarrow> run_row option" where
  "claim_candidate q =
     (case sort_key (\<lambda>r. (rq_priority r, rq_enqueued_at r)) (filter claimable (rq_rows q)) of
        [] \<Rightarrow> None | r # _ \<Rightarrow> Some r)"

definition claim_next ::
  "real \<Rightarrow> string \<Rightarrow> run_queue \<Rightarrow> (string \<times> string) option \<times> run_queue" where
  "claim_next now worker_id q =
     (let lease_expires_at = now + rq_lease_timeout q in
      case claim_candidate q of
        None \<Rightarrow> (None, q)
      | Some row \<Rightarrow>
          let p = (\<lambda>r. rq_run_id r = rq_run_id row \<and> rq_status r = Queued);
              q' = q\<lparr>rq_rows := sql_update p
                (\<lambda>r. r\<lparr>rq_status := Leased, rq_worker_id := Some worker_id,
                      rq_lease_expires_at := Some lease_expires_at, rq_updated_at := now\<rparr>) (rq_rows q)\<rparr>
          in if sql_rowcount p (rq_rows q) = 0
             then (None, q'\<lparr>rq_metrics :=
               metric_increment ''hi_agent_queue_duplicate_claim_blocked_total'' (rq_metrics q')\<rparr>)
             else (Some (rq_run_id row, rq_payload_json row), q'))"

definition lease_at_least :: "real \<Rightarrow> run_row \<Rightarrow> bool" where
  "lease_at_least now r = (case rq_lease_expires_at r of None \<Rightarrow> False | Some e \<Rightarrow> now \<le> e)"

definition lease_expired :: "real \<Rightarrow> run_row \<Rightarrow> bool" where
  "lease_expired now r = (case rq_lease_expires_at r of None \<Rightarrow> False | Some e \<Rightarrow> e < now)"

definition heartbeat ::
  "string option \<Rightarrow> real \<Rightarrow> string \<Rightarrow> string \<Rightarrow> string option \<Rightarrow> run_queue \<Rightarrow> bool rq_result" where
  "heartbeat env now run_id worker_id tenant_id q = with_scope env tenant_id ''heartbeat'' q (\<lambda>scoped.
     let lease_expires_at = now + rq_lease_timeout q;
         p = (\<lambda>r. rq_run_id r = run_id \<and> rq_worker_id r = Some worker_id \<and> rq_status r = Leased \<and>
               lease_at_least now r \<and> in_scope scoped (rq_tenant_id r)) in
     (0 < sql_rowcount p (rq_rows q),
      q\<lparr>rq_rows := sql_update p
          (\<lambda>r. r\<lparr>rq_lease_expires_at := Some lease_expires_at, rq_updated_at := now\<rparr>) (rq_rows q)\<rparr>))"

definition release_lease :: "real \<Rightarrow> string \<Rightarrow> string \<Rightarrow> run_queue \<Rightarrow> bool \<times> run_queue" where
  "release_lease now run_id worker_id q =
     (let p = (\<lambda>r. rq_run_id r = run_id \<and> rq_worker_id r = Some worker_id \<and> rq_status r = Leased) in
      (0 < sql_rowcount p (rq_rows q),
       q\<lparr>rq_rows := sql_update p
           (\<lambda>r. r\<lparr>rq_status := Queued, rq_worker_id := None, rq_lease_expires_at := None,
                 rq_updated_at := now\<rparr>) (rq_rows q)\<rparr>))"

definition complete ::
  "string option \<Rightarrow> real \<Rightarrow> string \<Rightarrow> string \<Rightarrow> string option \<Rightarrow> run_queue \<Rightarrow> unit rq_result" where
  "complete env now run_id worker_id tenant_id q = with_scope env tenant_id ''complete'' q (\<lambda>scoped.
     ((), q\<lparr>rq_rows := sql_update
        (\<lambda>r. rq_run_id r = run_id \<and> rq_worker_id r = Some worker_id \<and> in_scope scoped (rq_tenant_id r))
        (\<lambda>r. r\<lparr>rq_status := Completed, rq_worker_id := None, rq_lease_expires_at := None,
              rq_updated_at := now\<rparr>) (rq_rows q)\<rparr>))"

text \<open>\<open>INSERT OR REPLACE INTO dead_lettered_runs\<close>, which carries the requeue counters of a record
  it replaces over.\<close>

definition dlq_insert ::
  "string \<Rightarrow> string \<Rightarrow> string \<Rightarrow> string \<Rightarrow> string \<Rightarrow> int \<Rightarrow> dlq_row list \<Rightarrow> dlq_row list" where
  "dlq_insert run_id reason original_state now_iso tenant_id attempts dlq =
     (let old = sql_lookup dl_run_id run_id dlq in
      sql_insert_replace dl_run_id
        \<lparr>dl_run_id = run_id, dl_reason = reason, dl_original_state = original_state,
         dl_dead_lettered_at = now_iso, dl_tenant_id = tenant_id,
         dl_requeue_count = (case old of None \<Rightarrow> 0 | Some d \<Rightarrow> dl_requeue_count d),
         dl_last_requeue_at = (case old of None \<Rightarrow> None | Some d \<Rightarrow> dl_last_requeue_at d),
         dl_attempts_count = attempts\<rparr> dlq)"

definition fail ::
  "string option \<Rightarrow> real \<Rightarrow> string \<Rightarrow> string \<Rightarrow> string \<Rightarrow> string option \<Rightarrow> run_queue \<Rightarrow> unit rq_result" where
  "fail env now now_iso run_id worker_id tenant_id q = with_scope env tenant_id ''fail'' q (\<lambda>scoped.
     case find (\<lambda>r. rq_run_id r = run_id \<and> rq_worker_id r = Some worker_id \<and>
                    in_scope scoped (rq_tenant_id r)) (rq_rows q) of
       None \<Rightarrow> ((), q)
     | Some row \<Rightarrow>
         let new_attempt_count = rq_attempt_count row + 1;
             exhausted = rq_max_attempts row \<le> new_attempt_count;
             new_status = (if exhausted then Failed else Queued);
             rows' = sql_update (\<lambda>r. rq_run_id r = run_id \<and> in_scope scoped (rq_tenant_id r))
               (\<lambda>r. r\<lparr>rq_status := new_status, rq_attempt_count := new_attempt_count,
                     rq_worker_id := None, rq_lease_expires_at := None, rq_updated_at := now\<rparr>)
               (rq_rows q)
         in if exhausted
            then ((), q\<lparr>rq_rows := rows', rq_dlq := dlq_insert run_id ''max_attempts_exceeded'' ''leased'' now_iso
                   (case sql_lookup rq_run_id run_id rows' of None \<Rightarrow> ''__unknown__'' | Some r \<Rightarrow> rq_tenant_id r)
                   new_attempt_count (rq_dlq q)\<rparr>)
            else ((), q\<lparr>rq_rows := rows'\<rparr>))"

definition cancel ::
  "string option \<Rightarrow> real \<Rightarrow> string \<Rightarrow> string option \<Rightarrow> run_queue \<Rightarrow> unit rq_result" where
  "cancel env now run_id tenant_id q = with_scope env tenant_id ''cancel'' q (\<lambda>scoped.
     ((), q\<lparr>rq_rows := sql_update (\<lambda>r. rq_run_id r = run_id \<and> in_scope scoped (rq_tenant_id r))
        (\<lambda>r. r\<lparr>rq_cancellation_flag := True, rq_updated_at := now\<rparr>) (rq_rows q)\<rparr>))"

definition release_expired_leases :: "real \<Rightarrow> run_queue \<Rightarrow> nat \<times> run_queue" where
  "release_expired_leases now q =
     (let p = (\<lambda>r. rq_status r = Leased \<and> lease_expired now r) in
      (sql_rowcount p (rq_rows q),
       q\<lparr>rq_rows := sql_update p
           (\<lambda>r. r\<lparr>rq_status := Queued, rq_worker_id := None, rq_lease_expires_at := None,
                 rq_updated_at := now\<rparr>) (rq_rows q)\<rparr>))"

text \<open>\<open>round(x, 3)\<close>: the nearest multiple of a thousandth, ties to the even one. \<open>str\<close> of a float
  is the argument \<open>str_float\<close>.\<close>

definition py_round3 :: "real \<Rightarrow> real" where
  "py_round3 x = (let y = x * 1000; f = floor y; d = y - of_int f in
     (if d < 1/2 then of_int f else if d > 1/2 then of_int (f + 1)
      else if even f then of_int f else of_int (f + 1)) / 1000)"

record stale_lease =
  sl_run_id :: string
  sl_tenant_id :: string
  sl_expired_at :: string
  sl_lease_age_s :: real

definition expire_stale_leases :: "(real \<Rightarrow> string) \<Rightarrow> real \<Rightarrow> run_queue \<Rightarrow> stale_lease list" where
  "expire_stale_leases str_float now q =
     map (\<lambda>r. let e = (case rq_lease_expires_at r of None \<Rightarrow> 0 | Some e \<Rightarrow> e) in
            \<lparr>sl_run_id = rq_run_id r, sl_tenant_id = rq_tenant_id r, sl_expired_at = str_float e,
             sl_lease_age_s = py_round3 (now - (if e \<noteq> 0 then e else now))\<rparr>)
       (filter (\<lambda>r. rq_status r = Leased \<and> lease_expired now r) (rq_rows q))"

definition claim_with_adoption_token :: "real \<Rightarrow> string \<Rightarrow> string \<Rightarrow> run_queue \<Rightarrow> bool \<times> run_queue" where
  "claim_with_adoption_token now run_id adoption_token q =
     (let p = (\<lambda>r. rq_run_id r = run_id \<and> rq_adoption_token r = None) in
      (0 < sql_rowcount p (rq_rows q),
       q\<lparr>rq_rows := sql_update p
           (\<lambda>r. r\<lparr>rq_adoption_token := Some adoption_token, rq_updated_at := now\<rparr>) (rq_rows q)\<rparr>))"

definition is_cancelled ::
  "string option \<Rightarrow> string \<Rightarrow> string option \<Rightarrow> run_queue \<Rightarrow> bool rq_result" where
  "is_cancelled env run_id tenant_id q = with_scope env tenant_id ''is_cancelled'' q (\<lambda>scoped.
     (case find (\<lambda>r. rq_run_id r = run_id \<and> in_scope scoped (rq_tenant_id r)) (rq_rows q) of
        None \<Rightarrow> False | Some r \<Rightarrow> rq_cancellation_flag r, q))"

definition dequeue_unclaimed ::
  "string option \<Rightarrow> string \<Rightarrow> string option \<Rightarrow> run_queue \<Rightarrow> unit rq_result" where
  "dequeue_unclaimed env run_id tenant_id q = with_scope env tenant_id ''dequeue_unclaimed'' q (\<lambda>scoped.
     ((), q\<lparr>rq_rows := sql_delete
        (\<lambda>r. rq_run_id r = run_id \<and> rq_status r = Queued \<and> in_scope scoped (rq_tenant_id r))
        (rq_rows q)\<rparr>))"

definition dead_letter ::
  "string option \<Rightarrow> real \<Rightarrow> string \<Rightarrow> string \<Rightarrow> string \<Rightarrow> string \<Rightarrow> string option \<Rightarrow> run_queue \<Rightarrow>
   unit rq_result" where
  "dead_letter env now_ts now_iso run_id reason original_state tenant_id q =
     with_scope env tenant_id ''dead_letter'' q (\<lambda>scoped.
     let dlq_tenant_id = (case scoped of None \<Rightarrow> '''' | Some t \<Rightarrow> t);
         p = (\<lambda>r. rq_run_id r = run_id \<and> in_scope scoped (rq_tenant_id r));
         attempts_count = (case find p (rq_rows q) of None \<Rightarrow> 0 | Some r \<Rightarrow> rq_attempt_count r) in
     ((), q\<lparr>rq_dlq := dlq_insert run_id reason original_state now_iso dlq_tenant_id attempts_count (rq_dlq q),
            rq_rows := sql_update p (\<lambda>r. r\<lparr>rq_status := Failed, rq_updated_at := now_ts\<rparr>) (rq_rows q),
            rq_metrics := metric_increment ''hi_agent_runs_dead_lettered_total'' (rq_metrics q)\<rparr>))"

text \<open>\<open>ORDER BY dead_lettered_at DESC\<close>.\<close>

definition list_dlq :: "string option \<Rightarrow> run_queue \<Rightarrow> dlq_row list" where
  "list_dlq tenant_id q =
     rev (sort_key dl_dead_lettered_at (rev (filter (\<lambda>d. in_scope tenant_id (dl_tenant_id d)) (rq_dlq q))))"

definition requeue_from_dlq ::
  "string option \<Rightarrow> real \<Rightarrow> string \<Rightarrow> string \<Rightarrow> string option \<Rightarrow> run_queue \<Rightarrow> bool rq_result" where
  "requeue_from_dlq env now_ts now_iso run_id tenant_id q =
     with_scope env tenant_id ''requeue_from_dlq'' q (\<lambda>scoped.
     let p = (\<lambda>d. dl_run_id d = run_id \<and> in_scope scoped (dl_tenant_id d)) in
     case find p (rq_dlq q) of
       None \<Rightarrow> (False, q)
     | Some _ \<Rightarrow>
         let dlq1 = sql_update p
               (\<lambda>d. d\<lparr>dl_requeue_count := dl_requeue_count d + 1, dl_last_requeue_at := Some now_iso\<rparr>) (rq_dlq q);
             dlq2 = sql_delete p dlq1 in
         (True, q\<lparr>rq_dlq := dlq2,
            rq_rows := sql_update (\<lambda>r. rq_run_id r = run_id \<and> in_scope scoped (rq_tenant_id r))
              (\<lambda>r. r\<lparr>rq_status := Queued, rq_worker_id := None, rq_lease_expires_at := None,
                    rq_updated_at := now_ts\<rparr>) (rq_rows q)\<rparr>))"

end
