(* ===== verification/Run_Queue_Laws.thy ===== *)
theory Run_Queue_Laws
  imports Run_Queue
begin

text \<open>
  The run queue under any sequence of calls: an operation type with one constructor per method
  that writes or takes a tenant, its execution \<open>rq_exec\<close>, the invariant of the two tables and what each method does
  to the row of one run (\<open>rq_get\<close>).
\<close>

datatype rq_op =
    Enqueue real string int string string string string string
  | Reenqueue real string "string option"
  | ClaimNext real string
  | Heartbeat real string string "string option"
  | ReleaseLease real string string
  | Complete real string string "string option"
  | Fail real string string string "string option"
  | Cancel real string "string option"
  | ReleaseExpired real
  | ClaimAdoption real string string
  | DequeueUnclaimed string "string option"
  | DeadLetter real string string string string "string option"
  | RequeueFromDlq real string string "string option"
  | IsCancelled string "string option"

fun rq_exec :: "string option \<Rightarrow> rq_op \<Rightarrow> run_queue \<Rightarrow> run_queue" where
  "rq_exec env (Enqueue now rid pr pl t u s pj) q = enqueue now rid pr pl t u s pj q"
| "rq_exec env (Reenqueue now rid t) q = snd (reenqueue env now rid t q)"
| "rq_exec env (ClaimNext now w) q = snd (claim_next now w q)"
| "rq_exec env (Heartbeat now rid w t) q = snd (heartbeat env now rid w t q)"
| "rq_exec env (ReleaseLease now rid w) q = snd (release_lease now rid w q)"
| "rq_exec env (Complete now rid w t) q = snd (complete env now rid w t q)"
| "rq_exec env (Fail now ts rid w t) q = snd (fail env now ts rid w t q)"
| "rq_exec env (Cancel now rid t) q = snd (cancel env now rid t q)"
| "rq_exec env (ReleaseExpired now) q = snd (release_expired_leases now q)"
| "rq_exec env (ClaimAdoption now rid tok) q = snd (claim_with_adoption_token now rid tok q)"
| "rq_exec env (DequeueUnclaimed rid t) q = snd (dequeue_unclaimed env rid t q)"
| "rq_exec env (DeadLetter now ts rid reason orig t) q = snd (dead_letter env now ts rid reason orig t q)"
| "rq_exec env (RequeueFromDlq now ts rid t) q = snd (requeue_from_dlq env now ts rid t q)"
| "rq_exec env (IsCancelled rid t) q = snd (is_cancelled env rid t q)"

abbreviation rq_run :: "string option \<Rightarrow> rq_op list \<Rightarrow> run_queue \<Rightarrow> run_queue" where
  "rq_run env ops q \<equiv> fold (rq_exec env) ops q"

definition rq_get :: "run_queue \<Rightarrow> string \<Rightarrow> run_row option" where
  "rq_get q run_id = sql_lookup rq_run_id run_id (rq_rows q)"

definition dlq_get :: "run_queue \<Rightarrow> string \<Rightarrow> dlq_row option" where
  "dlq_get q run_id = sql_lookup dl_run_id run_id (rq_dlq q)"

text \<open>A lease and its owner come and go together; only a leased run, or one dead-lettered while
  leased, has them.\<close>

definition row_ok :: "run_row \<Rightarrow> bool" where
  "row_ok r = ((rq_worker_id r = None \<longleftrightarrow> rq_lease_expires_at r = None) \<and>
     (rq_status r = Leased \<longrightarrow> rq_worker_id r \<noteq> None) \<and>
     (rq_status r = Queued \<or> rq_status r = Completed \<longrightarrow> rq_worker_id r = None) \<and>
     0 \<le> rq_attempt_count r \<and> rq_max_attempts r = 3)"

definition dlq_ok :: "dlq_row \<Rightarrow> bool" where
  "dlq_ok d = (dl_requeue_count d = 0 \<and> dl_last_requeue_at d = None)"

definition rq_inv :: "run_queue \<Rightarrow> bool" where
  "rq_inv q = (unique_key rq_run_id (rq_rows q) \<and> unique_key dl_run_id (rq_dlq q) \<and>
     (\<forall>r\<in>set (rq_rows q). row_ok r) \<and> (\<forall>d\<in>set (rq_dlq q). dlq_ok d))"

section \<open>Tenant scope\<close>

lemma in_scope_simps [simp]: "in_scope None x" "in_scope (Some t) x \<longleftrightarrow> x = t"
  by (simp_all add: in_scope_def)

lemma with_scope_Inr [simp]:
  "check_tenant_scope env t m = Inr s \<Longrightarrow> with_scope env t m q body = (Inr (fst (body s)), snd (body s))"
  by (simp add: with_scope_def split: prod.splits)

lemma with_scope_Inl [simp]:
  "check_tenant_scope env t m = Inl e \<Longrightarrow> with_scope env t m q body = (Inl e, q)"
  by (simp add: with_scope_def)

lemma with_scope_state: "snd (with_scope env t m q body) =
  (case check_tenant_scope env t m of Inl e \<Rightarrow> q | Inr s \<Rightarrow> snd (body s))"
  by (auto simp: with_scope_def split: sum.splits prod.splits)

lemma check_tenant_scope_given [simp]:
  "py_strip t \<noteq> '''' \<Longrightarrow> check_tenant_scope env (Some t) m = Inr (Some (py_strip t))"
  by (simp add: check_tenant_scope_def)

lemma is_cancelled_state [simp]: "snd (is_cancelled env rid t q) = q"
  by (simp add: is_cancelled_def with_scope_state split: sum.split)

lemmas rq_op_defs = enqueue_def reenqueue_def heartbeat_def release_lease_def complete_def cancel_def
  release_expired_leases_def claim_with_adoption_token_def dequeue_unclaimed_def

section \<open>The claim\<close>

lemma claim_candidate_Some:
  assumes "claim_candidate q = Some r"
  shows "r \<in> set (rq_rows q) \<and> claimable r \<and>
    (\<forall>r'\<in>set (rq_rows q). claimable r' \<longrightarrow>
       (rq_priority r, rq_enqueued_at r) \<le> (rq_priority r', rq_enqueued_at r'))"
proof -
  let ?k = "\<lambda>r. (rq_priority r, rq_enqueued_at r)"
  obtain rs where eq: "sort_key ?k (filter claimable (rq_rows q)) = r # rs"
    using assms by (auto simp: claim_candidate_def split: list.splits)
  have "sorted (map ?k (r # rs))" unfolding eq [symmetric] by simp
  moreover have "set (r # rs) = {r \<in> set (rq_rows q). claimable r}"
    unfolding eq [symmetric] by auto
  ultimately show ?thesis by auto
qed

lemma claim_candidate_None: "claim_candidate q = None \<longleftrightarrow> (\<forall>r\<in>set (rq_rows q). \<not> claimable r)"
proof -
  let ?k = "\<lambda>r. (rq_priority r, rq_enqueued_at r)"
  have "claim_candidate q = None \<longleftrightarrow> sort_key ?k (filter claimable (rq_rows q)) = []"
    by (auto simp: claim_candidate_def split: list.splits)
  also have "\<dots> \<longleftrightarrow> set (sort_key ?k (filter claimable (rq_rows q))) = {}"
    by (metis set_empty)
  also have "\<dots> \<longleftrightarrow> (\<forall>r\<in>set (rq_rows q). \<not> claimable r)" by auto
  finally show ?thesis .
qed

definition lease_row :: "real \<Rightarrow> string \<Rightarrow> run_queue \<Rightarrow> run_row \<Rightarrow> run_row" where
  "lease_row now w q r = r\<lparr>rq_status := Leased, rq_worker_id := Some w,
     rq_lease_expires_at := Some (now + rq_lease_timeout q), rq_updated_at := now\<rparr>"

text \<open>The UPDATE that follows the SELECT always finds its row, so the branch that counts a blocked
  duplicate claim is not reached under the lock.\<close>

lemma claim_next_eq:
  "claim_next now w q = (case claim_candidate q of None \<Rightarrow> (None, q)
     | Some r \<Rightarrow> (Some (rq_run_id r, rq_payload_json r),
         q\<lparr>rq_rows := sql_update (\<lambda>x. rq_run_id x = rq_run_id r \<and> rq_status x = Queued)
           (lease_row now w q) (rq_rows q)\<rparr>))"
proof (cases "claim_candidate q")
  case (Some r)
  then have "r \<in> set (rq_rows q)" "rq_status r = Queued"
    using claim_candidate_Some by (auto simp: claimable_def)
  then have "sql_rowcount (\<lambda>x. rq_run_id x = rq_run_id r \<and> rq_status x = Queued) (rq_rows q) \<noteq> 0"
    by (auto simp: sql_rowcount_def filter_empty_conv)
  with Some show ?thesis by (simp add: claim_next_def Let_def lease_row_def [abs_def])
qed (simp add: claim_next_def)

section \<open>The invariant\<close>

lemma rq_inv_update:
  assumes "rq_inv q" "\<And>r. rq_run_id (f r) = rq_run_id r"
    and "\<And>r. row_ok r \<Longrightarrow> p r \<Longrightarrow> row_ok (f r)"
  shows "rq_inv (q\<lparr>rq_rows := sql_update p f (rq_rows q)\<rparr>)"
  using assms by (auto simp: rq_inv_def unique_key_update in_set_sql_update)

lemma dlq_insert_ok:
  assumes "unique_key dl_run_id dlq" "\<forall>d\<in>set dlq. dlq_ok d"
  shows "unique_key dl_run_id (dlq_insert rid reason orig ts t n dlq) \<and>
    (\<forall>d\<in>set (dlq_insert rid reason orig ts t n dlq). dlq_ok d)"
  using assms by (auto simp: dlq_insert_def Let_def set_insert_replace dlq_ok_def
      dest: sql_lookup_SomeD split: option.splits)

lemma rq_inv_dlq_insert:
  "rq_inv q \<Longrightarrow> rq_inv (q\<lparr>rq_dlq := dlq_insert rid reason orig ts t n (rq_dlq q)\<rparr>)"
  using dlq_insert_ok [of "rq_dlq q"] by (simp add: rq_inv_def)

lemma rq_inv_dlq_drop:
  assumes "rq_inv q" "\<And>d. dl_run_id (f d) = dl_run_id d" "\<And>d. p (f d) = p d"
  shows "rq_inv (q\<lparr>rq_dlq := sql_delete p (sql_update p f (rq_dlq q))\<rparr>)"
  using assms by (auto simp: rq_inv_def unique_key_update set_sql_delete in_set_sql_update)

lemma rq_inv_metrics [simp]: "rq_inv (q\<lparr>rq_metrics := m\<rparr>) = rq_inv q"
  by (simp add: rq_inv_def)

lemma rq_inv_init [simp]: "rq_inv (rq_init timeout m)"
  by (simp add: rq_inv_def rq_init_def)

lemma rq_inv_insert:
  "rq_inv q \<Longrightarrow> row_ok r \<Longrightarrow> rq_inv (q\<lparr>rq_rows := sql_insert_ignore rq_run_id r (rq_rows q)\<rparr>)"
  using set_insert_ignore_subset [of rq_run_id r "rq_rows q"]
  by (auto simp: rq_inv_def subset_eq)

lemma enqueue_inv: "rq_inv q \<Longrightarrow> rq_inv (enqueue now rid pr pl t u s pj q)"
  unfolding enqueue_def by (erule rq_inv_insert) (simp add: row_ok_def)

lemma reenqueue_inv: "rq_inv q \<Longrightarrow> rq_inv (snd (reenqueue env now rid t q))"
  by (auto simp: reenqueue_def with_scope_state Let_def row_ok_def intro!: rq_inv_update split: sum.splits)

lemma claim_next_inv: "rq_inv q \<Longrightarrow> rq_inv (snd (claim_next now w q))"
  by (auto simp: claim_next_eq lease_row_def row_ok_def intro!: rq_inv_update split: option.splits)

lemma heartbeat_inv: "rq_inv q \<Longrightarrow> rq_inv (snd (heartbeat env now rid w t q))"
  by (auto simp: heartbeat_def with_scope_state Let_def row_ok_def intro!: rq_inv_update split: sum.splits)

lemma release_lease_inv: "rq_inv q \<Longrightarrow> rq_inv (snd (release_lease now rid w q))"
  by (auto simp: release_lease_def Let_def row_ok_def intro!: rq_inv_update)

lemma complete_inv: "rq_inv q \<Longrightarrow> rq_inv (snd (complete env now rid w t q))"
  by (auto simp: complete_def with_scope_state row_ok_def intro!: rq_inv_update split: sum.splits)

lemma cancel_inv: "rq_inv q \<Longrightarrow> rq_inv (snd (cancel env now rid t q))"
  by (auto simp: cancel_def with_scope_state row_ok_def intro!: rq_inv_update split: sum.splits)

lemma release_expired_inv: "rq_inv q \<Longrightarrow> rq_inv (snd (release_expired_leases now q))"
  by (auto simp: release_expired_leases_def Let_def row_ok_def intro!: rq_inv_update)

lemma adoption_inv: "rq_inv q \<Longrightarrow> rq_inv (snd (claim_with_adoption_token now rid tok q))"
  by (auto simp: claim_with_adoption_token_def Let_def row_ok_def intro!: rq_inv_update)

lemma dequeue_inv: "rq_inv q \<Longrightarrow> rq_inv (snd (dequeue_unclaimed env rid t q))"
  by (auto simp: dequeue_unclaimed_def with_scope_state rq_inv_def set_sql_delete split: sum.splits)

lemma dead_letter_inv: "rq_inv q \<Longrightarrow> rq_inv (snd (dead_letter env now ts rid reason orig t q))"
proof (cases "check_tenant_scope env t ''dead_letter''")
  case (Inr s)
  assume "rq_inv q"
  let ?p = "\<lambda>r. rq_run_id r = rid \<and> in_scope s (rq_tenant_id r)"
  let ?n = "case find ?p (rq_rows q) of None \<Rightarrow> 0 | Some r \<Rightarrow> rq_attempt_count r"
  let ?q = "q\<lparr>rq_dlq := dlq_insert rid reason orig ts (case s of None \<Rightarrow> '''' | Some t \<Rightarrow> t) ?n (rq_dlq q)\<rparr>"
  have "rq_inv ?q" using \<open>rq_inv q\<close> by (rule rq_inv_dlq_insert)
  then have "rq_inv (?q\<lparr>rq_rows := sql_update ?p (\<lambda>r. r\<lparr>rq_status := Failed, rq_updated_at := now\<rparr>) (rq_rows ?q)\<rparr>)"
    by (rule rq_inv_update) (auto simp: row_ok_def)
  then show ?thesis using Inr by (simp add: dead_letter_def Let_def rq_inv_def)
qed (simp add: dead_letter_def)

lemma requeue_from_dlq_inv: "rq_inv q \<Longrightarrow> rq_inv (snd (requeue_from_dlq env now ts rid t q))"
proof (cases "check_tenant_scope env t ''requeue_from_dlq''")
  case (Inr s)
  assume "rq_inv q"
  let ?p = "\<lambda>d. dl_run_id d = rid \<and> in_scope s (dl_tenant_id d)"
  let ?q = "q\<lparr>rq_dlq := sql_delete ?p (sql_update ?p
    (\<lambda>d. d\<lparr>dl_requeue_count := dl_requeue_count d + 1, dl_last_requeue_at := Some ts\<rparr>) (rq_dlq q))\<rparr>"
  have "rq_inv ?q" using \<open>rq_inv q\<close> by (rule rq_inv_dlq_drop) simp_all
  then have "rq_inv (?q\<lparr>rq_rows := sql_update (\<lambda>r. rq_run_id r = rid \<and> in_scope s (rq_tenant_id r))
      (\<lambda>r. r\<lparr>rq_status := Queued, rq_worker_id := None, rq_lease_expires_at := None, rq_updated_at := now\<rparr>)
      (rq_rows ?q)\<rparr>)"
    by (rule rq_inv_update) (auto simp: row_ok_def)
  then show ?thesis using Inr \<open>rq_inv q\<close>
    by (simp add: requeue_from_dlq_def Let_def rq_inv_def split: option.splits)
qed (simp add: requeue_from_dlq_def)

lemma fail_inv: "rq_inv q \<Longrightarrow> rq_inv (snd (fail env now ts rid w t q))"
proof (cases "check_tenant_scope env t ''fail''")
  case (Inr s)
  assume inv: "rq_inv q"
  show ?thesis
  proof (cases "find (\<lambda>r. rq_run_id r = rid \<and> rq_worker_id r = Some w \<and> in_scope s (rq_tenant_id r)) (rq_rows q)")
    case None
    with Inr inv show ?thesis by (simp add: fail_def)
  next
    case (Some row)
    then have "row \<in> set (rq_rows q)" by (auto simp: find_Some_iff)
    with inv have n: "0 \<le> rq_attempt_count row" by (auto simp: rq_inv_def row_ok_def)
    let ?ex = "rq_max_attempts row \<le> rq_attempt_count row + 1"
    let ?q = "q\<lparr>rq_rows := sql_update (\<lambda>r. rq_run_id r = rid \<and> in_scope s (rq_tenant_id r))
      (\<lambda>r. r\<lparr>rq_status := (if ?ex then Failed else Queued), rq_attempt_count := rq_attempt_count row + 1,
         rq_worker_id := None, rq_lease_expires_at := None, rq_updated_at := now\<rparr>) (rq_rows q)\<rparr>"
    have "rq_inv ?q" using inv by (rule rq_inv_update) (use n in \<open>auto simp: row_ok_def\<close>)
    with rq_inv_dlq_insert [OF this] show ?thesis
      using Inr Some by (cases ?ex) (simp_all add: fail_def Let_def)
  qed
qed (simp add: fail_def)

lemmas rq_op_inv = enqueue_inv reenqueue_inv claim_next_inv heartbeat_inv release_lease_inv
  complete_inv fail_inv cancel_inv release_expired_inv adoption_inv dequeue_inv dead_letter_inv
  requeue_from_dlq_inv

lemma rq_exec_inv: "rq_inv q \<Longrightarrow> rq_inv (rq_exec env op q)"
  by (cases op) (simp_all add: rq_op_inv)

interpretation queue_life: op_system "rq_exec env" rq_inv for env
  by unfold_locales (rule rq_exec_inv)

end
