(* ===== verification/Run_Queue_Theorems.thy ===== *)
theory Run_Queue_Theorems
  imports Run_Queue_Laws
begin

text \<open>
  What the run queue promises its callers: claims in priority order, exclusive leases, retries
  bounded by the dead-letter queue, tenant scoping that fails closed, and single adoption by
  recovery; with the places where the code falls short of its documentation.
\<close>

section \<open>Rows under the operations\<close>

text \<open>The run an operation names, and its tenant argument.\<close>

fun op_run :: "rq_op \<Rightarrow> string option" where
  "op_run (Enqueue now rid pr pl t u s pj) = Some rid"
| "op_run (Reenqueue now rid t) = Some rid"
| "op_run (ClaimNext now w) = None"
| "op_run (Heartbeat now rid w t) = Some rid"
| "op_run (ReleaseLease now rid w) = Some rid"
| "op_run (Complete now rid w t) = Some rid"
| "op_run (Fail now ts rid w t) = Some rid"
| "op_run (Cancel now rid t) = Some rid"
| "op_run (ReleaseExpired now) = None"
| "op_run (ClaimAdoption now rid tok) = Some rid"
| "op_run (DequeueUnclaimed rid t) = Some rid"
| "op_run (DeadLetter now ts rid reason orig t) = Some rid"
| "op_run (RequeueFromDlq now ts rid t) = Some rid"
| "op_run (IsCancelled rid t) = Some rid"

fun op_tenant :: "rq_op \<Rightarrow> string option option" where
  "op_tenant (Reenqueue now rid t) = Some t"
| "op_tenant (Heartbeat now rid w t) = Some t"
| "op_tenant (Complete now rid w t) = Some t"
| "op_tenant (Fail now ts rid w t) = Some t"
| "op_tenant (Cancel now rid t) = Some t"
| "op_tenant (DequeueUnclaimed rid t) = Some t"
| "op_tenant (DeadLetter now ts rid reason orig t) = Some t"
| "op_tenant (RequeueFromDlq now ts rid t) = Some t"
| "op_tenant (IsCancelled rid t) = Some t"
| "op_tenant _ = None"

text \<open>The exception a call raises, if any.\<close>

definition raised :: "'a rq_result \<Rightarrow> rq_error option" where
  "raised x = (case fst x of Inl e \<Rightarrow> Some e | Inr _ \<Rightarrow> None)"

fun op_raises :: "string option \<Rightarrow> rq_op \<Rightarrow> run_queue \<Rightarrow> rq_error option" where
  "op_raises env (Reenqueue now rid t) q = raised (reenqueue env now rid t q)"
| "op_raises env (Heartbeat now rid w t) q = raised (heartbeat env now rid w t q)"
| "op_raises env (Complete now rid w t) q = raised (complete env now rid w t q)"
| "op_raises env (Fail now ts rid w t) q = raised (fail env now ts rid w t q)"
| "op_raises env (Cancel now rid t) q = raised (cancel env now rid t q)"
| "op_raises env (DequeueUnclaimed rid t) q = raised (dequeue_unclaimed env rid t q)"
| "op_raises env (DeadLetter now ts rid reason orig t) q = raised (dead_letter env now ts rid reason orig t q)"
| "op_raises env (RequeueFromDlq now ts rid t) q = raised (requeue_from_dlq env now ts rid t q)"
| "op_raises env (IsCancelled rid t) q = raised (is_cancelled env rid t q)"
| "op_raises env _ q = None"

text \<open>The run is leased to a worker until a time; the operations that may end that lease before
  the time: the worker's own, the ones that requeue or dead-letter the run, and a sweep after it.\<close>

definition leased_to :: "run_queue \<Rightarrow> string \<Rightarrow> string \<Rightarrow> real \<Rightarrow> bool" where
  "leased_to q rid w e = (case rq_get q rid of None \<Rightarrow> False
     | Some r \<Rightarrow> rq_status r = Leased \<and> rq_worker_id r = Some w \<and> rq_lease_expires_at r = Some e)"

fun disturbs :: "string \<Rightarrow> string \<Rightarrow> real \<Rightarrow> rq_op \<Rightarrow> bool" where
  "disturbs rid w e (Reenqueue now r t) = (r = rid)"
| "disturbs rid w e (Heartbeat now r w' t) = (r = rid \<and> w' = w)"
| "disturbs rid w e (ReleaseLease now r w') = (r = rid \<and> w' = w)"
| "disturbs rid w e (Complete now r w' t) = (r = rid \<and> w' = w)"
| "disturbs rid w e (Fail now ts r w' t) = (r = rid \<and> w' = w)"
| "disturbs rid w e (ReleaseExpired now) = (e < now)"
| "disturbs rid w e (DeadLetter now ts r reason orig t) = (r = rid)"
| "disturbs rid w e (RequeueFromDlq now ts r t) = (r = rid)"
| "disturbs rid w e _ = False"

lemma rq_get_update [simp]:
  "(\<And>r. rq_run_id (f r) = rq_run_id r) \<Longrightarrow>
   rq_get (q'\<lparr>rq_rows := sql_update p f (rq_rows q)\<rparr>) rid =
     map_option (\<lambda>r. if p r then f r else r) (rq_get q rid)"
  by (simp add: rq_get_def sql_lookup_update)

lemma rq_get_other [simp]:
  "rq_get (q\<lparr>rq_dlq := d\<rparr>) rid = rq_get q rid" "rq_get (q\<lparr>rq_metrics := m\<rparr>) rid = rq_get q rid"
  "dlq_get (q\<lparr>rq_rows := rs\<rparr>) rid = dlq_get q rid" "dlq_get (q\<lparr>rq_metrics := m\<rparr>) rid = dlq_get q rid"
  by (simp_all add: rq_get_def dlq_get_def)

lemma rq_get_run_id: "rq_get q rid = Some r \<Longrightarrow> rq_run_id r = rid \<and> r \<in> set (rq_rows q)"
  unfolding rq_get_def by (drule sql_lookup_SomeD) simp

lemma rq_get_ok: "rq_inv q \<Longrightarrow> rq_get q rid = Some r \<Longrightarrow> row_ok r"
  by (auto dest: rq_get_run_id simp: rq_inv_def)

lemma rq_get_in: "rq_inv q \<Longrightarrow> r \<in> set (rq_rows q) \<Longrightarrow> rq_get q (rq_run_id r) = Some r"
  by (simp add: rq_get_def rq_inv_def sql_lookup_unique)

lemma rq_inv_unique: "rq_inv q \<Longrightarrow> unique_key rq_run_id (rq_rows q)"
  by (simp add: rq_inv_def)

lemma rq_find:
  "rq_inv q \<Longrightarrow> find (\<lambda>r. rq_run_id r = rid \<and> P r) (rq_rows q) =
     (case rq_get q rid of None \<Rightarrow> None | Some r \<Rightarrow> if P r then Some r else None)"
  by (simp add: rq_get_def rq_inv_def sql_find_key)

lemma dlq_find:
  "rq_inv q \<Longrightarrow> find (\<lambda>d. dl_run_id d = rid \<and> P d) (rq_dlq q) =
     (case dlq_get q rid of None \<Rightarrow> None | Some d \<Rightarrow> if P d then Some d else None)"
  by (simp add: dlq_get_def rq_inv_def sql_find_key)

lemma rq_count:
  "rq_inv q \<Longrightarrow> 0 < sql_rowcount (\<lambda>r. rq_run_id r = rid \<and> P r) (rq_rows q) \<longleftrightarrow>
     (\<exists>r. rq_get q rid = Some r \<and> P r)"
  by (simp add: rq_get_def rq_inv_def sql_rowcount_pos)

lemma rq_get_enqueue:
  "rq_get (enqueue now rid pr pl t u s pj q) rid' =
     (case rq_get q rid' of Some r \<Rightarrow> Some r | None \<Rightarrow>
        if rid' = rid then Some \<lparr>rq_run_id = rid, rq_status = Queued, rq_priority = pr, rq_attempt_count = 0,
          rq_max_attempts = 3, rq_worker_id = None, rq_lease_expires_at = None,
          rq_cancellation_flag = False, rq_payload_json = pl, rq_enqueued_at = now,
          rq_updated_at = now, rq_tenant_id = t, rq_user_id = u,
          rq_session_id = s, rq_project_id = pj, rq_adoption_token = None\<rparr> else None)"
  by (auto simp: rq_get_def enqueue_def sql_lookup_insert_ignore split: option.splits)

lemma rq_get_dequeue:
  "rq_inv q \<Longrightarrow> rq_get (snd (dequeue_unclaimed env rid t q)) rid' =
     (case check_tenant_scope env t ''dequeue_unclaimed'' of Inl e \<Rightarrow> rq_get q rid'
      | Inr s \<Rightarrow> (case rq_get q rid' of None \<Rightarrow> None | Some r \<Rightarrow>
          if rid' = rid \<and> rq_status r = Queued \<and> in_scope s (rq_tenant_id r) then None else Some r))"
  by (auto simp: dequeue_unclaimed_def with_scope_state rq_get_def rq_inv_def sql_lookup_delete
      dest: sql_lookup_SomeD split: sum.splits option.splits)

lemma rq_get_claim:
  "rq_get (snd (claim_next now w q)) rid = (case claim_candidate q of None \<Rightarrow> rq_get q rid
     | Some c \<Rightarrow> map_option (\<lambda>r. if rq_run_id r = rq_run_id c \<and> rq_status r = Queued
         then lease_row now w q r else r) (rq_get q rid))"
  by (simp add: claim_next_eq lease_row_def split: option.splits)

definition failed_row :: "real \<Rightarrow> run_row \<Rightarrow> run_row" where
  "failed_row now r = r\<lparr>rq_status := (if rq_max_attempts r \<le> rq_attempt_count r + 1 then Failed else Queued),
     rq_attempt_count := rq_attempt_count r + 1, rq_worker_id := None, rq_lease_expires_at := None,
     rq_updated_at := now\<rparr>"

lemma rq_get_map_id:
  "(\<And>r. rq_run_id r = rid \<Longrightarrow> g r = r) \<Longrightarrow> map_option g (rq_get q rid) = rq_get q rid"
  by (cases "rq_get q rid") (auto dest: rq_get_run_id)

lemma rq_get_fail_other: "rid \<noteq> rid0 \<Longrightarrow> rq_get (snd (fail env now ts rid0 w t q)) rid = rq_get q rid"
  by (auto simp: fail_def with_scope_state Let_def intro!: rq_get_map_id split: sum.splits option.splits)

lemma rq_get_fail:
  assumes "rq_inv q" "rq_get q rid = Some row"
  shows "rq_get (snd (fail env now ts rid w t q)) rid =
     (case check_tenant_scope env t ''fail'' of Inl e \<Rightarrow> Some row
      | Inr s \<Rightarrow> Some (if rq_worker_id row = Some w \<and> in_scope s (rq_tenant_id row) then failed_row now row else row))"
  using assms rq_get_run_id [OF assms(2)]
  by (auto simp: fail_def with_scope_state Let_def rq_find failed_row_def split: sum.splits)

lemma rq_get_fail_none:
  "rq_inv q \<Longrightarrow> rq_get q rid = None \<Longrightarrow> snd (fail env now ts rid w t q) = q"
  by (auto simp: fail_def with_scope_state rq_find split: sum.splits)

lemma rq_exec_frame:
  assumes "rq_inv q" "op_run op = Some r" "rid \<noteq> r"
  shows "rq_get (rq_exec env op q) rid = rq_get q rid"
proof (cases op)
  case (Enqueue now rid pr pl t u s pj)
  with assms show ?thesis by (simp add: rq_get_enqueue split: option.splits)
next
  case (DequeueUnclaimed rid' t)
  with assms show ?thesis by (auto simp: rq_get_dequeue split: sum.splits option.splits)
qed (use assms in \<open>auto simp: rq_get_fail_other reenqueue_def heartbeat_def release_lease_def complete_def
      cancel_def claim_with_adoption_token_def dead_letter_def requeue_from_dlq_def with_scope_state Let_def
      intro!: rq_get_map_id split: sum.splits option.splits\<close>)

section \<open>Leases\<close>

lemma leased_toE:
  assumes "leased_to q rid w e"
  obtains r where "rq_get q rid = Some r" "rq_run_id r = rid" "rq_status r = Leased"
    "rq_worker_id r = Some w" "rq_lease_expires_at r = Some e"
  using assms by (auto simp: leased_to_def dest: rq_get_run_id split: option.splits)

lemma lease_kept:
  assumes "rq_inv q" "leased_to q rid w e" "\<not> disturbs rid w e op"
  shows "leased_to (rq_exec env op q) rid w e"
proof (cases "\<exists>r. op_run op = Some r \<and> r \<noteq> rid")
  case True
  then obtain r where "op_run op = Some r" "rid \<noteq> r" by auto
  from rq_exec_frame [OF assms(1) this] assms(2) show ?thesis by (simp add: leased_to_def)
next
  case False
  obtain r where r: "rq_get q rid = Some r" "rq_run_id r = rid" "rq_status r = Leased"
    "rq_worker_id r = Some w" "rq_lease_expires_at r = Some e"
    using assms(2) by (rule leased_toE)
  show ?thesis
  proof (cases op)
    case (ClaimNext now w')
    with r show ?thesis by (auto simp: leased_to_def rq_get_claim split: option.splits)
  next
    case (Enqueue now rid' pr pl t u s pj)
    with r show ?thesis by (simp add: leased_to_def rq_get_enqueue)
  next
    case (DequeueUnclaimed rid' t)
    with r assms(1) show ?thesis
      by (auto simp: leased_to_def rq_get_dequeue split: sum.splits)
  next
    case (Fail now ts rid' w' t)
    with r assms False show ?thesis by (auto simp: leased_to_def rq_get_fail split: sum.splits)
  qed (use r assms(3) False in \<open>auto simp: leased_to_def reenqueue_def heartbeat_def release_lease_def
      complete_def cancel_def claim_with_adoption_token_def release_expired_leases_def lease_expired_def
      with_scope_state Let_def split: sum.splits\<close>)
qed

lemma lease_kept_run:
  assumes "rq_inv q" "leased_to q rid w e" "list_all (\<lambda>op. \<not> disturbs rid w e op) ops"
  shows "leased_to (rq_run env ops q) rid w e"
  using assms
proof (induction ops arbitrary: q)
  case (Cons op ops)
  then show ?case using lease_kept [of q rid w e op env] rq_exec_inv [of q env op] by simp
qed simp

lemma claim_skips_leased:
  assumes "rq_inv q" "leased_to q rid w e"
  shows "fst (claim_next now w' q) \<noteq> Some (rid, pl)"
proof
  assume "fst (claim_next now w' q) = Some (rid, pl)"
  then obtain c where c: "claim_candidate q = Some c" "rq_run_id c = rid"
    by (auto simp: claim_next_eq split: option.splits)
  then have "rq_get q rid = Some c" "rq_status c = Queued"
    using claim_candidate_Some [OF c(1)] rq_get_in [OF assms(1)] by (auto simp: claimable_def)
  with assms(2) show False by (simp add: leased_to_def)
qed

lemma heartbeat_extends:
  assumes inv: "rq_inv q" and lease: "leased_to q rid w e" and now: "now \<le> e"
    and scope: "check_tenant_scope env t ''heartbeat'' = Inr s"
    and own: "\<And>r. rq_get q rid = Some r \<Longrightarrow> in_scope s (rq_tenant_id r)"
  shows "fst (heartbeat env now rid w t q) = Inr True"
    and "leased_to (snd (heartbeat env now rid w t q)) rid w (now + rq_lease_timeout q)"
proof -
  obtain r where r: "rq_get q rid = Some r" "rq_run_id r = rid" "rq_status r = Leased"
    "rq_worker_id r = Some w" "rq_lease_expires_at r = Some e"
    using lease by (rule leased_toE)
  then show "fst (heartbeat env now rid w t q) = Inr True"
    using scope own now by (simp add: heartbeat_def rq_count [OF inv] lease_at_least_def)
  show "leased_to (snd (heartbeat env now rid w t q)) rid w (now + rq_lease_timeout q)"
    using r scope own now by (simp add: leased_to_def heartbeat_def Let_def lease_at_least_def)
qed

lemma heartbeat_late:
  assumes "rq_inv q" "leased_to q rid w e" "e < now" "check_tenant_scope env t ''heartbeat'' = Inr s"
  shows "fst (heartbeat env now rid w t q) = Inr False"
proof -
  have "\<not> (\<exists>r. rq_get q rid = Some r \<and> rq_worker_id r = Some w \<and> rq_status r = Leased \<and>
      lease_at_least now r \<and> in_scope s (rq_tenant_id r))"
    using assms(2,3) by (auto simp: lease_at_least_def leased_to_def)
  then show ?thesis using assms(4) rq_count [OF assms(1)] by (simp add: heartbeat_def Let_def)
qed

text \<open>The constants no operation writes.\<close>

lemma timeout_const: "rq_lease_timeout (rq_exec env op q) = rq_lease_timeout q"
  by (cases op) (auto simp: enqueue_def reenqueue_def heartbeat_def release_lease_def
      complete_def cancel_def claim_with_adoption_token_def release_expired_leases_def dead_letter_def
      dequeue_unclaimed_def requeue_from_dlq_def fail_def claim_next_eq with_scope_state Let_def
      split: sum.splits option.splits)

text \<open>Sweeps and heartbeats: before each heartbeat at \<open>h\<close> a sweep at \<open>s\<close>, heartbeats at most \<open>d\<close>
  apart.\<close>

fun paced :: "real \<Rightarrow> real \<Rightarrow> (real \<times> real) list \<Rightarrow> bool" where
  "paced d prev [] = True"
| "paced d prev ((s, h) # xs) = (s \<le> h \<and> h \<le> prev + d \<and> paced d h xs)"

fun beat_ops :: "string \<Rightarrow> string \<Rightarrow> string option \<Rightarrow> (real \<times> real) list \<Rightarrow> rq_op list" where
  "beat_ops rid w t [] = []"
| "beat_ops rid w t ((s, h) # xs) = ReleaseExpired s # Heartbeat h rid w t # beat_ops rid w t xs"

fun last_beat :: "real \<Rightarrow> (real \<times> real) list \<Rightarrow> real" where
  "last_beat prev [] = prev"
| "last_beat prev ((s, h) # xs) = last_beat h xs"

definition owned_by :: "run_queue \<Rightarrow> string \<Rightarrow> string \<Rightarrow> bool" where
  "owned_by q rid t = (case rq_get q rid of None \<Rightarrow> False | Some r \<Rightarrow> rq_tenant_id r = t)"

lemma owned_by_kept:
  "owned_by q rid t \<Longrightarrow> op = ReleaseExpired now \<or> op = Heartbeat now rid w t' \<Longrightarrow> owned_by (rq_exec env op q) rid t"
  by (auto simp: owned_by_def heartbeat_def release_expired_leases_def with_scope_state Let_def
      split: sum.splits option.splits)

lemma paced_beats:
  assumes "rq_inv q" "leased_to q rid w (prev + rq_lease_timeout q)" "d \<le> rq_lease_timeout q"
    and "py_strip tid \<noteq> ''''" "owned_by q rid (py_strip tid)" "paced d prev xs"
  shows "leased_to (rq_run env (beat_ops rid w (Some tid) xs) q) rid w
           (last_beat prev xs + rq_lease_timeout q)"
  using assms
proof (induction xs arbitrary: prev q)
  case (Cons x xs)
  obtain s h where x: "x = (s, h)" by (cases x)
  let ?e = "prev + rq_lease_timeout q"
  let ?q1 = "rq_exec env (ReleaseExpired s) q"
  let ?q2 = "rq_exec env (Heartbeat h rid w (Some tid)) ?q1"
  have s: "s \<le> ?e" and h: "h \<le> ?e" and rest: "paced d h xs"
    using Cons.prems(3,6) x by auto
  have inv1: "rq_inv ?q1" and own1: "owned_by ?q1 rid (py_strip tid)"
    using rq_exec_inv [OF Cons.prems(1)] owned_by_kept [OF Cons.prems(5)] by blast+
  have l1: "leased_to ?q1 rid w ?e"
    using Cons.prems(1,2) by (rule lease_kept) (use s in simp)
  have inv2: "rq_inv ?q2" and own2: "owned_by ?q2 rid (py_strip tid)"
    using rq_exec_inv [OF inv1] owned_by_kept [OF own1] by blast+
  have to: "rq_lease_timeout ?q1 = rq_lease_timeout q" "rq_lease_timeout ?q2 = rq_lease_timeout q"
    using timeout_const by metis+
  have "leased_to ?q2 rid w (h + rq_lease_timeout ?q1)"
    using heartbeat_extends(2) [OF inv1 l1 h check_tenant_scope_given [OF Cons.prems(4)]] own1
    by (simp add: owned_by_def del: rq_exec.simps(9) split: option.splits)
  then have "leased_to ?q2 rid w (h + rq_lease_timeout ?q2)" by (simp only: to)
  from Cons.IH [OF inv2 this _ Cons.prems(4) own2 rest] Cons.prems(3)
  show ?case by (simp only: x beat_ops.simps last_beat.simps fold_simps comp_apply to)
qed simp

section \<open>Adoption by recovery\<close>

definition adopted :: "run_queue \<Rightarrow> string \<Rightarrow> bool" where
  "adopted q rid = (case rq_get q rid of None \<Rightarrow> False | Some r \<Rightarrow> rq_adoption_token r \<noteq> None)"

fun resets_adoption :: "string \<Rightarrow> rq_op \<Rightarrow> bool" where
  "resets_adoption rid (Reenqueue now r t) = (r = rid)"
| "resets_adoption rid (DequeueUnclaimed r t) = (r = rid)"
| "resets_adoption rid _ = False"

lemma adoption_result:
  "rq_inv q \<Longrightarrow> fst (claim_with_adoption_token now rid tok q) \<longleftrightarrow> (\<exists>r. rq_get q rid = Some r \<and> rq_adoption_token r = None)"
  by (simp add: claim_with_adoption_token_def Let_def rq_count)

lemma adoption_blocked: "rq_inv q \<Longrightarrow> adopted q rid \<Longrightarrow> \<not> fst (claim_with_adoption_token now rid tok q)"
  by (auto simp: adoption_result adopted_def)

lemma adoption_sets:
  "rq_inv q \<Longrightarrow> fst (claim_with_adoption_token now rid tok q) \<Longrightarrow>
   adopted (snd (claim_with_adoption_token now rid tok q)) rid"
  by (frule adoption_result [THEN iffD1, of q], assumption)
    (auto simp: adopted_def claim_with_adoption_token_def Let_def dest: rq_get_run_id)

lemma adopted_kept:
  assumes "rq_inv q" "adopted q rid" "\<not> resets_adoption rid op"
  shows "adopted (rq_exec env op q) rid"
proof (cases "\<exists>r. op_run op = Some r \<and> r \<noteq> rid")
  case True
  then obtain r where "op_run op = Some r" "rid \<noteq> r" by auto
  from rq_exec_frame [OF assms(1) this] assms(2) show ?thesis by (simp add: adopted_def)
next
  case False
  obtain r where r: "rq_get q rid = Some r" "rq_adoption_token r \<noteq> None" "rq_run_id r = rid"
    using assms(2) by (auto simp: adopted_def dest: rq_get_run_id split: option.splits)
  show ?thesis
  proof (cases op)
    case (Fail now ts rid' w' t)
    with r assms False show ?thesis
      by (auto simp: adopted_def rq_get_fail failed_row_def split: sum.splits)
  next
    case (ClaimNext now w')
    with r show ?thesis by (auto simp: adopted_def rq_get_claim lease_row_def split: option.splits)
  next
    case (Enqueue now rid' pr pl t u s pj)
    with r show ?thesis by (simp add: adopted_def rq_get_enqueue)
  qed (use r assms(3) False in \<open>auto simp: adopted_def reenqueue_def heartbeat_def release_lease_def
      complete_def cancel_def claim_with_adoption_token_def release_expired_leases_def dead_letter_def
      requeue_from_dlq_def dequeue_unclaimed_def with_scope_state Let_def split: sum.splits option.splits\<close>)
qed

lemma adopted_run:
  "rq_inv q \<Longrightarrow> adopted q rid \<Longrightarrow> list_all (\<lambda>op. \<not> resets_adoption rid op) ops \<Longrightarrow>
   adopted (rq_run env ops q) rid \<and> rq_inv (rq_run env ops q)"
  by (induction ops arbitrary: q) (auto simp: adopted_kept rq_exec_inv simp del: rq_exec.simps)

section \<open>Tenants\<close>

lemma scoped_op_isolated:
  assumes inv: "rq_inv q" and row: "rq_get q rid = Some r" and ten: "op_tenant op = Some (Some t)"
    and ne: "py_strip t \<noteq> ''''" and other: "rq_tenant_id r \<noteq> py_strip t"
  shows "rq_get (rq_exec env op q) rid = Some r"
proof (cases "op_run op = Some rid")
  case False
  moreover from ten obtain r' where "op_run op = Some r'" by (cases op) auto
  ultimately show ?thesis using rq_exec_frame [OF inv, of op r' rid env] row by auto
next
  case True
  show ?thesis
  proof (cases op)
    case (Fail now ts rid' w t')
    with assms True show ?thesis by (simp add: rq_get_fail)
  next
    case (DequeueUnclaimed rid' t')
    with assms True show ?thesis by (simp add: rq_get_dequeue)
  qed (use assms True in \<open>auto simp: reenqueue_def heartbeat_def complete_def cancel_def dead_letter_def
      requeue_from_dlq_def Let_def split: option.splits\<close>)
qed

definition scope_fault :: "string option \<Rightarrow> scope_failure" where
  "scope_fault env = (case posture_from_env env of Inl _ \<Rightarrow> PostureResolutionFailed | Inr _ \<Rightarrow> TenantMissing)"

lemma check_tenant_scope_closed:
  assumes "py_strip (str_or t) = ''''" "posture_from_env env \<noteq> Inr Dev"
  shows "check_tenant_scope env t m = Inl (TenantScopeError m (scope_fault env))"
proof (cases "posture_from_env env")
  case (Inr p)
  with assms(2) have "is_strict p" by (cases p) (auto simp: is_strict_def)
  with Inr assms(1) show ?thesis by (auto simp: check_tenant_scope_def scope_fault_def)
qed (use assms(1) in \<open>auto simp: check_tenant_scope_def scope_fault_def\<close>)

lemma scoped_op_closed:
  assumes "op_tenant op = Some t" "py_strip (str_or t) = ''''" "posture_from_env env \<noteq> Inr Dev"
  shows "rq_exec env op q = q \<and> (\<exists>m. op_raises env op q = Some (TenantScopeError m (scope_fault env)))"
  using assms(1) check_tenant_scope_closed [OF assms(2,3)]
  by (cases op) (auto simp: reenqueue_def heartbeat_def complete_def cancel_def dead_letter_def
      requeue_from_dlq_def fail_def dequeue_unclaimed_def is_cancelled_def raised_def with_scope_def)

section \<open>Failures and the dead-letter queue\<close>

lemma dlq_get_insert:
  "dlq_get (q\<lparr>rq_dlq := dlq_insert rid reason orig ts t n (rq_dlq q)\<rparr>) rid' =
     (if rid' = rid then Some \<lparr>dl_run_id = rid, dl_reason = reason, dl_original_state = orig,
         dl_dead_lettered_at = ts, dl_tenant_id = t,
         dl_requeue_count = (case dlq_get q rid of None \<Rightarrow> 0 | Some d \<Rightarrow> dl_requeue_count d),
         dl_last_requeue_at = (case dlq_get q rid of None \<Rightarrow> None | Some d \<Rightarrow> dl_last_requeue_at d),
         dl_attempts_count = n\<rparr> else dlq_get q rid')"
  by (auto simp: dlq_get_def dlq_insert_def Let_def sql_lookup_insert_replace)

lemma dlq_get_ok: "rq_inv q \<Longrightarrow> dlq_get q rid = Some d \<Longrightarrow> dlq_ok d"
  by (auto simp: rq_inv_def dlq_get_def dest: sql_lookup_SomeD)

lemma dlq_get_cong: "rq_dlq q' = rq_dlq q \<Longrightarrow> dlq_get q' rid = dlq_get q rid"
  by (simp add: dlq_get_def)

lemma dead_letter_dlq:
  assumes "rq_inv q" "py_strip t \<noteq> ''''"
  shows "dlq_get (snd (dead_letter env now ts rid reason orig (Some t) q)) rid =
    Some \<lparr>dl_run_id = rid, dl_reason = reason, dl_original_state = orig, dl_dead_lettered_at = ts,
      dl_tenant_id = py_strip t, dl_requeue_count = 0, dl_last_requeue_at = None,
      dl_attempts_count = (case rq_get q rid of None \<Rightarrow> 0
        | Some r \<Rightarrow> if rq_tenant_id r = py_strip t then rq_attempt_count r else 0)\<rparr>"
proof -
  let ?n = "case rq_get q rid of None \<Rightarrow> 0 | Some r \<Rightarrow> if rq_tenant_id r = py_strip t then rq_attempt_count r else 0"
  let ?d = "dlq_insert rid reason orig ts (py_strip t) ?n (rq_dlq q)"
  have "rq_dlq (snd (dead_letter env now ts rid reason orig (Some t) q)) = ?d"
    using assms by (simp add: dead_letter_def Let_def rq_find split: option.splits)
  then have "dlq_get (snd (dead_letter env now ts rid reason orig (Some t) q)) rid = dlq_get (q\<lparr>rq_dlq := ?d\<rparr>) rid"
    by (intro dlq_get_cong) simp
  also have "\<dots> = Some \<lparr>dl_run_id = rid, dl_reason = reason, dl_original_state = orig,
      dl_dead_lettered_at = ts, dl_tenant_id = py_strip t, dl_requeue_count = 0,
      dl_last_requeue_at = None, dl_attempts_count = ?n\<rparr>"
    using dlq_get_ok [OF assms(1)] by (auto simp: dlq_get_insert dlq_ok_def split: option.splits)
  finally show ?thesis .
qed

lemma requeue_from_dlq_other_tenant:
  assumes "rq_inv q" "dlq_get q rid = Some d" "py_strip t \<noteq> ''''" "dl_tenant_id d \<noteq> py_strip t"
  shows "requeue_from_dlq env now ts rid (Some t) q = (Inr False, q)"
  using assms by (simp add: requeue_from_dlq_def Let_def dlq_find)

lemma fail_dlq:
  assumes "rq_inv q" "rq_get q rid = Some r" "rq_worker_id r = Some w"
    and "check_tenant_scope env t ''fail'' = Inr s" "in_scope s (rq_tenant_id r)"
  shows "dlq_get (snd (fail env now ts rid w t q)) rid =
    (if rq_max_attempts r \<le> rq_attempt_count r + 1
     then Some \<lparr>dl_run_id = rid, dl_reason = ''max_attempts_exceeded'', dl_original_state = ''leased'',
       dl_dead_lettered_at = ts, dl_tenant_id = rq_tenant_id r, dl_requeue_count = 0,
       dl_last_requeue_at = None, dl_attempts_count = rq_attempt_count r + 1\<rparr>
     else dlq_get q rid)"
proof (cases "rq_max_attempts r \<le> rq_attempt_count r + 1")
  case True
  let ?d = "dlq_insert rid ''max_attempts_exceeded'' ''leased'' ts (rq_tenant_id r)
    (rq_attempt_count r + 1) (rq_dlq q)"
  have "rq_dlq (snd (fail env now ts rid w t q)) = ?d"
    using assms True by (auto simp: fail_def Let_def rq_find rq_get_def sql_lookup_update)
  then have "dlq_get (snd (fail env now ts rid w t q)) rid = dlq_get (q\<lparr>rq_dlq := ?d\<rparr>) rid"
    by (intro dlq_get_cong) simp
  also have "\<dots> = Some \<lparr>dl_run_id = rid, dl_reason = ''max_attempts_exceeded'', dl_original_state = ''leased'',
       dl_dead_lettered_at = ts, dl_tenant_id = rq_tenant_id r, dl_requeue_count = 0,
       dl_last_requeue_at = None, dl_attempts_count = rq_attempt_count r + 1\<rparr>"
    using dlq_get_ok [OF assms(1)] by (auto simp: dlq_get_insert dlq_ok_def split: option.splits)
  finally show ?thesis using True by simp
next
  case False
  then show ?thesis using assms by (auto simp: fail_def Let_def rq_find intro!: dlq_get_cong)
qed

lemma fail_dlq_table:
  assumes "rq_inv q" "rq_get q rid = Some r" "rq_worker_id r = Some w"
    and "check_tenant_scope env t ''fail'' = Inr s" "in_scope s (rq_tenant_id r)"
  shows "rq_attempt_count r + 1 < rq_max_attempts r \<Longrightarrow> rq_dlq (snd (fail env now ts rid w t q)) = rq_dlq q"
    and "rid' \<noteq> rid \<Longrightarrow> dlq_get (snd (fail env now ts rid w t q)) rid' = dlq_get q rid'"
proof -
  show "rq_attempt_count r + 1 < rq_max_attempts r \<Longrightarrow> rq_dlq (snd (fail env now ts rid w t q)) = rq_dlq q"
    using assms by (auto simp: fail_def Let_def rq_find)
  show "rid' \<noteq> rid \<Longrightarrow> dlq_get (snd (fail env now ts rid w t q)) rid' = dlq_get q rid'"
    using assms by (auto simp: fail_def Let_def rq_find dlq_get_def dlq_insert_def sql_lookup_insert_replace)
qed

section \<open>Liveness of the sweep\<close>

lemma sweep_makes_claimable:
  assumes "r \<in> set (rq_rows q)" "rq_status r = Leased" "lease_expired now r" "\<not> rq_cancellation_flag r"
  shows "\<exists>r'\<in>set (rq_rows (snd (release_expired_leases now q))). rq_run_id r' = rq_run_id r \<and> claimable r'"
  by (rule bexI [where x = "r\<lparr>rq_status := Queued, rq_worker_id := None, rq_lease_expires_at := None,
      rq_updated_at := now\<rparr>"])
    (use assms in \<open>auto simp: release_expired_leases_def Let_def in_set_sql_update claimable_def\<close>)

lemma claim_next_iff: "(\<exists>x. fst (claim_next now w q) = Some x) \<longleftrightarrow> (\<exists>r\<in>set (rq_rows q). claimable r)"
  using claim_candidate_None [of q] by (auto simp: claim_next_eq split: option.splits)

section \<open>A concrete queue\<close>

text \<open>One run of tenant \<open>acme\<close>, claimed at time 20 by worker \<open>w1\<close> under a lease of 300 seconds; and
  the same run dead-lettered after it was adopted.\<close>

definition demo_row :: run_row where
  "demo_row = \<lparr>rq_run_id = ''r1'', rq_status = Leased, rq_priority = 0, rq_attempt_count = 0,
     rq_max_attempts = 3, rq_worker_id = Some ''w1'', rq_lease_expires_at = Some 320,
     rq_cancellation_flag = False, rq_payload_json = ''{}'', rq_enqueued_at = 10, rq_updated_at = 20,
     rq_tenant_id = ''acme'', rq_user_id = ''u'', rq_session_id = ''s'', rq_project_id = ''p'',
     rq_adoption_token = None\<rparr>"

definition demo_queue :: run_queue where
  "demo_queue = rq_run None [Enqueue 10 ''r1'' 0 ''{}'' ''acme'' ''u'' ''s'' ''p'', ClaimNext 20 ''w1'']
     (rq_init 300 None)"

definition demo_dead :: run_queue where
  "demo_dead = rq_run None [ClaimAdoption 25 ''r1'' ''tok'',
     DeadLetter 30 ''2026-01-01'' ''r1'' ''poison'' ''leased'' (Some ''acme'')] demo_queue"

lemma strip_names [simp]: "py_strip ''acme'' = ''acme''" "py_strip ''evil'' = ''evil''" "py_strip '' '' = ''''"
  by (simp_all add: py_strip_def is_py_space_def)

lemma demo_queue_eq: "demo_queue = \<lparr>rq_rows = [demo_row], rq_dlq = [], rq_lease_timeout = 300, rq_metrics = None\<rparr>"
  by (simp add: demo_queue_def demo_row_def rq_init_def enqueue_def sql_insert_ignore_def
      claim_next_eq claim_candidate_def claimable_def lease_row_def sql_update_def)

lemma demo_inv [simp]: "rq_inv demo_queue"
  unfolding demo_queue_def by (rule queue_life.run_inv) simp

lemma demo_get [simp]: "rq_get demo_queue ''r1'' = Some demo_row"
  by (simp add: demo_queue_eq rq_get_def sql_lookup_def demo_row_def)

lemma demo_leased [simp]: "leased_to demo_queue ''r1'' ''w1'' 320"
  by (simp add: leased_to_def) (simp add: demo_row_def)

lemma demo_timeout [simp]: "rq_lease_timeout demo_queue = 300"
  by (simp add: demo_queue_eq)

lemma demo_dead_inv [simp]: "rq_inv demo_dead"
  unfolding demo_dead_def by (rule queue_life.run_inv) simp

lemma demo_dead_get [simp]: "rq_get demo_dead ''r1'' =
  Some (demo_row\<lparr>rq_adoption_token := Some ''tok'', rq_status := Failed, rq_updated_at := 30\<rparr>)"
  by (simp add: demo_dead_def demo_queue_eq rq_get_def sql_lookup_def claim_with_adoption_token_def Let_def
      dead_letter_def sql_update_def) (simp add: demo_row_def)

lemma demo_dead_dlq [simp]: "dlq_get demo_dead ''r1'' = Some \<lparr>dl_run_id = ''r1'', dl_reason = ''poison'',
  dl_original_state = ''leased'', dl_dead_lettered_at = ''2026-01-01'', dl_tenant_id = ''acme'',
  dl_requeue_count = 0, dl_last_requeue_at = None, dl_attempts_count = 0\<rparr>"
  using dead_letter_dlq [OF adoption_inv [OF demo_inv, of 25 "''r1''" "''tok''"], of "''acme''" None 30 "''2026-01-01''"
      "''r1''" "''poison''" "''leased''"]
  by (simp add: demo_dead_def) (simp add: claim_with_adoption_token_def Let_def demo_row_def)

section \<open>Properties\<close>

text \<open>Whatever methods are called on a new queue, in any order and with any clock readings, the
  tables stay well formed: run ids are unique in both, a lease and its owner appear together, a
  queued or completed run has no owner, a leased run has one, and attempt counts are never negative.\<close>

lemma queue_tables_well_formed: "rq_inv (rq_run env ops (rq_init timeout m))"
  by (rule queue_life.run_inv) simp

text \<open>C2. A successful \<open>claim_next\<close> returns a queued, uncancelled run that no other such run
  precedes in (priority, enqueue time); afterwards exactly that run is leased to the caller until
  \<open>now\<close> plus the lease timeout, and every other run and the dead-letter queue are unchanged.\<close>

theorem claim_next_correct:
  assumes "rq_inv q" "claim_next now w q = (Some (rid, pl), q')"
  shows "\<exists>r. rq_get q rid = Some r \<and> rq_status r = Queued \<and> \<not> rq_cancellation_flag r \<and>
      rq_payload_json r = pl \<and>
      (\<forall>r'\<in>set (rq_rows q). rq_status r' = Queued \<and> \<not> rq_cancellation_flag r' \<longrightarrow>
         rq_priority r < rq_priority r' \<or> rq_priority r = rq_priority r' \<and> rq_enqueued_at r \<le> rq_enqueued_at r') \<and>
      rq_get q' rid = Some (r\<lparr>rq_status := Leased, rq_worker_id := Some w,
        rq_lease_expires_at := Some (now + rq_lease_timeout q), rq_updated_at := now\<rparr>) \<and>
      (\<forall>rid'. rid' \<noteq> rid \<longrightarrow> rq_get q' rid' = rq_get q rid') \<and> rq_dlq q' = rq_dlq q"
proof -
  obtain r where c: "claim_candidate q = Some r" and r: "rq_run_id r = rid" "rq_payload_json r = pl"
    and q': "q' = snd (claim_next now w q)"
    using assms(2) by (auto simp: claim_next_eq split: option.splits)
  note cand = claim_candidate_Some [OF c]
  have get: "rq_get q rid = Some r" using rq_get_in [OF assms(1)] cand r by auto
  have other: "rq_get q' rid' = rq_get q rid'" if "rid' \<noteq> rid" for rid'
    unfolding q' rq_get_claim using c r that by (auto intro!: rq_get_map_id)
  have "rq_get q' rid = Some (lease_row now w q r)"
    unfolding q' rq_get_claim using c r get cand by (auto simp: claimable_def)
  moreover have "rq_dlq q' = rq_dlq q" using assms(2) by (auto simp: claim_next_eq split: option.splits)
  ultimately show ?thesis using get r cand other
    by (intro exI [of _ r]) (auto simp: claimable_def lease_row_def less_eq_prod_simp)
qed

theorem claim_next_correct_witness:
  "\<exists>r. rq_get (enqueue 10 ''r1'' 5 ''x'' ''acme'' '''' '''' '''' (rq_init 300 None)) ''r1'' = Some r \<and> rq_payload_json r = ''x''"
proof -
  let ?q = "enqueue 10 ''r1'' 5 ''x'' ''acme'' '''' '''' '''' (rq_init 300 None)"
  have inv: "rq_inv ?q" by (rule enqueue_inv) simp
  have "claim_next 20 ''w'' ?q = (Some (''r1'', ''x''), snd (claim_next 20 ''w'' ?q))"
    by (simp add: rq_init_def enqueue_def sql_insert_ignore_def claim_next_eq claim_candidate_def claimable_def)
  from claim_next_correct [OF inv this] show ?thesis by auto
qed

text \<open>C1. Exclusive leases. Once a run is leased to a worker until time \<open>e\<close>, no sequence of calls
  made by other workers or maintenance sweeps up to time \<open>e\<close> (anything but the worker's own calls and
  the administrative requeue and dead-letter calls on that run) takes the lease away, and no claim
  in between hands the run to anybody.\<close>

theorem lease_is_exclusive:
  assumes "rq_inv q" "leased_to q rid w e" "list_all (\<lambda>op. \<not> disturbs rid w e op) ops"
  shows "leased_to (rq_run env ops q) rid w e \<and>
    (\<forall>now w' pl. fst (claim_next now w' (rq_run env ops q)) \<noteq> Some (rid, pl))"
  using lease_kept_run [OF assms] claim_skips_leased [OF queue_life.run_inv [OF assms(1)]] by blast

theorem lease_is_exclusive_witness:
  "leased_to (rq_run None [ReleaseExpired 100, ClaimNext 110 ''w2'', Complete 120 ''r1'' ''w2'' (Some ''acme''),
     Fail 130 ''t'' ''r1'' ''w2'' (Some ''acme'')] demo_queue) ''r1'' ''w1'' 320"
  by (rule lease_is_exclusive [THEN conjunct1, OF demo_inv demo_leased]) simp

text \<open>A worker that sends heartbeats no further apart than the interval the queue advertises
  keeps its lease through any number of expiry sweeps, for every lease timeout of at least a second.\<close>

lemma heartbeats_keep_lease:
  assumes "rq_inv q" "leased_to q rid w (start + rq_lease_timeout q)" "1 \<le> rq_lease_timeout q"
    and "py_strip tid \<noteq> ''''" "owned_by q rid (py_strip tid)"
    and "paced (lease_heartbeat_interval_seconds q) start beats"
  shows "leased_to (rq_run env (beat_ops rid w (Some tid) beats) q) rid w
    (last_beat start beats + rq_lease_timeout q)"
  using assms by (intro paced_beats [where d = "lease_heartbeat_interval_seconds q"])
    (auto simp: lease_heartbeat_interval_seconds_def)

text \<open>C40. \<open>fail\<close> by the owner of a run either puts it back in the queue with one attempt more, the
  whole dead-letter queue unchanged, or, on the attempt that reaches \<open>max_attempts\<close>, marks it failed and
  records it in the dead-letter queue under the run's own tenant with its attempt count, every other dead-letter record unchanged.
  No other run changes.\<close>

theorem fail_retries_then_dead_letters:
  assumes "rq_inv q" "rq_get q rid = Some r" "rq_worker_id r = Some w"
    and "check_tenant_scope env t ''fail'' = Inr s" "in_scope s (rq_tenant_id r)"
    and "q' = snd (fail env now ts rid w t q)"
  shows "(if rq_attempt_count r + 1 < rq_max_attempts r
    then rq_get q' rid = Some (r\<lparr>rq_status := Queued, rq_attempt_count := rq_attempt_count r + 1,
           rq_worker_id := None, rq_lease_expires_at := None, rq_updated_at := now\<rparr>) \<and>
         rq_dlq q' = rq_dlq q
    else rq_get q' rid = Some (r\<lparr>rq_status := Failed, rq_attempt_count := rq_attempt_count r + 1,
           rq_worker_id := None, rq_lease_expires_at := None, rq_updated_at := now\<rparr>) \<and>
         (\<exists>d. dlq_get q' rid = Some d \<and> dl_reason d = ''max_attempts_exceeded'' \<and>
            dl_tenant_id d = rq_tenant_id r \<and> dl_attempts_count d = rq_attempt_count r + 1) \<and>
         (\<forall>rid'. rid' \<noteq> rid \<longrightarrow> dlq_get q' rid' = dlq_get q rid')) \<and>
    (\<forall>rid'. rid' \<noteq> rid \<longrightarrow> rq_get q' rid' = rq_get q rid')"
  using assms fail_dlq [OF assms(1-5)] fail_dlq_table [OF assms(1-5)] rq_get_fail [OF assms(1,2)]
  by (simp add: failed_row_def rq_get_fail_other)

theorem fail_retries_then_dead_letters_witness:
  "rq_get (snd (fail None 50 ''ts'' ''r1'' ''w1'' (Some ''acme'') demo_queue)) ''r1'' =
     Some (demo_row\<lparr>rq_status := Queued, rq_attempt_count := 1, rq_worker_id := None,
       rq_lease_expires_at := None, rq_updated_at := 50\<rparr>)"
  using fail_retries_then_dead_letters [OF demo_inv demo_get, of "''w1''" None "Some ''acme''" "Some ''acme''" _ 50 "''ts''", OF _ _ _ refl]
  by (simp add: demo_row_def)

text \<open>C13. Tenant isolation of runs: a call that carries a tenant id never changes the row of a run
  that belongs to another tenant.\<close>

theorem scoped_calls_isolate_tenants:
  assumes "rq_inv q" "rq_get q rid = Some r" "op_tenant op = Some (Some t)"
    and "py_strip t \<noteq> ''''" "rq_tenant_id r \<noteq> py_strip t"
  shows "rq_get (rq_exec env op q) rid = Some r"
  using assms by (rule scoped_op_isolated)

theorem scoped_calls_isolate_tenants_witness:
  "rq_get (rq_exec None (DequeueUnclaimed ''r1'' (Some ''evil'')) demo_queue) ''r1'' = Some demo_row"
  by (rule scoped_calls_isolate_tenants [OF demo_inv demo_get, where t = "''evil''"]) (simp_all add: demo_row_def)

text \<open>C14. Fail closed: unless the environment resolves to the dev posture (so under research and prod, and
  also when the posture is not a valid one), each of the nine methods that take a tenant id, \<open>is_cancelled\<close> included, called with a
  missing or blank one raises \<open>TenantScopeError\<close>, which names the cause, and changes nothing.\<close>

theorem missing_tenant_fails_closed:
  assumes "op_tenant op = Some t" "py_strip (str_or t) = ''''" "posture_from_env env \<noteq> Inr Dev"
  shows "rq_exec env op q = q \<and> (\<exists>m. op_raises env op q = Some (TenantScopeError m (scope_fault env)))"
  using assms by (rule scoped_op_closed)

theorem missing_tenant_fails_closed_witness:
  "rq_exec (Some ''staging'') (Cancel 5 ''r1'' (Some '' '')) demo_queue = demo_queue \<and>
   rq_exec (Some ''prod'') (Cancel 5 ''r1'' (Some '' '')) demo_queue = demo_queue"
proof -
  have "posture_from_env (Some ''staging'') \<noteq> Inr Dev" "posture_from_env (Some ''prod'') \<noteq> Inr Dev"
    by code_simp+
  then show ?thesis
    using missing_tenant_fails_closed [of "Cancel 5 ''r1'' (Some '' '')" "Some '' ''"] by simp
qed

text \<open>A dead-letter record is not protected the same way: \<open>dead_letter\<close> called with tenant \<open>t\<close> on
  a run whose dead-letter record belongs to another tenant overwrites that record with one owned by
  \<open>t\<close>, after which the owner's own \<open>requeue_from_dlq\<close> no longer finds it.\<close>

lemma dead_letter_steals_record:
  assumes "rq_inv q" "dlq_get q rid = Some d" "dl_tenant_id d = py_strip owner"
    and "py_strip t \<noteq> ''''" "py_strip owner \<noteq> ''''" "py_strip owner \<noteq> py_strip t"
    and "q' = snd (dead_letter env now ts rid reason orig (Some t) q)"
  shows "(\<exists>d'. dlq_get q' rid = Some d' \<and> dl_tenant_id d' = py_strip t) \<and>
    fst (requeue_from_dlq env now' ts' rid (Some owner) q') = Inr False"
proof -
  have inv: "rq_inv q'" using assms(1,7) by (simp add: dead_letter_inv)
  obtain d' where d': "dlq_get q' rid = Some d'" "dl_tenant_id d' = py_strip t"
    using dead_letter_dlq [OF assms(1,4)] assms(7) by simp
  from requeue_from_dlq_other_tenant [OF inv d'(1) assms(5)] d' assms(6) show ?thesis by simp
qed

text \<open>The requeue counter never counts: in every state a queue can reach, each dead-letter record
  has \<open>requeue_count\<close> 0 and no \<open>last_requeue_at\<close>, because \<open>requeue_from_dlq\<close> deletes the record it has
  just incremented.\<close>

lemma requeue_count_is_always_zero:
  "list_all (\<lambda>d. dl_requeue_count d = 0 \<and> dl_last_requeue_at d = None)
     (rq_dlq (rq_run env ops (rq_init timeout m)))"
  using queue_life.run_inv [OF rq_inv_init, of env ops timeout m] by (simp add: rq_inv_def dlq_ok_def list_all_iff)

text \<open>Single adoption: after one recovery pass has claimed a run's adoption token, every other
  pass is refused, whatever calls come in between, until the run is re-enqueued or dequeued.\<close>

lemma adoption_is_exclusive:
  assumes "rq_inv q" "claim_with_adoption_token now rid tok q = (True, q')"
    and "list_all (\<lambda>op. \<not> resets_adoption rid op) ops"
  shows "\<not> fst (claim_with_adoption_token now' rid tok' (rq_run env ops q'))"
proof -
  have "adopted q' rid" "rq_inv q'"
    using adoption_sets [OF assms(1), of now rid tok] adoption_inv [OF assms(1), of now rid tok] assms(2) by simp_all
  with adopted_run [OF _ _ assms(3)] show ?thesis by (blast dest: adoption_blocked)
qed

text \<open>Only \<open>reenqueue\<close> clears the adoption token. A run that was adopted and then requeued from
  the dead-letter queue is queued again but still carries the token, so the next recovery pass
  cannot adopt it.\<close>

lemma dlq_requeue_keeps_adoption_token:
  assumes "rq_inv q" "rq_get q rid = Some r" "rq_adoption_token r \<noteq> None" "dlq_get q rid = Some d"
    and "py_strip t \<noteq> ''''" "rq_tenant_id r = py_strip t" "dl_tenant_id d = py_strip t"
  shows "fst (requeue_from_dlq env now ts rid (Some t) q) = Inr True \<and>
    (\<exists>r'. rq_get (snd (requeue_from_dlq env now ts rid (Some t) q)) rid = Some r' \<and> rq_status r' = Queued) \<and>
    \<not> fst (claim_with_adoption_token now' rid tok (snd (requeue_from_dlq env now ts rid (Some t) q)))"
proof -
  let ?q = "snd (requeue_from_dlq env now ts rid (Some t) q)"
  have run: "rq_run_id r = rid" using rq_get_run_id [OF assms(2)] by simp
  have "rq_get ?q rid = Some (r\<lparr>rq_status := Queued, rq_worker_id := None, rq_lease_expires_at := None,
      rq_updated_at := now\<rparr>)"
    using assms run by (simp add: requeue_from_dlq_def Let_def dlq_find)
  moreover have "rq_inv ?q" by (rule requeue_from_dlq_inv [OF assms(1)])
  moreover have "fst (requeue_from_dlq env now ts rid (Some t) q) = Inr True"
    using assms by (simp add: requeue_from_dlq_def Let_def dlq_find)
  ultimately show ?thesis using assms(3) by (simp add: adoption_result)
qed

text \<open>No run is lost to a crashed worker: if an uncancelled run's lease has expired, a sweep
  followed by \<open>claim_next\<close> hands out a run.\<close>

lemma expired_lease_is_claimable_again:
  assumes "r \<in> set (rq_rows q)" "rq_status r = Leased" "lease_expired now r" "\<not> rq_cancellation_flag r"
  shows "\<exists>x. fst (claim_next now' w (snd (release_expired_leases now q))) = Some x"
  using sweep_makes_claimable [OF assms] by (subst claim_next_iff) blast

end
