(* ===== verification/Recovery.thy ===== *)
theory Recovery
  imports Run_Queue_Theorems
begin

text \<open>
  Startup recovery: the decision of \<open>hi_agent/server/recovery.py\<close> and the pass \<open>_rehydrate_runs\<close> of
  \<open>hi_agent/server/app.py\<close> over the run queue. The environment variable \<open>HI_AGENT_RECOVERY_REENQUEUE\<close>
  is the argument \<open>flag\<close>. What the pass does besides the queue is recorded: the events it appends to
  the event store, the runs it hands to \<open>_bump_attempt_id_on_release\<close> (run store and run manager are
  not modelled), and the alarms. The clock readings and the fresh token of each entry are functions
  of its run id, which is unique in the scan. A server without a run queue skips the pass.
\<close>

datatype recovery_state =
  RS_queued | RS_leased | RS_running | RS_lease_expired | RS_requeued | RS_adopted | RS_failed_terminal

datatype recovery_reason = No_recovery_needed recovery_state | Strict_default | Dev_warn_only

record recovery_decision =
  rc_run_id :: string
  rc_tenant_id :: string
  rc_from_state :: recovery_state
  rc_to_state :: recovery_state
  rc_should_requeue :: bool
  rc_reason :: recovery_reason

definition decide_recovery_action :: "string \<Rightarrow> string \<Rightarrow> recovery_state \<Rightarrow> posture \<Rightarrow> recovery_decision" where
  "decide_recovery_action run_id tenant_id current_state posture =
     (if current_state \<noteq> RS_lease_expired then
        \<lparr>rc_run_id = run_id, rc_tenant_id = tenant_id, rc_from_state = current_state,
         rc_to_state = current_state, rc_should_requeue = False, rc_reason = No_recovery_needed current_state\<rparr>
      else if is_strict posture then
        \<lparr>rc_run_id = run_id, rc_tenant_id = tenant_id, rc_from_state = RS_lease_expired,
         rc_to_state = RS_requeued, rc_should_requeue = True, rc_reason = Strict_default\<rparr>
      else
        \<lparr>rc_run_id = run_id, rc_tenant_id = tenant_id, rc_from_state = RS_lease_expired,
         rc_to_state = RS_lease_expired, rc_should_requeue = False, rc_reason = Dev_warn_only\<rparr>)"

datatype recovery_event =
    Dlq_checked nat posture
  | Recovery_decision_event string string bool recovery_reason real posture

record recovery_log =
  rl_events :: "recovery_event list"
  rl_bumped :: "string list"
  rl_alarms :: "(string \<times> string) list"

definition fire_if_needed :: "string option \<Rightarrow> string \<Rightarrow> string \<Rightarrow> posture \<Rightarrow> recovery_log \<Rightarrow> recovery_log" where
  "fire_if_needed flag run_id tenant_id posture l =
     (let reenqueue_enabled = (env_get flag ''1'' \<noteq> ''0'') in
      if reenqueue_enabled \<or> \<not> is_strict posture then l
      else l\<lparr>rl_alarms := rl_alarms l @ [(run_id, tenant_id)]\<rparr>)"

definition rehydrate_entry ::
  "string option \<Rightarrow> string option \<Rightarrow> posture \<Rightarrow> (string \<Rightarrow> real) \<Rightarrow> (string \<Rightarrow> real) \<Rightarrow> (string \<Rightarrow> string) \<Rightarrow>
   stale_lease \<Rightarrow> run_queue \<times> recovery_log \<Rightarrow> run_queue \<times> recovery_log" where
  "rehydrate_entry env flag posture claim_at requeue_at token_for entry ql =
     (let (q, l) = ql;
          run_id = sl_run_id entry; tenant_id = sl_tenant_id entry;
          opt_out = (env_get flag ''1'' = ''0'');
          decision = decide_recovery_action run_id tenant_id RS_lease_expired posture;
          effective_requeue = (rc_should_requeue decision \<and> \<not> opt_out);
          l1 = l\<lparr>rl_events := rl_events l @ [Recovery_decision_event run_id tenant_id effective_requeue
                 (rc_reason decision) (sl_lease_age_s entry) posture]\<rparr>
      in if effective_requeue then
           let (claimed, q1) = claim_with_adoption_token (claim_at run_id) run_id (token_for run_id) q in
           if \<not> claimed then (q1, l1)
           else (snd (reenqueue env (requeue_at run_id) run_id (Some tenant_id) q1),
                 l1\<lparr>rl_bumped := rl_bumped l1 @ [run_id]\<rparr>)
         else (q, fire_if_needed flag run_id tenant_id posture l1))"

definition rehydrate_runs ::
  "string option \<Rightarrow> string option \<Rightarrow> (real \<Rightarrow> string) \<Rightarrow> real \<Rightarrow> (string \<Rightarrow> real) \<Rightarrow> (string \<Rightarrow> real) \<Rightarrow>
   (string \<Rightarrow> string) \<Rightarrow> run_queue \<Rightarrow> posture_error + run_queue \<times> recovery_log" where
  "rehydrate_runs env flag str_float now claim_at requeue_at token_for q =
     (case posture_from_env env of
        Inl e \<Rightarrow> Inl e
      | Inr posture \<Rightarrow>
          let expired = expire_stale_leases str_float now q;
              l = \<lparr>rl_events = [Dlq_checked (length expired) posture], rl_bumped = [], rl_alarms = []\<rparr>
          in Inr (fold (rehydrate_entry env flag posture claim_at requeue_at token_for) expired (q, l)))"

section \<open>The effect on one row\<close>

definition requeued_row :: "real \<Rightarrow> run_row \<Rightarrow> run_row" where
  "requeued_row now r = r\<lparr>rq_status := Queued, rq_worker_id := None, rq_lease_expires_at := None,
     rq_adoption_token := None, rq_updated_at := now\<rparr>"

definition recover_row ::
  "string option \<Rightarrow> posture \<Rightarrow> real \<Rightarrow> real \<Rightarrow> string \<Rightarrow> string \<Rightarrow> run_row \<Rightarrow> run_row" where
  "recover_row flag posture claim requeue token tenant r =
     (if \<not> is_strict posture \<or> env_get flag ''1'' = ''0'' \<or> rq_adoption_token r \<noteq> None then r
      else let r1 = r\<lparr>rq_adoption_token := Some token, rq_updated_at := claim\<rparr> in
        if py_strip tenant \<noteq> '''' \<and> rq_tenant_id r = py_strip tenant then requeued_row requeue r1 else r1)"

lemma rehydrate_entry_inv:
  "rq_inv q \<Longrightarrow> rq_inv (fst (rehydrate_entry env flag p claim requeue tok e (q, l)))"
  using adoption_inv [of q "claim (sl_run_id e)" "sl_run_id e" "tok (sl_run_id e)"]
  by (auto simp: rehydrate_entry_def Let_def intro!: reenqueue_inv split: prod.splits)

lemma adoption_get:
  "rq_get (snd (claim_with_adoption_token now rid0 tok q)) rid =
     map_option (\<lambda>r. if rid = rid0 \<and> rq_adoption_token r = None
       then r\<lparr>rq_adoption_token := Some tok, rq_updated_at := now\<rparr> else r) (rq_get q rid)"
  using rq_get_run_id [of q rid]
  by (cases "rq_get q rid") (simp_all add: claim_with_adoption_token_def Let_def)

lemma reenqueue_get_strict:
  assumes "posture_from_env env = Inr p" "is_strict p"
  shows "rq_get (snd (reenqueue env now rid0 (Some t) q)) rid =
     map_option (\<lambda>r. if rid = rid0 \<and> py_strip t \<noteq> [] \<and> rq_tenant_id r = py_strip t
       then requeued_row now r else r) (rq_get q rid)"
  using rq_get_run_id [of q rid] assms
  by (cases "rq_get q rid"; cases "py_strip t = []")
    (auto simp: reenqueue_def with_scope_state check_tenant_scope_def requeued_row_def Let_def)

lemma rehydrate_entry_eq:
  "fst (rehydrate_entry env flag p claim requeue tok e (q, l)) =
    (if is_strict p \<and> env_get flag ''1'' \<noteq> ''0'' then
       (let c = claim_with_adoption_token (claim (sl_run_id e)) (sl_run_id e) (tok (sl_run_id e)) q in
        if fst c then snd (reenqueue env (requeue (sl_run_id e)) (sl_run_id e) (Some (sl_tenant_id e)) (snd c))
        else snd c)
     else q)"
  by (simp add: rehydrate_entry_def Let_def decide_recovery_action_def case_prod_beta)

lemma rehydrate_entry_get:
  assumes "rq_inv q" "posture_from_env env = Inr p"
  shows "rq_get (fst (rehydrate_entry env flag p claim requeue tok e (q, l))) rid =
    map_option (\<lambda>r. if rid = sl_run_id e
      then recover_row flag p (claim rid) (requeue rid) (tok rid) (sl_tenant_id e) r else r) (rq_get q rid)"
proof (cases "is_strict p \<and> env_get flag ''1'' \<noteq> ''0''")
  case False
  then show ?thesis by (cases "rq_get q rid") (auto simp: rehydrate_entry_eq recover_row_def)
next
  case True
  note claimed = adoption_result [OF assms(1), of "claim (sl_run_id e)" "sl_run_id e" "tok (sl_run_id e)"]
  show ?thesis
  proof (cases "rid = sl_run_id e")
    case same: True
    with True claimed show ?thesis
      by (cases "rq_get q rid")
        (auto simp: rehydrate_entry_eq Let_def adoption_get reenqueue_get_strict [OF assms(2)] recover_row_def)
  next
    case False
    with True show ?thesis
      by (cases "rq_get q rid") (simp_all add: rehydrate_entry_eq Let_def adoption_get reenqueue_get_strict [OF assms(2)])
  qed
qed

lemma rehydrate_fold_get:
  assumes "rq_inv q" "posture_from_env env = Inr p" "distinct (map sl_run_id es)"
  shows "rq_inv (fst (fold (rehydrate_entry env flag p claim requeue tok) es (q, l))) \<and>
    rq_get (fst (fold (rehydrate_entry env flag p claim requeue tok) es (q, l))) rid =
    map_option (\<lambda>r. case find (\<lambda>e. sl_run_id e = rid) es of None \<Rightarrow> r
      | Some e \<Rightarrow> recover_row flag p (claim rid) (requeue rid) (tok rid) (sl_tenant_id e) r) (rq_get q rid)"
  using assms(1,3)
proof (induction es arbitrary: q l)
  case Nil
  then show ?case by (simp add: option.map_ident)
next
  case (Cons e es)
  obtain q1 l1 where step: "rehydrate_entry env flag p claim requeue tok e (q, l) = (q1, l1)"
    by (cases "rehydrate_entry env flag p claim requeue tok e (q, l)")
  have inv: "rq_inv q1" using rehydrate_entry_inv [OF Cons.prems(1), of env flag p claim requeue tok e l] step by simp
  have "find (\<lambda>e. sl_run_id e = rid) es = None" if "sl_run_id e = rid"
    using Cons.prems(2) that by (auto simp: find_None_iff rev_image_eqI)
  with Cons.IH [OF inv, of l1] Cons.prems(2) inv
    rehydrate_entry_get [OF Cons.prems(1) assms(2), of flag claim requeue tok e l rid] step
  show ?case by (cases "rq_get q rid") (auto split: option.splits)
qed

section \<open>The pass\<close>

lemma stale_entry:
  assumes "rq_inv q"
  shows "distinct (map sl_run_id (expire_stale_leases sf now q)) \<and>
    find (\<lambda>e. sl_run_id e = rid) (expire_stale_leases sf now q) =
      (case rq_get q rid of Some r \<Rightarrow> if rq_status r = Leased \<and> lease_expired now r
         then find (\<lambda>e. sl_run_id e = rid) (expire_stale_leases sf now q) else None | None \<Rightarrow> None) \<and>
    (\<forall>r. rq_get q rid = Some r \<longrightarrow> rq_status r = Leased \<longrightarrow> lease_expired now r \<longrightarrow>
      (\<exists>e. find (\<lambda>e. sl_run_id e = rid) (expire_stale_leases sf now q) = Some e \<and> sl_tenant_id e = rq_tenant_id r))"
proof -
  let ?es = "expire_stale_leases sf now q"
  have mem: "e \<in> set ?es \<longleftrightarrow> (\<exists>r\<in>set (rq_rows q). rq_status r = Leased \<and> lease_expired now r \<and>
      e = (let x = (case rq_lease_expires_at r of None \<Rightarrow> 0 | Some e \<Rightarrow> e) in
            \<lparr>sl_run_id = rq_run_id r, sl_tenant_id = rq_tenant_id r, sl_expired_at = sf x,
             sl_lease_age_s = py_round3 (now - (if x \<noteq> 0 then x else now))\<rparr>))" for e
    by (auto simp: expire_stale_leases_def)
  have keys: "map sl_run_id ?es = map rq_run_id (filter (\<lambda>r. rq_status r = Leased \<and> lease_expired now r) (rq_rows q))"
    by (simp add: expire_stale_leases_def comp_def Let_def)
  then have d: "distinct (map sl_run_id ?es)"
    using rq_inv_unique [OF assms] by (simp add: unique_key_def distinct_map_filter)
  have listed: "\<exists>r. rq_get q rid = Some r \<and> rq_status r = Leased \<and> lease_expired now r \<and> sl_tenant_id e = rq_tenant_id r"
    if "find (\<lambda>e. sl_run_id e = rid) ?es = Some e" for e
  proof -
    have "e \<in> set ?es" "sl_run_id e = rid" using that by (auto simp: find_Some_iff)
    then show ?thesis using rq_get_in [OF assms] by (auto simp: mem Let_def)
  qed
  have there: "\<exists>e. find (\<lambda>e. sl_run_id e = rid) ?es = Some e"
    if "rq_get q rid = Some r" "rq_status r = Leased" "lease_expired now r" for r
  proof -
    have "rid \<in> set (map sl_run_id ?es)"
      unfolding keys using that rq_get_run_id [OF that(1)] by auto
    then have "\<exists>e\<in>set ?es. sl_run_id e = rid" by auto
    then show ?thesis by (cases "find (\<lambda>e. sl_run_id e = rid) ?es") (auto simp: find_None_iff)
  qed
  show ?thesis using d listed there by (fastforce split: option.splits if_splits)
qed

lemma rehydrate_get:
  assumes "rq_inv q" "posture_from_env env = Inr p"
    "rehydrate_runs env flag sf now claim requeue tok q = Inr (q', l)"
  shows "rq_inv q' \<and> rq_get q' rid = map_option (\<lambda>r. if rq_status r = Leased \<and> lease_expired now r
    then recover_row flag p (claim rid) (requeue rid) (tok rid) (rq_tenant_id r) r else r) (rq_get q rid)"
proof -
  have q': "q' = fst (fold (rehydrate_entry env flag p claim requeue tok) (expire_stale_leases sf now q)
      (q, \<lparr>rl_events = [Dlq_checked (length (expire_stale_leases sf now q)) p], rl_bumped = [], rl_alarms = []\<rparr>))"
    using assms(2,3) by (simp add: rehydrate_runs_def Let_def)
  have d: "distinct (map sl_run_id (expire_stale_leases sf now q))"
    using stale_entry [OF assms(1), of sf now rid] by blast
  from rehydrate_fold_get [OF assms(1,2) d, of flag claim requeue tok _ rid] stale_entry [OF assms(1), of sf now rid]
  show ?thesis unfolding q' by (cases "rq_get q rid") (auto split: option.splits if_splits)
qed

lemma rehydrate_total:
  assumes "posture_from_env env = Inr p"
  shows "\<exists>q' l. rehydrate_runs env flag sf now claim requeue tok q = Inr (q', l)"
proof -
  obtain x where x: "rehydrate_runs env flag sf now claim requeue tok q = Inr x"
    using assms by (simp add: rehydrate_runs_def Let_def)
  then show ?thesis by (cases x) blast
qed

lemma rehydrate_entry_warn:
  assumes "\<not> is_strict p \<or> env_get flag ''1'' = ''0''"
  shows "fst (rehydrate_entry env flag p claim requeue tok e (q, l)) = q"
    and "rl_bumped (snd (rehydrate_entry env flag p claim requeue tok e (q, l))) = rl_bumped l"
    and "rl_alarms (snd (rehydrate_entry env flag p claim requeue tok e (q, l))) =
      rl_alarms l @ (if is_strict p then [(sl_run_id e, sl_tenant_id e)] else [])"
  using assms
  by (cases "is_strict p"; simp add: rehydrate_entry_def Let_def decide_recovery_action_def fire_if_needed_def)+

section \<open>Properties\<close>

text \<open>C10. Under a strict posture, unless opted out, the startup pass requeues exactly the runs whose
  lease has expired: such a run of a named tenant that no earlier pass adopted is queued again with
  no owner, lease or token, and claimable unless it was cancelled; every run that is not leased,
  whose lease still holds, or that is already adopted is untouched, and no row appears or vanishes.\<close>

theorem recovery_requeues_expired_runs:
  assumes "rq_inv q" and "posture_from_env env = Inr p" and "is_strict p" and "env_get flag ''1'' \<noteq> ''0''"
    and "rehydrate_runs env flag sf now claim requeue tok q = Inr (q', l)"
    and "\<And>r. rq_get q rid = Some r \<Longrightarrow> py_strip (rq_tenant_id r) = rq_tenant_id r \<and> rq_tenant_id r \<noteq> ''''"
  shows "rq_get q' rid = map_option (\<lambda>r.
      if rq_status r = Leased \<and> lease_expired now r \<and> rq_adoption_token r = None
      then requeued_row (requeue rid) r else r) (rq_get q rid) \<and> rq_inv q'"
  using rehydrate_get [OF assms(1,2,5), of rid] assms(3,4,6)
  by (cases "rq_get q rid") (auto simp: recover_row_def requeued_row_def Let_def)

theorem recovery_requeues_expired_runs_witness:
  "\<exists>q' l. rehydrate_runs (Some ''prod'') None (\<lambda>_. '''') 400 (\<lambda>_. 401) (\<lambda>_. 402) (\<lambda>_. ''tok'') demo_queue = Inr (q', l) \<and>
    rq_get q' ''r1'' = Some (requeued_row 402 demo_row)"
proof -
  have p: "posture_from_env (Some ''prod'') = Inr Prod" by code_simp
  obtain q' l where run: "rehydrate_runs (Some ''prod'') None (\<lambda>_. '''') 400 (\<lambda>_. 401) (\<lambda>_. 402) (\<lambda>_. ''tok'') demo_queue =
      Inr (q', l)" using rehydrate_total [OF p] by blast
  have "rq_get q' ''r1'' = Some (requeued_row 402 demo_row)"
    using recovery_requeues_expired_runs [OF demo_inv p _ _ run, of "''r1''"]
    by (simp add: env_get_def demo_row_def lease_expired_def)
  with run show ?thesis by blast
qed

text \<open>Where recovery is not to requeue, under the dev posture or with the opt-out set, the pass
  leaves the queue exactly as it was and adopts nothing; it raises one alarm per expired run when the
  posture is strict, and none under dev.\<close>

lemma recovery_warn_only_keeps_queue:
  assumes "posture_from_env env = Inr p" and "\<not> is_strict p \<or> env_get flag ''1'' = ''0''"
    and "rehydrate_runs env flag sf now claim requeue tok q = Inr (q', l)"
  shows "q' = q \<and> rl_bumped l = [] \<and> rl_alarms l = (if is_strict p
    then map (\<lambda>e. (sl_run_id e, sl_tenant_id e)) (expire_stale_leases sf now q) else [])"
proof -
  have fold: "fst (fold (rehydrate_entry env flag p claim requeue tok) es (q, l)) = q \<and>
      rl_bumped (snd (fold (rehydrate_entry env flag p claim requeue tok) es (q, l))) = rl_bumped l \<and>
      rl_alarms (snd (fold (rehydrate_entry env flag p claim requeue tok) es (q, l))) = rl_alarms l @
        (if is_strict p then map (\<lambda>e. (sl_run_id e, sl_tenant_id e)) es else [])" for es l
  proof (induction es arbitrary: l)
    case (Cons e es)
    obtain l1 where "rehydrate_entry env flag p claim requeue tok e (q, l) = (q, l1)" "rl_bumped l1 = rl_bumped l"
      "rl_alarms l1 = rl_alarms l @ (if is_strict p then [(sl_run_id e, sl_tenant_id e)] else [])"
      using rehydrate_entry_warn [OF assms(2), of env claim requeue tok e q l] by (metis prod.collapse)
    with Cons.IH [of l1] show ?case by simp
  qed simp
  from assms(1,3) fold [of "expire_stale_leases sf now q"
      "\<lparr>rl_events = [Dlq_checked (length (expire_stale_leases sf now q)) p], rl_bumped = [], rl_alarms = []\<rparr>"]
  show ?thesis by (auto simp: rehydrate_runs_def Let_def)
qed

text \<open>A run without a tenant is stranded by recovery. Under a strict posture the pass first adopts
  it and then fails to requeue it, since \<open>reenqueue\<close> rejects an empty tenant; the run stays leased to
  its dead worker and adopted, and the next pass, at any time, leaves it exactly so.\<close>

lemma recovery_strands_tenantless_run:
  assumes "rq_inv q" and "rq_get q rid = Some r" and "rq_status r = Leased" and "lease_expired now r"
    and "rq_adoption_token r = None" and "py_strip (rq_tenant_id r) = ''''"
    and "posture_from_env env = Inr p" and "is_strict p" and "env_get flag ''1'' \<noteq> ''0''"
    and "rehydrate_runs env flag sf now claim requeue tok q = Inr (q1, l1)"
    and "rehydrate_runs env flag sf now2 claim2 requeue2 tok2 q1 = Inr (q2, l2)"
  shows "rq_get q1 rid = Some (r\<lparr>rq_adoption_token := Some (tok rid), rq_updated_at := claim rid\<rparr>) \<and>
    rq_get q2 rid = rq_get q1 rid"
proof -
  have one: "rq_inv q1 \<and> rq_get q1 rid = Some (r\<lparr>rq_adoption_token := Some (tok rid), rq_updated_at := claim rid\<rparr>)"
    using rehydrate_get [OF assms(1,7,10), of rid] assms(2-6,8,9) by (simp add: recover_row_def)
  with rehydrate_get [OF _ assms(7,11), of rid] show ?thesis by (auto simp: recover_row_def)
qed

definition orphan_queue :: run_queue where
  "orphan_queue = rq_run None [Enqueue 10 ''r1'' 0 '''' '''' ''u'' ''s'' ''p'', ClaimNext 20 ''w1''] (rq_init 300 None)"

definition orphan_row :: run_row where
  "orphan_row = demo_row\<lparr>rq_tenant_id := '''', rq_payload_json := ''''\<rparr>"

lemma orphan_queue_get: "rq_inv orphan_queue" "rq_get orphan_queue ''r1'' = Some orphan_row"
proof -
  show "rq_inv orphan_queue" unfolding orphan_queue_def by (rule queue_life.run_inv) simp
  show "rq_get orphan_queue ''r1'' = Some orphan_row"
    by (simp add: orphan_queue_def orphan_row_def demo_row_def rq_init_def enqueue_def sql_insert_ignore_def
      claim_next_eq claim_candidate_def claimable_def lease_row_def sql_update_def rq_get_def sql_lookup_def)
qed

text \<open>The adoption token does not stop two passes from requeueing the same run. When two passes scan
  before either acts, the first adopts and requeues the run, which clears the token; a worker claims
  it; the second pass, acting on its own scan, finds no token, adopts the run and requeues it again:
  the run is queued and claimable while the worker's lease has not expired.\<close>

lemma concurrent_recovery_steals_lease:
  assumes "rq_inv q" and "rq_get q rid = Some r" and "rq_adoption_token r = None"
    and "\<not> rq_cancellation_flag r" and "py_strip (rq_tenant_id r) = rq_tenant_id r" and "rq_tenant_id r \<noteq> ''''"
    and "posture_from_env env = Inr p" and "is_strict p" and "env_get flag ''1'' \<noteq> ''0''"
    and "sl_run_id e = rid" and "sl_tenant_id e = rq_tenant_id r"
    and "first = rehydrate_entry env flag p claim requeue tok e (q, l)"
    and "fst (claim_next now w (fst first)) = Some (rid, payload)"
    and "q2 = snd (claim_next now w (fst first))"
    and "second = rehydrate_entry env flag p claim2 requeue2 tok2 e (q2, l2)"
  shows "leased_to q2 rid w (now + rq_lease_timeout q) \<and>
    (\<exists>r'. rq_get (fst second) rid = Some r' \<and> claimable r' \<and> rq_worker_id r' = None)"
proof -
  have first: "rq_inv (fst first) \<and> rq_get (fst first) rid = Some (requeued_row (requeue rid) r)"
    using rehydrate_entry_inv [OF assms(1)] rehydrate_entry_get [OF assms(1,7), of flag claim requeue tok e l rid]
      assms(2-6,8-12) by (simp add: recover_row_def requeued_row_def)
  have timeout: "rq_lease_timeout (fst first) = rq_lease_timeout q"
    by (simp add: assms(12) rehydrate_entry_eq Let_def claim_with_adoption_token_def reenqueue_def with_scope_state split: sum.splits)
  obtain c where "claim_candidate (fst first) = Some c" "rq_run_id c = rid"
    using assms(13) by (auto simp: claim_next_def Let_def split: option.splits if_splits)
  then have q2: "rq_get q2 rid = Some (lease_row now w (fst first) (requeued_row (requeue rid) r))"
    using first rq_get_run_id [OF assms(2)] by (simp add: assms(14) rq_get_claim requeued_row_def)
  have inv2: "rq_inv q2" using first claim_next_inv by (simp add: assms(14))
  have "rq_get (fst second) rid = Some (requeued_row (requeue2 rid)
      ((lease_row now w (fst first) (requeued_row (requeue rid) r))\<lparr>rq_adoption_token := Some (tok2 rid), rq_updated_at := claim2 rid\<rparr>))"
    using rehydrate_entry_get [OF inv2 assms(7), of flag claim2 requeue2 tok2 e l2 rid] q2 assms(5,6,8-11,15)
    by (simp add: recover_row_def requeued_row_def lease_row_def)
  moreover have "leased_to q2 rid w (now + rq_lease_timeout q)"
    using q2 timeout by (simp add: leased_to_def lease_row_def)
  ultimately show ?thesis using assms(4) by (simp add: requeued_row_def lease_row_def claimable_def)
qed

end
