(* ===== verification/Json_Value.thy ===== *)
theory Json_Value
  imports Prelude
begin

text \<open>
  JSON values as the \<open>json\<close> module hands them to the code: an object is a Python \<open>dict\<close>, a list of
  distinct keys in insertion order. A float is the literal \<open>repr\<close> gives it, since the code never
  computes with it. The text form is not fixed here: the functions that serialise take \<open>json.dumps\<close>
  and \<open>json.loads\<close> as arguments. What a value is after it was written with \<open>sort_keys=True\<close> and read
  again is \<open>sort_keys\<close>: the same value, with the keys of every object in order.
\<close>

datatype json =
    JNull
  | JBool bool
  | JInt int
  | JFloat string
  | JStr string
  | JList "json list"
  | JObj "(string \<times> json) list"

text \<open>Python's truth value of an entry of a dictionary (\<open>None\<close>: it is missing).\<close>

definition py_truthy :: "json option \<Rightarrow> bool" where
  "py_truthy v = (case v of None \<Rightarrow> False | Some JNull \<Rightarrow> False | Some (JBool b) \<Rightarrow> b | Some (JInt n) \<Rightarrow> n \<noteq> 0
     | Some (JFloat s) \<Rightarrow> s \<notin> {''0.0'', ''-0.0''} | Some (JStr s) \<Rightarrow> s \<noteq> '''' | Some (JList xs) \<Rightarrow> xs \<noteq> [] | Some (JObj d) \<Rightarrow> d \<noteq> [])"

definition drop_keys :: "string list \<Rightarrow> (string \<times> json) list \<Rightarrow> (string \<times> json) list" where
  "drop_keys ks d = filter (\<lambda>e. fst e \<notin> set ks) d"

fun sort_keys :: "json \<Rightarrow> json" where
  "sort_keys (JObj d) = JObj (sort_key fst (map (\<lambda>(k, v). (k, sort_keys v)) d))"
| "sort_keys (JList xs) = JList (map sort_keys xs)"
| "sort_keys v = v"

definition sort_dict :: "(string \<times> json) list \<Rightarrow> (string \<times> json) list" where
  "sort_dict d = sort_key fst (map (\<lambda>(k, v). (k, sort_keys v)) d)"

lemma sort_keys_JObj: "sort_keys (JObj d) = JObj (sort_dict d)"
  by (simp add: sort_dict_def)

lemma map_of_sort_key:
  fixes k :: "'k::linorder" and d :: "('k \<times> 'v) list"
  shows "map_of (sort_key fst d) k = map_of d k"
proof -
  have first: "map_of d k = (case filter (\<lambda>e. fst e = k) d of [] \<Rightarrow> None | e # _ \<Rightarrow> Some (snd e))" for d :: "('k \<times> 'v) list"
    by (induction d) auto
  show ?thesis unfolding first [of "sort_key fst d"] first [of d] by (simp add: sort_key_stable)
qed

text \<open>The sorted dictionary has the same keys, with the same values up to the order of their own keys.\<close>

lemma sort_dict_lookup: "map_of (sort_dict d) k = map_option sort_keys (map_of d k)"
  unfolding sort_dict_def map_of_sort_key by (induction d) auto

lemma drop_keys_gone: "k \<in> set ks \<Longrightarrow> map_of (drop_keys ks d) k = None"
  by (auto simp: drop_keys_def map_of_eq_None_iff)

lemma drop_keys_keep: "k \<notin> set ks \<Longrightarrow> map_of (drop_keys ks d) k = map_of d k"
  by (induction d) (auto simp: drop_keys_def)

end
