(* ===== verification/Idempotency_Store.thy ===== *)
theory Idempotency_Store
  imports Posture_Model Json_Value
begin

text \<open>
  The idempotency store of \<open>hi_agent/server/idempotency.py\<close>: the table \<open>idempotency_records\<close>, keyed
  by tenant and client key, and every method on it. Each method runs under the store's lock and is
  one function; clock readings and the posture variable are arguments; an exception is a left value
  that comes with the table as the code leaves it. \<open>json.loads\<close> and \<open>json.dumps\<close> are the arguments
  \<open>loads\<close> (\<open>None\<close>: the text does not parse) and \<open>dumps\<close>. The metric calls are recorded in \<open>is_metrics\<close>.

  Not modelled: opening the database, the schema migration, and \<open>VACUUM\<close>, which keeps the rows.
\<close>

section \<open>State\<close>

record idem_record =
  ir_tenant_id :: string
  ir_idempotency_key :: string
  ir_request_hash :: string
  ir_run_id :: string
  ir_status :: string
  ir_response_snapshot :: string
  ir_created_at :: real
  ir_updated_at :: real
  ir_expires_at :: real
  ir_project_id :: string
  ir_user_id :: string
  ir_session_id :: string
  ir_status_code :: int

datatype outcome = Created | Replayed | Conflicted

datatype idem_metric =
    PurgedMetric nat
  | ReplayMetric string outcome
  | ConflictMetric string
  | AgeMetric string real

record idem_store =
  is_rows :: "idem_record list"
  is_metrics :: "idem_metric list"

datatype idem_error =
    SpineCompletenessError "string list"
  | PostureValueError posture_error
  | RecordVanished string

text \<open>The fields of a \<open>RunExecutionContext\<close> the store reads.\<close>

record exec_ctx =
  ec_tenant_id :: string
  ec_user_id :: string
  ec_session_id :: string
  ec_project_id :: string

definition idem_key :: "idem_record \<Rightarrow> string \<times> string" where
  "idem_key r = (ir_tenant_id r, ir_idempotency_key r)"

definition idem_init :: idem_store where
  "idem_init = \<lparr>is_rows = [], is_metrics = []\<rparr>"

section \<open>Record validation\<close>

text \<open>\<open>IdempotencyRecord.__post_init__\<close>: the exception it raises, if any.\<close>

definition idem_post_init :: "string option \<Rightarrow> idem_record \<Rightarrow> idem_error option" where
  "idem_post_init env r =
     (case posture_from_env env of
        Inl e \<Rightarrow> Some (PostureValueError e)
      | Inr posture \<Rightarrow>
          let missing = (if ir_tenant_id r = '''' then [''tenant_id''] else []) @
                (if ir_idempotency_key r = '''' then [''idempotency_key''] else []) @
                (if ir_run_id r = '''' then [''run_id''] else [])
          in if missing = [] then None
             else if is_strict posture then Some (SpineCompletenessError missing) else None)"

section \<open>Operations\<close>

definition purge_expired :: "real \<Rightarrow> idem_store \<Rightarrow> nat \<times> idem_store" where
  "purge_expired cutoff s =
     (let deleted = sql_rowcount (\<lambda>r. ir_expires_at r < cutoff) (is_rows s);
          s' = s\<lparr>is_rows := sql_delete (\<lambda>r. ir_expires_at r < cutoff) (is_rows s)\<rparr>
      in (deleted, if 0 < deleted then s'\<lparr>is_metrics := is_metrics s' @ [PurgedMetric deleted]\<rparr> else s'))"

definition override :: "string \<Rightarrow> string \<Rightarrow> string" where
  "override c v = (if c = '''' then v else c)"

text \<open>An argument, unless the context has the field.\<close>

definition ctx_field :: "(exec_ctx \<Rightarrow> string) \<Rightarrow> exec_ctx option \<Rightarrow> string \<Rightarrow> string" where
  "ctx_field f c v = (case c of None \<Rightarrow> v | Some x \<Rightarrow> override (f x) v)"

text \<open>The body of \<open>reserve_or_replay\<close> after the context has replaced the spine arguments.\<close>

definition reserve_scoped ::
  "string option \<Rightarrow> real \<Rightarrow> string \<Rightarrow> string \<Rightarrow> string \<Rightarrow> string \<Rightarrow> real \<Rightarrow> string \<Rightarrow> string \<Rightarrow> string \<Rightarrow>
   idem_store \<Rightarrow> (idem_error + outcome \<times> idem_record) \<times> idem_store" where
  "reserve_scoped env now tenant_id key request_hash run_id ttl_seconds project_id user_id session_id s =
     (let expires_at = now + ttl_seconds;
          mine = (\<lambda>r. idem_key r = (tenant_id, key));
          rows1 = (case find mine (is_rows s) of
                     Some r \<Rightarrow> if ir_expires_at r < now then sql_delete mine (is_rows s) else is_rows s
                   | None \<Rightarrow> is_rows s)
      in case find mine rows1 of
           None \<Rightarrow>
             let record = \<lparr>ir_tenant_id = tenant_id, ir_idempotency_key = key,
                   ir_request_hash = request_hash, ir_run_id = run_id, ir_status = ''pending'',
                   ir_response_snapshot = '''', ir_created_at = now, ir_updated_at = now,
                   ir_expires_at = expires_at, ir_project_id = project_id, ir_user_id = user_id,
                   ir_session_id = session_id, ir_status_code = 200\<rparr>;
                 s' = s\<lparr>is_rows := rows1 @ [record]\<rparr>
             in (case idem_post_init env record of
                   Some e \<Rightarrow> (Inl e, s')
                 | None \<Rightarrow> (Inr (Created, record), s'))
         | Some record \<Rightarrow>
             let s' = s\<lparr>is_rows := rows1\<rparr> in
             (case idem_post_init env record of
                Some e \<Rightarrow> (Inl e, s')
              | None \<Rightarrow>
                  let out = (if ir_request_hash record = request_hash then Replayed else Conflicted) in
                  (Inr (out, record),
                   s'\<lparr>is_metrics := is_metrics s' @ [ReplayMetric tenant_id out] @
                       (if out = Conflicted then [ConflictMetric tenant_id] else []) @
                       [AgeMetric tenant_id (now - ir_created_at record)]\<rparr>)))"

definition reserve_or_replay ::
  "string option \<Rightarrow> real \<Rightarrow> string \<Rightarrow> string \<Rightarrow> string \<Rightarrow> string \<Rightarrow> real \<Rightarrow> string \<Rightarrow> string \<Rightarrow> string \<Rightarrow>
   exec_ctx option \<Rightarrow> idem_store \<Rightarrow> (idem_error + outcome \<times> idem_record) \<times> idem_store" where
  "reserve_or_replay env now tenant_id key request_hash run_id ttl_seconds project_id user_id session_id
       exec_ctx s =
     reserve_scoped env now (ctx_field ec_tenant_id exec_ctx tenant_id) key request_hash run_id ttl_seconds
       (ctx_field ec_project_id exec_ctx project_id) (ctx_field ec_user_id exec_ctx user_id)
       (ctx_field ec_session_id exec_ctx session_id) s"

definition IDENTITY_FIELDS_STRIPPED_ON_REPLAY :: "string list" where
  "IDENTITY_FIELDS_STRIPPED_ON_REPLAY = [''request_id'', ''trace_id'', ''x_request_id'', ''_response_timestamp'']"

definition normalize_response_for_replay ::
  "(string \<Rightarrow> json option) \<Rightarrow> (json \<Rightarrow> string) \<Rightarrow> string \<Rightarrow> string" where
  "normalize_response_for_replay loads dumps response_json =
     (if response_json = '''' then response_json
      else case loads response_json of
        Some (JObj payload) \<Rightarrow>
          if list_ex (\<lambda>f. f \<in> set (map fst payload)) IDENTITY_FIELDS_STRIPPED_ON_REPLAY
          then dumps (JObj (drop_keys IDENTITY_FIELDS_STRIPPED_ON_REPLAY payload))
          else response_json
      | _ \<Rightarrow> response_json)"

definition default_status_code_for :: "string \<Rightarrow> int" where
  "default_status_code_for terminal_state =
     (case map_of [(''succeeded'', 200), (''failed'', 500), (''cancelled'', 499), (''timed_out'', 504)]
        terminal_state of None \<Rightarrow> 500 | Some c \<Rightarrow> c)"

definition terminal_status :: "string \<Rightarrow> string" where
  "terminal_status terminal_state =
     (if terminal_state \<in> {''succeeded'', ''failed'', ''cancelled'', ''timed_out''} then terminal_state
      else ''succeeded'')"

definition mark_complete ::
  "(string \<Rightarrow> json option) \<Rightarrow> (json \<Rightarrow> string) \<Rightarrow> real \<Rightarrow> string \<Rightarrow> string \<Rightarrow> string \<Rightarrow> string \<Rightarrow> int option \<Rightarrow>
   idem_store \<Rightarrow> idem_store" where
  "mark_complete loads dumps now tenant_id key response_json terminal_state status_code s =
     (let status = terminal_status terminal_state;
          resolved_code = (case status_code of Some c \<Rightarrow> c | None \<Rightarrow> default_status_code_for status);
          normalized_response = normalize_response_for_replay loads dumps response_json
      in s\<lparr>is_rows := sql_update (\<lambda>r. idem_key r = (tenant_id, key))
          (\<lambda>r. r\<lparr>ir_status := status, ir_response_snapshot := normalized_response,
                ir_updated_at := now, ir_status_code := resolved_code\<rparr>) (is_rows s)\<rparr>)"

definition mark_failed :: "real \<Rightarrow> string \<Rightarrow> string \<Rightarrow> int \<Rightarrow> idem_store \<Rightarrow> idem_store" where
  "mark_failed now tenant_id key status_code s =
     s\<lparr>is_rows := sql_update (\<lambda>r. idem_key r = (tenant_id, key))
        (\<lambda>r. r\<lparr>ir_status := ''failed'', ir_updated_at := now, ir_status_code := status_code\<rparr>) (is_rows s)\<rparr>"

definition idem_release :: "string \<Rightarrow> string \<Rightarrow> idem_store \<Rightarrow> idem_store" where
  "idem_release tenant_id key s =
     s\<lparr>is_rows := sql_delete (\<lambda>r. idem_key r = (tenant_id, key) \<and> ir_status r = ''pending'') (is_rows s)\<rparr>"

section \<open>Any sequence of calls\<close>

datatype idem_op =
    Reserve real string string string string real string string string "exec_ctx option"
  | MarkComplete real string string string string "int option"
  | MarkFailed real string string int
  | Release string string
  | Purge real

fun idem_exec ::
  "string option \<Rightarrow> (string \<Rightarrow> json option) \<Rightarrow> (json \<Rightarrow> string) \<Rightarrow> idem_op \<Rightarrow> idem_store \<Rightarrow> idem_store" where
  "idem_exec env ld du (Reserve now t k h rid ttl pj u se c) s =
     snd (reserve_or_replay env now t k h rid ttl pj u se c s)"
| "idem_exec env ld du (MarkComplete now t k resp ts code) s = mark_complete ld du now t k resp ts code s"
| "idem_exec env ld du (MarkFailed now t k code) s = mark_failed now t k code s"
| "idem_exec env ld du (Release t k) s = idem_release t k s"
| "idem_exec env ld du (Purge now) s = snd (purge_expired now s)"

definition idem_get :: "idem_store \<Rightarrow> string \<times> string \<Rightarrow> idem_record option" where
  "idem_get s k = sql_lookup idem_key k (is_rows s)"

definition idem_row_ok :: "idem_record \<Rightarrow> bool" where
  "idem_row_ok r = (ir_status r \<in> {''pending'', ''succeeded'', ''failed'', ''cancelled'', ''timed_out''} \<and>
     (ir_status r = ''pending'' \<longrightarrow> ir_response_snapshot r = '''' \<and> ir_status_code r = 200))"

definition idem_inv :: "idem_store \<Rightarrow> bool" where
  "idem_inv s = (unique_key idem_key (is_rows s) \<and> (\<forall>r\<in>set (is_rows s). idem_row_ok r))"

end
