(* ===== verification/Idempotency_Theorems.thy ===== *)
theory Idempotency_Theorems
  imports Idempotency_Store
begin

text \<open>
  What the idempotency store promises: one row per tenant and key, one winner among the calls that
  reserve a key, replay of the recorded response, isolation of tenants, and lazy expiry that agrees
  with the purge.
\<close>

section \<open>Rows under the operations\<close>

definition fresh_record ::
  "real \<Rightarrow> string \<Rightarrow> string \<Rightarrow> string \<Rightarrow> string \<Rightarrow> real \<Rightarrow> string \<Rightarrow> string \<Rightarrow> string \<Rightarrow> idem_record" where
  "fresh_record now t k h rid ttl pj u se =
     \<lparr>ir_tenant_id = t, ir_idempotency_key = k, ir_request_hash = h, ir_run_id = rid,
      ir_status = ''pending'', ir_response_snapshot = '''', ir_created_at = now, ir_updated_at = now,
      ir_expires_at = now + ttl, ir_project_id = pj, ir_user_id = u, ir_session_id = se,
      ir_status_code = 200\<rparr>"

lemma ctx_field_None [simp]: "ctx_field f None v = v"
  by (simp add: ctx_field_def)

lemma fresh_record_simps [simp]:
  "idem_key (fresh_record now t k h rid ttl pj u se) = (t, k)"
  "ir_request_hash (fresh_record now t k h rid ttl pj u se) = h"
  "ir_run_id (fresh_record now t k h rid ttl pj u se) = rid"
  "ir_expires_at (fresh_record now t k h rid ttl pj u se) = now + ttl"
  "ir_status (fresh_record now t k h rid ttl pj u se) = ''pending''"
  "ir_tenant_id (fresh_record now t k h rid ttl pj u se) = t"
  "ir_idempotency_key (fresh_record now t k h rid ttl pj u se) = k"
  "idem_row_ok (fresh_record now t k h rid ttl pj u se)"
  by (simp_all add: fresh_record_def idem_key_def idem_row_ok_def)

lemma idem_get_key: "idem_get s key = Some r \<Longrightarrow> idem_key r = key"
  by (auto simp: idem_get_def dest: sql_lookup_SomeD)

text \<open>The live record of a key at a time: an expired one counts as absent.\<close>

definition live :: "real \<Rightarrow> idem_store \<Rightarrow> string \<times> string \<Rightarrow> idem_record option" where
  "live now s key = (case idem_get s key of Some r \<Rightarrow> if ir_expires_at r < now then None else Some r | None \<Rightarrow> None)"

definition unexpired_rows :: "real \<Rightarrow> string \<times> string \<Rightarrow> idem_store \<Rightarrow> idem_record list" where
  "unexpired_rows now key s =
     (case idem_get s key of
        Some r \<Rightarrow> if ir_expires_at r < now then sql_delete (\<lambda>r. idem_key r = key) (is_rows s) else is_rows s
      | None \<Rightarrow> is_rows s)"

lemma unexpired_lookup:
  "idem_inv s \<Longrightarrow> sql_lookup idem_key key' (unexpired_rows now key s) =
     (if key' = key then live now s key else idem_get s key')"
  by (auto simp: unexpired_rows_def live_def idem_get_def idem_inv_def sql_lookup_delete
      dest: sql_lookup_SomeD [THEN conjunct2] split: option.splits)

lemma unexpired_subset: "set (unexpired_rows now key s) \<subseteq> set (is_rows s)"
  by (auto simp: unexpired_rows_def set_sql_delete split: option.splits)

lemma unexpired_unique: "idem_inv s \<Longrightarrow> unique_key idem_key (unexpired_rows now key s)"
  by (auto simp: unexpired_rows_def idem_inv_def split: option.splits)

lemma reserve_cases:
  assumes "idem_inv s"
  shows "live now s (t, k) = None \<Longrightarrow>
     reserve_scoped env now t k h rid ttl pj u se s =
       (case idem_post_init env (fresh_record now t k h rid ttl pj u se) of
          Some e \<Rightarrow> Inl e | None \<Rightarrow> Inr (Created, fresh_record now t k h rid ttl pj u se),
        s\<lparr>is_rows := unexpired_rows now (t, k) s @ [fresh_record now t k h rid ttl pj u se]\<rparr>)"
    and "live now s (t, k) = Some r \<Longrightarrow>
     fst (reserve_scoped env now t k h rid ttl pj u se s) =
       (case idem_post_init env r of Some e \<Rightarrow> Inl e
        | None \<Rightarrow> Inr (if ir_request_hash r = h then Replayed else Conflicted, r)) \<and>
     is_rows (snd (reserve_scoped env now t k h rid ttl pj u se s)) = unexpired_rows now (t, k) s"
  using unexpired_lookup [OF assms, of "(t, k)" now "(t, k)"]
  by (auto simp: reserve_scoped_def Let_def sql_lookup_def [symmetric] idem_get_def [symmetric]
      unexpired_rows_def [symmetric] fresh_record_def split: option.splits)

lemma reserve_rows:
  assumes "idem_inv s"
  shows "is_rows (snd (reserve_scoped env now t k h rid ttl pj u se s)) = unexpired_rows now (t, k) s @
     (if live now s (t, k) = None then [fresh_record now t k h rid ttl pj u se] else [])"
  using reserve_cases [OF assms, of now t k] by (cases "live now s (t, k)") simp_all

lemma reserve_get:
  assumes "idem_inv s"
  shows "idem_get (snd (reserve_scoped env now t k h rid ttl pj u se s)) key =
     (if key = (t, k) then Some (case live now s (t, k) of
          None \<Rightarrow> fresh_record now t k h rid ttl pj u se | Some r \<Rightarrow> r)
      else idem_get s key)"
  by (auto simp: idem_get_def reserve_rows [OF assms] sql_lookup_append unexpired_lookup [OF assms]
      split: option.splits)

lemma reserve_inv:
  assumes "idem_inv s"
  shows "idem_inv (snd (reserve_scoped env now t k h rid ttl pj u se s))"
  using assms unexpired_subset [of now "(t, k)" s] unexpired_unique [OF assms, of now "(t, k)"]
    unexpired_lookup [OF assms, of "(t, k)" now "(t, k)"]
  by (auto simp: idem_inv_def reserve_rows [OF assms] intro!: unique_key_append)

lemma reserve_or_replay_inv:
  "idem_inv s \<Longrightarrow> idem_inv (snd (reserve_or_replay env now t k h rid ttl pj u se c s))"
  by (simp add: reserve_or_replay_def reserve_inv)

lemma idem_inv_update:
  assumes "idem_inv s" "\<And>r. idem_key (f r) = idem_key r" "\<And>r. idem_row_ok r \<Longrightarrow> idem_row_ok (f r)"
  shows "idem_inv (s\<lparr>is_rows := sql_update p f (is_rows s)\<rparr>)"
  using assms by (auto simp: idem_inv_def unique_key_update in_set_sql_update)

lemma mark_complete_inv: "idem_inv s \<Longrightarrow> idem_inv (mark_complete ld du now t k resp ts code s)"
  by (auto simp: mark_complete_def Let_def idem_key_def idem_row_ok_def terminal_status_def
      intro!: idem_inv_update)

lemma mark_failed_inv: "idem_inv s \<Longrightarrow> idem_inv (mark_failed now t k code s)"
  by (auto simp: mark_failed_def idem_key_def idem_row_ok_def intro!: idem_inv_update)

lemma idem_inv_delete: "idem_inv s \<Longrightarrow> idem_inv (s\<lparr>is_rows := sql_delete p (is_rows s)\<rparr>)"
  by (auto simp: idem_inv_def set_sql_delete)

lemma release_inv: "idem_inv s \<Longrightarrow> idem_inv (idem_release t k s)"
  by (simp add: idem_release_def idem_inv_delete)

lemma purge_inv: "idem_inv s \<Longrightarrow> idem_inv (snd (purge_expired now s))"
  using idem_inv_delete [of s] by (simp add: purge_expired_def Let_def idem_inv_def)

lemma idem_exec_inv: "idem_inv s \<Longrightarrow> idem_inv (idem_exec env ld du op s)"
  by (cases op) (simp_all add: reserve_or_replay_inv mark_complete_inv mark_failed_inv release_inv purge_inv)

interpretation idem_life: op_system "idem_exec env ld du" idem_inv for env ld du
  by unfold_locales (rule idem_exec_inv)

lemma idem_init_inv [simp]: "idem_inv idem_init"
  by (simp add: idem_init_def idem_inv_def)

lemma mark_complete_get:
  "idem_get (mark_complete ld du now t k resp ts code s) key =
     map_option (\<lambda>r. if key = (t, k) then
       r\<lparr>ir_status := terminal_status ts, ir_response_snapshot := normalize_response_for_replay ld du resp,
         ir_updated_at := now,
         ir_status_code := (case code of Some c \<Rightarrow> c | None \<Rightarrow> default_status_code_for (terminal_status ts))\<rparr>
       else r) (idem_get s key)"
  using idem_get_key [of s key]
  by (cases "idem_get s key")
    (auto simp: mark_complete_def Let_def idem_get_def sql_lookup_update idem_key_def)

lemma mark_failed_get:
  "idem_get (mark_failed now t k code s) key =
     map_option (\<lambda>r. if key = (t, k) then
       r\<lparr>ir_status := ''failed'', ir_updated_at := now, ir_status_code := code\<rparr> else r) (idem_get s key)"
  using idem_get_key [of s key]
  by (cases "idem_get s key") (auto simp: mark_failed_def idem_get_def sql_lookup_update idem_key_def)

lemma release_get:
  assumes "idem_inv s"
  shows "idem_get (idem_release t k s) key =
     (case idem_get s key of None \<Rightarrow> None
      | Some r \<Rightarrow> if key = (t, k) \<and> ir_status r = ''pending'' then None else Some r)"
  using assms idem_get_key [of s key]
  by (cases "idem_get s key") (auto simp: idem_release_def idem_get_def idem_inv_def sql_lookup_delete)

lemma purge_get:
  assumes "idem_inv s"
  shows "idem_get (snd (purge_expired now s)) key = live now s key"
  using assms
  by (auto simp: purge_expired_def Let_def live_def idem_get_def idem_inv_def sql_lookup_delete split: option.splits)

lemmas idem_gets = reserve_get mark_complete_get mark_failed_get release_get purge_get

section \<open>A reservation survives until it expires\<close>

text \<open>The operations that may end a reservation of \<open>key\<close> before \<open>expiry\<close>: an explicit release of it,
  and a clock that is already past the expiry.\<close>

fun idem_quiet :: "string \<times> string \<Rightarrow> real \<Rightarrow> idem_op \<Rightarrow> bool" where
  "idem_quiet key expiry (Reserve now t k h rid ttl pj u se c) = ((ctx_field ec_tenant_id c t, k) = key \<longrightarrow> now \<le> expiry)"
| "idem_quiet key expiry (Release t k) = ((t, k) \<noteq> key)"
| "idem_quiet key expiry (Purge now) = (now \<le> expiry)"
| "idem_quiet key expiry _ = True"

definition reserved :: "string \<times> string \<Rightarrow> string \<Rightarrow> string \<Rightarrow> real \<Rightarrow> idem_store \<Rightarrow> bool" where
  "reserved key h rid expiry s = (idem_inv s \<and> (case idem_get s key of None \<Rightarrow> False
     | Some r \<Rightarrow> ir_request_hash r = h \<and> ir_run_id r = rid \<and> ir_expires_at r = expiry))"

lemma reserved_live:
  assumes "reserved key h rid expiry s" "now \<le> expiry"
  shows "\<exists>r. live now s key = Some r \<and> idem_key r = key \<and>
     ir_request_hash r = h \<and> ir_run_id r = rid \<and> ir_expires_at r = expiry"
  using assms by (auto simp: reserved_def live_def dest: idem_get_key split: option.splits)

lemma reserved_exec:
  assumes "reserved key h rid expiry s" "idem_quiet key expiry op"
  shows "reserved key h rid expiry (idem_exec env ld du op s)"
proof -
  have "idem_inv s" using assms(1) by (simp add: reserved_def)
  with assms show ?thesis
    using idem_exec_inv [of s env ld du op]
    by (cases op; cases "idem_get s key") (auto simp: reserved_def idem_gets reserve_or_replay_def live_def)
qed

interpretation reservation: guarded_system "idem_exec env ld du" "idem_quiet key expiry"
  "reserved key h rid expiry" for env ld du key expiry h rid
  by unfold_locales (rule reserved_exec)

text \<open>Once it holds a final response, a record changes only by another completion of its key.\<close>

fun idem_settled :: "string \<times> string \<Rightarrow> real \<Rightarrow> idem_op \<Rightarrow> bool" where
  "idem_settled key expiry (Reserve now t k h rid ttl pj u se c) = ((ctx_field ec_tenant_id c t, k) = key \<longrightarrow> now \<le> expiry)"
| "idem_settled key expiry (Release t k) = True"
| "idem_settled key expiry (Purge now) = (now \<le> expiry)"
| "idem_settled key expiry (MarkComplete now t k resp ts code) = ((t, k) \<noteq> key)"
| "idem_settled key expiry (MarkFailed now t k code) = ((t, k) \<noteq> key)"

definition settled :: "string \<times> string \<Rightarrow> idem_record \<Rightarrow> idem_store \<Rightarrow> bool" where
  "settled key r s = (idem_inv s \<and> idem_get s key = Some r \<and> ir_status r \<noteq> ''pending'')"

lemma settled_exec:
  assumes "settled key r s" "idem_settled key (ir_expires_at r) op"
  shows "settled key r (idem_exec env ld du op s)"
proof -
  have "idem_inv s" using assms(1) by (simp add: settled_def)
  with assms show ?thesis
    using idem_exec_inv [of s env ld du op]
    by (cases op) (auto simp: settled_def idem_gets reserve_or_replay_def live_def)
qed

interpretation settlement: guarded_system "idem_exec env ld du" "idem_settled key (ir_expires_at r)"
  "settled key r" for env ld du key r
  by unfold_locales (rule settled_exec)

section \<open>Properties\<close>

text \<open>Over any sequence of calls on an empty store, there is at most one row per tenant and key,
  every row's status is one of the five the code writes, and a pending row has an empty snapshot
  and the status code 200.\<close>

lemma idempotency_rows_well_formed: "idem_inv (fold (idem_exec env ld du) ops idem_init)"
  by (rule idem_life.run_inv) simp

lemma post_init_ok:
  "posture_from_env env = Inr p \<Longrightarrow> ir_tenant_id r \<noteq> '''' \<Longrightarrow> ir_idempotency_key r \<noteq> '''' \<Longrightarrow>
   ir_run_id r \<noteq> '''' \<Longrightarrow> idem_post_init env r = None"
  by (simp add: idem_post_init_def)

lemma reserve_live:
  assumes "idem_inv s" "live now s (ctx_field ec_tenant_id c t, k) = Some r" "idem_post_init env r = None"
  shows "fst (reserve_or_replay env now t k h rid ttl pj u se c s) =
     Inr (if ir_request_hash r = h then Replayed else Conflicted, r)"
  using reserve_cases(2) [OF assms(1,2)] assms(3) by (simp add: reserve_or_replay_def)

text \<open>The record that a call inserts, with what the context replaces.\<close>

abbreviation fresh_in_context ::
  "real \<Rightarrow> string \<Rightarrow> string \<Rightarrow> string \<Rightarrow> string \<Rightarrow> real \<Rightarrow> string \<Rightarrow> string \<Rightarrow> string \<Rightarrow> exec_ctx option \<Rightarrow> idem_record" where
  "fresh_in_context now t k h rid ttl pj u se c \<equiv> fresh_record now (ctx_field ec_tenant_id c t) k h rid ttl
     (ctx_field ec_project_id c pj) (ctx_field ec_user_id c u) (ctx_field ec_session_id c se)"

lemma reserve_absent:
  assumes "idem_inv s" "live now s (ctx_field ec_tenant_id c t, k) = None"
    "idem_post_init env (fresh_in_context now t k h rid ttl pj u se c) = None"
  shows "fst (reserve_or_replay env now t k h rid ttl pj u se c s) = Inr (Created, fresh_in_context now t k h rid ttl pj u se c)"
    and "reserved (ctx_field ec_tenant_id c t, k) h rid (now + ttl) (snd (reserve_or_replay env now t k h rid ttl pj u se c s))"
proof -
  show "fst (reserve_or_replay env now t k h rid ttl pj u se c s) = Inr (Created, fresh_in_context now t k h rid ttl pj u se c)"
    using reserve_cases(1) [OF assms(1,2)] assms(3) by (simp add: reserve_or_replay_def)
  show "reserved (ctx_field ec_tenant_id c t, k) h rid (now + ttl) (snd (reserve_or_replay env now t k h rid ttl pj u se c s))"
    by (simp add: reserve_or_replay_def reserved_def reserve_get reserve_inv assms(1,2))
qed

text \<open>C3. A key has one winner. Under a posture that resolves, the call that finds no live record for its tenant and key and gives a
  non-empty tenant, key and run id gets \<open>created\<close>. Whatever calls follow, for any key, tenant and context, short of an explicit release of
  this key and of a clock past its expiry, a later call for the same tenant and key gets \<open>replayed\<close> when its request hash is the same and
  \<open>conflict\<close> when it differs, and in both cases the record of the winner, with the winner's run. The tenant of a call is its argument, or
  that of its context when there is one.\<close>

theorem reservation_has_one_winner:
  assumes "T = ctx_field ec_tenant_id c t" and "T = ctx_field ec_tenant_id c' t'"
    and "idem_inv s" and "live now s (T, k) = None"
    and "posture_from_env env = Inr p" and "T \<noteq> ''''" and "k \<noteq> ''''" and "rid \<noteq> ''''"
    and "list_all (idem_quiet (T, k) (now + ttl)) ops" and "now' \<le> now + ttl"
    and first: "first = reserve_or_replay env now t k h rid ttl pj u se c s"
  shows "fst first = Inr (Created, fresh_record now T k h rid ttl
           (ctx_field ec_project_id c pj) (ctx_field ec_user_id c u) (ctx_field ec_session_id c se)) \<and>
         (\<exists>r. fst (reserve_or_replay env now' t' k h' rid' ttl' pj' u' se' c'
               (fold (idem_exec env ld du) ops (snd first))) =
             Inr (if h = h' then Replayed else Conflicted, r) \<and>
           ir_run_id r = rid \<and> ir_request_hash r = h \<and> idem_key r = (T, k))"
proof (intro conjI)
  have ok: "idem_post_init env (fresh_in_context now t k h rid ttl pj u se c) = None"
    using assms(1,5-8) by (simp add: post_init_ok)
  note new = reserve_absent [OF assms(3) assms(4) [unfolded assms(1)] ok]
  show "fst first = Inr (Created, fresh_record now T k h rid ttl
      (ctx_field ec_project_id c pj) (ctx_field ec_user_id c u) (ctx_field ec_session_id c se))"
    unfolding first assms(1) by (rule new)
  have "reserved (T, k) h rid (now + ttl) (fold (idem_exec env ld du) ops (snd first))" (is "reserved _ _ _ _ ?s")
    unfolding first by (rule reservation.guarded_run) (simp add: assms(1) new, rule assms(9))
  moreover obtain r where r: "live now' ?s (T, k) = Some r" "idem_key r = (T, k)"
      "ir_request_hash r = h" "ir_run_id r = rid"
    using reserved_live [OF calculation assms(10)] by auto
  moreover have "idem_post_init env r = None"
    using assms(5-8) r by (auto simp: idem_key_def intro!: post_init_ok)
  ultimately show "\<exists>r. fst (reserve_or_replay env now' t' k h' rid' ttl' pj' u' se' c' ?s) =
      Inr (if h = h' then Replayed else Conflicted, r) \<and>
      ir_run_id r = rid \<and> ir_request_hash r = h \<and> idem_key r = (T, k)"
    using reserve_live [of ?s now' c' t' k r env] assms(2) by (auto simp: reserved_def)
qed

definition demo_exec_ctx :: exec_ctx where
  "demo_exec_ctx = \<lparr>ec_tenant_id = ''t1'', ec_user_id = '''', ec_session_id = '''', ec_project_id = ''p''\<rparr>"

theorem reservation_has_one_winner_witness:
  "\<exists>r. fst (reserve_or_replay None 5 ''t9'' ''k1'' ''h2'' ''r2'' 10 '''' '''' '''' (Some demo_exec_ctx)
      (fold (idem_exec None (\<lambda>_. None) (\<lambda>_. '''')) [Release ''t2'' ''k1'', Reserve 4 '''' ''k1'' ''h1'' ''r9'' 3 '''' '''' '''' (Some demo_exec_ctx)]
        (snd (reserve_or_replay None 1 ''t1'' ''k1'' ''h1'' ''r1'' 10 '''' '''' '''' None idem_init)))) =
      Inr (Conflicted, r) \<and> ir_run_id r = ''r1'' \<and> ir_request_hash r = ''h1'' \<and> idem_key r = (''t1'', ''k1'')"
proof -
  let ?ops = "[Release ''t2'' ''k1'', Reserve 4 '''' ''k1'' ''h1'' ''r9'' 3 '''' '''' '''' (Some demo_exec_ctx)]"
  have t: "''t1'' = ctx_field ec_tenant_id None ''t1''" "''t1'' = ctx_field ec_tenant_id (Some demo_exec_ctx) ''t9''"
    by (simp_all add: ctx_field_def override_def demo_exec_ctx_def)
  have s: "idem_inv idem_init" "live 1 idem_init (''t1'', ''k1'') = None"
    by (simp, simp add: live_def idem_get_def idem_init_def sql_lookup_def)
  have ops: "list_all (idem_quiet (''t1'', ''k1'') (1 + 10)) ?ops" by simp
  have n: "''t1'' \<noteq> ''''" "''k1'' \<noteq> ''''" "''r1'' \<noteq> ''''" "(5::real) \<le> 1 + 10" and d: "''h1'' \<noteq> ''h2''" by simp_all
  show ?thesis
    using conjunct2 [OF reservation_has_one_winner [OF t s posture_from_env_unset n(1-3) ops n(4) refl, where h = "''h1''" and h' = "''h2''"
      and pj = "''''" and u = "''''" and se = "''''" and rid' = "''r2''" and ttl' = 10 and pj' = "''''" and u' = "''''" and se' = "''''"
      and ld = "\<lambda>_. None" and du = "\<lambda>_. ''''"], unfolded if_not_P [OF d]] .
qed

text \<open>The recorded response is what every retry sees. After \<open>mark_complete\<close> on a live record,
  whatever reserve, release or purge calls come, and completions of other keys, a later reserve
  call with the same key and request hash before the expiry gets \<open>replayed\<close> with the terminal
  status, the normalised response body and the status code that were recorded, unknown terminal
  states counting as success; a release no longer removes the row.\<close>

lemma completed_response_is_replayed:
  assumes "idem_inv s" and "idem_get s (t, k) = Some r" and "posture_from_env env = Inr p"
    and "t \<noteq> ''''" and "k \<noteq> ''''" and "ir_run_id r \<noteq> ''''"
    and "list_all (idem_settled (t, k) (ir_expires_at r)) ops" and "now' \<le> ir_expires_at r"
  shows "fst (reserve_or_replay env now' t k (ir_request_hash r) rid' ttl' pj' u' se' None
           (fold (idem_exec env ld du) ops (mark_complete ld du now t k resp ts code s))) =
         Inr (Replayed, r\<lparr>ir_status := terminal_status ts,
           ir_response_snapshot := normalize_response_for_replay ld du resp, ir_updated_at := now,
           ir_status_code := (case code of Some c \<Rightarrow> c | None \<Rightarrow> default_status_code_for (terminal_status ts))\<rparr>)"
proof -
  let ?r = "r\<lparr>ir_status := terminal_status ts,
      ir_response_snapshot := normalize_response_for_replay ld du resp, ir_updated_at := now,
      ir_status_code := (case code of Some c \<Rightarrow> c | None \<Rightarrow> default_status_code_for (terminal_status ts))\<rparr>"
  have "settled (t, k) ?r (mark_complete ld du now t k resp ts code s)"
    using assms(1,2) by (auto simp: settled_def mark_complete_inv mark_complete_get terminal_status_def)
  then have s: "settled (t, k) ?r (fold (idem_exec env ld du) ops (mark_complete ld du now t k resp ts code s))"
    (is "settled _ _ ?s")
    by (rule settlement.guarded_run) (use assms(7) in simp)
  have "idem_key r = (t, k)" by (rule idem_get_key [OF assms(2)])
  then have "idem_post_init env ?r = None"
    by (intro post_init_ok [OF assms(3)]) (use assms(4-6) in \<open>auto simp: idem_key_def\<close>)
  moreover have "live now' ?s (t, k) = Some ?r"
    using s assms(8) by (simp add: settled_def live_def)
  ultimately show ?thesis
    using s reserve_live [of ?s now' None t k ?r env] by (simp add: settled_def)
qed

fun idem_op_tenant :: "idem_op \<Rightarrow> string option" where
  "idem_op_tenant (Reserve now t k h rid ttl pj u se c) = Some (ctx_field ec_tenant_id c t)"
| "idem_op_tenant (MarkComplete now t k resp ts code) = Some t"
| "idem_op_tenant (MarkFailed now t k code) = Some t"
| "idem_op_tenant (Release t k) = Some t"
| "idem_op_tenant (Purge now) = None"

text \<open>Tenants do not see each other's keys: any sequence of calls made for other tenants, and any
  sweep whose cutoff is not past the record's expiry, leaves the record of a tenant's key as it
  was, and so the outcome of that tenant's next call.\<close>

lemma idempotency_isolates_tenants:
  assumes "idem_inv s" and "\<forall>op\<in>set ops. idem_op_tenant op \<noteq> Some t"
    and "\<forall>cutoff. Purge cutoff \<in> set ops \<longrightarrow> cutoff \<le> now"
  shows "live now (fold (idem_exec env ld du) ops s) (t, k) = live now s (t, k) \<and>
    fst (reserve_or_replay env now t k h rid ttl pj u se None (fold (idem_exec env ld du) ops s)) =
    fst (reserve_or_replay env now t k h rid ttl pj u se None s)"
proof -
  have step: "live now (idem_exec env ld du op s) (t, k) = live now s (t, k)"
    if "idem_inv s" "idem_op_tenant op \<noteq> Some t" "\<forall>c. op = Purge c \<longrightarrow> c \<le> now" for op s
    using that by (cases op; cases "idem_get s (t, k)")
      (auto simp: live_def idem_gets reserve_or_replay_def)
  have same: "live now (fold (idem_exec env ld du) ops s) (t, k) = live now s (t, k)"
    using assms
  proof (induction ops arbitrary: s)
    case (Cons op ops)
    then show ?case
      using Cons.IH [OF idem_exec_inv [OF Cons.prems(1), of env ld du op]] step [of s op] by simp
  qed simp
  have inv: "idem_inv (fold (idem_exec env ld du) ops s)" by (rule idem_life.run_inv [OF assms(1)])
  show ?thesis
    using same reserve_cases [OF assms(1), of now t k] reserve_cases [OF inv, of now t k]
    by (cases "live now s (t, k)") (simp_all add: reserve_or_replay_def)
qed

text \<open>The lazy expiry of \<open>reserve_or_replay\<close> agrees with the sweep: a call has the same outcome
  whether or not \<open>purge_expired\<close> ran just before it with the same clock, and the sweep removes
  exactly the rows past their expiry and reports their number.\<close>

lemma lazy_expiry_agrees_with_purge:
  assumes "idem_inv s"
  shows "fst (reserve_or_replay env now t k h rid ttl pj u se c (snd (purge_expired now s))) =
         fst (reserve_or_replay env now t k h rid ttl pj u se c s) \<and>
    set (is_rows (snd (purge_expired now s))) = {r \<in> set (is_rows s). now \<le> ir_expires_at r} \<and>
    fst (purge_expired now s) + length (is_rows (snd (purge_expired now s))) = length (is_rows s)"
proof (intro conjI)
  have inv: "idem_inv (snd (purge_expired now s))" by (rule purge_inv [OF assms])
  have "fst (reserve_scoped env now t k h rid ttl pj u se (snd (purge_expired now s))) =
      fst (reserve_scoped env now t k h rid ttl pj u se s)" for t pj u se
  proof -
    have "live now (snd (purge_expired now s)) (t, k) = live now s (t, k)"
      by (auto simp: live_def [of now "snd (purge_expired now s)"] purge_get [OF assms])
        (auto simp: live_def split: option.splits if_splits)
    then show ?thesis
      using reserve_cases [OF assms, of now t k] reserve_cases [OF inv, of now t k]
      by (cases "live now s (t, k)") simp_all
  qed
  then show "fst (reserve_or_replay env now t k h rid ttl pj u se c (snd (purge_expired now s))) =
      fst (reserve_or_replay env now t k h rid ttl pj u se c s)"
    by (simp add: reserve_or_replay_def split: option.splits)
  show "set (is_rows (snd (purge_expired now s))) = {r \<in> set (is_rows s). now \<le> ir_expires_at r}"
    by (auto simp: purge_expired_def Let_def set_sql_delete)
  show "fst (purge_expired now s) + length (is_rows (snd (purge_expired now s))) = length (is_rows s)"
    using sum_length_filter_compl [of "\<lambda>r. ir_expires_at r < now" "is_rows s"]
    by (auto simp add: purge_expired_def Let_def sql_rowcount_def sql_delete_def)
qed

text \<open>A replayed body does not carry the envelope of the first request. When serialising and
  parsing the reduced object gives it back, the snapshot stored for a JSON object parses to an object
  without \<open>request_id\<close>, \<open>trace_id\<close>, \<open>x_request_id\<close> and \<open>_response_timestamp\<close>, and with every other
  field as it was.\<close>

lemma snapshot_drops_identity_fields:
  assumes "loads (dumps (JObj (drop_keys IDENTITY_FIELDS_STRIPPED_ON_REPLAY d))) =
      Some (JObj (drop_keys IDENTITY_FIELDS_STRIPPED_ON_REPLAY d))" and "loads body = Some (JObj d)" and "body \<noteq> ''''"
  shows "\<exists>d'. loads (normalize_response_for_replay loads dumps body) = Some (JObj d') \<and>
    (\<forall>f. map_of d' f = (if f \<in> set IDENTITY_FIELDS_STRIPPED_ON_REPLAY then None else map_of d f))"
proof (cases "list_ex (\<lambda>f. f \<in> set (map fst d)) IDENTITY_FIELDS_STRIPPED_ON_REPLAY")
  case True
  then have "loads (normalize_response_for_replay loads dumps body) =
      Some (JObj (drop_keys IDENTITY_FIELDS_STRIPPED_ON_REPLAY d))"
    using assms by (simp add: normalize_response_for_replay_def)
  then show ?thesis by (auto simp: drop_keys_gone drop_keys_keep)
next
  case False
  then have "map_of d f = None" if "f \<in> set IDENTITY_FIELDS_STRIPPED_ON_REPLAY" for f
    using that by (auto simp: list_ex_iff map_of_eq_None_iff)
  moreover have "normalize_response_for_replay loads dumps body = body"
    using False assms by (simp add: normalize_response_for_replay_def)
  ultimately show ?thesis using assms(2) by auto
qed

text \<open>A two-entry codec on which the property is applied.\<close>

definition demo_loads :: "string \<Rightarrow> json option" where
  "demo_loads = map_of [(''full'', JObj [(''run_id'', JStr ''r1''), (''trace_id'', JStr ''x'')]),
     (''bare'', JObj [(''run_id'', JStr ''r1'')])]"

text \<open>A reservation that fails validation still takes the key. Under a strict posture a call
  without a run id raises \<open>SpineCompletenessError\<close>, but only after its row was committed; until the
  row expires, every later call with that key raises the same exception, with a run id too and
  whatever other calls come between, unless the key is released.\<close>

lemma rejected_reservation_blocks_key:
  assumes "idem_inv s" and "live now s (t, k) = None" and "posture_from_env env = Inr p"
    and "is_strict p" and "t \<noteq> ''''" and "k \<noteq> ''''"
    and "list_all (idem_quiet (t, k) (now + ttl)) ops" and "now' \<le> now + ttl"
    and first: "first = reserve_or_replay env now t k h '''' ttl pj u se None s"
  shows "fst first = Inl (SpineCompletenessError [''run_id'']) \<and>
    fst (reserve_or_replay env now' t k h' rid' ttl' pj' u' se' None
      (fold (idem_exec env ld du) ops (snd first))) = Inl (SpineCompletenessError [''run_id''])"
proof
  have bad: "idem_post_init env r = Some (SpineCompletenessError [''run_id''])"
    if "idem_key r = (t, k)" "ir_run_id r = ''''" for r
    using that assms(3-6) by (simp add: idem_post_init_def idem_key_def)
  show "fst first = Inl (SpineCompletenessError [''run_id''])"
    using reserve_cases(1) [OF assms(1,2)] by (simp add: first reserve_or_replay_def bad)
  have "reserved (t, k) h '''' (now + ttl) (snd first)"
    by (simp add: first reserve_or_replay_def reserved_def reserve_get reserve_inv assms(1,2))
  then have s: "reserved (t, k) h '''' (now + ttl) (fold (idem_exec env ld du) ops (snd first))"
    (is "reserved _ _ _ _ ?s")
    using assms(7) by (rule reservation.guarded_run)
  obtain r where r: "live now' ?s (t, k) = Some r" "idem_key r = (t, k)" "ir_run_id r = ''''"
    using reserved_live [OF s assms(8)] by auto
  have "idem_inv ?s" using s by (simp add: reserved_def)
  from reserve_cases(2) [OF this r(1)]
  show "fst (reserve_or_replay env now' t k h' rid' ttl' pj' u' se' None ?s) =
      Inl (SpineCompletenessError [''run_id''])"
    by (simp add: reserve_or_replay_def bad r)
qed

end
