(* ===== verification/Dedupe_Store.thy ===== *)
theory Dedupe_Store
  imports Prelude
begin

text \<open>
  The dispatch dedupe ledger of \<open>agent_kernel/kernel/dedupe_store.py\<close>: its data, the in-memory store
  (a Python \<open>dict\<close>, here an ordered association list), and the contract of \<open>DedupeStorePort\<close> as an
  abstract machine on a map from keys to records, with the locale \<open>dedupe_port\<close> that every store
  implements. A raised \<open>DedupeStoreStateError\<close> is a left value; it leaves the store as it was.
\<close>

section \<open>Data\<close>

datatype dedupe_state = Reserved | Dispatched | Acknowledged | Succeeded | Unknown_effect

record idempotency_envelope =
  en_dispatch_idempotency_key :: string
  en_operation_fingerprint :: string
  en_attempt_seq :: int
  en_effect_scope :: string
  en_capability_snapshot_hash :: string
  en_host_kind :: string
  en_peer_operation_id :: "string option"
  en_policy_snapshot_ref :: "string option"
  en_rule_bundle_hash :: "string option"

record dedupe_record =
  dr_dispatch_idempotency_key :: string
  dr_operation_fingerprint :: string
  dr_attempt_seq :: int
  dr_state :: dedupe_state
  dr_peer_operation_id :: "string option"
  dr_external_ack_ref :: "string option"

record dedupe_reservation =
  rs_accepted :: bool
  rs_reason :: string
  rs_existing_record :: "dedupe_record option"

datatype dedupe_error =
    UnknownKey string
  | CannotTransition dedupe_state dedupe_state
  | LostUpdate string dedupe_state
  | DatabaseLocked
  | NestedTransaction

definition duplicate_reservation :: "dedupe_record \<Rightarrow> dedupe_reservation" where
  "duplicate_reservation r = \<lparr>rs_accepted = False, rs_reason = ''duplicate'', rs_existing_record = Some r\<rparr>"

definition accepted_reservation :: dedupe_reservation where
  "accepted_reservation = \<lparr>rs_accepted = True, rs_reason = ''accepted'', rs_existing_record = None\<rparr>"

definition initial_record :: "idempotency_envelope \<Rightarrow> dedupe_state \<Rightarrow> string option \<Rightarrow> dedupe_record" where
  "initial_record e st peer =
     \<lparr>dr_dispatch_idempotency_key = en_dispatch_idempotency_key e,
      dr_operation_fingerprint = en_operation_fingerprint e, dr_attempt_seq = en_attempt_seq e,
      dr_state = st, dr_peer_operation_id = peer, dr_external_ack_ref = None\<rparr>"

section \<open>The in-memory store\<close>

type_synonym mem_store = "(string \<times> dedupe_record) list"

definition mem_init :: mem_store where
  "mem_init = []"

definition mem_reserve :: "idempotency_envelope \<Rightarrow> mem_store \<Rightarrow> dedupe_reservation \<times> mem_store" where
  "mem_reserve e s =
     (case map_of s (en_dispatch_idempotency_key e) of
        Some existing_record \<Rightarrow> (duplicate_reservation existing_record, s)
      | None \<Rightarrow> (accepted_reservation, dict_set (en_dispatch_idempotency_key e)
          (initial_record e Reserved (en_peer_operation_id e)) s))"

definition mem_get_required_record :: "string \<Rightarrow> mem_store \<Rightarrow> dedupe_error + dedupe_record" where
  "mem_get_required_record k s = (case map_of s k of None \<Rightarrow> Inl (UnknownKey k) | Some r \<Rightarrow> Inr r)"

definition mem_mark_dispatched ::
  "string \<Rightarrow> string option \<Rightarrow> mem_store \<Rightarrow> (dedupe_error + unit) \<times> mem_store" where
  "mem_mark_dispatched k peer s =
     (case mem_get_required_record k s of
        Inl e \<Rightarrow> (Inl e, s)
      | Inr record \<Rightarrow>
          if dr_state record \<notin> {Reserved, Dispatched}
          then (Inl (CannotTransition (dr_state record) Dispatched), s)
          else (Inr (), dict_set k
            \<lparr>dr_dispatch_idempotency_key = dr_dispatch_idempotency_key record,
             dr_operation_fingerprint = dr_operation_fingerprint record,
             dr_attempt_seq = dr_attempt_seq record, dr_state = Dispatched,
             dr_peer_operation_id = opt_or peer (dr_peer_operation_id record),
             dr_external_ack_ref = dr_external_ack_ref record\<rparr> s))"

definition mem_mark_acknowledged ::
  "string \<Rightarrow> string option \<Rightarrow> mem_store \<Rightarrow> (dedupe_error + unit) \<times> mem_store" where
  "mem_mark_acknowledged k ack s =
     (case mem_get_required_record k s of
        Inl e \<Rightarrow> (Inl e, s)
      | Inr record \<Rightarrow>
          if dr_state record \<notin> {Dispatched, Acknowledged}
          then (Inl (CannotTransition (dr_state record) Acknowledged), s)
          else (Inr (), dict_set k
            \<lparr>dr_dispatch_idempotency_key = dr_dispatch_idempotency_key record,
             dr_operation_fingerprint = dr_operation_fingerprint record,
             dr_attempt_seq = dr_attempt_seq record, dr_state = Acknowledged,
             dr_peer_operation_id = dr_peer_operation_id record,
             dr_external_ack_ref = opt_or ack (dr_external_ack_ref record)\<rparr> s))"

definition mem_mark_succeeded ::
  "string \<Rightarrow> string option \<Rightarrow> mem_store \<Rightarrow> (dedupe_error + unit) \<times> mem_store" where
  "mem_mark_succeeded k ack s =
     (case mem_get_required_record k s of
        Inl e \<Rightarrow> (Inl e, s)
      | Inr record \<Rightarrow>
          if dr_state record \<notin> {Acknowledged, Succeeded}
          then (Inl (CannotTransition (dr_state record) Succeeded), s)
          else (Inr (), dict_set k
            \<lparr>dr_dispatch_idempotency_key = dr_dispatch_idempotency_key record,
             dr_operation_fingerprint = dr_operation_fingerprint record,
             dr_attempt_seq = dr_attempt_seq record, dr_state = Succeeded,
             dr_peer_operation_id = dr_peer_operation_id record,
             dr_external_ack_ref = opt_or ack (dr_external_ack_ref record)\<rparr> s))"

definition mem_mark_unknown_effect :: "string \<Rightarrow> mem_store \<Rightarrow> (dedupe_error + unit) \<times> mem_store" where
  "mem_mark_unknown_effect k s =
     (case mem_get_required_record k s of
        Inl e \<Rightarrow> (Inl e, s)
      | Inr record \<Rightarrow>
          if dr_state record \<notin> {Dispatched, Unknown_effect}
          then (Inl (CannotTransition (dr_state record) Unknown_effect), s)
          else (Inr (), dict_set k
            \<lparr>dr_dispatch_idempotency_key = dr_dispatch_idempotency_key record,
             dr_operation_fingerprint = dr_operation_fingerprint record,
             dr_attempt_seq = dr_attempt_seq record, dr_state = Unknown_effect,
             dr_peer_operation_id = dr_peer_operation_id record,
             dr_external_ack_ref = dr_external_ack_ref record\<rparr> s))"

definition mem_reserve_and_dispatch ::
  "idempotency_envelope \<Rightarrow> string option \<Rightarrow> mem_store \<Rightarrow> dedupe_reservation \<times> mem_store" where
  "mem_reserve_and_dispatch e peer s =
     (case map_of s (en_dispatch_idempotency_key e) of
        Some existing_record \<Rightarrow> (duplicate_reservation existing_record, s)
      | None \<Rightarrow> (accepted_reservation, dict_set (en_dispatch_idempotency_key e)
          (initial_record e Dispatched (opt_or peer (en_peer_operation_id e))) s))"

definition mem_get :: "string \<Rightarrow> mem_store \<Rightarrow> dedupe_record option" where
  "mem_get k s = map_of s k"

definition mem_count_by_run :: "string \<Rightarrow> mem_store \<Rightarrow> nat" where
  "mem_count_by_run run_id s = length (filter (\<lambda>k. py_startswith k run_id) (map fst s))"

section \<open>The contract\<close>

datatype dedupe_op =
    Reserve_op idempotency_envelope
  | Mark_dispatched_op string "string option"
  | Mark_acknowledged_op string "string option"
  | Mark_succeeded_op string "string option"
  | Mark_unknown_effect_op string
  | Reserve_and_dispatch_op idempotency_envelope "string option"

type_synonym dedupe_reply = "dedupe_error + dedupe_reservation option"

text \<open>The state machine of the port: the states a mark accepts and what it writes into the record.\<close>

definition spec_insert ::
  "string \<Rightarrow> dedupe_record \<Rightarrow> (string \<rightharpoonup> dedupe_record) \<Rightarrow> dedupe_reply \<times> (string \<rightharpoonup> dedupe_record)" where
  "spec_insert k r m =
     (case m k of Some x \<Rightarrow> (Inr (Some (duplicate_reservation x)), m)
      | None \<Rightarrow> (Inr (Some accepted_reservation), m(k \<mapsto> r)))"

definition spec_mark ::
  "string \<Rightarrow> dedupe_state list \<Rightarrow> dedupe_state \<Rightarrow> (dedupe_record \<Rightarrow> dedupe_record) \<Rightarrow>
   (string \<rightharpoonup> dedupe_record) \<Rightarrow> dedupe_reply \<times> (string \<rightharpoonup> dedupe_record)" where
  "spec_mark k froms target f m =
     (case m k of None \<Rightarrow> (Inl (UnknownKey k), m)
      | Some r \<Rightarrow> if dr_state r \<in> set froms then (Inr None, m(k \<mapsto> f (r\<lparr>dr_state := target\<rparr>)))
         else (Inl (CannotTransition (dr_state r) target), m))"

fun spec_step ::
  "dedupe_op \<Rightarrow> (string \<rightharpoonup> dedupe_record) \<Rightarrow> dedupe_reply \<times> (string \<rightharpoonup> dedupe_record)" where
  "spec_step (Reserve_op e) m =
     spec_insert (en_dispatch_idempotency_key e) (initial_record e Reserved (en_peer_operation_id e)) m"
| "spec_step (Reserve_and_dispatch_op e peer) m = spec_insert (en_dispatch_idempotency_key e)
     (initial_record e Dispatched (opt_or peer (en_peer_operation_id e))) m"
| "spec_step (Mark_dispatched_op k peer) m = spec_mark k [Reserved, Dispatched] Dispatched
     (\<lambda>r. r\<lparr>dr_peer_operation_id := opt_or peer (dr_peer_operation_id r)\<rparr>) m"
| "spec_step (Mark_acknowledged_op k ack) m = spec_mark k [Dispatched, Acknowledged] Acknowledged
     (\<lambda>r. r\<lparr>dr_external_ack_ref := opt_or ack (dr_external_ack_ref r)\<rparr>) m"
| "spec_step (Mark_succeeded_op k ack) m = spec_mark k [Acknowledged, Succeeded] Succeeded
     (\<lambda>r. r\<lparr>dr_external_ack_ref := opt_or ack (dr_external_ack_ref r)\<rparr>) m"
| "spec_step (Mark_unknown_effect_op k) m = spec_mark k [Dispatched, Unknown_effect] Unknown_effect id m"

fun op_key :: "dedupe_op \<Rightarrow> string" where
  "op_key (Reserve_op e) = en_dispatch_idempotency_key e"
| "op_key (Reserve_and_dispatch_op e peer) = en_dispatch_idempotency_key e"
| "op_key (Mark_dispatched_op k peer) = k"
| "op_key (Mark_acknowledged_op k ack) = k"
| "op_key (Mark_succeeded_op k ack) = k"
| "op_key (Mark_unknown_effect_op k) = k"

text \<open>One edge of the documented transition graph, as far as the code goes.\<close>

inductive dedupe_edge :: "dedupe_state \<Rightarrow> dedupe_state \<Rightarrow> bool" where
  "dedupe_edge Reserved Dispatched"
| "dedupe_edge Dispatched Acknowledged"
| "dedupe_edge Acknowledged Succeeded"
| "dedupe_edge Dispatched Unknown_effect"

inductive_simps dedupe_edge_simps [simp]: "dedupe_edge Reserved s" "dedupe_edge Dispatched s"
  "dedupe_edge Acknowledged s" "dedupe_edge Succeeded s" "dedupe_edge Unknown_effect s"

section \<open>Facts of the contract\<close>

fun replies :: "('op \<Rightarrow> 's \<Rightarrow> 'r \<times> 's) \<Rightarrow> 'op list \<Rightarrow> 's \<Rightarrow> 'r list" where
  "replies exec [] s = []"
| "replies exec (op # ops) s = fst (exec op s) # replies exec ops (snd (exec op s))"

definition final :: "('op \<Rightarrow> 's \<Rightarrow> 'r \<times> 's) \<Rightarrow> 'op list \<Rightarrow> 's \<Rightarrow> 's" where
  "final exec ops s = fold (\<lambda>op s. snd (exec op s)) ops s"

lemma final_simps [simp]:
  "final exec [] s = s" "final exec (op # ops) s = final exec ops (snd (exec op s))"
  by (simp_all add: final_def)

definition accepts :: "string \<Rightarrow> dedupe_op \<times> dedupe_reply \<Rightarrow> bool" where
  "accepts k x = (op_key (fst x) = k \<and> (case snd x of Inr (Some r) \<Rightarrow> rs_accepted r | _ \<Rightarrow> False))"

definition follows :: "dedupe_record \<Rightarrow> dedupe_record \<Rightarrow> bool" where
  "follows r r' = (dedupe_edge\<^sup>*\<^sup>* (dr_state r) (dr_state r') \<and>
     dr_dispatch_idempotency_key r' = dr_dispatch_idempotency_key r \<and>
     dr_operation_fingerprint r' = dr_operation_fingerprint r \<and> dr_attempt_seq r' = dr_attempt_seq r)"

lemma follows_refl [simp]: "follows r r"
  by (simp add: follows_def)

lemma follows_trans: "follows r r' \<Longrightarrow> follows r' r'' \<Longrightarrow> follows r r''"
  by (auto simp: follows_def)

lemma follows_refs [simp]:
  "follows r (r\<lparr>dr_peer_operation_id := p\<rparr>)" "follows r (r\<lparr>dr_external_ack_ref := a\<rparr>)"
  by (simp_all add: follows_def)

lemma spec_mark_follows:
  assumes "\<And>r. follows r (f r)" "\<forall>st\<in>set froms. dedupe_edge st target \<or> st = target" "m k = Some r"
  shows "\<exists>r'. snd (spec_mark k' froms target f m) k = Some r' \<and> follows r r'"
proof (cases "k = k' \<and> dr_state r \<in> set froms")
  case True
  then have "follows r (r\<lparr>dr_state := target\<rparr>)" using assms(2) by (auto simp: follows_def)
  with True assms(1,3) show ?thesis by (auto simp: spec_mark_def intro: follows_trans)
next
  case False
  with assms(3) show ?thesis by (auto simp: spec_mark_def split: option.splits)
qed

lemma spec_step_follows: "m k = Some r \<Longrightarrow> \<exists>r'. snd (spec_step op m) k = Some r' \<and> follows r r'"
  by (cases op)
    (auto simp: spec_insert_def intro!: spec_mark_follows split: option.splits)

lemma spec_step_other: "k \<noteq> op_key op \<Longrightarrow> snd (spec_step op m) k = m k"
  by (cases op) (auto simp: spec_insert_def spec_mark_def split: option.splits)

lemma spec_step_accepts:
  "accepts k (op, fst (spec_step op m)) \<Longrightarrow> m k = None \<and> snd (spec_step op m) k \<noteq> None"
  by (cases op)
    (auto simp: accepts_def spec_insert_def spec_mark_def duplicate_reservation_def split: option.splits if_splits)

lemma spec_step_keeps: "m k \<noteq> None \<Longrightarrow> snd (spec_step op m) k \<noteq> None"
  using spec_step_follows [of m k _ op] by blast

lemma spec_accepts_bound:
  "length (filter (accepts k) (zip ops (replies spec_step ops m))) \<le> (if m k = None then 1 else 0)"
proof (induction ops arbitrary: m)
  case (Cons op ops)
  let ?m = "snd (spec_step op m)"
  from Cons.IH [of ?m] spec_step_accepts [of k op m] spec_step_keeps [of m k op]
  show ?case by (auto split: if_splits)
qed simp

lemma spec_final_follows:
  "m k = Some r \<Longrightarrow> \<exists>r'. final spec_step ops m k = Some r' \<and> follows r r'"
proof (induction ops arbitrary: m r)
  case (Cons op ops)
  obtain r1 where "snd (spec_step op m) k = Some r1" "follows r r1"
    using spec_step_follows [of m k r op] Cons.prems by blast
  with Cons.IH show ?case by (fastforce intro: follows_trans)
qed simp

section \<open>The port as an interface\<close>

text \<open>What a store owes the dispatcher: it answers and moves as the abstract machine does on the map
  its state represents.\<close>

locale dedupe_port =
  fixes exec :: "dedupe_op \<Rightarrow> 's \<Rightarrow> dedupe_reply \<times> 's"
    and inv :: "'s \<Rightarrow> bool"
    and abs :: "'s \<Rightarrow> string \<rightharpoonup> dedupe_record"
  assumes exec_inv: "inv s \<Longrightarrow> inv (snd (exec op s))"
    and exec_reply: "inv s \<Longrightarrow> fst (exec op s) = fst (spec_step op (abs s))"
    and exec_abs: "inv s \<Longrightarrow> abs (snd (exec op s)) = snd (spec_step op (abs s))"
begin

lemma refines: "inv s \<Longrightarrow> replies exec ops s = replies spec_step ops (abs s) \<and>
    abs (final exec ops s) = final spec_step ops (abs s) \<and> inv (final exec ops s)"
  by (induction ops arbitrary: s) (simp_all add: exec_inv exec_reply exec_abs)

lemma accepted_once:
  "inv s \<Longrightarrow> length (filter (accepts k) (zip ops (replies exec ops s))) \<le> 1"
  using spec_accepts_bound [of k ops "abs s"] refines [of s ops] by (simp split: if_splits)

lemma record_follows:
  "inv s \<Longrightarrow> abs s k = Some r \<Longrightarrow> \<exists>r'. abs (final exec ops s) k = Some r' \<and> follows r r'"
  using spec_final_follows [of "abs s" k r ops] refines [of s ops] by simp

end

fun mem_exec :: "dedupe_op \<Rightarrow> mem_store \<Rightarrow> dedupe_reply \<times> mem_store" where
  "mem_exec (Reserve_op e) s = apfst (Inr \<circ> Some) (mem_reserve e s)"
| "mem_exec (Reserve_and_dispatch_op e peer) s = apfst (Inr \<circ> Some) (mem_reserve_and_dispatch e peer s)"
| "mem_exec (Mark_dispatched_op k peer) s = apfst (map_sum id (\<lambda>_. None)) (mem_mark_dispatched k peer s)"
| "mem_exec (Mark_acknowledged_op k ack) s = apfst (map_sum id (\<lambda>_. None)) (mem_mark_acknowledged k ack s)"
| "mem_exec (Mark_succeeded_op k ack) s = apfst (map_sum id (\<lambda>_. None)) (mem_mark_succeeded k ack s)"
| "mem_exec (Mark_unknown_effect_op k) s = apfst (map_sum id (\<lambda>_. None)) (mem_mark_unknown_effect k s)"

lemmas mem_ops = mem_reserve_def mem_reserve_and_dispatch_def mem_mark_dispatched_def
  mem_mark_acknowledged_def mem_mark_succeeded_def mem_mark_unknown_effect_def mem_get_required_record_def

lemma mem_exec_spec:
  "fst (mem_exec op s) = fst (spec_step op (map_of s))"
  "map_of (snd (mem_exec op s)) = snd (spec_step op (map_of s))"
  by (cases op; force simp: mem_ops spec_insert_def spec_mark_def split: option.splits)+

interpretation mem: dedupe_port mem_exec "\<lambda>_. True" map_of
  by unfold_locales (simp_all add: mem_exec_spec)

end
