(* ===== verification/Dedupe_Sqlite.thy ===== *)
theory Dedupe_Sqlite
  imports Dedupe_Store
begin

text \<open>
  The durable dedupe ledger of \<open>agent_kernel/kernel/persistence/sqlite_dedupe_store.py\<close>. The database
  is the table \<open>dedupe_store\<close> together with the rows saved by an open transaction, which \<open>ROLLBACK\<close>
  restores. \<open>BEGIN IMMEDIATE\<close> takes the argument \<open>busy\<close>: another connection holds the write lock
  past the busy timeout. \<open>count_by_run\<close> is modelled with SQLite's \<open>LIKE ... ESCAPE\<close>, whose letters
  match up to ASCII case.

  Not modelled: opening and closing the connection, the pragmas, and the read connection of the
  optional pool (it reads the same committed rows).
\<close>

section \<open>Transactions\<close>

record dedupe_db =
  db_rows :: "dedupe_record list"
  db_saved :: "dedupe_record list option"

definition sqlite_init :: dedupe_db where
  "sqlite_init = \<lparr>db_rows = [], db_saved = None\<rparr>"

definition begin_immediate :: "bool \<Rightarrow> dedupe_db \<Rightarrow> (dedupe_error + unit) \<times> dedupe_db" where
  "begin_immediate busy db =
     (if db_saved db \<noteq> None then (Inl NestedTransaction, db)
      else if busy then (Inl DatabaseLocked, db)
      else (Inr (), db\<lparr>db_saved := Some (db_rows db)\<rparr>))"

definition db_commit :: "dedupe_db \<Rightarrow> dedupe_db" where
  "db_commit db = db\<lparr>db_saved := None\<rparr>"

definition db_rollback :: "dedupe_db \<Rightarrow> dedupe_db" where
  "db_rollback db = (case db_saved db of None \<Rightarrow> db | Some rows \<Rightarrow> \<lparr>db_rows = rows, db_saved = None\<rparr>)"

text \<open>The frame of the four marks: \<open>BEGIN IMMEDIATE\<close>, the body, \<open>COMMIT\<close>; any exception rolls back and
  is raised again.\<close>

definition in_transaction ::
  "bool \<Rightarrow> (dedupe_db \<Rightarrow> (dedupe_error + 'a) \<times> dedupe_db) \<Rightarrow> dedupe_db \<Rightarrow> (dedupe_error + 'a) \<times> dedupe_db" where
  "in_transaction busy body db =
     (case begin_immediate busy db of
        (Inl e, db1) \<Rightarrow> (Inl e, db_rollback db1)
      | (Inr _, db1) \<Rightarrow>
          (case body db1 of
             (Inl e, db2) \<Rightarrow> (Inl e, db_rollback db2)
           | (Inr v, db2) \<Rightarrow> (Inr v, db_commit db2)))"

section \<open>Operations\<close>

definition sqlite_get :: "string \<Rightarrow> dedupe_db \<Rightarrow> dedupe_record option" where
  "sqlite_get k db = sql_lookup dr_dispatch_idempotency_key k (db_rows db)"

definition sqlite_get_required_record :: "string \<Rightarrow> dedupe_db \<Rightarrow> dedupe_error + dedupe_record" where
  "sqlite_get_required_record k db = (case sqlite_get k db of None \<Rightarrow> Inl (UnknownKey k) | Some r \<Rightarrow> Inr r)"

definition sqlite_update_state ::
  "string \<Rightarrow> dedupe_state \<Rightarrow> string option \<Rightarrow> string option \<Rightarrow> dedupe_db \<Rightarrow> (dedupe_error + unit) \<times> dedupe_db" where
  "sqlite_update_state k st peer ack db =
     (let p = (\<lambda>r. dr_dispatch_idempotency_key r = k);
          db' = db\<lparr>db_rows := sql_update p
            (\<lambda>r. r\<lparr>dr_state := st, dr_peer_operation_id := peer, dr_external_ack_ref := ack\<rparr>) (db_rows db)\<rparr>
      in if sql_rowcount p (db_rows db) \<noteq> 1 then (Inl (LostUpdate k st), db') else (Inr (), db'))"

text \<open>The two reservations open their transaction before the \<open>try\<close>, so a lock failure is raised as it
  is; a duplicate is rolled back and returned.\<close>

definition sqlite_reserve ::
  "bool \<Rightarrow> idempotency_envelope \<Rightarrow> dedupe_db \<Rightarrow> (dedupe_error + dedupe_reservation) \<times> dedupe_db" where
  "sqlite_reserve busy e db =
     (case begin_immediate busy db of
        (Inl err, db1) \<Rightarrow> (Inl err, db1)
      | (Inr _, db1) \<Rightarrow>
          (case sqlite_get (en_dispatch_idempotency_key e) db1 of
             Some existing_record \<Rightarrow> (Inr (duplicate_reservation existing_record), db_rollback db1)
           | None \<Rightarrow> (Inr accepted_reservation, db_commit (db1\<lparr>db_rows := db_rows db1 @
               [\<lparr>dr_dispatch_idempotency_key = en_dispatch_idempotency_key e,
                 dr_operation_fingerprint = en_operation_fingerprint e,
                 dr_attempt_seq = en_attempt_seq e, dr_state = Reserved,
                 dr_peer_operation_id = en_peer_operation_id e, dr_external_ack_ref = None\<rparr>]\<rparr>))))"

definition sqlite_reserve_and_dispatch ::
  "bool \<Rightarrow> idempotency_envelope \<Rightarrow> string option \<Rightarrow> dedupe_db \<Rightarrow>
   (dedupe_error + dedupe_reservation) \<times> dedupe_db" where
  "sqlite_reserve_and_dispatch busy e peer db =
     (case begin_immediate busy db of
        (Inl err, db1) \<Rightarrow> (Inl err, db1)
      | (Inr _, db1) \<Rightarrow>
          (case sqlite_get (en_dispatch_idempotency_key e) db1 of
             Some existing_record \<Rightarrow> (Inr (duplicate_reservation existing_record), db_rollback db1)
           | None \<Rightarrow> (Inr accepted_reservation, db_commit (db1\<lparr>db_rows := db_rows db1 @
               [\<lparr>dr_dispatch_idempotency_key = en_dispatch_idempotency_key e,
                 dr_operation_fingerprint = en_operation_fingerprint e,
                 dr_attempt_seq = en_attempt_seq e, dr_state = Dispatched,
                 dr_peer_operation_id = opt_or peer (en_peer_operation_id e), dr_external_ack_ref = None\<rparr>]\<rparr>))))"

definition sqlite_mark_dispatched ::
  "bool \<Rightarrow> string \<Rightarrow> string option \<Rightarrow> dedupe_db \<Rightarrow> (dedupe_error + unit) \<times> dedupe_db" where
  "sqlite_mark_dispatched busy k peer db = in_transaction busy (\<lambda>db1.
     case sqlite_get_required_record k db1 of
       Inl e \<Rightarrow> (Inl e, db1)
     | Inr record \<Rightarrow>
         if dr_state record \<notin> {Reserved, Dispatched}
         then (Inl (CannotTransition (dr_state record) Dispatched), db1)
         else sqlite_update_state k Dispatched (opt_or peer (dr_peer_operation_id record))
           (dr_external_ack_ref record) db1) db"

definition sqlite_mark_acknowledged ::
  "bool \<Rightarrow> string \<Rightarrow> string option \<Rightarrow> dedupe_db \<Rightarrow> (dedupe_error + unit) \<times> dedupe_db" where
  "sqlite_mark_acknowledged busy k ack db = in_transaction busy (\<lambda>db1.
     case sqlite_get_required_record k db1 of
       Inl e \<Rightarrow> (Inl e, db1)
     | Inr record \<Rightarrow>
         if dr_state record \<notin> {Dispatched, Acknowledged}
         then (Inl (CannotTransition (dr_state record) Acknowledged), db1)
         else sqlite_update_state k Acknowledged (dr_peer_operation_id record)
           (opt_or ack (dr_external_ack_ref record)) db1) db"

definition sqlite_mark_succeeded ::
  "bool \<Rightarrow> string \<Rightarrow> string option \<Rightarrow> dedupe_db \<Rightarrow> (dedupe_error + unit) \<times> dedupe_db" where
  "sqlite_mark_succeeded busy k ack db = in_transaction busy (\<lambda>db1.
     case sqlite_get_required_record k db1 of
       Inl e \<Rightarrow> (Inl e, db1)
     | Inr record \<Rightarrow>
         if dr_state record \<notin> {Acknowledged, Succeeded}
         then (Inl (CannotTransition (dr_state record) Succeeded), db1)
         else sqlite_update_state k Succeeded (dr_peer_operation_id record)
           (opt_or ack (dr_external_ack_ref record)) db1) db"

definition sqlite_mark_unknown_effect ::
  "bool \<Rightarrow> string \<Rightarrow> dedupe_db \<Rightarrow> (dedupe_error + unit) \<times> dedupe_db" where
  "sqlite_mark_unknown_effect busy k db = in_transaction busy (\<lambda>db1.
     case sqlite_get_required_record k db1 of
       Inl e \<Rightarrow> (Inl e, db1)
     | Inr record \<Rightarrow>
         if dr_state record \<notin> {Dispatched, Unknown_effect}
         then (Inl (CannotTransition (dr_state record) Unknown_effect), db1)
         else sqlite_update_state k Unknown_effect (dr_peer_operation_id record)
           (dr_external_ack_ref record) db1) db"

section \<open>Counting by prefix\<close>

definition ascii_fold :: "char \<Rightarrow> char" where
  "ascii_fold c = (let n = of_char c :: nat in if 65 \<le> n \<and> n \<le> 90 then char_of (n + 32) else c)"

text \<open>\<open>text LIKE pattern ESCAPE esc\<close>.\<close>

function (sequential) sql_like :: "char \<Rightarrow> string \<Rightarrow> string \<Rightarrow> bool" where
  "sql_like esc [] s = (s = [])"
| "sql_like esc (c # p) s =
     (if c = esc then
        (case (p, s) of (d # p', x # s') \<Rightarrow> ascii_fold d = ascii_fold x \<and> sql_like esc p' s' | _ \<Rightarrow> False)
      else if c = CHR ''%'' then sql_like esc p s \<or> (case s of [] \<Rightarrow> False | x # s' \<Rightarrow> sql_like esc (c # p) s')
      else (case s of [] \<Rightarrow> False
        | x # s' \<Rightarrow> (c = CHR ''_'' \<or> ascii_fold c = ascii_fold x) \<and> sql_like esc p s'))"
  by pat_completeness auto
termination
  by (relation "measure (\<lambda>(esc, p, s). length p + length s)") auto

definition py_replace_char :: "char \<Rightarrow> string \<Rightarrow> string \<Rightarrow> string" where
  "py_replace_char c w s = concat (map (\<lambda>x. if x = c then w else [x]) s)"

definition backslash :: char where
  "backslash = CHR 0x5C"

definition sqlite_count_by_run :: "string \<Rightarrow> dedupe_db \<Rightarrow> nat" where
  "sqlite_count_by_run run_id db =
     (let escaped = py_replace_char (CHR ''_'') [backslash, CHR ''_'']
            (py_replace_char (CHR ''%'') [backslash, CHR ''%'']
              (py_replace_char backslash [backslash, backslash] run_id));
          pat = escaped @ '':%''
      in sql_rowcount (\<lambda>r. sql_like backslash pat (dr_dispatch_idempotency_key r)) (db_rows db))"

section \<open>The store implements the port\<close>

fun sqlite_exec :: "bool \<Rightarrow> dedupe_op \<Rightarrow> dedupe_db \<Rightarrow> dedupe_reply \<times> dedupe_db" where
  "sqlite_exec busy (Reserve_op e) db = apfst (map_sum id Some) (sqlite_reserve busy e db)"
| "sqlite_exec busy (Reserve_and_dispatch_op e peer) db =
     apfst (map_sum id Some) (sqlite_reserve_and_dispatch busy e peer db)"
| "sqlite_exec busy (Mark_dispatched_op k peer) db =
     apfst (map_sum id (\<lambda>_. None)) (sqlite_mark_dispatched busy k peer db)"
| "sqlite_exec busy (Mark_acknowledged_op k ack) db =
     apfst (map_sum id (\<lambda>_. None)) (sqlite_mark_acknowledged busy k ack db)"
| "sqlite_exec busy (Mark_succeeded_op k ack) db =
     apfst (map_sum id (\<lambda>_. None)) (sqlite_mark_succeeded busy k ack db)"
| "sqlite_exec busy (Mark_unknown_effect_op k) db =
     apfst (map_sum id (\<lambda>_. None)) (sqlite_mark_unknown_effect busy k db)"

definition dedupe_db_ok :: "dedupe_db \<Rightarrow> bool" where
  "dedupe_db_ok db = (db_saved db = None \<and> unique_key dr_dispatch_idempotency_key (db_rows db))"

definition dedupe_abs :: "dedupe_db \<Rightarrow> string \<rightharpoonup> dedupe_record" where
  "dedupe_abs db k = sqlite_get k db"

text \<open>The body shared by the marks: accepted states, target, and the references it writes.\<close>

definition mark_body ::
  "string \<Rightarrow> dedupe_state set \<Rightarrow> dedupe_state \<Rightarrow> (dedupe_record \<Rightarrow> string option) \<Rightarrow>
   (dedupe_record \<Rightarrow> string option) \<Rightarrow> dedupe_db \<Rightarrow> (dedupe_error + unit) \<times> dedupe_db" where
  "mark_body k froms st peer ack db1 =
     (case sqlite_get_required_record k db1 of
       Inl e \<Rightarrow> (Inl e, db1)
     | Inr record \<Rightarrow>
         if dr_state record \<notin> froms then (Inl (CannotTransition (dr_state record) st), db1)
         else sqlite_update_state k st (peer record) (ack record) db1)"

lemma sqlite_mark_bodies:
  "sqlite_mark_dispatched busy k peer = in_transaction busy (mark_body k {Reserved, Dispatched} Dispatched
     (\<lambda>r. opt_or peer (dr_peer_operation_id r)) dr_external_ack_ref)"
  "sqlite_mark_acknowledged busy k a = in_transaction busy (mark_body k {Dispatched, Acknowledged} Acknowledged
     dr_peer_operation_id (\<lambda>r. opt_or a (dr_external_ack_ref r)))"
  "sqlite_mark_succeeded busy k a = in_transaction busy (mark_body k {Acknowledged, Succeeded} Succeeded
     dr_peer_operation_id (\<lambda>r. opt_or a (dr_external_ack_ref r)))"
  "sqlite_mark_unknown_effect busy k = in_transaction busy (mark_body k {Dispatched, Unknown_effect} Unknown_effect
     dr_peer_operation_id dr_external_ack_ref)"
  by (rule ext, simp add: sqlite_mark_dispatched_def sqlite_mark_acknowledged_def
      sqlite_mark_succeeded_def sqlite_mark_unknown_effect_def mark_body_def [abs_def])+

definition write_mark ::
  "string \<Rightarrow> dedupe_state \<Rightarrow> string option \<Rightarrow> string option \<Rightarrow> dedupe_db \<Rightarrow> dedupe_db" where
  "write_mark k st p a db = db\<lparr>db_rows := sql_update (\<lambda>r. dr_dispatch_idempotency_key r = k)
     (\<lambda>r. r\<lparr>dr_state := st, dr_peer_operation_id := p, dr_external_ack_ref := a\<rparr>) (db_rows db)\<rparr>"

lemma in_transaction_mark:
  assumes "dedupe_db_ok db"
  shows "in_transaction False (mark_body k froms st peer ack) db =
     (case sqlite_get k db of None \<Rightarrow> (Inl (UnknownKey k), db)
      | Some r \<Rightarrow> if dr_state r \<in> froms then (Inr (), write_mark k st (peer r) (ack r) db)
          else (Inl (CannotTransition (dr_state r) st), db))"
  using assms sql_rowcount_key_one [of dr_dispatch_idempotency_key "db_rows db" k]
  by (cases "sqlite_get k db")
    (simp_all add: in_transaction_def begin_immediate_def mark_body_def sqlite_get_required_record_def
      sqlite_get_def dedupe_db_ok_def db_rollback_def db_commit_def sqlite_update_state_def Let_def write_mark_def)

lemma write_mark_ok: "dedupe_db_ok db \<Longrightarrow> dedupe_db_ok (write_mark k st p a db)"
  by (simp add: dedupe_db_ok_def write_mark_def unique_key_update)

lemma write_mark_abs:
  assumes "sqlite_get k db = Some r"
  shows "dedupe_abs (write_mark k st p a db) = (dedupe_abs db)
     (k \<mapsto> r\<lparr>dr_state := st, dr_peer_operation_id := p, dr_external_ack_ref := a\<rparr>)"
proof
  fix k'
  show "dedupe_abs (write_mark k st p a db) k' = ((dedupe_abs db)
     (k \<mapsto> r\<lparr>dr_state := st, dr_peer_operation_id := p, dr_external_ack_ref := a\<rparr>)) k'"
    using assms sql_lookup_SomeD [of dr_dispatch_idempotency_key k' "db_rows db"]
    by (cases "sqlite_get k' db")
      (auto simp: dedupe_abs_def write_mark_def sqlite_get_def sql_lookup_update)
qed

definition add_record :: "dedupe_record \<Rightarrow> dedupe_db \<Rightarrow> dedupe_db" where
  "add_record r db = db\<lparr>db_rows := db_rows db @ [r]\<rparr>"

lemma sqlite_reserve_eqs:
  assumes "dedupe_db_ok db"
  shows "sqlite_reserve False e db =
      (case sqlite_get (en_dispatch_idempotency_key e) db of
         Some r \<Rightarrow> (Inr (duplicate_reservation r), db)
       | None \<Rightarrow> (Inr accepted_reservation, add_record (initial_record e Reserved (en_peer_operation_id e)) db))"
    and "sqlite_reserve_and_dispatch False e peer db =
      (case sqlite_get (en_dispatch_idempotency_key e) db of
         Some r \<Rightarrow> (Inr (duplicate_reservation r), db)
       | None \<Rightarrow> (Inr accepted_reservation,
           add_record (initial_record e Dispatched (opt_or peer (en_peer_operation_id e))) db))"
  using assms
  by (auto simp: sqlite_reserve_def sqlite_reserve_and_dispatch_def begin_immediate_def dedupe_db_ok_def
      sqlite_get_def db_rollback_def db_commit_def add_record_def initial_record_def split: option.splits)

lemma add_record_ok:
  "dedupe_db_ok db \<Longrightarrow> sqlite_get (dr_dispatch_idempotency_key r) db = None \<Longrightarrow> dedupe_db_ok (add_record r db)"
  by (auto simp: dedupe_db_ok_def add_record_def sqlite_get_def)

lemma add_record_abs:
  "sqlite_get (dr_dispatch_idempotency_key r) db = None \<Longrightarrow>
   dedupe_abs (add_record r db) = (dedupe_abs db)(dr_dispatch_idempotency_key r \<mapsto> r)"
  by (auto simp: fun_eq_iff dedupe_abs_def add_record_def sqlite_get_def sql_lookup_append split: option.splits)

lemma initial_record_key [simp]:
  "dr_dispatch_idempotency_key (initial_record e st p) = en_dispatch_idempotency_key e"
  by (simp add: initial_record_def)

lemma sqlite_exec_port:
  assumes "dedupe_db_ok db"
  shows "dedupe_db_ok (snd (sqlite_exec False op db)) \<and>
    fst (sqlite_exec False op db) = fst (spec_step op (dedupe_abs db)) \<and>
    dedupe_abs (snd (sqlite_exec False op db)) = snd (spec_step op (dedupe_abs db))"
  using assms
  by (cases op; cases "sqlite_get (op_key op) db")
    (auto simp: sqlite_reserve_eqs sqlite_mark_bodies in_transaction_mark add_record_ok add_record_abs
      write_mark_ok write_mark_abs spec_insert_def spec_mark_def dedupe_abs_def [of db])

interpretation sqlite: dedupe_port "sqlite_exec False" dedupe_db_ok dedupe_abs
  by unfold_locales (simp_all add: sqlite_exec_port)

end
