(* ===== verification/Dedupe_Theorems.thy ===== *)
theory Dedupe_Theorems
  imports Dedupe_Sqlite
begin

text \<open>
  What the two dedupe stores promise the dispatcher: the reservation and mark calls cannot tell them apart, they accept
  a key at most once, states only move forward, a call that raises changes nothing; and how the two
  \<open>count_by_run\<close> differ.
\<close>

section \<open>The escaped LIKE pattern\<close>

definition like_escape :: "char \<Rightarrow> string" where
  "like_escape c = (if c \<in> {backslash, CHR ''%'', CHR ''_''} then [backslash, c] else [c])"

lemma py_replace_char_simps [simp]:
  "py_replace_char c w [] = []"
  "py_replace_char c w (x # s) = (if x = c then w else [x]) @ py_replace_char c w s"
  by (simp_all add: py_replace_char_def)

lemma escape_concat:
  "py_replace_char (CHR ''_'') [backslash, CHR ''_'']
     (py_replace_char (CHR ''%'') [backslash, CHR ''%'']
       (py_replace_char backslash [backslash, backslash] run_id)) = concat (map like_escape run_id)"
  by (induction run_id) (auto simp: like_escape_def backslash_def)

lemma like_any: "sql_like backslash ''%'' s"
  by (induction s) (simp_all add: backslash_def)

lemma like_escaped:
  "sql_like backslash (like_escape c @ p) s \<longleftrightarrow>
     (case s of [] \<Rightarrow> False | x # s' \<Rightarrow> ascii_fold c = ascii_fold x \<and> sql_like backslash p s')"
  by (cases s) (auto simp: like_escape_def backslash_def)

lemma like_prefix:
  "sql_like backslash (concat (map like_escape run_id) @ '':%'') s \<longleftrightarrow>
   map ascii_fold (take (length run_id + 1) s) = map ascii_fold (run_id @ '':'')"
proof (induction run_id arbitrary: s)
  case Nil
  show ?case
  proof (cases s)
    case (Cons x s')
    then show ?thesis using like_any [of s'] by (auto simp: backslash_def)
  qed (simp add: backslash_def)
next
  case (Cons c run_id)
  then show ?case
    using like_escaped [of c "concat (map like_escape run_id) @ '':%''" s] by (cases s) auto
qed

section \<open>Calls that raise\<close>

lemma sqlite_exec_locked: "dedupe_db_ok db \<Longrightarrow> sqlite_exec True op db = (Inl DatabaseLocked, db)"
  by (cases op)
    (simp_all add: sqlite_reserve_def sqlite_reserve_and_dispatch_def sqlite_mark_bodies in_transaction_def
      begin_immediate_def dedupe_db_ok_def db_rollback_def)

lemma sqlite_exec_raises:
  "dedupe_db_ok db \<Longrightarrow> fst (sqlite_exec False op db) = Inl e \<Longrightarrow> snd (sqlite_exec False op db) = db"
  by (cases op)
    (auto simp: sqlite_reserve_eqs sqlite_mark_bodies in_transaction_mark split: option.splits if_splits)

section \<open>Properties\<close>

text \<open>Calls that may find the database locked by another process: the locked ones fall out.\<close>

abbreviation unlocked :: "(bool \<times> dedupe_op) list \<Rightarrow> dedupe_op list" where
  "unlocked calls \<equiv> map snd (filter (\<lambda>c. \<not> fst c) calls)"

lemma locked_calls_fall_out:
  assumes "dedupe_db_ok db"
  shows "map snd (filter (\<lambda>x. \<not> fst (fst x)) (zip calls (replies (case_prod sqlite_exec) calls db))) =
      replies (sqlite_exec False) (unlocked calls) db \<and>
    map snd (filter (\<lambda>x. fst (fst x)) (zip calls (replies (case_prod sqlite_exec) calls db))) =
      replicate (length (filter fst calls)) (Inl DatabaseLocked) \<and>
    final (case_prod sqlite_exec) calls db = final (sqlite_exec False) (unlocked calls) db"
  using assms
proof (induction calls arbitrary: db)
  case (Cons c calls)
  obtain busy op where c: "c = (busy, op)" by fastforce
  have "dedupe_db_ok (snd (sqlite_exec False op db))" using sqlite_exec_port [OF Cons.prems, of op] by simp
  then show ?case
    using Cons.IH [OF Cons.prems] Cons.IH [of "snd (sqlite_exec False op db)"] sqlite_exec_locked [OF Cons.prems, of op]
    by (cases busy) (simp_all add: c)
qed simp

text \<open>C12. The SQLite store and the in-memory store are the same ledger to a dispatcher. From empty stores, take any sequence of
  calls of \<open>reserve\<close>, \<open>reserve_and_dispatch\<close> and the four \<open>mark\<close> methods, any of which may find the database locked: a locked call
  raises and changes nothing, and every other call gets from the SQLite store the reply, reservation or error that the in-memory
  store gives when it sees only the calls that were not locked; and \<open>get\<close> then returns the same record for every key.
  \<open>count_by_run\<close> is not among these calls: the two stores count differently (\<open>count_by_run_differs\<close>).\<close>

theorem dedupe_stores_agree:
  "map snd (filter (\<lambda>x. \<not> fst (fst x)) (zip calls (replies (case_prod sqlite_exec) calls sqlite_init))) =
     replies mem_exec (unlocked calls) mem_init \<and>
   map snd (filter (\<lambda>x. fst (fst x)) (zip calls (replies (case_prod sqlite_exec) calls sqlite_init))) =
     replicate (length (filter fst calls)) (Inl DatabaseLocked) \<and>
   sqlite_get k (final (case_prod sqlite_exec) calls sqlite_init) = mem_get k (final mem_exec (unlocked calls) mem_init)"
proof -
  have ok: "dedupe_db_ok sqlite_init" by (simp add: sqlite_init_def dedupe_db_ok_def)
  have eq: "dedupe_abs sqlite_init = map_of mem_init"
    by (simp add: fun_eq_iff dedupe_abs_def sqlite_init_def mem_init_def sqlite_get_def)
  show ?thesis
    unfolding locked_calls_fall_out [OF ok, THEN conjunct1] locked_calls_fall_out [OF ok, THEN conjunct2, THEN conjunct2]
    using sqlite.refines [OF ok, of "unlocked calls"] mem.refines [of "unlocked calls" mem_init] eq
      locked_calls_fall_out [OF ok, of calls]
    by (simp add: mem_get_def) (metis dedupe_abs_def)
qed

text \<open>C4. A dispatch key is granted at most once. In any sequence of calls on a well-formed store,
  whatever the states of the records, at most one \<open>reserve\<close> or \<open>reserve_and_dispatch\<close> of a key is
  accepted; this holds of the durable store and of the in-memory one.\<close>

theorem dispatch_granted_once:
  assumes "dedupe_db_ok db"
  shows "length (filter (accepts k) (zip ops (replies (sqlite_exec False) ops db))) \<le> 1 \<and>
    length (filter (accepts k) (zip ops (replies mem_exec ops s))) \<le> 1"
  using sqlite.accepted_once [OF assms] mem.accepted_once by simp

definition demo_envelope :: idempotency_envelope where
  "demo_envelope = \<lparr>en_dispatch_idempotency_key = ''run-1:a'', en_operation_fingerprint = ''f'',
     en_attempt_seq = 1, en_effect_scope = ''w'', en_capability_snapshot_hash = ''h'',
     en_host_kind = ''local_cli'', en_peer_operation_id = None, en_policy_snapshot_ref = None,
     en_rule_bundle_hash = None\<rparr>"

theorem dispatch_granted_once_witness:
  "length (filter (accepts ''run-1:a'') (zip [Reserve_op demo_envelope, Mark_dispatched_op ''run-1:a'' None,
      Reserve_and_dispatch_op demo_envelope None] (replies (sqlite_exec False) [Reserve_op demo_envelope,
      Mark_dispatched_op ''run-1:a'' None, Reserve_and_dispatch_op demo_envelope None] sqlite_init))) \<le> 1"
  using dispatch_granted_once [of sqlite_init "''run-1:a''" "[Reserve_op demo_envelope,
      Mark_dispatched_op ''run-1:a'' None, Reserve_and_dispatch_op demo_envelope None]"]
  by (simp add: sqlite_init_def dedupe_db_ok_def)

text \<open>Records only move forward. After any sequence of calls a record is still there, with the
  fingerprint and attempt number it was reserved with, in a state reached from the earlier one along
  reserved, dispatched, acknowledged, succeeded, or from dispatched to unknown effect; so succeeded
  and unknown effect are final.\<close>

lemma dedupe_states_move_forward:
  assumes "dedupe_db_ok db" and "sqlite_get k db = Some r"
  shows "\<exists>r'. sqlite_get k (final (sqlite_exec False) ops db) = Some r' \<and>
    dedupe_edge\<^sup>*\<^sup>* (dr_state r) (dr_state r') \<and>
    dr_operation_fingerprint r' = dr_operation_fingerprint r \<and> dr_attempt_seq r' = dr_attempt_seq r \<and>
    (dr_state r \<in> {Succeeded, Unknown_effect} \<longrightarrow> dr_state r' = dr_state r)"
proof -
  obtain r' where r': "sqlite_get k (final (sqlite_exec False) ops db) = Some r'" "follows r r'"
    using sqlite.record_follows [OF assms(1), of k r ops] assms(2) by (auto simp: dedupe_abs_def)
  have "dr_state r' = dr_state r" if "dr_state r \<in> {Succeeded, Unknown_effect}"
    using r'(2) that by (auto simp: follows_def elim: converse_rtranclpE)
  with r' show ?thesis by (auto simp: follows_def)
qed

text \<open>A call on the durable store that raises, for a lock it cannot get, an unknown key or a
  forbidden transition, leaves the table and the transaction state exactly as they were; and no call
  leaves a transaction open.\<close>

lemma dedupe_failure_is_atomic:
  assumes "dedupe_db_ok db"
  shows "(\<forall>e. fst (sqlite_exec busy op db) = Inl e \<longrightarrow> snd (sqlite_exec busy op db) = db) \<and>
    db_saved (snd (sqlite_exec busy op db)) = None"
proof (cases busy)
  case True
  then show ?thesis using sqlite_exec_locked [OF assms] assms by (simp add: dedupe_db_ok_def)
next
  case False
  moreover have "db_saved (snd (sqlite_exec False op db)) = None"
    using sqlite_exec_port [OF assms, of op] by (simp add: dedupe_db_ok_def)
  ultimately show ?thesis using sqlite_exec_raises [OF assms] by simp
qed

text \<open>The pattern of the durable \<open>count_by_run\<close> is free of wildcards: whatever characters the run
  id has, the count is the number of records whose key begins with the run id and a colon, letters
  compared up to ASCII case.\<close>

lemma count_by_run_is_prefix_count:
  "sqlite_count_by_run run_id db = length (filter (\<lambda>r.
     map ascii_fold (take (length run_id + 1) (dr_dispatch_idempotency_key r)) =
     map ascii_fold (run_id @ '':'')) (db_rows db))"
  by (simp add: sqlite_count_by_run_def Let_def escape_concat like_prefix sql_rowcount_def del: map_append)

text \<open>The two stores count the records of a run differently. The in-memory one takes every key
  that begins with the run id, so run \<open>run-1\<close> is charged with the keys of \<open>run-10\<close>; the durable one
  asks for the colon, and ignores case, so \<open>run-1\<close> is charged with the keys of \<open>RUN-1\<close>.\<close>

lemma count_by_run_differs:
  "\<exists>ops ops'. mem_count_by_run ''run-1'' (final mem_exec ops mem_init) = 1 \<and>
     sqlite_count_by_run ''run-1'' (final (sqlite_exec False) ops sqlite_init) = 0 \<and>
     mem_count_by_run ''run-1'' (final mem_exec ops' mem_init) = 0 \<and>
     sqlite_count_by_run ''run-1'' (final (sqlite_exec False) ops' sqlite_init) = 1"
proof (intro exI conjI)
  let ?a = "[Reserve_op (demo_envelope\<lparr>en_dispatch_idempotency_key := ''run-10:a''\<rparr>)]"
  let ?b = "[Reserve_op (demo_envelope\<lparr>en_dispatch_idempotency_key := ''RUN-1:a''\<rparr>)]"
  show "mem_count_by_run ''run-1'' (final mem_exec ?a mem_init) = 1" by code_simp
  show "sqlite_count_by_run ''run-1'' (final (sqlite_exec False) ?a sqlite_init) = 0" by code_simp
  show "mem_count_by_run ''run-1'' (final mem_exec ?b mem_init) = 0" by code_simp
  show "sqlite_count_by_run ''run-1'' (final (sqlite_exec False) ?b sqlite_init) = 1" by code_simp
qed

end
