(* ===== verification/Circuit_Breaker.thy ===== *)
theory Circuit_Breaker
  imports Prelude
begin

text \<open>
  The per-capability circuit breaker of \<open>hi_agent/capability/circuit_breaker.py\<close>: the in-memory
  states, the optional SQLite mirror that \<open>_persist_state\<close> keeps and the constructor reloads, and the
  three operations. A clock reading is an argument; \<open>cb_db\<close> is \<open>None\<close> when no \<open>db_path\<close> was given.
\<close>

datatype circuit_status = Closed | Open | Half_open

record circuit_state =
  cs_failures :: int
  cs_status :: circuit_status
  cs_opened_at :: "real option"

record circuit_row =
  cr_name :: string
  cr_state :: circuit_state

record circuit_breaker =
  cb_failure_threshold :: int
  cb_cooldown_seconds :: real
  cb_states :: "(string \<times> circuit_state) list"
  cb_db :: "circuit_row list option"

datatype breaker_error = BadThreshold int | BadCooldown real

definition fresh_circuit :: circuit_state where
  "fresh_circuit = \<lparr>cs_failures = 0, cs_status = Closed, cs_opened_at = None\<rparr>"

text \<open>The constructor: it validates its arguments and loads the rows persisted as open.\<close>

definition mk_circuit_breaker :: "int \<Rightarrow> real \<Rightarrow> circuit_row list option \<Rightarrow> breaker_error + circuit_breaker" where
  "mk_circuit_breaker failure_threshold cooldown_seconds db =
     (if failure_threshold < 1 then Inl (BadThreshold failure_threshold)
      else if cooldown_seconds < 0 then Inl (BadCooldown cooldown_seconds)
      else Inr \<lparr>cb_failure_threshold = failure_threshold, cb_cooldown_seconds = cooldown_seconds,
        cb_states = (case db of None \<Rightarrow> []
          | Some rows \<Rightarrow> fold (\<lambda>r d. dict_set (cr_name r) (cr_state r) d)
              (filter (\<lambda>r. cs_status (cr_state r) = Open) rows) []),
        cb_db = db\<rparr>)"

definition cb_get :: "circuit_breaker \<Rightarrow> string \<Rightarrow> circuit_state" where
  "cb_get b name = (case map_of (cb_states b) name of None \<Rightarrow> fresh_circuit | Some s \<Rightarrow> s)"

definition persist_state :: "string \<Rightarrow> circuit_breaker \<Rightarrow> circuit_breaker" where
  "persist_state name b =
     (case cb_db b of None \<Rightarrow> b
      | Some rows \<Rightarrow> b\<lparr>cb_db := Some (sql_insert_replace cr_name
          \<lparr>cr_name = name, cr_state = cb_get b name\<rparr> rows)\<rparr>)"

definition cb_store :: "string \<Rightarrow> circuit_state \<Rightarrow> circuit_breaker \<Rightarrow> circuit_breaker" where
  "cb_store name s b = persist_state name (b\<lparr>cb_states := dict_set name s (cb_states b)\<rparr>)"

definition allow :: "real \<Rightarrow> string \<Rightarrow> circuit_breaker \<Rightarrow> bool \<times> circuit_breaker" where
  "allow clock capability_name b =
     (let state = cb_get b capability_name in
      if cs_status state = Closed then (True, b)
      else if cs_status state = Half_open then (True, b)
      else case cs_opened_at state of
        None \<Rightarrow> (False, b)
      | Some opened_at \<Rightarrow>
          if cb_cooldown_seconds b \<le> clock - opened_at
          then (True, cb_store capability_name (state\<lparr>cs_status := Half_open\<rparr>) b)
          else (False, b))"

definition mark_success :: "string \<Rightarrow> circuit_breaker \<Rightarrow> circuit_breaker" where
  "mark_success capability_name b = cb_store capability_name fresh_circuit b"

definition mark_failure :: "real \<Rightarrow> string \<Rightarrow> circuit_breaker \<Rightarrow> circuit_breaker" where
  "mark_failure clock capability_name b =
     (let state = cb_get b capability_name in
      if cs_status state = Half_open then
        cb_store capability_name (state\<lparr>cs_status := Open, cs_opened_at := Some clock,
          cs_failures := cb_failure_threshold b\<rparr>) b
      else if cs_status state = Open then
        cb_store capability_name (state\<lparr>cs_opened_at := Some clock\<rparr>) b
      else
        let failures = cs_failures state + 1 in
        cb_store capability_name
          (if cb_failure_threshold b \<le> failures
           then state\<lparr>cs_failures := failures, cs_status := Open, cs_opened_at := Some clock\<rparr>
           else state\<lparr>cs_failures := failures\<rparr>) b)"

section \<open>Any sequence of calls\<close>

datatype cb_op = Allow real string | MarkSuccess string | MarkFailure real string

fun cb_exec :: "cb_op \<Rightarrow> circuit_breaker \<Rightarrow> circuit_breaker" where
  "cb_exec (Allow now c) b = snd (allow now c b)"
| "cb_exec (MarkSuccess c) b = mark_success c b"
| "cb_exec (MarkFailure now c) b = mark_failure now c b"

text \<open>What holds of every circuit: it is closed exactly below the threshold, and one that is not
  closed knows when it opened; the mirror has the states of all circuits that were ever written.\<close>

definition circuit_ok :: "int \<Rightarrow> circuit_state \<Rightarrow> bool" where
  "circuit_ok n s = (0 \<le> cs_failures s \<and>
     (cs_status s = Closed \<longleftrightarrow> cs_failures s < n) \<and> (cs_status s = Closed \<longleftrightarrow> cs_opened_at s = None))"

definition mirror_ok :: "circuit_breaker \<Rightarrow> bool" where
  "mirror_ok b = (case cb_db b of None \<Rightarrow> True
     | Some rows \<Rightarrow> unique_key cr_name rows \<and>
        (\<forall>c s. map_of (cb_states b) c = Some s \<longrightarrow> sql_lookup cr_name c rows = Some \<lparr>cr_name = c, cr_state = s\<rparr>) \<and>
        (\<forall>c r. map_of (cb_states b) c = None \<longrightarrow> sql_lookup cr_name c rows = Some r \<longrightarrow> cs_status (cr_state r) \<noteq> Open))"

definition breaker_ok :: "circuit_breaker \<Rightarrow> bool" where
  "breaker_ok b = (1 \<le> cb_failure_threshold b \<and> 0 \<le> cb_cooldown_seconds b \<and>
     (\<forall>c. circuit_ok (cb_failure_threshold b) (cb_get b c)) \<and> mirror_ok b)"

lemma cb_store_simps [simp]:
  "cb_failure_threshold (cb_store c s b) = cb_failure_threshold b"
  "cb_cooldown_seconds (cb_store c s b) = cb_cooldown_seconds b"
  "cb_get (cb_store c s b) c' = (if c' = c then s else cb_get b c')"
  by (auto simp: cb_store_def persist_state_def cb_get_def split: option.splits)

lemma cb_store_states [simp]: "cb_states (cb_store c s b) = dict_set c s (cb_states b)"
  by (simp add: cb_store_def persist_state_def split: option.splits)

lemma cb_store_db: "cb_db (cb_store c s b) =
  map_option (sql_insert_replace cr_name \<lparr>cr_name = c, cr_state = s\<rparr>) (cb_db b)"
  by (simp add: cb_store_def persist_state_def cb_get_def split: option.splits)

lemma cb_store_ok:
  "breaker_ok b \<Longrightarrow> circuit_ok (cb_failure_threshold b) s \<Longrightarrow> breaker_ok (cb_store c s b)"
  by (auto simp: breaker_ok_def mirror_ok_def cb_store_db sql_lookup_insert_replace split: option.splits)

lemma breaker_okD: "breaker_ok b \<Longrightarrow> circuit_ok (cb_failure_threshold b) (cb_get b c)"
  "breaker_ok b \<Longrightarrow> 1 \<le> cb_failure_threshold b"
  by (simp_all add: breaker_ok_def)

text \<open>The circuit a call writes, if it writes one.\<close>

definition failed_circuit :: "int \<Rightarrow> real \<Rightarrow> circuit_state \<Rightarrow> circuit_state" where
  "failed_circuit n clock s =
     (if cs_status s = Half_open then s\<lparr>cs_status := Open, cs_opened_at := Some clock, cs_failures := n\<rparr>
      else if cs_status s = Open then s\<lparr>cs_opened_at := Some clock\<rparr>
      else if n \<le> cs_failures s + 1
      then s\<lparr>cs_failures := cs_failures s + 1, cs_status := Open, cs_opened_at := Some clock\<rparr>
      else s\<lparr>cs_failures := cs_failures s + 1\<rparr>)"

lemma mark_failure_store:
  "mark_failure clock c b = cb_store c (failed_circuit (cb_failure_threshold b) clock (cb_get b c)) b"
  by (simp add: mark_failure_def failed_circuit_def Let_def)

lemma failed_circuit_ok: "circuit_ok n s \<Longrightarrow> 1 \<le> n \<Longrightarrow> circuit_ok n (failed_circuit n clock s)"
  by (cases "cs_status s") (auto simp: circuit_ok_def failed_circuit_def)

lemma allow_cases:
  assumes "breaker_ok b"
  obtains (pass) "cs_status (cb_get b c) \<noteq> Open" "allow now c b = (True, b)"
    | (probe) t where "cs_status (cb_get b c) = Open" "cs_opened_at (cb_get b c) = Some t"
        "cb_cooldown_seconds b \<le> now - t" "allow now c b = (True, cb_store c ((cb_get b c)\<lparr>cs_status := Half_open\<rparr>) b)"
    | (deny) t where "cs_status (cb_get b c) = Open" "cs_opened_at (cb_get b c) = Some t"
        "\<not> cb_cooldown_seconds b \<le> now - t" "allow now c b = (False, b)"
proof (cases "cs_status (cb_get b c) = Open")
  case True
  with breaker_okD(1) [OF assms, of c] obtain t where "cs_opened_at (cb_get b c) = Some t"
    by (auto simp: circuit_ok_def)
  with True probe deny show ?thesis by (cases "cb_cooldown_seconds b \<le> now - t") (simp_all add: allow_def)
next
  case False
  then have "allow now c b = (True, b)" by (cases "cs_status (cb_get b c)") (simp_all add: allow_def)
  with False pass show ?thesis by blast
qed

lemma allow_ok: "breaker_ok b \<Longrightarrow> breaker_ok (snd (allow now c b))"
proof -
  assume ok: "breaker_ok b"
  from ok show ?thesis
  proof (cases rule: allow_cases [where c = c and now = now])
    case probe
    have "circuit_ok (cb_failure_threshold b) ((cb_get b c)\<lparr>cs_status := Half_open\<rparr>)"
      using breaker_okD(1) [OF ok, of c] probe(1) by (simp add: circuit_ok_def)
    with probe ok show ?thesis by (simp add: cb_store_ok)
  qed (use ok in simp_all)
qed

lemma mark_success_ok: "breaker_ok b \<Longrightarrow> breaker_ok (mark_success c b)"
  using breaker_okD(2) [of b]
  by (auto simp: mark_success_def circuit_ok_def fresh_circuit_def intro!: cb_store_ok)

lemma cb_exec_ok: "breaker_ok b \<Longrightarrow> breaker_ok (cb_exec op b)"
  by (cases op)
    (simp_all add: allow_ok mark_success_ok mark_failure_store cb_store_ok failed_circuit_ok breaker_okD)

interpretation breaker_life: op_system cb_exec breaker_ok
  by unfold_locales (rule cb_exec_ok)

section \<open>Lemmas for the properties\<close>

definition tripped :: "real \<Rightarrow> real \<Rightarrow> string \<Rightarrow> circuit_breaker \<Rightarrow> bool" where
  "tripped cd t0 c b = (breaker_ok b \<and> cb_cooldown_seconds b = cd \<and> cs_status (cb_get b c) = Open \<and>
     (\<exists>t\<ge>t0. cs_opened_at (cb_get b c) = Some t))"

fun within_cooldown :: "real \<Rightarrow> real \<Rightarrow> string \<Rightarrow> cb_op \<Rightarrow> bool" where
  "within_cooldown cd t0 c (Allow now c') = (c' = c \<longrightarrow> now < t0 + cd)"
| "within_cooldown cd t0 c (MarkSuccess c') = (c' \<noteq> c)"
| "within_cooldown cd t0 c (MarkFailure now c') = (c' = c \<longrightarrow> t0 \<le> now)"

lemma tripped_denies: "tripped cd t0 c b \<Longrightarrow> now < t0 + cd \<Longrightarrow> allow now c b = (False, b)"
  by (auto simp: tripped_def allow_def)

lemma allow_other: "c' \<noteq> c \<Longrightarrow> cb_get (snd (allow now c' b)) c = cb_get b c"
  by (simp add: allow_def Let_def split: option.splits)

lemma cb_exec_cooldown [simp]: "cb_cooldown_seconds (cb_exec op b) = cb_cooldown_seconds b"
  by (cases op) (simp_all add: allow_def mark_success_def mark_failure_store Let_def split: option.splits)

lemma tripped_exec:
  assumes "tripped cd t0 c b" "within_cooldown cd t0 c op"
  shows "tripped cd t0 c (cb_exec op b)"
proof (cases op)
  case (Allow now c')
  show ?thesis
  proof (cases "c' = c")
    case True
    with Allow assms tripped_denies [OF assms(1), of now] show ?thesis by simp
  next
    case False
    with Allow assms(1) allow_other [of c' c now b] allow_ok [of b now c'] cb_exec_cooldown [of op b]
    show ?thesis by (simp add: tripped_def)
  qed
next
  case (MarkSuccess c')
  with assms mark_success_ok [of b c'] show ?thesis by (auto simp: tripped_def mark_success_def)
next
  case (MarkFailure now c')
  with assms cb_exec_ok [of b op] show ?thesis
    by (cases "c' = c") (auto simp: tripped_def mark_failure_store failed_circuit_def)
qed

interpretation trip: guarded_system cb_exec "within_cooldown cd t0 c" "tripped cd t0 c" for cd t0 c
  by unfold_locales (rule tripped_exec)

lemma load_rows:
  "unique_key cr_name rows \<Longrightarrow> map_of (fold (\<lambda>r d. dict_set (cr_name r) (cr_state r) d) rows d) c =
     (case sql_lookup cr_name c rows of Some r \<Rightarrow> Some (cr_state r) | None \<Rightarrow> map_of d c)"
proof (induction rows arbitrary: d)
  case (Cons r rows)
  then have u: "unique_key cr_name rows" "cr_name r \<notin> cr_name ` set rows" by (auto simp: unique_key_def)
  then have "sql_lookup cr_name (cr_name r) rows = None" by (simp add: sql_lookup_None_iff)
  with Cons.IH [OF u(1)] show ?case by (auto simp: sql_lookup_def split: option.splits)
qed simp

lemma load_open_rows:
  assumes "unique_key cr_name rows"
  shows "map_of (fold (\<lambda>r d. dict_set (cr_name r) (cr_state r) d)
       (filter (\<lambda>r. cs_status (cr_state r) = Open) rows) []) c =
     (case sql_lookup cr_name c rows of
        Some r \<Rightarrow> if cs_status (cr_state r) = Open then Some (cr_state r) else None | None \<Rightarrow> None)"
proof -
  have eq: "filter (\<lambda>r. cs_status (cr_state r) = Open) rows = sql_delete (\<lambda>r. cs_status (cr_state r) \<noteq> Open) rows"
    by (simp add: sql_delete_def)
  show ?thesis
    unfolding eq using assms by (simp add: load_rows unique_key_delete sql_lookup_delete split: option.splits)
qed

lemma restart_get:
  assumes "breaker_ok b" "cb_db b = Some rows" "mk_circuit_breaker n cd (Some rows) = Inr b'"
  shows "map_of (cb_states b') c = (if cs_status (cb_get b c) = Open then Some (cb_get b c) else None)"
proof -
  have m: "unique_key cr_name rows"
    "map_of (cb_states b) c = Some s \<Longrightarrow> sql_lookup cr_name c rows = Some \<lparr>cr_name = c, cr_state = s\<rparr>"
    "map_of (cb_states b) c = None \<Longrightarrow> sql_lookup cr_name c rows = Some r \<Longrightarrow> cs_status (cr_state r) \<noteq> Open" for s r
    using assms(1,2) by (auto simp: breaker_ok_def mirror_ok_def)
  show ?thesis
    using assms(3) m by (cases "map_of (cb_states b) c"; cases "sql_lookup cr_name c rows")
      (auto simp: mk_circuit_breaker_def load_open_rows cb_get_def fresh_circuit_def split: if_splits)
qed

section \<open>Properties\<close>

text \<open>While a capability's circuit is open and its cooldown runs, every call is refused: after any
  sequence of checks, failures and calls of other capabilities within the cooldown of the trip at
  \<open>t0\<close>, \<open>allow\<close> refuses and changes nothing. A failure while open only extends the time.\<close>

lemma open_circuit_denies_calls:
  assumes "breaker_ok b" and "cs_status (cb_get b c) = Open" and "cs_opened_at (cb_get b c) = Some t0"
    and "list_all (within_cooldown (cb_cooldown_seconds b) t0 c) ops" and "now < t0 + cb_cooldown_seconds b"
  shows "allow now c (fold cb_exec ops b) = (False, fold cb_exec ops b)"
proof (rule tripped_denies)
  show "tripped (cb_cooldown_seconds b) t0 c (fold cb_exec ops b)"
    by (rule trip.guarded_run) (use assms in \<open>auto simp: tripped_def\<close>)
qed (rule assms(5))

definition demo_breaker :: circuit_breaker where
  "demo_breaker = \<lparr>cb_failure_threshold = 3, cb_cooldown_seconds = 30,
     cb_states = [(''llm'', \<lparr>cs_failures = 3, cs_status = Open, cs_opened_at = Some 10\<rparr>)],
     cb_db = Some [\<lparr>cr_name = ''llm'', cr_state = \<lparr>cs_failures = 3, cs_status = Open, cs_opened_at = Some 10\<rparr>\<rparr>]\<rparr>"

lemma demo_breaker_ok: "breaker_ok demo_breaker"
  by (auto simp: breaker_ok_def demo_breaker_def circuit_ok_def cb_get_def fresh_circuit_def mirror_ok_def
      sql_lookup_def unique_key_def split: if_splits)

text \<open>A closed circuit opens exactly at the threshold: after a number of failures without a success
  between them it is open when the failures counted so far reach the threshold and closed before;
  one failure of a half-open circuit opens it again at once, and a success resets it entirely.\<close>

lemma circuit_trips_at_threshold:
  assumes "breaker_ok b" and "cs_status (cb_get b c) = Closed"
  shows "cs_status (cb_get (fold (\<lambda>t. mark_failure t c) ts b) c) =
      (if cb_failure_threshold b \<le> cs_failures (cb_get b c) + int (length ts) then Open else Closed) \<and>
    (cs_status (cb_get b' c) = Half_open \<longrightarrow>
       cs_status (cb_get (mark_failure t c b') c) = Open \<and> cs_opened_at (cb_get (mark_failure t c b') c) = Some t) \<and>
    cb_get (mark_success c b') c = fresh_circuit"
proof (intro conjI impI)
  have open_stays: "cs_status (cb_get (fold (\<lambda>t. mark_failure t c) ts b) c) = Open"
    if "cs_status (cb_get b c) = Open" for ts b
    using that by (induction ts arbitrary: b) (simp_all add: mark_failure_store failed_circuit_def)
  show "cs_status (cb_get (fold (\<lambda>t. mark_failure t c) ts b) c) =
      (if cb_failure_threshold b \<le> cs_failures (cb_get b c) + int (length ts) then Open else Closed)"
    using assms
  proof (induction ts arbitrary: b)
    case Nil
    then show ?case using breaker_okD(1) [of b c] by (auto simp: circuit_ok_def)
  next
    case (Cons t ts)
    let ?b = "mark_failure t c b"
    have ok: "breaker_ok ?b" using cb_exec_ok [OF Cons.prems(1), of "MarkFailure t c"] by simp
    show ?case
    proof (cases "cb_failure_threshold b \<le> cs_failures (cb_get b c) + 1")
      case True
      with Cons.prems(2) have "cs_status (cb_get ?b c) = Open"
        by (simp add: mark_failure_store failed_circuit_def)
      with open_stays [of ?b ts] True show ?thesis by simp
    next
      case False
      with Cons.prems(2) have "cb_get ?b c = (cb_get b c)\<lparr>cs_failures := cs_failures (cb_get b c) + 1\<rparr>"
        "cb_failure_threshold ?b = cb_failure_threshold b"
        by (simp_all add: mark_failure_store failed_circuit_def)
      with Cons.IH [OF ok] Cons.prems(2) show ?thesis by (simp add: add.assoc)
    qed
  qed
qed (simp_all add: mark_failure_store failed_circuit_def mark_success_def)

text \<open>A restart respects prior trips and nothing else: the breaker built on the database of a
  running one has every open circuit as it was, with the time it opened, and every other circuit
  closed with no failure, half-open ones included; and it is again well formed.\<close>

lemma restart_keeps_open_circuits:
  assumes "breaker_ok b" and "cb_db b = Some rows"
    and "mk_circuit_breaker (cb_failure_threshold b) (cb_cooldown_seconds b) (cb_db b) = Inr b'"
  shows "breaker_ok b' \<and>
    cb_get b' c = (if cs_status (cb_get b c) = Open then cb_get b c else fresh_circuit)"
proof -
  have get: "map_of (cb_states b') c = (if cs_status (cb_get b c) = Open then Some (cb_get b c) else None)" for c
    using assms restart_get by simp
  have cb: "cb_get b' c = (if cs_status (cb_get b c) = Open then cb_get b c else fresh_circuit)" for c
    by (simp add: cb_get_def [of b'] get)
  have static: "cb_failure_threshold b' = cb_failure_threshold b" "cb_cooldown_seconds b' = cb_cooldown_seconds b"
      "cb_db b' = Some rows"
    using assms(2,3) by (auto simp: mk_circuit_breaker_def split: if_splits)
  have "circuit_ok (cb_failure_threshold b) (cb_get b' c)" for c
    using breaker_okD(1) [OF assms(1), of c] breaker_okD(2) [OF assms(1)]
    by (auto simp add: cb circuit_ok_def fresh_circuit_def)
  moreover have "mirror_ok b'"
    using assms(1,2) by (auto simp: mirror_ok_def breaker_ok_def static get cb_get_def fresh_circuit_def split: option.splits if_splits)
  ultimately show ?thesis using assms(1) cb by (simp add: breaker_ok_def static)
qed

end
