(* ===== verification/Task_Registry.thy ===== *)
theory Task_Registry
  imports Json_Value
begin

text \<open>
  The task registry of \<open>agent_kernel/kernel/task_manager/registry.py\<close> with the contracts of
  \<open>contracts.py\<close> and the event appender of \<open>event_log.py\<close>. The three dictionaries of the registry are
  ordered association lists; \<open>tr_log\<close> is the optional event appender. A task lifecycle event is a
  constructor with the fields of its payload; clock readings (\<open>_now_ms\<close>, the ISO time of a completion)
  are arguments; a raised exception is a left value. Each method runs under the registry's lock and
  is one function. Log calls are not modelled.
\<close>

section \<open>Contracts\<close>

datatype lifecycle_state =
  T_pending | T_running | T_completed | T_failed | T_restarting | T_reflecting | T_escalated | T_aborted

datatype exhausted_policy = On_reflect | On_escalate | On_abort

record restart_policy =
  rp_max_attempts :: int
  rp_backoff_base_ms :: int
  rp_max_backoff_ms :: int
  rp_on_exhausted :: exhausted_policy
  rp_heartbeat_timeout_ms :: int

record task_descriptor =
  td_task_id :: string
  td_session_id :: string
  td_task_kind :: string
  td_goal_description :: string
  td_parent_task_id :: "string option"
  td_dependency_task_ids :: "string list"
  td_restart_policy :: restart_policy
  td_metadata :: "(string \<times> json) list"

text \<open>The attributes of a failure object the restart engine reads; \<open>None\<close>: the object lacks it.\<close>

record failure_info =
  fi_retryability :: "string option"
  fi_failure_code :: "string option"
  fi_reason :: "string option"

record task_attempt =
  ta_attempt_id :: string
  ta_task_id :: string
  ta_run_id :: string
  ta_attempt_seq :: int
  ta_started_at :: string
  ta_completed_at :: "string option"
  ta_outcome :: "string option"
  ta_failure :: "failure_info option"
  ta_reflection_output :: "string option"

record task_health =
  th_task_id :: string
  th_lifecycle_state :: lifecycle_state
  th_current_run_id :: "string option"
  th_attempt_seq :: int
  th_max_attempts :: int
  th_last_heartbeat_ms :: "int option"
  th_consecutive_missed_beats :: int
  th_is_stalled :: bool

section \<open>Events and their log\<close>

text \<open>The restart policy inside a \<open>task.registered\<close> payload has four of the five fields.\<close>

record policy_payload =
  pp_max_attempts :: int
  pp_backoff_base_ms :: int
  pp_on_exhausted :: exhausted_policy
  pp_heartbeat_timeout_ms :: int

record registered_payload =
  ep_task_id :: string
  ep_session_id :: string
  ep_task_kind :: string
  ep_goal_description :: string
  ep_parent_task_id :: "string option"
  ep_dependency_task_ids :: "string list"
  ep_metadata :: "(string \<times> json) list"
  ep_restart_policy :: policy_payload

datatype task_event =
    Task_registered registered_payload
  | Task_attempt_started string string string int string
  | Task_attempt_completed string string string
  | Task_attempt_failed string string string
  | Task_restarting string
  | Task_reflecting string
  | Task_completed string
  | Task_escalated string
  | Task_aborted string

record task_event_log =
  el_events :: "task_event list"
  el_max_events :: int

definition append_task_event :: "task_event \<Rightarrow> task_event_log \<Rightarrow> task_event_log" where
  "append_task_event e l =
     (let events = (if el_max_events l \<le> int (length (el_events l))
                    then drop (nat (max 1 (el_max_events l div 4))) (el_events l) else el_events l)
      in l\<lparr>el_events := events @ [e]\<rparr>)"

definition all_events :: "task_event_log \<Rightarrow> task_event list" where
  "all_events l = el_events l"

section \<open>The registry\<close>

record task_entry =
  te_descriptor :: task_descriptor
  te_lifecycle_state :: lifecycle_state
  te_attempts :: "task_attempt list"
  te_last_heartbeat_ms :: "int option"
  te_consecutive_missed_beats :: int

record task_registry =
  tr_tasks :: "(string \<times> task_entry) list"
  tr_session_index :: "(string \<times> string list) list"
  tr_run_index :: "(string \<times> string) list"
  tr_max_tasks :: int
  tr_log :: "task_event_log option"

datatype registry_error = AlreadyRegistered string | TaskKeyError string

definition mk_task_registry :: "int \<Rightarrow> task_event_log option \<Rightarrow> task_registry" where
  "mk_task_registry max_tasks appender = \<lparr>tr_tasks = [], tr_session_index = [], tr_run_index = [],
     tr_max_tasks = max_tasks, tr_log = appender\<rparr>"

definition emit :: "task_event \<Rightarrow> task_registry \<Rightarrow> task_registry" where
  "emit e r = r\<lparr>tr_log := map_option (append_task_event e) (tr_log r)\<rparr>"

definition evict_one :: "string \<Rightarrow> task_registry \<Rightarrow> task_registry" where
  "evict_one tid r =
     (case map_of (tr_tasks r) tid of
        None \<Rightarrow> r
      | Some entry \<Rightarrow>
          let sid = td_session_id (te_descriptor entry);
              r1 = r\<lparr>tr_tasks := dict_pop tid (tr_tasks r)\<rparr>
          in case map_of (tr_session_index r1) sid of
               None \<Rightarrow> r1
             | Some ids \<Rightarrow> r1\<lparr>tr_session_index := dict_set sid (filter (\<lambda>t. t \<noteq> tid) ids) (tr_session_index r1)\<rparr>)"

definition evict_if_needed :: "task_registry \<Rightarrow> task_registry" where
  "evict_if_needed r =
     (if int (length (tr_tasks r)) < tr_max_tasks r then r
      else
        let terminal = map fst (filter (\<lambda>(tid, e). te_lifecycle_state e \<in> {T_completed, T_aborted, T_escalated})
              (tr_tasks r));
            to_evict = take (max 1 (length terminal div 2)) terminal
        in fold evict_one to_evict r)"

definition new_entry :: "task_descriptor \<Rightarrow> task_entry" where
  "new_entry d = \<lparr>te_descriptor = d, te_lifecycle_state = T_pending, te_attempts = [],
     te_last_heartbeat_ms = None, te_consecutive_missed_beats = 0\<rparr>"

definition registered_event :: "task_descriptor \<Rightarrow> task_event" where
  "registered_event d = Task_registered \<lparr>ep_task_id = td_task_id d, ep_session_id = td_session_id d,
     ep_task_kind = td_task_kind d, ep_goal_description = td_goal_description d,
     ep_parent_task_id = td_parent_task_id d, ep_dependency_task_ids = td_dependency_task_ids d,
     ep_metadata = td_metadata d,
     ep_restart_policy = \<lparr>pp_max_attempts = rp_max_attempts (td_restart_policy d),
       pp_backoff_base_ms = rp_backoff_base_ms (td_restart_policy d),
       pp_on_exhausted = rp_on_exhausted (td_restart_policy d),
       pp_heartbeat_timeout_ms = rp_heartbeat_timeout_ms (td_restart_policy d)\<rparr>\<rparr>"

definition register :: "task_descriptor \<Rightarrow> task_registry \<Rightarrow> (registry_error + unit) \<times> task_registry" where
  "register d r =
     (if map_of (tr_tasks r) (td_task_id d) \<noteq> None then (Inl (AlreadyRegistered (td_task_id d)), r)
      else
        let r1 = evict_if_needed r;
            r2 = r1\<lparr>tr_tasks := dict_set (td_task_id d) (new_entry d) (tr_tasks r1)\<rparr>;
            ids = (case map_of (tr_session_index r2) (td_session_id d) of None \<Rightarrow> [] | Some l \<Rightarrow> l);
            r3 = r2\<lparr>tr_session_index := dict_set (td_session_id d) (ids @ [td_task_id d]) (tr_session_index r2)\<rparr>
        in (Inr (), emit (registered_event d) r3))"

definition start_attempt :: "int \<Rightarrow> task_attempt \<Rightarrow> task_registry \<Rightarrow> (registry_error + unit) \<times> task_registry" where
  "start_attempt now a r =
     (case map_of (tr_tasks r) (ta_task_id a) of
        None \<Rightarrow> (Inl (TaskKeyError (ta_task_id a)), r)
      | Some entry \<Rightarrow>
          let entry' = entry\<lparr>te_attempts := te_attempts entry @ [a], te_lifecycle_state := T_running,
                te_last_heartbeat_ms := Some now\<rparr>;
              r1 = r\<lparr>tr_tasks := dict_set (ta_task_id a) entry' (tr_tasks r),
                tr_run_index := dict_set (ta_run_id a) (ta_task_id a) (tr_run_index r)\<rparr>
          in (Inr (), emit (Task_attempt_started (ta_attempt_id a) (ta_task_id a) (ta_run_id a)
                (ta_attempt_seq a) (ta_started_at a)) r1))"

definition complete_attempt ::
  "string \<Rightarrow> string \<Rightarrow> string \<Rightarrow> string \<Rightarrow> failure_info option \<Rightarrow> task_registry \<Rightarrow> task_registry" where
  "complete_attempt now_iso task_id run_id outcome failure r =
     (case map_of (tr_tasks r) task_id of
        None \<Rightarrow> r
      | Some entry \<Rightarrow>
          let open_one = (\<lambda>a. ta_run_id a = run_id \<and> ta_outcome a = None);
              updated = map (\<lambda>a. if open_one a then a\<lparr>ta_outcome := Some outcome,
                  ta_completed_at := Some now_iso,
                  ta_failure := (if outcome \<noteq> ''completed'' then failure else None)\<rparr> else a) (te_attempts entry);
              matched = list_ex open_one (te_attempts entry)
          in if \<not> matched then r
             else
               let entry' = entry\<lparr>te_attempts := updated, te_lifecycle_state :=
                     (if outcome = ''completed'' then T_completed else T_failed)\<rparr>;
                   r1 = r\<lparr>tr_tasks := dict_set task_id entry' (tr_tasks r),
                     tr_run_index := dict_pop run_id (tr_run_index r)\<rparr>
               in emit (if outcome = ''completed'' then Task_attempt_completed task_id run_id outcome
                        else Task_attempt_failed task_id run_id outcome) r1)"

definition state_event_map :: "lifecycle_state \<Rightarrow> string \<Rightarrow> task_event option" where
  "state_event_map st task_id =
     (case st of T_restarting \<Rightarrow> Some (Task_restarting task_id)
      | T_reflecting \<Rightarrow> Some (Task_reflecting task_id)
      | T_completed \<Rightarrow> Some (Task_completed task_id)
      | T_escalated \<Rightarrow> Some (Task_escalated task_id)
      | T_aborted \<Rightarrow> Some (Task_aborted task_id)
      | _ \<Rightarrow> None)"

definition update_state :: "string \<Rightarrow> lifecycle_state \<Rightarrow> task_registry \<Rightarrow> task_registry" where
  "update_state task_id st r =
     (case map_of (tr_tasks r) task_id of
        None \<Rightarrow> r
      | Some entry \<Rightarrow>
          let r1 = r\<lparr>tr_tasks := dict_set task_id (entry\<lparr>te_lifecycle_state := st\<rparr>) (tr_tasks r)\<rparr>
          in case state_event_map st task_id of Some e \<Rightarrow> emit e r1 | None \<Rightarrow> r1)"

definition beat :: "int \<Rightarrow> task_entry \<Rightarrow> task_entry" where
  "beat now entry =
     (let t = (case te_last_heartbeat_ms entry of Some l \<Rightarrow> if now \<le> l then l + 1 else now | None \<Rightarrow> now)
      in entry\<lparr>te_last_heartbeat_ms := Some t, te_consecutive_missed_beats := 0\<rparr>)"

definition task_heartbeat :: "int \<Rightarrow> string \<Rightarrow> task_registry \<Rightarrow> task_registry" where
  "task_heartbeat now task_id r =
     (case map_of (tr_tasks r) task_id of
        None \<Rightarrow> r
      | Some entry \<Rightarrow> r\<lparr>tr_tasks := dict_set task_id (beat now entry) (tr_tasks r)\<rparr>)"

definition heartbeat_for_run :: "int \<Rightarrow> string \<Rightarrow> task_registry \<Rightarrow> task_registry" where
  "heartbeat_for_run now run_id r =
     (case map_of (tr_run_index r) run_id of
        None \<Rightarrow> r
      | Some task_id \<Rightarrow>
          (case map_of (tr_tasks r) task_id of
             None \<Rightarrow> r
           | Some entry \<Rightarrow> r\<lparr>tr_tasks := dict_set task_id (beat now entry) (tr_tasks r)\<rparr>))"

section \<open>Queries\<close>

definition get_task :: "string \<Rightarrow> task_registry \<Rightarrow> task_descriptor option" where
  "get_task task_id r = map_option te_descriptor (map_of (tr_tasks r) task_id)"

definition current_run :: "task_entry \<Rightarrow> string option" where
  "current_run entry =
     (if te_attempts entry = [] then None
      else let a = List.last (te_attempts entry) in if ta_outcome a = None then Some (ta_run_id a) else None)"

definition get_health :: "int \<Rightarrow> string \<Rightarrow> task_registry \<Rightarrow> task_health option" where
  "get_health now task_id r =
     (case map_of (tr_tasks r) task_id of
        None \<Rightarrow> None
      | Some entry \<Rightarrow>
          let timeout_ms = rp_heartbeat_timeout_ms (td_restart_policy (te_descriptor entry));
              is_stalled = (if te_lifecycle_state entry \<in> {T_running, T_restarting}
                then (case te_last_heartbeat_ms entry of Some l \<Rightarrow> timeout_ms < now - l | None \<Rightarrow> False)
                else False)
          in Some \<lparr>th_task_id = task_id, th_lifecycle_state = te_lifecycle_state entry,
               th_current_run_id = current_run entry, th_attempt_seq = int (length (te_attempts entry)),
               th_max_attempts = rp_max_attempts (td_restart_policy (te_descriptor entry)),
               th_last_heartbeat_ms = te_last_heartbeat_ms entry,
               th_consecutive_missed_beats = te_consecutive_missed_beats entry, th_is_stalled = is_stalled\<rparr>)"

definition get_attempts :: "string \<Rightarrow> task_registry \<Rightarrow> task_attempt list" where
  "get_attempts task_id r = (case map_of (tr_tasks r) task_id of None \<Rightarrow> [] | Some entry \<Rightarrow> te_attempts entry)"

definition list_session_tasks :: "string \<Rightarrow> task_registry \<Rightarrow> task_descriptor list" where
  "list_session_tasks session_id r =
     List.map_filter (\<lambda>tid. get_task tid r)
       (case map_of (tr_session_index r) session_id of None \<Rightarrow> [] | Some ids \<Rightarrow> ids)"

definition get_task_id_for_run :: "string \<Rightarrow> task_registry \<Rightarrow> string option" where
  "get_task_id_for_run run_id r = map_of (tr_run_index r) run_id"

definition is_stalled_entry :: "int \<Rightarrow> task_entry \<Rightarrow> bool" where
  "is_stalled_entry now entry =
     (if te_lifecycle_state entry \<notin> {T_running, T_restarting} then False
      else case te_last_heartbeat_ms entry of None \<Rightarrow> False
        | Some l \<Rightarrow> rp_heartbeat_timeout_ms (td_restart_policy (te_descriptor entry)) < now - l)"

text \<open>One pass over the tasks: each stalled entry has its missed beats counted and is reported.\<close>

definition get_stalled_tasks :: "int \<Rightarrow> task_registry \<Rightarrow> task_health list \<times> task_registry" where
  "get_stalled_tasks now r =
     (map (\<lambda>(tid, entry). \<lparr>th_task_id = tid, th_lifecycle_state = te_lifecycle_state entry,
          th_current_run_id = current_run entry, th_attempt_seq = int (length (te_attempts entry)),
          th_max_attempts = rp_max_attempts (td_restart_policy (te_descriptor entry)),
          th_last_heartbeat_ms = te_last_heartbeat_ms entry,
          th_consecutive_missed_beats = te_consecutive_missed_beats entry + 1, th_is_stalled = True\<rparr>)
        (filter (\<lambda>(tid, entry). is_stalled_entry now entry) (tr_tasks r)),
      r\<lparr>tr_tasks := map (\<lambda>(tid, entry). (tid, if is_stalled_entry now entry
          then entry\<lparr>te_consecutive_missed_beats := te_consecutive_missed_beats entry + 1\<rparr> else entry)) (tr_tasks r)\<rparr>)"

end
