(* ===== verification/Task_Event_Log.thy ===== *)
theory Task_Event_Log
  imports Task_Registry
begin

text \<open>
  Recovery of the task registry from its event log (\<open>InMemoryTaskEventLog.replay_into_registry\<close> in
  \<open>agent_kernel/kernel/task_manager/event_log.py\<close>), the task watchdog (\<open>watchdog.py\<close>), and the proof
  that a replay rebuilds the registry that wrote the log, up to what the payloads leave out.
\<close>

section \<open>Replay\<close>

definition payload_policy :: "policy_payload \<Rightarrow> restart_policy" where
  "payload_policy p = \<lparr>rp_max_attempts = pp_max_attempts p, rp_backoff_base_ms = pp_backoff_base_ms p,
     rp_max_backoff_ms = 30000, rp_on_exhausted = pp_on_exhausted p,
     rp_heartbeat_timeout_ms = pp_heartbeat_timeout_ms p\<rparr>"

definition payload_descriptor :: "registered_payload \<Rightarrow> task_descriptor" where
  "payload_descriptor p = \<lparr>td_task_id = ep_task_id p, td_session_id = ep_session_id p,
     td_task_kind = ep_task_kind p, td_goal_description = ep_goal_description p,
     td_parent_task_id = ep_parent_task_id p, td_dependency_task_ids = ep_dependency_task_ids p,
     td_restart_policy = payload_policy (ep_restart_policy p), td_metadata = ep_metadata p\<rparr>"

definition same_attempt :: "task_attempt \<Rightarrow> task_attempt \<Rightarrow> bool" where
  "same_attempt attempt a = (ta_attempt_id a = ta_attempt_id attempt \<or>
     (ta_run_id a = ta_run_id attempt \<and> ta_attempt_seq a = ta_attempt_seq attempt))"

fun replay_event :: "int \<Rightarrow> string \<Rightarrow> task_event \<Rightarrow> task_registry \<Rightarrow> task_registry" where
  "replay_event now ts (Task_registered p) r = snd (register (payload_descriptor p) r)"
| "replay_event now ts (Task_attempt_started aid tid rid seq started) r =
     (let attempt = \<lparr>ta_attempt_id = aid, ta_task_id = tid, ta_run_id = rid, ta_attempt_seq = seq,
            ta_started_at = started, ta_completed_at = None, ta_outcome = None, ta_failure = None,
            ta_reflection_output = None\<rparr>
      in if list_ex (same_attempt attempt) (get_attempts tid r) then r
         else snd (start_attempt now attempt r))"
| "replay_event now ts (Task_attempt_completed tid rid outcome) r = complete_attempt ts tid rid outcome None r"
| "replay_event now ts (Task_attempt_failed tid rid outcome) r = complete_attempt ts tid rid outcome None r"
| "replay_event now ts (Task_restarting tid) r = update_state tid T_restarting r"
| "replay_event now ts (Task_reflecting tid) r = update_state tid T_reflecting r"
| "replay_event now ts (Task_completed tid) r = update_state tid T_completed r"
| "replay_event now ts (Task_escalated tid) r = update_state tid T_escalated r"
| "replay_event now ts (Task_aborted tid) r = update_state tid T_aborted r"

text \<open>The loop over the events; \<open>clock n\<close> are the readings taken while event \<open>n\<close> is replayed, and the
  counter is \<open>replayed\<close>.\<close>

fun replay_events ::
  "(nat \<Rightarrow> int \<times> string) \<Rightarrow> nat \<Rightarrow> task_event list \<Rightarrow> task_registry \<Rightarrow> nat \<times> task_registry" where
  "replay_events clock n [] r = (n, r)"
| "replay_events clock n (e # es) r =
     replay_events clock (Suc n) es (replay_event (fst (clock n)) (snd (clock n)) e r)"

definition replay_into_registry ::
  "(nat \<Rightarrow> int \<times> string) \<Rightarrow> task_event_log \<Rightarrow> task_registry \<Rightarrow> nat \<times> task_registry" where
  "replay_into_registry clock l r = replay_events clock 0 (all_events l) r"

section \<open>Watchdog\<close>

text \<open>\<open>watchdog_once\<close>. The callback may change the registry, so it is an argument: it returns whether it
  completed without an exception, and the registry after it; \<open>None\<close>: no callback was given.\<close>

type_synonym stall_handler = "string \<Rightarrow> string \<Rightarrow> task_registry \<Rightarrow> bool \<times> task_registry"

fun watchdog_loop ::
  "stall_handler option \<Rightarrow> task_health list \<Rightarrow> task_registry \<Rightarrow> string list \<times> task_registry" where
  "watchdog_loop on_stall [] r = ([], r)"
| "watchdog_loop on_stall (h # hs) r =
     (case th_current_run_id h of
        None \<Rightarrow> watchdog_loop on_stall hs r
      | Some rid \<Rightarrow>
          (case on_stall of
             None \<Rightarrow> (let (ps, r') = watchdog_loop on_stall hs r in (th_task_id h # ps, r'))
           | Some f \<Rightarrow>
               (let (fine, r1) = f (th_task_id h) rid r;
                    (ps, r') = watchdog_loop on_stall hs r1
                in (if fine then th_task_id h # ps else ps, r'))))"

definition watchdog_once :: "int \<Rightarrow> stall_handler option \<Rightarrow> task_registry \<Rightarrow> string list \<times> task_registry" where
  "watchdog_once now on_stall r =
     (let (stalled, r1) = get_stalled_tasks now r in watchdog_loop on_stall stalled r1)"

definition on_run_lifecycle_transition ::
  "int \<Rightarrow> string \<Rightarrow> string \<Rightarrow> string \<Rightarrow> task_registry \<Rightarrow> task_registry" where
  "on_run_lifecycle_transition now ts run_id to_state r =
     (let r1 = heartbeat_for_run now run_id r in
      if to_state = ''completed'' \<or> to_state = ''aborted'' then
        (case get_task_id_for_run run_id r1 of
           None \<Rightarrow> r1
         | Some task_id \<Rightarrow>
             if task_id = '''' then r1
             else complete_attempt ts task_id run_id
               (if to_state = ''completed'' then ''completed'' else ''failed'') None r1)
      else r1)"

section \<open>Operations on the registry\<close>

datatype registry_op =
    Register task_descriptor
  | Start_attempt int task_attempt
  | Complete_attempt string string string string "failure_info option"
  | Update_state string lifecycle_state
  | Task_heartbeat int string
  | Heartbeat_for_run int string
  | Get_stalled int

fun tr_exec :: "registry_op \<Rightarrow> task_registry \<Rightarrow> task_registry" where
  "tr_exec (Register d) r = snd (register d r)"
| "tr_exec (Start_attempt now a) r = snd (start_attempt now a r)"
| "tr_exec (Complete_attempt ts t rid out f) r = complete_attempt ts t rid out f r"
| "tr_exec (Update_state t st) r = update_state t st r"
| "tr_exec (Task_heartbeat now t) r = task_heartbeat now t r"
| "tr_exec (Heartbeat_for_run now rid) r = heartbeat_for_run now rid r"
| "tr_exec (Get_stalled now) r = snd (get_stalled_tasks now r)"

text \<open>The uses of the registry that its event types can express: a started attempt has no outcome yet
  and is not a second one with the same identity, and a state set explicitly is one with an event.\<close>

fun expressible :: "registry_op \<Rightarrow> task_registry \<Rightarrow> bool" where
  "expressible (Start_attempt now a) r =
     (ta_outcome a = None \<and> \<not> list_ex (same_attempt a) (get_attempts (ta_task_id a) r))"
| "expressible (Update_state t st) r = (state_event_map st t \<noteq> None)"
| "expressible _ r = True"

fun expressible_run :: "registry_op list \<Rightarrow> task_registry \<Rightarrow> bool" where
  "expressible_run [] r = True"
| "expressible_run (op # ops) r = (expressible op r \<and> expressible_run ops (tr_exec op r))"

text \<open>What a replay restores of an attempt, of a descriptor and of an entry.\<close>

definition attempt_core :: "task_attempt \<Rightarrow> string \<times> string \<times> string \<times> int \<times> string \<times> string option" where
  "attempt_core a = (ta_attempt_id a, ta_task_id a, ta_run_id a, ta_attempt_seq a, ta_started_at a, ta_outcome a)"

definition restored_descriptor :: "task_descriptor \<Rightarrow> task_descriptor" where
  "restored_descriptor d = d\<lparr>td_restart_policy := (td_restart_policy d)\<lparr>rp_max_backoff_ms := 30000\<rparr>\<rparr>"

definition entry_sim :: "task_entry \<Rightarrow> task_entry \<Rightarrow> bool" where
  "entry_sim e e' = (te_descriptor e' = restored_descriptor (te_descriptor e) \<and>
     te_lifecycle_state e' = te_lifecycle_state e \<and>
     map attempt_core (te_attempts e') = map attempt_core (te_attempts e))"

definition registry_sim :: "task_registry \<Rightarrow> task_registry \<Rightarrow> bool" where
  "registry_sim r r' = (rel_dict entry_sim (tr_tasks r) (tr_tasks r') \<and>
     tr_session_index r' = tr_session_index r \<and> tr_run_index r' = tr_run_index r \<and>
     tr_max_tasks r' = tr_max_tasks r)"

section \<open>The simulation\<close>

lemma emit_sim [simp]: "registry_sim (emit e r) r' = registry_sim r r'" "registry_sim r (emit e r') = registry_sim r r'"
  by (simp_all add: registry_sim_def emit_def)

lemma emit_log [simp]: "tr_log (emit e r) = map_option (append_task_event e) (tr_log r)"
  by (simp add: emit_def)

lemma entry_sim_new: "entry_sim (new_entry d) (new_entry (restored_descriptor d))"
  by (simp add: entry_sim_def new_entry_def)

lemma restored_simps [simp]:
  "td_task_id (restored_descriptor d) = td_task_id d" "td_session_id (restored_descriptor d) = td_session_id d"
  by (simp_all add: restored_descriptor_def)

lemma payload_descriptor_registered:
  "registered_event d = Task_registered p \<Longrightarrow> payload_descriptor p = restored_descriptor d"
  by (auto simp: registered_event_def payload_descriptor_def payload_policy_def restored_descriptor_def)

lemma evict_one_sim: "registry_sim r r' \<Longrightarrow> registry_sim (evict_one t r) (evict_one t r')"
  using rel_dict_map_of [of entry_sim "tr_tasks r" "tr_tasks r'" t]
  by (auto simp: evict_one_def registry_sim_def Let_def entry_sim_def rel_dict_pop option_rel_Some1
      option_rel_Some2 split: option.splits)

lemma fold_evict_sim: "registry_sim r r' \<Longrightarrow> registry_sim (fold evict_one ts r) (fold evict_one ts r')"
  by (induction ts arbitrary: r r') (simp_all add: evict_one_sim)

lemma evict_sim:
  assumes "registry_sim r r'"
  shows "registry_sim (evict_if_needed r) (evict_if_needed r')"
proof -
  have "map fst (filter (\<lambda>(tid, e). te_lifecycle_state e \<in> {T_completed, T_aborted, T_escalated}) (tr_tasks r)) =
      map fst (filter (\<lambda>(tid, e). te_lifecycle_state e \<in> {T_completed, T_aborted, T_escalated}) (tr_tasks r'))"
    by (rule rel_dict_filter_keys [where Q = entry_sim]) (use assms in \<open>auto simp: registry_sim_def entry_sim_def\<close>)
  moreover have "length (tr_tasks r) = length (tr_tasks r')" "tr_max_tasks r' = tr_max_tasks r"
    using assms by (auto simp: registry_sim_def rel_dict_length)
  ultimately show ?thesis
    using assms fold_evict_sim [OF assms] by (simp add: evict_if_needed_def Let_def)
qed

lemma evict_log: "tr_log (evict_if_needed r) = tr_log r"
proof -
  have "tr_log (fold evict_one ts r) = tr_log r" for ts
    by (induction ts arbitrary: r) (simp_all add: evict_one_def Let_def split: option.splits)
  then show ?thesis by (simp add: evict_if_needed_def Let_def)
qed

lemma task_known_sim:
  "registry_sim r r' \<Longrightarrow> (map_of (tr_tasks r') t = None) = (map_of (tr_tasks r) t = None)"
  using rel_dict_map_of [of entry_sim "tr_tasks r" "tr_tasks r'" t] by (auto simp: registry_sim_def option_rel_Some1 elim: option.rel_cases)

lemma task_entry_sim:
  assumes "registry_sim r r'" "map_of (tr_tasks r) t = Some e"
  obtains e' where "map_of (tr_tasks r') t = Some e'" "entry_sim e e'"
  using rel_dict_map_of [of entry_sim "tr_tasks r" "tr_tasks r'" t] assms
  by (auto simp: registry_sim_def option_rel_Some1)

lemma set_task_sim:
  "registry_sim r r' \<Longrightarrow> entry_sim e e' \<Longrightarrow>
   registry_sim (r\<lparr>tr_tasks := dict_set t e (tr_tasks r)\<rparr>) (r'\<lparr>tr_tasks := dict_set t e' (tr_tasks r')\<rparr>)"
  by (simp add: registry_sim_def rel_dict_set)

lemma register_sim:
  assumes "registry_sim r r'" "map_of (tr_tasks r) (td_task_id d) = None"
  shows "registry_sim (snd (register d r)) (snd (register (restored_descriptor d) r'))"
proof -
  have "map_of (tr_tasks r') (td_task_id d) = None" using assms task_known_sim by blast
  with assms(2) evict_sim [OF assms(1)] entry_sim_new [of d] show ?thesis
    by (simp add: register_def Let_def registry_sim_def emit_def rel_dict_set)
qed

lemma same_attempt_core:
  "map attempt_core as' = map attempt_core as \<Longrightarrow> attempt_core a' = attempt_core a \<Longrightarrow>
   list_ex (same_attempt a') as' = list_ex (same_attempt a) as"
proof (induction as arbitrary: as')
  case (Cons b bs)
  then obtain b' bs' where as': "as' = b' # bs'" "attempt_core b' = attempt_core b"
      "map attempt_core bs' = map attempt_core bs" by auto
  then have "same_attempt a' b' = same_attempt a b"
    using Cons.prems(2) by (simp add: same_attempt_def attempt_core_def)
  with Cons.IH [OF as'(3) Cons.prems(2)] as'(1) show ?case by simp
qed simp

lemma start_sim:
  assumes "registry_sim r r'" "map_of (tr_tasks r) (ta_task_id a) \<noteq> None" "attempt_core a' = attempt_core a"
  shows "registry_sim (snd (start_attempt now a r)) (snd (start_attempt now' a' r'))"
proof -
  obtain e where e: "map_of (tr_tasks r) (ta_task_id a) = Some e" using assms(2) by blast
  then obtain e' where e': "map_of (tr_tasks r') (ta_task_id a) = Some e'" "entry_sim e e'"
    by (rule task_entry_sim [OF assms(1)])
  from assms(3) have ids: "ta_task_id a' = ta_task_id a" "ta_run_id a' = ta_run_id a"
    by (auto simp: attempt_core_def)
  have "entry_sim (e\<lparr>te_attempts := te_attempts e @ [a], te_lifecycle_state := T_running, te_last_heartbeat_ms := Some now\<rparr>)
      (e'\<lparr>te_attempts := te_attempts e' @ [a'], te_lifecycle_state := T_running, te_last_heartbeat_ms := Some now'\<rparr>)"
    using e'(2) assms(3) by (simp add: entry_sim_def)
  with assms(1) e e' ids show ?thesis
    by (simp add: start_attempt_def Let_def registry_sim_def emit_def rel_dict_set)
qed

text \<open>The attempts after a completion, as \<open>complete_attempt\<close> computes them.\<close>

definition closed_attempts ::
  "string \<Rightarrow> string \<Rightarrow> string \<Rightarrow> failure_info option \<Rightarrow> task_attempt list \<Rightarrow> task_attempt list" where
  "closed_attempts now_iso run_id outcome failure =
     map (\<lambda>a. if ta_run_id a = run_id \<and> ta_outcome a = None then a\<lparr>ta_outcome := Some outcome,
        ta_completed_at := Some now_iso, ta_failure := (if outcome \<noteq> ''completed'' then failure else None)\<rparr> else a)"

lemma complete_attempt_Some:
  assumes "map_of (tr_tasks r) t = Some e"
  shows "complete_attempt now_iso t rid out f r =
    (if list_ex (\<lambda>a. ta_run_id a = rid \<and> ta_outcome a = None) (te_attempts e)
     then emit (if out = ''completed'' then Task_attempt_completed t rid out else Task_attempt_failed t rid out)
       (r\<lparr>tr_tasks := dict_set t (e\<lparr>te_attempts := closed_attempts now_iso rid out f (te_attempts e),
           te_lifecycle_state := (if out = ''completed'' then T_completed else T_failed)\<rparr>) (tr_tasks r),
          tr_run_index := dict_pop rid (tr_run_index r)\<rparr>)
     else r)"
  using assms by (simp add: complete_attempt_def Let_def closed_attempts_def)

lemma closed_core:
  "map attempt_core as' = map attempt_core as \<Longrightarrow>
   map attempt_core (closed_attempts ts' rid out f' as') = map attempt_core (closed_attempts ts rid out f as) \<and>
   list_ex (\<lambda>a. ta_run_id a = rid \<and> ta_outcome a = None) as' = list_ex (\<lambda>a. ta_run_id a = rid \<and> ta_outcome a = None) as"
proof (induction as arbitrary: as')
  case (Cons b bs)
  then obtain b' bs' where as': "as' = b' # bs'" "attempt_core b' = attempt_core b"
      "map attempt_core bs' = map attempt_core bs" by auto
  with Cons.IH [OF as'(3)] show ?case by (auto simp: closed_attempts_def attempt_core_def)
qed (simp add: closed_attempts_def)

lemma complete_sim:
  assumes "registry_sim r r'" "map_of (tr_tasks r) t = Some e"
  shows "registry_sim (complete_attempt now_iso t rid out f r) (complete_attempt now_iso' t rid out f' r')"
proof -
  obtain e' where e': "map_of (tr_tasks r') t = Some e'" "entry_sim e e'"
    by (rule task_entry_sim [OF assms])
  from e'(2) have "map attempt_core (te_attempts e') = map attempt_core (te_attempts e)"
    by (simp add: entry_sim_def)
  from closed_core [OF this, of now_iso' rid out f' now_iso f] assms(1) e'(2) show ?thesis
    unfolding complete_attempt_Some [OF assms(2)] complete_attempt_Some [OF e'(1)]
    by (auto simp: registry_sim_def emit_def entry_sim_def intro!: rel_dict_set)
qed

lemma update_sim:
  assumes "registry_sim r r'" "map_of (tr_tasks r) t = Some e"
  shows "registry_sim (update_state t st r) (update_state t st r')"
proof -
  obtain e' where "map_of (tr_tasks r') t = Some e'" "entry_sim e e'"
    by (rule task_entry_sim [OF assms])
  then show ?thesis
    using assms by (auto simp: update_state_def Let_def entry_sim_def intro!: set_task_sim split: option.splits)
qed

lemma beat_sim: "entry_sim (beat now e) e' = entry_sim e e'"
  by (simp add: entry_sim_def beat_def Let_def)

lemma set_beat_sim:
  "registry_sim r r' \<Longrightarrow> map_of (tr_tasks r) t = Some e \<Longrightarrow>
   registry_sim (r\<lparr>tr_tasks := dict_set t (beat now e) (tr_tasks r)\<rparr>) r'"
  using rel_dict_map_of [of entry_sim "tr_tasks r" "tr_tasks r'" t]
  by (auto simp: registry_sim_def beat_sim option_rel_Some1 intro!: rel_dict_set_left)

lemma stalled_sim: "registry_sim r r' \<Longrightarrow> registry_sim (snd (get_stalled_tasks now r)) r'"
proof -
  have "rel_dict entry_sim (map (\<lambda>(tid, entry). (tid, if is_stalled_entry now entry
          then entry\<lparr>te_consecutive_missed_beats := te_consecutive_missed_beats entry + 1\<rparr> else entry)) d) d'"
    if "rel_dict entry_sim d d'" for d d' :: "(string \<times> task_entry) list"
    using that by (induction rule: rel_dict_induct) (auto simp: entry_sim_def)
  then show "registry_sim r r' \<Longrightarrow> ?thesis" by (simp add: registry_sim_def get_stalled_tasks_def)
qed

text \<open>The events an operation writes, and that replaying them on a related registry follows it.\<close>

definition op_events :: "registry_op \<Rightarrow> task_registry \<Rightarrow> task_event list" where
  "op_events op r = (case op of
     Register d \<Rightarrow> if map_of (tr_tasks r) (td_task_id d) = None then [registered_event d] else []
   | Start_attempt now a \<Rightarrow> if map_of (tr_tasks r) (ta_task_id a) = None then []
       else [Task_attempt_started (ta_attempt_id a) (ta_task_id a) (ta_run_id a) (ta_attempt_seq a) (ta_started_at a)]
   | Complete_attempt ts t rid out f \<Rightarrow> if list_ex (\<lambda>a. ta_run_id a = rid \<and> ta_outcome a = None) (get_attempts t r)
       then [if out = ''completed'' then Task_attempt_completed t rid out else Task_attempt_failed t rid out] else []
   | Update_state t st \<Rightarrow> if map_of (tr_tasks r) t = None then []
       else (case state_event_map st t of None \<Rightarrow> [] | Some e \<Rightarrow> [e])
   | _ \<Rightarrow> [])"

lemma op_events_log:
  "tr_log (tr_exec op r) = map_option (fold append_task_event (op_events op r)) (tr_log r)"
  by (cases op; cases "tr_log r")
    (auto simp: op_events_def register_def Let_def evict_log start_attempt_def complete_attempt_def
      get_attempts_def update_state_def task_heartbeat_def heartbeat_for_run_def get_stalled_tasks_def
      split: option.splits)

lemma replay_state_event:
  "state_event_map st t = Some e \<Longrightarrow> replay_event now ts e r = update_state t st r"
  by (cases st) (auto simp: state_event_map_def)

lemma op_events_le: "length (op_events op r) \<le> 1"
  by (cases op) (auto simp: op_events_def split: option.splits)

lemma restored_attempt_core:
  "ta_outcome a = None \<Longrightarrow> attempt_core \<lparr>ta_attempt_id = ta_attempt_id a, ta_task_id = ta_task_id a,
     ta_run_id = ta_run_id a, ta_attempt_seq = ta_attempt_seq a, ta_started_at = ta_started_at a,
     ta_completed_at = None, ta_outcome = None, ta_failure = None, ta_reflection_output = None\<rparr> = attempt_core a"
  by (simp add: attempt_core_def)

lemma get_attempts_sim:
  assumes "registry_sim r r'"
  shows "map attempt_core (get_attempts t r') = map attempt_core (get_attempts t r)"
proof (cases "map_of (tr_tasks r) t")
  case None
  with task_known_sim [OF assms, of t] show ?thesis by (simp add: get_attempts_def)
next
  case (Some e)
  then obtain e' where "map_of (tr_tasks r') t = Some e'" "entry_sim e e'" by (rule task_entry_sim [OF assms])
  with Some show ?thesis by (simp add: get_attempts_def entry_sim_def)
qed

lemma replay_started_sim:
  assumes "registry_sim r r'" "expressible (Start_attempt now a) r" "map_of (tr_tasks r) (ta_task_id a) \<noteq> None"
  shows "registry_sim (snd (start_attempt now a r)) (replay_event now' ts
    (Task_attempt_started (ta_attempt_id a) (ta_task_id a) (ta_run_id a) (ta_attempt_seq a) (ta_started_at a)) r')"
proof -
  let ?a = "\<lparr>ta_attempt_id = ta_attempt_id a, ta_task_id = ta_task_id a,
     ta_run_id = ta_run_id a, ta_attempt_seq = ta_attempt_seq a, ta_started_at = ta_started_at a,
     ta_completed_at = None, ta_outcome = None, ta_failure = None, ta_reflection_output = None\<rparr>"
  have core: "attempt_core ?a = attempt_core a" using assms(2) by (simp add: restored_attempt_core)
  have "\<not> list_ex (same_attempt ?a) (get_attempts (ta_task_id a) r')"
    using same_attempt_core [OF get_attempts_sim [OF assms(1)] core] assms(2) by simp
  with start_sim [OF assms(1,3) core, of now now'] show ?thesis by simp
qed

lemma replay_step_sim:
  assumes "registry_sim r r'" "expressible op r"
  shows "registry_sim (tr_exec op r) (fold (replay_event now ts) (op_events op r) r')"
proof (cases op)
  case (Register d)
  then show ?thesis
    using assms register_sim [of r r' d]
    by (auto simp: op_events_def register_def [of d r] registered_event_def
        payload_descriptor_registered [OF registered_event_def])
next
  case (Start_attempt now' a)
  then show ?thesis
    using assms replay_started_sim [of r r' now' a now ts]
    by (auto simp: op_events_def start_attempt_def [of now' a r] split: option.splits)
next
  case (Complete_attempt now_iso t rid out f)
  show ?thesis
  proof (cases "map_of (tr_tasks r) t")
    case None
    with Complete_attempt assms show ?thesis by (simp add: op_events_def complete_attempt_def get_attempts_def)
  next
    case (Some e)
    with Complete_attempt assms complete_sim [OF assms(1) Some, of now_iso rid out f ts None] show ?thesis
      by (auto simp: op_events_def get_attempts_def complete_attempt_Some)
  qed
next
  case (Update_state t st)
  show ?thesis
  proof (cases "map_of (tr_tasks r) t")
    case None
    with Update_state assms show ?thesis by (simp add: op_events_def update_state_def)
  next
    case (Some e)
    with Update_state assms update_sim [OF assms(1) Some, of st] show ?thesis
      by (auto simp: op_events_def replay_state_event)
  qed
qed (use assms in \<open>auto simp: op_events_def task_heartbeat_def heartbeat_for_run_def stalled_sim
      intro!: set_beat_sim split: option.splits\<close>)

lemma replay_events_append:
  "replay_events clock n (es @ [e]) r =
     (let (m, r') = replay_events clock n es r in (Suc m, replay_event (fst (clock m)) (snd (clock m)) e r'))"
  by (induction clock n es r rule: replay_events.induct) (simp_all add: Let_def)

lemma replay_events_count: "fst (replay_events clock n es r) = n + length es"
  by (induction clock n es r rule: replay_events.induct) simp_all

end
