(* ===== verification/Task_Theorems.thy ===== *)
theory Task_Theorems
  imports Task_Event_Log
begin

text \<open>
  What the task registry promises: a replay of its event log rebuilds it, the session index is exact,
  a task that is not finished is never lost, heartbeats keep a task off the stalled list.
\<close>

declare map_of_eq_Some_iff [simp del] Some_eq_map_of_iff [simp del]

section \<open>Invariant of the three dictionaries\<close>

definition session_ids :: "string \<Rightarrow> task_registry \<Rightarrow> string list" where
  "session_ids sid r = (case map_of (tr_session_index r) sid of None \<Rightarrow> [] | Some ids \<Rightarrow> ids)"

definition registry_ok :: "task_registry \<Rightarrow> bool" where
  "registry_ok r = (distinct (map fst (tr_tasks r)) \<and>
     (\<forall>t e. map_of (tr_tasks r) t = Some e \<longrightarrow> td_task_id (te_descriptor e) = t) \<and>
     (\<forall>sid. distinct (session_ids sid r)) \<and>
     (\<forall>sid t. t \<in> set (session_ids sid r) \<longleftrightarrow>
        (\<exists>e. map_of (tr_tasks r) t = Some e \<and> td_session_id (te_descriptor e) = sid)))"

lemma registry_okD:
  assumes "registry_ok r"
  shows "distinct (map fst (tr_tasks r))" "map_of (tr_tasks r) t = Some e \<Longrightarrow> td_task_id (te_descriptor e) = t"
    "distinct (session_ids sid r)"
    "t \<in> set (session_ids sid r) \<longleftrightarrow> (\<exists>e. map_of (tr_tasks r) t = Some e \<and> td_session_id (te_descriptor e) = sid)"
  using assms by (auto simp: registry_ok_def)

lemma registry_ok_log [simp]: "registry_ok (emit e r) = registry_ok r" "registry_ok (r\<lparr>tr_run_index := i\<rparr>) = registry_ok r"
  by (simp_all add: registry_ok_def session_ids_def emit_def)

lemma registry_ok_set:
  assumes "registry_ok r" "map_of (tr_tasks r) t = Some e" "te_descriptor e' = te_descriptor e"
  shows "registry_ok (r\<lparr>tr_tasks := dict_set t e' (tr_tasks r)\<rparr>)"
proof -
  have "(\<exists>x. ((map_of (tr_tasks r))(t \<mapsto> e')) t' = Some x \<and> td_session_id (te_descriptor x) = sid) =
      (\<exists>x. map_of (tr_tasks r) t' = Some x \<and> td_session_id (te_descriptor x) = sid)" for t' sid
    using assms(2,3) by auto
  with assms show ?thesis
    by (auto simp: registry_ok_def session_ids_def distinct_dict_set)
qed

lemma session_ids_set:
  "session_ids sid (r\<lparr>tr_session_index := dict_set s ids (tr_session_index r)\<rparr>) = (if sid = s then ids else session_ids sid r)"
  by (simp add: session_ids_def)

lemma evict_one_ok:
  assumes "registry_ok r"
  shows "registry_ok (evict_one t r)"
proof (cases "map_of (tr_tasks r) t")
  case (Some e)
  let ?sid = "td_session_id (te_descriptor e)"
  let ?r = "r\<lparr>tr_tasks := dict_pop t (tr_tasks r), tr_session_index :=
      dict_set ?sid (filter (\<lambda>x. x \<noteq> t) (session_ids ?sid r)) (tr_session_index r)\<rparr>"
  have "t \<in> set (session_ids ?sid r)" using registry_okD(4) [OF assms, of t ?sid] Some by blast
  then have "evict_one t r = ?r"
    using Some by (auto simp: evict_one_def Let_def session_ids_def split: option.splits)
  moreover have ids: "session_ids sid ?r =
      (if sid = ?sid then filter (\<lambda>x. x \<noteq> t) (session_ids ?sid r) else session_ids sid r)" for sid
    by (simp add: session_ids_def)
  have "registry_ok ?r"
    unfolding registry_ok_def ids using Some
    by (simp add: distinct_dict_pop registry_okD(1,3) [OF assms] registry_okD(2,4) [OF assms])
  ultimately show ?thesis by simp
qed (use assms in \<open>simp add: evict_one_def\<close>)

lemma evict_ok: "registry_ok r \<Longrightarrow> registry_ok (evict_if_needed r)"
proof -
  have "registry_ok r \<Longrightarrow> registry_ok (fold evict_one ts r)" for ts
    by (induction ts arbitrary: r) (simp_all add: evict_one_ok)
  then show "registry_ok r \<Longrightarrow> ?thesis" by (simp add: evict_if_needed_def Let_def)
qed

lemma map_of_evict_one: "map_of (tr_tasks (evict_one t r)) = (map_of (tr_tasks r))(t := None)"
  by (auto simp: evict_one_def Let_def fun_eq_iff split: option.splits)

lemma map_of_fold_evict:
  "map_of (tr_tasks (fold evict_one ts r)) t = (if t \<in> set ts then None else map_of (tr_tasks r) t)"
  by (induction ts arbitrary: r) (auto simp: map_of_evict_one)

definition finished :: "task_entry \<Rightarrow> bool" where
  "finished e = (te_lifecycle_state e \<in> {T_completed, T_aborted, T_escalated})"

lemma evict_keeps_unfinished:
  assumes "distinct (map fst (tr_tasks r))" "map_of (tr_tasks r) t = Some e" "\<not> finished e"
  shows "map_of (tr_tasks (evict_if_needed r)) t = Some e"
proof -
  let ?terminal = "map fst (filter (\<lambda>(tid, e). te_lifecycle_state e \<in> {T_completed, T_aborted, T_escalated}) (tr_tasks r))"
  have "t \<notin> set ?terminal"
  proof
    assume "t \<in> set ?terminal"
    then obtain e' where "(t, e') \<in> set (tr_tasks r)" "finished e'" by (auto simp: finished_def)
    with map_of_is_SomeI [OF assms(1)] assms(2,3) show False by fastforce
  qed
  then have "t \<notin> set (take n ?terminal)" for n using in_set_takeD by metis
  then show ?thesis using assms(2) by (simp only: evict_if_needed_def Let_def map_of_fold_evict if_False split: if_split) simp
qed

lemma evict_only_removes:
  "map_of (tr_tasks (evict_if_needed r)) t = Some e \<Longrightarrow> map_of (tr_tasks r) t = Some e"
  by (auto simp: evict_if_needed_def Let_def map_of_fold_evict split: if_splits)

lemma new_entry_descriptor [simp]: "te_descriptor (new_entry d) = d"
  by (simp add: new_entry_def)

lemma register_ok:
  assumes "registry_ok r"
  shows "registry_ok (snd (register d r))"
proof (cases "map_of (tr_tasks r) (td_task_id d)")
  case None
  let ?r = "evict_if_needed r"
  let ?t = "td_task_id d"
  let ?sid = "td_session_id d"
  let ?r' = "?r\<lparr>tr_tasks := dict_set ?t (new_entry d) (tr_tasks ?r),
      tr_session_index := dict_set ?sid (session_ids ?sid ?r @ [?t]) (tr_session_index ?r)\<rparr>"
  have ok: "registry_ok ?r" by (rule evict_ok [OF assms])
  have none: "map_of (tr_tasks ?r) ?t = None" using None evict_only_removes [of r ?t] by (cases "map_of (tr_tasks ?r) ?t") auto
  then have fresh: "?t \<notin> set (session_ids sid ?r)" for sid using registry_okD(4) [OF ok, of ?t sid] by simp
  have ids: "session_ids sid ?r' = (if sid = ?sid then session_ids ?sid ?r @ [?t] else session_ids sid ?r)" for sid
    by (simp add: session_ids_def)
  have mem: "(t \<in> set (session_ids sid ?r')) =
      (\<exists>e. ((map_of (tr_tasks ?r))(?t \<mapsto> new_entry d)) t = Some e \<and> td_session_id (te_descriptor e) = sid)" for t sid
    unfolding ids using none fresh registry_okD(4) [OF ok, of t sid] by auto
  have key: "td_task_id (te_descriptor e) = t" if "((map_of (tr_tasks ?r))(?t \<mapsto> new_entry d)) t = Some e" for t e
    using that registry_okD(2) [OF ok, of t e] by (auto split: if_splits)
  have dist: "distinct (session_ids sid ?r')" for sid
    unfolding ids using fresh registry_okD(3) [OF ok, of sid] registry_okD(3) [OF ok, of ?sid] by simp
  have "registry_ok ?r'"
    using mem key dist registry_okD(1) [OF ok] by (simp add: registry_ok_def distinct_dict_set)
  moreover have "snd (register d r) = emit (registered_event d) ?r'"
    using None by (simp add: register_def Let_def session_ids_def)
  ultimately show ?thesis by simp
qed (use assms in \<open>simp add: register_def\<close>)

lemma stalled_map_of:
  "map_of (tr_tasks (snd (get_stalled_tasks now r))) t = map_option (\<lambda>e. if is_stalled_entry now e
     then e\<lparr>te_consecutive_missed_beats := te_consecutive_missed_beats e + 1\<rparr> else e) (map_of (tr_tasks r) t)"
proof -
  have "map_of (map (\<lambda>(k, e). (k, if is_stalled_entry now e
     then e\<lparr>te_consecutive_missed_beats := te_consecutive_missed_beats e + 1\<rparr> else e)) d) t = map_option (\<lambda>e. if is_stalled_entry now e
     then e\<lparr>te_consecutive_missed_beats := te_consecutive_missed_beats e + 1\<rparr> else e) (map_of d t)"
    for d :: "(string \<times> task_entry) list"
    by (induction d) auto
  then show ?thesis by (simp add: get_stalled_tasks_def)
qed

lemma stalled_ok:
  assumes "registry_ok r"
  shows "registry_ok (snd (get_stalled_tasks now r))"
proof -
  have keys: "map fst (tr_tasks (snd (get_stalled_tasks now r))) = map fst (tr_tasks r)"
    by (simp add: get_stalled_tasks_def case_prod_beta comp_def)
  have ids: "session_ids sid (snd (get_stalled_tasks now r)) = session_ids sid r" for sid
    by (simp add: get_stalled_tasks_def session_ids_def)
  have desc: "map_option te_descriptor (map_of (tr_tasks (snd (get_stalled_tasks now r))) t) =
      map_option te_descriptor (map_of (tr_tasks r) t)" for t
    unfolding stalled_map_of by (cases "map_of (tr_tasks r) t") auto
  then have mem: "(\<exists>e. map_of (tr_tasks (snd (get_stalled_tasks now r))) t = Some e \<and> P (te_descriptor e)) =
      (\<exists>e. map_of (tr_tasks r) t = Some e \<and> P (te_descriptor e))" for P t
    unfolding stalled_map_of by (cases "map_of (tr_tasks r) t") auto
  have key: "td_task_id (te_descriptor e) = t" if "map_of (tr_tasks (snd (get_stalled_tasks now r))) t = Some e" for t e
    using mem [of t "\<lambda>d. td_task_id d \<noteq> t"] that registry_okD(2) [OF assms] by blast
  show ?thesis
    unfolding registry_ok_def keys ids
    using registry_okD(1,3,4) [OF assms] key mem [of _ "\<lambda>d. td_session_id d = sid" for sid] by simp
qed

lemma tr_exec_ok: "registry_ok r \<Longrightarrow> registry_ok (tr_exec op r)"
  by (cases op)
    (auto simp: register_ok stalled_ok start_attempt_def complete_attempt_def update_state_def task_heartbeat_def
      heartbeat_for_run_def beat_def Let_def intro!: registry_ok_set split: option.splits)

interpretation registry_life: op_system tr_exec registry_ok
  by unfold_locales (rule tr_exec_ok)

section \<open>Replay\<close>

lemma expressible_run_append:
  "expressible_run (ops @ [op]) r \<longleftrightarrow> expressible_run ops r \<and> expressible op (fold tr_exec ops r)"
  by (induction ops arbitrary: r) auto

definition logged_registry :: "int \<Rightarrow> int \<Rightarrow> task_registry" where
  "logged_registry n m = mk_task_registry n (Some \<lparr>el_events = [], el_max_events = m\<rparr>)"

lemma replay_sim:
  assumes "expressible_run ops (logged_registry n m)" "int (length ops) \<le> m"
  shows "\<exists>l. tr_log (fold tr_exec ops (logged_registry n m)) = Some l \<and> el_max_events l = m \<and>
    length (el_events l) \<le> length ops \<and>
    registry_sim (fold tr_exec ops (logged_registry n m))
      (snd (replay_events clock 0 (el_events l) (mk_task_registry n None)))"
  using assms
proof (induction ops rule: rev_induct)
  case Nil
  show ?case by (simp add: logged_registry_def mk_task_registry_def registry_sim_def)
next
  case (snoc op ops)
  let ?r = "fold tr_exec ops (logged_registry n m)"
  have ex: "expressible_run ops (logged_registry n m)" "expressible op ?r"
    using snoc.prems(1) by (simp_all add: expressible_run_append)
  obtain l where l: "tr_log ?r = Some l" "el_max_events l = m" "length (el_events l) \<le> length ops"
    "registry_sim ?r (snd (replay_events clock 0 (el_events l) (mk_task_registry n None)))" (is "registry_sim _ ?r'")
    using snoc.IH ex(1) snoc.prems(2) by auto
  let ?c = "clock (length (el_events l))"
  have sim: "registry_sim (tr_exec op ?r) (fold (replay_event (fst ?c) (snd ?c)) (op_events op ?r) ?r')"
    by (rule replay_step_sim [OF l(4) ex(2)])
  have log: "tr_log (tr_exec op ?r) = Some (fold append_task_event (op_events op ?r) l)"
    using l(1) by (simp add: op_events_log)
  consider "op_events op ?r = []" | e where "op_events op ?r = [e]"
    using op_events_le [of op ?r] by (cases "op_events op ?r") auto
  then show ?case
  proof cases
    case 1
    with sim log l show ?thesis by simp
  next
    case (2 e)
    have "append_task_event e l = l\<lparr>el_events := el_events l @ [e]\<rparr>"
      using l(2,3) snoc.prems(2) by (simp add: append_task_event_def)
    moreover have "snd (replay_events clock 0 (el_events l @ [e]) (mk_task_registry n None)) =
        replay_event (fst ?c) (snd ?c) e ?r'"
      using replay_events_count [of clock 0 "el_events l" "mk_task_registry n None"]
      by (auto simp add: replay_events_append Let_def split: prod.splits)
    ultimately show ?thesis using 2 sim log l by simp
  qed
qed

section \<open>Properties\<close>

text \<open>C5. Replaying the event log restores the registry. After any sequence of calls the event types can
  express, on a registry whose log was large enough to keep every event, replaying the log into a
  new registry of the same capacity gives the same tasks in the same order, each with its lifecycle
  state and its attempts (identity, run, sequence number, start, outcome), the same session and run
  indexes, evictions included; every event counts as replayed. A restored descriptor differs from
  the original only in \<open>max_backoff_ms\<close>, which the payload leaves out and the replay resets to its
  default; failures, completion times and heartbeats are not restored.\<close>

theorem replay_restores_registry:
  assumes "expressible_run ops (logged_registry n m)" and "int (length ops) \<le> m"
    and "tr_log (fold tr_exec ops (logged_registry n m)) = Some l"
  shows "registry_sim (fold tr_exec ops (logged_registry n m))
      (snd (replay_into_registry clock l (mk_task_registry n None))) \<and>
    fst (replay_into_registry clock l (mk_task_registry n None)) = length (all_events l)"
  using replay_sim [OF assms(1,2), of clock] assms(3)
  by (auto simp: replay_into_registry_def all_events_def replay_events_count)

definition demo_descriptor :: task_descriptor where
  "demo_descriptor = \<lparr>td_task_id = ''t1'', td_session_id = ''s1'', td_task_kind = ''root'',
     td_goal_description = ''g'', td_parent_task_id = None, td_dependency_task_ids = [],
     td_restart_policy = \<lparr>rp_max_attempts = 2, rp_backoff_base_ms = 100, rp_max_backoff_ms = 500,
       rp_on_exhausted = On_abort, rp_heartbeat_timeout_ms = 1000\<rparr>, td_metadata = []\<rparr>"

definition demo_attempt :: task_attempt where
  "demo_attempt = \<lparr>ta_attempt_id = ''a1'', ta_task_id = ''t1'', ta_run_id = ''r1'', ta_attempt_seq = 1,
     ta_started_at = ''now'', ta_completed_at = None, ta_outcome = None, ta_failure = None, ta_reflection_output = None\<rparr>"

definition demo_task_ops :: "registry_op list" where
  "demo_task_ops = [Register demo_descriptor, Start_attempt 5 demo_attempt, Heartbeat_for_run 6 ''r1'',
     Complete_attempt ''later'' ''t1'' ''r1'' ''failed'' None, Update_state ''t1'' T_restarting]"

theorem replay_restores_registry_witness:
  "\<exists>l. tr_log (fold tr_exec demo_task_ops (logged_registry 10 100)) = Some l \<and>
    registry_sim (fold tr_exec demo_task_ops (logged_registry 10 100))
      (snd (replay_into_registry (\<lambda>_. (0, ''x'')) l (mk_task_registry 10 None)))"
proof -
  have "expressible_run demo_task_ops (logged_registry 10 100)" by code_simp
  moreover have "int (length demo_task_ops) \<le> 100" by (simp add: demo_task_ops_def)
  moreover obtain l where "tr_log (fold tr_exec demo_task_ops (logged_registry 10 100)) = Some l"
    using replay_sim [OF calculation] by blast
  ultimately show ?thesis using replay_restores_registry [of demo_task_ops 10 100 l] by blast
qed

text \<open>The session index is exact: after any sequence of calls on a new registry, evictions and
  rejected registrations included, \<open>list_session_tasks\<close> returns exactly the registered descriptors
  of the session, each once.\<close>

lemma session_index_exact:
  assumes "r = fold tr_exec ops (mk_task_registry n appender)"
  shows "set (list_session_tasks sid r) = {d. get_task (td_task_id d) r = Some d \<and> td_session_id d = sid} \<and>
    distinct (list_session_tasks sid r)"
proof -
  have "registry_ok (mk_task_registry n appender)"
    by (simp add: mk_task_registry_def registry_ok_def session_ids_def)
  then have ok: "registry_ok r" unfolding assms by (rule registry_life.run_inv)
  have known: "\<exists>e. map_of (tr_tasks r) t = Some e \<and> td_task_id (te_descriptor e) = t \<and> td_session_id (te_descriptor e) = sid"
    if "t \<in> set (session_ids sid r)" for t
    using registry_okD(2,4) [OF ok] that by blast
  have eq: "list_session_tasks sid r = map (\<lambda>t. the (get_task t r)) (session_ids sid r)"
  proof -
    have "\<forall>t\<in>set (session_ids sid r). get_task t r \<noteq> None" using known by (fastforce simp: get_task_def)
    then have "filter (\<lambda>t. get_task t r \<noteq> None) (session_ids sid r) = session_ids sid r" by (simp add: filter_id_conv)
    then show ?thesis
      unfolding list_session_tasks_def session_ids_def [symmetric] map_filter_def by (simp add: comp_def)
  qed
  have "td_task_id (the (get_task t r)) = t" if "t \<in> set (session_ids sid r)" for t
    using known [OF that] by (auto simp: get_task_def)
  then have "inj_on (\<lambda>t. the (get_task t r)) (set (session_ids sid r))" by (rule inj_on_inverseI)
  then have "distinct (list_session_tasks sid r)"
    using registry_okD(3) [OF ok, of sid] by (simp add: eq distinct_map)
  moreover have "set (list_session_tasks sid r) = {d. get_task (td_task_id d) r = Some d \<and> td_session_id d = sid}"
  proof (rule set_eqI, rule iffI)
    fix d assume "d \<in> set (list_session_tasks sid r)"
    then obtain t where "t \<in> set (session_ids sid r)" "d = the (get_task t r)" by (auto simp: eq)
    with known [of t] show "d \<in> {d. get_task (td_task_id d) r = Some d \<and> td_session_id d = sid}"
      by (auto simp: get_task_def)
  next
    fix d assume d: "d \<in> {d. get_task (td_task_id d) r = Some d \<and> td_session_id d = sid}"
    then have "td_task_id d \<in> set (session_ids sid r)"
      using registry_okD(4) [OF ok, of "td_task_id d" sid] by (auto simp: get_task_def)
    moreover have "d = the (get_task (td_task_id d) r)" using d by simp
    ultimately show "d \<in> set (list_session_tasks sid r)" unfolding eq set_map by (rule rev_image_eqI)
  qed
  ultimately show ?thesis by blast
qed

text \<open>A task that is not finished is never lost: whatever calls are made, and however full the
  registry is, a registered task that is not completed, aborted or escalated is still registered with
  the same descriptor, and an earlier attempt of it is still there, after any single call; so only
  \<open>register\<close> at capacity removes tasks, and only finished ones.\<close>

lemma unfinished_task_is_kept:
  assumes "registry_ok r" and "map_of (tr_tasks r) t = Some e" and "\<not> finished e"
  shows "\<exists>e'. map_of (tr_tasks (tr_exec op r)) t = Some e' \<and> te_descriptor e' = te_descriptor e \<and>
    map ta_attempt_id (te_attempts e) = take (length (te_attempts e)) (map ta_attempt_id (te_attempts e'))"
proof (cases op)
  case (Register d)
  have "map_of (tr_tasks (evict_if_needed r)) t = Some e"
    by (rule evict_keeps_unfinished) (use assms registry_okD(1) [OF assms(1)] in auto)
  then show ?thesis
    using assms(2) Register by (auto simp: register_def Let_def emit_def)
next
  case (Complete_attempt ts t' rid out f)
  then show ?thesis
    using assms(2) by (cases "map_of (tr_tasks r) t'"; cases "t' = t")
      (auto simp: complete_attempt_def Let_def emit_def comp_def if_distrib [of ta_attempt_id] cong: if_cong)
next
  case (Get_stalled now)
  then show ?thesis using assms(2) by (simp add: stalled_map_of)
qed (use assms(2) in \<open>auto simp: start_attempt_def update_state_def task_heartbeat_def heartbeat_for_run_def
    beat_def Let_def emit_def split: option.splits\<close>)

lemma demo_registry_entry:
  "map_of (tr_tasks (fold tr_exec demo_task_ops (mk_task_registry 1 None))) ''t1'' \<noteq> None \<and>
   \<not> finished (the (map_of (tr_tasks (fold tr_exec demo_task_ops (mk_task_registry 1 None))) ''t1''))"
  by code_simp

text \<open>A heartbeat moves a task's last activity strictly forward whatever the clock reads, and keeps
  it off the stalled list for its timeout: no scan up to \<open>heartbeat_timeout_ms\<close> after the reading
  reports it. A scan reports exactly the tasks whose health says stalled.\<close>

lemma heartbeat_prevents_stall:
  assumes "registry_ok r" and "map_of (tr_tasks r) t = Some e"
    and "scan \<le> now + rp_heartbeat_timeout_ms (td_restart_policy (te_descriptor e))"
  shows "(\<forall>l. te_last_heartbeat_ms e = Some l \<longrightarrow>
      (\<exists>l'. te_last_heartbeat_ms (beat now e) = Some l' \<and> l < l')) \<and>
    map_of (tr_tasks (task_heartbeat now t r)) t = Some (beat now e) \<and>
    t \<notin> set (map th_task_id (fst (get_stalled_tasks scan (task_heartbeat now t r)))) \<and>
    set (map th_task_id (fst (get_stalled_tasks scan r))) =
      {t. \<exists>h. get_health scan t r = Some h \<and> th_is_stalled h}"
proof (intro conjI allI impI)
  have ids: "set (map th_task_id (fst (get_stalled_tasks scan r))) =
      {t. \<exists>e. map_of (tr_tasks r) t = Some e \<and> is_stalled_entry scan e}" if "registry_ok r" for r
    using map_of_eq_Some_iff [OF registry_okD(1) [OF that]]
    by (force simp: get_stalled_tasks_def)
  show "\<exists>l'. te_last_heartbeat_ms (beat now e) = Some l' \<and> l < l'" if "te_last_heartbeat_ms e = Some l" for l
    using that by (simp add: beat_def)
  show entry: "map_of (tr_tasks (task_heartbeat now t r)) t = Some (beat now e)"
    using assms(2) by (simp add: task_heartbeat_def)
  have "registry_ok (task_heartbeat now t r)" using tr_exec_ok [OF assms(1), of "Task_heartbeat now t"] by simp
  moreover have "\<not> is_stalled_entry scan (beat now e)"
    using assms(3) by (auto simp: is_stalled_entry_def beat_def Let_def split: option.splits)
  ultimately show "t \<notin> set (map th_task_id (fst (get_stalled_tasks scan (task_heartbeat now t r))))"
    using entry by (simp only: ids mem_Collect_eq) simp
  show "set (map th_task_id (fst (get_stalled_tasks scan r))) = {t. \<exists>h. get_health scan t r = Some h \<and> th_is_stalled h}"
    unfolding ids [OF assms(1)]
    by (auto simp: get_health_def is_stalled_entry_def Let_def split: option.splits if_splits)
qed

end
