(* ===== verification/Restart_Engine.thy ===== *)
theory Restart_Engine
  imports Task_Theorems
begin

text \<open>
  The restart policy engine of \<open>hi_agent/task_mgmt/restart_policy.py\<close>. Its collaborators are injected
  callables, here the fields of a record over the state \<open>'s\<close> they share; \<open>runtime_builder.py\<close> wires
  them to two dictionaries, \<open>builder_engine\<close>. The reason and the prompt of a decision are constructors
  with the values the source formats into text. \<open>handle_failure\<close> is a coroutine without a lock: it runs
  up to the await of the backoff and the retry launcher, or of the reflection handler, and other calls run
  before it goes on. So it is two functions, \<open>begin_failure\<close> and what comes after the await, and
  \<open>engine_step\<close> interleaves them. What the launcher answers (a run id, \<open>None\<close>, an exception) is an input of
  the second part. The reflection handler's exceptions are swallowed by the engine, so it is a state change.
\<close>

section \<open>Decisions\<close>

datatype restart_action = Retry | Reflect | Escalate | Abort

datatype restart_reason =
    No_policy
  | Non_retryable string
  | Failed_reflecting int int
  | Failed_retrying int int
  | Budget_exhausted int int exhausted_policy
  | Launch_failed restart_reason

datatype reflection_prompt = Attempt_failed int string string | Previous_failed int string string

record restart_decision =
  rd_task_id :: string
  rd_action :: restart_action
  rd_next_attempt_seq :: "int option"
  rd_reason :: restart_reason
  rd_reflection_prompt :: "reflection_prompt option"

fun exhausted_action :: "exhausted_policy \<Rightarrow> restart_action" where
  "exhausted_action On_reflect = Reflect"
| "exhausted_action On_escalate = Escalate"
| "exhausted_action On_abort = Abort"

definition decide ::
  "restart_policy \<Rightarrow> string \<Rightarrow> int \<Rightarrow> failure_info option \<Rightarrow> string \<Rightarrow> restart_decision" where
  "decide policy task_id attempt_seq failure stage_id =
     (let retryability = (case failure of None \<Rightarrow> ''unknown''
            | Some f \<Rightarrow> (case fi_retryability f of None \<Rightarrow> ''unknown'' | Some v \<Rightarrow> v)) in
      if retryability = ''non_retryable'' then
        \<lparr>rd_task_id = task_id, rd_action = exhausted_action (rp_on_exhausted policy),
         rd_next_attempt_seq = None,
         rd_reason = Non_retryable (case failure of None \<Rightarrow> ''unknown''
           | Some f \<Rightarrow> (case fi_failure_code f of None \<Rightarrow> ''unknown'' | Some v \<Rightarrow> v)),
         rd_reflection_prompt = None\<rparr>
      else
        let failure_reason = (case failure of None \<Rightarrow> ''unknown''
              | Some f \<Rightarrow> str_or (opt_or (opt_or (fi_failure_code f) (fi_reason f)) (Some ''unknown'')));
            stage = (if stage_id = '''' then ''unknown'' else stage_id) in
        if attempt_seq < rp_max_attempts policy then
          if rp_on_exhausted policy = On_reflect then
            \<lparr>rd_task_id = task_id, rd_action = Reflect, rd_next_attempt_seq = Some (attempt_seq + 1),
             rd_reason = Failed_reflecting attempt_seq (rp_max_attempts policy),
             rd_reflection_prompt = Some (Attempt_failed attempt_seq failure_reason stage)\<rparr>
          else
            \<lparr>rd_task_id = task_id, rd_action = Retry, rd_next_attempt_seq = Some (attempt_seq + 1),
             rd_reason = Failed_retrying attempt_seq (rp_max_attempts policy), rd_reflection_prompt = None\<rparr>
        else
          \<lparr>rd_task_id = task_id, rd_action = exhausted_action (rp_on_exhausted policy),
           rd_next_attempt_seq = None,
           rd_reason = Budget_exhausted attempt_seq (rp_max_attempts policy) (rp_on_exhausted policy),
           rd_reflection_prompt = (if rp_on_exhausted policy = On_reflect
             then Some (Previous_failed attempt_seq failure_reason stage) else None)\<rparr>)"

section \<open>The engine\<close>

datatype launch = Launched string | Launched_none | Launch_raised

text \<open>\<open>re_retry_launcher\<close>: whether there is one.\<close>

record 's restart_engine =
  re_get_attempts :: "string \<Rightarrow> 's \<Rightarrow> task_attempt list"
  re_get_policy :: "string \<Rightarrow> 's \<Rightarrow> restart_policy option"
  re_update_state :: "string \<Rightarrow> lifecycle_state \<Rightarrow> 's \<Rightarrow> 's"
  re_record_attempt :: "task_attempt \<Rightarrow> 's \<Rightarrow> 's"
  re_retry_launcher :: bool
  re_reflection_handler :: "(string \<Rightarrow> task_attempt list \<Rightarrow> 's \<Rightarrow> 's) option"

definition backoff_delay_ms :: "restart_policy \<Rightarrow> int \<Rightarrow> int" where
  "backoff_delay_ms policy next_seq =
     min (rp_backoff_base_ms policy * 2 ^ nat (max 0 (next_seq - 2))) (rp_max_backoff_ms policy)"

text \<open>A call at its await: the task, the decision, then the sequence number to launch and the milliseconds to sleep, or the
  attempts given to the reflection handler.\<close>

datatype suspended =
    Launching string restart_decision int int
  | Reflecting string restart_decision "task_attempt list"

definition answer :: "restart_decision \<Rightarrow> restart_decision" where
  "answer d = \<lparr>rd_task_id = rd_task_id d, rd_action = rd_action d, rd_next_attempt_seq = rd_next_attempt_seq d,
     rd_reason = rd_reason d, rd_reflection_prompt = None\<rparr>"

definition launch_failed :: "restart_decision \<Rightarrow> restart_decision" where
  "launch_failed d = d\<lparr>rd_action := Abort, rd_next_attempt_seq := None, rd_reason := Launch_failed (rd_reason d)\<rparr>"

definition begin_failure ::
  "'s restart_engine \<Rightarrow> string \<Rightarrow> failure_info option \<Rightarrow> bool \<Rightarrow> 's \<Rightarrow> (restart_decision + suspended) \<times> 's" where
  "begin_failure E task_id failure has_context s =
     (case re_get_policy E task_id s of
        None \<Rightarrow> (Inl \<lparr>rd_task_id = task_id, rd_action = Abort, rd_next_attempt_seq = None,
                  rd_reason = No_policy, rd_reflection_prompt = None\<rparr>, s)
      | Some policy \<Rightarrow>
          let attempts = re_get_attempts E task_id s;
              attempt_seq = int (length attempts);
              decision = decide policy task_id attempt_seq failure '''' in
          (case rd_action decision of
             Retry \<Rightarrow>
               let s1 = re_update_state E task_id T_restarting s in
               if re_retry_launcher E
               then (Inr (Launching task_id decision (attempt_seq + 1) (max 0 (backoff_delay_ms policy (attempt_seq + 1)))), s1)
               else (Inl (answer (launch_failed decision)), re_update_state E task_id T_aborted s1)
           | Reflect \<Rightarrow>
               let s1 = re_update_state E task_id T_reflecting s in
               if re_reflection_handler E \<noteq> None \<and> has_context then (Inr (Reflecting task_id decision attempts), s1)
               else (Inl (answer decision), s1)
           | Escalate \<Rightarrow> (Inl (answer decision), re_update_state E task_id T_escalated s)
           | Abort \<Rightarrow> (Inl (answer decision), re_update_state E task_id T_aborted s)))"

text \<open>After the launcher has answered; \<open>uuid\<close> and \<open>started\<close> are the fresh identifier and the time of the recorded attempt.\<close>

definition launch_retry ::
  "'s restart_engine \<Rightarrow> string \<Rightarrow> string \<Rightarrow> launch \<Rightarrow> string \<Rightarrow> int \<Rightarrow> 's \<Rightarrow> bool \<times> 's" where
  "launch_retry E uuid started launched task_id next_seq s =
     (case launched of
        Launch_raised \<Rightarrow> (False, s)
      | Launched_none \<Rightarrow> (False, s)
      | Launched new_run_id \<Rightarrow>
          let attempt = \<lparr>ta_attempt_id = uuid, ta_task_id = task_id, ta_run_id = new_run_id,
                ta_attempt_seq = next_seq, ta_started_at = started, ta_completed_at = None,
                ta_outcome = None, ta_failure = None, ta_reflection_output = None\<rparr>;
              s1 = re_record_attempt E attempt s
          in (True, re_update_state E task_id T_restarting s1))"

fun resume_failure :: "'s restart_engine \<Rightarrow> string \<Rightarrow> string \<Rightarrow> launch \<Rightarrow> suspended \<Rightarrow> 's \<Rightarrow> restart_decision \<times> 's" where
  "resume_failure E uuid started launched (Launching task_id decision next_seq delay_ms) s =
     (case launch_retry E uuid started launched task_id next_seq s of
        (True, s') \<Rightarrow> (answer decision, s')
      | (False, s') \<Rightarrow> (answer (launch_failed decision), re_update_state E task_id T_aborted s'))"
| "resume_failure E uuid started launched (Reflecting task_id decision attempts) s =
     (answer decision, case re_reflection_handler E of Some h \<Rightarrow> h task_id attempts s | None \<Rightarrow> s)"

text \<open>A call that nothing interrupts.\<close>

definition handle_failure ::
  "'s restart_engine \<Rightarrow> string \<Rightarrow> string \<Rightarrow> launch \<Rightarrow> string \<Rightarrow> failure_info option \<Rightarrow> bool \<Rightarrow> 's \<Rightarrow>
   restart_decision \<times> 's" where
  "handle_failure E uuid started launched task_id failure has_context s =
     (case begin_failure E task_id failure has_context s of
        (Inl d, s') \<Rightarrow> (d, s')
      | (Inr call, s') \<Rightarrow> resume_failure E uuid started launched call s')"

section \<open>Overlapping calls\<close>

record 's restart_calls =
  rc_state :: 's
  rc_suspended :: "suspended list"

text \<open>A failure is reported; the suspended call at a position of the list goes on.\<close>

datatype restart_step = Fail_task string "failure_info option" bool | Resume_call nat string string launch

fun engine_step :: "'s restart_engine \<Rightarrow> restart_step \<Rightarrow> 's restart_calls \<Rightarrow> 's restart_calls" where
  "engine_step E (Fail_task task_id failure has_context) w =
     (case begin_failure E task_id failure has_context (rc_state w) of
        (Inl _, s) \<Rightarrow> w\<lparr>rc_state := s\<rparr>
      | (Inr call, s) \<Rightarrow> w\<lparr>rc_state := s, rc_suspended := rc_suspended w @ [call]\<rparr>)"
| "engine_step E (Resume_call i uuid started launched) w =
     (if i < length (rc_suspended w)
      then w\<lparr>rc_state := snd (resume_failure E uuid started launched (rc_suspended w ! i) (rc_state w)),
             rc_suspended := take i (rc_suspended w) @ drop (Suc i) (rc_suspended w)\<rparr>
      else w)"

fun launching_for :: "string \<Rightarrow> suspended \<Rightarrow> bool" where
  "launching_for t (Launching t' d n ms) = (t' = t)"
| "launching_for t (Reflecting t' d as) = False"

text \<open>How many launches of a task are waiting, and the most there ever are along a history.\<close>

definition launches :: "string \<Rightarrow> 's restart_calls \<Rightarrow> nat" where
  "launches t w = length (filter (launching_for t) (rc_suspended w))"

fun most_launches :: "'s restart_engine \<Rightarrow> string \<Rightarrow> restart_step list \<Rightarrow> 's restart_calls \<Rightarrow> nat" where
  "most_launches E t [] w = launches t w"
| "most_launches E t (x # xs) w = max (launches t w) (most_launches E t xs (engine_step E x w))"

section \<open>The wiring of the runtime builder\<close>

record builder_store =
  bs_attempts :: "(string \<times> task_attempt list) list"
  bs_states :: "(string \<times> lifecycle_state) list"

definition store_attempts :: "string \<Rightarrow> builder_store \<Rightarrow> task_attempt list" where
  "store_attempts t s = (case map_of (bs_attempts s) t of None \<Rightarrow> [] | Some l \<Rightarrow> l)"

definition builder_engine :: "restart_policy \<Rightarrow> builder_store restart_engine" where
  "builder_engine default_policy =
     \<lparr>re_get_attempts = store_attempts,
      re_get_policy = (\<lambda>task_id s. Some default_policy),
      re_update_state = (\<lambda>task_id st s. s\<lparr>bs_states := dict_set task_id st (bs_states s)\<rparr>),
      re_record_attempt = (\<lambda>a s. s\<lparr>bs_attempts :=
        dict_set (ta_task_id a) (store_attempts (ta_task_id a) s @ [a]) (bs_attempts s)\<rparr>),
      re_retry_launcher = False, re_reflection_handler = None\<rparr>"

section \<open>What the engine needs of its collaborators\<close>

text \<open>A ledger of attempts: recording one appends it to its task, setting a state leaves attempts alone,
  and the state set is the state read. \<open>known\<close> is the condition under which the ledger has the task.\<close>

locale attempt_ledger =
  fixes attempts_of :: "string \<Rightarrow> 's \<Rightarrow> task_attempt list"
    and set_state :: "string \<Rightarrow> lifecycle_state \<Rightarrow> 's \<Rightarrow> 's"
    and add_attempt :: "task_attempt \<Rightarrow> 's \<Rightarrow> 's"
    and state_of :: "string \<Rightarrow> 's \<Rightarrow> lifecycle_state option"
    and known :: "string \<Rightarrow> 's \<Rightarrow> bool"
  assumes attempts_add: "known (ta_task_id a) s \<Longrightarrow>
      attempts_of t (add_attempt a s) = attempts_of t s @ (if t = ta_task_id a then [a] else [])"
    and attempts_set: "attempts_of t (set_state t' st s) = attempts_of t s"
    and state_set: "known t s \<Longrightarrow> state_of t (set_state t st s) = Some st"
    and known_add: "known t s \<Longrightarrow> known t (add_attempt a s)"
    and known_set: "known t s \<Longrightarrow> known t (set_state t' st s)"

text \<open>The state an action leaves the task in.\<close>

fun action_state :: "restart_action \<Rightarrow> lifecycle_state" where
  "action_state Retry = T_restarting"
| "action_state Reflect = T_reflecting"
| "action_state Escalate = T_escalated"
| "action_state Abort = T_aborted"

lemma decide_action:
  "rd_action (decide policy t n f st) = Retry \<Longrightarrow>
     n < rp_max_attempts policy \<and> rp_on_exhausted policy \<noteq> On_reflect \<and> rd_next_attempt_seq (decide policy t n f st) = Some (n + 1)"
  by (cases "rp_on_exhausted policy") (auto simp: decide_def Let_def split: if_splits)

context attempt_ledger
begin

text \<open>An engine wired to the ledger, with any policy and launcher, and no reflection handler.\<close>

lemma handle_failure_ledger:
  assumes E: "re_get_attempts E = attempts_of" "re_update_state E = set_state" "re_record_attempt E = add_attempt"
      "re_reflection_handler E = None"
    and pol: "re_get_policy E t s = Some policy" and known: "known t s"
    and res: "res = handle_failure E uuid started launched t f ctx s"
  shows "state_of t (snd res) = Some (action_state (rd_action (fst res))) \<and> known t (snd res) \<and>
    (rd_action (fst res) = Retry \<longrightarrow> int (length (attempts_of t s)) < rp_max_attempts policy \<and>
      length (attempts_of t (snd res)) = Suc (length (attempts_of t s)) \<and>
      ta_attempt_seq (List.last (attempts_of t (snd res))) = int (length (attempts_of t s)) + 1) \<and>
    (rd_action (fst res) \<noteq> Retry \<longrightarrow> attempts_of t (snd res) = attempts_of t s)"
proof (cases "rd_action (decide policy t (int (length (attempts_of t s))) f [])")
  case Retry
  with decide_action [OF Retry] show ?thesis
    using known by (auto simp: res handle_failure_def begin_failure_def answer_def launch_failed_def E pol Let_def launch_retry_def
        attempts_add attempts_set state_set known_add known_set split: option.splits launch.splits)
qed (use known in \<open>simp_all add: res handle_failure_def begin_failure_def answer_def E pol Let_def attempts_set state_set known_set\<close>)

text \<open>The two kinds of step on the attempts of a task: a launch that begins has seen the budget, one that goes on adds at most one.\<close>

lemma begin_attempts:
  assumes E: "re_get_attempts E = attempts_of" "re_update_state E = set_state"
    and b: "begin_failure E t' f ctx s = (x, s')"
  shows "attempts_of t s' = attempts_of t s \<and>
    (\<forall>call. x = Inr call \<longrightarrow> launching_for t call \<longrightarrow> (\<exists>p. re_get_policy E t s = Some p \<and> int (length (attempts_of t s)) < rp_max_attempts p)) \<and>
    (\<forall>d as. x = Inr (Reflecting t' d as) \<longrightarrow> re_reflection_handler E \<noteq> None)"
proof (cases "re_get_policy E t' s")
  case (Some p)
  show ?thesis
  proof (cases "rd_action (decide p t' (int (length (attempts_of t' s))) f '''')")
    case Retry
    then show ?thesis using b Some decide_action [OF Retry]
      by (auto simp: begin_failure_def E Let_def attempts_set split: if_splits)
  qed (use b Some in \<open>auto simp: begin_failure_def E Let_def attempts_set split: if_splits\<close>)
qed (use b in \<open>auto simp: begin_failure_def\<close>)

lemma resume_attempts:
  assumes E: "re_get_attempts E = attempts_of" "re_update_state E = set_state" "re_record_attempt E = add_attempt"
      "re_reflection_handler E = None"
    and known: "\<And>t s. known t s"
  shows "length (attempts_of t (snd (resume_failure E uuid started launched call s))) \<le>
    length (attempts_of t s) + (if launching_for t call then 1 else 0)"
  by (cases call; cases launched) (simp_all add: E launch_retry_def Let_def attempts_set attempts_add known)

text \<open>Attempts recorded and launches waiting, together.\<close>

definition committed :: "string \<Rightarrow> 's restart_calls \<Rightarrow> int" where
  "committed t w = int (length (attempts_of t (rc_state w)) + launches t w)"

lemma step_committed:
  assumes E: "re_get_attempts E = attempts_of" "re_update_state E = set_state" "re_record_attempt E = add_attempt"
      "re_reflection_handler E = None"
    and pol: "\<And>s p. re_get_policy E t s = Some p \<Longrightarrow> rp_max_attempts p \<le> M" and known: "\<And>t s. known t s"
  shows "committed t (engine_step E x w) \<le> max (committed t w) (M - 1 + int (launches t (engine_step E x w)))"
proof (cases x)
  case (Fail_task t' f ctx)
  obtain y s' where b: "begin_failure E t' f ctx (rc_state w) = (y, s')" by fastforce
  note a = begin_attempts [OF E(1,2) b, of t]
  show ?thesis
  proof (cases "\<exists>call. y = Inr call \<and> launching_for t call")
    case True
    then obtain p where "re_get_policy E t (rc_state w) = Some p" "int (length (attempts_of t (rc_state w))) < rp_max_attempts p" using a by blast
    then have "int (length (attempts_of t (rc_state w))) \<le> M - 1" using pol by fastforce
    then show ?thesis using True a b by (auto simp: Fail_task committed_def launches_def)
  next
    case False
    then show ?thesis using a b by (cases y) (auto simp: Fail_task committed_def launches_def)
  qed
next
  case (Resume_call i uuid started launched)
  show ?thesis
  proof (cases "i < length (rc_suspended w)")
    case True
    let ?q = "rc_suspended w"
    have "filter (launching_for t) ?q = filter (launching_for t) (take i ?q @ ?q ! i # drop (Suc i) ?q)" using True by (simp add: id_take_nth_drop [symmetric])
    then have "length (filter (launching_for t) ?q) =
        length (filter (launching_for t) (take i ?q @ drop (Suc i) ?q)) + (if launching_for t (?q ! i) then 1 else 0)" by simp
    then show ?thesis using True resume_attempts [OF E known, of t uuid started launched "?q ! i" "rc_state w"]
      by (simp add: Resume_call committed_def launches_def split: if_splits)
  qed (simp add: Resume_call)
qed

lemma overlap_bound:
  assumes E: "re_get_attempts E = attempts_of" "re_update_state E = set_state" "re_record_attempt E = add_attempt"
      "re_reflection_handler E = None"
    and pol: "\<And>s p. re_get_policy E t s = Some p \<Longrightarrow> rp_max_attempts p \<le> M" and known: "\<And>t s. known t s"
  shows "committed t (fold (engine_step E) xs w) \<le> max (committed t w) (M - 1 + int (most_launches E t xs w))"
proof (induction xs arbitrary: w)
  case (Cons x xs)
  have "launches t (engine_step E x w) \<le> most_launches E t xs (engine_step E x w)" by (cases xs) simp_all
  moreover have "committed t (engine_step E x w) \<le> max (committed t w) (M - 1 + int (launches t (engine_step E x w)))"
    by (rule step_committed [OF E]) (use pol known in blast)+
  ultimately show ?case using Cons.IH [of "engine_step E x w"] by (auto simp: max_def split: if_splits)
qed simp

end

section \<open>The two ledgers\<close>

interpretation builder_ledger: attempt_ledger store_attempts
  "\<lambda>t st s. s\<lparr>bs_states := dict_set t st (bs_states s)\<rparr>"
  "\<lambda>a s. s\<lparr>bs_attempts := dict_set (ta_task_id a) (store_attempts (ta_task_id a) s @ [a]) (bs_attempts s)\<rparr>"
  "\<lambda>t s. map_of (bs_states s) t" "\<lambda>t s. True"
  by unfold_locales (simp_all add: store_attempts_def)

definition task_state :: "string \<Rightarrow> task_registry \<Rightarrow> lifecycle_state option" where
  "task_state t r = map_option te_lifecycle_state (map_of (tr_tasks r) t)"

interpretation registry_ledger: attempt_ledger get_attempts update_state "\<lambda>a r. snd (start_attempt now a r)"
  task_state "\<lambda>t r. map_of (tr_tasks r) t \<noteq> None" for now
  by unfold_locales
    (auto simp: get_attempts_def update_state_def start_attempt_def task_state_def emit_def Let_def split: option.splits)

text \<open>The engine on a task registry: policies are the registered ones.\<close>

definition registry_engine :: "int \<Rightarrow> bool \<Rightarrow> task_registry restart_engine" where
  "registry_engine now launcher =
     \<lparr>re_get_attempts = get_attempts,
      re_get_policy = (\<lambda>t r. map_option td_restart_policy (get_task t r)),
      re_update_state = update_state, re_record_attempt = (\<lambda>a r. snd (start_attempt now a r)),
      re_retry_launcher = launcher, re_reflection_handler = None\<rparr>"

section \<open>Properties\<close>

text \<open>C39. The retry budget bounds the recorded attempts of a task, whatever fails, whatever each launch answers and however the calls of
  all tasks interleave: they never exceed \<open>max_attempts\<close> plus the launches of the task that overlap beyond the first (or the number
  there was before, when that is larger). So while launches of one task do not overlap, the budget itself bounds them; the code has no
  lock that keeps them apart, and two overlapping launches can exceed it (\<open>overlapping_failures_exceed_budget\<close>). A call that is
  cancelled at its await stays suspended.\<close>

theorem restart_budget_respected:
  "int (length (store_attempts t (rc_state (fold (engine_step ((builder_engine policy)\<lparr>re_retry_launcher := launcher\<rparr>)) steps
      \<lparr>rc_state = s, rc_suspended = []\<rparr>)))) \<le>
   max (int (length (store_attempts t s)))
     (rp_max_attempts policy - 1 +
      int (most_launches ((builder_engine policy)\<lparr>re_retry_launcher := launcher\<rparr>) t steps \<lparr>rc_state = s, rc_suspended = []\<rparr>))"
proof -
  let ?E = "(builder_engine policy)\<lparr>re_retry_launcher := launcher\<rparr>" and ?w = "\<lparr>rc_state = s, rc_suspended = []\<rparr>"
  have "builder_ledger.committed t (fold (engine_step ?E) steps ?w) \<le>
      max (builder_ledger.committed t ?w) (rp_max_attempts policy - 1 + int (most_launches ?E t steps ?w))"
    by (rule builder_ledger.overlap_bound) (simp_all add: builder_engine_def)
  then show ?thesis by (simp add: builder_ledger.committed_def launches_def)
qed

text \<open>Two failures of a task that are reported before the first launch answers exceed a budget of one.\<close>

lemma overlapping_failures_exceed_budget:
  assumes "rp_max_attempts policy = 1" "rp_on_exhausted policy = On_abort"
  defines "E \<equiv> (builder_engine policy)\<lparr>re_retry_launcher := True\<rparr>"
  shows "length (store_attempts ''t'' (rc_state (fold (engine_step E)
      [Fail_task ''t'' None False, Fail_task ''t'' None False, Resume_call 0 ''a'' '''' (Launched ''r1''), Resume_call 0 ''b'' '''' (Launched ''r2'')]
      \<lparr>rc_state = \<lparr>bs_attempts = [], bs_states = []\<rparr>, rc_suspended = []\<rparr>))) = 2"
  using assms(1,2)
  by (simp add: E_def builder_engine_def begin_failure_def decide_def store_attempts_def launch_retry_def answer_def Let_def)

text \<open>A handled failure leaves the task where the decision says. On a registered task the lifecycle
  state after \<open>handle_failure\<close> is restarting, reflecting, escalated or aborted as the returned action is
  retry, reflect, escalate or abort; a retry is returned only within the budget and has recorded
  exactly one new attempt, numbered one after the attempts so far; any other action records none.\<close>

lemma handle_failure_settles_task:
  assumes "map_of (tr_tasks r) t = Some e"
    and "res = handle_failure (registry_engine now launcher) uuid started launched t f ctx r"
  shows "task_state t (snd res) = Some (action_state (rd_action (fst res))) \<and>
    (rd_action (fst res) = Retry \<longrightarrow>
      int (length (te_attempts e)) < rp_max_attempts (td_restart_policy (te_descriptor e)) \<and>
      length (get_attempts t (snd res)) = Suc (length (te_attempts e)) \<and>
      ta_attempt_seq (List.last (get_attempts t (snd res))) = int (length (te_attempts e)) + 1) \<and>
    (rd_action (fst res) \<noteq> Retry \<longrightarrow> get_attempts t (snd res) = te_attempts e)"
proof -
  let ?E = "registry_engine now launcher"
  have "re_get_policy ?E t r = Some (td_restart_policy (te_descriptor e))"
    using assms(1) by (simp add: registry_engine_def get_task_def)
  from registry_ledger.handle_failure_ledger [OF _ _ _ _ this _ assms(2), of now] assms(1)
  show ?thesis by (simp add: registry_engine_def get_attempts_def)
qed

text \<open>The engine as \<open>build_restart_policy_engine\<close> wires it, without a launcher, never retries: the
  returned action is never retry, and under a policy that is not to reflect, a retryable failure with
  budget left is answered by aborting the task.\<close>

lemma builder_engine_never_retries:
  "rd_action (fst (handle_failure (builder_engine policy) uuid started launched t f ctx s)) \<noteq> Retry \<and>
   (rd_action (decide policy t (int (length (store_attempts t s))) f '''') = Retry \<longrightarrow>
      rd_action (fst (handle_failure (builder_engine policy) uuid started launched t f ctx s)) = Abort \<and>
      map_of (bs_states (snd (handle_failure (builder_engine policy) uuid started launched t f ctx s))) t = Some T_aborted)"
  by (cases "rd_action (decide policy t (int (length (store_attempts t s))) f '''')")
    (simp_all add: handle_failure_def begin_failure_def answer_def launch_failed_def builder_engine_def Let_def)

text \<open>The delay before a retry is exponential and capped: for a non-negative base it is never
  negative nor above \<open>max_backoff_ms\<close>, never shrinks from one attempt to the next, and from the second
  attempt on doubles until the cap.\<close>

lemma backoff_is_capped:
  assumes "0 \<le> rp_backoff_base_ms p" and "0 \<le> rp_max_backoff_ms p"
  shows "0 \<le> backoff_delay_ms p n \<and> backoff_delay_ms p n \<le> rp_max_backoff_ms p \<and>
    backoff_delay_ms p n \<le> backoff_delay_ms p (n + 1) \<and>
    (2 \<le> n \<longrightarrow> backoff_delay_ms p (n + 1) = min (2 * backoff_delay_ms p n) (rp_max_backoff_ms p))"
proof -
  have mono: "rp_backoff_base_ms p * 2 ^ nat (max 0 (n - 2)) \<le> rp_backoff_base_ms p * 2 ^ nat (max 0 (n + 1 - 2))"
    using assms(1) by (intro mult_left_mono power_increasing) auto
  have dbl: "rp_backoff_base_ms p * 2 ^ nat (max 0 (n + 1 - 2)) = 2 * (rp_backoff_base_ms p * 2 ^ nat (max 0 (n - 2)))"
    if "2 \<le> n"
  proof -
    have "nat (max 0 (n + 1 - 2)) = Suc (nat (max 0 (n - 2)))" using that by auto
    then show ?thesis by (simp only: power_Suc mult.left_commute)
  qed
  have nonneg: "0 \<le> rp_backoff_base_ms p * 2 ^ nat (max 0 (n - 2))" using assms(1) by simp
  show ?thesis
    unfolding backoff_delay_ms_def using mono dbl nonneg assms(2) by (auto simp: min_def)
qed

end
