(* ===== verification/Task_Dag.thy ===== *)
theory Task_Dag
  imports Json_Value
begin

text \<open>
  The task graph of \<open>hi_agent/task_decomposition/dag.py\<close>. The node map is an ordered dictionary; the
  set of targets of a node is a list without duplicates, whose order stands for the iteration order
  of the Python set (the theorems hold for every order). The task contract of a node is never read
  and is the type parameter \<open>'c\<close>. Exceptions are left values that come with the graph as the code
  leaves it. The depth-first search takes the recursion depth the interpreter still allows as fuel:
  running out is \<open>RecursionError\<close>. Kahn's loop takes fuel too, which is shown never to run out.
\<close>

section \<open>Data\<close>

datatype node_state = N_pending | N_ready | N_running | N_completed | N_failed | N_rolled_back | N_skipped

record 'c task_node =
  tn_node_id :: string
  tn_task_contract :: 'c
  tn_state :: node_state
  tn_dependencies :: "string list"
  tn_dependents :: "string list"
  tn_result :: "json option"
  tn_failure_reason :: "string option"
  tn_retry_count :: int
  tn_max_retries :: int
  tn_rollback_policy :: string

text \<open>A node as the constructor makes it: pending, without links; the defaults of the last two arguments are 2 and
  \<open>compensate\<close>.\<close>

definition mk_task_node :: "string \<Rightarrow> 'c \<Rightarrow> int \<Rightarrow> string \<Rightarrow> 'c task_node" where
  "mk_task_node node_id task_contract max_retries rollback_policy =
     \<lparr>tn_node_id = node_id, tn_task_contract = task_contract, tn_state = N_pending, tn_dependencies = [],
      tn_dependents = [], tn_result = None, tn_failure_reason = None, tn_retry_count = 0, tn_max_retries = max_retries,
      tn_rollback_policy = rollback_policy\<rparr>"

record 'c task_dag =
  dg_nodes :: "(string \<times> 'c task_node) list"
  dg_edges :: "(string \<times> string list) list"

datatype dag_error =
    NodeExists string
  | SourceMissing string
  | TargetMissing string
  | WouldCycle string string
  | NodeMissing string
  | BadNodeState string node_state
  | ContainsCycle
  | DagKeyError string
  | RecursionError
  | OutOfFuel

definition mk_task_dag :: "'c task_dag" where
  "mk_task_dag = \<lparr>dg_nodes = [], dg_edges = []\<rparr>"

definition node_ids :: "'c task_dag \<Rightarrow> string list" where
  "node_ids d = map fst (dg_nodes d)"

definition succs :: "(string \<times> string list) list \<Rightarrow> string \<Rightarrow> string list" where
  "succs E u = (case map_of E u of None \<Rightarrow> [] | Some ts \<Rightarrow> ts)"

section \<open>Cycle detection\<close>

datatype colour = White | Gray | Black

fun dfs :: "nat \<Rightarrow> (string \<times> string list) list \<Rightarrow> string \<Rightarrow> (string \<rightharpoonup> colour) \<Rightarrow>
    dag_error + bool \<times> (string \<rightharpoonup> colour)"
  and dfs_targets :: "nat \<Rightarrow> (string \<times> string list) list \<Rightarrow> string list \<Rightarrow> string \<Rightarrow> (string \<rightharpoonup> colour) \<Rightarrow>
    dag_error + bool \<times> (string \<rightharpoonup> colour)" where
  "dfs 0 E nid col = Inl RecursionError"
| "dfs (Suc n) E nid col = dfs_targets n E (succs E nid) nid (col(nid \<mapsto> Gray))"
| "dfs_targets n E [] nid col = Inr (False, col(nid \<mapsto> Black))"
| "dfs_targets n E (t # ts) nid col =
     (case col t of
        None \<Rightarrow> Inl (DagKeyError t)
      | Some Gray \<Rightarrow> Inr (True, col)
      | Some White \<Rightarrow>
          (case dfs n E t col of
             Inl e \<Rightarrow> Inl e
           | Inr (found, col') \<Rightarrow> if found then Inr (True, col') else dfs_targets n E ts nid col')
      | Some Black \<Rightarrow> dfs_targets n E ts nid col)"

fun any_cycle :: "nat \<Rightarrow> (string \<times> string list) list \<Rightarrow> string list \<Rightarrow> (string \<rightharpoonup> colour) \<Rightarrow> dag_error + bool" where
  "any_cycle depth E [] col = Inr False"
| "any_cycle depth E (nid # ns) col =
     (case col nid of
        None \<Rightarrow> Inl (DagKeyError nid)
      | Some White \<Rightarrow>
          (case dfs depth E nid col of
             Inl e \<Rightarrow> Inl e
           | Inr (found, col') \<Rightarrow> if found then Inr True else any_cycle depth E ns col')
      | Some _ \<Rightarrow> any_cycle depth E ns col)"

definition has_cycle :: "nat \<Rightarrow> 'c task_dag \<Rightarrow> dag_error + bool" where
  "has_cycle depth d =
     any_cycle depth (dg_edges d) (node_ids d) (\<lambda>n. if n \<in> set (node_ids d) then Some White else None)"

section \<open>Construction\<close>

definition add_node :: "'c task_node \<Rightarrow> 'c task_dag \<Rightarrow> (dag_error + unit) \<times> 'c task_dag" where
  "add_node node d =
     (if map_of (dg_nodes d) (tn_node_id node) \<noteq> None then (Inl (NodeExists (tn_node_id node)), d)
      else (Inr (), d\<lparr>dg_nodes := dict_set (tn_node_id node) node (dg_nodes d),
        dg_edges := (if map_of (dg_edges d) (tn_node_id node) = None
                     then dict_set (tn_node_id node) [] (dg_edges d) else dg_edges d)\<rparr>))"

definition add_target :: "string \<Rightarrow> string list \<Rightarrow> string list" where
  "add_target t ts = (if t \<in> set ts then ts else ts @ [t])"

definition discard_target :: "string \<Rightarrow> string list \<Rightarrow> string list" where
  "discard_target t ts = filter (\<lambda>x. x \<noteq> t) ts"

definition add_edge :: "nat \<Rightarrow> string \<Rightarrow> string \<Rightarrow> 'c task_dag \<Rightarrow> (dag_error + unit) \<times> 'c task_dag" where
  "add_edge depth from_id to_id d =
     (case (map_of (dg_nodes d) from_id, map_of (dg_nodes d) to_id) of
        (None, _) \<Rightarrow> (Inl (SourceMissing from_id), d)
      | (Some _, None) \<Rightarrow> (Inl (TargetMissing to_id), d)
      | (Some src, Some tgt) \<Rightarrow>
          let d1 = d\<lparr>dg_edges := dict_set from_id (add_target to_id (succs (dg_edges d) from_id)) (dg_edges d)\<rparr> in
          (case has_cycle depth d1 of
             Inl e \<Rightarrow> (Inl e, d1)
           | Inr True \<Rightarrow> (Inl (WouldCycle from_id to_id), d1\<lparr>dg_edges := dict_set from_id
               (discard_target to_id (succs (dg_edges d1) from_id)) (dg_edges d1)\<rparr>)
           | Inr False \<Rightarrow>
               let nodes1 = dict_set from_id (src\<lparr>tn_dependents := add_target to_id (tn_dependents src)\<rparr>) (dg_nodes d1);
                   tgt1 = (case map_of nodes1 to_id of Some n \<Rightarrow> n | None \<Rightarrow> tgt);
                   nodes2 = dict_set to_id (tgt1\<lparr>tn_dependencies := add_target from_id (tn_dependencies tgt1)\<rparr>) nodes1
               in (Inr (), d1\<lparr>dg_nodes := nodes2\<rparr>)))"

section \<open>Node states\<close>

definition get_node :: "string \<Rightarrow> 'c task_dag \<Rightarrow> dag_error + 'c task_node" where
  "get_node node_id d = (case map_of (dg_nodes d) node_id of None \<Rightarrow> Inl (NodeMissing node_id) | Some n \<Rightarrow> Inr n)"

fun deps_done :: "'c task_dag \<Rightarrow> string list \<Rightarrow> dag_error + bool" where
  "deps_done d [] = Inr True"
| "deps_done d (dep # deps) =
     (case map_of (dg_nodes d) dep of
        None \<Rightarrow> Inl (DagKeyError dep)
      | Some n \<Rightarrow> if tn_state n = N_completed then deps_done d deps else Inr False)"

fun ready_from :: "'c task_dag \<Rightarrow> 'c task_node list \<Rightarrow> dag_error + 'c task_node list" where
  "ready_from d [] = Inr []"
| "ready_from d (node # rest) =
     (if tn_state node \<noteq> N_pending then ready_from d rest
      else case deps_done d (tn_dependencies node) of
        Inl e \<Rightarrow> Inl e
      | Inr all_deps_done \<Rightarrow>
          (case ready_from d rest of
             Inl e \<Rightarrow> Inl e
           | Inr ready \<Rightarrow> Inr (if all_deps_done then node # ready else ready)))"

definition get_ready_nodes :: "'c task_dag \<Rightarrow> dag_error + 'c task_node list" where
  "get_ready_nodes d = ready_from d (map snd (dg_nodes d))"

definition mark_running :: "string \<Rightarrow> 'c task_dag \<Rightarrow> (dag_error + unit) \<times> 'c task_dag" where
  "mark_running node_id d =
     (case get_node node_id d of
        Inl e \<Rightarrow> (Inl e, d)
      | Inr node \<Rightarrow>
          if tn_state node \<notin> {N_pending, N_ready} then (Inl (BadNodeState node_id (tn_state node)), d)
          else (Inr (), d\<lparr>dg_nodes := dict_set node_id (node\<lparr>tn_state := N_running\<rparr>) (dg_nodes d)\<rparr>))"

definition mark_completed :: "string \<Rightarrow> json option \<Rightarrow> 'c task_dag \<Rightarrow> (dag_error + unit) \<times> 'c task_dag" where
  "mark_completed node_id result d =
     (case get_node node_id d of
        Inl e \<Rightarrow> (Inl e, d)
      | Inr node \<Rightarrow>
          if tn_state node \<noteq> N_running then (Inl (BadNodeState node_id (tn_state node)), d)
          else (Inr (), d\<lparr>dg_nodes := dict_set node_id (node\<lparr>tn_state := N_completed, tn_result := result\<rparr>) (dg_nodes d)\<rparr>))"

definition mark_node_failed :: "string \<Rightarrow> string \<Rightarrow> 'c task_dag \<Rightarrow> (dag_error + unit) \<times> 'c task_dag" where
  "mark_node_failed node_id reason d =
     (case get_node node_id d of
        Inl e \<Rightarrow> (Inl e, d)
      | Inr node \<Rightarrow>
          if tn_state node \<noteq> N_running then (Inl (BadNodeState node_id (tn_state node)), d)
          else (Inr (), d\<lparr>dg_nodes := dict_set node_id
            (node\<lparr>tn_state := N_failed, tn_failure_reason := Some reason\<rparr>) (dg_nodes d)\<rparr>))"

definition is_complete :: "'c task_dag \<Rightarrow> bool" where
  "is_complete d = list_all (\<lambda>(k, n). tn_state n \<in> {N_completed, N_skipped}) (dg_nodes d)"

definition is_failed :: "'c task_dag \<Rightarrow> bool" where
  "is_failed d = list_ex (\<lambda>(k, n). tn_state n = N_failed) (dg_nodes d)"

section \<open>Topological order\<close>

text \<open>The in-degrees: the number of edges into each node; a target outside the graph is a \<open>KeyError\<close>.\<close>

definition in_degrees :: "'c task_dag \<Rightarrow> dag_error + (string \<Rightarrow> int)" where
  "in_degrees d =
     (case find (\<lambda>t. t \<notin> set (node_ids d)) (concat (map snd (dg_edges d))) of
        Some t \<Rightarrow> Inl (DagKeyError t)
      | None \<Rightarrow> Inr (\<lambda>t. int (length (filter (\<lambda>x. x = t) (concat (map snd (dg_edges d)))))))"

text \<open>The body of the loop for the targets of one node: each loses one, and joins the queue at zero.\<close>

fun release_targets :: "string list \<Rightarrow> (string \<Rightarrow> int) \<Rightarrow> string list \<Rightarrow> (string \<Rightarrow> int) \<times> string list" where
  "release_targets [] deg queue = (deg, queue)"
| "release_targets (t # ts) deg queue =
     (let deg' = deg(t := deg t - 1) in
      release_targets ts deg' (if deg' t = 0 then queue @ [t] else queue))"

fun kahn :: "nat \<Rightarrow> (string \<times> string list) list \<Rightarrow> (string \<Rightarrow> int) \<Rightarrow> string list \<Rightarrow> string list \<Rightarrow> string list option" where
  "kahn fuel E deg [] result = Some result"
| "kahn 0 E deg (current # queue) result = None"
| "kahn (Suc fuel) E deg (current # queue) result =
     (let (deg', queue') = release_targets (sort (succs E current)) deg queue
      in kahn fuel E deg' (sort queue') (result @ [current]))"

definition topological_sort :: "'c task_dag \<Rightarrow> dag_error + string list" where
  "topological_sort d =
     (case in_degrees d of
        Inl e \<Rightarrow> Inl e
      | Inr deg \<Rightarrow>
          (case kahn (Suc (length (dg_nodes d))) (dg_edges d) deg
                  (sort (filter (\<lambda>n. deg n = 0) (node_ids d))) [] of
             None \<Rightarrow> Inl OutOfFuel
           | Some result \<Rightarrow> if length result \<noteq> length (dg_nodes d) then Inl ContainsCycle else Inr result))"

end
