(* ===== verification/Task_Dag_Theorems.thy ===== *)
theory Task_Dag_Theorems
  imports Task_Dag
begin

text \<open>
  Correctness of the task graph: the depth-first search decides the existence of a cycle, edges never
  make one, and the topological sort is an order of all nodes along the edges.
\<close>

section \<open>The edge relation\<close>

definition edge :: "(string \<times> string list) list \<Rightarrow> string \<Rightarrow> string \<Rightarrow> bool" where
  "edge E u v = (v \<in> set (succs E u))"

definition cyclic :: "(string \<times> string list) list \<Rightarrow> bool" where
  "cyclic E = (\<exists>v. (edge E)\<^sup>+\<^sup>+ v v)"

definition dag_wf :: "'c task_dag \<Rightarrow> bool" where
  "dag_wf d = (distinct (node_ids d) \<and> map fst (dg_edges d) = node_ids d \<and>
     (\<forall>u v. edge (dg_edges d) u v \<longrightarrow> v \<in> set (node_ids d)) \<and> (\<forall>u. distinct (succs (dg_edges d) u)))"

lemma edge_source: "edge E u v \<Longrightarrow> u \<in> fst ` set E"
  by (cases "map_of E u") (auto simp: edge_def succs_def dest!: map_of_SomeD intro: rev_image_eqI)

section \<open>The search\<close>

definition painted :: "colour \<Rightarrow> (string \<rightharpoonup> colour) \<Rightarrow> string set" where
  "painted c col = {v. col v = Some c}"

text \<open>Finished nodes are closed under edges and on no cycle.\<close>

definition search_inv :: "(string \<times> string list) list \<Rightarrow> (string \<rightharpoonup> colour) \<Rightarrow> bool" where
  "search_inv E col = ((\<forall>v\<in>painted Black col. \<forall>t. edge E v t \<longrightarrow> t \<in> painted Black col) \<and>
     (\<forall>v\<in>painted Black col. \<not> (edge E)\<^sup>+\<^sup>+ v v))"

definition targets_known :: "(string \<times> string list) list \<Rightarrow> (string \<rightharpoonup> colour) \<Rightarrow> bool" where
  "targets_known E col = (finite (dom col) \<and> (\<forall>u v. edge E u v \<longrightarrow> v \<in> dom col))"

lemma painted_upd: "painted c (col(v \<mapsto> c')) = (if c = c' then insert v (painted c col) else painted c col - {v})"
  by (auto simp: painted_def)

lemma finite_painted: "targets_known E col \<Longrightarrow> finite (painted c col)"
  by (rule finite_subset [of _ "dom col"]) (auto simp: targets_known_def painted_def)

lemma closed_reach:
  assumes "\<forall>v\<in>B. \<forall>t. edge E v t \<longrightarrow> t \<in> B" "(edge E)\<^sup>*\<^sup>* u v" "u \<in> B"
  shows "v \<in> B"
  using assms(2,3) by (induction rule: rtranclp_induct) (use assms(1) in blast)+

text \<open>A node whose targets are all finished can be finished.\<close>

lemma finish_node:
  assumes inv: "search_inv E col" and gray: "col nid = Some Gray" and succ: "\<forall>t. edge E nid t \<longrightarrow> t \<in> painted Black col"
  shows "search_inv E (col(nid \<mapsto> Black))"
proof -
  let ?B = "painted Black col"
  have notin: "nid \<notin> ?B" using gray by (simp add: painted_def)
  have closed: "\<forall>v\<in>?B. \<forall>t. edge E v t \<longrightarrow> t \<in> ?B" using inv by (simp add: search_inv_def)
  have "\<not> (edge E)\<^sup>+\<^sup>+ nid nid"
  proof
    assume "(edge E)\<^sup>+\<^sup>+ nid nid"
    then obtain t where "edge E nid t" "(edge E)\<^sup>*\<^sup>* t nid" by (blast dest: tranclpD)
    with closed_reach [OF closed] succ notin show False by blast
  qed
  with inv succ show ?thesis by (auto simp: search_inv_def painted_upd)
qed

definition found_or :: "(string \<times> string list) list \<Rightarrow> dag_error + bool \<times> (string \<rightharpoonup> colour) \<Rightarrow>
    ((string \<rightharpoonup> colour) \<Rightarrow> bool) \<Rightarrow> bool" where
  "found_or E res post = (case res of Inl _ \<Rightarrow> False | Inr (True, _) \<Rightarrow> cyclic E | Inr (False, col') \<Rightarrow> post col')"

definition finished_from :: "(string \<times> string list) list \<Rightarrow> string \<Rightarrow> (string \<rightharpoonup> colour) \<Rightarrow> string set \<Rightarrow> (string \<rightharpoonup> colour) \<Rightarrow> bool" where
  "finished_from E nid col grays col' = (search_inv E col' \<and> dom col' = dom col \<and> painted Gray col' = grays \<and>
     painted Black col \<subseteq> painted Black col' \<and> nid \<in> painted Black col' \<and> painted White col' \<subseteq> painted White col)"

lemma dfs_correct:
  "search_inv E col \<Longrightarrow> col nid = Some White \<Longrightarrow> \<forall>g\<in>painted Gray col. (edge E)\<^sup>*\<^sup>* g nid \<Longrightarrow>
   targets_known E col \<Longrightarrow> card (painted White col) \<le> n \<Longrightarrow>
   found_or E (dfs n E nid col) (finished_from E nid col (painted Gray col))"
  and dfs_targets_correct:
  "search_inv E col \<Longrightarrow> col nid = Some Gray \<Longrightarrow> \<forall>g\<in>painted Gray col. (edge E)\<^sup>*\<^sup>* g nid \<Longrightarrow>
   targets_known E col \<Longrightarrow> card (painted White col) \<le> n \<Longrightarrow> \<forall>t\<in>set ts. edge E nid t \<Longrightarrow>
   \<forall>t. edge E nid t \<longrightarrow> t \<in> set ts \<or> t \<in> painted Black col \<Longrightarrow>
   found_or E (dfs_targets n E ts nid col) (finished_from E nid col (painted Gray col - {nid}))"
proof (induction n E nid col and n E ts nid col rule: dfs_dfs_targets.induct)
  case (1 E nid col)
  then have "painted White col = {}" using finite_painted [of E col White] by simp
  with 1(2) show ?case by (auto simp: painted_def)
next
  case (2 n E nid col)
  let ?c = "col(nid \<mapsto> Gray)"
  have inv: "search_inv E ?c" using 2(2,3) by (auto simp: search_inv_def painted_def)
  have white: "painted White ?c = painted White col - {nid}" "nid \<in> painted White col"
    using 2(3) by (auto simp: painted_def)
  have card: "card (painted White ?c) \<le> n"
    using 2(6) white finite_painted [OF 2(5), of White] by (simp add: card_Diff_singleton)
  have known: "targets_known E ?c" using 2(5) 2(3) by (auto simp: targets_known_def)
  have gray: "painted Gray ?c - {nid} = painted Gray col" using 2(3) by (auto simp: painted_def)
  have reach: "\<forall>g\<in>painted Gray ?c. (edge E)\<^sup>*\<^sup>* g nid" using 2(4) by (simp add: painted_upd)
  have "found_or E (dfs_targets n E (succs E nid) nid ?c) (finished_from E nid ?c (painted Gray ?c - {nid}))"
    by (rule 2(1) [OF inv _ reach known card]) (simp_all add: edge_def)
  then have "found_or E (dfs_targets n E (succs E nid) nid ?c) (finished_from E nid ?c (painted Gray col))"
    unfolding gray .
  moreover have "finished_from E nid ?c (painted Gray col) col' \<Longrightarrow> finished_from E nid col (painted Gray col) col'" for col'
    using 2(3) white by (auto simp: finished_from_def painted_upd)
  ultimately show ?case by (auto simp: found_or_def split: sum.splits prod.splits bool.splits)
next
  case (3 n E nid col)
  then have "search_inv E (col(nid \<mapsto> Black))" by (intro finish_node) auto
  with 3 show ?case by (auto simp: found_or_def finished_from_def painted_upd)
next
  case (4 n E t ts nid col)
  note prems = "4.prems"
  have et: "edge E nid t" using prems(6) by simp
  then obtain c where c: "col t = Some c" using prems(4) by (auto simp: targets_known_def)
  show ?case
  proof (cases c)
    case Gray
    then have "(edge E)\<^sup>*\<^sup>* t nid" using prems(3) c by (simp add: painted_def)
    then have "(edge E)\<^sup>+\<^sup>+ t t" using et by (rule rtranclp_into_tranclp1)
    then show ?thesis using c Gray by (auto simp: found_or_def cyclic_def)
  next
    case Black
    with c have "t \<in> painted Black col" by (simp add: painted_def)
    then have rest: "\<forall>t'. edge E nid t' \<longrightarrow> t' \<in> set ts \<or> t' \<in> painted Black col" using prems(7) by auto
    have "found_or E (dfs_targets n E ts nid col) (finished_from E nid col (painted Gray col - {nid}))"
      by (rule "4.IH"(3) [OF c Black prems(1-5) _ rest]) (use prems(6) in simp)
    with c Black show ?thesis by simp
  next
    case White
    have reach: "\<forall>g\<in>painted Gray col. (edge E)\<^sup>*\<^sup>* g t"
      using prems(3) et by (blast intro: rtranclp.rtrancl_into_rtrancl)
    have sub: "found_or E (dfs n E t col) (finished_from E t col (painted Gray col))"
      by (rule "4.IH"(1) [OF c White prems(1) _ reach prems(4,5)]) (simp add: c White)
    show ?thesis
    proof (cases "dfs n E t col")
      case (Inl e)
      with sub show ?thesis by (simp add: found_or_def)
    next
      case (Inr res)
      obtain b col' where res: "res = (b, col')" by (cases res)
      show ?thesis
      proof (cases b)
        case True
        with sub Inr res c White show ?thesis by (simp add: found_or_def)
      next
        case False
        with sub Inr res have fin: "finished_from E t col (painted Gray col) col'" by (simp add: found_or_def)
        have gray': "col' nid = Some Gray" using fin prems(2) by (auto simp: finished_from_def painted_def)
        have card': "card (painted White col') \<le> n"
          using card_mono [OF finite_painted [OF prems(4), of White], of "painted White col'"] fin prems(5)
          by (simp add: finished_from_def)
        have inv': "search_inv E col'" "targets_known E col'" "painted Gray col' = painted Gray col"
          using fin prems(4) by (simp_all add: finished_from_def targets_known_def)
        have rest: "\<forall>t'. edge E nid t' \<longrightarrow> t' \<in> set ts \<or> t' \<in> painted Black col'"
          using fin prems(7) by (auto simp: finished_from_def)
        have "found_or E (dfs_targets n E ts nid col') (finished_from E nid col' (painted Gray col' - {nid}))"
          by (rule "4.IH"(2) [OF c White Inr res [symmetric] False inv'(1) gray' _ inv'(2) card' _ rest])
            (use prems(3,6) inv'(3) in auto)
        moreover have "finished_from E nid col (painted Gray col - {nid}) col''"
          if "finished_from E nid col' (painted Gray col' - {nid}) col''" for col''
          using that fin by (auto simp: finished_from_def)
        ultimately show ?thesis
          using c White Inr res False by (auto simp: found_or_def split: sum.splits prod.splits bool.splits)
      qed
    qed
  qed
qed

text \<open>The outer loop: between searches nothing is gray, and the nodes behind are finished.\<close>

lemma any_cycle_correct:
  assumes "search_inv E col" "painted Gray col = {}" "targets_known E col" "card (dom col) \<le> depth"
    "set ns \<subseteq> dom col" "\<forall>v\<in>dom col. v \<in> set ns \<or> v \<in> painted Black col" "\<forall>u v. edge E u v \<longrightarrow> u \<in> dom col"
  shows "any_cycle depth E ns col = Inr (cyclic E)"
  using assms
proof (induction ns arbitrary: col)
  case Nil
  have "\<not> (edge E)\<^sup>+\<^sup>+ v v" for v
  proof
    assume cyc: "(edge E)\<^sup>+\<^sup>+ v v"
    then obtain t where "edge E v t" by (blast dest: tranclpD)
    then have "v \<in> dom col" using Nil.prems(7) by blast
    then have "v \<in> painted Black col" using Nil.prems(6) by simp
    with Nil.prems(1) cyc show False by (auto simp: search_inv_def)
  qed
  then show ?case by (simp add: cyclic_def)
next
  case (Cons nid ns)
  obtain c where c: "col nid = Some c" using Cons.prems(5) by auto
  show ?case
  proof (cases c)
    case Gray
    with c Cons.prems(2) show ?thesis by (auto simp: painted_def)
  next
    case Black
    have "any_cycle depth E ns col = Inr (cyclic E)"
      by (rule Cons.IH [OF Cons.prems(1-4)]) (use Cons.prems(5-7) c Black in \<open>auto simp: painted_def\<close>)
    with c Black show ?thesis by simp
  next
    case White
    have "card (painted White col) \<le> depth"
      using card_mono [of "dom col" "painted White col"] Cons.prems(3,4)
      by (force simp: targets_known_def painted_def subset_iff)
    then have sub: "found_or E (dfs depth E nid col) (finished_from E nid col {})"
      using dfs_correct [OF Cons.prems(1) _ _ Cons.prems(3), of nid depth] c White Cons.prems(2) by simp
    then obtain b col' where res: "dfs depth E nid col = Inr (b, col')"
      by (cases "dfs depth E nid col") (auto simp: found_or_def)
    show ?thesis
    proof (cases b)
      case True
      with sub res c White show ?thesis by (simp add: found_or_def)
    next
      case False
      with sub res have fin: "finished_from E nid col {} col'" by (simp add: found_or_def)
      have "any_cycle depth E ns col' = Inr (cyclic E)"
        by (rule Cons.IH)
          (use fin Cons.prems in \<open>auto simp: finished_from_def targets_known_def\<close>)
      with res False c White show ?thesis by simp
    qed
  qed
qed

lemma has_cycle_iff:
  assumes "dag_wf d" "length (dg_nodes d) \<le> depth"
  shows "has_cycle depth d = Inr (cyclic (dg_edges d))"
proof -
  let ?col = "\<lambda>n. if n \<in> set (node_ids d) then Some White else None"
  have dom: "dom ?col = set (node_ids d)" by (auto split: if_splits)
  have src: "u \<in> set (node_ids d)" if "edge (dg_edges d) u v" for u v
    using edge_source [OF that] assms(1) by (metis dag_wf_def list.set_map)
  have card: "card (set (node_ids d)) \<le> depth"
    using card_length [of "node_ids d"] assms(2) by (simp add: node_ids_def)
  have paint: "painted Black ?col = {}" "painted Gray ?col = {}" by (auto simp: painted_def)
  show ?thesis
    unfolding has_cycle_def
  proof (rule any_cycle_correct)
    show "search_inv (dg_edges d) ?col" by (simp add: search_inv_def paint)
    show "targets_known (dg_edges d) ?col" unfolding targets_known_def dom using assms(1) by (simp add: dag_wf_def)
  qed (use src card in \<open>simp_all only: dom paint subset_refl\<close>, auto)
qed

section \<open>Kahn's algorithm\<close>

text \<open>Every predecessor of an element stands before it.\<close>

definition ordered :: "(string \<times> string list) list \<Rightarrow> string list \<Rightarrow> bool" where
  "ordered E xs = (\<forall>i<length xs. \<forall>u. edge E u (xs ! i) \<longrightarrow> u \<in> set (take i xs))"

lemma ordered_snoc: "ordered E (xs @ [x]) \<longleftrightarrow> ordered E xs \<and> (\<forall>u. edge E u x \<longrightarrow> u \<in> set xs)"
  by (auto simp: ordered_def nth_append less_Suc_eq)

lemma ordered_reach: "(edge E)\<^sup>+\<^sup>+ u v \<Longrightarrow> ordered E xs \<Longrightarrow> i < length xs \<Longrightarrow> v = xs ! i \<Longrightarrow> u \<in> set (take i xs)"
proof (induction rule: converse_tranclp_induct)
  case (step u w)
  then obtain j where j: "j < i" "j < length xs" "w = xs ! j" by (auto simp: in_set_conv_nth)
  with step.hyps(1) step.prems(1) have "u \<in> set (take j xs)" by (auto simp: ordered_def)
  then show ?case using j(1) set_take_subset_set_take [of j i xs] by auto
qed (auto simp: ordered_def)

lemma ordered_acyclic:
  assumes "ordered E xs" "distinct xs" "v \<in> set xs"
  shows "\<not> (edge E)\<^sup>+\<^sup>+ v v"
proof
  assume cyc: "(edge E)\<^sup>+\<^sup>+ v v"
  obtain i where i: "i < length xs" "v = xs ! i" using assms(3) by (auto simp: in_set_conv_nth)
  from ordered_reach [OF cyc assms(1) i] obtain j where "j < i" "v = xs ! j" by (auto simp: in_set_conv_nth)
  with i assms(2) show False by (auto simp: nth_eq_iff_index_eq)
qed

lemma no_source_cyclic:
  assumes "finite S" "S \<noteq> {}" "\<forall>t\<in>S. \<exists>u\<in>S. edge E u t"
  shows "cyclic E"
proof (rule ccontr)
  assume acyc: "\<not> cyclic E"
  let ?R = "{(u, t). u \<in> S \<and> t \<in> S \<and> edge E u t}"
  have "(u, t) \<in> ?R\<^sup>+ \<Longrightarrow> (edge E)\<^sup>+\<^sup>+ u t" for u t
    by (induction rule: trancl_induct) (auto intro: tranclp.trancl_into_trancl)
  then have "acyclic ?R" using acyc by (auto simp: acyclic_def cyclic_def)
  moreover have "finite ?R" by (rule finite_subset [of _ "S \<times> S"]) (use assms(1) in auto)
  ultimately have "wf ?R" by (simp add: finite_acyclic_wf)
  then obtain t where "t \<in> S" "\<forall>u. (u, t) \<in> ?R \<longrightarrow> u \<notin> S" using assms(2) by (meson wfE_min ex_in_conv)
  with assms(3) show False by blast
qed

lemma release_targets_eq:
  "distinct ts \<Longrightarrow> release_targets ts deg queue =
     (\<lambda>t. if t \<in> set ts then deg t - 1 else deg t, queue @ filter (\<lambda>t. deg t = 1) ts)"
proof (induction ts arbitrary: deg queue)
  case (Cons t ts)
  then have "filter (\<lambda>x. (deg(t := deg t - 1)) x = 1) ts = filter (\<lambda>x. deg x = 1) ts"
    by (intro filter_cong) auto
  with Cons show ?case by (auto simp: Let_def fun_eq_iff)
qed simp

lemma filter_eq_distinct: "distinct ts \<Longrightarrow> length (filter (\<lambda>x. x = t) ts) = (if t \<in> set ts then 1 else 0)"
  by (induction ts) (auto simp: filter_empty_conv)

lemma edge_Cons: "edge ((k, ts) # E) u t = (if u = k then t \<in> set ts else edge E u t)"
  by (auto simp: edge_def succs_def)

lemma count_in_edges:
  "distinct (map fst E) \<Longrightarrow> \<forall>ts\<in>snd ` set E. distinct ts \<Longrightarrow>
   finite {u. edge E u t} \<and> length (filter (\<lambda>x. x = t) (concat (map snd E))) = card {u. edge E u t}"
proof (induction E)
  case Nil
  then show ?case by (simp add: edge_def succs_def)
next
  case (Cons e E)
  obtain k ts where e: "e = (k, ts)" by (cases e)
  have IH: "finite {u. edge E u t}" "length (filter (\<lambda>x. x = t) (concat (map snd E))) = card {u. edge E u t}"
    using Cons by auto
  have nk: "k \<notin> {u. edge E u t}" using Cons.prems(1) edge_source [of E k t] by (auto simp: e)
  have "length (filter (\<lambda>x. x = t) ts) = (if t \<in> set ts then 1 else 0)"
    using Cons.prems(2) by (simp add: e filter_eq_distinct)
  moreover have "{u. edge (e # E) u t} = (if t \<in> set ts then insert k {u. edge E u t} else {u. edge E u t})"
    using nk by (auto simp: e edge_Cons)
  ultimately show ?case using IH nk by (simp add: e)
qed

definition kahn_inv ::
  "(string \<times> string list) list \<Rightarrow> string set \<Rightarrow> (string \<Rightarrow> int) \<Rightarrow> string list \<Rightarrow> string list \<Rightarrow> bool" where
  "kahn_inv E N deg queue result = (distinct queue \<and> distinct result \<and> set result \<subseteq> N \<and> ordered E result \<and>
     (\<forall>t. deg t = int (card {u. edge E u t \<and> u \<notin> set result})) \<and>
     set queue = {t \<in> N. t \<notin> set result \<and> deg t = 0})"

lemma kahn_step:
  assumes inv: "kahn_inv E N deg (c # queue) result" and fin: "\<And>t. finite {u. edge E u t}"
    and targets: "\<And>u v. edge E u v \<Longrightarrow> v \<in> N" and dist: "\<And>u. distinct (succs E u)"
    and rel: "release_targets (sort (succs E c)) deg queue = (deg', queue')"
  shows "kahn_inv E N deg' (sort queue') (result @ [c])"
proof -
  have c: "c \<in> N" "c \<notin> set result" "deg c = 0" "c \<notin> set queue"
    using inv by (auto simp: kahn_inv_def)
  have degs: "deg t = int (card {u. edge E u t \<and> u \<notin> set result})" for t using inv by (simp add: kahn_inv_def)
  have fin': "finite {u. edge E u t \<and> u \<notin> set result}" for t using fin [of t] by (rule rev_finite_subset) auto
  have preds: "u \<in> set result" if "edge E u t" "deg t = 0" for u t
    using degs [of t] that fin' [of t] by auto
  have earlier: "u \<in> set result" if e: "edge E u t" and t: "t \<in> set result" for u t
  proof -
    obtain i where "i < length result" "t = result ! i" using t by (auto simp: in_set_conv_nth)
    then have "u \<in> set (take i result)" using inv e by (simp add: kahn_inv_def ordered_def)
    then show ?thesis by (rule in_set_takeD)
  qed
  have deg': "deg' t = (if edge E c t then deg t - 1 else deg t)" and queue': "queue' = queue @ filter (\<lambda>t. deg t = 1) (sort (succs E c))" for t
    using rel dist [of c] by (auto simp: release_targets_eq edge_def)
  have card: "deg' t = int (card {u. edge E u t \<and> u \<notin> set (result @ [c])})" for t
  proof (cases "edge E c t")
    case True
    have "{u. edge E u t \<and> u \<notin> set (result @ [c])} = {u. edge E u t \<and> u \<notin> set result} - {c}" by auto
    moreover have mem: "c \<in> {u. edge E u t \<and> u \<notin> set result}" using True c by simp
    moreover have "0 < card {u. edge E u t \<and> u \<notin> set result}" using mem fin' [of t] by (auto simp: card_gt_0_iff)
    ultimately show ?thesis using True degs [of t] deg' [of t] by (simp add: card_Diff_singleton of_nat_diff)
  next
    case False
    then have "{u. edge E u t \<and> u \<notin> set (result @ [c])} = {u. edge E u t \<and> u \<notin> set result}" by auto
    with False degs [of t] deg' [of t] show ?thesis by simp
  qed
  have newq: "t \<in> N \<and> t \<notin> set (result @ [c]) \<and> deg' t = 0" if "edge E c t" "deg t = 1" for t
  proof (intro conjI)
    show "t \<in> N" using targets [OF that(1)] .
    show "t \<notin> set (result @ [c])" using earlier [OF that(1)] c that(2) by auto
    show "deg' t = 0" using that deg' [of t] by simp
  qed
  have oldq: "\<not> edge E c t" if "deg t = 0" for t using preds [of c t] that c by blast
  have q: "set queue = {t \<in> N. t \<notin> set result \<and> deg t = 0} - {c}"
    using inv c(4) by (auto simp: kahn_inv_def)
  have mem: "t \<in> set queue' \<longleftrightarrow> t \<in> set queue \<or> (edge E c t \<and> deg t = 1)" for t
    by (auto simp: queue' edge_def)
  have "set queue' = {t \<in> N. t \<notin> set (result @ [c]) \<and> deg' t = 0}"
  proof (rule set_eqI)
    fix t
    have "t \<in> set queue \<or> (edge E c t \<and> deg t = 1) \<longleftrightarrow> t \<in> N \<and> t \<notin> set (result @ [c]) \<and> deg' t = 0"
      using newq [of t] oldq [of t] deg' [of t] unfolding q by (cases "edge E c t") auto
    then show "t \<in> set queue' \<longleftrightarrow> t \<in> {t \<in> N. t \<notin> set (result @ [c]) \<and> deg' t = 0}" by (simp add: mem)
  qed
  moreover have "distinct queue'"
    using inv oldq dist [of c] unfolding queue' by (auto simp: q kahn_inv_def edge_def [symmetric])
  moreover have "ordered E (result @ [c])" using inv preds c by (auto simp: ordered_snoc kahn_inv_def)
  ultimately show ?thesis using inv c card by (auto simp: kahn_inv_def)
qed

lemma kahn_correct:
  assumes "kahn_inv E N deg queue result" "\<And>t. finite {u. edge E u t}" "\<And>u v. edge E u v \<Longrightarrow> v \<in> N"
    "\<And>u. distinct (succs E u)" "finite N" "card N < fuel + length result"
  shows "\<exists>xs deg'. kahn fuel E deg queue result = Some xs \<and> kahn_inv E N deg' [] xs"
  using assms
proof (induction fuel E deg queue result rule: kahn.induct)
  case (2 E deg c queue result)
  then have "set (c # result) \<subseteq> N" "distinct (c # result)" by (auto simp: kahn_inv_def)
  then have "length (c # result) \<le> card N" using 2(5) by (metis card_mono distinct_card)
  with 2(6) show ?case by simp
next
  case (3 fuel E deg c queue result)
  obtain deg' queue' where rel: "release_targets (sort (succs E c)) deg queue = (deg', queue')" by fastforce
  have "kahn_inv E N deg' (sort queue') (result @ [c])" by (rule kahn_step [OF 3(2-5) rel])
  with "3.IH" [OF rel [symmetric] refl] 3(3-7) rel show ?case by simp
qed auto

lemma wf_lists:
  assumes "dag_wf d" "(u, ts) \<in> set (dg_edges d)"
  shows "succs (dg_edges d) u = ts"
proof -
  have "distinct (map fst (dg_edges d))" using assms(1) by (simp add: dag_wf_def)
  then show ?thesis using assms(2) by (simp add: succs_def)
qed

lemma wf_in_degrees:
  assumes "dag_wf d"
  shows "(\<exists>deg. in_degrees d = Inr deg \<and> (\<forall>t. deg t = int (card {u. edge (dg_edges d) u t}))) \<and>
    finite {u. edge (dg_edges d) u t}"
proof -
  have dist: "distinct (map fst (dg_edges d))" using assms by (simp add: dag_wf_def)
  have lists: "\<forall>ts\<in>snd ` set (dg_edges d). distinct ts"
    using wf_lists [OF assms] assms by (fastforce simp: dag_wf_def)
  have "t \<in> set (node_ids d)" if "t \<in> set (concat (map snd (dg_edges d)))" for t
    using that wf_lists [OF assms] assms by (fastforce simp: dag_wf_def edge_def)
  then have "find (\<lambda>t. t \<notin> set (node_ids d)) (concat (map snd (dg_edges d))) = None"
    by (simp only: find_None_iff) blast
  then show ?thesis using count_in_edges [OF dist lists] by (simp add: in_degrees_def)
qed

text \<open>Facts about the edges of a well-formed graph that the loops share.\<close>

definition edges_in :: "(string \<times> string list) list \<Rightarrow> string set \<Rightarrow> bool" where
  "edges_in E N = (finite N \<and> (\<forall>t. finite {u. edge E u t}) \<and> (\<forall>u v. edge E u v \<longrightarrow> u \<in> N \<and> v \<in> N) \<and> (\<forall>u. distinct (succs E u)))"

lemma wf_edges_in: "dag_wf d \<Longrightarrow> edges_in (dg_edges d) (set (node_ids d))"
  using wf_in_degrees [of d] edge_source [of "dg_edges d"]
  by (auto simp: edges_in_def dag_wf_def) (metis list.set_map)

lemma kahn_inv_preds:
  assumes "edges_in E N" "kahn_inv E N deg queue result" "v \<in> set queue" "edge E u v"
  shows "u \<in> set result"
proof -
  have "finite {u. edge E u v}" using assms(1) unfolding edges_in_def by blast
  then have "finite {u. edge E u v \<and> u \<notin> set result}" by (rule rev_finite_subset) blast
  moreover have "deg v = int (card {u. edge E u v \<and> u \<notin> set result})" "deg v = 0"
    using assms(2,3) unfolding kahn_inv_def by blast+
  then have "card {u. edge E u v \<and> u \<notin> set result} = 0" by linarith
  ultimately have "{u. edge E u v \<and> u \<notin> set result} = {}" by simp
  then show ?thesis using assms(4) by blast
qed

lemma kahn_start:
  assumes "dag_wf d"
  shows "\<exists>deg. in_degrees d = Inr deg \<and>
    kahn_inv (dg_edges d) (set (node_ids d)) deg (sort (filter (\<lambda>n. deg n = 0) (node_ids d))) []"
proof -
  obtain deg where deg: "in_degrees d = Inr deg" "\<And>t. deg t = int (card {u. edge (dg_edges d) u t})"
    using wf_in_degrees [OF assms] by blast
  have "distinct (node_ids d)" using assms by (simp add: dag_wf_def)
  with deg show ?thesis by (auto simp: kahn_inv_def ordered_def)
qed

text \<open>A loop that has emptied its queue has seen every node exactly when there is no cycle.\<close>

lemma kahn_final:
  assumes E: "edges_in E N" and inv: "kahn_inv E N deg [] xs"
  shows "cyclic E \<longleftrightarrow> set xs \<noteq> N"
proof -
  have xs: "distinct xs" "set xs \<subseteq> N" "ordered E xs" "\<And>t. t \<in> N \<Longrightarrow> t \<notin> set xs \<Longrightarrow> deg t \<noteq> 0"
      "\<And>t. deg t = int (card {u. edge E u t \<and> u \<notin> set xs})"
    using inv by (auto simp: kahn_inv_def)
  have src: "u \<in> N" if "edge E u v" for u v using E that unfolding edges_in_def by blast
  show ?thesis
  proof
    assume "cyclic E"
    then show "set xs \<noteq> N" using ordered_acyclic [OF xs(3,1)] src by (metis cyclic_def tranclpD)
  next
    assume "set xs \<noteq> N"
    have "\<exists>u\<in>N - set xs. edge E u t" if "t \<in> N - set xs" for t
      using xs(4,5) [of t] that src by (auto simp: card_gt_0_iff)
    moreover have "finite (N - set xs)" "N - set xs \<noteq> {}"
      using E \<open>set xs \<noteq> N\<close> xs(2) by (auto simp: edges_in_def)
    ultimately show "cyclic E" using no_source_cyclic [of "N - set xs" E] by blast
  qed
qed

lemma topological_sort_cases:
  assumes wf: "dag_wf d"
  shows "(cyclic (dg_edges d) \<and> topological_sort d = Inl ContainsCycle) \<or>
    (\<not> cyclic (dg_edges d) \<and> (\<exists>xs. topological_sort d = Inr xs \<and> distinct xs \<and>
       set xs = set (node_ids d) \<and> ordered (dg_edges d) xs))"
proof -
  let ?E = "dg_edges d" and ?N = "set (node_ids d)"
  obtain deg where deg: "in_degrees d = Inr deg"
    and start: "kahn_inv ?E ?N deg (sort (filter (\<lambda>n. deg n = 0) (node_ids d))) []"
    using kahn_start [OF wf] by blast
  have E: "edges_in ?E ?N" by (rule wf_edges_in [OF wf])
  have card: "card ?N = length (dg_nodes d)"
    using wf distinct_card [of "node_ids d"] by (simp add: dag_wf_def node_ids_def)
  obtain xs deg' where xs: "kahn (Suc (length (dg_nodes d))) ?E deg (sort (filter (\<lambda>n. deg n = 0) (node_ids d))) [] = Some xs"
      "kahn_inv ?E ?N deg' [] xs"
    using kahn_correct [OF start, where fuel = "Suc (length (dg_nodes d))"] E card by (auto simp: edges_in_def)
  have inv: "distinct xs" "set xs \<subseteq> ?N" "ordered ?E xs" using xs(2) by (auto simp: kahn_inv_def)
  have "set xs = ?N \<longleftrightarrow> length xs = length (dg_nodes d)"
    using distinct_card [OF inv(1)] card inv(2) by (metis card_subset_eq finite_set)
  with kahn_final [OF E xs(2)] xs(1) deg inv show ?thesis by (auto simp: topological_sort_def)
qed

section \<open>Construction keeps the graph acyclic\<close>

lemma keys_dict_set_old: "k \<in> set (map fst d) \<Longrightarrow> map fst (dict_set k v d) = map fst d"
  by (induction k v d rule: dict_set.induct) auto

lemma succs_dict_set: "succs (dict_set k ts E) u = (if u = k then ts else succs E u)"
  by (simp add: succs_def)


lemma dag_wf_nodes:
  "dag_wf d \<Longrightarrow> map_of (dg_nodes d) k \<noteq> None \<Longrightarrow> dag_wf (d\<lparr>dg_nodes := dict_set k n (dg_nodes d)\<rparr>)"
  by (simp add: dag_wf_def node_ids_def keys_dict_set_old map_of_eq_None_iff)

definition with_targets :: "string \<Rightarrow> string list \<Rightarrow> 'c task_dag \<Rightarrow> 'c task_dag" where
  "with_targets u ts d = d\<lparr>dg_edges := dict_set u ts (dg_edges d)\<rparr>"

lemma with_targets_wf:
  assumes "dag_wf d" "u \<in> set (node_ids d)" "distinct ts" "set ts \<subseteq> set (node_ids d)"
  shows "dag_wf (with_targets u ts d)"
proof -
  have "u \<in> set (map fst (dg_edges d))" using assms(1,2) by (simp add: dag_wf_def)
  then have "map fst (dict_set u ts (dg_edges d)) = map fst (dg_edges d)" by (rule keys_dict_set_old)
  then have "map fst (dict_set u ts (dg_edges d)) = node_ids d" using assms(1) by (simp add: dag_wf_def)
  with assms show ?thesis
    by (auto simp: dag_wf_def with_targets_def node_ids_def edge_def succs_dict_set)
qed

lemma dag_wf_known: "dag_wf d \<Longrightarrow> map_of (dg_nodes d) k \<noteq> None \<longleftrightarrow> k \<in> set (node_ids d)"
  by (simp add: node_ids_def map_of_eq_None_iff)

definition acyclic_dag :: "'c task_dag \<Rightarrow> bool" where
  "acyclic_dag d = (dag_wf d \<and> \<not> cyclic (dg_edges d))"

lemma add_node_wf:
  assumes "dag_wf d"
  shows "dag_wf (snd (add_node n d)) \<and> edge (dg_edges (snd (add_node n d))) = edge (dg_edges d) \<and>
    length (dg_nodes (snd (add_node n d))) \<le> Suc (length (dg_nodes d))"
proof (cases "map_of (dg_nodes d) (tn_node_id n)")
  case None
  let ?k = "tn_node_id n" and ?d = "snd (add_node n d)"
  have fresh: "?k \<notin> set (map fst (dg_nodes d))" using None by (simp add: map_of_eq_None_iff)
  have keys: "map fst (dg_edges d) = map fst (dg_nodes d)" using assms by (simp add: dag_wf_def node_ids_def)
  then have e: "map_of (dg_edges d) ?k = None" using fresh by (metis map_of_eq_None_iff list.set_map)
  have d: "dg_nodes ?d = dg_nodes d @ [(?k, n)]" "dg_edges ?d = dg_edges d @ [(?k, [])]"
    using None e fresh keys by (simp_all add: add_node_def dict_set_fresh)
  have "succs (dg_edges ?d) u = succs (dg_edges d) u" for u
    by (simp add: d succs_def map_add_def split: option.splits)
  then have rel: "edge (dg_edges ?d) = edge (dg_edges d)" "\<And>u. distinct (succs (dg_edges ?d) u)"
    using assms by (auto simp: edge_def fun_eq_iff dag_wf_def)
  from assms rel fresh show ?thesis
    by (auto simp: dag_wf_def d(1) node_ids_def keys) (simp_all add: d(2) keys)
qed (use assms in \<open>simp add: add_node_def\<close>)

text \<open>The dependency bookkeeping of an accepted edge.\<close>

definition link_nodes :: "string \<Rightarrow> string \<Rightarrow> 'c task_node \<Rightarrow> 'c task_node \<Rightarrow> (string \<times> 'c task_node) list \<Rightarrow> (string \<times> 'c task_node) list" where
  "link_nodes u v src tgt nodes =
     (let nodes1 = dict_set u (src\<lparr>tn_dependents := add_target v (tn_dependents src)\<rparr>) nodes;
          tgt1 = (case map_of nodes1 v of Some n \<Rightarrow> n | None \<Rightarrow> tgt)
      in dict_set v (tgt1\<lparr>tn_dependencies := add_target u (tn_dependencies tgt1)\<rparr>) nodes1)"

lemma add_edge_result:
  assumes "map_of (dg_nodes d) u = Some src" "map_of (dg_nodes d) v = Some tgt"
  shows "snd (add_edge depth u v d) \<in>
    {with_targets u (add_target v (succs (dg_edges d) u)) d,
     with_targets u (discard_target v (add_target v (succs (dg_edges d) u))) (with_targets u (add_target v (succs (dg_edges d) u)) d),
     (with_targets u (add_target v (succs (dg_edges d) u)) d)\<lparr>dg_nodes := link_nodes u v src tgt (dg_nodes d)\<rparr>}"
  using assms by (simp add: add_edge_def with_targets_def Let_def link_nodes_def succs_dict_set split: sum.split bool.split)

lemma link_nodes_keys:
  "map_of nodes u = Some src \<Longrightarrow> map_of nodes v = Some tgt \<Longrightarrow> map fst (link_nodes u v src tgt nodes) = map fst nodes"
  unfolding link_nodes_def Let_def
  by (metis keys_dict_set_old map_of_eq_None_iff option.distinct(1) list.set_map)

lemma add_edge_wf:
  assumes wf: "dag_wf d"
  shows "dag_wf (snd (add_edge depth u v d)) \<and> node_ids (snd (add_edge depth u v d)) = node_ids d"
proof (cases "map_of (dg_nodes d) u \<noteq> None \<and> map_of (dg_nodes d) v \<noteq> None")
  case False
  then show ?thesis using wf by (auto simp: add_edge_def split: option.splits)
next
  case True
  then obtain src tgt where n: "map_of (dg_nodes d) u = Some src" "map_of (dg_nodes d) v = Some tgt" by blast
  have mem: "u \<in> set (node_ids d)" "v \<in> set (node_ids d)" using True dag_wf_known [OF wf] by auto
  let ?ts = "add_target v (succs (dg_edges d) u)"
  let ?d1 = "with_targets u ?ts d"
  have ts: "distinct ?ts" "set ?ts \<subseteq> set (node_ids d)"
    using wf mem by (auto simp: add_target_def dag_wf_def edge_def)
  have ids: "node_ids (with_targets u xs e) = node_ids e" for xs and e :: "'a task_dag"
    by (simp add: with_targets_def node_ids_def)
  have wf1: "dag_wf ?d1" by (rule with_targets_wf [OF wf mem(1) ts])
  have wf2: "dag_wf (with_targets u (discard_target v ?ts) ?d1)"
    by (rule with_targets_wf [OF wf1]) (use ts mem in \<open>auto simp: discard_target_def ids\<close>)
  have keys: "map fst (link_nodes u v src tgt (dg_nodes d)) = node_ids d"
    using link_nodes_keys [OF n] by (simp add: node_ids_def)
  then have wf3: "dag_wf (?d1\<lparr>dg_nodes := link_nodes u v src tgt (dg_nodes d)\<rparr>)"
    using wf1 by (simp add: dag_wf_def node_ids_def with_targets_def)
  from add_edge_result [OF n, of depth] wf1 wf2 wf3 keys ids show ?thesis
    by (auto simp: node_ids_def [of "_\<lparr>dg_nodes := _\<rparr>"])
qed

lemma tranclp_insert_edge:
  assumes "(\<lambda>a b. r a b \<or> (a = u \<and> b = v))\<^sup>+\<^sup>+ x y"
  shows "r\<^sup>+\<^sup>+ x y \<or> (r\<^sup>*\<^sup>* x u \<and> r\<^sup>*\<^sup>* v y)"
  using assms
proof (induction rule: tranclp_induct)
  case (base y)
  then show ?case by auto
next
  case (step y z)
  then show ?case
    by (auto intro: tranclp.trancl_into_trancl rtranclp.rtrancl_into_rtrancl dest: tranclp_into_rtranclp)
qed

definition edge_with :: "'c task_dag \<Rightarrow> string \<Rightarrow> string \<Rightarrow> string \<Rightarrow> string \<Rightarrow> bool" where
  "edge_with d u v = (\<lambda>a b. edge (dg_edges d) a b \<or> (a = u \<and> b = v))"

text \<open>With depth for every node, an edge between known nodes is refused exactly when it closes a cycle.\<close>

lemma add_edge_decides:
  assumes wf: "dag_wf d" and acyc: "\<not> cyclic (dg_edges d)" and depth: "length (dg_nodes d) \<le> depth"
    and n: "map_of (dg_nodes d) u = Some src" "map_of (dg_nodes d) v = Some tgt"
  shows "if \<exists>w. (edge_with d u v)\<^sup>+\<^sup>+ w w
    then fst (add_edge depth u v d) = Inl (WouldCycle u v) \<and> edge (dg_edges (snd (add_edge depth u v d))) = edge (dg_edges d) \<and>
      dg_nodes (snd (add_edge depth u v d)) = dg_nodes d
    else fst (add_edge depth u v d) = Inr () \<and> edge (dg_edges (snd (add_edge depth u v d))) = edge_with d u v \<and>
      dg_nodes (snd (add_edge depth u v d)) = link_nodes u v src tgt (dg_nodes d)"
proof -
  have mem: "u \<in> set (node_ids d)" "v \<in> set (node_ids d)" using n dag_wf_known [OF wf] by auto
  let ?ts = "add_target v (succs (dg_edges d) u)"
  let ?d1 = "with_targets u ?ts d"
  have wf1: "dag_wf ?d1"
    by (rule with_targets_wf [OF wf mem(1)]) (use wf mem in \<open>auto simp: add_target_def dag_wf_def edge_def\<close>)
  have e1: "edge (dg_edges ?d1) = edge_with d u v"
    by (auto simp: fun_eq_iff edge_def edge_with_def with_targets_def succs_dict_set add_target_def)
  have cyc: "has_cycle depth ?d1 = Inr (cyclic (dg_edges ?d1))"
    by (rule has_cycle_iff [OF wf1]) (simp add: with_targets_def depth)
  show ?thesis
  proof (cases "cyclic (dg_edges ?d1)")
    case True
    have "\<not> edge (dg_edges d) u v"
    proof
      assume "edge (dg_edges d) u v"
      then have "edge (dg_edges ?d1) = edge (dg_edges d)" using e1 by (auto simp: fun_eq_iff edge_with_def)
      with True acyc show False by (simp add: cyclic_def)
    qed
    then have "edge (dict_set u (discard_target v ?ts) (dict_set u ?ts (dg_edges d))) = edge (dg_edges d)"
      by (auto simp: fun_eq_iff edge_def succs_dict_set discard_target_def add_target_def)
    moreover have "\<exists>w. (edge_with d u v)\<^sup>+\<^sup>+ w w" using True e1 by (simp add: cyclic_def)
    ultimately show ?thesis using n cyc True by (simp add: add_edge_def with_targets_def succs_dict_set)
  next
    case False
    then have "\<not> (\<exists>w. (edge_with d u v)\<^sup>+\<^sup>+ w w)" using e1 by (simp add: cyclic_def)
    then show ?thesis using n cyc False e1 by (simp add: add_edge_def with_targets_def Let_def link_nodes_def)
  qed
qed

lemma edge_with_cycle:
  assumes "\<not> cyclic (dg_edges d)"
  shows "(\<exists>w. (edge_with d u v)\<^sup>+\<^sup>+ w w) \<longleftrightarrow> (edge (dg_edges d))\<^sup>*\<^sup>* v u"
proof
  assume "(edge (dg_edges d))\<^sup>*\<^sup>* v u"
  then have "(edge_with d u v)\<^sup>*\<^sup>* v u" by (rule rtranclp_mono [THEN predicate2D, rotated]) (auto simp: edge_with_def)
  moreover have "edge_with d u v u v" by (simp add: edge_with_def)
  ultimately show "\<exists>w. (edge_with d u v)\<^sup>+\<^sup>+ w w" by (blast intro: rtranclp_into_tranclp1)
next
  assume "\<exists>w. (edge_with d u v)\<^sup>+\<^sup>+ w w"
  then obtain w where "(edge_with d u v)\<^sup>+\<^sup>+ w w" by blast
  then have "(edge (dg_edges d))\<^sup>+\<^sup>+ w w \<or> ((edge (dg_edges d))\<^sup>*\<^sup>* w u \<and> (edge (dg_edges d))\<^sup>*\<^sup>* v w)"
    unfolding edge_with_def by (rule tranclp_insert_edge)
  with assms show "(edge (dg_edges d))\<^sup>*\<^sup>* v u" by (auto simp: cyclic_def)
qed

section \<open>Sequences of operations\<close>

datatype 'c dag_op =
    AddNode string 'c int string
  | AddEdge string string
  | MarkRunning string
  | MarkCompleted string "json option"
  | MarkNodeFailed string string

fun dag_exec :: "nat \<Rightarrow> 'c dag_op \<Rightarrow> 'c task_dag \<Rightarrow> 'c task_dag" where
  "dag_exec depth (AddNode k c retries policy) d = snd (add_node (mk_task_node k c retries policy) d)"
| "dag_exec depth (AddEdge u v) d = snd (add_edge depth u v d)"
| "dag_exec depth (MarkRunning k) d = snd (mark_running k d)"
| "dag_exec depth (MarkCompleted k r) d = snd (mark_completed k r d)"
| "dag_exec depth (MarkNodeFailed k r) d = snd (mark_node_failed k r d)"

definition dag_after :: "nat \<Rightarrow> 'c dag_op list \<Rightarrow> 'c task_dag" where
  "dag_after depth ops = fold (dag_exec depth) ops mk_task_dag"

text \<open>The three operations on states replace one existing node by one with the same links.\<close>

definition same_links :: "'c task_node \<Rightarrow> 'c task_node \<Rightarrow> bool" where
  "same_links n m = (tn_node_id m = tn_node_id n \<and> tn_rollback_policy m = tn_rollback_policy n \<and> tn_dependencies m = tn_dependencies n \<and> tn_dependents m = tn_dependents n)"

definition relabels :: "'c task_dag \<Rightarrow> 'c task_dag \<Rightarrow> bool" where
  "relabels d d' = (d' = d \<or> (\<exists>k n m. map_of (dg_nodes d) k = Some n \<and> same_links n m \<and>
     d' = d\<lparr>dg_nodes := dict_set k m (dg_nodes d)\<rparr>))"

lemma relabelsI: "map_of (dg_nodes d) k = Some n \<Longrightarrow> same_links n m \<Longrightarrow> relabels d (d\<lparr>dg_nodes := dict_set k m (dg_nodes d)\<rparr>)"
  unfolding relabels_def by blast

lemma relabels_refl [simp]: "relabels d d"
  by (simp add: relabels_def)

lemma marks_relabel:
  "relabels d (snd (mark_running k d))" "relabels d (snd (mark_completed k r d))" "relabels d (snd (mark_node_failed k s d))"
  by (auto simp: same_links_def mark_running_def mark_completed_def mark_node_failed_def get_node_def
      intro!: relabelsI split: option.splits sum.splits)

lemma relabels_wf:
  assumes "relabels d d'" "dag_wf d"
  shows "dag_wf d' \<and> dg_edges d' = dg_edges d \<and> node_ids d' = node_ids d"
proof (cases "d' = d")
  case False
  then obtain k n m where k: "map_of (dg_nodes d) k = Some n" "d' = d\<lparr>dg_nodes := dict_set k m (dg_nodes d)\<rparr>"
    using assms(1) by (auto simp: relabels_def)
  have "k \<in> set (map fst (dg_nodes d))" using k(1) by (metis map_of_eq_None_iff option.distinct(1) list.set_map)
  then show ?thesis using k dag_wf_nodes [OF assms(2), of k m] by (simp add: node_ids_def keys_dict_set_old)
qed (use assms in simp)

text \<open>The dependency lists of the nodes mirror the edges.\<close>

definition linked :: "'c task_dag \<Rightarrow> bool" where
  "linked d = ((\<forall>k n. map_of (dg_nodes d) k = Some n \<longrightarrow> tn_node_id n = k \<and>
     (\<forall>u. u \<in> set (tn_dependencies n) \<longleftrightarrow> edge (dg_edges d) u k)))"

lemma relabels_linked: "relabels d d' \<Longrightarrow> linked d \<Longrightarrow> linked d'"
  by (auto simp: relabels_def linked_def same_links_def split: if_splits)

lemma add_node_linked:
  assumes "dag_wf d" "linked d"
  shows "linked (snd (add_node (mk_task_node k c retries policy) d))"
proof (cases "map_of (dg_nodes d) k")
  case None
  have "k \<notin> set (node_ids d)" using None by (simp add: node_ids_def map_of_eq_None_iff)
  then have no: "\<not> edge (dg_edges d) u k" for u using assms(1) by (auto simp: dag_wf_def)
  have "dg_nodes (snd (add_node (mk_task_node k c retries policy) d)) = dict_set k (mk_task_node k c retries policy) (dg_nodes d)"
    using None by (simp add: add_node_def mk_task_node_def)
  with assms(2) no show ?thesis using add_node_wf [OF assms(1), of "mk_task_node k c retries policy"]
    by (auto simp: linked_def mk_task_node_def split: if_splits)
qed (use assms in \<open>simp add: add_node_def mk_task_node_def\<close>)




lemma link_nodes_lookup:
  assumes "map_of nodes u = Some src" "map_of nodes v = Some tgt" "u \<noteq> v"
  shows "map_of (link_nodes u v src tgt nodes) k =
    (if k = v then Some (tgt\<lparr>tn_dependencies := add_target u (tn_dependencies tgt)\<rparr>)
     else if k = u then Some (src\<lparr>tn_dependents := add_target v (tn_dependents src)\<rparr>) else map_of nodes k)"
  using assms by (simp add: link_nodes_def Let_def)

text \<open>What every reachable graph satisfies: with depth for every node, no cycle and exact dependency lists.\<close>

definition dag_ok :: "'c task_dag \<Rightarrow> bool" where
  "dag_ok d = (acyclic_dag d \<and> linked d)"

lemma add_edge_ok:
  assumes ok: "dag_ok d" and depth: "length (dg_nodes d) \<le> depth"
  shows "dag_ok (snd (add_edge depth u v d))"
proof (cases "map_of (dg_nodes d) u \<noteq> None \<and> map_of (dg_nodes d) v \<noteq> None")
  case False
  then show ?thesis using ok by (auto simp: add_edge_def split: option.splits)
next
  case True
  then obtain src tgt where n: "map_of (dg_nodes d) u = Some src" "map_of (dg_nodes d) v = Some tgt" by blast
  have wf: "dag_wf d" and acyc: "\<not> cyclic (dg_edges d)" and link: "linked d"
    using ok by (auto simp: dag_ok_def acyclic_dag_def)
  note dec = add_edge_decides [OF wf acyc depth n]
  show ?thesis
  proof (cases "\<exists>w. (edge_with d u v)\<^sup>+\<^sup>+ w w")
    case True
    with dec ok add_edge_wf [OF wf] show ?thesis by (simp add: dag_ok_def acyclic_dag_def cyclic_def linked_def)
  next
    case False
    have "u \<noteq> v"
    proof
      assume "u = v"
      then have "edge_with d u v u u" by (simp add: edge_with_def)
      with False show False by blast
    qed
    with dec False link have "linked (snd (add_edge depth u v d))"
      using n by (auto simp: linked_def link_nodes_lookup edge_with_def add_target_def split: if_splits)
    with dec False add_edge_wf [OF wf] show ?thesis by (simp add: dag_ok_def acyclic_dag_def cyclic_def)
  qed
qed

lemma relabels_ok: "relabels d d' \<Longrightarrow> dag_ok d \<Longrightarrow> dag_ok d' \<and> length (dg_nodes d') = length (dg_nodes d)"
  using relabels_wf [of d d'] relabels_linked [of d d']
  by (auto simp: dag_ok_def acyclic_dag_def node_ids_def dest: map_eq_imp_length_eq)

lemma dag_exec_ok:
  assumes ok: "dag_ok d" and depth: "length (dg_nodes d) \<le> depth"
  shows "dag_ok (dag_exec depth a d) \<and> length (dg_nodes (dag_exec depth a d)) \<le> Suc (length (dg_nodes d))"
proof (cases a)
  case (AddNode k c retries policy)
  then show ?thesis
    using ok add_node_wf [of d "mk_task_node k c retries policy"] add_node_linked [of d k c retries policy]
    by (simp add: dag_ok_def acyclic_dag_def cyclic_def)
next
  case (AddEdge u v)
  have "length (dg_nodes (snd (add_edge depth u v d))) = length (dg_nodes d)"
    using add_edge_wf [of d depth u v] ok
    by (auto simp: dag_ok_def acyclic_dag_def node_ids_def dest: map_eq_imp_length_eq)
  then show ?thesis using AddEdge add_edge_ok [OF ok depth] by simp
qed (use relabels_ok [OF marks_relabel(1) ok] relabels_ok [OF marks_relabel(2) ok] relabels_ok [OF marks_relabel(3) ok] in simp_all)

lemma dag_exec_wf: "dag_wf d \<Longrightarrow> dag_wf (dag_exec depth a d)"
  using add_node_wf [of d] add_edge_wf [of d] relabels_wf [OF marks_relabel(1), of d]
    relabels_wf [OF marks_relabel(2), of d] relabels_wf [OF marks_relabel(3), of d]
  by (cases a) auto

interpretation dag_life: op_system "dag_exec depth" dag_wf for depth
  by unfold_locales (rule dag_exec_wf)

lemma dag_after_wf: "dag_wf (dag_after depth ops)"
proof -
  have "dag_wf (mk_task_dag :: 'a task_dag)"
    by (simp add: mk_task_dag_def dag_wf_def node_ids_def edge_def succs_def)
  then show ?thesis unfolding dag_after_def by (rule dag_life.run_inv)
qed

lemma dag_after_ok:
  assumes "length ops \<le> depth"
  shows "dag_ok (dag_after depth ops) \<and> length (dg_nodes (dag_after depth ops)) \<le> depth"
proof -
  have "dag_ok (fold (dag_exec depth) ops d) \<and> length (dg_nodes (fold (dag_exec depth) ops d)) \<le> depth"
    if "dag_ok d" "length (dg_nodes d) + length ops \<le> depth" for d
    using that
  proof (induction ops arbitrary: d)
    case (Cons a ops)
    have "length (dg_nodes d) \<le> depth" using Cons(3) by simp
    from dag_exec_ok [OF Cons(2) this, of a] Cons(3) show ?case by (simp add: Cons.IH)
  qed simp
  moreover have "dag_ok (mk_task_dag :: 'a task_dag)"
  proof -
    have "\<not> edge [] u v" for u v by (simp add: edge_def succs_def)
    then have "\<not> cyclic []" by (metis cyclic_def tranclpD)
    then show ?thesis
      by (simp add: mk_task_dag_def dag_ok_def acyclic_dag_def dag_wf_def node_ids_def edge_def succs_def linked_def)
  qed
  ultimately show ?thesis using assms by (simp add: dag_after_def mk_task_dag_def)
qed


section \<open>Ready nodes\<close>

definition completed_id :: "'c task_dag \<Rightarrow> string \<Rightarrow> bool" where
  "completed_id d k = (case map_of (dg_nodes d) k of None \<Rightarrow> False | Some n \<Rightarrow> tn_state n = N_completed)"

lemma deps_done_iff:
  "\<forall>k\<in>set deps. map_of (dg_nodes d) k \<noteq> None \<Longrightarrow> deps_done d deps = Inr (\<forall>k\<in>set deps. completed_id d k)"
  by (induction deps) (auto simp: completed_id_def)

lemma ready_from_filter:
  "\<forall>n\<in>set ns. \<forall>k\<in>set (tn_dependencies n). map_of (dg_nodes d) k \<noteq> None \<Longrightarrow>
   ready_from d ns = Inr (filter (\<lambda>n. tn_state n = N_pending \<and> (\<forall>k\<in>set (tn_dependencies n). completed_id d k)) ns)"
  by (induction ns) (simp_all add: deps_done_iff)

lemma linked_deps:
  assumes "dag_wf d" "linked d" "n \<in> set (map snd (dg_nodes d))"
  shows "map_of (dg_nodes d) (tn_node_id n) = Some n \<and>
    (\<forall>k. k \<in> set (tn_dependencies n) \<longleftrightarrow> edge (dg_edges d) k (tn_node_id n)) \<and>
    (\<forall>k\<in>set (tn_dependencies n). map_of (dg_nodes d) k \<noteq> None)"
proof -
  obtain i where i: "(i, n) \<in> set (dg_nodes d)" using assms(3) by auto
  have "distinct (map fst (dg_nodes d))" using assms(1) by (simp add: dag_wf_def node_ids_def)
  then have at: "map_of (dg_nodes d) i = Some n" using i by (simp add: map_of_eq_Some_iff)
  then have link: "tn_node_id n = i" "\<And>k. k \<in> set (tn_dependencies n) \<longleftrightarrow> edge (dg_edges d) k i"
    using assms(2) by (auto simp: linked_def)
  have "map_of (dg_nodes d) k \<noteq> None" if "edge (dg_edges d) k i" for k
    using edge_source [OF that] assms(1) by (metis dag_wf_def dag_wf_known list.set_map)
  with at link show ?thesis by auto
qed

lemma get_ready_nodes_filter:
  assumes "dag_wf d" "linked d"
  shows "get_ready_nodes d = Inr (filter (\<lambda>n. tn_state n = N_pending \<and>
    (\<forall>k. edge (dg_edges d) k (tn_node_id n) \<longrightarrow> completed_id d k)) (map snd (dg_nodes d)))"
proof -
  have "get_ready_nodes d = Inr (filter (\<lambda>n. tn_state n = N_pending \<and> (\<forall>k\<in>set (tn_dependencies n). completed_id d k))
      (map snd (dg_nodes d)))"
    unfolding get_ready_nodes_def by (rule ready_from_filter) (use linked_deps [OF assms] in blast)
  also have "filter (\<lambda>n. tn_state n = N_pending \<and> (\<forall>k\<in>set (tn_dependencies n). completed_id d k)) (map snd (dg_nodes d)) =
      filter (\<lambda>n. tn_state n = N_pending \<and> (\<forall>k. edge (dg_edges d) k (tn_node_id n) \<longrightarrow> completed_id d k)) (map snd (dg_nodes d))"
    by (rule filter_cong) (use linked_deps [OF assms] in auto)
  finally show ?thesis .
qed

lemma some_ready:
  assumes ok: "dag_ok d" and states: "\<forall>n\<in>set (map snd (dg_nodes d)). tn_state n \<in> {N_pending, N_completed}"
    and todo: "\<not> is_complete d"
  shows "\<exists>n rest. get_ready_nodes d = Inr (n # rest)"
proof -
  have wf: "dag_wf d" and acyc: "\<not> cyclic (dg_edges d)" and link: "linked d"
    using ok by (auto simp: dag_ok_def acyclic_dag_def)
  define P where "P = {n \<in> set (map snd (dg_nodes d)). tn_state n = N_pending}"
  have "P \<noteq> {}" using todo states by (fastforce simp: P_def is_complete_def list_all_iff)
  moreover have "finite (tn_node_id ` P)" by (simp add: P_def)
  ultimately obtain n where n: "n \<in> P" "\<not> (\<exists>u\<in>tn_node_id ` P. edge (dg_edges d) u (tn_node_id n))"
    using no_source_cyclic [of "tn_node_id ` P" "dg_edges d"] acyc by auto
  have "completed_id d k" if e: "edge (dg_edges d) k (tn_node_id n)" for k
  proof -
    have "map_of (dg_nodes d) k \<noteq> None"
      using edge_source [OF e] wf by (metis dag_wf_def dag_wf_known list.set_map)
    then obtain m where m: "map_of (dg_nodes d) k = Some m" by blast
    then have "m \<in> set (map snd (dg_nodes d))" "tn_node_id m = k"
      using link by (auto dest: map_of_SomeD intro: rev_image_eqI simp: linked_def)
    with n(2) e states m show ?thesis by (auto simp: P_def completed_id_def)
  qed
  with n(1) have "n \<in> set (filter (\<lambda>n. tn_state n = N_pending \<and>
      (\<forall>k. edge (dg_edges d) k (tn_node_id n) \<longrightarrow> completed_id d k)) (map snd (dg_nodes d)))" by (simp add: P_def)
  with get_ready_nodes_filter [OF wf link] obtain xs where "get_ready_nodes d = Inr xs" "n \<in> set xs" by blast
  then show ?thesis by (cases xs) auto
qed


section \<open>Properties\<close>

text \<open>C11. Whatever sequence of node and edge additions and state changes is applied to a new graph, as long
  as the interpreter's recursion depth covers it, the graph has no cycle: the cycle check answers no, and
  the topological sort returns every node once, each after all the nodes it depends on.\<close>

theorem task_graph_stays_acyclic:
  assumes "length ops \<le> depth"
  shows "has_cycle depth (dag_after depth ops) = Inr False \<and>
    (\<exists>xs. topological_sort (dag_after depth ops) = Inr xs \<and> distinct xs \<and>
       set xs = set (node_ids (dag_after depth ops)) \<and> ordered (dg_edges (dag_after depth ops)) xs)"
proof -
  note ok = dag_after_ok [OF assms]
  then have wf: "dag_wf (dag_after depth ops)" and acyc: "\<not> cyclic (dg_edges (dag_after depth ops))"
    by (simp_all add: dag_ok_def acyclic_dag_def)
  then show ?thesis using has_cycle_iff [OF wf] topological_sort_cases [OF wf] ok by simp
qed

definition diamond :: "unit dag_op list" where
  "diamond = [AddNode ''a'' () 2 ''compensate'', AddNode ''b'' () 2 ''compensate'', AddNode ''c'' () 2 ''compensate'', AddNode ''d'' () 2 ''compensate'', AddEdge ''a'' ''b'',
     AddEdge ''a'' ''c'', AddEdge ''b'' ''d'', AddEdge ''c'' ''d'', AddEdge ''d'' ''a'']"

theorem task_graph_stays_acyclic_witness:
  "length diamond \<le> 1000 \<and> (\<exists>xs. topological_sort (dag_after 1000 diamond) = Inr xs \<and>
     set xs = set (node_ids (dag_after 1000 diamond)))"
proof -
  have "length diamond \<le> 1000" by (simp add: diamond_def)
  then show ?thesis using task_graph_stays_acyclic [of diamond 1000] by blast
qed

text \<open>An edge between two nodes of the graph is refused exactly when its source can already be reached
  from its target, and then neither the edges nor the nodes change; otherwise it is added, and it is the
  only edge added.\<close>

lemma edge_refused_iff_cycle:
  assumes "length ops \<le> depth" and "d = dag_after depth ops"
    and "u \<in> set (node_ids d)" and "v \<in> set (node_ids d)" and "add_edge depth u v d = (res, d')"
  shows "(res = Inl (WouldCycle u v) \<longleftrightarrow> (edge (dg_edges d))\<^sup>*\<^sup>* v u) \<and>
    (res = Inl (WouldCycle u v) \<longrightarrow> edge (dg_edges d') = edge (dg_edges d) \<and> dg_nodes d' = dg_nodes d) \<and>
    (res \<noteq> Inl (WouldCycle u v) \<longrightarrow> res = Inr () \<and>
       (\<forall>a b. edge (dg_edges d') a b \<longleftrightarrow> edge (dg_edges d) a b \<or> (a = u \<and> b = v)))"
proof -
  have ok: "dag_wf d" "\<not> cyclic (dg_edges d)" "length (dg_nodes d) \<le> depth"
    using dag_after_ok [OF assms(1)] assms(2) by (simp_all add: dag_ok_def acyclic_dag_def)
  obtain src tgt where n: "map_of (dg_nodes d) u = Some src" "map_of (dg_nodes d) v = Some tgt"
    using assms(3,4) dag_wf_known [OF ok(1)] by blast
  show ?thesis
    using add_edge_decides [OF ok n] edge_with_cycle [OF ok(2), of u v] assms(5)
    by (auto simp: edge_with_def split: if_splits)
qed

text \<open>Kahn's loop always ends within one iteration per node, and the sort is right on every graph the
  operations can build, also where the recursion depth was too small for the cycle check: it raises
  exactly when the edges have a cycle, and otherwise returns every node once, after its predecessors.\<close>

lemma topological_sort_correct:
  "if cyclic (dg_edges (dag_after depth ops)) then topological_sort (dag_after depth ops) = Inl ContainsCycle
   else \<exists>xs. topological_sort (dag_after depth ops) = Inr xs \<and> distinct xs \<and>
     set xs = set (node_ids (dag_after depth ops)) \<and> ordered (dg_edges (dag_after depth ops)) xs"
  using topological_sort_cases [OF dag_after_wf [of depth ops]] by auto

text \<open>The nodes offered for execution are exactly the pending nodes all of whose predecessors in the
  graph are completed, and the graph never deadlocks: while every node is pending or completed and some
  node is not completed, at least one node is offered.\<close>

lemma ready_nodes_exact_and_live:
  assumes "length ops \<le> depth" and "d = dag_after depth ops"
  shows "\<exists>ready. get_ready_nodes d = Inr ready \<and>
    (\<forall>n. n \<in> set ready \<longleftrightarrow> n \<in> set (map snd (dg_nodes d)) \<and> tn_state n = N_pending \<and>
       (\<forall>k. edge (dg_edges d) k (tn_node_id n) \<longrightarrow> completed_id d k)) \<and>
    (\<not> is_complete d \<and> (\<forall>n\<in>set (map snd (dg_nodes d)). tn_state n \<in> {N_pending, N_completed}) \<longrightarrow> ready \<noteq> [])"
proof -
  have ok: "dag_ok d" using dag_after_ok [OF assms(1)] assms(2) by simp
  then have wf: "dag_wf d" "linked d" by (simp_all add: dag_ok_def acyclic_dag_def)
  show ?thesis using get_ready_nodes_filter [OF wf] some_ready [OF ok] by auto
qed

end
