(* ===== verification/Task_Dag_Queries.thy ===== *)
theory Task_Dag_Queries
  imports Task_Dag_Theorems
begin

text \<open>
  The remaining queries of \<open>hi_agent/task_decomposition/dag.py\<close>: the parallel groups, the sub-graph of the
  transitive dependents of some roots, and the validation. The loops take fuel that is shown to be
  enough. The sub-graph is filled in the iteration order of a Python set, which is the parameter
  \<open>iter\<close> from the collected identifiers to a list of them.
\<close>

section \<open>Parallel groups\<close>

fun release_level ::
  "(string \<times> string list) list \<Rightarrow> string list \<Rightarrow> (string \<Rightarrow> int) \<Rightarrow> string list \<Rightarrow> (string \<Rightarrow> int) \<times> string list" where
  "release_level E [] deg next_level = (deg, next_level)"
| "release_level E (nid # current_level) deg next_level =
     (let (deg', next_level') = release_targets (sort (succs E nid)) deg next_level
      in release_level E current_level deg' next_level')"

fun level_groups ::
  "nat \<Rightarrow> (string \<times> string list) list \<Rightarrow> (string \<Rightarrow> int) \<Rightarrow> string list \<Rightarrow> string list list \<Rightarrow> string list list option" where
  "level_groups fuel E deg [] groups = Some groups"
| "level_groups 0 E deg (nid # current_level) groups = None"
| "level_groups (Suc fuel) E deg (nid # current_level) groups =
     (let (deg', next_level) = release_level E (nid # current_level) deg []
      in level_groups fuel E deg' (sort (remdups next_level)) (groups @ [nid # current_level]))"

definition get_parallel_groups :: "'c task_dag \<Rightarrow> dag_error + string list list" where
  "get_parallel_groups d =
     (if dg_nodes d = [] then Inr []
      else case in_degrees d of
        Inl e \<Rightarrow> Inl e
      | Inr deg \<Rightarrow>
          (case level_groups (Suc (length (dg_nodes d))) (dg_edges d) deg
                  (sort (filter (\<lambda>n. deg n = 0) (node_ids d))) [] of
             None \<Rightarrow> Inl OutOfFuel
           | Some groups \<Rightarrow> Inr groups))"

section \<open>Sub-graphs\<close>

fun bfs :: "nat \<Rightarrow> (string \<times> string list) list \<Rightarrow> string list \<Rightarrow> string list \<Rightarrow> string list option" where
  "bfs fuel E [] collected = Some collected"
| "bfs 0 E (nid # frontier) collected = None"
| "bfs (Suc fuel) E (nid # frontier) collected =
     (if nid \<in> set collected then bfs fuel E frontier collected
      else bfs fuel E (frontier @ filter (\<lambda>t. t \<notin> set (collected @ [nid])) (succs E nid)) (collected @ [nid]))"

definition clone_node :: "string list \<Rightarrow> 'c task_node \<Rightarrow> 'c task_node" where
  "clone_node collected n = n\<lparr>tn_dependencies := filter (\<lambda>k. k \<in> set collected) (tn_dependencies n),
     tn_dependents := filter (\<lambda>k. k \<in> set collected) (tn_dependents n)\<rparr>"

fun clone_nodes :: "string list \<Rightarrow> 'c task_dag \<Rightarrow> string list \<Rightarrow> 'c task_dag \<Rightarrow> dag_error + 'c task_dag" where
  "clone_nodes collected d [] sub = Inr sub"
| "clone_nodes collected d (nid # nids) sub =
     (case map_of (dg_nodes d) nid of
        None \<Rightarrow> Inl (DagKeyError nid)
      | Some original \<Rightarrow>
          let clone = clone_node collected original in
          clone_nodes collected d nids (sub\<lparr>dg_nodes := dict_set (tn_node_id clone) clone (dg_nodes sub),
            dg_edges := dict_set (tn_node_id clone) [] (dg_edges sub)\<rparr>))"

fun copy_targets :: "string list \<Rightarrow> string \<Rightarrow> string list \<Rightarrow> (string \<times> string list) list \<Rightarrow> dag_error + (string \<times> string list) list" where
  "copy_targets collected src [] E = Inr E"
| "copy_targets collected src (tgt # tgts) E =
     (if tgt \<in> set collected
      then case map_of E src of
          None \<Rightarrow> Inl (DagKeyError src)
        | Some ts \<Rightarrow> copy_targets collected src tgts (dict_set src (add_target tgt ts) E)
      else copy_targets collected src tgts E)"

fun copy_edges :: "string list \<Rightarrow> (string \<times> string list) list \<Rightarrow> string list \<Rightarrow> (string \<times> string list) list \<Rightarrow> dag_error + (string \<times> string list) list" where
  "copy_edges collected E0 [] E = Inr E"
| "copy_edges collected E0 (src # srcs) E =
     (case copy_targets collected src (succs E0 src) E of
        Inl e \<Rightarrow> Inl e
      | Inr E' \<Rightarrow> copy_edges collected E0 srcs E')"

definition get_subgraph :: "(string list \<Rightarrow> string list) \<Rightarrow> string list \<Rightarrow> 'c task_dag \<Rightarrow> dag_error + 'c task_dag" where
  "get_subgraph iter root_ids d =
     (case find (\<lambda>rid. map_of (dg_nodes d) rid = None) root_ids of
        Some rid \<Rightarrow> Inl (NodeMissing rid)
      | None \<Rightarrow>
          (case bfs (Suc (length root_ids + length (concat (map snd (dg_edges d))))) (dg_edges d) root_ids [] of
             None \<Rightarrow> Inl OutOfFuel
           | Some collected \<Rightarrow>
               (case clone_nodes collected d (iter collected) mk_task_dag of
                  Inl e \<Rightarrow> Inl e
                | Inr sub \<Rightarrow>
                    (case copy_edges collected (dg_edges d) (iter collected) (dg_edges sub) of
                       Inl e \<Rightarrow> Inl e
                     | Inr E \<Rightarrow> Inr (sub\<lparr>dg_edges := E\<rparr>)))))"

section \<open>Validation\<close>

datatype dag_issue =
    NoNodes
  | HasCycle
  | UnknownDependency string string
  | UnknownDependent string string
  | Orphan string

definition dangling :: "'c task_dag \<Rightarrow> dag_issue list" where
  "dangling d = concat (map (\<lambda>(nid, node).
     map (UnknownDependency nid) (filter (\<lambda>k. map_of (dg_nodes d) k = None) (tn_dependencies node)) @
     map (UnknownDependent nid) (filter (\<lambda>k. map_of (dg_nodes d) k = None) (tn_dependents node))) (dg_nodes d))"

definition orphans :: "'c task_dag \<Rightarrow> dag_issue list" where
  "orphans d = map Orphan (filter (\<lambda>nid. \<not> list_ex (\<lambda>targets. nid \<in> set targets) (map snd (dg_edges d)) \<and>
     succs (dg_edges d) nid = []) (node_ids d))"

definition validate :: "nat \<Rightarrow> 'c task_dag \<Rightarrow> dag_error + dag_issue list" where
  "validate depth d =
     (if dg_nodes d = [] then Inr [NoNodes]
      else case has_cycle depth d of
        Inl e \<Rightarrow> Inl e
      | Inr cyc \<Rightarrow> Inr ((if cyc then [HasCycle] else []) @ dangling d @
          (if 1 < length (dg_nodes d) then orphans d else [])))"


section \<open>The groups are levels\<close>

lemma kahn_inv_sort [simp]: "kahn_inv E N deg (sort q) result = kahn_inv E N deg q result"
  by (simp add: kahn_inv_def)

lemma release_targets_append:
  "release_targets ts deg (pre @ queue) = (fst (release_targets ts deg queue), pre @ snd (release_targets ts deg queue))"
proof (induction ts arbitrary: deg queue)
  case (Cons t ts)
  show ?case
  proof (cases "deg t = 1")
    case True
    then show ?thesis using Cons [of "deg(t := 0)" "queue @ [t]"] by (simp add: Let_def fun_upd_def)
  next
    case False
    then show ?thesis using Cons [of "deg(t := deg t - 1)" queue] by (simp add: Let_def fun_upd_def)
  qed
qed simp

lemma release_level_inv:
  assumes "edges_in E N" "kahn_inv E N deg (level @ next) result" "release_level E level deg next = (deg', next')"
  shows "kahn_inv E N deg' next' (result @ level)"
  using assms(2,3)
proof (induction level arbitrary: deg "next" result)
  case (Cons c level)
  obtain deg1 next1 where rel: "release_targets (sort (succs E c)) deg next = (deg1, next1)" by fastforce
  have "release_targets (sort (succs E c)) deg (level @ next) = (deg1, level @ next1)"
    by (simp add: release_targets_append rel)
  from kahn_step [OF Cons.prems(1) [simplified] _ _ _ this] assms(1)
  have "kahn_inv E N deg1 (level @ next1) (result @ [c])" by (simp add: edges_in_def)
  with Cons.IH [of deg1 next1 "result @ [c]"] Cons.prems(2) rel show ?case by simp
qed simp

definition levels :: "(string \<times> string list) list \<Rightarrow> string list list \<Rightarrow> bool" where
  "levels E groups = (\<forall>i<length groups. groups ! i \<noteq> [] \<and>
     (\<forall>v\<in>set (groups ! i). \<forall>u. edge E u v \<longrightarrow> u \<in> set (concat (take i groups))))"

lemma levels_snoc: "levels E (groups @ [g]) \<longleftrightarrow> levels E groups \<and> g \<noteq> [] \<and>
    (\<forall>v\<in>set g. \<forall>u. edge E u v \<longrightarrow> u \<in> set (concat groups))"
  by (auto simp: levels_def nth_append less_Suc_eq)

lemma levels_length: "levels E groups \<Longrightarrow> length groups \<le> length (concat groups)"
proof (induction groups rule: rev_induct)
  case (snoc g groups)
  then have "length groups \<le> length (concat groups)" "1 \<le> length g" by (auto simp: levels_snoc Suc_le_eq)
  then show ?case by simp
qed simp

lemma level_groups_correct:
  assumes "edges_in E N" "kahn_inv E N deg level (concat groups)" "levels E groups" "card N < fuel + length groups"
  shows "\<exists>gs deg'. level_groups fuel E deg level groups = Some gs \<and> kahn_inv E N deg' [] (concat gs) \<and> levels E gs"
  using assms
proof (induction fuel E deg level groups rule: level_groups.induct)
  case (2 E deg c level groups)
  have "set (c # concat groups) \<subseteq> N" "distinct (c # concat groups)" "finite N"
    using 2(1,2) by (auto simp: kahn_inv_def edges_in_def)
  then have "length (c # concat groups) \<le> card N" by (metis card_mono distinct_card)
  with 2(4) levels_length [OF 2(3)] show ?case by simp
next
  case (3 fuel E deg c level groups)
  let ?level = "c # level"
  obtain deg' nxt where rel: "release_level E ?level deg [] = (deg', nxt)" by fastforce
  have inv: "kahn_inv E N deg' nxt (concat (groups @ [?level]))"
    using release_level_inv [OF 3(2) _ rel, of "concat groups"] 3(3) by simp
  then have "distinct nxt" by (simp add: kahn_inv_def)
  moreover have "levels E (groups @ [?level])"
    using 3(4) kahn_inv_preds [OF 3(2,3)] by (auto simp: levels_snoc)
  ultimately show ?case using "3.IH" [OF rel [symmetric] refl 3(2)] inv 3(5) rel by (simp add: distinct_remdups_id)
qed auto

lemma parallel_groups_cases:
  assumes wf: "dag_wf d"
  shows "\<exists>groups. get_parallel_groups d = Inr groups \<and> distinct (concat groups) \<and> levels (dg_edges d) groups \<and>
    set (concat groups) \<subseteq> set (node_ids d) \<and> (cyclic (dg_edges d) \<longleftrightarrow> set (concat groups) \<noteq> set (node_ids d))"
proof -
  let ?E = "dg_edges d" and ?N = "set (node_ids d)"
  obtain deg where deg: "in_degrees d = Inr deg"
    and start: "kahn_inv ?E ?N deg (sort (filter (\<lambda>n. deg n = 0) (node_ids d))) (concat [])"
    using kahn_start [OF wf] by auto
  have E: "edges_in ?E ?N" by (rule wf_edges_in [OF wf])
  have card: "card ?N < Suc (length (dg_nodes d)) + length ([] :: string list list)"
    using wf distinct_card [of "node_ids d"] by (simp add: dag_wf_def node_ids_def)
  have "levels ?E []" by (simp add: levels_def)
  from level_groups_correct [OF E start this card]
  obtain gs deg' where gs: "level_groups (Suc (length (dg_nodes d))) ?E deg (sort (filter (\<lambda>n. deg n = 0) (node_ids d))) [] = Some gs"
      "kahn_inv ?E ?N deg' [] (concat gs)" "levels ?E gs" by blast
  show ?thesis
  proof (cases "dg_nodes d = []")
    case True
    then have "?E = []" "node_ids d = []" using wf by (auto simp: dag_wf_def node_ids_def)
    then have "\<not> cyclic ?E" by (metis cyclic_def tranclpD edge_source list.set(1) image_empty empty_iff)
    with True \<open>node_ids d = []\<close> show ?thesis by (simp add: get_parallel_groups_def levels_def)
  next
    case False
    then have "get_parallel_groups d = Inr gs" using deg gs(1) by (simp add: get_parallel_groups_def)
    with gs(2,3) kahn_final [OF E gs(2)] show ?thesis by (auto simp: kahn_inv_def)
  qed
qed


section \<open>The breadth-first search collects the reachable nodes\<close>

definition out_edges :: "(string \<times> string list) list \<Rightarrow> string set \<Rightarrow> nat" where
  "out_edges E S = length (concat (map snd (filter (\<lambda>e. fst e \<notin> S) E)))"

lemma out_edges_collect:
  "distinct (map fst E) \<Longrightarrow> k \<notin> S \<Longrightarrow> out_edges E (insert k S) + length (succs E k) = out_edges E S"
proof (induction E)
  case (Cons e E)
  obtain u ts where e: "e = (u, ts)" by (cases e)
  have IH: "out_edges E (insert k S) + length (succs E k) = out_edges E S" using Cons by simp
  show ?case
  proof (cases "u = k")
    case True
    then have "map_of E k = None" using Cons.prems(1) by (simp add: e map_of_eq_None_iff)
    then have "succs E k = []" by (simp add: succs_def)
    then have "out_edges E (insert k S) = out_edges E S" using IH by simp
    then show ?thesis using True Cons.prems(2) by (simp add: e out_edges_def succs_def)
  next
    case False
    then have "succs (e # E) k = succs E k" by (simp add: e succs_def)
    then show ?thesis using IH False by (simp add: e out_edges_def)
  qed
qed (simp add: out_edges_def succs_def)

definition reach_from :: "(string \<times> string list) list \<Rightarrow> string list \<Rightarrow> string set" where
  "reach_from E roots = {v. \<exists>r\<in>set roots. (edge E)\<^sup>*\<^sup>* r v}"

definition bfs_inv :: "(string \<times> string list) list \<Rightarrow> string list \<Rightarrow> string list \<Rightarrow> string list \<Rightarrow> bool" where
  "bfs_inv E roots frontier collected = (distinct collected \<and> set frontier \<union> set collected \<subseteq> reach_from E roots \<and>
     set roots \<subseteq> set frontier \<union> set collected \<and>
     (\<forall>v\<in>set collected. \<forall>t. edge E v t \<longrightarrow> t \<in> set frontier \<union> set collected))"

lemma reach_from_edge: "v \<in> reach_from E roots \<Longrightarrow> edge E v t \<Longrightarrow> t \<in> reach_from E roots"
  by (auto simp: reach_from_def intro: rtranclp.rtrancl_into_rtrancl)

lemma bfs_final:
  assumes "bfs_inv E roots [] collected"
  shows "distinct collected \<and> set collected = reach_from E roots"
proof -
  have closed: "\<forall>v\<in>set collected. \<forall>t. edge E v t \<longrightarrow> t \<in> set collected" and "set roots \<subseteq> set collected"
    using assms by (auto simp: bfs_inv_def)
  then have "reach_from E roots \<subseteq> set collected" using closed_reach [OF closed] unfolding reach_from_def by blast
  with assms show ?thesis unfolding bfs_inv_def by auto
qed

lemma bfs_correct:
  assumes "distinct (map fst E)" "bfs_inv E roots frontier collected" "length frontier + out_edges E (set collected) \<le> fuel"
  shows "\<exists>c. bfs fuel E frontier collected = Some c \<and> distinct c \<and> set c = reach_from E roots"
  using assms
proof (induction fuel E frontier collected rule: bfs.induct)
  case (1 fuel E collected)
  then show ?case using bfs_final by simp
next
  case (3 fuel E nid frontier collected)
  show ?case
  proof (cases "nid \<in> set collected")
    case True
    then have "bfs_inv E roots frontier collected" using 3(4) by (auto simp: bfs_inv_def)
    with 3(1) [OF True 3(3)] 3(5) True show ?thesis by simp
  next
    case False
    let ?new = "filter (\<lambda>t. t \<notin> set (collected @ [nid])) (succs E nid)"
    have reach: "nid \<in> reach_from E roots" using 3(4) by (simp add: bfs_inv_def)
    have "set ?new \<subseteq> reach_from E roots" using reach_from_edge [OF reach] by (auto simp: edge_def)
    moreover have "t \<in> set ?new \<union> set (collected @ [nid])" if "edge E nid t" for t using that by (auto simp: edge_def)
    ultimately have inv: "bfs_inv E roots (frontier @ ?new) (collected @ [nid])"
      using 3(4) False reach by (auto simp: bfs_inv_def)
    have "length (filter (\<lambda>t. t \<noteq> nid \<and> t \<notin> set collected) (succs E nid)) \<le> length (succs E nid)" by (rule length_filter_le)
    then have "length (frontier @ ?new) + out_edges E (set (collected @ [nid])) \<le> fuel"
      using out_edges_collect [OF 3(3) False] 3(5) by (simp del: length_filter_le)
    with 3(2) [OF False 3(3) inv] False show ?thesis by simp
  qed
qed auto

lemma bfs_collects:
  assumes "distinct (map fst E)"
  shows "\<exists>c. bfs (Suc (length roots + length (concat (map snd E)))) E roots [] = Some c \<and> distinct c \<and> set c = reach_from E roots"
proof (rule bfs_correct [OF assms])
  show "bfs_inv E roots roots []" by (auto simp: bfs_inv_def reach_from_def)
  show "length roots + out_edges E (set []) \<le> Suc (length roots + length (concat (map snd E)))"
    by (simp add: out_edges_def)
qed


section \<open>The sub-graph is the restriction to the collected nodes\<close>

lemma clone_nodes_eq:
  assumes "distinct nids" "set nids \<inter> set (map fst (dg_nodes sub)) = {}" "map fst (dg_edges sub) = map fst (dg_nodes sub)"
    and "\<forall>k\<in>set nids. \<exists>n. map_of (dg_nodes d) k = Some n \<and> tn_node_id n = k"
  shows "clone_nodes collected d nids sub = Inr (sub\<lparr>
    dg_nodes := dg_nodes sub @ map (\<lambda>k. (k, clone_node collected (the (map_of (dg_nodes d) k)))) nids,
    dg_edges := dg_edges sub @ map (\<lambda>k. (k, [])) nids\<rparr>)"
  using assms
proof (induction nids arbitrary: sub)
  case (Cons k nids)
  obtain n where n: "map_of (dg_nodes d) k = Some n" "tn_node_id n = k" using Cons.prems(4) by auto
  have fresh: "k \<notin> set (map fst (dg_nodes sub))" "k \<notin> set (map fst (dg_edges sub))" using Cons.prems(2,3) by auto
  let ?sub = "sub\<lparr>dg_nodes := dg_nodes sub @ [(k, clone_node collected n)], dg_edges := dg_edges sub @ [(k, [])]\<rparr>"
  have "clone_nodes collected d nids ?sub = Inr (?sub\<lparr>
    dg_nodes := dg_nodes ?sub @ map (\<lambda>k. (k, clone_node collected (the (map_of (dg_nodes d) k)))) nids,
    dg_edges := dg_edges ?sub @ map (\<lambda>k. (k, [])) nids\<rparr>)"
    by (rule Cons.IH) (use Cons.prems in auto)
  then show ?case using n fresh by (simp add: clone_node_def Let_def dict_set_fresh)
qed simp

lemma copy_targets_edges:
  assumes "src \<in> set (map fst E)"
  shows "\<exists>E'. copy_targets collected src tgts E = Inr E' \<and> map fst E' = map fst E \<and>
    (\<forall>u v. edge E' u v \<longleftrightarrow> edge E u v \<or> (u = src \<and> v \<in> set tgts \<and> v \<in> set collected)) \<and>
    ((\<forall>u. distinct (succs E u)) \<longrightarrow> (\<forall>u. distinct (succs E' u)))"
  using assms
proof (induction tgts arbitrary: E)
  case (Cons t tgts)
  show ?case
  proof (cases "t \<in> set collected")
    case True
    obtain ts where ts: "map_of E src = Some ts" "succs E src = ts"
      using Cons.prems by (metis succs_def map_of_eq_None_iff list.set_map option.case_eq_if option.collapse option.sel)
    let ?E = "dict_set src (add_target t ts) E"
    have keys: "map fst ?E = map fst E" using Cons.prems by (rule keys_dict_set_old)
    have e: "edge ?E u v \<longleftrightarrow> edge E u v \<or> (u = src \<and> v = t)" for u v
      by (auto simp: edge_def succs_dict_set ts(2) add_target_def)
    have d: "(\<forall>u. distinct (succs E u)) \<longrightarrow> (\<forall>u. distinct (succs ?E u))"
      using ts(2) by (auto simp: succs_dict_set add_target_def)
    have mem: "src \<in> set (map fst ?E)" using keys Cons.prems by simp
    from Cons.IH [OF mem] True ts(1) keys e d show ?thesis by (auto simp: mem)
  next
    case False
    then have "v \<in> set (t # tgts) \<and> v \<in> set collected \<longleftrightarrow> v \<in> set tgts \<and> v \<in> set collected" for v by auto
    with Cons.IH [OF Cons.prems] False show ?thesis by simp
  qed
qed auto

lemma copy_edges_edges:
  assumes "set srcs \<subseteq> set (map fst E)"
  shows "\<exists>E'. copy_edges collected E0 srcs E = Inr E' \<and> map fst E' = map fst E \<and>
    (\<forall>u v. edge E' u v \<longleftrightarrow> edge E u v \<or> (u \<in> set srcs \<and> edge E0 u v \<and> v \<in> set collected)) \<and>
    ((\<forall>u. distinct (succs E u)) \<longrightarrow> (\<forall>u. distinct (succs E' u)))"
  using assms
proof (induction srcs arbitrary: E)
  case (Cons src srcs)
  have "src \<in> set (map fst E)" using Cons.prems by simp
  from copy_targets_edges [OF this, of collected "succs E0 src"]
  obtain E1 where E1: "copy_targets collected src (succs E0 src) E = Inr E1" "map fst E1 = map fst E"
      "\<And>u v. edge E1 u v \<longleftrightarrow> edge E u v \<or> (u = src \<and> edge E0 src v \<and> v \<in> set collected)"
      "(\<forall>u. distinct (succs E u)) \<longrightarrow> (\<forall>u. distinct (succs E1 u))"
    unfolding edge_def [of E0, symmetric] by blast
  have "set srcs \<subseteq> set (map fst E1)" using Cons.prems E1(2) by simp
  from Cons.IH [OF this] obtain E' where E': "copy_edges collected E0 srcs E1 = Inr E'" "map fst E' = map fst E1"
      "\<And>u v. edge E' u v \<longleftrightarrow> edge E1 u v \<or> (u \<in> set srcs \<and> edge E0 u v \<and> v \<in> set collected)"
      "(\<forall>u. distinct (succs E1 u)) \<longrightarrow> (\<forall>u. distinct (succs E' u))" by blast
  show ?case using E1 E' by (intro exI [of _ E']) auto
qed auto


text \<open>What the copy holds: the reachable nodes, cloned, and exactly the edges among them.\<close>

definition restricted :: "'c task_dag \<Rightarrow> string set \<Rightarrow> 'c task_dag \<Rightarrow> bool" where
  "restricted d R sub = (set (node_ids sub) = R \<and>
     (\<forall>u v. edge (dg_edges sub) u v \<longleftrightarrow> edge (dg_edges d) u v \<and> u \<in> R \<and> v \<in> R) \<and>
     (\<forall>k\<in>R. \<exists>n m. map_of (dg_nodes d) k = Some n \<and> map_of (dg_nodes sub) k = Some m \<and>
        m = n\<lparr>tn_dependencies := filter (\<lambda>x. x \<in> R) (tn_dependencies n),
              tn_dependents := filter (\<lambda>x. x \<in> R) (tn_dependents n)\<rparr>))"

lemma get_subgraph_restricts:
  assumes wf: "dag_wf d" and link: "linked d" and roots: "set root_ids \<subseteq> set (node_ids d)"
    and iter: "\<And>xs. distinct xs \<Longrightarrow> distinct (iter xs) \<and> set (iter xs) = set xs"
  shows "\<exists>sub. get_subgraph iter root_ids d = Inr sub \<and> dag_wf sub \<and>
    restricted d (reach_from (dg_edges d) root_ids) sub"
proof -
  let ?E = "dg_edges d"
  have dist: "distinct (map fst ?E)" using wf by (simp add: dag_wf_def)
  obtain c where c: "bfs (Suc (length root_ids + length (concat (map snd ?E)))) ?E root_ids [] = Some c" "distinct c"
      "set c = reach_from ?E root_ids" using bfs_collects [OF dist] by blast
  have known: "find (\<lambda>rid. map_of (dg_nodes d) rid = None) root_ids = None"
    using roots dag_wf_known [OF wf] by (auto simp: find_None_iff)
  have sub: "set c \<subseteq> set (node_ids d)"
  proof -
    have "v \<in> set (node_ids d)" if "(edge ?E)\<^sup>*\<^sup>* r v" "r \<in> set (node_ids d)" for r v
      using that wf by (induction rule: rtranclp_induct) (auto simp: dag_wf_def)
    then show ?thesis using roots by (auto simp: c(3) reach_from_def)
  qed
  have ic: "set (iter c) = set c" "distinct (iter c)" using iter [OF c(2)] by simp_all
  have nodes: "\<forall>k\<in>set (iter c). \<exists>n. map_of (dg_nodes d) k = Some n \<and> tn_node_id n = k"
    using sub ic dag_wf_known [OF wf] link by (fastforce simp: linked_def)
  let ?clone = "\<lambda>k. (k, clone_node c (the (map_of (dg_nodes d) k)))"
  have cl: "clone_nodes c d (iter c) mk_task_dag = Inr \<lparr>dg_nodes = map ?clone (iter c), dg_edges = map (\<lambda>k. (k, [])) (iter c)\<rparr>"
    using clone_nodes_eq [OF ic(2) _ _ nodes, of mk_task_dag c] by (simp add: mk_task_dag_def)
  let ?Blank = "map (\<lambda>k. (k, [] :: string list)) (iter c)"
  have empty: "succs ?Blank u = []" for u by (simp add: succs_def map_of_map_restrict restrict_map_def)
  obtain E' where E': "copy_edges c ?E (iter c) ?Blank = Inr E'" "map fst E' = iter c"
      "\<And>u v. edge E' u v \<longleftrightarrow> u \<in> set c \<and> edge ?E u v \<and> v \<in> set c" "\<And>u. distinct (succs E' u)"
    using copy_edges_edges [of "iter c" ?Blank c ?E] ic by (auto simp: empty edge_def comp_def)
  let ?sub = "\<lparr>dg_nodes = map ?clone (iter c), dg_edges = E'\<rparr>"
  have res: "get_subgraph iter root_ids d = Inr ?sub" using known c(1) cl E'(1) by (simp add: get_subgraph_def)
  have "dag_wf ?sub" using ic E' by (simp add: dag_wf_def node_ids_def comp_def)
  moreover have "restricted d (set c) ?sub"
    using ic E' nodes by (auto simp: restricted_def node_ids_def comp_def map_of_map_restrict clone_node_def)
  ultimately show ?thesis using res c(3) by simp
qed


lemma restricted_linked:
  assumes "linked d" "restricted d R sub"
  shows "linked sub"
  unfolding linked_def
proof (intro allI impI)
  fix k m
  assume m: "map_of (dg_nodes sub) k = Some m"
  then have "k \<in> set (node_ids sub)" by (metis node_ids_def map_of_eq_None_iff option.distinct(1) list.set_map)
  then have k: "k \<in> R" using assms(2) by (simp add: restricted_def)
  then obtain n where n: "map_of (dg_nodes d) k = Some n"
      "m = n\<lparr>tn_dependencies := filter (\<lambda>x. x \<in> R) (tn_dependencies n), tn_dependents := filter (\<lambda>x. x \<in> R) (tn_dependents n)\<rparr>"
    using assms(2) m unfolding restricted_def by fastforce
  then show "tn_node_id m = k \<and> (\<forall>u. u \<in> set (tn_dependencies m) \<longleftrightarrow> edge (dg_edges sub) u k)"
    using assms k by (auto simp: linked_def restricted_def)
qed

lemma restricted_acyclic:
  assumes "\<not> cyclic (dg_edges d)" "restricted d R sub"
  shows "\<not> cyclic (dg_edges sub)"
proof -
  have sub: "edge (dg_edges sub) u v \<Longrightarrow> edge (dg_edges d) u v" for u v using assms(2) by (auto simp: restricted_def)
  have "(edge (dg_edges sub))\<^sup>+\<^sup>+ u v \<Longrightarrow> (edge (dg_edges d))\<^sup>+\<^sup>+ u v" for u v
    by (induction rule: tranclp_induct) (auto intro: sub tranclp.trancl_into_trancl)
  with assms(1) show ?thesis by (auto simp: cyclic_def)
qed

lemma orphans_iff:
  assumes "dag_wf d"
  shows "Orphan k \<in> set (orphans d) \<longleftrightarrow> k \<in> set (node_ids d) \<and> \<not> (\<exists>u. edge (dg_edges d) u k \<or> edge (dg_edges d) k u)"
proof -
  have "list_ex (\<lambda>targets. k \<in> set targets) (map snd (dg_edges d)) \<longleftrightarrow> (\<exists>u. edge (dg_edges d) u k)"
  proof
    assume "list_ex (\<lambda>targets. k \<in> set targets) (map snd (dg_edges d))"
    then obtain u ts where "(u, ts) \<in> set (dg_edges d)" "k \<in> set ts" by (auto simp: list_ex_iff)
    then show "\<exists>u. edge (dg_edges d) u k" using wf_lists [OF assms] by (metis edge_def)
  next
    assume "\<exists>u. edge (dg_edges d) u k"
    then obtain u ts where "map_of (dg_edges d) u = Some ts" "k \<in> set ts"
      unfolding edge_def succs_def by (metis empty_iff list.set(1) option.case_eq_if option.collapse)
    then show "list_ex (\<lambda>targets. k \<in> set targets) (map snd (dg_edges d))"
      by (force simp: list_ex_iff dest: map_of_SomeD)
  qed
  moreover have "succs (dg_edges d) k = [] \<longleftrightarrow> \<not> (\<exists>u. edge (dg_edges d) k u)"
    by (cases "succs (dg_edges d) k") (auto simp: edge_def)
  ultimately show ?thesis by (auto simp: orphans_def)
qed

text \<open>On a graph the operations have built, validation reports neither a cycle nor an unknown dependency,
  and its orphan reports are exactly the isolated nodes of a graph with several nodes.\<close>

lemma validate_reports:
  assumes ok: "dag_ok d" and depth: "length (dg_nodes d) \<le> depth" and "dg_nodes d \<noteq> []"
  shows "\<exists>issues. validate depth d = Inr issues \<and> HasCycle \<notin> set issues \<and>
    (\<forall>k dep. UnknownDependency k dep \<notin> set issues) \<and>
    (\<forall>k. Orphan k \<in> set issues \<longleftrightarrow> 1 < length (dg_nodes d) \<and> k \<in> set (node_ids d) \<and>
       \<not> (\<exists>u. edge (dg_edges d) u k \<or> edge (dg_edges d) k u))"
proof -
  have wf: "dag_wf d" "\<not> cyclic (dg_edges d)" "linked d" using ok by (auto simp: dag_ok_def acyclic_dag_def)
  have dep: "UnknownDependency k dep \<notin> set (dangling d)" for k dep
  proof
    assume "UnknownDependency k dep \<in> set (dangling d)"
    then obtain n where n: "(k, n) \<in> set (dg_nodes d)" "dep \<in> set (tn_dependencies n)" "map_of (dg_nodes d) dep = None"
      by (auto simp: dangling_def)
    have "n \<in> set (map snd (dg_nodes d))" using n(1) by force
    with linked_deps [OF wf(1,3)] n(2,3) show False by blast
  qed
  have "Orphan k \<notin> set (dangling d)" "HasCycle \<notin> set (dangling d)" for k by (auto simp: dangling_def)
  moreover have "HasCycle \<notin> set (orphans d)" "UnknownDependency k dep \<notin> set (orphans d)" for k dep
    by (auto simp: orphans_def)
  ultimately show ?thesis
    using has_cycle_iff [OF wf(1) depth] wf(2) assms(3) dep orphans_iff [OF wf(1)] by (auto simp: validate_def)
qed

section \<open>Properties\<close>

text \<open>The parallel groups of every graph the operations can build are its levels: no node is in two
  groups, no group is empty, and every predecessor of a node is in a strictly earlier group, so the nodes
  of a group can run concurrently once the earlier groups are done. The groups hold every node exactly
  when the graph has no cycle; the loop always ends, within one round per node.\<close>

lemma parallel_groups_are_levels:
  "\<exists>groups. get_parallel_groups (dag_after depth ops) = Inr groups \<and> distinct (concat groups) \<and>
     levels (dg_edges (dag_after depth ops)) groups \<and> set (concat groups) \<subseteq> set (node_ids (dag_after depth ops)) \<and>
     (set (concat groups) = set (node_ids (dag_after depth ops)) \<longleftrightarrow> \<not> cyclic (dg_edges (dag_after depth ops)))"
  using parallel_groups_cases [OF dag_after_wf [of depth ops]] by blast

text \<open>The sub-graph handed to a worker is self-contained. For known roots, whatever the iteration
  order of the collected set, it has exactly the roots and their transitive dependents, exactly the
  edges among them, and each node as in the original with its links cut to the sub-graph; it is again
  acyclic with dependency lists that mirror its edges. The search ends whatever cycles there are.\<close>

lemma subgraph_is_self_contained:
  assumes "length ops \<le> depth" and "d = dag_after depth ops" and "set root_ids \<subseteq> set (node_ids d)"
    and "\<And>xs. distinct xs \<Longrightarrow> distinct (iter xs) \<and> set (iter xs) = set xs"
  shows "\<exists>sub. get_subgraph iter root_ids d = Inr sub \<and> restricted d (reach_from (dg_edges d) root_ids) sub \<and> dag_ok sub"
proof -
  have ok: "dag_wf d" "\<not> cyclic (dg_edges d)" "linked d"
    using dag_after_ok [OF assms(1)] assms(2) by (simp_all add: dag_ok_def acyclic_dag_def)
  from get_subgraph_restricts [OF ok(1,3) assms(3,4)] obtain sub where
    "get_subgraph iter root_ids d = Inr sub" "dag_wf sub" "restricted d (reach_from (dg_edges d) root_ids) sub" by blast
  with restricted_linked [OF ok(3)] restricted_acyclic [OF ok(2)] show ?thesis
    by (auto simp: dag_ok_def acyclic_dag_def)
qed

end
