(* ===== verification/Kernel_Contracts.thy ===== *)
theory Kernel_Contracts
  imports Json_Value
begin

text \<open>
  The data of \<open>agent_kernel/kernel/contracts.py\<close> that the event log, the projection, admission and
  recovery exchange. A \<open>Literal\<close> type or a \<open>StrEnum\<close> is a datatype with one constructor per value, a
  frozen dataclass a record with its fields; an optional dictionary is an optional list of keyed JSON
  values. Event types stay strings: the log stores whatever type a producer writes.
\<close>

datatype run_lifecycle_state =
    L_created | L_ready | L_dispatching | L_waiting_result | L_waiting_external | L_recovering
  | L_completed | L_failed | L_aborted

datatype effect_class = Read_only | Idempotent_write | Compensatable_write | Irreversible_write

datatype idempotency_level = Guaranteed | Best_effort | Unknown_level

datatype recovery_mode = Static_compensation | Human_escalation | Abort_mode | Reflect_and_retry

datatype event_class = Fact | Derived

datatype event_authority = Authoritative_fact | Derived_replayable | Derived_diagnostic

datatype wake_policy = Wake_actor | Projection_only

type_synonym json_dict = "(string \<times> json) list"

record runtime_event =
  ev_run_id :: string
  ev_event_id :: string
  ev_commit_offset :: int
  ev_event_type :: string
  ev_event_class :: event_class
  ev_event_authority :: event_authority
  ev_ordering_key :: string
  ev_wake_policy :: wake_policy
  ev_created_at :: string
  ev_idempotency_key :: "string option"
  ev_payload_ref :: "string option"
  ev_payload_json :: "json_dict option"
  ev_schema_version :: string

record action =
  ac_action_id :: string
  ac_run_id :: string
  ac_action_type :: string
  ac_effect_class :: effect_class
  ac_external_idempotency_level :: "idempotency_level option"
  ac_interaction_target :: "string option"
  ac_input_ref :: "string option"
  ac_input_json :: "json_dict option"
  ac_policy_tags :: "string list"
  ac_timeout_ms :: "int option"
  ac_side_effect_class :: "string option"

record action_commit =
  cm_run_id :: string
  cm_commit_id :: string
  cm_events :: "runtime_event list"
  cm_created_at :: string

record run_projection =
  pj_run_id :: string
  pj_lifecycle_state :: run_lifecycle_state
  pj_projected_offset :: int
  pj_waiting_external :: bool
  pj_ready_for_dispatch :: bool
  pj_current_action_id :: "string option"
  pj_recovery_mode :: "recovery_mode option"
  pj_recovery_reason :: "string option"
  pj_active_child_runs :: "string list"

section \<open>Reading a payload\<close>

definition payload :: "json_dict option \<Rightarrow> json_dict" where
  "payload p = (case p of None \<Rightarrow> [] | Some d \<Rightarrow> d)"

definition get_str :: "json_dict \<Rightarrow> string \<Rightarrow> string option" where
  "get_str d k = (case map_of d k of Some (JStr s) \<Rightarrow> Some s | _ \<Rightarrow> None)"

definition get_dict :: "json_dict \<Rightarrow> string \<Rightarrow> json_dict option" where
  "get_dict d k = (case map_of d k of Some (JObj o') \<Rightarrow> Some o' | _ \<Rightarrow> None)"

definition get_bool :: "json_dict \<Rightarrow> string \<Rightarrow> bool option" where
  "get_bool d k = (case map_of d k of Some (JBool b) \<Rightarrow> Some b | _ \<Rightarrow> None)"

end
