(* ===== verification/Event_Log.thy ===== *)
theory Event_Log
  imports Kernel_Contracts
begin

text \<open>
  The authoritative event log of the kernel: the in-memory log of \<open>agent_kernel/kernel/minimal_runtime.py\<close>
  and the durable one of \<open>agent_kernel/kernel/persistence/sqlite_event_log.py\<close>. Both give the events of a
  commit consecutive offsets per run and return them in that order. The locale \<open>event_log\<close> is what
  the projection relies on; both logs interpret it. The in-memory log forgets its oldest run beyond
  a cap, so its law holds while there is room.
\<close>

section \<open>The in-memory log\<close>

text \<open>The logs modelled here raise only for an empty commit; \<open>LogUnavailable\<close> is any other failure of a log that the
  callers have to expect.\<close>

datatype log_error = EmptyCommit | LogUnavailable

definition MAX_RETAINED_RUNS :: nat where
  "MAX_RETAINED_RUNS = 5000"

record mem_log =
  ml_events_by_run :: "(string \<times> runtime_event list) list"
  ml_next_offset_by_run :: "(string \<times> int) list"
  ml_commit_sequence :: int

definition mem_log_init :: mem_log where
  "mem_log_init = \<lparr>ml_events_by_run = [], ml_next_offset_by_run = [], ml_commit_sequence = 0\<rparr>"

text \<open>The event the log stores: the constructor call copies every field but the schema version, which takes
  its default.\<close>

definition normalized_event :: "int \<Rightarrow> runtime_event \<Rightarrow> runtime_event" where
  "normalized_event offset event =
     \<lparr>ev_run_id = ev_run_id event, ev_event_id = ev_event_id event, ev_commit_offset = offset,
      ev_event_type = ev_event_type event, ev_event_class = ev_event_class event,
      ev_event_authority = ev_event_authority event, ev_ordering_key = ev_ordering_key event,
      ev_wake_policy = ev_wake_policy event, ev_created_at = ev_created_at event,
      ev_idempotency_key = ev_idempotency_key event, ev_payload_ref = ev_payload_ref event,
      ev_payload_json = ev_payload_json event, ev_schema_version = ''1''\<rparr>"

fun number_events :: "int \<Rightarrow> runtime_event list \<Rightarrow> runtime_event list" where
  "number_events next_offset [] = []"
| "number_events next_offset (event # events) =
     normalized_event next_offset event # number_events (next_offset + 1) events"

definition evict_oldest :: "nat \<Rightarrow> mem_log \<Rightarrow> mem_log" where
  "evict_oldest cap l =
     (if cap < length (ml_events_by_run l) then
        (case ml_events_by_run l of
           [] \<Rightarrow> l
         | (oldest, _) # rest \<Rightarrow> l\<lparr>ml_events_by_run := rest,
             ml_next_offset_by_run := dict_pop oldest (ml_next_offset_by_run l)\<rparr>)
      else l)"

definition mem_append :: "nat \<Rightarrow> action_commit \<Rightarrow> mem_log \<Rightarrow> (log_error + int) \<times> mem_log" where
  "mem_append cap commit l =
     (if cm_events commit = [] then (Inl EmptyCommit, l)
      else
        let run_events = (case map_of (ml_events_by_run l) (cm_run_id commit) of None \<Rightarrow> [] | Some es \<Rightarrow> es);
            next_offset = (case map_of (ml_next_offset_by_run l) (cm_run_id commit) of None \<Rightarrow> 1 | Some n \<Rightarrow> n);
            l1 = l\<lparr>ml_events_by_run := dict_set (cm_run_id commit)
                     (run_events @ number_events next_offset (cm_events commit)) (ml_events_by_run l),
                   ml_next_offset_by_run := dict_set (cm_run_id commit)
                     (next_offset + int (length (cm_events commit))) (ml_next_offset_by_run l),
                   ml_commit_sequence := ml_commit_sequence l + 1\<rparr>
        in (Inr (ml_commit_sequence l1), evict_oldest cap l1))"

definition mem_load :: "string \<Rightarrow> int \<Rightarrow> mem_log \<Rightarrow> runtime_event list" where
  "mem_load run_id after_offset l =
     filter (\<lambda>event. after_offset < ev_commit_offset event)
       (case map_of (ml_events_by_run l) run_id of None \<Rightarrow> [] | Some es \<Rightarrow> es)"

definition cleanup_completed_run :: "string \<Rightarrow> mem_log \<Rightarrow> mem_log" where
  "cleanup_completed_run run_id l =
     l\<lparr>ml_events_by_run := dict_pop run_id (ml_events_by_run l),
       ml_next_offset_by_run := dict_pop run_id (ml_next_offset_by_run l)\<rparr>"

section \<open>The durable log\<close>

record event_row =
  er_commit_sequence :: int
  er_event_index :: int
  er_stream_run_id :: string
  er_event_run_id :: string
  er_commit_offset :: int
  er_event_id :: string
  er_event_type :: string
  er_event_class :: event_class
  er_event_authority :: event_authority
  er_ordering_key :: string
  er_wake_policy :: wake_policy
  er_created_at :: string
  er_idempotency_key :: "string option"
  er_payload_ref :: "string option"
  er_payload_json :: "string option"

record commit_row =
  cr_commit_sequence :: int
  cr_stream_run_id :: string
  cr_commit_id :: string
  cr_created_at :: string
  cr_event_count :: nat

text \<open>The tables; \<open>db_autoincrement\<close> is the largest commit sequence SQLite has handed out.\<close>

record log_db =
  db_commits :: "commit_row list"
  db_events :: "event_row list"
  db_autoincrement :: int

definition log_db_init :: log_db where
  "log_db_init = \<lparr>db_commits = [], db_events = [], db_autoincrement = 0\<rparr>"

definition serialize_payload :: "(json_dict \<Rightarrow> string) \<Rightarrow> json_dict option \<Rightarrow> string option" where
  "serialize_payload dumps p = map_option dumps p"

definition deserialize_payload :: "(string \<Rightarrow> json_dict) \<Rightarrow> string option \<Rightarrow> json_dict option" where
  "deserialize_payload loads p = map_option loads p"

definition stream_offsets :: "string \<Rightarrow> log_db \<Rightarrow> int list" where
  "stream_offsets run_id db = map er_commit_offset (filter (\<lambda>r. er_stream_run_id r = run_id) (db_events db))"

definition db_max_offset :: "string \<Rightarrow> log_db \<Rightarrow> int" where
  "db_max_offset run_id db = (case stream_offsets run_id db of [] \<Rightarrow> 0 | x # xs \<Rightarrow> fold max xs x)"

definition load_next_offset :: "string \<Rightarrow> log_db \<Rightarrow> int" where
  "load_next_offset run_id db = db_max_offset run_id db + 1"

definition insert_commit_row :: "action_commit \<Rightarrow> log_db \<Rightarrow> int \<times> log_db" where
  "insert_commit_row commit db =
     (let sequence = db_autoincrement db + 1 in
      (sequence, db\<lparr>db_autoincrement := sequence, db_commits := db_commits db @
         [\<lparr>cr_commit_sequence = sequence, cr_stream_run_id = cm_run_id commit, cr_commit_id = cm_commit_id commit,
           cr_created_at = cm_created_at commit, cr_event_count = length (cm_events commit)\<rparr>]\<rparr>))"

fun insert_event_rows ::
  "(json_dict \<Rightarrow> string) \<Rightarrow> string \<Rightarrow> int \<Rightarrow> int \<Rightarrow> int \<Rightarrow> runtime_event list \<Rightarrow> event_row list \<Rightarrow> event_row list" where
  "insert_event_rows dumps stream sequence starting_offset index [] rows = rows"
| "insert_event_rows dumps stream sequence starting_offset index (event # events) rows =
     insert_event_rows dumps stream sequence starting_offset (index + 1) events (rows @
       [\<lparr>er_commit_sequence = sequence, er_event_index = index, er_stream_run_id = stream,
         er_event_run_id = ev_run_id event, er_commit_offset = starting_offset + index,
         er_event_id = ev_event_id event, er_event_type = ev_event_type event,
         er_event_class = ev_event_class event, er_event_authority = ev_event_authority event,
         er_ordering_key = ev_ordering_key event, er_wake_policy = ev_wake_policy event,
         er_created_at = ev_created_at event, er_idempotency_key = ev_idempotency_key event,
         er_payload_ref = ev_payload_ref event,
         er_payload_json = serialize_payload dumps (ev_payload_json event)\<rparr>])"

definition sqlite_append :: "(json_dict \<Rightarrow> string) \<Rightarrow> action_commit \<Rightarrow> log_db \<Rightarrow> (log_error + int) \<times> log_db" where
  "sqlite_append dumps commit db =
     (if cm_events commit = [] then (Inl EmptyCommit, db)
      else
        let next_offset = load_next_offset (cm_run_id commit) db;
            (commit_sequence, db1) = insert_commit_row commit db
        in (Inr commit_sequence, db1\<lparr>db_events :=
              insert_event_rows dumps (cm_run_id commit) commit_sequence next_offset 0 (cm_events commit) (db_events db1)\<rparr>))"

definition row_to_runtime_event :: "(string \<Rightarrow> json_dict) \<Rightarrow> event_row \<Rightarrow> runtime_event" where
  "row_to_runtime_event loads r =
     \<lparr>ev_run_id = er_event_run_id r, ev_event_id = er_event_id r, ev_commit_offset = er_commit_offset r,
      ev_event_type = er_event_type r, ev_event_class = er_event_class r, ev_event_authority = er_event_authority r,
      ev_ordering_key = er_ordering_key r, ev_wake_policy = er_wake_policy r, ev_created_at = er_created_at r,
      ev_idempotency_key = er_idempotency_key r, ev_payload_ref = er_payload_ref r,
      ev_payload_json = deserialize_payload loads (er_payload_json r), ev_schema_version = ''1''\<rparr>"

definition sqlite_load :: "(string \<Rightarrow> json_dict) \<Rightarrow> string \<Rightarrow> int \<Rightarrow> log_db \<Rightarrow> runtime_event list" where
  "sqlite_load loads run_id after_offset db =
     map (row_to_runtime_event loads) (sort_key er_commit_offset
       (filter (\<lambda>r. er_stream_run_id r = run_id \<and> after_offset < er_commit_offset r) (db_events db)))"

end
