(* ===== verification/Event_Log_Port.thy ===== *)
theory Event_Log_Port
  imports Event_Log
begin

text \<open>
  The event log as an interface: per run an append-only list of events with the offsets 1, 2, ...,
  whatever storage is behind it. Both logs of \<open>Event_Log\<close> are interpreted. \<open>canon\<close> is what a stored event
  keeps of the appended one (both logs reset the schema version, the durable one sends the payload
  through the JSON codec), \<open>room\<close> what the log needs to keep every event.
\<close>

fun spec_number :: "(runtime_event \<Rightarrow> runtime_event) \<Rightarrow> nat \<Rightarrow> runtime_event list \<Rightarrow> runtime_event list" where
  "spec_number canon n [] = []"
| "spec_number canon n (e # es) = (canon e)\<lparr>ev_commit_offset := int n + 1\<rparr> # spec_number canon (Suc n) es"

definition numbered :: "runtime_event list \<Rightarrow> bool" where
  "numbered es = (\<forall>i<length es. ev_commit_offset (es ! i) = int i + 1)"

lemma length_spec_number [simp]: "length (spec_number canon n es) = length es"
  by (induction canon n es rule: spec_number.induct) auto

lemma spec_number_nth: "i < length es \<Longrightarrow> ev_commit_offset (spec_number canon n es ! i) = int n + int i + 1"
  by (induction canon n es arbitrary: i rule: spec_number.induct) (auto simp: nth_Cons split: nat.splits)

lemma numbered_append: "numbered es \<Longrightarrow> numbered (es @ spec_number canon (length es) cs)"
  by (auto simp: numbered_def nth_append spec_number_nth)

lemma numbered_take: "numbered es \<Longrightarrow> numbered (take n es)"
  by (simp add: numbered_def)

lemma numbered_filter:
  assumes "numbered es" "0 \<le> k"
  shows "filter (\<lambda>e. k < ev_commit_offset e) es = drop (nat k) es"
proof -
  have "filter (\<lambda>e. k < ev_commit_offset e) (take (nat k) es) = []"
    using assms by (auto simp: numbered_def filter_empty_conv in_set_conv_nth)
  moreover have "filter (\<lambda>e. k < ev_commit_offset e) (drop (nat k) es) = drop (nat k) es"
    using assms by (auto simp: numbered_def filter_id_conv in_set_conv_nth)
  ultimately show ?thesis by (metis append_Nil append_take_drop_id filter_append)
qed

locale event_log =
  fixes append :: "action_commit \<Rightarrow> 's \<Rightarrow> (log_error + int) \<times> 's"
    and load :: "string \<Rightarrow> int \<Rightarrow> 's \<Rightarrow> runtime_event list"
    and inv :: "'s \<Rightarrow> bool"
    and stream :: "'s \<Rightarrow> string \<Rightarrow> runtime_event list"
    and canon :: "runtime_event \<Rightarrow> runtime_event"
    and room :: "action_commit \<Rightarrow> 's \<Rightarrow> bool"
  assumes append_empty: "cm_events c = [] \<Longrightarrow> append c s = (Inl EmptyCommit, s)"
    and append_accepts: "cm_events c \<noteq> [] \<Longrightarrow> \<exists>n. fst (append c s) = Inr n"
    and append_inv: "inv s \<Longrightarrow> room c s \<Longrightarrow> inv (snd (append c s))"
    and append_stream: "inv s \<Longrightarrow> room c s \<Longrightarrow> stream (snd (append c s)) rid =
      (if rid = cm_run_id c then stream s rid @ spec_number canon (length (stream s rid)) (cm_events c) else stream s rid)"
    and load_stream: "inv s \<Longrightarrow> load rid k s = filter (\<lambda>e. k < ev_commit_offset e) (stream s rid)"
    and stream_numbered: "inv s \<Longrightarrow> numbered (stream s rid)"
begin

lemma load_drop: "inv s \<Longrightarrow> 0 \<le> k \<Longrightarrow> load rid k s = drop (nat k) (stream s rid)"
  by (simp add: load_stream numbered_filter stream_numbered)

fun appends :: "action_commit list \<Rightarrow> 's \<Rightarrow> 's" where
  "appends [] s = s"
| "appends (c # cs) s = appends cs (snd (append c s))"

fun roomy :: "action_commit list \<Rightarrow> 's \<Rightarrow> bool" where
  "roomy [] s = True"
| "roomy (c # cs) s = (room c s \<and> roomy cs (snd (append c s)))"

lemma appends_stream:
  "inv s \<Longrightarrow> roomy cs s \<Longrightarrow> inv (appends cs s) \<and> (\<exists>es. stream (appends cs s) rid = stream s rid @ es \<and>
     map (\<lambda>e. e\<lparr>ev_commit_offset := 0\<rparr>) es =
     map (\<lambda>e. (canon e)\<lparr>ev_commit_offset := 0\<rparr>) (concat (map cm_events (filter (\<lambda>c. cm_run_id c = rid) cs))))"
proof (induction cs arbitrary: s)
  case (Cons c cs)
  have strip: "map (\<lambda>e. e\<lparr>ev_commit_offset := 0\<rparr>) (spec_number canon n es) =
      map (\<lambda>e. (canon e)\<lparr>ev_commit_offset := 0\<rparr>) es" for n es
    by (induction canon n es rule: spec_number.induct) auto
  have inv: "inv (snd (append c s))" using Cons.prems append_inv by simp
  from Cons.IH [OF inv] Cons.prems(2) obtain es where es:
    "inv (appends cs (snd (append c s)))" "stream (appends cs (snd (append c s))) rid = stream (snd (append c s)) rid @ es"
    "map (\<lambda>e. e\<lparr>ev_commit_offset := 0\<rparr>) es =
     map (\<lambda>e. (canon e)\<lparr>ev_commit_offset := 0\<rparr>) (concat (map cm_events (filter (\<lambda>c. cm_run_id c = rid) cs)))" by auto
  show ?case
  proof (cases "rid = cm_run_id c")
    case True
    then show ?thesis using es Cons.prems append_stream [of s c rid]
      by (intro conjI exI [of _ "spec_number canon (length (stream s rid)) (cm_events c) @ es"]) (simp_all add: strip)
  next
    case False
    then show ?thesis using es Cons.prems append_stream [of s c rid] by auto
  qed
qed simp

end

section \<open>The in-memory log\<close>

definition mem_stream :: "mem_log \<Rightarrow> string \<Rightarrow> runtime_event list" where
  "mem_stream l rid = (case map_of (ml_events_by_run l) rid of None \<Rightarrow> [] | Some es \<Rightarrow> es)"

definition mem_log_ok :: "mem_log \<Rightarrow> bool" where
  "mem_log_ok l = (distinct (map fst (ml_events_by_run l)) \<and>
     (\<forall>rid. map_of (ml_next_offset_by_run l) rid =
        map_option (\<lambda>es. int (length es) + 1) (map_of (ml_events_by_run l) rid)) \<and>
     (\<forall>rid. numbered (mem_stream l rid)))"

definition mem_norm :: "runtime_event \<Rightarrow> runtime_event" where
  "mem_norm e = e\<lparr>ev_schema_version := ''1''\<rparr>"

definition mem_room :: "nat \<Rightarrow> action_commit \<Rightarrow> mem_log \<Rightarrow> bool" where
  "mem_room cap c l = (length (ml_events_by_run l) < cap \<or>
     (cm_run_id c \<in> fst ` set (ml_events_by_run l) \<and> length (ml_events_by_run l) \<le> cap))"

lemma normalized_event_norm: "normalized_event k e = (mem_norm e)\<lparr>ev_commit_offset := k\<rparr>"
  by (simp add: normalized_event_def mem_norm_def)

lemma number_events_spec: "number_events (int n + 1) es = spec_number mem_norm n es"
proof (induction es arbitrary: n)
  case (Cons e es)
  have "number_events (int (Suc n) + 1) es = spec_number mem_norm (Suc n) es" by (rule Cons)
  then show ?case by (simp add: normalized_event_norm add.commute)
qed simp

lemma length_dict_set: "length (dict_set k v d) = (if k \<in> fst ` set d then length d else Suc (length d))"
  by (induction k v d rule: dict_set.induct) auto

lemma mem_append_stream:
  assumes "mem_log_ok l" "mem_room cap c l" "cm_events c \<noteq> []"
  shows "ml_events_by_run (snd (mem_append cap c l)) = dict_set (cm_run_id c)
      (mem_stream l (cm_run_id c) @ spec_number mem_norm (length (mem_stream l (cm_run_id c))) (cm_events c)) (ml_events_by_run l) \<and>
    ml_next_offset_by_run (snd (mem_append cap c l)) = dict_set (cm_run_id c)
      (int (length (mem_stream l (cm_run_id c))) + 1 + int (length (cm_events c))) (ml_next_offset_by_run l)"
proof -
  let ?n = "length (mem_stream l (cm_run_id c))"
  have next': "(case map_of (ml_next_offset_by_run l) (cm_run_id c) of None \<Rightarrow> 1 | Some n \<Rightarrow> n) = int ?n + 1"
    using assms(1) by (auto simp: mem_log_ok_def mem_stream_def split: option.splits)
  have "length (dict_set (cm_run_id c) x (ml_events_by_run l)) \<le> cap" for x
    using assms(2) by (auto simp: length_dict_set mem_room_def)
  then have "\<not> cap < length (dict_set (cm_run_id c) x (ml_events_by_run l))" for x by (simp add: not_less)
  then show ?thesis using assms(3)
    by (simp add: mem_append_def Let_def evict_oldest_def next' number_events_spec mem_stream_def [symmetric])
qed

lemma mem_append_effect:
  assumes "mem_log_ok l" "mem_room cap c l"
  shows "mem_log_ok (snd (mem_append cap c l)) \<and> mem_stream (snd (mem_append cap c l)) rid =
    (if rid = cm_run_id c then mem_stream l rid @ spec_number mem_norm (length (mem_stream l rid)) (cm_events c) else mem_stream l rid)"
proof (cases "cm_events c = []")
  case False
  note app = mem_append_stream [OF assms False]
  have s: "mem_stream (snd (mem_append cap c l)) rid =
    (if rid = cm_run_id c then mem_stream l rid @ spec_number mem_norm (length (mem_stream l rid)) (cm_events c) else mem_stream l rid)" for rid
    using app by (simp add: mem_stream_def)
  have "numbered (mem_stream (snd (mem_append cap c l)) rid)" for rid
    using assms(1) by (simp add: s numbered_append mem_log_ok_def)
  then have "mem_log_ok (snd (mem_append cap c l))"
    using assms(1) app by (auto simp: mem_log_ok_def distinct_dict_set)
  with s show ?thesis by simp
qed (use assms in \<open>simp add: mem_append_def\<close>)

interpretation mem_log: event_log "mem_append cap" mem_load mem_log_ok mem_stream mem_norm "mem_room cap" for cap
proof
  show "mem_append cap c s = (Inl EmptyCommit, s)" if "cm_events c = []" for c s
    using that by (simp add: mem_append_def)
  show "\<exists>n. fst (mem_append cap c s) = Inr n" if "cm_events c \<noteq> []" for c s
    using that by (simp add: mem_append_def Let_def)
  show "numbered (mem_stream s rid)" if "mem_log_ok s" for s rid using that by (simp add: mem_log_ok_def)
qed (simp_all add: mem_append_effect mem_load_def mem_stream_def [symmetric])

section \<open>The durable log\<close>

definition db_rows_of :: "log_db \<Rightarrow> string \<Rightarrow> event_row list" where
  "db_rows_of db rid = filter (\<lambda>r. er_stream_run_id r = rid) (db_events db)"

definition db_stream :: "(string \<Rightarrow> json_dict) \<Rightarrow> log_db \<Rightarrow> string \<Rightarrow> runtime_event list" where
  "db_stream loads db rid = map (row_to_runtime_event loads) (db_rows_of db rid)"

text \<open>The rows of a run are in offset order, and the offsets have no gaps.\<close>

definition log_db_ok :: "log_db \<Rightarrow> bool" where
  "log_db_ok db = (\<forall>rid. \<forall>i<length (db_rows_of db rid). er_commit_offset (db_rows_of db rid ! i) = int i + 1)"

definition db_norm :: "(json_dict \<Rightarrow> string) \<Rightarrow> (string \<Rightarrow> json_dict) \<Rightarrow> runtime_event \<Rightarrow> runtime_event" where
  "db_norm dumps loads e = e\<lparr>ev_schema_version := ''1'', ev_payload_json := map_option (\<lambda>p. loads (dumps p)) (ev_payload_json e)\<rparr>"

definition new_rows :: "(json_dict \<Rightarrow> string) \<Rightarrow> string \<Rightarrow> int \<Rightarrow> int \<Rightarrow> int \<Rightarrow> runtime_event list \<Rightarrow> event_row list" where
  "new_rows dumps stream sequence start index es = insert_event_rows dumps stream sequence start index es []"

lemma insert_event_rows_append:
  "insert_event_rows dumps stream sequence start index es (rows @ rows') =
     rows @ insert_event_rows dumps stream sequence start index es rows'"
  by (induction es arbitrary: index rows') simp_all

lemma insert_event_rows_Cons:
  "insert_event_rows dumps stream sequence start index es (row # rows) =
     row # insert_event_rows dumps stream sequence start index es rows"
  using insert_event_rows_append [of dumps stream sequence start index es "[row]" rows] by simp

lemma insert_event_rows_new:
  "insert_event_rows dumps stream sequence start index es rows = rows @ new_rows dumps stream sequence start index es"
  using insert_event_rows_append [of dumps stream sequence start index es rows "[]"] by (simp add: new_rows_def)

lemma new_rows_simps [simp]:
  "new_rows dumps stream sequence start index [] = []"
  "new_rows dumps stream sequence start index (e # es) =
     \<lparr>er_commit_sequence = sequence, er_event_index = index, er_stream_run_id = stream,
      er_event_run_id = ev_run_id e, er_commit_offset = start + index, er_event_id = ev_event_id e,
      er_event_type = ev_event_type e, er_event_class = ev_event_class e, er_event_authority = ev_event_authority e,
      er_ordering_key = ev_ordering_key e, er_wake_policy = ev_wake_policy e, er_created_at = ev_created_at e,
      er_idempotency_key = ev_idempotency_key e, er_payload_ref = ev_payload_ref e,
      er_payload_json = serialize_payload dumps (ev_payload_json e)\<rparr> # new_rows dumps stream sequence start (index + 1) es"
  by (simp_all add: new_rows_def insert_event_rows_Cons)

lemma length_new_rows [simp]: "length (new_rows dumps stream sequence start index es) = length es"
  by (induction es arbitrary: index) simp_all

lemma new_rows_stream: "\<forall>r\<in>set (new_rows dumps stream sequence start index es). er_stream_run_id r = stream"
  by (induction es arbitrary: index) simp_all

lemma new_rows_offset: "i < length es \<Longrightarrow> er_commit_offset (new_rows dumps stream sequence start index es ! i) = start + index + int i"
  by (induction es arbitrary: i index) (auto simp: nth_Cons split: nat.splits)

lemma new_rows_events:
  "map (row_to_runtime_event loads) (new_rows dumps stream sequence (int n + 1) (int m) es) =
     spec_number (db_norm dumps loads) (n + m) es"
proof (induction es arbitrary: m)
  case (Cons e es)
  have "map (row_to_runtime_event loads) (new_rows dumps stream sequence (int n + 1) (int (Suc m)) es) =
      spec_number (db_norm dumps loads) (n + Suc m) es" by (rule Cons)
  moreover have "row_to_runtime_event loads \<lparr>er_commit_sequence = sequence, er_event_index = int m, er_stream_run_id = stream,
      er_event_run_id = ev_run_id e, er_commit_offset = int n + 1 + int m, er_event_id = ev_event_id e,
      er_event_type = ev_event_type e, er_event_class = ev_event_class e, er_event_authority = ev_event_authority e,
      er_ordering_key = ev_ordering_key e, er_wake_policy = ev_wake_policy e, er_created_at = ev_created_at e,
      er_idempotency_key = ev_idempotency_key e, er_payload_ref = ev_payload_ref e,
      er_payload_json = serialize_payload dumps (ev_payload_json e)\<rparr> =
      (db_norm dumps loads e)\<lparr>ev_commit_offset := int (n + m) + 1\<rparr>"
    by (simp add: row_to_runtime_event_def db_norm_def serialize_payload_def deserialize_payload_def
        option.map_comp comp_def)
  moreover have "int m + 1 = int (Suc m)" by simp
  ultimately show ?case by (simp only: new_rows_simps list.map spec_number.simps add_Suc_right)
qed simp

lemma fold_max_bounded:
  assumes "x \<in> set (y # ys)" "\<forall>z\<in>set (y # ys). z \<le> x"
  shows "fold max ys y = (x :: int)"
proof -
  have "fold max ys y = Max (set (y # ys))" by (rule Max.set_eq_fold [symmetric])
  also have "\<dots> = x" by (rule Max_eqI) (use assms in auto)
  finally show ?thesis .
qed


lemma db_max_offset_length:
  assumes "log_db_ok db"
  shows "db_max_offset rid db = int (length (db_rows_of db rid))"
proof (cases "db_rows_of db rid")
  case Nil
  then show ?thesis by (simp add: db_max_offset_def stream_offsets_def db_rows_of_def)
next
  case (Cons r rs)
  let ?os = "map er_commit_offset (db_rows_of db rid)"
  have os: "?os ! i = int i + 1" if "i < length ?os" for i using assms that by (simp add: log_db_ok_def)
  have "?os ! (length ?os - 1) = int (length ?os)" using os [of "length ?os - 1"] Cons by simp
  moreover have "length ?os - 1 < length ?os" using Cons by simp
  ultimately have mem: "int (length ?os) \<in> set ?os" by (metis nth_mem)
  have "\<forall>z\<in>set ?os. z \<le> int (length ?os)" using os by (auto simp: in_set_conv_nth)
  then show ?thesis using fold_max_bounded [of "int (length ?os)" "er_commit_offset r" "map er_commit_offset rs"] mem Cons
    by (simp add: db_max_offset_def stream_offsets_def db_rows_of_def [symmetric])
qed


lemma sqlite_append_rows:
  assumes "log_db_ok db"
  shows "db_rows_of (snd (sqlite_append dumps c db)) rid = (if rid = cm_run_id c then
    db_rows_of db rid @ new_rows dumps rid (db_autoincrement db + 1) (int (length (db_rows_of db rid)) + 1) 0 (cm_events c)
    else db_rows_of db rid)"
proof -
  have "filter (\<lambda>r. er_stream_run_id r = rid) (new_rows dumps stream sequence start 0 es) =
      (if rid = stream then new_rows dumps stream sequence start 0 es else [])" for stream sequence start es
    using new_rows_stream [of dumps stream sequence start 0 es] by (auto simp: filter_id_conv filter_empty_conv)
  then show ?thesis
    by (auto simp: sqlite_append_def insert_commit_row_def Let_def load_next_offset_def db_max_offset_length [OF assms]
        insert_event_rows_new db_rows_of_def)
qed

lemma sqlite_append_effect:
  assumes "log_db_ok db"
  shows "log_db_ok (snd (sqlite_append dumps c db)) \<and> db_stream loads (snd (sqlite_append dumps c db)) rid =
    (if rid = cm_run_id c then db_stream loads db rid @ spec_number (db_norm dumps loads) (length (db_stream loads db rid)) (cm_events c)
     else db_stream loads db rid)"
proof
  show "log_db_ok (snd (sqlite_append dumps c db))"
    unfolding log_db_ok_def sqlite_append_rows [OF assms]
    using assms by (auto simp: log_db_ok_def nth_append new_rows_offset)
  show "db_stream loads (snd (sqlite_append dumps c db)) rid =
    (if rid = cm_run_id c then db_stream loads db rid @ spec_number (db_norm dumps loads) (length (db_stream loads db rid)) (cm_events c)
     else db_stream loads db rid)"
    using new_rows_events [of loads dumps rid "db_autoincrement db + 1" "length (db_rows_of db rid)" 0 "cm_events c"]
    by (auto simp: db_stream_def sqlite_append_rows [OF assms])
qed

lemma sorted_rows:
  assumes "log_db_ok db"
  shows "sort_key er_commit_offset (filter (\<lambda>r. k < er_commit_offset r) (db_rows_of db rid)) =
    filter (\<lambda>r. k < er_commit_offset r) (db_rows_of db rid)"
proof -
  have "sorted (map er_commit_offset (db_rows_of db rid))"
    using assms by (auto simp: sorted_iff_nth_mono log_db_ok_def)
  then have "sorted (map er_commit_offset (filter (\<lambda>r. k < er_commit_offset r) (db_rows_of db rid)))"
    by (rule sorted_filter)
  then show ?thesis by (rule sort_key_id_if_sorted)
qed

lemma sqlite_load_stream:
  assumes "log_db_ok db"
  shows "sqlite_load loads rid k db = filter (\<lambda>e. k < ev_commit_offset e) (db_stream loads db rid)"
proof -
  have "filter (\<lambda>r. er_stream_run_id r = rid \<and> k < er_commit_offset r) (db_events db) =
      filter (\<lambda>r. k < er_commit_offset r) (db_rows_of db rid)"
    by (simp add: db_rows_of_def conj_commute)
  then show ?thesis using sorted_rows [OF assms, of k rid]
    by (simp add: sqlite_load_def db_stream_def filter_map comp_def row_to_runtime_event_def)
qed

interpretation sqlite_log: event_log "sqlite_append dumps" "sqlite_load loads" log_db_ok "db_stream loads"
    "db_norm dumps loads" "\<lambda>_ _. True" for dumps loads
proof
  show "sqlite_append dumps c s = (Inl EmptyCommit, s)" if "cm_events c = []" for c s
    using that by (simp add: sqlite_append_def)
  show "\<exists>n. fst (sqlite_append dumps c s) = Inr n" if "cm_events c \<noteq> []" for c s
    using that by (simp add: sqlite_append_def insert_commit_row_def Let_def)
  show "numbered (db_stream loads s rid)" if "log_db_ok s" for s rid
    using that by (simp add: log_db_ok_def numbered_def db_stream_def row_to_runtime_event_def)
qed (simp_all add: sqlite_append_effect sqlite_load_stream)

text \<open>The durable log counts up to the number of events it holds.\<close>

lemma max_offset_counts: "log_db_ok db \<Longrightarrow> db_max_offset rid db = int (length (db_stream loads db rid))"
  by (simp add: db_max_offset_length db_stream_def)

end
