(* ===== verification/Projection.thy ===== *)
theory Projection
  imports Event_Log_Port
begin

text \<open>
  The decision projection of \<open>agent_kernel/kernel/minimal_runtime.py\<close>: what one event does to the state of
  a run, and the service that keeps a projection per run and catches it up from the event log. The
  log is a parameter: the service calls its \<open>load\<close>. The optional schema migrator is a parameter too,
  a function that may raise.
\<close>

section \<open>One event\<close>

definition default_projection :: "string \<Rightarrow> run_projection" where
  "default_projection run_id =
     \<lparr>pj_run_id = run_id, pj_lifecycle_state = L_created, pj_projected_offset = 0, pj_waiting_external = False,
      pj_ready_for_dispatch = False, pj_current_action_id = None, pj_recovery_mode = None,
      pj_recovery_reason = None, pj_active_child_runs = []\<rparr>"

type_synonym flags = "run_lifecycle_state \<times> bool \<times> bool \<times> recovery_mode option"

definition STATIC_EVENT_TRANSITIONS :: "string \<Rightarrow> flags option" where
  "STATIC_EVENT_TRANSITIONS = map_of
     [(''run.created'', (L_created, False, False, None)),
      (''run.ready'', (L_ready, False, True, None)),
      (''run.resume_requested'', (L_recovering, False, False, Some Static_compensation)),
      (''run.cancel_requested'', (L_aborted, False, False, Some Abort_mode)),
      (''run.recovery_succeeded'', (L_ready, False, True, None)),
      (''run.recovery_aborted'', (L_aborted, False, False, Some Abort_mode)),
      (''run.waiting_external'', (L_waiting_external, True, False, Some Human_escalation)),
      (''run.dispatching'', (L_dispatching, False, True, None)),
      (''run.recovering'', (L_recovering, False, False, Some Static_compensation)),
      (''run.completed'', (L_completed, False, False, None)),
      (''run.aborted'', (L_aborted, False, False, Some Abort_mode))]"

datatype operational_class = External_callback | Timeout_class | Hard_failure | Cancel_class

definition OPERATIONAL_PRIORITY_RANK :: "operational_class \<Rightarrow> nat" where
  "OPERATIONAL_PRIORITY_RANK c = (case c of External_callback \<Rightarrow> 1 | Timeout_class \<Rightarrow> 2 | Hard_failure \<Rightarrow> 3 | Cancel_class \<Rightarrow> 4)"

definition is_cancel_reason :: "string option \<Rightarrow> bool" where
  "is_cancel_reason reason = (case reason of None \<Rightarrow> False | Some r \<Rightarrow> sublist ''cancel'' (py_lower r))"

definition projection_operational_priority :: "run_projection \<Rightarrow> operational_class option" where
  "projection_operational_priority p =
     (if pj_lifecycle_state p = L_aborted then
        (if is_cancel_reason (pj_recovery_reason p) then Some Cancel_class else Some Hard_failure)
      else if pj_lifecycle_state p = L_waiting_external then Some Timeout_class else None)"

definition event_operational_priority :: "string \<Rightarrow> operational_class option" where
  "event_operational_priority event_type =
     (if event_type = ''run.cancel_requested'' then Some Cancel_class
      else if event_type \<in> {''run.recovery_aborted'', ''run.aborted''} then Some Hard_failure
      else if event_type \<in> {''run.waiting_external'', ''reconcile.failed''} then Some Timeout_class
      else if event_type \<in> {''signal.external_callback'', ''signal.callback''} then Some External_callback
      else None)"

definition is_lower_priority_operational_conflict :: "run_projection \<Rightarrow> runtime_event \<Rightarrow> bool" where
  "is_lower_priority_operational_conflict p event =
     (case (projection_operational_priority p, event_operational_priority (ev_event_type event)) of
        (Some current, Some incoming) \<Rightarrow> OPERATIONAL_PRIORITY_RANK incoming < OPERATIONAL_PRIORITY_RANK current
      | _ \<Rightarrow> False)"

definition derive_recovery_reason :: "runtime_event \<Rightarrow> string option \<Rightarrow> string option" where
  "derive_recovery_reason event fallback =
     (case get_str (payload (ev_payload_json event)) ''reason'' of
        Some r \<Rightarrow> Some r
      | None \<Rightarrow> if ev_event_type event \<in> {''run.ready'', ''run.completed'', ''run.created''} then None else fallback)"

definition derive_cancel_reason :: "runtime_event \<Rightarrow> string option \<Rightarrow> string" where
  "derive_cancel_reason event fallback =
     (case derive_recovery_reason event fallback of Some r \<Rightarrow> r | None \<Rightarrow> ''cancel_requested'')"

definition resolve_dynamic_transition :: "string \<Rightarrow> flags option" where
  "resolve_dynamic_transition event_type =
     (if event_type \<in> {''signal.child_spawned'', ''signal.child_completed'', ''signal.child_run_completed''} then None
      else if py_startswith event_type ''signal.'' then Some (L_ready, False, True, None) else None)"

definition projection_unchanged_state :: "run_projection \<Rightarrow> flags \<times> string option" where
  "projection_unchanged_state p =
     ((pj_lifecycle_state p, pj_waiting_external p, pj_ready_for_dispatch p, pj_recovery_mode p), pj_recovery_reason p)"

definition resolve_projection_transition :: "run_projection \<Rightarrow> runtime_event \<Rightarrow> flags \<times> string option" where
  "resolve_projection_transition p event =
     (if pj_lifecycle_state p = L_completed \<or> is_lower_priority_operational_conflict p event \<or>
         (pj_lifecycle_state p = L_aborted \<and> ev_event_type event \<noteq> ''run.cancel_requested'')
      then projection_unchanged_state p
      else if ev_event_type event = ''run.cancel_requested'' then
        ((L_aborted, False, False, Some Abort_mode), Some (derive_cancel_reason event (pj_recovery_reason p)))
      else if ev_event_type event = ''reconcile.failed'' then
        ((L_waiting_external, True, False, Some Human_escalation), derive_recovery_reason event (pj_recovery_reason p))
      else case STATIC_EVENT_TRANSITIONS (ev_event_type event) of
          Some static_transition \<Rightarrow> (static_transition, derive_recovery_reason event (pj_recovery_reason p))
        | None \<Rightarrow>
            (case resolve_dynamic_transition (ev_event_type event) of
               Some dynamic_transition \<Rightarrow> (dynamic_transition, pj_recovery_reason p)
             | None \<Rightarrow> projection_unchanged_state p))"

definition extract_child_run_id :: "runtime_event \<Rightarrow> string option" where
  "extract_child_run_id event =
     (case get_str (payload (ev_payload_json event)) ''child_run_id'' of
        Some c \<Rightarrow> if c = '''' then None else Some c
      | None \<Rightarrow> None)"

definition resolve_active_child_runs :: "run_projection \<Rightarrow> runtime_event \<Rightarrow> string list" where
  "resolve_active_child_runs p event =
     (if pj_lifecycle_state p \<in> {L_aborted, L_completed} then pj_active_child_runs p
      else case extract_child_run_id event of
        None \<Rightarrow> pj_active_child_runs p
      | Some child_run_id \<Rightarrow>
          if ev_event_type event \<in> {''run.child_spawned'', ''signal.child_spawned''} then
            (if child_run_id \<in> set (pj_active_child_runs p) then pj_active_child_runs p
             else pj_active_child_runs p @ [child_run_id])
          else if ev_event_type event \<in> {''run.child_completed'', ''run.child_run_completed'',
              ''signal.child_completed'', ''signal.child_run_completed''} then
            filter (\<lambda>r. r \<noteq> child_run_id) (pj_active_child_runs p)
          else pj_active_child_runs p)"

definition apply_projection_event :: "run_projection \<Rightarrow> runtime_event \<Rightarrow> run_projection" where
  "apply_projection_event p event =
     (let ((lifecycle_state, waiting_external, ready_for_dispatch, recovery_mode), recovery_reason) =
            resolve_projection_transition p event
      in \<lparr>pj_run_id = pj_run_id p, pj_lifecycle_state = lifecycle_state,
          pj_projected_offset = ev_commit_offset event, pj_waiting_external = waiting_external,
          pj_ready_for_dispatch = ready_for_dispatch, pj_current_action_id = pj_current_action_id p,
          pj_recovery_mode = recovery_mode, pj_recovery_reason = recovery_reason,
          pj_active_child_runs = resolve_active_child_runs p event\<rparr>)"

definition validate_projection_authority_input :: "runtime_event \<Rightarrow> bool \<Rightarrow> bool" where
  "validate_projection_authority_input event reject_derived_diagnostic =
     (\<not> (reject_derived_diagnostic \<and> ev_event_authority event = Derived_diagnostic))"

section \<open>The service\<close>

text \<open>A migrator maps an event to an event or raises; the message is \<open>'e\<close>.\<close>

type_synonym 'e migrator = "runtime_event \<Rightarrow> 'e + runtime_event"

definition maybe_migrate_event :: "'e migrator option \<Rightarrow> runtime_event \<Rightarrow> 'e + runtime_event" where
  "maybe_migrate_event m event = (case m of None \<Rightarrow> Inr event | Some migrate \<Rightarrow> migrate event)"

record 'e projection_service =
  ps_projection_by_run :: "(string \<times> run_projection) list"
  ps_reject_derived_diagnostic :: bool
  ps_migrator :: "'e migrator option"

fun replay_unseen :: "'e migrator option \<Rightarrow> bool \<Rightarrow> runtime_event list \<Rightarrow> run_projection \<Rightarrow> 'e + run_projection" where
  "replay_unseen m reject [] projection = Inr projection"
| "replay_unseen m reject (event # events) projection =
     (case maybe_migrate_event m event of
        Inl e \<Rightarrow> Inl e
      | Inr event' \<Rightarrow>
          if validate_projection_authority_input event' reject
          then replay_unseen m reject events (apply_projection_event projection event')
          else replay_unseen m reject events projection)"

definition stored_projection :: "string \<Rightarrow> 'e projection_service \<Rightarrow> run_projection" where
  "stored_projection run_id s =
     (case map_of (ps_projection_by_run s) run_id of None \<Rightarrow> default_projection run_id | Some p \<Rightarrow> p)"

definition catch_up ::
  "(string \<Rightarrow> int \<Rightarrow> runtime_event list) \<Rightarrow> string \<Rightarrow> int \<Rightarrow> 'e projection_service \<Rightarrow>
   ('e + run_projection) \<times> 'e projection_service" where
  "catch_up load run_id through_offset s =
     (let projection = stored_projection run_id s;
          unseen_events = load run_id (pj_projected_offset projection)
      in case replay_unseen (ps_migrator s) (ps_reject_derived_diagnostic s)
           (takeWhile (\<lambda>event. ev_commit_offset event \<le> through_offset) unseen_events) projection of
           Inl e \<Rightarrow> (Inl e, s)
         | Inr p \<Rightarrow> (Inr p, s\<lparr>ps_projection_by_run := dict_set run_id p (ps_projection_by_run s)\<rparr>))"

definition get_projection ::
  "(string \<Rightarrow> int \<Rightarrow> runtime_event list) \<Rightarrow> string \<Rightarrow> 'e projection_service \<Rightarrow>
   ('e + run_projection) \<times> 'e projection_service" where
  "get_projection load run_id s =
     (let projection = stored_projection run_id s;
          unseen_events = load run_id (pj_projected_offset projection)
      in case replay_unseen (ps_migrator s) (ps_reject_derived_diagnostic s) unseen_events projection of
           Inl e \<Rightarrow> (Inl e, s)
         | Inr p \<Rightarrow> (Inr p, s\<lparr>ps_projection_by_run := dict_set run_id p (ps_projection_by_run s)\<rparr>))"

definition readiness ::
  "(string \<Rightarrow> int \<Rightarrow> runtime_event list) \<Rightarrow> string \<Rightarrow> int \<Rightarrow> 'e projection_service \<Rightarrow>
   ('e + bool) \<times> 'e projection_service" where
  "readiness load run_id required_offset s =
     (case get_projection load run_id s of
        (Inl e, s') \<Rightarrow> (Inl e, s')
      | (Inr p, s') \<Rightarrow> (Inr (required_offset \<le> pj_projected_offset p), s'))"

end
