(* ===== verification/Projection_Theorems.thy ===== *)
theory Projection_Theorems
  imports Projection
begin

text \<open>
  What the projection promises: its flags are a function of the lifecycle state, terminal states are
  final, catching up step by step is the same as replaying the whole log, on either log; and where
  it falls short: the offset it reports and the in-memory log's eviction.
\<close>

section \<open>The flags follow the state\<close>

definition state_flags :: "run_lifecycle_state \<Rightarrow> bool \<times> bool \<times> recovery_mode option" where
  "state_flags s = (case s of
       L_ready \<Rightarrow> (False, True, None)
     | L_dispatching \<Rightarrow> (False, True, None)
     | L_waiting_external \<Rightarrow> (True, False, Some Human_escalation)
     | L_recovering \<Rightarrow> (False, False, Some Static_compensation)
     | L_aborted \<Rightarrow> (False, False, Some Abort_mode)
     | _ \<Rightarrow> (False, False, None))"

definition projection_ok :: "run_projection \<Rightarrow> bool" where
  "projection_ok p = (pj_lifecycle_state p \<notin> {L_waiting_result, L_failed} \<and>
     (pj_waiting_external p, pj_ready_for_dispatch p, pj_recovery_mode p) = state_flags (pj_lifecycle_state p) \<and>
     distinct (pj_active_child_runs p))"

definition flags_ok :: "flags \<Rightarrow> bool" where
  "flags_ok f = (fst f \<notin> {L_waiting_result, L_failed} \<and> snd f = state_flags (fst f))"

lemma static_flags_ok: "STATIC_EVENT_TRANSITIONS t = Some f \<Longrightarrow> flags_ok f"
  by (auto simp: STATIC_EVENT_TRANSITIONS_def flags_ok_def state_flags_def split: if_splits)

lemma dynamic_flags_ok: "resolve_dynamic_transition t = Some f \<Longrightarrow> flags_ok f"
  by (auto simp: resolve_dynamic_transition_def flags_ok_def state_flags_def split: if_splits)

lemma transition_flags_ok:
  assumes "projection_ok p"
  shows "flags_ok (fst (resolve_projection_transition p e))"
proof -
  have "flags_ok (fst (projection_unchanged_state p))"
    using assms by (simp add: projection_ok_def flags_ok_def projection_unchanged_state_def)
  moreover have "flags_ok (L_aborted, False, False, Some Abort_mode)" "flags_ok (L_waiting_external, True, False, Some Human_escalation)"
    by (simp_all add: flags_ok_def state_flags_def)
  ultimately show ?thesis unfolding resolve_projection_transition_def
    using static_flags_ok dynamic_flags_ok by (simp split: option.split)
qed

lemma apply_event_fields:
  "pj_projected_offset (apply_projection_event p e) = ev_commit_offset e"
  "pj_run_id (apply_projection_event p e) = pj_run_id p"
  "(pj_lifecycle_state (apply_projection_event p e), pj_waiting_external (apply_projection_event p e),
    pj_ready_for_dispatch (apply_projection_event p e), pj_recovery_mode (apply_projection_event p e)) =
     fst (resolve_projection_transition p e)"
  "pj_recovery_reason (apply_projection_event p e) = snd (resolve_projection_transition p e)"
  "pj_active_child_runs (apply_projection_event p e) = resolve_active_child_runs p e"
  by (simp_all add: apply_projection_event_def split: prod.split)

lemma apply_event_ok: "projection_ok p \<Longrightarrow> projection_ok (apply_projection_event p e)"
proof -
  assume ok: "projection_ok p"
  have "distinct (resolve_active_child_runs p e)"
    using ok by (auto simp: projection_ok_def resolve_active_child_runs_def split: option.split)
  then show ?thesis
    using transition_flags_ok [OF ok, of e]
    unfolding flags_ok_def projection_ok_def apply_event_fields(3) [symmetric] apply_event_fields(5) by simp
qed

lemma default_ok [simp]: "projection_ok (default_projection rid)"
  by (simp add: projection_ok_def default_projection_def state_flags_def)

section \<open>Replay\<close>

text \<open>Whether an event takes part in the replay, after migration.\<close>

definition skipped :: "'e migrator option \<Rightarrow> bool \<Rightarrow> runtime_event \<Rightarrow> bool" where
  "skipped m reject e = (\<exists>e'. maybe_migrate_event m e = Inr e' \<and> \<not> validate_projection_authority_input e' reject)"

definition keeps_offsets :: "'e migrator option \<Rightarrow> bool" where
  "keeps_offsets m = (\<forall>e e'. maybe_migrate_event m e = Inr e' \<longrightarrow> ev_commit_offset e' = ev_commit_offset e)"

lemma keeps_offsets_None [simp]: "keeps_offsets None"
  by (simp add: keeps_offsets_def maybe_migrate_event_def)

lemma replay_append:
  "replay_unseen m reject (xs @ ys) p =
     (case replay_unseen m reject xs p of Inl e \<Rightarrow> Inl e | Inr p' \<Rightarrow> replay_unseen m reject ys p')"
  by (induction xs arbitrary: p) (auto split: sum.split)

lemma replay_skipped: "list_all (skipped m reject) xs \<Longrightarrow> replay_unseen m reject xs p = Inr p"
  by (induction xs) (auto simp: skipped_def)

lemma replay_ok: "replay_unseen m reject es p = Inr p' \<Longrightarrow> projection_ok p \<Longrightarrow> projection_ok p' \<and> pj_run_id p' = pj_run_id p"
  by (induction es arbitrary: p) (auto simp: apply_event_ok apply_event_fields split: sum.splits if_splits)

text \<open>The projected offset is that of the last event that took part: what follows it was skipped.\<close>

lemma replay_offset:
  assumes "keeps_offsets m" "numbered es" "replay_unseen m reject es (default_projection rid) = Inr p"
  shows "0 \<le> pj_projected_offset p \<and> nat (pj_projected_offset p) \<le> length es \<and>
    list_all (skipped m reject) (drop (nat (pj_projected_offset p)) es)"
  using assms(2,3)
proof (induction es arbitrary: p rule: rev_induct)
  case Nil
  then show ?case by (auto simp: default_projection_def)
next
  case (snoc e es)
  obtain p0 where p0: "replay_unseen m reject es (default_projection rid) = Inr p0"
    using snoc.prems(2) by (auto simp: replay_append split: sum.splits)
  have es: "numbered es" using numbered_take [OF snoc.prems(1), of "length es"] by simp
  note IH = snoc.IH [OF es p0]
  obtain e' where e': "maybe_migrate_event m e = Inr e'"
    using snoc.prems(2) by (auto simp: replay_append p0 split: sum.splits)
  show ?case
  proof (cases "validate_projection_authority_input e' reject")
    case True
    then have "p = apply_projection_event p0 e'" using snoc.prems(2) e' by (simp add: replay_append p0)
    moreover have "ev_commit_offset e' = int (length es) + 1"
      using assms(1) e' snoc.prems(1) unfolding keeps_offsets_def numbered_def
      by (metis length_append_singleton lessI nth_append_length)
    ultimately show ?thesis by (simp add: apply_event_fields nat_add_distrib)
  next
    case False
    then have "p = p0" using snoc.prems(2) e' by (simp add: replay_append p0)
    moreover have "skipped m reject e" using e' False by (auto simp: skipped_def)
    ultimately show ?thesis using IH by simp
  qed
qed

text \<open>Resuming from the projection of any prefix gives what a replay from the start gives.\<close>

lemma resume_replay:
  assumes "keeps_offsets m" "numbered es" "replay_unseen m reject (take n es) (default_projection rid) = Inr p"
  shows "replay_unseen m reject (drop (nat (pj_projected_offset p)) es) p = replay_unseen m reject es (default_projection rid)"
proof -
  let ?o = "nat (pj_projected_offset p)"
  note off = replay_offset [OF assms(1) numbered_take [OF assms(2)] assms(3)]
  have "drop ?o es = drop ?o (take n es) @ drop n es"
    using off by (metis append_take_drop_id diff_is_0_eq drop_append drop_0)
  then have "replay_unseen m reject (drop ?o es) p = replay_unseen m reject (drop n es) p"
    using off by (simp add: replay_append replay_skipped)
  also have "\<dots> = replay_unseen m reject (take n es @ drop n es) (default_projection rid)"
    unfolding replay_append using assms(3) by simp
  finally show ?thesis by simp
qed

lemma takeWhile_offsets:
  assumes "numbered es"
  shows "takeWhile (\<lambda>e. ev_commit_offset e \<le> k) (drop n es) = drop n (take (max n (nat k)) es)"
proof -
  have "takeWhile (\<lambda>e. ev_commit_offset e \<le> k) (drop n es) = take (nat k - n) (drop n es)"
  proof (rule takeWhile_eq_take_P_nth)
    show "\<And>i. i < nat k - n \<Longrightarrow> i < length (drop n es) \<Longrightarrow> ev_commit_offset (drop n es ! i) \<le> k"
      using assms by (simp add: numbered_def)
    show "nat k - n < length (drop n es) \<Longrightarrow> \<not> ev_commit_offset (drop n es ! (nat k - n)) \<le> k"
      using assms by (simp add: numbered_def)
  qed
  moreover have "max n (nat k) - n = nat k - n" by simp
  ultimately show ?thesis by (simp only: drop_take)
qed

lemma resume_through:
  assumes "keeps_offsets m" "numbered es" "replay_unseen m reject (take n es) (default_projection rid) = Inr p"
  shows "\<exists>n'. replay_unseen m reject (drop (nat (pj_projected_offset p)) (take k es)) p =
    replay_unseen m reject (take n' es) (default_projection rid)"
proof (cases "n \<le> k")
  case True
  then have "take n (take k es) = take n es" by (simp add: min_def)
  with resume_replay [OF assms(1) numbered_take [OF assms(2), of k], where n = n and rid = rid and p = p] assms(3)
  show ?thesis by metis
next
  case False
  then have "take k es = take k (take n es)" by (simp add: min_def)
  moreover have "list_all (skipped m reject) (drop (nat (pj_projected_offset p)) (take n es))"
    using replay_offset [OF assms(1) numbered_take [OF assms(2)] assms(3)] by simp
  ultimately have "list_all (skipped m reject) (drop (nat (pj_projected_offset p)) (take k es))"
    by (metis drop_take list_all_iff set_take_subset subsetD)
  then show ?thesis using assms(3) by (metis replay_skipped)
qed

section \<open>The service on a log\<close>

datatype kernel_op =
    Append action_commit
  | Catch_up string int
  | Get string
  | Readiness string int

fun kernel_exec ::
  "(action_commit \<Rightarrow> 's \<Rightarrow> (log_error + int) \<times> 's) \<Rightarrow> (string \<Rightarrow> int \<Rightarrow> 's \<Rightarrow> runtime_event list) \<Rightarrow>
   kernel_op \<Rightarrow> 's \<times> 'e projection_service \<Rightarrow> 's \<times> 'e projection_service" where
  "kernel_exec app load (Append c) (s, v) = (snd (app c s), v)"
| "kernel_exec app load (Catch_up rid k) (s, v) = (s, snd (catch_up (\<lambda>r j. load r j s) rid k v))"
| "kernel_exec app load (Get rid) (s, v) = (s, snd (get_projection (\<lambda>r j. load r j s) rid v))"
| "kernel_exec app load (Readiness rid k) (s, v) = (s, snd (readiness (\<lambda>r j. load r j s) rid k v))"

text \<open>Every append of the sequence finds room.\<close>

fun kernel_roomy ::
  "(action_commit \<Rightarrow> 's \<Rightarrow> bool) \<Rightarrow> (kernel_op \<Rightarrow> 's \<times> 'e projection_service \<Rightarrow> 's \<times> 'e projection_service) \<Rightarrow>
   kernel_op list \<Rightarrow> 's \<times> 'e projection_service \<Rightarrow> bool" where
  "kernel_roomy room exec [] sv = True"
| "kernel_roomy room exec (a # ops) sv =
     ((case a of Append c \<Rightarrow> room c (fst sv) | _ \<Rightarrow> True) \<and> kernel_roomy room exec ops (exec a sv))"

context event_log
begin

definition service_ok :: "'s \<Rightarrow> 'e projection_service \<Rightarrow> bool" where
  "service_ok s v = (\<forall>rid. \<exists>n. replay_unseen (ps_migrator v) (ps_reject_derived_diagnostic v)
     (take n (stream s rid)) (default_projection rid) = Inr (stored_projection rid v))"

lemma stored_offset:
  assumes "inv s" "keeps_offsets (ps_migrator v)" "service_ok s v"
  shows "0 \<le> pj_projected_offset (stored_projection rid v)"
  using assms replay_offset [OF assms(2) numbered_take [OF stream_numbered [OF assms(1)]]]
  unfolding service_ok_def by metis

lemma get_replays:
  assumes "inv s" "keeps_offsets (ps_migrator v)" "service_ok s v"
  shows "fst (get_projection (\<lambda>r j. load r j s) rid v) = replay_unseen (ps_migrator v) (ps_reject_derived_diagnostic v)
    (stream s rid) (default_projection rid)"
proof -
  obtain n where n: "replay_unseen (ps_migrator v) (ps_reject_derived_diagnostic v)
     (take n (stream s rid)) (default_projection rid) = Inr (stored_projection rid v)"
    using assms(3) by (auto simp: service_ok_def)
  show ?thesis
    using resume_replay [OF assms(2) stream_numbered [OF assms(1)] n] load_drop [OF assms(1) stored_offset [OF assms]]
    by (simp add: get_projection_def Let_def split: sum.split)
qed

lemma catch_up_replays:
  assumes "inv s" "keeps_offsets (ps_migrator v)" "service_ok s v"
  shows "\<exists>n. fst (catch_up (\<lambda>r j. load r j s) rid k v) = replay_unseen (ps_migrator v) (ps_reject_derived_diagnostic v)
    (take n (stream s rid)) (default_projection rid)"
proof -
  obtain n where n: "replay_unseen (ps_migrator v) (ps_reject_derived_diagnostic v)
     (take n (stream s rid)) (default_projection rid) = Inr (stored_projection rid v)"
    using assms(3) by (auto simp: service_ok_def)
  let ?o = "nat (pj_projected_offset (stored_projection rid v))"
  have "fst (catch_up (\<lambda>r j. load r j s) rid k v) = replay_unseen (ps_migrator v) (ps_reject_derived_diagnostic v)
      (drop ?o (take (max ?o (nat k)) (stream s rid))) (stored_projection rid v)"
    using load_drop [OF assms(1) stored_offset [OF assms]] takeWhile_offsets [OF stream_numbered [OF assms(1)]]
    by (simp add: catch_up_def Let_def split: sum.split)
  then show ?thesis using resume_through [OF assms(2) stream_numbered [OF assms(1)] n] by simp
qed

lemma service_ok_store:
  assumes "service_ok s v" "replay_unseen (ps_migrator v) (ps_reject_derived_diagnostic v) (take n (stream s rid)) (default_projection rid) = Inr p"
  shows "service_ok s (v\<lparr>ps_projection_by_run := dict_set rid p (ps_projection_by_run v)\<rparr>)"
  using assms by (auto simp: service_ok_def stored_projection_def)

lemma get_keeps_service:
  assumes "inv s" "keeps_offsets (ps_migrator v)" "service_ok s v"
  shows "service_ok s (snd (get_projection (\<lambda>r j. load r j s) rid v))"
proof -
  have "replay_unseen (ps_migrator v) (ps_reject_derived_diagnostic v) (take (length (stream s rid)) (stream s rid)) (default_projection rid) = Inr p"
    if "fst (get_projection (\<lambda>r j. load r j s) rid v) = Inr p" for p
    using that get_replays [OF assms] by simp
  then show ?thesis using assms(3) service_ok_store [OF assms(3), of "length (stream s rid)" rid]
    by (auto simp: get_projection_def Let_def split: sum.splits)
qed

lemma catch_up_keeps_service:
  assumes "inv s" "keeps_offsets (ps_migrator v)" "service_ok s v"
  shows "service_ok s (snd (catch_up (\<lambda>r j. load r j s) rid k v))"
proof -
  obtain n where "fst (catch_up (\<lambda>r j. load r j s) rid k v) = replay_unseen (ps_migrator v) (ps_reject_derived_diagnostic v)
      (take n (stream s rid)) (default_projection rid)" using catch_up_replays [OF assms] by blast
  then show ?thesis using assms(3) service_ok_store [OF assms(3), of n rid]
    by (auto simp: catch_up_def Let_def split: sum.splits)
qed

lemma append_keeps_service:
  assumes "inv s" "room c s" "service_ok s v"
  shows "service_ok (snd (append c s)) v"
  unfolding service_ok_def
proof
  fix rid
  obtain n where n: "replay_unseen (ps_migrator v) (ps_reject_derived_diagnostic v)
     (take n (stream s rid)) (default_projection rid) = Inr (stored_projection rid v)"
    using assms(3) by (auto simp: service_ok_def)
  obtain es where "stream (snd (append c s)) rid = stream s rid @ es" using append_stream [OF assms(1,2), of rid] by (cases "rid = cm_run_id c") auto
  then have "take (min n (length (stream s rid))) (stream (snd (append c s)) rid) = take n (stream s rid)" by (simp add: min_def)
  with n show "\<exists>n. replay_unseen (ps_migrator v) (ps_reject_derived_diagnostic v) (take n (stream (snd (append c s)) rid))
      (default_projection rid) = Inr (stored_projection rid v)" by metis
qed

lemma kernel_exec_ok:
  assumes "inv s" "keeps_offsets (ps_migrator v)" "service_ok s v" "kernel_roomy room (kernel_exec append load) [a] (s, v)" "kernel_exec append load a (s, v) = (s', v')"
  shows "inv s' \<and> service_ok s' v' \<and> ps_migrator v' = ps_migrator v \<and> ps_reject_derived_diagnostic v' = ps_reject_derived_diagnostic v"
proof (cases a)
  case (Append c)
  then show ?thesis using assms append_inv append_keeps_service by auto
next
  case (Catch_up rid k)
  have "v' = snd (catch_up (\<lambda>r j. load r j s) rid k v)" "s' = s" using assms(5) Catch_up by auto
  moreover have "ps_migrator (snd (catch_up l rid k v)) = ps_migrator v"
    "ps_reject_derived_diagnostic (snd (catch_up l rid k v)) = ps_reject_derived_diagnostic v" for l
    by (simp_all add: catch_up_def Let_def split: sum.split)
  ultimately show ?thesis using assms(1) catch_up_keeps_service [OF assms(1-3)] by simp
next
  case (Get rid)
  have "v' = snd (get_projection (\<lambda>r j. load r j s) rid v)" "s' = s" using assms(5) Get by auto
  moreover have "ps_migrator (snd (get_projection l rid v)) = ps_migrator v"
    "ps_reject_derived_diagnostic (snd (get_projection l rid v)) = ps_reject_derived_diagnostic v" for l
    by (simp_all add: get_projection_def Let_def split: sum.split)
  ultimately show ?thesis using assms(1) get_keeps_service [OF assms(1-3)] by simp
next
  case (Readiness rid k)
  have r: "snd (readiness l rid k v) = snd (get_projection l rid v)" for l
    by (auto simp: readiness_def split: prod.split sum.split)
  have "v' = snd (get_projection (\<lambda>r j. load r j s) rid v)" "s' = s" using assms(5) Readiness r by auto
  moreover have "ps_migrator (snd (get_projection l rid v)) = ps_migrator v"
    "ps_reject_derived_diagnostic (snd (get_projection l rid v)) = ps_reject_derived_diagnostic v" for l
    by (simp_all add: get_projection_def Let_def split: sum.split)
  ultimately show ?thesis using assms(1) get_keeps_service [OF assms(1-3)] by simp
qed

lemma kernel_run_ok:
  "inv s \<Longrightarrow> keeps_offsets (ps_migrator v) \<Longrightarrow> service_ok s v \<Longrightarrow> kernel_roomy room (kernel_exec append load) ops (s, v) \<Longrightarrow>
   fold (kernel_exec append load) ops (s, v) = (s', v') \<Longrightarrow>
   inv s' \<and> service_ok s' v' \<and> ps_migrator v' = ps_migrator v \<and> ps_reject_derived_diagnostic v' = ps_reject_derived_diagnostic v"
proof (induction ops arbitrary: s v)
  case (Cons a ops)
  obtain s1 v1 where step: "kernel_exec append load a (s, v) = (s1, v1)" by fastforce
  have one: "inv s1 \<and> service_ok s1 v1 \<and> ps_migrator v1 = ps_migrator v \<and> ps_reject_derived_diagnostic v1 = ps_reject_derived_diagnostic v"
    by (rule kernel_exec_ok [OF Cons.prems(1-3) _ step]) (use Cons.prems(4) in simp)
  then have "inv s' \<and> service_ok s' v' \<and> ps_migrator v' = ps_migrator v1 \<and>
      ps_reject_derived_diagnostic v' = ps_reject_derived_diagnostic v1"
    by (intro Cons.IH [of s1 v1]) (use Cons.prems step in auto)
  with one show ?case by simp
qed simp

text \<open>The client's theorem: whatever was appended and read before, reading a projection is a full replay.\<close>

lemma incremental_is_full_replay:
  assumes "inv s" "keeps_offsets (ps_migrator v)" "ps_projection_by_run v = []" "kernel_roomy room (kernel_exec append load) ops (s, v)"
    "fold (kernel_exec append load) ops (s, v) = (s', v')"
  shows "fst (get_projection (\<lambda>r j. load r j s') rid v') =
    replay_unseen (ps_migrator v) (ps_reject_derived_diagnostic v) (load rid 0 s') (default_projection rid)"
proof -
  have "service_ok s v" unfolding service_ok_def stored_projection_def assms(3) by (auto intro: exI [of _ 0])
  from kernel_run_ok [OF assms(1,2) this assms(4,5)] have
    "inv s'" "service_ok s' v'" "ps_migrator v' = ps_migrator v" "ps_reject_derived_diagnostic v' = ps_reject_derived_diagnostic v"
    by auto
  with get_replays [of s' v' rid] assms(2) load_drop [of s' 0 rid] show ?thesis by simp
qed

end


section \<open>Terminal states\<close>

definition run_settled :: "run_projection \<Rightarrow> bool" where
  "run_settled p = (pj_lifecycle_state p \<in> {L_completed, L_aborted})"

lemma settled_step:
  assumes "run_settled p"
  shows "pj_lifecycle_state (apply_projection_event p e) = pj_lifecycle_state p \<and>
    pj_active_child_runs (apply_projection_event p e) = pj_active_child_runs p"
proof -
  have "fst (fst (resolve_projection_transition p e)) = pj_lifecycle_state p"
    using assms by (auto simp: run_settled_def resolve_projection_transition_def projection_unchanged_state_def)
  moreover have "resolve_active_child_runs p e = pj_active_child_runs p"
    using assms by (auto simp: run_settled_def resolve_active_child_runs_def)
  ultimately show ?thesis using apply_event_fields(3,5) [of p e] by (metis fst_conv)
qed

lemma settled_replay:
  "replay_unseen m reject es p = Inr p' \<Longrightarrow> run_settled p \<Longrightarrow>
   run_settled p' \<and> pj_lifecycle_state p' = pj_lifecycle_state p \<and> pj_active_child_runs p' = pj_active_child_runs p"
proof (induction es arbitrary: p)
  case (Cons e es)
  obtain e' where e': "maybe_migrate_event m e = Inr e'" using Cons.prems(1) by (auto split: sum.splits)
  show ?case
  proof (cases "validate_projection_authority_input e' reject")
    case True
    have "run_settled (apply_projection_event p e')" using settled_step [OF Cons.prems(2), of e'] Cons.prems(2) by (simp add: run_settled_def)
    with Cons.IH [of "apply_projection_event p e'"] Cons.prems(1) e' True settled_step [OF Cons.prems(2), of e'] show ?thesis by simp
  next
    case False
    with Cons e' show ?thesis by simp
  qed
qed simp

lemma cancel_settles:
  assumes "ev_event_type e = ''run.cancel_requested''"
  shows "run_settled (apply_projection_event p e)"
proof -
  have "\<not> is_lower_priority_operational_conflict p e"
    using assms by (auto simp: is_lower_priority_operational_conflict_def event_operational_priority_def
        projection_operational_priority_def OPERATIONAL_PRIORITY_RANK_def)
  then have "fst (fst (resolve_projection_transition p e)) \<in> {L_completed, L_aborted}"
    using assms by (simp add: resolve_projection_transition_def projection_unchanged_state_def)
  then show ?thesis using apply_event_fields(3) [of p e] unfolding run_settled_def by (metis fst_conv)
qed

section \<open>The two logs\<close>

text \<open>Events that differ at most in how their payload lists its entries.\<close>

definition same_event :: "runtime_event \<Rightarrow> runtime_event \<Rightarrow> bool" where
  "same_event e e' =
     (ev_run_id e' = ev_run_id e \<and> ev_event_id e' = ev_event_id e \<and> ev_commit_offset e' = ev_commit_offset e \<and>
      ev_event_type e' = ev_event_type e \<and> ev_event_class e' = ev_event_class e \<and>
      ev_event_authority e' = ev_event_authority e \<and> ev_ordering_key e' = ev_ordering_key e \<and>
      ev_wake_policy e' = ev_wake_policy e \<and> ev_created_at e' = ev_created_at e \<and>
      ev_idempotency_key e' = ev_idempotency_key e \<and> ev_payload_ref e' = ev_payload_ref e \<and>
      ev_schema_version e' = ev_schema_version e \<and>
      get_str (payload (ev_payload_json e')) = get_str (payload (ev_payload_json e)))"

lemma same_event_apply: "same_event e e' \<Longrightarrow> apply_projection_event p e' = apply_projection_event p e"
proof -
  assume same: "same_event e e'"
  then have f: "ev_event_type e' = ev_event_type e" "ev_commit_offset e' = ev_commit_offset e"
    by (simp_all add: same_event_def)
  have g: "get_str (payload (ev_payload_json e')) = get_str (payload (ev_payload_json e))"
    using same by (simp add: same_event_def)
  show ?thesis
    unfolding apply_projection_event_def resolve_projection_transition_def resolve_active_child_runs_def
      extract_child_run_id_def derive_cancel_reason_def derive_recovery_reason_def
      is_lower_priority_operational_conflict_def f g ..
qed

lemma same_event_offset: "same_event e e' \<Longrightarrow> ev_commit_offset e' = ev_commit_offset e \<and> ev_event_authority e' = ev_event_authority e"
  by (simp add: same_event_def)

lemma same_events_replay:
  "list_all2 same_event es es' \<Longrightarrow> replay_unseen None reject es' p = replay_unseen None reject es p"
  by (induction es es' arbitrary: p rule: list_all2_induct)
    (auto simp: same_event_apply maybe_migrate_event_def validate_projection_authority_input_def dest: same_event_offset)

lemma same_events_filter:
  "list_all2 same_event es es' \<Longrightarrow> list_all2 same_event (filter (\<lambda>e. k < ev_commit_offset e) es) (filter (\<lambda>e. k < ev_commit_offset e) es')"
  by (induction es es' rule: list_all2_induct) (auto dest: same_event_offset)

lemma same_events_takeWhile:
  "list_all2 same_event es es' \<Longrightarrow> list_all2 same_event (takeWhile (\<lambda>e. ev_commit_offset e \<le> k) es) (takeWhile (\<lambda>e. ev_commit_offset e \<le> k) es')"
  by (induction es es' rule: list_all2_induct) (auto dest: same_event_offset)

text \<open>The JSON codec gives back the string entries of every payload a commit carries.\<close>

definition codec_keeps :: "(json_dict \<Rightarrow> string) \<Rightarrow> (string \<Rightarrow> json_dict) \<Rightarrow> runtime_event list \<Rightarrow> bool" where
  "codec_keeps dumps loads es =
     list_all (\<lambda>e. case ev_payload_json e of None \<Rightarrow> True | Some p \<Rightarrow> get_str (loads (dumps p)) = get_str p) es"

definition codec_keeps_op :: "(json_dict \<Rightarrow> string) \<Rightarrow> (string \<Rightarrow> json_dict) \<Rightarrow> kernel_op \<Rightarrow> bool" where
  "codec_keeps_op dumps loads a = (case a of Append c \<Rightarrow> codec_keeps dumps loads (cm_events c) | _ \<Rightarrow> True)"

lemma same_number:
  assumes "codec_keeps dumps loads es"
  shows "list_all2 same_event (spec_number mem_norm n es) (spec_number (db_norm dumps loads) n es)"
  using assms
proof (induction es arbitrary: n)
  case (Cons e es)
  have "same_event ((mem_norm e)\<lparr>ev_commit_offset := int n + 1\<rparr>) ((db_norm dumps loads e)\<lparr>ev_commit_offset := int n + 1\<rparr>)"
    using Cons.prems by (cases "ev_payload_json e") (simp_all add: same_event_def mem_norm_def db_norm_def codec_keeps_def payload_def)
  moreover have "codec_keeps dumps loads es" using Cons.prems by (simp add: codec_keeps_def)
  ultimately show ?case using Cons.IH by simp
qed simp

definition logs_agree :: "(string \<Rightarrow> json_dict) \<Rightarrow> mem_log \<Rightarrow> log_db \<Rightarrow> bool" where
  "logs_agree loads l db = (mem_log_ok l \<and> log_db_ok db \<and> (\<forall>rid. list_all2 same_event (mem_stream l rid) (db_stream loads db rid)))"

lemma append_agree:
  assumes "logs_agree loads l db" "mem_room cap c l" "codec_keeps dumps loads (cm_events c)"
  shows "logs_agree loads (snd (mem_append cap c l)) (snd (sqlite_append dumps c db))"
proof -
  have ok: "mem_log_ok l" "log_db_ok db" "\<And>rid. list_all2 same_event (mem_stream l rid) (db_stream loads db rid)"
    using assms(1) by (auto simp: logs_agree_def)
  have "length (mem_stream l rid) = length (db_stream loads db rid)" for rid using ok(3) by (rule list_all2_lengthD)
  then show ?thesis
    using mem_append_effect [OF ok(1) assms(2)] sqlite_append_effect [OF ok(2), of dumps c loads] ok(3) same_number [OF assms(3)]
    by (auto simp: logs_agree_def intro!: list_all2_appendI)
qed

lemma load_agree:
  "logs_agree loads l db \<Longrightarrow> list_all2 same_event (mem_load rid k l) (sqlite_load loads rid k db)"
  by (simp add: logs_agree_def mem_load_def mem_stream_def [symmetric] sqlite_load_stream same_events_filter)

lemma service_agree:
  assumes "logs_agree loads l db" "ps_migrator v = None"
  shows "catch_up (\<lambda>r j. sqlite_load loads r j db) rid k v = catch_up (\<lambda>r j. mem_load r j l) rid k v \<and>
    get_projection (\<lambda>r j. sqlite_load loads r j db) rid v = get_projection (\<lambda>r j. mem_load r j l) rid v"
  using load_agree [OF assms(1)] assms(2)
  by (simp add: catch_up_def get_projection_def same_events_replay [OF load_agree [OF assms(1)]]
      same_events_replay [OF same_events_takeWhile [OF load_agree [OF assms(1)]]])

lemma exec_agree:
  assumes "logs_agree loads l db" "ps_migrator v = None" "codec_keeps_op dumps loads a"
    and "case a of Append c \<Rightarrow> mem_room cap c l | _ \<Rightarrow> True"
    and "kernel_exec (mem_append cap) mem_load a (l, v) = (l', v')"
  shows "\<exists>db'. kernel_exec (sqlite_append dumps) (sqlite_load loads) a (db, v) = (db', v') \<and> logs_agree loads l' db' \<and> ps_migrator v' = None"
  using assms append_agree [OF assms(1), of cap _ dumps] service_agree [OF assms(1,2)]
  by (cases a) (auto simp: codec_keeps_op_def readiness_def catch_up_def get_projection_def Let_def split: sum.splits)

lemma run_agree:
  "logs_agree loads l db \<Longrightarrow> ps_migrator v = None \<Longrightarrow> list_all (codec_keeps_op dumps loads) ops \<Longrightarrow>
   kernel_roomy (mem_room cap) (kernel_exec (mem_append cap) mem_load) ops (l, v) \<Longrightarrow>
   fold (kernel_exec (mem_append cap) mem_load) ops (l, v) = (l', v') \<Longrightarrow>
   \<exists>db'. fold (kernel_exec (sqlite_append dumps) (sqlite_load loads)) ops (db, v) = (db', v') \<and> logs_agree loads l' db' \<and> ps_migrator v' = None"
proof (induction ops arbitrary: l db v)
  case (Cons a ops)
  obtain l1 v1 where step: "kernel_exec (mem_append cap) mem_load a (l, v) = (l1, v1)" by fastforce
  obtain db1 where "kernel_exec (sqlite_append dumps) (sqlite_load loads) a (db, v) = (db1, v1)" "logs_agree loads l1 db1" "ps_migrator v1 = None"
    using exec_agree [OF Cons.prems(1,2) _ _ step] Cons.prems(3,4) by (auto split: kernel_op.splits)
  with Cons.IH [of l1 db1 v1] Cons.prems(3-5) step show ?case by simp
qed simp


section \<open>Properties\<close>

definition fresh_service :: "bool \<Rightarrow> 'e migrator option \<Rightarrow> 'e projection_service" where
  "fresh_service reject m = \<lparr>ps_projection_by_run = [], ps_reject_derived_diagnostic = reject, ps_migrator = m\<rparr>"

lemma fresh_service_simps [simp]:
  "ps_projection_by_run (fresh_service reject m) = []" "ps_migrator (fresh_service reject m) = m"
  "ps_reject_derived_diagnostic (fresh_service reject m) = reject"
  by (simp_all add: fresh_service_def)

lemma empty_logs_ok [simp]: "log_db_ok log_db_init" "mem_log_ok mem_log_init"
  by (simp_all add: log_db_ok_def log_db_init_def mem_log_ok_def mem_log_init_def mem_stream_def numbered_def db_rows_of_def)

lemma empty_streams [simp]: "mem_stream mem_log_init rid = []" "db_stream loads log_db_init rid = []"
  by (simp_all add: mem_stream_def mem_log_init_def db_stream_def db_rows_of_def log_db_init_def)

lemma empty_logs_agree [simp]: "logs_agree loads mem_log_init log_db_init"
  by (simp add: logs_agree_def)

lemma sqlite_always_roomy [simp]: "kernel_roomy (\<lambda>_ _. True) f ops st"
  by (induction ops arbitrary: st) (auto split: kernel_op.split)

lemma sqlite_reads_replay:
  assumes "keeps_offsets m"
    and "fold (kernel_exec (sqlite_append dumps) (sqlite_load loads)) ops (log_db_init, fresh_service reject m) = (db, v)"
  shows "fst (get_projection (\<lambda>r j. sqlite_load loads r j db) rid v) =
    replay_unseen m reject (sqlite_load loads rid 0 db) (default_projection rid)"
  using sqlite_log.incremental_is_full_replay [OF _ _ _ _ assms(2), of rid] assms(1) by simp

lemma replay_unmigrated: "\<exists>p'. replay_unseen None reject es p = Inr p'"
  by (induction es arbitrary: p) (auto simp: maybe_migrate_event_def)


text \<open>C32. On the durable log, whatever commits were appended and whatever projections were caught up or read before,
  reading a run's projection gives exactly what replaying the run's whole log from the default
  projection gives, an error of the migrator included, when the migrator keeps offsets.\<close>

theorem projection_is_full_replay:
  assumes "keeps_offsets m"
    and "fold (kernel_exec (sqlite_append dumps) (sqlite_load loads)) ops (log_db_init, fresh_service reject m) = (db, v)"
  shows "fst (get_projection (\<lambda>r j. sqlite_load loads r j db) rid v) =
    replay_unseen m reject (sqlite_load loads rid 0 db) (default_projection rid)"
  by (rule sqlite_reads_replay [OF assms])

definition wit_event :: "string \<Rightarrow> event_authority \<Rightarrow> runtime_event" where
  "wit_event ty au =
     \<lparr>ev_run_id = ''r'', ev_event_id = ''e'', ev_commit_offset = 0, ev_event_type = ty, ev_event_class = Fact,
      ev_event_authority = au, ev_ordering_key = ''r'', ev_wake_policy = Wake_actor, ev_created_at = ''t'',
      ev_idempotency_key = None, ev_payload_ref = None, ev_payload_json = Some [(''reason'', JStr ''user'')], ev_schema_version = ''1''\<rparr>"

definition wit_loads :: "string \<Rightarrow> json_dict" where
  "wit_loads s = [(''reason'', JStr ''user'')]"

definition wit_commit :: "string \<Rightarrow> runtime_event list \<Rightarrow> action_commit" where
  "wit_commit rid es = \<lparr>cm_run_id = rid, cm_commit_id = ''c'', cm_events = es, cm_created_at = ''t''\<rparr>"

definition wit_ops :: "kernel_op list" where
  "wit_ops =
     [Append (wit_commit ''r'' [wit_event ''run.created'' Authoritative_fact, wit_event ''run.ready'' Authoritative_fact]),
      Get ''r'',
      Append (wit_commit ''r'' [wit_event ''run.cancel_requested'' Authoritative_fact, wit_event ''run.ready'' Authoritative_fact])]"

theorem projection_is_full_replay_witness:
  "\<exists>db v. fold (kernel_exec (sqlite_append (\<lambda>_. [])) (sqlite_load wit_loads)) wit_ops
       (log_db_init, fresh_service True (None :: unit migrator option)) = (db, v) \<and>
     fst (get_projection (\<lambda>r j. sqlite_load wit_loads r j db) ''r'' v) =
       replay_unseen None True (sqlite_load wit_loads ''r'' 0 db) (default_projection ''r'')"
proof -
  obtain db v where step: "fold (kernel_exec (sqlite_append (\<lambda>_. [])) (sqlite_load wit_loads)) wit_ops
       (log_db_init, fresh_service True (None :: unit migrator option)) = (db, v)" by fastforce
  from projection_is_full_replay [OF keeps_offsets_None this] step show ?thesis by auto
qed

text \<open>While the in-memory log has room for its runs, it and the durable log serve the projection alike: the same
  appends and reads leave the projection service in the same state on both, and every later read
  answers the same, provided the JSON codec keeps the payload's string entries.\<close>

lemma event_logs_agree:
  assumes "list_all (codec_keeps_op dumps loads) ops"
    and "kernel_roomy (mem_room cap) (kernel_exec (mem_append cap) mem_load) ops (mem_log_init, fresh_service reject (None :: 'e migrator option))"
    and "fold (kernel_exec (mem_append cap) mem_load) ops (mem_log_init, fresh_service reject (None :: 'e migrator option)) = (l, v)"
  shows "\<exists>db. fold (kernel_exec (sqlite_append dumps) (sqlite_load loads)) ops (log_db_init, fresh_service reject (None :: 'e migrator option)) = (db, v) \<and>
    get_projection (\<lambda>r j. sqlite_load loads r j db) rid v = get_projection (\<lambda>r j. mem_load r j l) rid v"
proof -
  obtain db where "fold (kernel_exec (sqlite_append dumps) (sqlite_load loads)) ops (log_db_init, fresh_service reject (None :: 'e migrator option)) = (db, v)"
    "logs_agree loads l db" "ps_migrator v = None"
    using run_agree [OF empty_logs_agree [of loads] _ assms] by auto
  with service_agree [of loads l db v] show ?thesis by blast
qed

lemma settled_ok_flags: "run_settled p \<Longrightarrow> projection_ok p \<Longrightarrow> \<not> pj_ready_for_dispatch p \<and> \<not> pj_waiting_external p"
  by (auto simp: run_settled_def projection_ok_def state_flags_def)

lemma replay_with_cancel:
  assumes "e \<in> set es" "ev_event_type e = ''run.cancel_requested''" "validate_projection_authority_input e reject"
    and "replay_unseen (None :: 'e migrator option) reject es p = Inr p'"
  shows "run_settled p'"
proof -
  obtain xs ys where es: "es = xs @ e # ys" using assms(1) by (meson split_list)
  obtain q where q: "replay_unseen (None :: 'e migrator option) reject xs p = Inr q" using replay_unmigrated by blast
  have "replay_unseen (None :: 'e migrator option) reject ys (apply_projection_event q e) = Inr p'"
    using assms(3,4) unfolding es replay_append q by (simp add: maybe_migrate_event_def)
  from settled_replay [OF this cancel_settles [OF assms(2)]] show ?thesis by simp
qed

lemma cancelled_read:
  assumes "fold (kernel_exec (sqlite_append dumps) (sqlite_load loads)) ops
      (log_db_init, fresh_service reject (None :: 'e migrator option)) = (db, v)"
    and "e \<in> set (sqlite_load loads rid 0 db)" "ev_event_type e = ''run.cancel_requested''"
    and "validate_projection_authority_input e reject"
  shows "\<exists>p. fst (get_projection (\<lambda>r j. sqlite_load loads r j db) rid v) = Inr p \<and>
    pj_lifecycle_state p \<in> {L_completed, L_aborted} \<and> \<not> pj_ready_for_dispatch p \<and> \<not> pj_waiting_external p"
proof -
  obtain p where p: "replay_unseen (None :: 'e migrator option) reject (sqlite_load loads rid 0 db) (default_projection rid) = Inr p"
    using replay_unmigrated by blast
  have "run_settled p" by (rule replay_with_cancel [OF assms(2,3,4) p])
  moreover have "projection_ok p" using replay_ok [OF p] by simp
  ultimately show ?thesis
    using sqlite_reads_replay [OF keeps_offsets_None assms(1), of rid] p settled_ok_flags by (auto simp: run_settled_def)
qed

lemma wit_run: "sqlite_load wit_loads ''r'' 0 (fst (fold (kernel_exec (sqlite_append (\<lambda>_. [])) (sqlite_load wit_loads)) wit_ops
     (log_db_init, fresh_service True (None :: unit migrator option)))) =
   [(wit_event ''run.created'' Authoritative_fact)\<lparr>ev_commit_offset := 1\<rparr>, (wit_event ''run.ready'' Authoritative_fact)\<lparr>ev_commit_offset := 2\<rparr>,
    (wit_event ''run.cancel_requested'' Authoritative_fact)\<lparr>ev_commit_offset := 3\<rparr>, (wit_event ''run.ready'' Authoritative_fact)\<lparr>ev_commit_offset := 4\<rparr>]"
  by code_simp

text \<open>A trailing diagnostic event leaves the projection behind for good: when the last event of a run's log on the
  durable store is a diagnostic the projection rejects, catching up to the last offset returns a
  projection below that offset, and readiness for it is false although there is nothing left to
  replay.\<close>

lemma diagnostic_tail_is_never_ready:
  assumes "log_db_ok db" "db_stream loads db rid = es @ [e]" "ev_event_authority e = Derived_diagnostic"
    and "stored_projection rid v = default_projection rid" "ps_migrator v = (None :: 'e migrator option)"
    and "ps_reject_derived_diagnostic v"
  shows "\<exists>p. fst (catch_up (\<lambda>r j. sqlite_load loads r j db) rid (db_max_offset rid db) v) = Inr p \<and>
    pj_projected_offset p < db_max_offset rid db \<and>
    fst (readiness (\<lambda>r j. sqlite_load loads r j db) rid (db_max_offset rid db) v) = Inr False"
proof -
  have num: "numbered (es @ [e])" using sqlite_log.stream_numbered [OF assms(1), of loads rid] assms(2) by simp
  have load: "sqlite_load loads rid 0 db = es @ [e]" using sqlite_log.load_drop [OF assms(1), of 0 loads rid] assms(2) by simp
  have mx: "db_max_offset rid db = int (length es) + 1"
    using max_offset_counts [OF assms(1), of rid loads] assms(2) by simp
  obtain p where p: "replay_unseen (None :: 'e migrator option) True es (default_projection rid) = Inr p" using replay_unmigrated by blast
  have off: "pj_projected_offset p \<le> int (length es)"
    using replay_offset [OF keeps_offsets_None _ p] numbered_take [OF num, of "length es"] by (simp add: nat_le_iff)
  have all: "replay_unseen (None :: 'e migrator option) True (es @ [e]) (default_projection rid) = Inr p"
    unfolding replay_append p using assms(3) by (simp add: maybe_migrate_event_def validate_projection_authority_input_def)
  have "takeWhile (\<lambda>x. ev_commit_offset x \<le> int (length es) + 1) (es @ [e]) = es @ [e]"
    using num by (auto simp: takeWhile_eq_all_conv numbered_def in_set_conv_nth nth_append split: if_splits)
  then show ?thesis using assms(4-6) all off
    by (simp add: catch_up_def readiness_def get_projection_def default_projection_def [of rid] load mx)
qed


text \<open>What two appends beyond the cap do: the first evicts the oldest run with its offset counter, the second starts
  that run again at offset 1.\<close>

lemma append_fresh_at_cap:
  assumes "map_of (ml_next_offset_by_run l) (cm_run_id c) = None" "ml_events_by_run l = (r, es) # rest"
    and "length (ml_events_by_run l) = cap" "map_of (ml_events_by_run l) (cm_run_id c) = None" "cm_events c \<noteq> []"
  shows "ml_events_by_run (snd (mem_append cap c l)) = rest @ [(cm_run_id c, number_events 1 (cm_events c))] \<and>
    ml_next_offset_by_run (snd (mem_append cap c l)) =
      dict_pop r (dict_set (cm_run_id c) (1 + int (length (cm_events c))) (ml_next_offset_by_run l))"
proof -
  have "dict_set (cm_run_id c) x (ml_events_by_run l) = ml_events_by_run l @ [(cm_run_id c, x)]" for x
    using assms(4) by (intro dict_set_fresh) (simp add: map_of_eq_None_iff)
  then show ?thesis using assms by (auto simp: mem_append_def evict_oldest_def Let_def)
qed

lemma number_events_offsets: "e \<in> set (number_events k es) \<Longrightarrow> ev_commit_offset e < k + int (length es)"
  by (induction k es rule: number_events.induct) (auto simp: normalized_event_def)

text \<open>The in-memory log forgets a live run: at the cap, an append for a new run drops the events and the offset
  counter of the run first seen, finished or not. The next commit of that run starts again at offset 1,
  and the projection service, whose stored projection is past that offset, never sees its events.\<close>

lemma evicted_run_restarts_unseen:
  assumes "mem_log_ok l" "ml_events_by_run l = (r, es) # (r', es') # rest" "length (ml_events_by_run l) = cap"
    and "map_of (ml_events_by_run l) (cm_run_id c) = None" "cm_events c \<noteq> []"
    and "cm_run_id c' = r" "cm_events c' \<noteq> []" "l' = snd (mem_append cap c' (snd (mem_append cap c l)))"
    and "int (length (cm_events c')) \<le> pj_projected_offset (stored_projection r v)"
  shows "mem_load r 0 l' = number_events 1 (cm_events c') \<and>
    fst (get_projection (\<lambda>i j. mem_load i j l') r v) = Inr (stored_projection r v)"
proof -
  let ?l1 = "snd (mem_append cap c l)"
  have "map_of (ml_next_offset_by_run l) (cm_run_id c) = None" using assms(1,4) by (simp add: mem_log_ok_def)
  from append_fresh_at_cap [OF this assms(2-5)] have l1:
    "ml_events_by_run ?l1 = (r', es') # rest @ [(cm_run_id c, number_events 1 (cm_events c))]"
    "map_of (ml_next_offset_by_run ?l1) r = None" by simp_all
  have "distinct (map fst (ml_events_by_run l))" using assms(1) by (simp add: mem_log_ok_def)
  then have "map_of (ml_events_by_run ?l1) r = None" using assms(2,4) l1(1) by (auto simp: map_of_eq_None_iff)
  then have "ml_events_by_run l' = rest @ [(cm_run_id c, number_events 1 (cm_events c)), (r, number_events 1 (cm_events c'))]"
    using append_fresh_at_cap [of ?l1 c' r' es' "rest @ [(cm_run_id c, number_events 1 (cm_events c))]" cap] l1 assms
    by simp
  moreover have "map_of rest r = None" "r \<noteq> cm_run_id c"
    using \<open>distinct (map fst (ml_events_by_run l))\<close> assms(2,4) by (auto simp: map_of_eq_None_iff split: if_splits)
  ultimately have "map_of (ml_events_by_run l') r = Some (number_events 1 (cm_events c'))"
    by (simp add: map_add_def)
  then have load: "mem_load r k l' = filter (\<lambda>e. k < ev_commit_offset e) (number_events 1 (cm_events c'))" for k
    by (simp add: mem_load_def)
  have "mem_load r (pj_projected_offset (stored_projection r v)) l' = []"
    using assms(9) unfolding load by (auto simp: filter_empty_conv dest!: number_events_offsets)
  moreover have "mem_load r 0 l' = number_events 1 (cm_events c')"
    unfolding load using number_events_spec [of 0 "cm_events c'"]
    by (auto simp: filter_id_conv in_set_conv_nth spec_number_nth)
  ultimately show ?thesis by (simp add: get_projection_def Let_def)
qed


end
