(* ===== verification/Capability_Snapshot.thy ===== *)
theory Capability_Snapshot
  imports Kernel_Contracts
begin

text \<open>
  The capability snapshot of \<open>agent_kernel/kernel/capability_snapshot.py\<close>: declared inputs are validated,
  their lists normalised, and the canonical payload hashed. \<open>digest\<close> stands for the SHA-256 of the
  canonical JSON text of a payload, a hexadecimal string; \<open>now\<close> is the clock's time stamp.
\<close>

section \<open>Data\<close>

record bundle_digest =
  bd_bundle_ref :: string
  bd_semantics_version :: string
  bd_content_hash :: string
  bd_compile_hash :: string

record snapshot_input =
  si_run_id :: string
  si_based_on_offset :: int
  si_tenant_policy_ref :: string
  si_permission_mode :: string
  si_tool_bindings :: "string list"
  si_mcp_bindings :: "string list"
  si_skill_bindings :: "string list"
  si_feature_flags :: "string list"
  si_context_binding_ref :: "string option"
  si_context_content_hash :: "string option"
  si_budget_ref :: "string option"
  si_quota_ref :: "string option"
  si_session_mode :: "string option"
  si_approval_state :: "string option"
  si_declarative_bundle_digest :: "bundle_digest option"
  si_peer_run_bindings :: "string list"

record snapshot =
  sn_snapshot_ref :: string
  sn_snapshot_hash :: string
  sn_run_id :: string
  sn_based_on_offset :: int
  sn_tenant_policy_ref :: string
  sn_permission_mode :: string
  sn_tool_bindings :: "string list"
  sn_mcp_bindings :: "string list"
  sn_skill_bindings :: "string list"
  sn_feature_flags :: "string list"
  sn_context_binding_ref :: "string option"
  sn_context_content_hash :: "string option"
  sn_budget_ref :: "string option"
  sn_quota_ref :: "string option"
  sn_session_mode :: "string option"
  sn_approval_state :: "string option"
  sn_declarative_bundle_digest :: "bundle_digest option"
  sn_created_at :: string
  sn_snapshot_schema_version :: string
  sn_peer_run_bindings :: "string list"

datatype snapshot_error =
    RunIdRequired | OffsetNegative | TenantPolicyRequired | PermissionModeRequired | ContextHashRequired
  | SnapshotInputRequired | SchemaIncompatible

section \<open>Building\<close>

definition CURRENT_SNAPSHOT_SCHEMA_VERSION :: string where
  "CURRENT_SNAPSHOT_SCHEMA_VERSION = ''1''"

definition normalize_string_list :: "string list \<Rightarrow> string list" where
  "normalize_string_list values = sort (remdups (filter (\<lambda>v. v \<noteq> '''') values))"

definition opt_json :: "string option \<Rightarrow> json" where
  "opt_json v = (case v of None \<Rightarrow> JNull | Some s \<Rightarrow> JStr s)"

definition normalize_bundle_digest :: "bundle_digest option \<Rightarrow> json" where
  "normalize_bundle_digest d = (case d of None \<Rightarrow> JNull | Some b \<Rightarrow>
     JObj [(''bundle_ref'', JStr (bd_bundle_ref b)), (''semantics_version'', JStr (bd_semantics_version b)),
       (''content_hash'', JStr (bd_content_hash b)), (''compile_hash'', JStr (bd_compile_hash b))])"

definition str_list_json :: "string list \<Rightarrow> json" where
  "str_list_json xs = JList (map JStr xs)"

definition canonical_payload :: "snapshot_input \<Rightarrow> json" where
  "canonical_payload i = JObj
     [(''snapshot_schema_version'', JStr CURRENT_SNAPSHOT_SCHEMA_VERSION),
      (''run_id'', JStr (si_run_id i)), (''based_on_offset'', JInt (si_based_on_offset i)),
      (''tenant_policy_ref'', JStr (si_tenant_policy_ref i)), (''permission_mode'', JStr (si_permission_mode i)),
      (''tool_bindings'', str_list_json (normalize_string_list (si_tool_bindings i))),
      (''mcp_bindings'', str_list_json (normalize_string_list (si_mcp_bindings i))),
      (''skill_bindings'', str_list_json (normalize_string_list (si_skill_bindings i))),
      (''feature_flags'', str_list_json (normalize_string_list (si_feature_flags i))),
      (''context_content_hash'', opt_json (si_context_content_hash i)), (''budget_ref'', opt_json (si_budget_ref i)),
      (''quota_ref'', opt_json (si_quota_ref i)), (''session_mode'', opt_json (si_session_mode i)),
      (''approval_state'', opt_json (si_approval_state i)),
      (''declarative_bundle_digest'', normalize_bundle_digest (si_declarative_bundle_digest i)),
      (''peer_run_bindings'', str_list_json (normalize_string_list (si_peer_run_bindings i)))]"

definition validate_input :: "snapshot_input \<Rightarrow> snapshot_error + unit" where
  "validate_input i =
     (if si_run_id i = '''' then Inl RunIdRequired
      else if si_based_on_offset i < 0 then Inl OffsetNegative
      else if si_tenant_policy_ref i = '''' then Inl TenantPolicyRequired
      else if si_permission_mode i = '''' then Inl PermissionModeRequired
      else if str_or (si_context_binding_ref i) \<noteq> '''' \<and> str_or (si_context_content_hash i) = '''' then Inl ContextHashRequired
      else Inr ())"

text \<open>Python's \<open>str\<close> of an integer.\<close>

fun digits :: "nat \<Rightarrow> string" where
  "digits n = (if n < 10 then [char_of (48 + n)] else digits (n div 10) @ [char_of (48 + n mod 10)])"

declare digits.simps [simp del]

definition str_int :: "int \<Rightarrow> string" where
  "str_int n = (if n < 0 then ''-'' @ digits (nat (- n)) else digits (nat n))"

definition build_snapshot :: "(json \<Rightarrow> string) \<Rightarrow> string \<Rightarrow> snapshot_input \<Rightarrow> snapshot_error + snapshot" where
  "build_snapshot digest now i =
     (case validate_input i of
        Inl e \<Rightarrow> Inl e
      | Inr _ \<Rightarrow>
          let h = digest (canonical_payload i) in
          Inr \<lparr>sn_snapshot_ref = ''snapshot:'' @ si_run_id i @ '':'' @ str_int (si_based_on_offset i) @ '':'' @ take 12 h,
            sn_snapshot_hash = h, sn_run_id = si_run_id i, sn_based_on_offset = si_based_on_offset i,
            sn_tenant_policy_ref = si_tenant_policy_ref i, sn_permission_mode = si_permission_mode i,
            sn_tool_bindings = normalize_string_list (si_tool_bindings i),
            sn_mcp_bindings = normalize_string_list (si_mcp_bindings i),
            sn_skill_bindings = normalize_string_list (si_skill_bindings i),
            sn_feature_flags = normalize_string_list (si_feature_flags i),
            sn_context_binding_ref = si_context_binding_ref i, sn_context_content_hash = si_context_content_hash i,
            sn_budget_ref = si_budget_ref i, sn_quota_ref = si_quota_ref i, sn_session_mode = si_session_mode i,
            sn_approval_state = si_approval_state i, sn_declarative_bundle_digest = si_declarative_bundle_digest i,
            sn_created_at = now, sn_snapshot_schema_version = CURRENT_SNAPSHOT_SCHEMA_VERSION,
            sn_peer_run_bindings = normalize_string_list (si_peer_run_bindings i)\<rparr>)"

definition assert_snapshot_compatible :: "snapshot \<Rightarrow> snapshot_error + unit" where
  "assert_snapshot_compatible s =
     (if sn_snapshot_schema_version s \<noteq> CURRENT_SNAPSHOT_SCHEMA_VERSION then Inl SchemaIncompatible else Inr ())"

section \<open>Properties\<close>

lemma normalize_sound: "sorted (normalize_string_list xs) \<and> distinct (normalize_string_list xs) \<and>
    set (normalize_string_list xs) = set xs - {''''}"
  by (auto simp: normalize_string_list_def)

lemma normalize_eq_iff: "normalize_string_list xs = normalize_string_list ys \<longleftrightarrow> set xs - {''''} = set ys - {''''}"
  using normalize_sound [of xs] normalize_sound [of ys] by (metis sorted_distinct_set_unique)

lemma str_list_json_inj [simp]: "str_list_json xs = str_list_json ys \<longleftrightarrow> xs = ys"
  by (auto simp: str_list_json_def inj_map_eq_map inj_def)

lemma opt_json_inj [simp]: "opt_json a = opt_json b \<longleftrightarrow> a = b"
  by (auto simp: opt_json_def split: option.splits)

lemma bundle_json_inj [simp]: "normalize_bundle_digest a = normalize_bundle_digest b \<longleftrightarrow> a = b"
  by (auto simp: normalize_bundle_digest_def split: option.splits)

text \<open>What the hash is meant to cover: everything declared but the mutable context reference, lists as sets of
  non-empty strings.\<close>

definition same_capabilities :: "snapshot_input \<Rightarrow> snapshot_input \<Rightarrow> bool" where
  "same_capabilities i j =
     (si_run_id i = si_run_id j \<and> si_based_on_offset i = si_based_on_offset j \<and>
      si_tenant_policy_ref i = si_tenant_policy_ref j \<and> si_permission_mode i = si_permission_mode j \<and>
      set (si_tool_bindings i) - {''''} = set (si_tool_bindings j) - {''''} \<and>
      set (si_mcp_bindings i) - {''''} = set (si_mcp_bindings j) - {''''} \<and>
      set (si_skill_bindings i) - {''''} = set (si_skill_bindings j) - {''''} \<and>
      set (si_feature_flags i) - {''''} = set (si_feature_flags j) - {''''} \<and>
      si_context_content_hash i = si_context_content_hash j \<and> si_budget_ref i = si_budget_ref j \<and>
      si_quota_ref i = si_quota_ref j \<and> si_session_mode i = si_session_mode j \<and>
      si_approval_state i = si_approval_state j \<and>
      si_declarative_bundle_digest i = si_declarative_bundle_digest j \<and>
      set (si_peer_run_bindings i) - {''''} = set (si_peer_run_bindings j) - {''''})"

lemma canonical_payload_eq: "canonical_payload i = canonical_payload j \<longleftrightarrow> same_capabilities i j"
  by (simp add: canonical_payload_def same_capabilities_def normalize_eq_iff)

lemma build_snapshot_hash: "build_snapshot digest now i = Inr s \<Longrightarrow> sn_snapshot_hash s = digest (canonical_payload i) \<and>
    sn_run_id s = si_run_id i \<and> sn_based_on_offset s = si_based_on_offset i"
  by (auto simp: build_snapshot_def Let_def split: sum.splits)

lemma build_compatible: "build_snapshot digest now i = Inr s \<Longrightarrow> assert_snapshot_compatible s = Inr ()"
  by (auto simp: build_snapshot_def assert_snapshot_compatible_def Let_def split: sum.splits)


text \<open>The snapshot hash identifies the declared capabilities and nothing else: two snapshots that build have the same
  hash exactly when the inputs agree on the run, the offset, the policy, the mode, the references and
  digests, and on their lists as sets of non-empty strings; list order, duplicates, the mutable context
  reference and the build time do not count. The digest has to tell these two payloads apart.\<close>

lemma snapshot_hash_is_semantic:
  assumes "build_snapshot digest now i = Inr s" "build_snapshot digest now' j = Inr t"
    and "inj_on digest {canonical_payload i, canonical_payload j}"
  shows "sn_snapshot_hash s = sn_snapshot_hash t \<longleftrightarrow> same_capabilities i j"
proof -
  have "sn_snapshot_hash s = sn_snapshot_hash t \<longleftrightarrow> canonical_payload i = canonical_payload j"
    using build_snapshot_hash [OF assms(1)] build_snapshot_hash [OF assms(2)] inj_on_eq_iff [OF assms(3)] by simp
  then show ?thesis by (simp add: canonical_payload_eq)
qed

definition wit_snapshot_input :: "string list \<Rightarrow> snapshot_input" where
  "wit_snapshot_input tools =
     \<lparr>si_run_id = ''r'', si_based_on_offset = 3, si_tenant_policy_ref = ''policy:default'', si_permission_mode = ''strict'',
      si_tool_bindings = tools, si_mcp_bindings = [], si_skill_bindings = [], si_feature_flags = [],
      si_context_binding_ref = None, si_context_content_hash = None, si_budget_ref = None, si_quota_ref = None,
      si_session_mode = None, si_approval_state = None, si_declarative_bundle_digest = None, si_peer_run_bindings = []\<rparr>"

end
