(* ===== verification/Dispatch_Policy.thy ===== *)
theory Dispatch_Policy
  imports Projection
begin

text \<open>
  Where an action may run and whether it may claim an external idempotency guarantee: the remote
  contract policy of \<open>agent_kernel/kernel/remote_service_policy.py\<close>, the dispatch policy of
  \<open>turn_engine.py\<close>, and the static admission gate of \<open>minimal_runtime.py\<close>, which carries its own copies
  of the host and contract parsers. A host kind is a string, as in the source. \<open>py_float\<close> stands for
  Python's \<open>float(str)\<close>: \<open>None\<close> where it raises or is not finite. An integer cost is compared as it is.
\<close>

section \<open>Remote contracts\<close>

datatype peer_retry_model = Peer_unknown | At_most_once | At_least_once | Exactly_once_claimed

datatype retry_policy = No_auto_retry | Bounded_retry

record remote_contract =
  rc_accepts_dispatch_idempotency_key :: bool
  rc_returns_stable_ack :: bool
  rc_peer_retry_model :: peer_retry_model
  rc_default_retry_policy :: retry_policy

record remote_policy_decision =
  rp_effective_idempotency_level :: idempotency_level
  rp_default_retry_policy :: retry_policy
  rp_auto_retry_enabled :: bool
  rp_can_claim_guaranteed :: bool
  rp_reason :: string

definition evaluate_remote_service_policy ::
  "idempotency_level option \<Rightarrow> remote_contract option \<Rightarrow> remote_policy_decision" where
  "evaluate_remote_service_policy external_level contract =
     (let normalized_level = (case external_level of None \<Rightarrow> Unknown_level | Some l \<Rightarrow> l) in
      case contract of
        None \<Rightarrow>
          \<lparr>rp_effective_idempotency_level = (if normalized_level = Guaranteed then Best_effort else normalized_level),
           rp_default_retry_policy = No_auto_retry, rp_auto_retry_enabled = False, rp_can_claim_guaranteed = False,
           rp_reason = ''missing_remote_idempotency_contract''\<rparr>
      | Some c \<Rightarrow>
          let can_claim = (normalized_level = Guaranteed \<and> rc_accepts_dispatch_idempotency_key c \<and> rc_returns_stable_ack c) in
          \<lparr>rp_effective_idempotency_level =
             (if can_claim then Guaranteed else if normalized_level = Guaranteed then Best_effort else normalized_level),
           rp_default_retry_policy = rc_default_retry_policy c,
           rp_auto_retry_enabled = (rc_default_retry_policy c = Bounded_retry),
           rp_can_claim_guaranteed = can_claim,
           rp_reason = (if can_claim then ''validated_remote_contract'' else ''remote_contract_constrained'')\<rparr>)"

definition parse_retry_model :: "json option \<Rightarrow> peer_retry_model option" where
  "parse_retry_model v = (case v of
       Some (JStr s) \<Rightarrow> map_of [(''unknown'', Peer_unknown), (''at_most_once'', At_most_once),
         (''at_least_once'', At_least_once), (''exactly_once_claimed'', Exactly_once_claimed)] s
     | _ \<Rightarrow> None)"

definition parse_retry_policy :: "json option \<Rightarrow> retry_policy option" where
  "parse_retry_policy v = (case v of
       Some (JStr s) \<Rightarrow> map_of [(''no_auto_retry'', No_auto_retry), (''bounded_retry'', Bounded_retry)] s
     | _ \<Rightarrow> None)"

definition parse_remote_service_contract :: "json option \<Rightarrow> remote_contract option" where
  "parse_remote_service_contract value = (case value of
       Some (JObj p) \<Rightarrow>
         (case (get_bool p ''accepts_dispatch_idempotency_key'', get_bool p ''returns_stable_ack'') of
            (Some accepts_key, Some stable_ack) \<Rightarrow>
              (case (parse_retry_model (map_of p ''peer_retry_model''), parse_retry_policy (map_of p ''default_retry_policy'')) of
                 (Some model, Some policy) \<Rightarrow>
                   Some \<lparr>rc_accepts_dispatch_idempotency_key = accepts_key, rc_returns_stable_ack = stable_ack,
                     rc_peer_retry_model = model, rc_default_retry_policy = policy\<rparr>
               | _ \<Rightarrow> None)
          | _ \<Rightarrow> None)
     | _ \<Rightarrow> None)"

fun first_some :: "('a \<Rightarrow> 'b option) \<Rightarrow> 'a list \<Rightarrow> 'b option" where
  "first_some f [] = None"
| "first_some f (x # xs) = (case f x of Some y \<Rightarrow> Some y | None \<Rightarrow> first_some f xs)"

definition extract_remote_service_contract :: "json_dict option \<Rightarrow> remote_contract option" where
  "extract_remote_service_contract input_json = (case input_json of
       None \<Rightarrow> None
     | Some d \<Rightarrow> first_some parse_remote_service_contract
         (map (map_of d) [''remote_service_idempotency_contract'', ''remote_idempotency_contract'', ''idempotency_contract''] @
          (case get_dict d ''remote_service'' of
             Some r \<Rightarrow> map (map_of r) [''idempotency_contract'', ''contract''] | None \<Rightarrow> [])))"

section \<open>Host kinds\<close>

definition HOST_TAG_PREFIXES :: "string list" where
  "HOST_TAG_PREFIXES = [''host:'', ''host_kind:'', ''dispatch_host:'', ''dispatch_host_kind:'']"

definition HOST_KEYS :: "string list" where
  "HOST_KEYS = [''host_kind'', ''dispatch_host_kind'', ''host'', ''dispatch_host'']"

text \<open>The two copies differ in the host kinds they know: the argument is that list.\<close>

definition normalize_host_kind :: "string list \<Rightarrow> json option \<Rightarrow> string option" where
  "normalize_host_kind known value = (case value of
       Some (JStr s) \<Rightarrow> let n = py_lower (py_strip s) in if n \<in> set known then Some n else None
     | _ \<Rightarrow> None)"

definition extract_host_kind_from_policy_tags :: "string list \<Rightarrow> string list \<Rightarrow> string option" where
  "extract_host_kind_from_policy_tags known tags =
     first_some (\<lambda>tag. let normalized_tag = py_lower (py_strip tag) in
       first_some (\<lambda>prefix. if py_startswith normalized_tag prefix
           then normalize_host_kind known (Some (JStr (drop (length prefix) normalized_tag))) else None)
         HOST_TAG_PREFIXES) tags"

definition extract_host_kind_from_payload :: "string list \<Rightarrow> json_dict \<Rightarrow> string option" where
  "extract_host_kind_from_payload known d =
     (case first_some (\<lambda>key. normalize_host_kind known (map_of d key)) HOST_KEYS of
        Some k \<Rightarrow> Some k
      | None \<Rightarrow> (case get_dict d ''dispatch'' of
            Some inner \<Rightarrow> first_some (\<lambda>key. normalize_host_kind known (map_of inner key)) HOST_KEYS
          | None \<Rightarrow> None))"

definition resolve_explicit_host_kind :: "string list \<Rightarrow> action \<Rightarrow> string option" where
  "resolve_explicit_host_kind known a =
     (case extract_host_kind_from_policy_tags known (ac_policy_tags a) of
        Some k \<Rightarrow> Some k
      | None \<Rightarrow> extract_host_kind_from_payload known (payload (ac_input_json a)))"

definition resolve_dispatch_host_kind :: "string list \<Rightarrow> action \<Rightarrow> string" where
  "resolve_dispatch_host_kind known a =
     (case resolve_explicit_host_kind known a of
        Some k \<Rightarrow> k
      | None \<Rightarrow> if ac_effect_class a \<noteq> Read_only \<and> ac_external_idempotency_level a \<noteq> None
          then ''remote_service'' else ''local_cli'')"

definition ENGINE_HOST_KINDS :: "string list" where
  "ENGINE_HOST_KINDS = [''local_cli'', ''local_process'', ''remote_service'', ''cli_process'', ''in_process_python'']"

definition ADMISSION_HOST_KINDS :: "string list" where
  "ADMISSION_HOST_KINDS = [''local_cli'', ''local_process'', ''remote_service'']"

section \<open>The dispatch policy of a turn\<close>

record dispatch_policy =
  dp_host_kind :: string
  dp_should_block :: bool
  dp_block_reason :: "string option"
  dp_remote_policy_decision :: "remote_policy_decision option"

definition resolve_dispatch_policy :: "action \<Rightarrow> dispatch_policy" where
  "resolve_dispatch_policy a =
     (let host_kind = resolve_dispatch_host_kind ENGINE_HOST_KINDS a in
      if host_kind \<noteq> ''remote_service'' \<or> ac_effect_class a = Read_only
      then \<lparr>dp_host_kind = host_kind, dp_should_block = False, dp_block_reason = None, dp_remote_policy_decision = None\<rparr>
      else
        let remote_policy = evaluate_remote_service_policy (ac_external_idempotency_level a)
              (extract_remote_service_contract (ac_input_json a))
        in if ac_external_idempotency_level a = Some Guaranteed \<and> \<not> rp_can_claim_guaranteed remote_policy
           then \<lparr>dp_host_kind = host_kind, dp_should_block = True,
             dp_block_reason = Some ''idempotency_contract_insufficient'', dp_remote_policy_decision = Some remote_policy\<rparr>
           else \<lparr>dp_host_kind = host_kind, dp_should_block = False, dp_block_reason = None,
             dp_remote_policy_decision = Some remote_policy\<rparr>)"


section \<open>The static admission gate\<close>

datatype reason_code =
    Ok_code | Permission_denied | Quota_exceeded | Policy_denied | Dependency_not_ready | Stale_policy
  | Idempotency_contract_insufficient

datatype network_policy = Deny_all | Allow_list | Allow_all

record sandbox_grant =
  sg_grant_ref :: string
  sg_host_kind :: string
  sg_sandbox_profile_ref :: "string option"
  sg_allowed_mounts :: "string list"
  sg_denied_mounts :: "string list"
  sg_network_policy :: network_policy
  sg_allowed_hosts :: "string list"

record admission_result =
  ar_admitted :: bool
  ar_reason_code :: reason_code
  ar_expires_at :: "string option"
  ar_grant_ref :: "string option"
  ar_policy_snapshot_ref :: "string option"
  ar_sandbox_grant :: "sandbox_grant option"
  ar_idempotency_envelope :: "json_dict option"

definition denied :: "reason_code \<Rightarrow> admission_result" where
  "denied code = \<lparr>ar_admitted = False, ar_reason_code = code, ar_expires_at = None, ar_grant_ref = None,
     ar_policy_snapshot_ref = None, ar_sandbox_grant = None, ar_idempotency_envelope = None\<rparr>"

definition effect_class_str :: "effect_class \<Rightarrow> string" where
  "effect_class_str c = (case c of Read_only \<Rightarrow> ''read_only'' | Idempotent_write \<Rightarrow> ''idempotent_write''
     | Compensatable_write \<Rightarrow> ''compensatable_write'' | Irreversible_write \<Rightarrow> ''irreversible_write'')"

definition requires_remote_idempotency_contract_block :: "action \<Rightarrow> bool" where
  "requires_remote_idempotency_contract_block a =
     (if ac_effect_class a = Read_only then False
      else if ac_external_idempotency_level a \<noteq> Some Guaranteed then False
      else if resolve_dispatch_host_kind ADMISSION_HOST_KINDS a \<noteq> ''remote_service'' then False
      else \<not> rp_can_claim_guaranteed (evaluate_remote_service_policy (ac_external_idempotency_level a)
        (extract_remote_service_contract (ac_input_json a))))"

definition SANDBOX_TAGS :: "(string \<times> string) list" where
  "SANDBOX_TAGS =
     [(''host:local_process'', ''local_process''), (''host:local_cli'', ''local_cli''), (''host:remote_service'', ''remote_service''),
      (''host_kind:local_process'', ''local_process''), (''host_kind:local_cli'', ''local_cli''),
      (''host_kind:remote_service'', ''remote_service'')]"

definition resolve_sandbox_host_kind :: "action \<Rightarrow> string" where
  "resolve_sandbox_host_kind a =
     (let normalized_tags = (\<lambda>tag. py_lower (py_strip tag)) ` set (ac_policy_tags a) in
      case find (\<lambda>c. fst c \<in> normalized_tags) SANDBOX_TAGS of
        Some c \<Rightarrow> snd c
      | None \<Rightarrow> if ac_external_idempotency_level a \<noteq> None \<and> ac_effect_class a \<noteq> Read_only
          then ''remote_service'' else ''local_cli'')"

definition build_admitted_result :: "action \<Rightarrow> admission_result" where
  "build_admitted_result a =
     (let host_kind = resolve_sandbox_host_kind a; grant_ref = ''grant:'' @ ac_action_id a in
      \<lparr>ar_admitted = True, ar_reason_code = Ok_code, ar_expires_at = None, ar_grant_ref = Some grant_ref,
       ar_policy_snapshot_ref = None,
       ar_sandbox_grant = Some \<lparr>sg_grant_ref = grant_ref, sg_host_kind = host_kind,
         sg_sandbox_profile_ref = Some (''sandbox:'' @ host_kind @ '':default''), sg_allowed_mounts = [''workspace:/''],
         sg_denied_mounts = [], sg_network_policy = (if host_kind \<noteq> ''remote_service'' then Deny_all else Allow_list),
         sg_allowed_hosts = []\<rparr>,
       ar_idempotency_envelope = Some
         [(''dispatch_idempotency_key'', JStr (''dispatch:'' @ ac_run_id a @ '':'' @ ac_action_id a)),
          (''operation_fingerprint'', JStr (ac_run_id a @ '':'' @ ac_action_id a)),
          (''attempt_seq'', JInt 1), (''effect_scope'', JStr (effect_class_str (ac_effect_class a))),
          (''host_kind'', JStr host_kind)]\<rparr>)"

definition extract_max_cost_from_policy_tags :: "(string \<Rightarrow> real option) \<Rightarrow> string list \<Rightarrow> real option" where
  "extract_max_cost_from_policy_tags py_float tags =
     first_some (\<lambda>tag. if py_startswith tag ''max_cost:'' then py_float (py_strip (drop (length ''max_cost:'') tag)) else None) tags"

definition coerce_finite_number :: "(string \<Rightarrow> real option) \<Rightarrow> json option \<Rightarrow> real option" where
  "coerce_finite_number py_float v = (case v of Some (JInt n) \<Rightarrow> Some (real_of_int n) | Some (JFloat s) \<Rightarrow> py_float s | _ \<Rightarrow> None)"

definition extract_estimated_cost :: "(string \<Rightarrow> real option) \<Rightarrow> json_dict option \<Rightarrow> real option" where
  "extract_estimated_cost py_float input_json = (case input_json of None \<Rightarrow> None
     | Some d \<Rightarrow> coerce_finite_number py_float (map_of d ''estimated_cost''))"

definition evaluate_action_policy_denies :: "(string \<Rightarrow> real option) \<Rightarrow> action \<Rightarrow> admission_result option" where
  "evaluate_action_policy_denies py_float a =
     (if ''requires_human_review'' \<in> set (ac_policy_tags a) then Some (denied Policy_denied)
      else if (case ac_timeout_ms a of Some t \<Rightarrow> 0 < t \<and> 300000 < t | None \<Rightarrow> False) then Some (denied Policy_denied)
      else if (case (extract_max_cost_from_policy_tags py_float (ac_policy_tags a), extract_estimated_cost py_float (ac_input_json a)) of
            (Some max_cost, Some estimated_cost) \<Rightarrow> max_cost < estimated_cost | _ \<Rightarrow> False) then Some (denied Quota_exceeded)
      else if requires_remote_idempotency_contract_block a then Some (denied Idempotency_contract_insufficient)
      else None)"

definition static_admit :: "(string \<Rightarrow> real option) \<Rightarrow> action \<Rightarrow> admission_result" where
  "static_admit py_float a = (case evaluate_action_policy_denies py_float a of Some r \<Rightarrow> r | None \<Rightarrow> build_admitted_result a)"

definition static_check :: "(string \<Rightarrow> real option) \<Rightarrow> action \<Rightarrow> run_projection \<Rightarrow> admission_result" where
  "static_check py_float a p =
     (case evaluate_action_policy_denies py_float a of
        Some r \<Rightarrow> r
      | None \<Rightarrow> if pj_lifecycle_state p \<in> {L_ready, L_dispatching} \<and> pj_ready_for_dispatch p \<and> \<not> pj_waiting_external p
          then build_admitted_result a else denied Dependency_not_ready)"

end
