(* ===== verification/Admission.thy ===== *)
theory Admission
  imports Capability_Snapshot Dispatch_Policy
begin

text \<open>
  The default admission service of the kernel, \<open>admission/snapshot_driven_admission.py\<close>, with the tenant
  policies of \<open>admission/tenant_policy.py\<close>: five rules, the first denial wins, the last of them a sliding
  window of sixty seconds per run. The service reads its action through \<open>getattr\<close>: an attribute the
  object does not have is \<open>None\<close>. Reading and decoding a policy file is the parameter \<open>read_policy\<close>.
\<close>

section \<open>Tenant policies\<close>

record tenant_policy =
  tp_policy_id :: string
  tp_max_allowed_risk_tier :: int
  tp_allow_non_idempotent_remote_writes :: bool
  tp_max_actions_per_minute :: int

definition DEFAULT_POLICY :: tenant_policy where
  "DEFAULT_POLICY = \<lparr>tp_policy_id = ''default'', tp_max_allowed_risk_tier = 3,
     tp_allow_non_idempotent_remote_writes = False, tp_max_actions_per_minute = 120\<rparr>"

datatype policy_error = UnknownPolicyRef string | PolicyFileError string

definition resolve_policy :: "(string \<Rightarrow> tenant_policy option) \<Rightarrow> string \<Rightarrow> policy_error + tenant_policy" where
  "resolve_policy read_policy policy_ref =
     (if policy_ref = ''policy:default'' then Inr DEFAULT_POLICY
      else if py_startswith policy_ref ''file://'' then
        (let path = drop (length ''file://'') policy_ref in
         case read_policy path of None \<Rightarrow> Inl (PolicyFileError path) | Some p \<Rightarrow> Inr p)
      else Inl (UnknownPolicyRef policy_ref))"

section \<open>The subject of admission\<close>

text \<open>What \<open>getattr\<close> finds on the object handed to the service.\<close>

record subject =
  sb_run_id :: "string option"
  sb_action_type :: "string option"
  sb_tool_name :: "string option"
  sb_mcp_server :: "string option"
  sb_mcp_capability :: "string option"
  sb_peer_run_id :: "string option"
  sb_idempotency_level :: "string option"
  sb_effect_class :: "string option"
  sb_risk_tier :: "int option"

text \<open>The attributes of the kernel's own \<open>Action\<close>: a frozen dataclass with slots, so nothing can be added to it.\<close>

definition subject_of_action :: "action \<Rightarrow> subject" where
  "subject_of_action a =
     \<lparr>sb_run_id = Some (ac_run_id a), sb_action_type = Some (ac_action_type a), sb_tool_name = None,
      sb_mcp_server = None, sb_mcp_capability = None, sb_peer_run_id = None, sb_idempotency_level = None,
      sb_effect_class = Some (effect_class_str (ac_effect_class a)), sb_risk_tier = None\<rparr>"

section \<open>The rules\<close>

type_synonym rate_windows = "(string \<times> real list) list"

definition check_permission_mode :: "subject \<Rightarrow> snapshot \<Rightarrow> admission_result option" where
  "check_permission_mode a sn =
     (if sn_permission_mode sn \<in> {''readonly'', ''read_only''} \<and> sb_action_type a \<notin> {Some ''noop'', Some ''read''}
      then Some (denied Permission_denied) else None)"

definition check_binding_existence :: "subject \<Rightarrow> snapshot \<Rightarrow> admission_result option" where
  "check_binding_existence a sn =
     (if sb_action_type a = Some ''tool_call'' then
        (case sb_tool_name a of
           Some tool_name \<Rightarrow> if tool_name \<notin> set (sn_tool_bindings sn) then Some (denied Policy_denied) else None
         | None \<Rightarrow> None)
      else if sb_action_type a = Some ''mcp_call'' then
        (case (sb_mcp_server a, sb_mcp_capability a) of
           (Some server, Some capability) \<Rightarrow>
             if server @ ''/'' @ capability \<notin> set (sn_mcp_bindings sn) then Some (denied Policy_denied) else None
         | _ \<Rightarrow> None)
      else if sb_action_type a = Some ''peer_signal'' then
        (if sn_peer_run_bindings sn \<noteq> [] then
           (case sb_peer_run_id a of
              Some peer \<Rightarrow> if peer \<notin> set (sn_peer_run_bindings sn) then Some (denied Policy_denied) else None
            | None \<Rightarrow> None)
         else None)
      else None)"

definition check_idempotency :: "subject \<Rightarrow> tenant_policy \<Rightarrow> admission_result option" where
  "check_idempotency a policy =
     (if \<not> tp_allow_non_idempotent_remote_writes policy \<and> sb_idempotency_level a = Some ''non_idempotent'' \<and>
         sb_effect_class a \<in> {Some ''remote_write'', Some ''irreversible_write''}
      then Some (denied Policy_denied) else None)"

definition check_risk_tier :: "subject \<Rightarrow> tenant_policy \<Rightarrow> admission_result option" where
  "check_risk_tier a policy =
     (let risk_tier = (case sb_risk_tier a of None \<Rightarrow> 0 | Some t \<Rightarrow> t)
      in if tp_max_allowed_risk_tier policy < risk_tier then Some (denied Policy_denied) else None)"

definition check_rate_limit :: "real \<Rightarrow> subject \<Rightarrow> tenant_policy \<Rightarrow> rate_windows \<Rightarrow> admission_result option \<times> rate_windows" where
  "check_rate_limit now a policy ws =
     (let run_id = str_or (sb_run_id a);
          window0 = (case map_of ws run_id of None \<Rightarrow> [] | Some w \<Rightarrow> w);
          window = dropWhile (\<lambda>t. t < now - 60) window0
      in if tp_max_actions_per_minute policy \<le> int (length window)
         then (Some (denied Quota_exceeded), dict_set run_id window ws)
         else (None, dict_set run_id (window @ [now]) ws))"

definition admit ::
  "(string \<Rightarrow> tenant_policy option) \<Rightarrow> real \<Rightarrow> subject \<Rightarrow> snapshot \<Rightarrow> rate_windows \<Rightarrow>
   (policy_error + admission_result) \<times> rate_windows" where
  "admit read_policy now a sn ws =
     (let policy_ref = (if sn_tenant_policy_ref sn = '''' then ''policy:default'' else sn_tenant_policy_ref sn) in
      case resolve_policy read_policy policy_ref of
        Inl e \<Rightarrow> (Inl e, ws)
      | Inr policy \<Rightarrow>
          (case check_permission_mode a sn of
             Some r \<Rightarrow> (Inr r, ws)
           | None \<Rightarrow>
          (case check_binding_existence a sn of
             Some r \<Rightarrow> (Inr r, ws)
           | None \<Rightarrow>
          (case check_idempotency a policy of
             Some r \<Rightarrow> (Inr r, ws)
           | None \<Rightarrow>
          (case check_risk_tier a policy of
             Some r \<Rightarrow> (Inr r, ws)
           | None \<Rightarrow>
          (case check_rate_limit now a policy ws of
             (Some r, ws') \<Rightarrow> (Inr r, ws')
           | (None, ws') \<Rightarrow> (Inr ((denied Ok_code)\<lparr>ar_admitted := True\<rparr>), ws')))))))"


section \<open>What the rules see of an action\<close>

definition policy_ref_of :: "snapshot \<Rightarrow> string" where
  "policy_ref_of sn = (if sn_tenant_policy_ref sn = '''' then ''policy:default'' else sn_tenant_policy_ref sn)"

text \<open>The four rules without state, first denial first.\<close>

definition static_rules :: "subject \<Rightarrow> snapshot \<Rightarrow> tenant_policy \<Rightarrow> admission_result option" where
  "static_rules a sn p = first_some id
     [check_permission_mode a sn, check_binding_existence a sn, check_idempotency a p, check_risk_tier a p]"

lemma admit_rules:
  "admit read_policy now a sn ws = (case resolve_policy read_policy (policy_ref_of sn) of
       Inl e \<Rightarrow> (Inl e, ws)
     | Inr p \<Rightarrow> (case static_rules a sn p of
           Some r \<Rightarrow> (Inr r, ws)
         | None \<Rightarrow> (case check_rate_limit now a p ws of
               (Some r, ws') \<Rightarrow> (Inr r, ws')
             | (None, ws') \<Rightarrow> (Inr ((denied Ok_code)\<lparr>ar_admitted := True\<rparr>), ws'))))"
  by (simp add: admit_def policy_ref_of_def static_rules_def Let_def split: sum.split option.split)

lemma static_rules_deny: "static_rules a sn p = Some r \<Longrightarrow> \<not> ar_admitted r"
  by (auto simp: static_rules_def check_permission_mode_def check_binding_existence_def check_idempotency_def
      check_risk_tier_def denied_def Let_def split: if_splits option.splits)

lemma static_rules_action:
  "static_rules (subject_of_action a) sn p =
     (if sn_permission_mode sn \<in> {''readonly'', ''read_only''} \<and> ac_action_type a \<notin> {''noop'', ''read''} then Some (denied Permission_denied)
      else if tp_max_allowed_risk_tier p < 0 then Some (denied Policy_denied) else None)"
  by (simp add: static_rules_def check_permission_mode_def check_binding_existence_def check_idempotency_def
      check_risk_tier_def subject_of_action_def)

lemma rate_limit_denies: "check_rate_limit now a p ws = (Some r, ws') \<Longrightarrow> r = denied Quota_exceeded"
  by (auto simp: check_rate_limit_def Let_def split: if_splits)

text \<open>The bindings of a snapshot never matter for the kernel's own actions: the service looks for a tool name, an MCP
  server, a peer, an idempotency level and a risk tier as attributes of the action, and the \<open>Action\<close>
  dataclass has none of them, so admission gives the same answer whatever tools, MCP capabilities and
  peers the snapshot binds, and a denial can only come from the permission mode, the rate limit or a
  negative risk tier.\<close>

lemma bindings_never_consulted:
  "admit read_policy now (subject_of_action a) (sn\<lparr>sn_tool_bindings := tools, sn_mcp_bindings := mcps, sn_peer_run_bindings := peers\<rparr>) ws =
     admit read_policy now (subject_of_action a) sn ws \<and>
   (\<forall>r. fst (admit read_policy now (subject_of_action a) sn ws) = Inr r \<longrightarrow> \<not> ar_admitted r \<longrightarrow>
     ar_reason_code r \<in> {Permission_denied, Quota_exceeded} \<or>
     (\<exists>p. resolve_policy read_policy (if sn_tenant_policy_ref sn = '''' then ''policy:default'' else sn_tenant_policy_ref sn) = Inr p \<and>
       tp_max_allowed_risk_tier p < 0))"
proof -
  let ?sn = "sn\<lparr>sn_tool_bindings := tools, sn_mcp_bindings := mcps, sn_peer_run_bindings := peers\<rparr>"
  have "policy_ref_of ?sn = policy_ref_of sn" "static_rules (subject_of_action a) ?sn p = static_rules (subject_of_action a) sn p" for p
    by (simp_all add: policy_ref_of_def static_rules_action)
  then have same: "admit read_policy now (subject_of_action a) ?sn ws = admit read_policy now (subject_of_action a) sn ws"
    unfolding admit_rules by presburger
  have "ar_reason_code r \<in> {Permission_denied, Quota_exceeded} \<or>
      (\<exists>p. resolve_policy read_policy (policy_ref_of sn) = Inr p \<and> tp_max_allowed_risk_tier p < 0)"
    if "fst (admit read_policy now (subject_of_action a) sn ws) = Inr r" "\<not> ar_admitted r" for r
    using that unfolding admit_rules static_rules_action
    by (auto split: sum.splits option.splits prod.splits if_splits dest: rate_limit_denies simp: denied_def)
  with same show ?thesis unfolding policy_ref_of_def by blast
qed

section \<open>The rate limit\<close>

type_synonym admit_call = "real \<times> subject \<times> snapshot"

definition call_policy :: "(string \<Rightarrow> tenant_policy option) \<Rightarrow> admit_call \<Rightarrow> policy_error + tenant_policy" where
  "call_policy read_policy c = resolve_policy read_policy (policy_ref_of (snd (snd c)))"

definition admit_step ::
  "(string \<Rightarrow> tenant_policy option) \<Rightarrow> admit_call \<Rightarrow> rate_windows \<times> (string \<times> real) list \<Rightarrow> rate_windows \<times> (string \<times> real) list" where
  "admit_step read_policy c st =
     (case admit read_policy (fst c) (fst (snd c)) (snd (snd c)) (fst st) of
        (Inr r, ws') \<Rightarrow> (ws', if ar_admitted r then snd st @ [(str_or (sb_run_id (fst (snd c))), fst c)] else snd st)
      | (Inl _, ws') \<Rightarrow> (ws', snd st))"

definition times_of :: "string \<Rightarrow> (string \<times> real) list \<Rightarrow> real list" where
  "times_of rid entries = map snd (filter (\<lambda>x. fst x = rid) entries)"

definition window_of :: "string \<Rightarrow> rate_windows \<Rightarrow> real list" where
  "window_of rid ws = (case map_of ws rid of None \<Rightarrow> [] | Some w \<Rightarrow> w)"

definition in_window :: "real \<Rightarrow> real list \<Rightarrow> real list" where
  "in_window t ts = filter (\<lambda>u. t \<le> u \<and> u \<le> t + 60) ts"

text \<open>The window of a run is the tail of its admissions that the last clock reading still covers.\<close>

definition rate_ok :: "nat \<Rightarrow> string \<Rightarrow> real \<Rightarrow> rate_windows \<times> (string \<times> real) list \<Rightarrow> bool" where
  "rate_ok m rid now st = (let ts = times_of rid (snd st) in
     sorted ts \<and> (\<forall>u\<in>set ts. u \<le> now) \<and>
     (\<exists>old. ts = old @ window_of rid (fst st) \<and> (\<forall>u\<in>set old. u < now - 60)) \<and>
     (\<forall>t. length (in_window t ts) \<le> m))"

lemma dropWhile_sorted_old:
  assumes "sorted ts" "ts = old @ w" "\<forall>u\<in>set old. u < lo - 60" "lo \<le> (now :: real)"
  shows "\<exists>old'. ts = old' @ dropWhile (\<lambda>t. t < now - 60) w \<and> (\<forall>u\<in>set old'. u < now - 60)"
proof -
  have "\<forall>u\<in>set (takeWhile (\<lambda>t. t < now - 60) w). u < now - 60" by (auto dest: set_takeWhileD)
  moreover have "\<forall>u\<in>set old. u < now - 60" using assms(3,4) by fastforce
  ultimately show ?thesis using assms(2)
    by (intro exI [of _ "old @ takeWhile (\<lambda>t. t < now - 60) w"]) auto
qed

lemma in_window_append:
  assumes "ts = old @ w" "\<forall>u\<in>set old. u < now - 60" "length w < m" "\<forall>t. length (in_window t ts) \<le> m"
  shows "length (in_window t (ts @ [now])) \<le> m"
proof (cases "t \<le> now \<and> now \<le> t + 60")
  case True
  then have "in_window t old = []" using assms(2) by (auto simp: in_window_def filter_empty_conv)
  moreover have "length (in_window t w) \<le> length w" by (simp add: in_window_def)
  moreover have "in_window t (ts @ [now]) = in_window t old @ in_window t w @ [now]" using assms(1) True by (simp add: in_window_def)
  ultimately show ?thesis using assms(3) by simp
next
  case False
  then have "in_window t (ts @ [now]) = in_window t ts" by (auto simp: in_window_def)
  then show ?thesis using assms(4) by simp
qed


definition swept :: "real \<Rightarrow> string \<Rightarrow> rate_windows \<Rightarrow> real list" where
  "swept now rid ws = dropWhile (\<lambda>t. t < now - 60) (window_of rid ws)"

lemma admit_step_effect:
  fixes c :: admit_call
  defines "now \<equiv> fst c" and "rid \<equiv> str_or (sb_run_id (fst (snd c)))"
  shows "admit_step rp c st = st \<or> admit_step rp c st = (dict_set rid (swept now rid (fst st)) (fst st), snd st) \<or>
    (\<exists>p. call_policy rp c = Inr p \<and> int (length (swept now rid (fst st))) < tp_max_actions_per_minute p \<and>
      admit_step rp c st = (dict_set rid (swept now rid (fst st) @ [now]) (fst st), snd st @ [(rid, now)]))"
proof -
  obtain a sn where c: "c = (now, a, sn)" "rid = str_or (sb_run_id a)" unfolding now_def rid_def by (metis fst_conv prod.collapse snd_conv)
  have rate: "check_rate_limit now a p ws = (if tp_max_actions_per_minute p \<le> int (length (swept now rid ws))
      then (Some (denied Quota_exceeded), dict_set rid (swept now rid ws) ws)
      else (None, dict_set rid (swept now rid ws @ [now]) ws))" for p ws
    by (simp add: check_rate_limit_def swept_def window_of_def c(2) Let_def)
  show ?thesis
    by (cases st) (auto simp: admit_step_def admit_rules call_policy_def c rate denied_def
        split: sum.splits option.splits dest: static_rules_deny)
qed

lemma rate_ok_later: "rate_ok m rid lo st \<Longrightarrow> lo \<le> now \<Longrightarrow> rate_ok m rid now st"
  unfolding rate_ok_def Let_def by (meson diff_right_mono order_less_le_trans order_trans)

lemma rate_ok_sweep:
  assumes "rate_ok m rid lo st" "lo \<le> now"
  shows "rate_ok m rid now (dict_set rid' (swept now rid' (fst st)) (fst st), snd st)"
proof (cases "rid' = rid")
  case True
  from assms(1) obtain old where "sorted (times_of rid (snd st))" "times_of rid (snd st) = old @ window_of rid (fst st)" "\<forall>u\<in>set old. u < lo - 60"
    by (auto simp: rate_ok_def Let_def)
  from dropWhile_sorted_old [OF this assms(2)] rate_ok_later [OF assms] True show ?thesis
    by (auto simp: rate_ok_def Let_def swept_def window_of_def)
next
  case False
  with rate_ok_later [OF assms] show ?thesis by (simp add: rate_ok_def window_of_def)
qed

lemma rate_ok_step:
  assumes "rate_ok m rid lo st" "lo \<le> fst c" "\<forall>p. call_policy rp c = Inr p \<longrightarrow> tp_max_actions_per_minute p \<le> int m"
  shows "rate_ok m rid (fst c) (admit_step rp c st)"
proof -
  let ?now = "fst c" and ?r = "str_or (sb_run_id (fst (snd c)))"
  let ?w = "swept ?now ?r (fst st)"
  note swept_ok = rate_ok_sweep [OF assms(1,2), of ?r]
  consider "admit_step rp c st = st" | "admit_step rp c st = (dict_set ?r ?w (fst st), snd st)"
    | "length ?w < m" "admit_step rp c st = (dict_set ?r (?w @ [?now]) (fst st), snd st @ [(?r, ?now)])"
    using admit_step_effect [of rp c st] assms(3) by fastforce
  then show ?thesis
  proof cases
    case 3
    show ?thesis
    proof (cases "?r = rid")
      case True
      with swept_ok obtain old where ts: "sorted (times_of rid (snd st))" "\<forall>u\<in>set (times_of rid (snd st)). u \<le> ?now"
        "times_of rid (snd st) = old @ ?w" "\<forall>u\<in>set old. u < ?now - 60" "\<forall>t. length (in_window t (times_of rid (snd st))) \<le> m"
        by (auto simp: rate_ok_def Let_def window_of_def)
      have new: "times_of rid (snd st @ [(?r, ?now)]) = times_of rid (snd st) @ [?now]" using True by (simp add: times_of_def)
      have "sorted (times_of rid (snd st) @ [?now])" using ts(1,2) by (simp add: sorted_append)
      then show ?thesis
        using ts in_window_append [OF ts(3,4) 3(1) ts(5)] True unfolding rate_ok_def Let_def 3(2) fst_conv snd_conv new
        by (auto simp: window_of_def)
    next
      case False
      then have "times_of rid (snd st @ [(?r, ?now)]) = times_of rid (snd st)" by (simp add: times_of_def)
      with rate_ok_later [OF assms(1,2)] False 3(2) show ?thesis by (simp add: rate_ok_def window_of_def)
    qed
  qed (use swept_ok rate_ok_later [OF assms(1,2)] in simp_all)
qed

lemma rate_ok_fold:
  "rate_ok m rid lo st \<Longrightarrow> sorted (lo # map fst calls) \<Longrightarrow> \<forall>c\<in>set calls. \<forall>p. call_policy rp c = Inr p \<longrightarrow> tp_max_actions_per_minute p \<le> int m \<Longrightarrow>
   \<exists>now. rate_ok m rid now (fold (admit_step rp) calls st)"
proof (induction calls arbitrary: lo st)
  case (Cons c calls)
  have "rate_ok m rid (fst c) (admit_step rp c st)" using Cons.prems by (intro rate_ok_step [of m rid lo]) auto
  from Cons.IH [OF this] Cons.prems show ?case by simp
qed auto


text \<open>The rate limit is a true sliding window: with a clock that never goes back, whatever actions are submitted
  under policies that allow at most \<open>m\<close> actions per minute, no interval of sixty seconds sees more than
  \<open>m\<close> actions of a run admitted.\<close>

lemma rate_limit_holds_in_every_minute:
  assumes "sorted (map fst calls)"
    and "\<forall>c\<in>set calls. \<forall>p. call_policy read_policy c = Inr p \<longrightarrow> tp_max_actions_per_minute p \<le> int m"
    and "fold (admit_step read_policy) calls ([], []) = (ws, admitted)"
  shows "length (in_window t (times_of rid admitted)) \<le> m"
proof (cases calls)
  case (Cons c cs)
  have "rate_ok m rid (fst c) ([], [])" by (simp add: rate_ok_def times_of_def window_of_def in_window_def)
  moreover have "sorted (fst c # map fst calls)" using assms(1) Cons by simp
  ultimately obtain now where "rate_ok m rid now (ws, admitted)" using rate_ok_fold [OF _ _ assms(2)] assms(3) by metis
  then show ?thesis by (simp add: rate_ok_def Let_def)
qed (use assms in \<open>simp add: times_of_def in_window_def\<close>)

definition wit_snapshot :: snapshot where
  "wit_snapshot = \<lparr>sn_snapshot_ref = ''s'', sn_snapshot_hash = ''h'', sn_run_id = ''r'', sn_based_on_offset = 0,
     sn_tenant_policy_ref = ''policy:default'', sn_permission_mode = ''strict'', sn_tool_bindings = [], sn_mcp_bindings = [],
     sn_skill_bindings = [], sn_feature_flags = [], sn_context_binding_ref = None, sn_context_content_hash = None,
     sn_budget_ref = None, sn_quota_ref = None, sn_session_mode = None, sn_approval_state = None,
     sn_declarative_bundle_digest = None, sn_created_at = ''t'', sn_snapshot_schema_version = ''1'', sn_peer_run_bindings = []\<rparr>"

definition wit_action :: action where
  "wit_action = \<lparr>ac_action_id = ''a'', ac_run_id = ''r'', ac_action_type = ''tool_call'', ac_effect_class = Irreversible_write,
     ac_external_idempotency_level = None, ac_interaction_target = None, ac_input_ref = None, ac_input_json = None,
     ac_policy_tags = [], ac_timeout_ms = None, ac_side_effect_class = None\<rparr>"

end
