(* ===== verification/Turn_Engine.thy ===== *)
theory Turn_Engine
  imports Admission Dedupe_Store
begin

text \<open>
  One turn of the kernel, \<open>agent_kernel/kernel/turn_engine.py\<close>: six phases on a context, each of which may
  set the result and end the turn, or raise. The services the engine is built with are the fields of
  \<open>turn_env\<close>: the snapshot builder, the admission service, the dedupe store, the executor and the
  optional reasoning loop. The engine's world is the state of the admission service and of the store and
  the list of executor calls made so far, which the executor's answer may depend on. A call to the
  store may raise. Observability hooks, whose exceptions are suppressed, and phase timeouts are left out.
\<close>

section \<open>Data\<close>

datatype turn_trigger = Start_trigger | Signal_trigger | Child_join_trigger | Recovery_resume_trigger

definition trigger_str :: "turn_trigger \<Rightarrow> string" where
  "trigger_str t = (case t of Start_trigger \<Rightarrow> ''start'' | Signal_trigger \<Rightarrow> ''signal''
     | Child_join_trigger \<Rightarrow> ''child_join'' | Recovery_resume_trigger \<Rightarrow> ''recovery_resume'')"

datatype turn_state =
    Collecting | Intent_committed | Reasoning | Snapshot_built | Admission_checked | Dispatch_blocked
  | Dispatched_state | Dispatch_acknowledged | Effect_unknown | Effect_recorded | Recovery_pending | Completed_noop

datatype turn_outcome_kind = Noop_outcome | Blocked_outcome | Dispatched_outcome | Recovery_pending_outcome

text \<open>The states of events include diagnostics that are no turn states, so they stay strings.\<close>

record turn_state_event =
  ts_state :: string
  ts_reason :: "string option"
  ts_metadata :: "(string \<times> string) list"

definition ev :: "string \<Rightarrow> turn_state_event" where
  "ev state = \<lparr>ts_state = state, ts_reason = None, ts_metadata = []\<rparr>"

record turn_input =
  in_run_id :: string
  in_through_offset :: int
  in_based_on_offset :: int
  in_trigger_type :: turn_trigger
  in_history :: "json list"

record turn_engine_defaults =
  df_model_ref :: string
  df_tenant_policy_ref :: string
  df_permission_mode :: string

record turn_identity =
  id_decision_ref :: string
  id_decision_fingerprint :: string
  id_intent_commit_ref :: string
  id_dispatch_dedupe_key :: string

record execution_context =
  xc_run_id :: string
  xc_action_id :: string
  xc_causation_id :: string
  xc_correlation_id :: string
  xc_lineage_id :: string
  xc_capability_snapshot_ref :: string
  xc_capability_snapshot_hash :: string
  xc_context_binding_ref :: "string option"
  xc_grant_ref :: "string option"
  xc_policy_snapshot_ref :: "string option"
  xc_rule_bundle_hash :: "string option"
  xc_declarative_bundle_digest :: "bundle_digest option"
  xc_timeout_ms :: "int option"
  xc_budget_ref :: "string option"

datatype failed_stage = Admission_stage | Execution_stage | Verification_stage | Reconciliation_stage | Callback_stage

datatype failure_class = Deterministic | Transient | Policy_class | Side_effect_class | Unknown_class

datatype evidence_source = External_ack_source | Evidence_source | Local_inference_source | No_source

record failure_envelope =
  fe_run_id :: string
  fe_action_id :: "string option"
  fe_failed_stage :: failed_stage
  fe_failed_component :: string
  fe_failure_code :: string
  fe_failure_class :: failure_class
  fe_evidence_ref :: "string option"
  fe_external_ack_ref :: "string option"
  fe_local_inference :: "string option"
  fe_evidence_priority_source :: evidence_source
  fe_evidence_priority_ref :: "string option"
  fe_retryability :: string
  fe_compensation_hint :: "string option"
  fe_human_escalation_hint :: "string option"
  fe_trace_failure_code :: "string option"

record action_commit_meta =
  am_action_id :: string
  am_run_id :: string
  am_committed_at :: string
  am_execution_context :: execution_context

record turn_result =
  tr_state :: turn_state
  tr_outcome_kind :: turn_outcome_kind
  tr_decision_ref :: string
  tr_decision_fingerprint :: string
  tr_dispatch_dedupe_key :: "string option"
  tr_intent_commit_ref :: "string option"
  tr_host_kind :: "string option"
  tr_remote_policy_decision :: "remote_policy_decision option"
  tr_action_commit :: "action_commit_meta option"
  tr_recovery_input :: "failure_envelope option"
  tr_emitted_events :: "turn_state_event list"

text \<open>What an admission service may return: a bare boolean, an \<open>AdmissionResult\<close>, or some other object, of which
  only the truth value counts.\<close>

datatype admission_value = Adm_bool bool | Adm_result admission_result | Adm_other bool

datatype turn_error =
    Admission_raised
  | Store_raised dedupe_error
  | Executor_raised
  | Assertion_failed
  | No_result

record ('s, 'a) turn_env =
  te_build :: "snapshot_input \<Rightarrow> snapshot_error + snapshot"
  te_resolver :: "(turn_input \<Rightarrow> action \<Rightarrow> snapshot_error + snapshot_input) option"
  te_require_declared :: bool
  te_content_digest :: "json \<Rightarrow> string"
  te_reasoning :: "(turn_input \<Rightarrow> snapshot \<Rightarrow> unit + action list) option"
  te_admit :: "action \<Rightarrow> snapshot \<Rightarrow> 'a \<Rightarrow> (unit + admission_value) \<times> 'a"
  te_get :: "string \<Rightarrow> 's \<Rightarrow> (dedupe_error + dedupe_record option) \<times> 's"
  te_exec :: "dedupe_op \<Rightarrow> 's \<Rightarrow> dedupe_reply \<times> 's"
  te_execute :: "action \<Rightarrow> snapshot \<Rightarrow> idempotency_envelope \<Rightarrow> execution_context \<Rightarrow> nat \<Rightarrow> unit + json_dict"
  te_defaults :: turn_engine_defaults
  te_now :: string

record ('s, 'a) turn_world =
  tw_store :: 's
  tw_admission :: 'a
  tw_calls :: "(turn_input \<times> action \<times> idempotency_envelope) list"

record phase_context =
  cx_input_value :: turn_input
  cx_action :: "action option"
  cx_emitted_events :: "turn_state_event list"
  cx_result :: "turn_result option"
  cx_turn_identity :: "turn_identity option"
  cx_snapshot :: "snapshot option"
  cx_admission_result :: "admission_value option"
  cx_dispatch_policy :: "dispatch_policy option"
  cx_envelope :: "idempotency_envelope option"
  cx_dedupe_available :: bool
  cx_dedupe_outcome :: string
  cx_legacy_alias_key :: "string option"

type_synonym ('s, 'a) turn_phase =
  "phase_context \<Rightarrow> ('s, 'a) turn_world \<Rightarrow> (turn_error + phase_context) \<times> ('s, 'a) turn_world"

definition emit_events :: "turn_state_event list \<Rightarrow> phase_context \<Rightarrow> phase_context" where
  "emit_events es ctx = ctx\<lparr>cx_emitted_events := cx_emitted_events ctx @ es\<rparr>"


section \<open>Keys and identity\<close>

fun canonicalize_json :: "json \<Rightarrow> json" where
  "canonicalize_json (JObj d) = JObj (map (\<lambda>(k, v). (k, canonicalize_json v)) d)"
| "canonicalize_json (JList xs) = JList (map canonicalize_json xs)"
| "canonicalize_json v = v"

definition content_hash :: "(json \<Rightarrow> string) \<Rightarrow> action \<Rightarrow> string \<Rightarrow> string" where
  "content_hash digest a snapshot_hash = digest (JObj
     [(''action_type'', JStr (ac_action_type a)),
      (''input_json'', canonicalize_json (JObj (payload (ac_input_json a)))),
      (''policy_tags'', JList (map JStr (ac_policy_tags a))),
      (''effect_class'', JStr (effect_class_str (ac_effect_class a))),
      (''snapshot_hash'', JStr snapshot_hash)])"

definition generate_key :: "(json \<Rightarrow> string) \<Rightarrow> string \<Rightarrow> action \<Rightarrow> string \<Rightarrow> string \<Rightarrow> string" where
  "generate_key digest run_id a snapshot_hash namespace =
     namespace @ '':'' @ run_id @ '':'' @ ac_action_id a @ '':'' @ content_hash digest a snapshot_hash"

definition generate_compensation_key :: "string \<Rightarrow> string \<Rightarrow> string" where
  "generate_compensation_key effect_class action_id = ''compensation:'' @ effect_class @ '':'' @ action_id"

definition legacy_dispatch_dedupe_key :: "string \<Rightarrow> string \<Rightarrow> int \<Rightarrow> string" where
  "legacy_dispatch_dedupe_key run_id action_id based_on_offset = run_id @ '':'' @ action_id @ '':'' @ str_int based_on_offset"

definition build_turn_identity :: "(json \<Rightarrow> string) \<Rightarrow> turn_input \<Rightarrow> action \<Rightarrow> string option \<Rightarrow> turn_identity" where
  "build_turn_identity digest inp a snapshot_hash =
     \<lparr>id_decision_ref = ''decision:'' @ in_run_id inp @ '':'' @ str_int (in_based_on_offset inp),
      id_decision_fingerprint = in_run_id inp @ '':'' @ trigger_str (in_trigger_type inp) @ '':'' @ ac_action_id a @ '':'' @
        str_int (in_based_on_offset inp),
      id_intent_commit_ref = ''intent:'' @ ac_action_id a @ '':'' @ str_int (in_through_offset inp),
      id_dispatch_dedupe_key =
        (case snapshot_hash of
           Some h \<Rightarrow> generate_key digest (in_run_id inp) a h ''dispatch''
         | None \<Rightarrow> legacy_dispatch_dedupe_key (in_run_id inp) (ac_action_id a) (in_based_on_offset inp))\<rparr>"

section \<open>Failure evidence\<close>

definition normalize_optional_ref :: "string option \<Rightarrow> string option" where
  "normalize_optional_ref value = (case value of None \<Rightarrow> None
     | Some v \<Rightarrow> let n = py_strip v in if n = '''' then None else Some n)"

definition resolve_failure_evidence :: "failure_envelope \<Rightarrow> evidence_source \<times> string option" where
  "resolve_failure_evidence e =
     (case normalize_optional_ref (fe_external_ack_ref e) of
        Some r \<Rightarrow> (External_ack_source, Some r)
      | None \<Rightarrow> (case normalize_optional_ref (fe_evidence_ref e) of
            Some r \<Rightarrow> (Evidence_source, Some r)
          | None \<Rightarrow> (case normalize_optional_ref (fe_local_inference e) of
                Some r \<Rightarrow> (Local_inference_source, Some r)
              | None \<Rightarrow> (No_source, None))))"

definition apply_failure_evidence_priority :: "failure_envelope \<Rightarrow> failure_envelope" where
  "apply_failure_evidence_priority e =
     e\<lparr>fe_evidence_priority_source := fst (resolve_failure_evidence e),
       fe_evidence_priority_ref := snd (resolve_failure_evidence e)\<rparr>"

definition read_optional_string :: "json_dict \<Rightarrow> string \<Rightarrow> string option" where
  "read_optional_string d key = normalize_optional_ref (get_str d key)"

section \<open>Phase helpers\<close>

definition default_snapshot_input :: "string \<Rightarrow> int \<Rightarrow> string \<Rightarrow> string \<Rightarrow> snapshot_input" where
  "default_snapshot_input run_id offset policy_ref mode =
     \<lparr>si_run_id = run_id, si_based_on_offset = offset, si_tenant_policy_ref = policy_ref, si_permission_mode = mode,
      si_tool_bindings = [], si_mcp_bindings = [], si_skill_bindings = [], si_feature_flags = [],
      si_context_binding_ref = None, si_context_content_hash = None, si_budget_ref = None, si_quota_ref = None,
      si_session_mode = None, si_approval_state = None, si_declarative_bundle_digest = None, si_peer_run_bindings = []\<rparr>"

text \<open>A declared payload has the types \<open>CapabilitySnapshotInput\<close> declares: strings, optional strings, lists of
  strings; an entry of another type counts as absent.\<close>

definition get_strs :: "json_dict \<Rightarrow> string \<Rightarrow> string list" where
  "get_strs d key = (case map_of d key of
     Some (JList xs) \<Rightarrow> List.map_filter (\<lambda>x. case x of JStr s \<Rightarrow> Some s | _ \<Rightarrow> None) xs | _ \<Rightarrow> [])"

definition resolve_snapshot_input :: "('s, 'a) turn_env \<Rightarrow> turn_input \<Rightarrow> action \<Rightarrow> snapshot_error + snapshot_input" where
  "resolve_snapshot_input env inp a =
     (case te_resolver env of
        Some resolve \<Rightarrow> resolve inp a
      | None \<Rightarrow>
          (case get_dict (payload (ac_input_json a)) ''capability_snapshot_input'' of
             Some d \<Rightarrow> Inr
               \<lparr>si_run_id = in_run_id inp, si_based_on_offset = in_based_on_offset inp,
                si_tenant_policy_ref = str_or (get_str d ''tenant_policy_ref''),
                si_permission_mode = str_or (get_str d ''permission_mode''),
                si_tool_bindings = get_strs d ''tool_bindings'', si_mcp_bindings = get_strs d ''mcp_bindings'',
                si_skill_bindings = get_strs d ''skill_bindings'', si_feature_flags = get_strs d ''feature_flags'',
                si_context_binding_ref = get_str d ''context_binding_ref'',
                si_context_content_hash = get_str d ''context_content_hash'', si_budget_ref = get_str d ''budget_ref'',
                si_quota_ref = get_str d ''quota_ref'', si_session_mode = get_str d ''session_mode'',
                si_approval_state = get_str d ''approval_state'', si_declarative_bundle_digest = None,
                si_peer_run_bindings = []\<rparr>
           | None \<Rightarrow>
               if te_require_declared env then Inl SnapshotInputRequired
               else Inr (default_snapshot_input (in_run_id inp) (in_based_on_offset inp) ''policy:default'' ''strict'')))"

definition is_admitted :: "admission_value \<Rightarrow> bool" where
  "is_admitted v = (case v of Adm_bool b \<Rightarrow> b | Adm_result r \<Rightarrow> ar_admitted r | Adm_other b \<Rightarrow> b)"

definition envelope_payload_of :: "admission_value \<Rightarrow> json_dict option" where
  "envelope_payload_of v = (case v of Adm_result r \<Rightarrow> ar_idempotency_envelope r | _ \<Rightarrow> None)"

definition nonempty :: "string option \<Rightarrow> string option" where
  "nonempty v = (case v of Some s \<Rightarrow> if s = '''' then None else Some s | None \<Rightarrow> None)"

text \<open>\<open>isinstance(True, int)\<close> holds in Python: a boolean \<open>True\<close> passes as attempt 1.\<close>

definition get_attempt_seq :: "json_dict \<Rightarrow> int option" where
  "get_attempt_seq d = (case map_of d ''attempt_seq'' of
     Some (JInt n) \<Rightarrow> if 0 < n then Some n else None | Some (JBool b) \<Rightarrow> if b then Some 1 else None | _ \<Rightarrow> None)"

definition parse_idempotency_envelope :: "json_dict option \<Rightarrow> string \<Rightarrow> idempotency_envelope option" where
  "parse_idempotency_envelope envelope_payload capability_snapshot_hash =
     (case envelope_payload of None \<Rightarrow> None | Some d \<Rightarrow>
        (case (nonempty (get_str d ''dispatch_idempotency_key''), nonempty (get_str d ''operation_fingerprint''),
               get_attempt_seq d, nonempty (get_str d ''effect_scope''),
               normalize_host_kind ENGINE_HOST_KINDS (map_of d ''host_kind'')) of
           (Some key, Some operation_fingerprint, Some attempt_seq, Some effect_scope, Some host_kind) \<Rightarrow>
             Some \<lparr>en_dispatch_idempotency_key = key, en_operation_fingerprint = operation_fingerprint,
               en_attempt_seq = attempt_seq, en_effect_scope = effect_scope,
               en_capability_snapshot_hash =
                 (case get_str d ''capability_snapshot_hash'' of Some h \<Rightarrow> h | None \<Rightarrow> capability_snapshot_hash),
               en_host_kind = host_kind, en_peer_operation_id = read_optional_string d ''peer_operation_id'',
               en_policy_snapshot_ref = read_optional_string d ''policy_snapshot_ref'',
               en_rule_bundle_hash = read_optional_string d ''rule_bundle_hash''\<rparr>
         | _ \<Rightarrow> None))"

definition resolve_idempotency_envelope ::
  "admission_value \<Rightarrow> turn_identity \<Rightarrow> action \<Rightarrow> snapshot \<Rightarrow> string \<Rightarrow> idempotency_envelope" where
  "resolve_idempotency_envelope adm ti a sn host_kind =
     (case parse_idempotency_envelope (envelope_payload_of adm) (sn_snapshot_hash sn) of
        Some parsed \<Rightarrow> parsed\<lparr>en_dispatch_idempotency_key := id_dispatch_dedupe_key ti,
          en_operation_fingerprint := id_decision_fingerprint ti\<rparr>
      | None \<Rightarrow>
          \<lparr>en_dispatch_idempotency_key = id_dispatch_dedupe_key ti, en_operation_fingerprint = id_decision_fingerprint ti,
           en_attempt_seq = 1, en_effect_scope = effect_class_str (ac_effect_class a),
           en_capability_snapshot_hash = sn_snapshot_hash sn, en_host_kind = host_kind, en_peer_operation_id = None,
           en_policy_snapshot_ref = None, en_rule_bundle_hash = None\<rparr>)"

definition build_execution_context ::
  "turn_input \<Rightarrow> action \<Rightarrow> snapshot \<Rightarrow> turn_identity \<Rightarrow> admission_value \<Rightarrow> idempotency_envelope \<Rightarrow> execution_context" where
  "build_execution_context inp a sn ti adm env =
     \<lparr>xc_run_id = in_run_id inp, xc_action_id = ac_action_id a, xc_causation_id = id_intent_commit_ref ti,
      xc_correlation_id = id_decision_ref ti, xc_lineage_id = id_decision_fingerprint ti,
      xc_capability_snapshot_ref = sn_snapshot_ref sn, xc_capability_snapshot_hash = sn_snapshot_hash sn,
      xc_context_binding_ref = sn_context_binding_ref sn,
      xc_grant_ref = (case adm of Adm_result r \<Rightarrow> ar_grant_ref r | _ \<Rightarrow> None),
      xc_policy_snapshot_ref = (case adm of Adm_result r \<Rightarrow> ar_policy_snapshot_ref r | _ \<Rightarrow> None),
      xc_rule_bundle_hash = en_rule_bundle_hash env,
      xc_declarative_bundle_digest = sn_declarative_bundle_digest sn, xc_timeout_ms = ac_timeout_ms a,
      xc_budget_ref = sn_budget_ref sn\<rparr>"

definition resolve_dedupe_downgrade_scope :: "string \<Rightarrow> string" where
  "resolve_dedupe_downgrade_scope host_kind =
     (if host_kind = ''remote_service'' then ''irreversible_write'' else ''compensatable_write'')"


section \<open>Phases\<close>

definition noop_result :: "turn_input \<Rightarrow> turn_state_event list \<Rightarrow> turn_result" where
  "noop_result inp events =
     \<lparr>tr_state = Completed_noop, tr_outcome_kind = Noop_outcome,
      tr_decision_ref = ''decision:'' @ in_run_id inp @ '':'' @ str_int (in_based_on_offset inp),
      tr_decision_fingerprint = in_run_id inp @ '':'' @ trigger_str (in_trigger_type inp) @ '':noop:'' @ str_int (in_based_on_offset inp),
      tr_dispatch_dedupe_key = None, tr_intent_commit_ref = None, tr_host_kind = None, tr_remote_policy_decision = None,
      tr_action_commit = None, tr_recovery_input = None, tr_emitted_events = events\<rparr>"

text \<open>A result that carries the turn's identity; the other fields have their defaults.\<close>

definition identified_result :: "turn_state \<Rightarrow> turn_outcome_kind \<Rightarrow> turn_identity \<Rightarrow> turn_state_event list \<Rightarrow> turn_result" where
  "identified_result state kind ti events =
     \<lparr>tr_state = state, tr_outcome_kind = kind, tr_decision_ref = id_decision_ref ti,
      tr_decision_fingerprint = id_decision_fingerprint ti, tr_dispatch_dedupe_key = Some (id_dispatch_dedupe_key ti),
      tr_intent_commit_ref = Some (id_intent_commit_ref ti), tr_host_kind = None, tr_remote_policy_decision = None,
      tr_action_commit = None, tr_recovery_input = None, tr_emitted_events = events\<rparr>"

definition hosted_result ::
  "turn_state \<Rightarrow> turn_outcome_kind \<Rightarrow> turn_identity \<Rightarrow> dispatch_policy \<Rightarrow> turn_state_event list \<Rightarrow> turn_result" where
  "hosted_result state kind ti dp events =
     (identified_result state kind ti events)\<lparr>tr_host_kind := Some (dp_host_kind dp),
        tr_remote_policy_decision := dp_remote_policy_decision dp\<rparr>"

definition phase_noop_or_reasoning :: "('s, 'a) turn_env \<Rightarrow> ('s, 'a) turn_phase" where
  "phase_noop_or_reasoning env ctx w =
     (case cx_action ctx of Some _ \<Rightarrow> (Inr ctx, w)
      | None \<Rightarrow>
          (case te_reasoning env of
             None \<Rightarrow>
               let ctx1 = emit_events [ev ''completed_noop''] ctx
               in (Inr (ctx1\<lparr>cx_result := Some (noop_result (cx_input_value ctx) (cx_emitted_events ctx1))\<rparr>), w)
           | Some run_once \<Rightarrow>
               let inp = cx_input_value ctx;
                   ctx1 = emit_events [ev ''reasoning''] ctx;
                   failed = emit_events [ev ''reasoning_failed'', ev ''completed_noop''] ctx1;
                   empty = emit_events [ev ''completed_noop''] ctx1
               in (case te_build env (default_snapshot_input (in_run_id inp) (in_based_on_offset inp)
                         (df_tenant_policy_ref (te_defaults env)) (df_permission_mode (te_defaults env))) of
                     Inl _ \<Rightarrow> (Inr (failed\<lparr>cx_result := Some (noop_result inp (cx_emitted_events failed))\<rparr>), w)
                   | Inr sn \<Rightarrow>
                       (case run_once inp sn of
                          Inl _ \<Rightarrow> (Inr (failed\<lparr>cx_result := Some (noop_result inp (cx_emitted_events failed))\<rparr>), w)
                        | Inr [] \<Rightarrow> (Inr (empty\<lparr>cx_result := Some (noop_result inp (cx_emitted_events empty))\<rparr>), w)
                        | Inr (a # _) \<Rightarrow> (Inr (ctx1\<lparr>cx_action := Some a\<rparr>), w)))))"

definition phase_snapshot :: "('s, 'a) turn_env \<Rightarrow> ('s, 'a) turn_phase" where
  "phase_snapshot env ctx w =
     (case cx_action ctx of None \<Rightarrow> (Inl Assertion_failed, w)
      | Some a \<Rightarrow>
          let inp = cx_input_value ctx;
              ti0 = build_turn_identity (te_content_digest env) inp a None;
              build = (case resolve_snapshot_input env inp a of
                  Inl e \<Rightarrow> Inl e
                | Inr i \<Rightarrow> (case te_build env i of
                      Inl e \<Rightarrow> Inl e
                    | Inr sn \<Rightarrow> (case assert_snapshot_compatible sn of Inl e \<Rightarrow> Inl e | Inr _ \<Rightarrow> Inr sn)))
          in (case build of
                Inl _ \<Rightarrow>
                  let ctx1 = emit_events [ev ''completed_noop''] ctx
                  in (Inr (ctx1\<lparr>cx_turn_identity := Some ti0,
                       cx_result := Some (identified_result Completed_noop Noop_outcome ti0 (cx_emitted_events ctx1))\<rparr>), w)
              | Inr sn \<Rightarrow>
                  (Inr ((emit_events [ev ''snapshot_built''] ctx)\<lparr>cx_snapshot := Some sn,
                     cx_turn_identity := Some (build_turn_identity (te_content_digest env) inp a (Some (sn_snapshot_hash sn)))\<rparr>), w)))"

definition phase_admission :: "('s, 'a) turn_env \<Rightarrow> ('s, 'a) turn_phase" where
  "phase_admission env ctx w =
     (case (cx_action ctx, cx_snapshot ctx, cx_turn_identity ctx) of
        (Some a, Some sn, Some ti) \<Rightarrow>
          (case te_admit env a sn (tw_admission w) of
             (Inl _, adm) \<Rightarrow> (Inl Admission_raised, w\<lparr>tw_admission := adm\<rparr>)
           | (Inr v, adm) \<Rightarrow>
               let w1 = w\<lparr>tw_admission := adm\<rparr>;
                   ctx1 = (emit_events [ev ''admission_checked''] ctx)\<lparr>cx_admission_result := Some v\<rparr>;
                   ctx2 = emit_events [ev ''dispatch_blocked''] ctx1
               in if is_admitted v then (Inr ctx1, w1)
                  else (Inr (ctx2\<lparr>cx_result := Some (identified_result Dispatch_blocked Blocked_outcome ti (cx_emitted_events ctx2))\<rparr>), w1))
      | _ \<Rightarrow> (Inl Assertion_failed, w))"

definition phase_dispatch_policy :: "('s, 'a) turn_env \<Rightarrow> ('s, 'a) turn_phase" where
  "phase_dispatch_policy env ctx w =
     (case (cx_action ctx, cx_turn_identity ctx) of
        (Some a, Some ti) \<Rightarrow>
          let dp = resolve_dispatch_policy a;
              ctx1 = ctx\<lparr>cx_dispatch_policy := Some dp\<rparr>;
              ctx2 = emit_events [\<lparr>ts_state = ''dispatch_blocked'', ts_reason = dp_block_reason dp, ts_metadata = []\<rparr>] ctx1
          in if dp_should_block dp
             then (Inr (ctx2\<lparr>cx_result := Some (hosted_result Dispatch_blocked Blocked_outcome ti dp (cx_emitted_events ctx2))\<rparr>), w)
             else (Inr ctx1, w)
      | _ \<Rightarrow> (Inl Assertion_failed, w))"

definition reserve_and_dispatch ::
  "('s, 'a) turn_env \<Rightarrow> idempotency_envelope \<Rightarrow> string option \<Rightarrow> ('s, 'a) turn_world \<Rightarrow> dedupe_reply \<times> ('s, 'a) turn_world" where
  "reserve_and_dispatch env e peer w =
     (let (r, s) = te_exec env (Reserve_and_dispatch_op e peer) (tw_store w) in (r, w\<lparr>tw_store := s\<rparr>))"

definition dedupe_error_name :: "dedupe_error \<Rightarrow> string" where
  "dedupe_error_name e = (case e of DatabaseLocked \<Rightarrow> ''OperationalError'' | NestedTransaction \<Rightarrow> ''OperationalError''
     | _ \<Rightarrow> ''DedupeStoreStateError'')"

definition reserve_with_degradation ::
  "('s, 'a) turn_env \<Rightarrow> idempotency_envelope \<Rightarrow> action \<Rightarrow> string \<Rightarrow> phase_context \<Rightarrow> ('s, 'a) turn_world \<Rightarrow>
   (turn_error + bool \<times> idempotency_envelope \<times> bool \<times> phase_context) \<times> ('s, 'a) turn_world" where
  "reserve_with_degradation env e a host_kind ctx w =
     (case reserve_and_dispatch env e None w of
        (Inr (Some reservation), w1) \<Rightarrow> (Inr (rs_accepted reservation, e, True, ctx), w1)
      | (Inr None, w1) \<Rightarrow> (Inl Assertion_failed, w1)
      | (Inl error, w1) \<Rightarrow>
          if ac_effect_class a \<noteq> Idempotent_write then (Inl (Store_raised error), w1)
          else
            let scope = resolve_dedupe_downgrade_scope host_kind
            in (Inr (True, e\<lparr>en_effect_scope := scope\<rparr>, False,
                 emit_events [\<lparr>ts_state = ''dedupe_degraded'', ts_reason = Some (dedupe_error_name error),
                   ts_metadata = [(''from_effect_scope'', ''idempotent_write''), (''to_effect_scope'', scope)]\<rparr>] ctx), w1))"

definition legacy_lookup :: "('s, 'a) turn_env \<Rightarrow> string \<Rightarrow> ('s, 'a) turn_world \<Rightarrow> dedupe_record option \<times> ('s, 'a) turn_world" where
  "legacy_lookup env key w =
     (case te_get env key (tw_store w) of
        (Inl _, s) \<Rightarrow> (None, w\<lparr>tw_store := s\<rparr>)
      | (Inr r, s) \<Rightarrow> (r, w\<lparr>tw_store := s\<rparr>))"

definition mirror_legacy ::
  "('s, 'a) turn_env \<Rightarrow> string \<Rightarrow> idempotency_envelope \<Rightarrow> ('s, 'a) turn_world \<Rightarrow> string option \<times> ('s, 'a) turn_world" where
  "mirror_legacy env legacy_key e w =
     (case reserve_and_dispatch env (e\<lparr>en_dispatch_idempotency_key := legacy_key\<rparr>) (en_peer_operation_id e) w of
        (Inr (Some r), w1) \<Rightarrow> (if rs_accepted r then Some legacy_key else None, w1)
      | (_, w1) \<Rightarrow> (None, w1))"

definition phase_dedupe :: "('s, 'a) turn_env \<Rightarrow> ('s, 'a) turn_phase" where
  "phase_dedupe env ctx w =
     (case (cx_action ctx, cx_snapshot ctx, cx_turn_identity ctx, cx_dispatch_policy ctx) of
        (Some a, Some sn, Some ti, Some dp) \<Rightarrow>
          let key = id_dispatch_dedupe_key ti;
              legacy_key = legacy_dispatch_dedupe_key (in_run_id (cx_input_value ctx)) (ac_action_id a) (in_based_on_offset (cx_input_value ctx));
              (legacy_record, w1) = (if legacy_key \<noteq> key then legacy_lookup env legacy_key w else (None, w));
              blocked = emit_events [ev ''dispatch_blocked''] ctx
          in if legacy_record \<noteq> None
             then (Inr (blocked\<lparr>cx_result := Some (hosted_result Dispatch_blocked Blocked_outcome ti dp (cx_emitted_events blocked))\<rparr>), w1)
             else
               let envelope = resolve_idempotency_envelope (case cx_admission_result ctx of Some v \<Rightarrow> v | None \<Rightarrow> Adm_other False)
                     ti a sn (dp_host_kind dp)
               in (case reserve_with_degradation env envelope a (dp_host_kind dp) ctx w1 of
                     (Inl error, w2) \<Rightarrow> (Inl error, w2)
                   | (Inr (accepted, envelope', available, ctx1), w2) \<Rightarrow>
                       let ctx2 = ctx1\<lparr>cx_envelope := Some envelope', cx_dedupe_available := available\<rparr>;
                           refused = emit_events [ev ''dispatch_blocked''] ctx2
                       in if \<not> accepted
                          then (Inr (refused\<lparr>cx_result :=
                                 Some (hosted_result Dispatch_blocked Blocked_outcome ti dp (cx_emitted_events refused))\<rparr>), w2)
                          else
                            let (alias, w3) = (if available \<and> legacy_key \<noteq> key then mirror_legacy env legacy_key envelope' w2
                                               else (None, w2))
                            in (Inr ((emit_events [ev ''dispatched''] ctx2)\<lparr>cx_legacy_alias_key := alias,
                                   cx_dedupe_outcome := (if available then ''accepted'' else ''degraded'')\<rparr>), w3))
      | _ \<Rightarrow> (Inl Assertion_failed, w))"

definition mark :: "('s, 'a) turn_env \<Rightarrow> dedupe_op \<Rightarrow> ('s, 'a) turn_world \<Rightarrow> (dedupe_error + unit) \<times> ('s, 'a) turn_world" where
  "mark env op w = (let (r, s) = te_exec env op (tw_store w)
     in (case r of Inl e \<Rightarrow> Inl e | Inr _ \<Rightarrow> Inr (), w\<lparr>tw_store := s\<rparr>))"

definition mark_alias :: "('s, 'a) turn_env \<Rightarrow> (string \<Rightarrow> dedupe_op) \<Rightarrow> string option \<Rightarrow> ('s, 'a) turn_world \<Rightarrow> ('s, 'a) turn_world" where
  "mark_alias env op alias w = (case alias of None \<Rightarrow> w | Some k \<Rightarrow> snd (mark env (op k) w))"

definition build_recovery_pending_turn_result ::
  "turn_input \<Rightarrow> action \<Rightarrow> turn_identity \<Rightarrow> json_dict \<Rightarrow> dispatch_policy \<Rightarrow> turn_state_event list \<Rightarrow> turn_result" where
  "build_recovery_pending_turn_result inp a ti execute_result dp events =
     (let failure = \<lparr>fe_run_id = in_run_id inp, fe_action_id = Some (ac_action_id a), fe_failed_stage = Execution_stage,
            fe_failed_component = ''executor'', fe_failure_code = ''effect_unknown'', fe_failure_class = Unknown_class,
            fe_evidence_ref = read_optional_string execute_result ''evidence_ref'',
            fe_external_ack_ref = read_optional_string execute_result ''external_ack_ref'',
            fe_local_inference = Some (case read_optional_string execute_result ''local_inference'' of
              Some s \<Rightarrow> s | None \<Rightarrow> ''turn_engine:effect_unknown_without_ack''),
            fe_evidence_priority_source = No_source, fe_evidence_priority_ref = None, fe_retryability = ''unknown'',
            fe_compensation_hint = None, fe_human_escalation_hint = Some ''manual_verification_required'',
            fe_trace_failure_code = None\<rparr>
      in (hosted_result Recovery_pending Recovery_pending_outcome ti dp events)\<lparr>tr_recovery_input :=
           Some (apply_failure_evidence_priority failure)\<rparr>)"

definition phase_execute :: "('s, 'a) turn_env \<Rightarrow> ('s, 'a) turn_phase" where
  "phase_execute env ctx w =
     (case (cx_action ctx, cx_snapshot ctx, cx_turn_identity ctx, cx_dispatch_policy ctx, cx_envelope ctx) of
        (Some a, Some sn, Some ti, Some dp, Some envelope) \<Rightarrow>
          let inp = cx_input_value ctx; key = id_dispatch_dedupe_key ti; alias = cx_legacy_alias_key ctx;
              xc = build_execution_context inp a sn ti (case cx_admission_result ctx of Some v \<Rightarrow> v | None \<Rightarrow> Adm_other False) envelope;
              answer = te_execute env a sn envelope xc (length (tw_calls w));
              w1 = w\<lparr>tw_calls := tw_calls w @ [(inp, a, envelope)]\<rparr>
          in (case answer of
                Inl _ \<Rightarrow> (Inl Executor_raised,
                  if cx_dedupe_available ctx
                  then mark_alias env Mark_unknown_effect_op alias (snd (mark env (Mark_unknown_effect_op key) w1)) else w1)
              | Inr execute_result \<Rightarrow>
                  if py_truthy (map_of execute_result ''acknowledged'') then
                    (case (if cx_dedupe_available ctx then mark env (Mark_acknowledged_op key None) w1 else (Inr (), w1)) of
                       (Inl error, w2) \<Rightarrow> (Inl (Store_raised error), w2)
                     | (Inr _, w2) \<Rightarrow>
                         let w3 = (if cx_dedupe_available ctx then mark_alias env (\<lambda>k. Mark_acknowledged_op k None) alias w2 else w2);
                             ctx1 = emit_events [ev ''dispatch_acknowledged''] ctx
                         in (Inr (ctx1\<lparr>cx_result := Some ((hosted_result Dispatch_acknowledged Dispatched_outcome ti dp
                               (cx_emitted_events ctx1))\<lparr>tr_action_commit := Some \<lparr>am_action_id = ac_action_id a,
                                 am_run_id = in_run_id inp, am_committed_at = te_now env, am_execution_context = xc\<rparr>\<rparr>)\<rparr>), w3))
                  else
                    (case (if cx_dedupe_available ctx then mark env (Mark_unknown_effect_op key) w1 else (Inr (), w1)) of
                       (Inl error, w2) \<Rightarrow> (Inl (Store_raised error), w2)
                     | (Inr _, w2) \<Rightarrow>
                         let w3 = (if cx_dedupe_available ctx then mark_alias env Mark_unknown_effect_op alias w2 else w2);
                             ctx1 = emit_events [ev ''effect_unknown'', ev ''recovery_pending''] ctx
                         in (Inr (ctx1\<lparr>cx_result := Some (build_recovery_pending_turn_result inp a ti execute_result dp
                               (cx_emitted_events ctx1))\<rparr>), w3)))
      | _ \<Rightarrow> (Inl Assertion_failed, w))"

section \<open>The turn\<close>

definition TURN_PHASES :: "('s, 'a) turn_env \<Rightarrow> ('s, 'a) turn_phase list" where
  "TURN_PHASES env = [phase_noop_or_reasoning env, phase_snapshot env, phase_admission env, phase_dispatch_policy env,
     phase_dedupe env, phase_execute env]"

fun run_phases :: "('s, 'a) turn_phase list \<Rightarrow> phase_context \<Rightarrow> ('s, 'a) turn_world \<Rightarrow> (turn_error + turn_result) \<times> ('s, 'a) turn_world" where
  "run_phases [] ctx w = (Inl No_result, w)"
| "run_phases (p # ps) ctx w =
     (case p ctx w of
        (Inl e, w1) \<Rightarrow> (Inl e, w1)
      | (Inr ctx1, w1) \<Rightarrow> (case cx_result ctx1 of Some r \<Rightarrow> (Inr r, w1) | None \<Rightarrow> run_phases ps ctx1 w1))"

definition initial_context :: "turn_input \<Rightarrow> action option \<Rightarrow> phase_context" where
  "initial_context inp a =
     \<lparr>cx_input_value = inp, cx_action = a, cx_emitted_events = [ev ''collecting'', ev ''intent_committed''],
      cx_result = None, cx_turn_identity = None, cx_snapshot = None, cx_admission_result = None, cx_dispatch_policy = None,
      cx_envelope = None, cx_dedupe_available = True, cx_dedupe_outcome = ''accepted'', cx_legacy_alias_key = None\<rparr>"

definition run_turn ::
  "('s, 'a) turn_env \<Rightarrow> turn_input \<Rightarrow> action option \<Rightarrow> ('s, 'a) turn_world \<Rightarrow> (turn_error + turn_result) \<times> ('s, 'a) turn_world" where
  "run_turn env inp a w = run_phases (TURN_PHASES env) (initial_context inp a) w"


section \<open>Extending the phases\<close>

datatype register_error = BothAnchors | AlreadyRegistered | AnchorNotFound

definition TURN_PHASE_NAMES :: "string list" where
  "TURN_PHASE_NAMES = [''_phase_noop_or_reasoning'', ''_phase_snapshot'', ''_phase_admission'', ''_phase_dispatch_policy'',
     ''_phase_dedupe'', ''_phase_execute'']"

definition register_phase :: "string \<Rightarrow> string option \<Rightarrow> string option \<Rightarrow> string list \<Rightarrow> register_error + string list" where
  "register_phase name after before phases =
     (if after \<noteq> None \<and> before \<noteq> None then Inl BothAnchors
      else if name \<in> set phases then Inl AlreadyRegistered
      else case (after, before) of
          (Some anchor, _) \<Rightarrow>
            if anchor \<notin> set phases then Inl AnchorNotFound
            else Inr (takeWhile (\<lambda>p. p \<noteq> anchor) phases @ [anchor, name] @ tl (dropWhile (\<lambda>p. p \<noteq> anchor) phases))
        | (None, Some anchor) \<Rightarrow>
            if anchor \<notin> set phases then Inl AnchorNotFound
            else Inr (takeWhile (\<lambda>p. p \<noteq> anchor) phases @ [name] @ dropWhile (\<lambda>p. p \<noteq> anchor) phases)
        | (None, None) \<Rightarrow> Inr (phases @ [name]))"

end
