(* ===== verification/Turn_Engine_Theorems.thy ===== *)
theory Turn_Engine_Theorems
  imports Turn_Engine Dedupe_Theorems
begin

text \<open>
  What a turn guarantees over a dedupe store: over any sequence of turns no dispatch key is executed
  twice, even when calls to the store fail, except for idempotent writes, which the engine degrades on
  purpose; with a store that answers, the ledger says what happened and a turn always ends with a
  result or an error of a service. The locale \<open>ledger\<close> is what the engine needs of a store; both
  stores implement it, the durable one with any schedule of lock failures.
\<close>

section \<open>A ledger that may refuse to answer\<close>

locale ledger =
  fixes exec :: "dedupe_op \<Rightarrow> 's \<Rightarrow> dedupe_reply \<times> 's"
    and lookup :: "string \<Rightarrow> 's \<Rightarrow> (dedupe_error + dedupe_record option) \<times> 's"
    and inv :: "'s \<Rightarrow> bool"
    and abs :: "'s \<Rightarrow> string \<rightharpoonup> dedupe_record"
  assumes exec_inv: "inv s \<Longrightarrow> inv (snd (exec op s))"
    and exec_law: "inv s \<Longrightarrow> (fst (exec op s), abs (snd (exec op s))) = spec_step op (abs s) \<or>
      ((\<exists>e. fst (exec op s) = Inl e) \<and> abs (snd (exec op s)) = abs s)"
    and lookup_inv: "inv s \<Longrightarrow> inv (snd (lookup k s)) \<and> abs (snd (lookup k s)) = abs s"
    and lookup_law: "inv s \<Longrightarrow> fst (lookup k s) = Inr (abs s k) \<or> (\<exists>e. fst (lookup k s) = Inl e)"
begin

lemma exec_keeps: "inv s \<Longrightarrow> abs s k \<noteq> None \<Longrightarrow> abs (snd (exec op s)) k \<noteq> None"
  using exec_law [of s op] spec_step_keeps [of "abs s" k op] by (metis snd_conv)

lemma exec_accepts:
  assumes "inv s" "fst (exec (Reserve_and_dispatch_op e p) s) = Inr (Some r)" "rs_accepted r"
  shows "abs s (en_dispatch_idempotency_key e) = None \<and> abs (snd (exec (Reserve_and_dispatch_op e p) s)) (en_dispatch_idempotency_key e) \<noteq> None"
proof -
  have "(Inr (Some r), abs (snd (exec (Reserve_and_dispatch_op e p) s))) = spec_step (Reserve_and_dispatch_op e p) (abs s)"
    using exec_law [OF assms(1), of "Reserve_and_dispatch_op e p"] assms(2) by auto
  then show ?thesis using assms(3) by (auto simp: spec_insert_def duplicate_reservation_def split: option.splits)
qed

end

text \<open>The worlds a turn moves through, seen from the ledger.\<close>

definition keeps_keys :: "('s \<Rightarrow> string \<rightharpoonup> dedupe_record) \<Rightarrow> ('s, 'a) turn_world \<Rightarrow> ('s, 'a) turn_world \<Rightarrow> bool" where
  "keeps_keys view w w' = (\<forall>k. view (tw_store w) k \<noteq> None \<longrightarrow> view (tw_store w') k \<noteq> None)"

lemma keeps_keys_refl [simp]: "keeps_keys view w w"
  by (simp add: keeps_keys_def)

lemma keeps_keys_trans: "keeps_keys view w w' \<Longrightarrow> keeps_keys view w' w'' \<Longrightarrow> keeps_keys view w w''"
  by (auto simp: keeps_keys_def)

text \<open>What the executor calls of a turn look like: none, or one that was granted by the ledger or degraded.\<close>

definition call_key :: "turn_input \<times> action \<times> idempotency_envelope \<Rightarrow> string" where
  "call_key c = en_dispatch_idempotency_key (snd (snd c))"

definition granted :: "('s \<Rightarrow> string \<rightharpoonup> dedupe_record) \<Rightarrow> ('s, 'a) turn_world \<Rightarrow> ('s, 'a) turn_world \<Rightarrow>
    turn_input \<times> action \<times> idempotency_envelope \<Rightarrow> bool" where
  "granted view w w' c = (view (tw_store w) (call_key c) = None \<and> view (tw_store w') (call_key c) \<noteq> None)"

section \<open>The phases before the ledger\<close>

definition quiet :: "('s, 'a) turn_world \<Rightarrow> ('s, 'a) turn_world \<Rightarrow> bool" where
  "quiet w w' = (tw_store w' = tw_store w \<and> tw_calls w' = tw_calls w)"

lemma quiet_refl [simp]: "quiet w w"
  by (simp add: quiet_def)

lemma quiet_admission [simp]: "quiet w (w\<lparr>tw_admission := a\<rparr>)"
  by (simp add: quiet_def)

text \<open>A context that has passed every check before the ledger.\<close>

definition cleared :: "('s, 'a) turn_env \<Rightarrow> turn_input \<Rightarrow> action \<Rightarrow> snapshot \<Rightarrow> admission_value \<Rightarrow> phase_context \<Rightarrow> bool" where
  "cleared env inp a sn v ctx =
     (cx_input_value ctx = inp \<and> cx_action ctx = Some a \<and> cx_snapshot ctx = Some sn \<and> cx_result ctx = None \<and>
      cx_turn_identity ctx = Some (build_turn_identity (te_content_digest env) inp a (Some (sn_snapshot_hash sn))) \<and>
      cx_admission_result ctx = Some v \<and> is_admitted v \<and>
      cx_dispatch_policy ctx = Some (resolve_dispatch_policy a) \<and> \<not> dp_should_block (resolve_dispatch_policy a))"

text \<open>How a turn can end before the ledger: a noop, a block, or an admission service that raised.\<close>

definition harmless_end :: "turn_error + turn_result \<Rightarrow> bool" where
  "harmless_end r = (case r of Inl e \<Rightarrow> e = Admission_raised
     | Inr t \<Rightarrow> (tr_state t, tr_outcome_kind t) \<in> {(Completed_noop, Noop_outcome), (Dispatch_blocked, Blocked_outcome)} \<and>
         tr_action_commit t = None \<and> tr_recovery_input t = None)"

lemmas result_defs = noop_result_def identified_result_def hosted_result_def emit_events_def

lemma phase1_cases:
  assumes "cx_result ctx = None" "cx_input_value ctx = inp"
  shows "(\<exists>ctx' r. phase_noop_or_reasoning env ctx w = (Inr ctx', w) \<and> cx_result ctx' = Some r \<and> harmless_end (Inr r)) \<or>
    (\<exists>ctx' a. phase_noop_or_reasoning env ctx w = (Inr ctx', w) \<and> cx_result ctx' = None \<and> cx_action ctx' = Some a \<and> cx_input_value ctx' = inp)"
  using assms by (auto simp: phase_noop_or_reasoning_def harmless_end_def result_defs Let_def split: option.split sum.split list.split)

lemma phase2_cases:
  assumes "cx_result ctx = None" "cx_input_value ctx = inp" "cx_action ctx = Some a"
  shows "(\<exists>ctx' r. phase_snapshot env ctx w = (Inr ctx', w) \<and> cx_result ctx' = Some r \<and> harmless_end (Inr r)) \<or>
    (\<exists>ctx' sn. phase_snapshot env ctx w = (Inr ctx', w) \<and> cx_result ctx' = None \<and> cx_action ctx' = Some a \<and> cx_input_value ctx' = inp \<and>
      cx_snapshot ctx' = Some sn \<and> cx_turn_identity ctx' = Some (build_turn_identity (te_content_digest env) inp a (Some (sn_snapshot_hash sn))))"
  using assms by (auto simp: phase_snapshot_def harmless_end_def result_defs Let_def split: sum.split)

lemma phase3_cases:
  assumes "cx_result ctx = None" "cx_action ctx = Some a" "cx_snapshot ctx = Some sn" "cx_turn_identity ctx = Some ti"
  shows "(\<exists>adm. phase_admission env ctx w = (Inl Admission_raised, w\<lparr>tw_admission := adm\<rparr>)) \<or>
    (\<exists>ctx' r adm. phase_admission env ctx w = (Inr ctx', w\<lparr>tw_admission := adm\<rparr>) \<and> cx_result ctx' = Some r \<and> harmless_end (Inr r)) \<or>
    (\<exists>v adm. phase_admission env ctx w =
       (Inr ((emit_events [ev ''admission_checked''] ctx)\<lparr>cx_admission_result := Some v\<rparr>), w\<lparr>tw_admission := adm\<rparr>) \<and> is_admitted v)"
proof -
  obtain r adm where r: "te_admit env a sn (tw_admission w) = (r, adm)" by fastforce
  show ?thesis
  proof (cases r)
    case (Inr v)
    with r assms show ?thesis
      by (cases "is_admitted v") (auto simp: phase_admission_def harmless_end_def result_defs Let_def)
  qed (use r assms in \<open>auto simp: phase_admission_def\<close>)
qed

lemma phase4_cases:
  assumes "cx_result ctx = None" "cx_action ctx = Some a" "cx_turn_identity ctx = Some ti"
  shows "(\<exists>ctx' r. phase_dispatch_policy env ctx w = (Inr ctx', w) \<and> cx_result ctx' = Some r \<and> harmless_end (Inr r)) \<or>
    (phase_dispatch_policy env ctx w = (Inr (ctx\<lparr>cx_dispatch_policy := Some (resolve_dispatch_policy a)\<rparr>), w) \<and>
      \<not> dp_should_block (resolve_dispatch_policy a))"
  using assms by (auto simp: phase_dispatch_policy_def harmless_end_def result_defs Let_def)

lemma turn_prefix:
  "(quiet w (snd (run_turn env inp a w)) \<and> harmless_end (fst (run_turn env inp a w))) \<or>
   (\<exists>ctx w1 a' sn v. cleared env inp a' sn v ctx \<and> quiet w w1 \<and>
     run_turn env inp a w = run_phases [phase_dedupe env, phase_execute env] ctx w1)"
proof -
  let ?c = "initial_context inp a"
  have c: "cx_result ?c = None" "cx_input_value ?c = inp" by (simp_all add: initial_context_def)
  have run: "run_turn env inp a w = run_phases [phase_noop_or_reasoning env, phase_snapshot env, phase_admission env,
      phase_dispatch_policy env, phase_dedupe env, phase_execute env] ?c w" by (simp add: run_turn_def TURN_PHASES_def)
  from phase1_cases [OF c, of env w] show ?thesis
  proof
    assume "\<exists>ctx' a. phase_noop_or_reasoning env ?c w = (Inr ctx', w) \<and> cx_result ctx' = None \<and> cx_action ctx' = Some a \<and> cx_input_value ctx' = inp"
    then obtain c1 a1 where c1: "phase_noop_or_reasoning env ?c w = (Inr c1, w)" "cx_result c1 = None" "cx_input_value c1 = inp" "cx_action c1 = Some a1"
      by auto
    from phase2_cases [OF c1(2-4), of env w] show ?thesis
    proof
      assume "\<exists>ctx' sn. phase_snapshot env c1 w = (Inr ctx', w) \<and> cx_result ctx' = None \<and> cx_action ctx' = Some a1 \<and> cx_input_value ctx' = inp \<and>
        cx_snapshot ctx' = Some sn \<and> cx_turn_identity ctx' = Some (build_turn_identity (te_content_digest env) inp a1 (Some (sn_snapshot_hash sn)))"
      then obtain c2 sn where c2: "phase_snapshot env c1 w = (Inr c2, w)" "cx_result c2 = None" "cx_action c2 = Some a1" "cx_input_value c2 = inp"
        "cx_snapshot c2 = Some sn" "cx_turn_identity c2 = Some (build_turn_identity (te_content_digest env) inp a1 (Some (sn_snapshot_hash sn)))"
        by auto
      have run2: "run_turn env inp a w = run_phases [phase_admission env, phase_dispatch_policy env, phase_dedupe env, phase_execute env] c2 w"
        by (simp add: run c1 c2)
      from phase3_cases [OF c2(2,3,5,6), of env w] show ?thesis
      proof (elim disjE)
        assume "\<exists>v adm. phase_admission env c2 w =
          (Inr ((emit_events [ev ''admission_checked''] c2)\<lparr>cx_admission_result := Some v\<rparr>), w\<lparr>tw_admission := adm\<rparr>) \<and> is_admitted v"
        then obtain v adm where c3: "phase_admission env c2 w =
          (Inr ((emit_events [ev ''admission_checked''] c2)\<lparr>cx_admission_result := Some v\<rparr>), w\<lparr>tw_admission := adm\<rparr>)" "is_admitted v" by auto
        let ?c3 = "(emit_events [ev ''admission_checked''] c2)\<lparr>cx_admission_result := Some v\<rparr>" and ?w = "w\<lparr>tw_admission := adm\<rparr>"
        have r3: "cx_result ?c3 = None" "cx_action ?c3 = Some a1"
          "cx_turn_identity ?c3 = Some (build_turn_identity (te_content_digest env) inp a1 (Some (sn_snapshot_hash sn)))"
          using c2 by (simp_all add: emit_events_def)
        have run3: "run_turn env inp a w = run_phases [phase_dispatch_policy env, phase_dedupe env, phase_execute env] ?c3 ?w"
          using run2 c3(1) r3(1) by simp
        let ?c4 = "?c3\<lparr>cx_dispatch_policy := Some (resolve_dispatch_policy a1)\<rparr>"
        from phase4_cases [OF r3, of env ?w] show ?thesis
        proof
          assume ok: "phase_dispatch_policy env ?c3 ?w = (Inr ?c4, ?w) \<and> \<not> dp_should_block (resolve_dispatch_policy a1)"
          have "cleared env inp a1 sn v ?c4" using c2 c3 ok by (simp add: cleared_def emit_events_def)
          moreover have "cx_result ?c4 = None" using r3(1) by simp
          then have "run_turn env inp a w = run_phases [phase_dedupe env, phase_execute env] ?c4 ?w" using run3 ok by simp
          ultimately show ?thesis by (metis quiet_admission)
        qed (auto simp: run3)
      qed (auto simp: run2 harmless_end_def)
    qed (auto simp: run c1)
  qed (auto simp: run)
qed


section \<open>The ledger phases\<close>

lemma resolve_envelope_key [simp]:
  "en_dispatch_idempotency_key (resolve_idempotency_envelope adm ti a sn h) = id_dispatch_dedupe_key ti"
  by (simp add: resolve_idempotency_envelope_def split: option.split)

text \<open>A context that holds a slot, or that goes on without one.\<close>

definition dispatched :: "('s, 'a) turn_env \<Rightarrow> turn_input \<Rightarrow> action \<Rightarrow> snapshot \<Rightarrow> admission_value \<Rightarrow> string \<Rightarrow> phase_context \<Rightarrow> bool" where
  "dispatched env inp a sn v key ctx =
     (cleared env inp a sn v ctx \<and>
      (\<exists>e. cx_envelope ctx = Some e \<and> en_dispatch_idempotency_key e = key) \<and>
      (\<not> cx_dedupe_available ctx \<longrightarrow> ac_effect_class a = Idempotent_write))"

definition dispatch_key :: "('s, 'a) turn_env \<Rightarrow> turn_input \<Rightarrow> action \<Rightarrow> snapshot \<Rightarrow> string" where
  "dispatch_key env inp a sn = generate_key (te_content_digest env) (in_run_id inp) a (sn_snapshot_hash sn) ''dispatch''"

lemma identity_key: "id_dispatch_dedupe_key (build_turn_identity d inp a (Some h)) = generate_key d (in_run_id inp) a h ''dispatch''"
  by (simp add: build_turn_identity_def)

definition legacy_key_of :: "turn_input \<Rightarrow> action \<Rightarrow> string" where
  "legacy_key_of inp a = legacy_dispatch_dedupe_key (in_run_id inp) (ac_action_id a) (in_based_on_offset inp)"

text \<open>The dedupe phase on a cleared context, with the identity, the policy and the legacy key written out.\<close>

definition after_reservation ::
  "('s, 'a) turn_env \<Rightarrow> turn_identity \<Rightarrow> dispatch_policy \<Rightarrow> string \<Rightarrow>
   (turn_error + bool \<times> idempotency_envelope \<times> bool \<times> phase_context) \<times> ('s, 'a) turn_world \<Rightarrow>
   (turn_error + phase_context) \<times> ('s, 'a) turn_world" where
  "after_reservation env ti dp lk r =
     (case r of
        (Inl error, w2) \<Rightarrow> (Inl error, w2)
      | (Inr (accepted, e', available, ctx1), w2) \<Rightarrow>
          let ctx2 = ctx1\<lparr>cx_envelope := Some e', cx_dedupe_available := available\<rparr>; refused = emit_events [ev ''dispatch_blocked''] ctx2
          in if \<not> accepted
             then (Inr (refused\<lparr>cx_result := Some (hosted_result Dispatch_blocked Blocked_outcome ti dp (cx_emitted_events refused))\<rparr>), w2)
             else let (twin, w3) = (if available \<and> lk \<noteq> id_dispatch_dedupe_key ti then mirror_legacy env lk e' w2 else (None, w2))
                  in (Inr ((emit_events [ev ''dispatched''] ctx2)\<lparr>cx_legacy_alias_key := twin,
                        cx_dedupe_outcome := (if available then ''accepted'' else ''degraded'')\<rparr>), w3))"

lemma phase_dedupe_cleared:
  assumes "cleared env inp a sn v ctx"
    and "(if legacy_key_of inp a \<noteq> dispatch_key env inp a sn then legacy_lookup env (legacy_key_of inp a) w else (None, w)) = (rec, w1)"
  defines "ti \<equiv> build_turn_identity (te_content_digest env) inp a (Some (sn_snapshot_hash sn))"
    and "dp \<equiv> resolve_dispatch_policy a"
  shows "phase_dedupe env ctx w =
    (if rec \<noteq> None then (Inr ((emit_events [ev ''dispatch_blocked''] ctx)\<lparr>cx_result := Some (hosted_result Dispatch_blocked Blocked_outcome ti dp
        (cx_emitted_events (emit_events [ev ''dispatch_blocked''] ctx)))\<rparr>), w1)
     else after_reservation env ti dp (legacy_key_of inp a)
       (reserve_with_degradation env (resolve_idempotency_envelope v ti a sn (dp_host_kind dp)) a (dp_host_kind dp) ctx w1))"
proof -
  have ctx: "cx_input_value ctx = inp" "cx_action ctx = Some a" "cx_snapshot ctx = Some sn" "cx_turn_identity ctx = Some ti"
    "cx_dispatch_policy ctx = Some dp" "cx_admission_result ctx = Some v"
    using assms(1) by (simp_all add: cleared_def ti_def dp_def)
  have key: "dispatch_key env inp a sn = id_dispatch_dedupe_key ti" by (simp add: ti_def dispatch_key_def identity_key)
  show ?thesis
    using assms(2) unfolding key legacy_key_of_def by (simp add: phase_dedupe_def after_reservation_def ctx Let_def)
qed

section \<open>Sequences of turns\<close>

text \<open>A turn with the services it finds; the store is the same for all turns, the other services may change.\<close>

type_synonym ('s, 'a) turn = "('s, 'a) turn_env \<times> turn_input \<times> action option"

fun take_turn :: "('s, 'a) turn \<Rightarrow> ('s, 'a) turn_world \<Rightarrow> ('s, 'a) turn_world" where
  "take_turn (env, inp, a) w = snd (run_turn env inp a w)"

definition strict_call :: "turn_input \<times> action \<times> idempotency_envelope \<Rightarrow> bool" where
  "strict_call c = (ac_effect_class (fst (snd c)) \<noteq> Idempotent_write)"

definition service_error :: "turn_error \<Rightarrow> bool" where
  "service_error e = (case e of Admission_raised \<Rightarrow> True | Store_raised _ \<Rightarrow> True | Executor_raised \<Rightarrow> True | _ \<Rightarrow> False)"

section \<open>The ledger phases, case by case\<close>

context ledger
begin

definition serves :: "('s, 'a) turn_env \<Rightarrow> bool" where
  "serves env = (te_exec env = exec \<and> te_get env = lookup)"

definition moves :: "('s, 'a) turn_world \<Rightarrow> ('s, 'a) turn_world \<Rightarrow> bool" where
  "moves w w' = (inv (tw_store w) \<longrightarrow> inv (tw_store w') \<and> keeps_keys abs w w' \<and> tw_calls w' = tw_calls w)"

lemma moves_refl [simp]: "moves w w"
  by (simp add: moves_def)

lemma moves_trans: "moves w w' \<Longrightarrow> moves w' w'' \<Longrightarrow> moves w w''"
  by (auto simp: moves_def intro: keeps_keys_trans)

lemma moves_exec: "moves w (w\<lparr>tw_store := snd (exec op (tw_store w))\<rparr>)"
  using exec_inv exec_keeps by (auto simp: moves_def keeps_keys_def)

lemma moves_lookup: "serves env \<Longrightarrow> moves w (snd (legacy_lookup env k w))"
proof -
  assume "serves env"
  then have "snd (legacy_lookup env k w) = w\<lparr>tw_store := snd (lookup k (tw_store w))\<rparr>"
    by (auto simp: legacy_lookup_def serves_def split: prod.split sum.split)
  then show ?thesis using lookup_inv [of "tw_store w" k] by (simp add: moves_def keeps_keys_def)
qed

lemma reserve_and_dispatch_eq:
  "serves env \<Longrightarrow> reserve_and_dispatch env e p w = (fst (exec (Reserve_and_dispatch_op e p) (tw_store w)),
     w\<lparr>tw_store := snd (exec (Reserve_and_dispatch_op e p) (tw_store w))\<rparr>)"
  by (simp add: reserve_and_dispatch_def serves_def split: prod.split)

lemma mark_eq: "serves env \<Longrightarrow> snd (mark env op w) = w\<lparr>tw_store := snd (exec op (tw_store w))\<rparr>"
  by (simp add: mark_def serves_def split: prod.split)

lemma moves_mirror: "serves env \<Longrightarrow> moves w (snd (mirror_legacy env k e w))"
  using moves_exec by (auto simp: mirror_legacy_def reserve_and_dispatch_eq split: sum.split option.split)

lemma moves_mark: "serves env \<Longrightarrow> moves w (snd (mark env op w))"
  by (simp add: mark_eq moves_exec)

lemma moves_mark_alias: "serves env \<Longrightarrow> moves w (mark_alias env op alias w)"
  by (auto simp: mark_alias_def moves_mark split: option.split)

lemma reserve_replies:
  assumes "inv s"
  shows "(\<exists>r. fst (exec (Reserve_and_dispatch_op e p) s) = Inr (Some r)) \<or> (\<exists>err. fst (exec (Reserve_and_dispatch_op e p) s) = Inl err)"
  using exec_law [OF assms, of "Reserve_and_dispatch_op e p"]
  by (auto simp: spec_insert_def split: option.splits)

text \<open>The reservation: refused, raised, granted, or degraded for an idempotent write.\<close>

lemma reserve_with_degradation_cases:
  assumes "serves env" "inv (tw_store w)"
  shows "(\<exists>err w'. reserve_with_degradation env e a h ctx w = (Inl (Store_raised err), w') \<and> moves w w') \<or>
    (\<exists>w'. reserve_with_degradation env e a h ctx w = (Inr (False, e, True, ctx), w') \<and> moves w w') \<or>
    (\<exists>w'. reserve_with_degradation env e a h ctx w = (Inr (True, e, True, ctx), w') \<and> moves w w' \<and>
       abs (tw_store w) (en_dispatch_idempotency_key e) = None \<and> abs (tw_store w') (en_dispatch_idempotency_key e) \<noteq> None) \<or>
    (\<exists>es scope w'. reserve_with_degradation env e a h ctx w = (Inr (True, e\<lparr>en_effect_scope := scope\<rparr>, False, emit_events es ctx), w') \<and> moves w w' \<and>
       ac_effect_class a = Idempotent_write)"
proof -
  let ?op = "Reserve_and_dispatch_op e None"
  let ?w = "w\<lparr>tw_store := snd (exec ?op (tw_store w))\<rparr>"
  have rd: "reserve_and_dispatch env e None w = (fst (exec ?op (tw_store w)), ?w)" by (rule reserve_and_dispatch_eq [OF assms(1)])
  from reserve_replies [OF assms(2), of e None] show ?thesis
  proof (elim disjE exE)
    fix r assume r: "fst (exec ?op (tw_store w)) = Inr (Some r)"
    show ?thesis
    proof (cases "rs_accepted r")
      case True
      with exec_accepts [OF assms(2) r] r rd moves_exec [of w ?op] show ?thesis by (simp add: reserve_with_degradation_def)
    next
      case False
      with r rd moves_exec [of w ?op] show ?thesis by (simp add: reserve_with_degradation_def)
    qed
  next
    fix err assume "fst (exec ?op (tw_store w)) = Inl err"
    with rd moves_exec [of w ?op] show ?thesis by (auto simp: reserve_with_degradation_def Let_def)
  qed
qed

lemma phase_dedupe_cases:
  assumes "serves env" "inv (tw_store w)" "cleared env inp a sn v ctx"
  defines "key \<equiv> dispatch_key env inp a sn"
  shows "(\<exists>err w'. phase_dedupe env ctx w = (Inl (Store_raised err), w') \<and> moves w w') \<or>
    (\<exists>ctx' t w'. phase_dedupe env ctx w = (Inr ctx', w') \<and> moves w w' \<and> cx_result ctx' = Some t \<and> harmless_end (Inr t)) \<or>
    (\<exists>ctx' w'. phase_dedupe env ctx w = (Inr ctx', w') \<and> moves w w' \<and> dispatched env inp a sn v key ctx' \<and>
       (cx_dedupe_available ctx' \<longrightarrow> abs (tw_store w) key = None \<and> abs (tw_store w') key \<noteq> None))"
proof -
  let ?ti = "build_turn_identity (te_content_digest env) inp a (Some (sn_snapshot_hash sn))"
  let ?dp = "resolve_dispatch_policy a"
  let ?lk = "legacy_key_of inp a"
  let ?e = "resolve_idempotency_envelope v ?ti a sn (dp_host_kind ?dp)"
  have k: "id_dispatch_dedupe_key ?ti = key" by (simp add: key_def dispatch_key_def identity_key)
  obtain rec w1 where lk: "(if ?lk \<noteq> key then legacy_lookup env ?lk w else (None, w)) = (rec, w1)" by fastforce
  note run = phase_dedupe_cleared [OF assms(3) lk [unfolded key_def]]
  have w1: "moves w w1" using lk moves_lookup [OF assms(1), of w ?lk] by (auto split: if_splits)
  have same: "abs (tw_store w1) = abs (tw_store w)" and inv1: "inv (tw_store w1)"
    using lk lookup_inv [OF assms(2), of ?lk] assms(1,2)
    by (auto simp: legacy_lookup_def serves_def split: if_splits prod.splits sum.splits)
  show ?thesis
  proof (cases "rec = None")
    case False
    then show ?thesis using w1 by (auto simp: run harmless_end_def result_defs)
  next
    case True
    have ek: "en_dispatch_idempotency_key ?e = key" by (simp add: k)
    consider (raised) err w2 where "reserve_with_degradation env ?e a (dp_host_kind ?dp) ctx w1 = (Inl (Store_raised err), w2)" "moves w1 w2"
      | (refused) w2 where "reserve_with_degradation env ?e a (dp_host_kind ?dp) ctx w1 = (Inr (False, ?e, True, ctx), w2)" "moves w1 w2"
      | (granted) w2 where "reserve_with_degradation env ?e a (dp_host_kind ?dp) ctx w1 = (Inr (True, ?e, True, ctx), w2)" "moves w1 w2"
          "abs (tw_store w1) key = None" "abs (tw_store w2) key \<noteq> None"
      | (degraded) es scope w2 where "reserve_with_degradation env ?e a (dp_host_kind ?dp) ctx w1 =
          (Inr (True, ?e\<lparr>en_effect_scope := scope\<rparr>, False, emit_events es ctx), w2)" "moves w1 w2" "ac_effect_class a = Idempotent_write"
      using reserve_with_degradation_cases [OF assms(1) inv1, of ?e a "dp_host_kind ?dp" ctx] unfolding ek by blast
    then show ?thesis
    proof cases
      case raised
      then show ?thesis using moves_trans [OF w1] True by (auto simp: run after_reservation_def)
    next
      case refused
      then show ?thesis using moves_trans [OF w1] True by (auto simp: run after_reservation_def harmless_end_def result_defs Let_def)
    next
      case granted
      obtain twin w3 where m: "(if ?lk \<noteq> key then mirror_legacy env ?lk ?e w2 else (None, w2)) = (twin, w3)" by fastforce
      have w3: "moves w2 w3" using m moves_mirror [OF assms(1), of w2 ?lk ?e] by (auto split: if_splits)
      have "inv (tw_store w2)" using granted(2) inv1 by (simp add: moves_def)
      then have "abs (tw_store w3) key \<noteq> None" using w3 granted(4) by (simp add: moves_def keeps_keys_def)
      moreover have "moves w w3" using w1 granted(2) w3 moves_trans by blast
      ultimately show ?thesis using granted(1,3) same assms(3) ek m True
        by (auto simp: run after_reservation_def k dispatched_def cleared_def emit_events_def)
    next
      case degraded
      with moves_trans [OF w1 degraded(2)] assms(3) ek True show ?thesis
        by (auto simp: run after_reservation_def dispatched_def cleared_def emit_events_def)
    qed
  qed
qed

lemma phase_execute_cases:
  assumes "serves env" "inv (tw_store w)" "dispatched env inp a sn v key ctx"
  shows "\<exists>e r w'. phase_execute env ctx w = (r, w') \<and> en_dispatch_idempotency_key e = key \<and>
    moves (w\<lparr>tw_calls := tw_calls w @ [(inp, a, e)]\<rparr>) w' \<and>
    (case r of Inl err \<Rightarrow> err = Executor_raised \<or> (\<exists>x. err = Store_raised x)
     | Inr ctx' \<Rightarrow> \<exists>t. cx_result ctx' = Some t \<and> tr_outcome_kind t \<in> {Dispatched_outcome, Recovery_pending_outcome})"
proof -
  obtain e where e: "cx_envelope ctx = Some e" "en_dispatch_idempotency_key e = key" using assms(3) by (auto simp: dispatched_def)
  let ?ti = "build_turn_identity (te_content_digest env) inp a (Some (sn_snapshot_hash sn))"
  let ?w = "w\<lparr>tw_calls := tw_calls w @ [(inp, a, e)]\<rparr>"
  let ?k = "id_dispatch_dedupe_key ?ti"
  have ctx: "cx_input_value ctx = inp" "cx_action ctx = Some a" "cx_snapshot ctx = Some sn" "cx_turn_identity ctx = Some ?ti"
    "cx_dispatch_policy ctx = Some (resolve_dispatch_policy a)" "cx_admission_result ctx = Some v"
    using assms(3) by (simp_all add: cleared_def dispatched_def)
  define answer where "answer = te_execute env a sn e (build_execution_context inp a sn ?ti v e) (length (tw_calls w))"
  have marked: "moves ?w w2" if "(if b then mark env op ?w else (Inr (), ?w)) = (r, w2)" for b op r w2
    using that moves_mark [OF assms(1), of ?w op] by (auto split: if_splits)
  have aliased: "moves ?w (if b then mark_alias env op al w2 else w2)" if "moves ?w w2" for b op al w2
    using that moves_mark_alias [OF assms(1), of w2 op al] moves_trans by auto
  show ?thesis
  proof (cases answer)
    case (Inl u)
    then show ?thesis
      using ctx e answer_def aliased [OF moves_mark [OF assms(1)], of True]
      by (intro exI [of _ e]) (auto simp: phase_execute_def Let_def)
  next
    case (Inr d)
    define op where "op = (if py_truthy (map_of d ''acknowledged'') then Mark_acknowledged_op ?k None else Mark_unknown_effect_op ?k)"
    obtain r w2 where m: "(if cx_dedupe_available ctx then mark env op ?w else (Inr (), ?w)) = (r, w2)" by fastforce
    show ?thesis
      using ctx e Inr answer_def m aliased [OF marked [OF m], of "cx_dedupe_available ctx" _ "cx_legacy_alias_key ctx"] marked [OF m] op_def
      by (intro exI [of _ e]) (cases r; auto simp: phase_execute_def result_defs build_recovery_pending_turn_result_def Let_def)
  qed
qed

text \<open>The end of a turn that reached the ledger.\<close>

lemma turn_tail:
  assumes "serves env" "inv (tw_store w)" "run_turn env inp a w = (r, w')"
    and reach: "cleared env inp a' sn v ctx" "quiet w w1" "run_turn env inp a w = run_phases [phase_dedupe env, phase_execute env] ctx w1"
  shows "inv (tw_store w') \<and> keeps_keys abs w w' \<and>
    (tw_calls w' = tw_calls w \<or> (\<exists>c. tw_calls w' = tw_calls w @ [c] \<and> (strict_call c \<longrightarrow> granted abs w w' c))) \<and>
    (case r of Inl e \<Rightarrow> service_error e | Inr _ \<Rightarrow> True)"
proof -
  have inv1: "inv (tw_store w1)" using assms(2) reach(2) by (simp add: quiet_def)
  have q: "abs (tw_store w1) = abs (tw_store w)" "tw_calls w1 = tw_calls w" using reach(2) by (simp_all add: quiet_def)
  let ?key = "dispatch_key env inp a' sn"
  consider (raised) err w2 where "phase_dedupe env ctx w1 = (Inl (Store_raised err), w2)" "moves w1 w2"
    | (ended) c2 t w2 where "phase_dedupe env ctx w1 = (Inr c2, w2)" "moves w1 w2" "cx_result c2 = Some t"
    | (goes) c2 w2 where "phase_dedupe env ctx w1 = (Inr c2, w2)" "moves w1 w2" "dispatched env inp a' sn v ?key c2"
        "cx_dedupe_available c2 \<longrightarrow> abs (tw_store w1) ?key = None \<and> abs (tw_store w2) ?key \<noteq> None"
    using phase_dedupe_cases [OF assms(1) inv1 reach(1)] by blast
  then show ?thesis
  proof cases
    case raised
    then show ?thesis using assms(3) reach(3) inv1 q by (auto simp: moves_def keeps_keys_def service_error_def)
  next
    case ended
    then show ?thesis using assms(3) reach(3) inv1 q by (auto simp: moves_def keeps_keys_def)
  next
    case goes
    have inv2: "inv (tw_store w2)" and k12: "keeps_keys abs w1 w2" and c12: "tw_calls w2 = tw_calls w1"
      using goes(2) inv1 by (auto simp: moves_def)
    obtain e x w3 where ex: "phase_execute env c2 w2 = (x, w3)" "en_dispatch_idempotency_key e = ?key"
      "moves (w2\<lparr>tw_calls := tw_calls w2 @ [(inp, a', e)]\<rparr>) w3"
      "case x of Inl err \<Rightarrow> err = Executor_raised \<or> (\<exists>y. err = Store_raised y)
       | Inr ctx' \<Rightarrow> \<exists>t. cx_result ctx' = Some t \<and> tr_outcome_kind t \<in> {Dispatched_outcome, Recovery_pending_outcome}"
      using phase_execute_cases [OF assms(1) inv2 goes(3)] by blast
    have w3: "inv (tw_store w3)" "keeps_keys abs w2 w3" "tw_calls w3 = tw_calls w @ [(inp, a', e)]"
      using ex(3) inv2 c12 q by (auto simp: moves_def keeps_keys_def)
    have "cx_result c2 = None" using goes(3) by (simp add: dispatched_def cleared_def)
    then have end': "w' = w3" "case r of Inl e \<Rightarrow> service_error e | Inr _ \<Rightarrow> True"
      using assms(3) reach(3) goes(1) ex(1,4) by (auto simp: service_error_def split: sum.splits)
    have "granted abs w w3 (inp, a', e)" if "strict_call (inp, a', e)"
      using that goes(3,4) w3(2) q ex(2) by (auto simp: strict_call_def dispatched_def granted_def call_key_def keeps_keys_def)
    moreover have "keeps_keys abs w w3" using k12 w3(2) q by (auto simp: keeps_keys_def)
    ultimately show ?thesis using end' w3 by auto
  qed
qed

text \<open>One turn: at most one executor call, and unless the action is an idempotent write, only for a key the ledger
  did not hold before and holds after.\<close>

lemma turn_step:
  assumes "serves env" "inv (tw_store w)" "run_turn env inp a w = (r, w')"
  shows "inv (tw_store w') \<and> keeps_keys abs w w' \<and>
    (tw_calls w' = tw_calls w \<or> (\<exists>c. tw_calls w' = tw_calls w @ [c] \<and> (strict_call c \<longrightarrow> granted abs w w' c))) \<and>
    (case r of Inl e \<Rightarrow> service_error e | Inr _ \<Rightarrow> True)"
  using turn_prefix [of w env inp a]
proof
  assume "quiet w (snd (run_turn env inp a w)) \<and> harmless_end (fst (run_turn env inp a w))"
  then show ?thesis using assms by (auto simp: quiet_def keeps_keys_def harmless_end_def service_error_def split: sum.splits)
next
  assume "\<exists>ctx w1 a' sn v. cleared env inp a' sn v ctx \<and> quiet w w1 \<and>
    run_turn env inp a w = run_phases [phase_dedupe env, phase_execute env] ctx w1"
  then show ?thesis using turn_tail [OF assms] by blast
qed

definition turns_ok :: "('s, 'a) turn_world \<Rightarrow> bool" where
  "turns_ok w = (inv (tw_store w) \<and> (\<forall>c\<in>set (tw_calls w). strict_call c \<longrightarrow> abs (tw_store w) (call_key c) \<noteq> None) \<and>
     distinct (map call_key (filter strict_call (tw_calls w))))"

lemma turns_ok_step:
  assumes "turns_ok w" "serves env"
  shows "turns_ok (snd (run_turn env inp a w))"
proof -
  obtain r w' where run: "run_turn env inp a w = (r, w')" by fastforce
  have w: "inv (tw_store w)" "\<forall>c\<in>set (tw_calls w). strict_call c \<longrightarrow> abs (tw_store w) (call_key c) \<noteq> None"
    "distinct (map call_key (filter strict_call (tw_calls w)))"
    using assms(1) by (auto simp: turns_ok_def)
  from turn_step [OF assms(2) w(1) run] have w': "inv (tw_store w')" "keeps_keys abs w w'"
    and calls: "tw_calls w' = tw_calls w \<or> (\<exists>c. tw_calls w' = tw_calls w @ [c] \<and> (strict_call c \<longrightarrow> granted abs w w' c))" by blast+
  have old: "\<forall>c\<in>set (tw_calls w). strict_call c \<longrightarrow> abs (tw_store w') (call_key c) \<noteq> None"
    using w(2) w'(2) by (auto simp: keeps_keys_def)
  from calls show ?thesis
  proof (elim disjE exE conjE)
    assume "tw_calls w' = tw_calls w"
    then show ?thesis using old w w' run by (simp add: turns_ok_def)
  next
    fix c assume c: "tw_calls w' = tw_calls w @ [c]" "strict_call c \<longrightarrow> granted abs w w' c"
    have "call_key c \<notin> call_key ` set (filter strict_call (tw_calls w))" if "strict_call c"
    proof
      assume "call_key c \<in> call_key ` set (filter strict_call (tw_calls w))"
      then obtain d where "d \<in> set (tw_calls w)" "strict_call d" "call_key d = call_key c" by auto
      then show False using w(2) c(2) that by (metis granted_def)
    qed
    then show ?thesis using old c w w' run by (auto simp: turns_ok_def granted_def)
  qed
qed

lemma turns_ok_run: "turns_ok w \<Longrightarrow> \<forall>t\<in>set turns. serves (fst t) \<Longrightarrow> turns_ok (fold take_turn turns w)"
proof (induction turns arbitrary: w)
  case (Cons t turns)
  obtain env inp a where "t = (env, inp, a)" by (cases t)
  with turns_ok_step [of w env inp a] Cons show ?case by simp
qed simp

end


section \<open>A ledger that always answers\<close>

locale reliable_ledger = ledger +
  assumes exec_answers: "inv s \<Longrightarrow> (fst (exec op s), abs (snd (exec op s))) = spec_step op (abs s)"
    and lookup_answers: "inv s \<Longrightarrow> fst (lookup k s) = Inr (abs s k)"
begin

lemma exec_fst: "inv s \<Longrightarrow> fst (exec op s) = fst (spec_step op (abs s))"
  and exec_snd: "inv s \<Longrightarrow> abs (snd (exec op s)) = snd (spec_step op (abs s))"
  by (metis exec_answers fst_conv snd_conv)+

lemma legacy_lookup_answers:
  assumes "serves env" "inv (tw_store w)"
  shows "\<exists>w'. legacy_lookup env k w = (abs (tw_store w) k, w') \<and> inv (tw_store w') \<and> abs (tw_store w') = abs (tw_store w) \<and> tw_calls w' = tw_calls w"
proof -
  have "legacy_lookup env k w = (abs (tw_store w) k, w\<lparr>tw_store := snd (lookup k (tw_store w))\<rparr>)"
    using lookup_answers [OF assms(2), of k] assms(1)
    by (auto simp: legacy_lookup_def serves_def split: prod.split)
  with lookup_inv [OF assms(2), of k] show ?thesis by simp
qed

text \<open>The slot a granted dispatch writes.\<close>

lemma reserve_answers:
  assumes "serves env" "inv (tw_store w)"
  shows "\<exists>w'. reserve_and_dispatch env e p w = (Inr (Some (case abs (tw_store w) (en_dispatch_idempotency_key e) of
        Some x \<Rightarrow> duplicate_reservation x | None \<Rightarrow> accepted_reservation)), w') \<and> inv (tw_store w') \<and> tw_calls w' = tw_calls w \<and>
      abs (tw_store w') = (case abs (tw_store w) (en_dispatch_idempotency_key e) of Some _ \<Rightarrow> abs (tw_store w)
        | None \<Rightarrow> (abs (tw_store w))(en_dispatch_idempotency_key e \<mapsto> initial_record e Dispatched (opt_or p (en_peer_operation_id e))))"
  using exec_fst [OF assms(2), of "Reserve_and_dispatch_op e p"] exec_snd [OF assms(2), of "Reserve_and_dispatch_op e p"]
    exec_inv [OF assms(2), of "Reserve_and_dispatch_op e p"]
  by (auto simp: reserve_and_dispatch_eq [OF assms(1)] spec_insert_def split: option.splits)

lemma mark_answers:
  assumes "serves env" "inv (tw_store w)" "abs (tw_store w) k = Some x" "dr_state x = Dispatched"
  shows "\<exists>w'. mark env (Mark_acknowledged_op k None) w = (Inr (), w') \<and> inv (tw_store w') \<and> tw_calls w' = tw_calls w \<and>
      (\<exists>y. dr_state y = Acknowledged \<and> abs (tw_store w') = (abs (tw_store w))(k \<mapsto> y))"
    and "\<exists>w'. mark env (Mark_unknown_effect_op k) w = (Inr (), w') \<and> inv (tw_store w') \<and> tw_calls w' = tw_calls w \<and>
      (\<exists>y. dr_state y = Unknown_effect \<and> abs (tw_store w') = (abs (tw_store w))(k \<mapsto> y))"
proof -
  have m: "mark env op w = (case fst (spec_step op (abs (tw_store w))) of Inl e \<Rightarrow> Inl e | Inr _ \<Rightarrow> Inr (),
      w\<lparr>tw_store := snd (exec op (tw_store w))\<rparr>)" for op
    using exec_fst [OF assms(2), of op] assms(1) by (auto simp: mark_def serves_def split: prod.split)
  show "\<exists>w'. mark env (Mark_acknowledged_op k None) w = (Inr (), w') \<and> inv (tw_store w') \<and> tw_calls w' = tw_calls w \<and>
      (\<exists>y. dr_state y = Acknowledged \<and> abs (tw_store w') = (abs (tw_store w))(k \<mapsto> y))"
    using assms(3,4) by (simp add: m exec_inv [OF assms(2)] exec_snd [OF assms(2)] spec_mark_def) (rule exI, rule conjI [rotated], rule refl, simp)
  show "\<exists>w'. mark env (Mark_unknown_effect_op k) w = (Inr (), w') \<and> inv (tw_store w') \<and> tw_calls w' = tw_calls w \<and>
      (\<exists>y. dr_state y = Unknown_effect \<and> abs (tw_store w') = (abs (tw_store w))(k \<mapsto> y))"
    using assms(3,4) by (simp add: m exec_inv [OF assms(2)] exec_snd [OF assms(2)] spec_mark_def) (rule exI, rule conjI [rotated], rule refl, simp)
qed

lemma mirror_answers:
  assumes "serves env" "inv (tw_store w)" "tw_calls w = cs" "abs (tw_store w) lk = None"
  shows "\<exists>w'. mirror_legacy env lk e w = (Some lk, w') \<and> inv (tw_store w') \<and> tw_calls w' = cs \<and>
    (\<exists>y. abs (tw_store w') = (abs (tw_store w))(lk \<mapsto> y))"
  using reserve_answers [OF assms(1,2), of "e\<lparr>en_dispatch_idempotency_key := lk\<rparr>" "en_peer_operation_id e"] assms(3,4)
  by (auto simp: mirror_legacy_def accepted_reservation_def)

text \<open>The dedupe phase on an answering ledger: blocked with the ledger as it was, or dispatched with the slot and its
  legacy twin written.\<close>

lemma phase_dedupe_answers:
  assumes "serves env" "inv (tw_store w)" "cleared env inp a sn v ctx"
  defines "key \<equiv> dispatch_key env inp a sn" and "lk \<equiv> legacy_key_of inp a"
  shows "\<exists>ctx' w'. phase_dedupe env ctx w = (Inr ctx', w') \<and> inv (tw_store w') \<and> tw_calls w' = tw_calls w \<and>
    ((\<exists>t. cx_result ctx' = Some t \<and> harmless_end (Inr t) \<and> abs (tw_store w') = abs (tw_store w)) \<or>
     (dispatched env inp a sn v key ctx' \<and> cx_dedupe_available ctx' \<and> abs (tw_store w) key = None \<and> abs (tw_store w) lk = None \<and>
      abs (tw_store w') lk \<noteq> None \<and> cx_legacy_alias_key ctx' = (if lk = key then None else Some lk) \<and>
      (\<exists>x. abs (tw_store w') key = Some x \<and> dr_state x = Dispatched) \<and>
      (\<forall>k. k \<noteq> key \<longrightarrow> k \<noteq> lk \<longrightarrow> abs (tw_store w') k = abs (tw_store w) k)))"
proof -
  let ?ti = "build_turn_identity (te_content_digest env) inp a (Some (sn_snapshot_hash sn))"
  let ?dp = "resolve_dispatch_policy a"
  let ?e = "resolve_idempotency_envelope v ?ti a sn (dp_host_kind ?dp)"
  let ?m = "abs (tw_store w)"
  have k: "id_dispatch_dedupe_key ?ti = key" by (simp add: key_def dispatch_key_def identity_key)
  then have ek: "en_dispatch_idempotency_key ?e = key" by simp
  obtain w1 where w1: "(if lk \<noteq> key then legacy_lookup env lk w else (None, w)) = (if lk \<noteq> key then ?m lk else None, w1)"
    "inv (tw_store w1)" "abs (tw_store w1) = ?m" "tw_calls w1 = tw_calls w"
    using legacy_lookup_answers [OF assms(1,2), of lk] assms(2) by (cases "lk = key") auto
  note run = phase_dedupe_cleared [OF assms(3) w1(1) [unfolded key_def lk_def]]
  show ?thesis
  proof (cases "lk \<noteq> key \<and> ?m lk \<noteq> None")
    case True
    then show ?thesis using w1 by (auto simp: run lk_def key_def harmless_end_def result_defs)
  next
    case False
    then have none: "(if lk \<noteq> key then ?m lk else None) = None" by auto
    obtain w2 where w2: "reserve_and_dispatch env ?e None w1 =
        (Inr (Some (case ?m key of Some x \<Rightarrow> duplicate_reservation x | None \<Rightarrow> accepted_reservation)), w2)"
      "inv (tw_store w2)" "tw_calls w2 = tw_calls w"
      "abs (tw_store w2) = (case ?m key of Some _ \<Rightarrow> ?m | None \<Rightarrow> ?m(key \<mapsto> initial_record ?e Dispatched (opt_or None (en_peer_operation_id ?e))))"
      using reserve_answers [OF assms(1) w1(2), of ?e None] unfolding ek w1(3,4) by blast
    show ?thesis
    proof (cases "?m key")
      case (Some x)
      then show ?thesis using w2 none
        by (auto simp: run lk_def [symmetric] key_def [symmetric] after_reservation_def reserve_with_degradation_def duplicate_reservation_def
            harmless_end_def result_defs Let_def)
    next
      case None
      let ?x = "initial_record ?e Dispatched (opt_or None (en_peer_operation_id ?e))"
      have m2: "abs (tw_store w2) = ?m(key \<mapsto> ?x)" using w2(4) None by simp
      have acc: "rs_accepted accepted_reservation" "dr_state ?x = Dispatched" by (simp_all add: accepted_reservation_def initial_record_def)
      have lknone: "?m lk = None" using False None by auto
      have mir: "\<exists>w3. mirror_legacy env lk ?e w2 = (Some lk, w3) \<and> inv (tw_store w3) \<and> tw_calls w3 = tw_calls w \<and>
          (\<exists>y. abs (tw_store w3) = (abs (tw_store w2))(lk \<mapsto> y))" if "lk \<noteq> key"
        by (rule mirror_answers [OF assms(1) w2(2,3)]) (use that lknone m2 in simp)
      obtain w3 where w3: "(if lk \<noteq> key then mirror_legacy env lk ?e w2 else (None, w2)) = (if lk = key then None else Some lk, w3)"
        "inv (tw_store w3)" "tw_calls w3 = tw_calls w" "abs (tw_store w3) lk \<noteq> None"
        "\<And>k. k \<noteq> lk \<or> lk = key \<Longrightarrow> abs (tw_store w3) k = abs (tw_store w2) k"
      proof (cases "lk = key")
        case True
        then show ?thesis using that [of w2] w2 m2 by simp
      next
        case False
        then show ?thesis using that mir by auto
      qed
      have x: "abs (tw_store w3) key = Some ?x" using w3(5) [of key] m2 by auto
      have oth: "\<forall>k. k \<noteq> key \<longrightarrow> k \<noteq> lk \<longrightarrow> abs (tw_store w3) k = ?m k" using w3(5) m2 by simp
      have "phase_dedupe env ctx w = (Inr ((emit_events [ev ''dispatched''] (ctx\<lparr>cx_envelope := Some ?e, cx_dedupe_available := True\<rparr>))
          \<lparr>cx_legacy_alias_key := (if lk = key then None else Some lk), cx_dedupe_outcome := ''accepted''\<rparr>), w3)"
        using w2(1) w3(1) None acc lknone
        by (simp add: run lk_def [symmetric] key_def [symmetric] k after_reservation_def reserve_with_degradation_def)
      then show ?thesis using w3(2-4) x acc(2) oth None lknone assms(3) ek by (auto simp: dispatched_def cleared_def emit_events_def)
    qed
  qed
qed

lemma mark_alias_other:
  assumes "serves env" "inv (tw_store w)" "\<And>k. op_key (op k) = k" "al \<noteq> Some k"
  shows "inv (tw_store (mark_alias env op al w)) \<and> tw_calls (mark_alias env op al w) = tw_calls w \<and>
    abs (tw_store (mark_alias env op al w)) k = abs (tw_store w) k \<and> keeps_keys abs w (mark_alias env op al w)"
proof (cases al)
  case (Some j)
  then have "mark_alias env op al w = w\<lparr>tw_store := snd (exec (op j) (tw_store w))\<rparr>"
    by (simp add: mark_alias_def mark_eq [OF assms(1)])
  moreover have "abs (snd (exec (op j) (tw_store w))) k = abs (tw_store w) k"
    using exec_snd [OF assms(2), of "op j"] spec_step_other [of k "op j"] assms(3,4) Some by simp
  ultimately show ?thesis using exec_inv [OF assms(2), of "op j"] exec_keeps [OF assms(2), of _ "op j"] by (simp add: keeps_keys_def)
qed (use assms(2) in \<open>simp add: mark_alias_def\<close>)

text \<open>What the ledger says after the executor answered, and what the turn reports.\<close>

definition verdict :: "turn_error + turn_result \<Rightarrow> dedupe_state \<Rightarrow> bool" where
  "verdict r st = (case r of
       Inl err \<Rightarrow> err = Executor_raised \<and> st = Unknown_effect
     | Inr t \<Rightarrow> (tr_outcome_kind t = Dispatched_outcome \<and> tr_action_commit t \<noteq> None \<and> st = Acknowledged) \<or>
         (tr_outcome_kind t = Recovery_pending_outcome \<and> tr_recovery_input t \<noteq> None \<and> st = Unknown_effect))"

lemma phase_execute_answers:
  assumes "serves env" "inv (tw_store w)" "dispatched env inp a sn v key ctx" "key = dispatch_key env inp a sn"
    and "cx_dedupe_available ctx" "cx_legacy_alias_key ctx \<noteq> Some key" "abs (tw_store w) key = Some x" "dr_state x = Dispatched"
  shows "\<exists>e r w' y. run_phases [phase_execute env] ctx w = (r, w') \<and> en_dispatch_idempotency_key e = key \<and>
    inv (tw_store w') \<and> keeps_keys abs w w' \<and> tw_calls w' = tw_calls w @ [(inp, a, e)] \<and>
    abs (tw_store w') key = Some y \<and> verdict r (dr_state y)"
proof -
  obtain e where e: "cx_envelope ctx = Some e" "en_dispatch_idempotency_key e = key" using assms(3) by (auto simp: dispatched_def)
  let ?ti = "build_turn_identity (te_content_digest env) inp a (Some (sn_snapshot_hash sn))"
  let ?w = "w\<lparr>tw_calls := tw_calls w @ [(inp, a, e)]\<rparr>"
  have ti: "id_dispatch_dedupe_key ?ti = key" using assms(4) by (simp add: dispatch_key_def identity_key)
  have ctx: "cx_input_value ctx = inp" "cx_action ctx = Some a" "cx_snapshot ctx = Some sn" "cx_turn_identity ctx = Some ?ti"
    "cx_dispatch_policy ctx = Some (resolve_dispatch_policy a)" "cx_admission_result ctx = Some v"
    using assms(3) by (simp_all add: cleared_def dispatched_def)
  define answer where "answer = te_execute env a sn e (build_execution_context inp a sn ?ti v e) (length (tw_calls w))"
  have pre: "inv (tw_store ?w)" "abs (tw_store ?w) key = Some x" using assms(2,7) by simp_all
  obtain wa ya where ack: "mark env (Mark_acknowledged_op key None) ?w = (Inr (), wa)" "inv (tw_store wa)" "tw_calls wa = tw_calls ?w"
    "dr_state ya = Acknowledged" "abs (tw_store wa) = (abs (tw_store w))(key \<mapsto> ya)"
    using mark_answers(1) [OF assms(1) pre assms(8)] by auto
  obtain wu yu where unk: "mark env (Mark_unknown_effect_op key) ?w = (Inr (), wu)" "inv (tw_store wu)" "tw_calls wu = tw_calls ?w"
    "dr_state yu = Unknown_effect" "abs (tw_store wu) = (abs (tw_store w))(key \<mapsto> yu)"
    using mark_answers(2) [OF assms(1) pre assms(8)] by auto
  let ?al = "cx_legacy_alias_key ctx"
  note ma = mark_alias_other [OF assms(1) ack(2) _ assms(6), of "\<lambda>k. Mark_acknowledged_op k None"]
  note mu = mark_alias_other [OF assms(1) unk(2) _ assms(6), of Mark_unknown_effect_op]
  show ?thesis
  proof (cases answer)
    case (Inl u)
    then have "run_phases [phase_execute env] ctx w = (Inl Executor_raised, mark_alias env Mark_unknown_effect_op ?al wu)"
      using ctx e answer_def assms(5) unk(1) by (simp add: phase_execute_def Let_def ti)
    with mu unk e(2) show ?thesis by (auto simp: verdict_def keeps_keys_def)
  next
    case (Inr d)
    note ans = Inr [unfolded answer_def]
    show ?thesis
    proof (cases "py_truthy (map_of d ''acknowledged'')")
      case True
      then obtain t where "run_phases [phase_execute env] ctx w = (Inr t, mark_alias env (\<lambda>k. Mark_acknowledged_op k None) ?al wa)"
        "tr_outcome_kind t = Dispatched_outcome" "tr_action_commit t \<noteq> None"
        by (simp add: phase_execute_def result_defs Let_def ti ctx e ans assms(5) ack(1))
      with ma ack e(2) show ?thesis by (auto simp: verdict_def keeps_keys_def)
    next
      case False
      then obtain t where "run_phases [phase_execute env] ctx w = (Inr t, mark_alias env Mark_unknown_effect_op ?al wu)"
        "tr_outcome_kind t = Recovery_pending_outcome" "tr_recovery_input t \<noteq> None"
        by (simp add: phase_execute_def result_defs build_recovery_pending_turn_result_def Let_def ti ctx e ans assms(5) unk(1))
      with mu unk e(2) show ?thesis by (auto simp: verdict_def keeps_keys_def)
    qed
  qed
qed

lemma turn_answers:
  assumes "serves env" "inv (tw_store w)" "run_turn env inp a w = (r, w')"
  shows "inv (tw_store w') \<and> keeps_keys abs w w' \<and>
    ((tw_calls w' = tw_calls w \<and> abs (tw_store w') = abs (tw_store w) \<and> harmless_end r) \<or>
     (\<exists>a' e y. tw_calls w' = tw_calls w @ [(inp, a', e)] \<and>
        abs (tw_store w) (legacy_key_of inp a') = None \<and> abs (tw_store w') (legacy_key_of inp a') \<noteq> None \<and>
        abs (tw_store w) (en_dispatch_idempotency_key e) = None \<and> abs (tw_store w') (en_dispatch_idempotency_key e) = Some y \<and>
        verdict r (dr_state y)))"
  using turn_prefix [of w env inp a]
proof (elim disjE exE conjE)
  assume "quiet w (snd (run_turn env inp a w))" "harmless_end (fst (run_turn env inp a w))"
  then show ?thesis using assms by (simp add: quiet_def keeps_keys_def)
next
  fix ctx w1 a' sn v
  assume c: "cleared env inp a' sn v ctx" and q: "quiet w w1"
    and run: "run_turn env inp a w = run_phases [phase_dedupe env, phase_execute env] ctx w1"
  let ?key = "dispatch_key env inp a' sn" and ?lk = "legacy_key_of inp a'"
  have w1: "inv (tw_store w1)" "abs (tw_store w1) = abs (tw_store w)" "tw_calls w1 = tw_calls w" using q assms(2) by (simp_all add: quiet_def)
  obtain c2 w2 where d: "phase_dedupe env ctx w1 = (Inr c2, w2)" "inv (tw_store w2)" "tw_calls w2 = tw_calls w"
    "(\<exists>t. cx_result c2 = Some t \<and> harmless_end (Inr t) \<and> abs (tw_store w2) = abs (tw_store w)) \<or>
     (dispatched env inp a' sn v ?key c2 \<and> cx_dedupe_available c2 \<and> abs (tw_store w) ?key = None \<and> abs (tw_store w) ?lk = None \<and>
      abs (tw_store w2) ?lk \<noteq> None \<and> cx_legacy_alias_key c2 = (if ?lk = ?key then None else Some ?lk) \<and>
      (\<exists>x. abs (tw_store w2) ?key = Some x \<and> dr_state x = Dispatched) \<and>
      (\<forall>k. k \<noteq> ?key \<longrightarrow> k \<noteq> ?lk \<longrightarrow> abs (tw_store w2) k = abs (tw_store w) k))"
    using phase_dedupe_answers [OF assms(1) w1(1) c] unfolding w1(2,3) by blast
  from d(4) show ?thesis
  proof (elim disjE exE conjE)
    fix t assume "cx_result c2 = Some t" "harmless_end (Inr t)" "abs (tw_store w2) = abs (tw_store w)"
    then show ?thesis using d(1-3) assms(3) run by (auto simp: keeps_keys_def)
  next
    fix x assume g: "dispatched env inp a' sn v ?key c2" "cx_dedupe_available c2" "abs (tw_store w) ?key = None"
      "abs (tw_store w) ?lk = None" "abs (tw_store w2) ?lk \<noteq> None" "cx_legacy_alias_key c2 = (if ?lk = ?key then None else Some ?lk)"
      "abs (tw_store w2) ?key = Some x" "dr_state x = Dispatched"
      "\<forall>k. k \<noteq> ?key \<longrightarrow> k \<noteq> ?lk \<longrightarrow> abs (tw_store w2) k = abs (tw_store w) k"
    have "cx_legacy_alias_key c2 \<noteq> Some ?key" using g(6) by auto
    from phase_execute_answers [OF assms(1) d(2) g(1) refl g(2) this g(7,8)] obtain e r' w3 y where ex:
      "run_phases [phase_execute env] c2 w2 = (r', w3)" "en_dispatch_idempotency_key e = ?key" "inv (tw_store w3)" "keeps_keys abs w2 w3"
      "tw_calls w3 = tw_calls w @ [(inp, a', e)]" "abs (tw_store w3) ?key = Some y" "verdict r' (dr_state y)"
      using d(3) by auto
    have "cx_result c2 = None" using g(1) by (simp add: dispatched_def cleared_def)
    then have "r = r'" "w' = w3" using assms(3) run d(1) ex(1) by auto
    moreover have "keeps_keys abs w w3" using ex(4) g(3,4,9) unfolding keeps_keys_def by metis
    moreover have "abs (tw_store w3) ?lk \<noteq> None" using g(5) ex(4) by (simp add: keeps_keys_def)
    ultimately show ?thesis using ex g(3,4) by auto
  qed
qed

definition decisions_ok where
  "decisions_ok w = (inv (tw_store w) \<and> distinct (map (\<lambda>(inp, a, e). legacy_key_of inp a) (tw_calls w)) \<and>
     (\<forall>(inp, a, e) \<in> set (tw_calls w). abs (tw_store w) (legacy_key_of inp a) \<noteq> None))"

lemma decisions_ok_step:
  assumes "decisions_ok w" "serves env"
  shows "decisions_ok (snd (run_turn env inp a w))"
proof -
  obtain r w' where run: "run_turn env inp a w = (r, w')" by fastforce
  have w: "inv (tw_store w)" "distinct (map (\<lambda>(inp, a, e). legacy_key_of inp a) (tw_calls w))"
    "\<And>i b e. (i, b, e) \<in> set (tw_calls w) \<Longrightarrow> abs (tw_store w) (legacy_key_of i b) \<noteq> None"
    using assms(1) by (auto simp: decisions_ok_def)
  note step = turn_answers [OF assms(2) w(1) run]
  have old: "abs (tw_store w') (legacy_key_of i b) \<noteq> None" if "(i, b, e) \<in> set (tw_calls w)" for i b e
    using w(3) [OF that] step by (simp add: keeps_keys_def)
  from step show ?thesis
  proof (elim conjE disjE exE)
    assume "tw_calls w' = tw_calls w" "inv (tw_store w')"
    then show ?thesis using w old run by (auto simp: decisions_ok_def)
  next
    fix a' e y assume c: "tw_calls w' = tw_calls w @ [(inp, a', e)]" "abs (tw_store w) (legacy_key_of inp a') = None"
      "abs (tw_store w') (legacy_key_of inp a') \<noteq> None" "inv (tw_store w')"
    have "legacy_key_of inp a' \<notin> (\<lambda>(inp, a, e). legacy_key_of inp a) ` set (tw_calls w)" using w(3) c(2) by force
    then show ?thesis using w(2) old c run by (auto simp: decisions_ok_def)
  qed
qed

lemma decisions_ok_run: "decisions_ok w \<Longrightarrow> \<forall>t\<in>set turns. serves (fst t) \<Longrightarrow> decisions_ok (fold take_turn turns w)"
proof (induction turns arbitrary: w)
  case (Cons t turns)
  obtain env inp a where "t = (env, inp, a)" by (cases t)
  with decisions_ok_step [of w env inp a] Cons show ?case by simp
qed simp

end

end
