(* ===== verification/Turn_Properties.thy ===== *)
theory Turn_Properties
  imports Turn_Engine_Theorems
begin

text \<open>
  The stores of the kernel as ledgers of the turn engine, and what follows for sequences of turns on
  them: the in-memory store and the durable one always answer; the durable one under contention
  follows a schedule that says of each call whether the database is locked.
\<close>

section \<open>The stores as ledgers\<close>

definition mem_lookup :: "string \<Rightarrow> mem_store \<Rightarrow> (dedupe_error + dedupe_record option) \<times> mem_store" where
  "mem_lookup k s = (Inr (mem_get k s), s)"

definition sqlite_lookup :: "string \<Rightarrow> dedupe_db \<Rightarrow> (dedupe_error + dedupe_record option) \<times> dedupe_db" where
  "sqlite_lookup k db = (Inr (sqlite_get k db), db)"

interpretation mem_ledger: reliable_ledger mem_exec mem_lookup "\<lambda>_. True" map_of
  by unfold_locales (auto simp: mem_exec_spec mem_lookup_def mem_get_def prod_eq_iff)

interpretation sqlite_ledger: reliable_ledger "sqlite_exec False" sqlite_lookup dedupe_db_ok dedupe_abs
  by unfold_locales (auto simp: sqlite.exec_inv sqlite.exec_reply sqlite.exec_abs sqlite_lookup_def dedupe_abs_def prod_eq_iff)

text \<open>A database that other processes lock now and then: one entry of the schedule per call.\<close>

type_synonym contended_db = "bool list \<times> dedupe_db"

definition locked_now :: "bool list \<Rightarrow> bool" where
  "locked_now bs = (bs \<noteq> [] \<and> hd bs)"

fun contended_exec :: "dedupe_op \<Rightarrow> contended_db \<Rightarrow> dedupe_reply \<times> contended_db" where
  "contended_exec op (bs, db) = (fst (sqlite_exec (locked_now bs) op db), (tl bs, snd (sqlite_exec (locked_now bs) op db)))"

fun contended_lookup :: "string \<Rightarrow> contended_db \<Rightarrow> (dedupe_error + dedupe_record option) \<times> contended_db" where
  "contended_lookup k (bs, db) = (if locked_now bs then Inl DatabaseLocked else Inr (sqlite_get k db), (tl bs, db))"

definition contended_ok :: "contended_db \<Rightarrow> bool" where
  "contended_ok s = dedupe_db_ok (snd s)"

definition contended_abs :: "contended_db \<Rightarrow> string \<rightharpoonup> dedupe_record" where
  "contended_abs s = dedupe_abs (snd s)"

interpretation contended: ledger contended_exec contended_lookup contended_ok contended_abs
proof
  fix s :: contended_db and op k assume ok: "contended_ok s"
  obtain bs db where s: "s = (bs, db)" by (cases s)
  have db: "dedupe_db_ok db" using ok s by (simp add: contended_ok_def)
  show "contended_ok (snd (contended_exec op s))"
    using db sqlite.exec_inv [OF db, of op] sqlite_exec_locked [OF db, of op] s by (cases "locked_now bs") (auto simp: contended_ok_def)
  show "(fst (contended_exec op s), contended_abs (snd (contended_exec op s))) = spec_step op (contended_abs s) \<or>
      (\<exists>e. fst (contended_exec op s) = Inl e) \<and> contended_abs (snd (contended_exec op s)) = contended_abs s"
    unfolding s using sqlite.exec_reply [OF db, of op] sqlite.exec_abs [OF db, of op] sqlite_exec_locked [OF db, of op]
    by (cases "locked_now bs") (simp_all add: contended_abs_def)
  show "contended_ok (snd (contended_lookup k s)) \<and> contended_abs (snd (contended_lookup k s)) = contended_abs s"
    using db s by (simp add: contended_ok_def contended_abs_def)
  show "fst (contended_lookup k s) = Inr (contended_abs s k) \<or> (\<exists>e. fst (contended_lookup k s) = Inl e)"
    using s by (auto simp: contended_abs_def dedupe_abs_def)
qed

definition start_world :: "'s \<Rightarrow> 'a \<Rightarrow> ('s, 'a) turn_world" where
  "start_world s adm = \<lparr>tw_store = s, tw_admission = adm, tw_calls = []\<rparr>"

lemma start_world_simps [simp]:
  "tw_store (start_world s adm) = s" "tw_calls (start_world s adm) = []" "tw_admission (start_world s adm) = adm"
  by (simp_all add: start_world_def)

lemma empty_db_ok [simp]: "dedupe_db_ok sqlite_init"
  by (simp add: dedupe_db_ok_def sqlite_init_def unique_key_def)

section \<open>Properties\<close>

text \<open>C31. Nothing is executed twice under one dispatch key, come what may of the store: over any sequence of turns that
  share the durable ledger, with any inputs, actions, admission services and executors from turn to turn
  and whatever calls find the database locked, the executor calls for actions that are not idempotent
  writes all carry different dispatch keys.\<close>

theorem executed_at_most_once_per_key:
  assumes "\<forall>(env, inp, a) \<in> set turns. te_exec env = contended_exec \<and> te_get env = contended_lookup"
  shows "distinct (map call_key (filter strict_call (tw_calls (fold take_turn turns (start_world (schedule, sqlite_init) adm)))))"
proof -
  have "contended.turns_ok (start_world (schedule, sqlite_init) adm)" by (simp add: contended.turns_ok_def contended_ok_def)
  moreover have "\<forall>t\<in>set turns. contended.serves (fst t)" using assms by (auto simp: contended.serves_def)
  ultimately have "contended.turns_ok (fold take_turn turns (start_world (schedule, sqlite_init) adm))"
    by (rule contended.turns_ok_run)
  then show ?thesis by (simp add: contended.turns_ok_def)
qed

text \<open>With a store that answers, every decision is executed at most once, idempotent writes included: over any
  sequence of turns no two executor calls belong to the same run, action and base offset, even when
  the action's content or the capability snapshot changed in between.\<close>

lemma executed_at_most_once_per_decision:
  assumes "\<forall>(env, inp, a) \<in> set turns. te_exec env = sqlite_exec False \<and> te_get env = sqlite_lookup"
  shows "distinct (map (\<lambda>(inp, a, e). legacy_dispatch_dedupe_key (in_run_id inp) (ac_action_id a) (in_based_on_offset inp))
    (tw_calls (fold take_turn turns (start_world sqlite_init adm))))"
proof -
  have "sqlite_ledger.decisions_ok (start_world sqlite_init adm)" by (simp add: sqlite_ledger.decisions_ok_def)
  moreover have "\<forall>t\<in>set turns. sqlite_ledger.serves (fst t)" using assms by (auto simp: sqlite_ledger.serves_def)
  ultimately have "sqlite_ledger.decisions_ok (fold take_turn turns (start_world sqlite_init adm))"
    by (rule sqlite_ledger.decisions_ok_run)
  then show ?thesis by (simp add: sqlite_ledger.decisions_ok_def legacy_key_of_def)
qed

text \<open>C33. A turn on a store that answers always ends, and its report agrees with the ledger: either nothing was
  executed, the ledger is unchanged and the turn reports a noop or a block (or the admission service
  raised); or exactly one executor call was made under a key the ledger did not hold, and the ledger
  then says acknowledged for a reported dispatch, unknown effect for a pending recovery or an executor
  that raised.\<close>

theorem turn_report_matches_ledger:
  assumes "te_exec env = sqlite_exec False" "te_get env = sqlite_lookup" "dedupe_db_ok (tw_store w)"
    and "run_turn env inp a w = (r, w')"
  shows "(tw_calls w' = tw_calls w \<and> (\<forall>k. sqlite_get k (tw_store w') = sqlite_get k (tw_store w)) \<and>
      (case r of Inl err \<Rightarrow> err = Admission_raised | Inr t \<Rightarrow> tr_outcome_kind t \<in> {Noop_outcome, Blocked_outcome})) \<or>
    (\<exists>b e y. tw_calls w' = tw_calls w @ [(inp, b, e)] \<and> sqlite_get (en_dispatch_idempotency_key e) (tw_store w) = None \<and>
      sqlite_get (en_dispatch_idempotency_key e) (tw_store w') = Some y \<and>
      (case r of Inl err \<Rightarrow> err = Executor_raised \<and> dr_state y = Unknown_effect
       | Inr t \<Rightarrow> (tr_outcome_kind t = Dispatched_outcome \<and> dr_state y = Acknowledged) \<or>
           (tr_outcome_kind t = Recovery_pending_outcome \<and> dr_state y = Unknown_effect)))"
proof -
  have "sqlite_ledger.serves env" using assms(1,2) by (simp add: sqlite_ledger.serves_def)
  from sqlite_ledger.turn_answers [OF this assms(3,4)] show ?thesis
    unfolding sqlite_ledger.verdict_def harmless_end_def fun_eq_iff dedupe_abs_def
    by (cases r) force+
qed


section \<open>Witnesses\<close>

definition demo_input :: turn_input where
  "demo_input = \<lparr>in_run_id = ''r'', in_through_offset = 3, in_based_on_offset = 3, in_trigger_type = Start_trigger, in_history = []\<rparr>"

definition demo_env ::
  "(dedupe_op \<Rightarrow> 's \<Rightarrow> dedupe_reply \<times> 's) \<Rightarrow> (string \<Rightarrow> 's \<Rightarrow> (dedupe_error + dedupe_record option) \<times> 's) \<Rightarrow> ('s, unit) turn_env" where
  "demo_env exec lookup =
     \<lparr>te_build = build_snapshot (\<lambda>_. ''h'') ''t'', te_resolver = None, te_require_declared = False, te_content_digest = (\<lambda>_. ''c''),
      te_reasoning = None, te_admit = (\<lambda>_ _ u. (Inr (Adm_bool True), u)), te_get = lookup, te_exec = exec,
      te_execute = (\<lambda>_ _ _ _ n. if n = 0 then Inl () else Inr [(''acknowledged'', JBool True)]),
      te_defaults = \<lparr>df_model_ref = ''echo'', df_tenant_policy_ref = ''policy:default'', df_permission_mode = ''strict''\<rparr>, te_now = ''t''\<rparr>"

theorem executed_at_most_once_per_key_witness:
  "let turns = [(demo_env contended_exec contended_lookup, demo_input, Some wit_action),
                (demo_env contended_exec contended_lookup, demo_input, Some wit_action)] in
   distinct (map call_key (filter strict_call (tw_calls (fold take_turn turns (start_world ([True, False, True], sqlite_init) ())))))"
proof -
  let ?t = "(demo_env contended_exec contended_lookup, demo_input, Some wit_action)"
  have "\<forall>(env, inp, a) \<in> set [?t, ?t]. te_exec env = contended_exec \<and> te_get env = contended_lookup" by (simp add: demo_env_def)
  from executed_at_most_once_per_key [OF this, of "[True, False, True]" "()"] show ?thesis by (simp add: Let_def)
qed

lemma demo_turn_calls:
  "length (tw_calls (snd (run_turn (demo_env (sqlite_exec False) sqlite_lookup) demo_input (Some wit_action) (start_world sqlite_init ())))) = 1"
  by code_simp

theorem turn_report_matches_ledger_witness:
  "\<exists>b e y. tw_calls (snd (run_turn (demo_env (sqlite_exec False) sqlite_lookup) demo_input (Some wit_action) (start_world sqlite_init ()))) =
      [(demo_input, b, e)] \<and>
    sqlite_get (en_dispatch_idempotency_key e)
      (tw_store (snd (run_turn (demo_env (sqlite_exec False) sqlite_lookup) demo_input (Some wit_action) (start_world sqlite_init ())))) = Some y"
proof -
  obtain r w' where run: "run_turn (demo_env (sqlite_exec False) sqlite_lookup) demo_input (Some wit_action) (start_world sqlite_init ()) = (r, w')"
    by fastforce
  have env: "te_exec (demo_env (sqlite_exec False) sqlite_lookup) = sqlite_exec False" "te_get (demo_env (sqlite_exec False) sqlite_lookup) = sqlite_lookup"
    by (simp_all add: demo_env_def)
  have "tw_calls w' \<noteq> []" using demo_turn_calls run by auto
  with turn_report_matches_ledger [OF env _ run] run show ?thesis by auto
qed

end
