(* ===== verification/Dispatch_Theorems.thy ===== *)
theory Dispatch_Theorems
  imports Projection_Theorems Turn_Properties
begin

text \<open>
  Properties that join the projection, admission, the dispatch policy and the turn: a cancelled run is
  never admitted, a guaranteed claim reaches the executor only with a contract that backs it, and where
  the two copies of the host rules drift apart.
\<close>

section \<open>Cancelled runs\<close>

lemma static_check_unready: "\<not> pj_ready_for_dispatch p \<Longrightarrow> \<not> ar_admitted (static_check py_float a p)"
  by (auto simp: static_check_def evaluate_action_policy_denies_def denied_def split: option.splits if_splits)

text \<open>Cancelling is final, down to admission: once a run's log on the durable store holds a cancellation request that
  counts for the projection, then whatever other events the log holds before or after it, and whatever
  was appended and read in between, reading the projection succeeds, reports the run completed or
  aborted and not waiting, and the static admission gate admits no action on it.\<close>

lemma cancelled_run_is_never_admitted:
  assumes "fold (kernel_exec (sqlite_append dumps) (sqlite_load loads)) ops
      (log_db_init, fresh_service reject (None :: 'e migrator option)) = (db, v)"
    and "e \<in> set (sqlite_load loads rid 0 db)" "ev_event_type e = ''run.cancel_requested''"
    and "validate_projection_authority_input e reject"
  shows "\<exists>p. fst (get_projection (\<lambda>r j. sqlite_load loads r j db) rid v) = Inr p \<and>
    pj_lifecycle_state p \<in> {L_completed, L_aborted} \<and> \<not> pj_waiting_external p \<and>
    (\<forall>py_float a. \<not> ar_admitted (static_check py_float a p))"
  using cancelled_read [OF assms] static_check_unready by blast

section \<open>Guaranteed claims\<close>

text \<open>Whatever the store does, the dedupe phase makes no executor call and keeps the action.\<close>

lemma legacy_lookup_calls: "legacy_lookup env k w = (r, w') \<Longrightarrow> tw_calls w' = tw_calls w"
  by (auto simp: legacy_lookup_def split: prod.splits sum.splits)

lemma reserve_calls: "reserve_and_dispatch env e p w = (r, w') \<Longrightarrow> tw_calls w' = tw_calls w"
  by (auto simp: reserve_and_dispatch_def split: prod.splits)

lemma mirror_calls: "mirror_legacy env k e w = (r, w') \<Longrightarrow> tw_calls w' = tw_calls w"
  by (auto simp: mirror_legacy_def split: prod.splits sum.splits option.splits dest: reserve_calls)

lemma emit_events_Nil [simp]: "emit_events [] ctx = ctx"
  by (simp add: emit_events_def)

lemma degradation_frame:
  assumes "reserve_with_degradation env e a h ctx w = (r, w')"
  shows "tw_calls w' = tw_calls w \<and> (case r of Inl _ \<Rightarrow> True | Inr (_, _, _, ctx') \<Rightarrow> \<exists>es. ctx' = emit_events es ctx)"
  using assms
  by (auto simp: reserve_with_degradation_def Let_def split: prod.splits sum.splits option.splits if_splits
      dest: reserve_calls intro: exI [of _ "[]"])

lemma after_reservation_frame:
  assumes "after_reservation env ti dp lk (r, w) = (r', w')" "case r of Inl _ \<Rightarrow> True | Inr (_, _, _, ctx') \<Rightarrow> \<exists>es. ctx' = emit_events es ctx"
  shows "tw_calls w' = tw_calls w \<and> (\<forall>ctx'. r' = Inr ctx' \<longrightarrow> cx_action ctx' = cx_action ctx \<and> cx_input_value ctx' = cx_input_value ctx)"
  using assms
  by (auto simp: after_reservation_def emit_events_def Let_def split: prod.splits sum.splits if_splits dest: mirror_calls)

lemma phase_dedupe_frame:
  assumes "cleared env inp a sn v ctx" "phase_dedupe env ctx w = (r, w')"
  shows "tw_calls w' = tw_calls w \<and> (\<forall>ctx'. r = Inr ctx' \<longrightarrow> cx_action ctx' = Some a \<and> cx_input_value ctx' = inp)"
proof -
  let ?ti = "build_turn_identity (te_content_digest env) inp a (Some (sn_snapshot_hash sn))"
  let ?dp = "resolve_dispatch_policy a"
  let ?e = "resolve_idempotency_envelope v ?ti a sn (dp_host_kind ?dp)"
  have ctx: "cx_action ctx = Some a" "cx_input_value ctx = inp" using assms(1) by (simp_all add: cleared_def)
  obtain rec w1 where lk: "(if legacy_key_of inp a \<noteq> dispatch_key env inp a sn then legacy_lookup env (legacy_key_of inp a) w
      else (None, w)) = (rec, w1)" by fastforce
  have w1: "tw_calls w1 = tw_calls w" using lk by (auto split: if_splits dest: legacy_lookup_calls)
  obtain x w2 where x: "reserve_with_degradation env ?e a (dp_host_kind ?dp) ctx w1 = (x, w2)" by fastforce
  note frame = degradation_frame [OF x]
  show ?thesis
  proof (cases "rec = None")
    case True
    then have "after_reservation env ?ti ?dp (legacy_key_of inp a) (x, w2) = (r, w')"
      using assms(2) phase_dedupe_cleared [OF assms(1) lk] x by simp
    from after_reservation_frame [OF this conjunct2 [OF frame]] frame w1 ctx show ?thesis by simp
  next
    case False
    then show ?thesis using assms(2) phase_dedupe_cleared [OF assms(1) lk] w1 ctx by (auto simp: emit_events_def)
  qed
qed


lemma mark_calls: "mark env op w = (r, w') \<Longrightarrow> tw_calls w' = tw_calls w"
  by (auto simp: mark_def Let_def split: prod.splits)

lemma snd_mark_calls [simp]: "tw_calls (snd (mark env op w)) = tw_calls w"
  using mark_calls [of env op w] by (metis prod.collapse)

lemma mark_alias_calls [simp]: "tw_calls (mark_alias env op al w) = tw_calls w"
  by (simp add: mark_alias_def split: option.split)

lemma phase_execute_frame:
  assumes "phase_execute env ctx w = (r, w')"
  shows "tw_calls w' = tw_calls w \<or> (\<exists>a e. cx_action ctx = Some a \<and> tw_calls w' = tw_calls w @ [(cx_input_value ctx, a, e)])"
  using assms
  by (auto simp: phase_execute_def Let_def split: prod.splits sum.splits option.splits if_splits dest!: mark_calls)

lemma calls_policed:
  assumes "run_turn env inp a w = (r, w')"
  shows "tw_calls w' = tw_calls w \<or>
    (\<exists>b e. tw_calls w' = tw_calls w @ [(inp, b, e)] \<and> \<not> dp_should_block (resolve_dispatch_policy b))"
  using turn_prefix [of w env inp a]
proof (elim disjE exE conjE)
  assume "quiet w (snd (run_turn env inp a w))"
  then show ?thesis using assms by (simp add: quiet_def)
next
  fix ctx w1 b sn v
  assume c: "cleared env inp b sn v ctx" and q: "quiet w w1"
    and run: "run_turn env inp a w = run_phases [phase_dedupe env, phase_execute env] ctx w1"
  obtain x w2 where d: "phase_dedupe env ctx w1 = (x, w2)" by fastforce
  note frame = phase_dedupe_frame [OF c d]
  have block: "\<not> dp_should_block (resolve_dispatch_policy b)" using c by (simp add: cleared_def)
  have w2: "tw_calls w2 = tw_calls w" using frame q by (simp add: quiet_def)
  show ?thesis
  proof (cases "\<exists>c2. x = Inr c2 \<and> cx_result c2 = None")
    case True
    then obtain c2 where c2: "x = Inr c2" "cx_result c2 = None" by blast
    obtain y w3 where e: "phase_execute env c2 w2 = (y, w3)" by fastforce
    have "w' = w3" using assms run d c2 e by (auto split: sum.splits option.splits)
    then show ?thesis using phase_execute_frame [OF e] frame c2(1) w2 block by auto
  next
    case False
    then have "w' = w2" using assms run d by (auto split: sum.splits option.splits)
    then show ?thesis using w2 by simp
  qed
qed

lemma turns_policed:
  "(\<forall>(i, b, e) \<in> set (tw_calls w). \<not> dp_should_block (resolve_dispatch_policy b)) \<Longrightarrow>
   \<forall>(i, b, e) \<in> set (tw_calls (fold take_turn turns w)). \<not> dp_should_block (resolve_dispatch_policy b)"
proof (induction turns arbitrary: w)
  case (Cons t turns)
  obtain env inp a where t: "t = (env, inp, a)" by (cases t)
  obtain r w' where run: "run_turn env inp a w = (r, w')" by fastforce
  have "\<forall>(i, b, e) \<in> set (tw_calls w'). \<not> dp_should_block (resolve_dispatch_policy b)"
    using calls_policed [OF run] Cons.prems by auto
  with Cons.IH [of w'] t run show ?case by simp
qed simp

lemma unblocked_claim:
  assumes "\<not> dp_should_block (resolve_dispatch_policy a)" "ac_external_idempotency_level a = Some Guaranteed"
    "ac_effect_class a \<noteq> Read_only" "resolve_dispatch_host_kind ENGINE_HOST_KINDS a = ''remote_service''"
  shows "\<exists>c. extract_remote_service_contract (ac_input_json a) = Some c \<and> rc_accepts_dispatch_idempotency_key c \<and> rc_returns_stable_ack c"
  using assms by (auto simp: resolve_dispatch_policy_def evaluate_remote_service_policy_def Let_def split: option.splits if_splits)

text \<open>No guaranteed claim without proof: whatever the services do over any sequence of turns, a write with a guaranteed
  idempotency level that the engine sends to a remote service reaches the executor only if the action
  carries a well-formed remote contract that accepts dispatch keys and returns stable acknowledgements.\<close>

lemma guaranteed_claim_needs_contract:
  assumes "(inp, a, e) \<in> set (tw_calls (fold take_turn turns (start_world s adm)))"
    and "ac_external_idempotency_level a = Some Guaranteed" "ac_effect_class a \<noteq> Read_only"
    and "resolve_dispatch_host_kind ENGINE_HOST_KINDS a = ''remote_service''"
  shows "\<exists>c. extract_remote_service_contract (ac_input_json a) = Some c \<and>
    rc_accepts_dispatch_idempotency_key c \<and> rc_returns_stable_ack c"
proof -
  have "\<not> dp_should_block (resolve_dispatch_policy a)" using turns_policed [of "start_world s adm" turns] assms(1) by auto
  from unblocked_claim [OF this assms(2-4)] show ?thesis .
qed

definition claim_action :: action where
  "claim_action = wit_action\<lparr>ac_external_idempotency_level := Some Guaranteed, ac_input_json := Some
     [(''idempotency_contract'', JObj [(''accepts_dispatch_idempotency_key'', JBool True), (''returns_stable_ack'', JBool True),
        (''peer_retry_model'', JStr ''at_most_once''), (''default_retry_policy'', JStr ''bounded_retry'')])]\<rparr>"

lemma claim_turn:
  "map (\<lambda>(i, b, e). b) (tw_calls (fold take_turn [(demo_env mem_exec mem_lookup, demo_input, Some claim_action)] (start_world mem_init ()))) = [claim_action]"
  "resolve_dispatch_host_kind ENGINE_HOST_KINDS claim_action = ''remote_service''"
  by code_simp+

section \<open>Two copies of the host rules\<close>

text \<open>A host hint in the payload opens a gap in admission: a write that claims a guaranteed idempotency level, has no
  host tag, and names a local host kind in its payload is admitted without any remote contract, since
  the contract check believes the hint, yet the sandbox grant it gets is for a remote service with
  network access, since the grant looks at tags only.\<close>

lemma payload_hint_splits_admission:
  assumes "ac_policy_tags a = []" "ac_effect_class a \<noteq> Read_only" "ac_external_idempotency_level a = Some Guaranteed"
    and "extract_host_kind_from_payload ADMISSION_HOST_KINDS (payload (ac_input_json a)) = Some k" "k \<noteq> ''remote_service''"
    and "ac_timeout_ms a = None"
  shows "ar_admitted (static_admit py_float a) \<and>
    (\<exists>g. ar_sandbox_grant (static_admit py_float a) = Some g \<and> sg_host_kind g = ''remote_service'' \<and> sg_network_policy g = Allow_list)"
proof -
  have "resolve_dispatch_host_kind ADMISSION_HOST_KINDS a = k"
    using assms(1,4) by (simp add: resolve_dispatch_host_kind_def resolve_explicit_host_kind_def extract_host_kind_from_policy_tags_def)
  then have "evaluate_action_policy_denies py_float a = None"
    using assms by (simp add: evaluate_action_policy_denies_def requires_remote_idempotency_contract_block_def
        extract_max_cost_from_policy_tags_def)
  moreover have "resolve_sandbox_host_kind a = ''remote_service''"
    using assms(1-3) by (simp add: resolve_sandbox_host_kind_def SANDBOX_TAGS_def)
  ultimately show ?thesis by (simp add: static_admit_def build_admitted_result_def Let_def)
qed

end
