(* ===== verification/Recovery_Planner.thy ===== *)
theory Recovery_Planner
  imports Capability_Snapshot
begin

text \<open>
  Choosing what to do about a failed action: the failure envelope and the decision of
  \<open>agent_kernel/kernel/contracts.py\<close>, the heuristic policy and planner of
  \<open>agent_kernel/kernel/recovery/planner.py\<close> and the mode registry of
  \<open>agent_kernel/kernel/recovery/mode_registry.py\<close>. Plan actions and modes are strings, as in the code: both the
  policy and the registry can be given values of their own, which is how a team adds a recovery mode.
\<close>

section \<open>Data\<close>

text \<open>The attribute \<open>failing_action\<close> is read by the recovery gate with \<open>getattr\<close> and a default of \<open>None\<close>. The
  class \<open>RecoveryInput\<close> does not declare it and has slots, so every instance of the class itself has none;
  \<open>ri_failing_action\<close> stands for what the gate reads.\<close>

record recovery_input =
  ri_run_id :: string
  ri_reason_code :: string
  ri_lifecycle_state :: run_lifecycle_state
  ri_projection :: run_projection
  ri_failed_action_id :: "string option"
  ri_reflection_round :: int
  ri_capability_snapshot :: "snapshot option"
  ri_failed_effect_class :: "string option"
  ri_failing_action :: "action option"

record kernel_recovery_decision =
  rd_run_id :: string
  rd_mode :: string
  rd_reason :: string
  rd_compensation_action_id :: "string option"
  rd_escalation_channel_ref :: "string option"
  rd_corrected_action :: "action option"
  rd_retry_after_ms :: "int option"
  rd_failure_count :: int

record recovery_plan =
  pl_run_id :: string
  pl_action :: string
  pl_reason :: string
  pl_compensation_action_id :: "string option"
  pl_escalation_channel_ref :: "string option"

datatype reason_classification = Transient_reason | Fatal_reason | Human_reason | Unknown_reason

record planner_heuristic_policy =
  hp_reason_prefix :: string
  hp_default_escalation_channel_ref :: string
  hp_human_reason_prefixes :: "string list"
  hp_transient_reason_prefixes :: "string list"
  hp_fatal_reason_prefixes :: "string list"
  hp_abort_reason_prefixes :: "string list"
  hp_transient_action :: string
  hp_fatal_action :: string
  hp_human_action :: string
  hp_unknown_action :: string

definition default_heuristics :: planner_heuristic_policy where
  "default_heuristics =
     \<lparr>hp_reason_prefix = ''recovery'', hp_default_escalation_channel_ref = ''human://operator'',
      hp_human_reason_prefixes = [''human_'', ''manual_'', ''requires_human'', ''waiting_external'', ''external_''],
      hp_transient_reason_prefixes = [''transient_'', ''executor_transient'', ''retryable_''],
      hp_fatal_reason_prefixes = [''fatal'', ''non_recoverable'', ''permission_denied'', ''policy_denied''],
      hp_abort_reason_prefixes = [],
      hp_transient_action = ''schedule_compensation'', hp_fatal_action = ''abort_run'',
      hp_human_action = ''notify_human_operator'', hp_unknown_action = ''schedule_compensation''\<rparr>"

datatype planner_error = Run_id_mismatch

section \<open>Classification\<close>

definition has_prefix :: "string \<Rightarrow> string list \<Rightarrow> bool" where
  "has_prefix value candidates = list_ex (py_startswith value) candidates"

definition classify_reason :: "planner_heuristic_policy \<Rightarrow> string \<Rightarrow> reason_classification" where
  "classify_reason p reason_code =
     (let normalized_reason = py_lower (py_strip reason_code) in
      if has_prefix normalized_reason (hp_human_reason_prefixes p) then Human_reason
      else if has_prefix normalized_reason (hp_fatal_reason_prefixes p @ hp_abort_reason_prefixes p) then Fatal_reason
      else if has_prefix normalized_reason (hp_transient_reason_prefixes p) then Transient_reason
      else Unknown_reason)"

definition action_for_classification :: "planner_heuristic_policy \<Rightarrow> reason_classification \<Rightarrow> string" where
  "action_for_classification p c =
     (if c = Human_reason then hp_human_action p
      else if c = Fatal_reason then hp_fatal_action p
      else if c = Transient_reason then hp_transient_action p
      else hp_unknown_action p)"

section \<open>The planner\<close>

definition build_plan :: "kernel_recovery_decision \<Rightarrow> run_projection \<Rightarrow> planner_error + recovery_plan" where
  "build_plan d pj =
     (if rd_run_id d \<noteq> pj_run_id pj then Inl Run_id_mismatch
      else if rd_mode d = ''static_compensation'' then
        Inr \<lparr>pl_run_id = rd_run_id d, pl_action = ''schedule_compensation'', pl_reason = rd_reason d,
          pl_compensation_action_id = rd_compensation_action_id d, pl_escalation_channel_ref = None\<rparr>
      else if rd_mode d = ''human_escalation'' then
        Inr \<lparr>pl_run_id = rd_run_id d, pl_action = ''notify_human_operator'', pl_reason = rd_reason d,
          pl_compensation_action_id = None, pl_escalation_channel_ref = rd_escalation_channel_ref d\<rparr>
      else
        Inr \<lparr>pl_run_id = rd_run_id d, pl_action = ''abort_run'', pl_reason = rd_reason d,
          pl_compensation_action_id = None, pl_escalation_channel_ref = None\<rparr>)"

definition build_plan_from_input :: "planner_heuristic_policy \<Rightarrow> recovery_input \<Rightarrow> planner_error + recovery_plan" where
  "build_plan_from_input p ri =
     (let projection = ri_projection ri in
      if ri_run_id ri \<noteq> pj_run_id projection then Inl Run_id_mismatch
      else
        let reason = hp_reason_prefix p @ '':'' @ ri_reason_code ri;
            compensation_action_id = opt_or (ri_failed_action_id ri) (pj_current_action_id projection);
            channel = Some (hp_default_escalation_channel_ref p);
            (act, comp, esc) =
              (case pj_recovery_mode projection of
                 Some Human_escalation \<Rightarrow> (''notify_human_operator'', None, channel)
               | Some Static_compensation \<Rightarrow> (''schedule_compensation'', compensation_action_id, None)
               | Some Abort_mode \<Rightarrow> (''abort_run'', None, None)
               | _ \<Rightarrow>
                   let normalized_reason = py_lower (py_strip (ri_reason_code ri)) in
                   if ri_lifecycle_state ri = L_waiting_external then (''notify_human_operator'', None, channel)
                   else
                     let a = action_for_classification p (classify_reason p normalized_reason) in
                     if a = ''notify_human_operator'' then (a, None, channel)
                     else if a = ''schedule_compensation'' then
                       (if compensation_action_id \<noteq> None then (a, compensation_action_id, None)
                        else (''abort_run'', None, None))
                     else (a, None, None))
        in Inr \<lparr>pl_run_id = ri_run_id ri, pl_action = act, pl_reason = reason,
             pl_compensation_action_id = comp, pl_escalation_channel_ref = esc\<rparr>)"

section \<open>The mode registry\<close>

type_synonym mode_registry = "(string \<times> string) list"

definition register_mode :: "string \<Rightarrow> string \<Rightarrow> mode_registry \<Rightarrow> string + mode_registry" where
  "register_mode plan_action mode r =
     (case map_of r plan_action of
        Some m \<Rightarrow> Inl m
      | None \<Rightarrow> Inr (dict_set plan_action mode r))"

definition get_mode :: "mode_registry \<Rightarrow> string \<Rightarrow> string option" where
  "get_mode r plan_action = map_of r plan_action"

definition known_actions :: "mode_registry \<Rightarrow> string set" where
  "known_actions r = set (map fst r)"

definition BUILTIN_MAPPINGS :: "(string \<times> string) list" where
  "BUILTIN_MAPPINGS =
     [(''schedule_compensation'', ''static_compensation''),
      (''notify_human_operator'', ''human_escalation''),
      (''abort_run'', ''abort'')]"

definition KERNEL_RECOVERY_MODE_REGISTRY :: "string + mode_registry" where
  "KERNEL_RECOVERY_MODE_REGISTRY =
     fold (\<lambda>(a, m) r. case r of Inl e \<Rightarrow> Inl e | Inr r' \<Rightarrow> register_mode a m r') BUILTIN_MAPPINGS (Inr [])"

lemma builtin_registry: "KERNEL_RECOVERY_MODE_REGISTRY = Inr BUILTIN_MAPPINGS"
  by (simp add: KERNEL_RECOVERY_MODE_REGISTRY_def BUILTIN_MAPPINGS_def register_mode_def)

text \<open>Registration never changes what an action already means.\<close>

lemma register_mode_keeps:
  assumes "register_mode a m r = Inr r'" "get_mode r x = Some y"
  shows "get_mode r' x = Some y"
  using assms by (auto simp: register_mode_def get_mode_def split: option.splits)

lemma register_mode_adds: "register_mode a m r = Inr r' \<Longrightarrow> get_mode r' a = Some m \<and> known_actions r' = insert a (known_actions r)"
  by (auto simp: register_mode_def get_mode_def known_actions_def keys_dict_set simp del: set_map split: option.splits)

end
