(* ===== verification/Gate_Circuit.thy ===== *)
theory Gate_Circuit
  imports Prelude
begin

text \<open>
  The failure counts behind the recovery gate's circuit breaker: the table of
  \<open>agent_kernel/kernel/persistence/sqlite_circuit_breaker_store.py\<close>, the dictionaries the gate falls back to
  (\<open>agent_kernel/kernel/recovery/gate.py\<close>), and the probe sweep of
  \<open>agent_kernel/kernel/recovery/circuit_breaker_probe.py\<close>. The locale \<open>failure_store\<close> is the protocol
  \<open>CircuitBreakerStore\<close>: what a client may rely on of either. Database errors are not modelled.
\<close>

section \<open>The policy\<close>

record circuit_breaker_policy =
  cp_threshold :: int
  cp_half_open_after_ms :: int

section \<open>The table\<close>

record breaker_row =
  br_effect_class :: string
  br_failure_count :: int
  br_last_failure_ts :: real

definition breaker_get_state :: "string \<Rightarrow> breaker_row list \<Rightarrow> int \<times> real" where
  "breaker_get_state effect_class rows =
     (case sql_lookup br_effect_class effect_class rows of
        None \<Rightarrow> (0, 0)
      | Some row \<Rightarrow> (br_failure_count row, br_last_failure_ts row))"

text \<open>The upsert and the select that follows it; \<open>None\<close> is the \<open>RuntimeError\<close> for a row that disappeared.\<close>

definition breaker_record_failure :: "real \<Rightarrow> string \<Rightarrow> breaker_row list \<Rightarrow> int option \<times> breaker_row list" where
  "breaker_record_failure now effect_class rows =
     (let rows' =
        (case sql_lookup br_effect_class effect_class rows of
           None \<Rightarrow> rows @ [\<lparr>br_effect_class = effect_class, br_failure_count = 1, br_last_failure_ts = now\<rparr>]
         | Some _ \<Rightarrow> sql_update (\<lambda>r. br_effect_class r = effect_class)
             (\<lambda>r. r\<lparr>br_failure_count := br_failure_count r + 1, br_last_failure_ts := now\<rparr>) rows)
      in (map_option br_failure_count (sql_lookup br_effect_class effect_class rows'), rows'))"

definition breaker_reset :: "string \<Rightarrow> breaker_row list \<Rightarrow> breaker_row list" where
  "breaker_reset effect_class rows = sql_delete (\<lambda>r. br_effect_class r = effect_class) rows"

definition list_effect_classes :: "breaker_row list \<Rightarrow> string list" where
  "list_effect_classes rows = sort (map br_effect_class rows)"

section \<open>The dictionaries of the gate\<close>

record mem_circuit =
  mc_failures :: "(string \<times> int) list"
  mc_last_failure_mono :: "(string \<times> real) list"

definition mem_circuit_state :: "string \<Rightarrow> mem_circuit \<Rightarrow> int \<times> real" where
  "mem_circuit_state effect_class m =
     (case map_of (mc_failures m) effect_class of None \<Rightarrow> 0 | Some n \<Rightarrow> n,
      case map_of (mc_last_failure_mono m) effect_class of None \<Rightarrow> 0 | Some t \<Rightarrow> t)"

definition mem_circuit_record :: "real \<Rightarrow> string \<Rightarrow> mem_circuit \<Rightarrow> int option \<times> mem_circuit" where
  "mem_circuit_record now effect_class m =
     (let new_count = (case map_of (mc_failures m) effect_class of None \<Rightarrow> 0 | Some n \<Rightarrow> n) + 1 in
      (Some new_count,
       m\<lparr>mc_failures := dict_set effect_class new_count (mc_failures m),
         mc_last_failure_mono := dict_set effect_class now (mc_last_failure_mono m)\<rparr>))"

definition mem_circuit_reset :: "string \<Rightarrow> mem_circuit \<Rightarrow> mem_circuit" where
  "mem_circuit_reset effect_class m =
     m\<lparr>mc_failures := dict_pop effect_class (mc_failures m),
       mc_last_failure_mono := dict_pop effect_class (mc_last_failure_mono m)\<rparr>"

section \<open>The protocol\<close>

datatype circuit_event = Failure_at real string | Success_of string

text \<open>What the events mean for one effect class: failures since its last success, and when the last one was.\<close>

fun circuit_after :: "string \<Rightarrow> circuit_event \<Rightarrow> int \<times> real \<Rightarrow> int \<times> real" where
  "circuit_after c (Failure_at t c') x = (if c' = c then (fst x + 1, t) else x)"
| "circuit_after c (Success_of c') x = (if c' = c then (0, 0) else x)"

locale failure_store =
  fixes get_state :: "string \<Rightarrow> 's \<Rightarrow> int \<times> real"
    and record_failure :: "real \<Rightarrow> string \<Rightarrow> 's \<Rightarrow> int option \<times> 's"
    and reset :: "string \<Rightarrow> 's \<Rightarrow> 's"
    and ok :: "'s \<Rightarrow> bool"
  assumes record_ok: "ok s \<Longrightarrow> ok (snd (record_failure t c s))"
    and reset_ok: "ok s \<Longrightarrow> ok (reset c s)"
    and record_reply: "ok s \<Longrightarrow> fst (record_failure t c s) = Some (fst (get_state c s) + 1)"
    and record_state: "ok s \<Longrightarrow> get_state c' (snd (record_failure t c s)) = circuit_after c' (Failure_at t c) (get_state c' s)"
    and reset_state: "ok s \<Longrightarrow> get_state c' (reset c s) = circuit_after c' (Success_of c) (get_state c' s)"
begin

fun apply_event where
  "apply_event (Failure_at t c) s = snd (record_failure t c s)"
| "apply_event (Success_of c) s = reset c s"

lemma history_state:
  "ok s \<Longrightarrow> get_state c (fold apply_event es s) = fold (circuit_after c) es (get_state c s) \<and> ok (fold apply_event es s)"
proof (induction es arbitrary: s)
  case (Cons e es)
  then show ?case by (cases e) (simp_all add: record_ok reset_ok record_state reset_state)
qed simp

end

lemma record_lookup:
  "sql_lookup br_effect_class c' (snd (breaker_record_failure t c rows)) =
     (if c' = c then Some \<lparr>br_effect_class = c, br_failure_count = fst (breaker_get_state c rows) + 1, br_last_failure_ts = t\<rparr>
      else sql_lookup br_effect_class c' rows)"
proof (cases "sql_lookup br_effect_class c rows")
  case None
  then show ?thesis by (auto simp: breaker_record_failure_def breaker_get_state_def sql_lookup_append split: option.splits)
next
  case (Some r)
  show ?thesis
  proof (cases "c' = c")
    case True
    with Some sql_lookup_SomeD [OF Some] show ?thesis
      by (simp add: breaker_record_failure_def breaker_get_state_def sql_lookup_update)
  next
    case False
    then have "map_option (\<lambda>r. if br_effect_class r = c then r\<lparr>br_failure_count := br_failure_count r + 1, br_last_failure_ts := t\<rparr> else r)
        (sql_lookup br_effect_class c' rows) = sql_lookup br_effect_class c' rows"
      by (cases "sql_lookup br_effect_class c' rows") (auto dest: sql_lookup_SomeD)
    with Some False show ?thesis by (simp add: breaker_record_failure_def sql_lookup_update)
  qed
qed

lemma record_unique: "unique_key br_effect_class rows \<Longrightarrow> unique_key br_effect_class (snd (breaker_record_failure t c rows))"
  by (auto simp: breaker_record_failure_def Let_def unique_key_update split: option.splits)

interpretation breaker_db: failure_store breaker_get_state breaker_record_failure breaker_reset "unique_key br_effect_class"
proof
  fix s :: "breaker_row list" and t c c' assume u: "unique_key br_effect_class s"
  show "unique_key br_effect_class (snd (breaker_record_failure t c s))" by (rule record_unique [OF u])
  show "unique_key br_effect_class (breaker_reset c s)" using u by (auto simp: breaker_reset_def)
  show "fst (breaker_record_failure t c s) = Some (fst (breaker_get_state c s) + 1)"
    using record_lookup [of c t c s] by (simp add: breaker_record_failure_def Let_def)
  show "breaker_get_state c' (snd (breaker_record_failure t c s)) = circuit_after c' (Failure_at t c) (breaker_get_state c' s)"
    by (simp add: breaker_get_state_def [of c' "snd (breaker_record_failure t c s)"] record_lookup) (simp add: breaker_get_state_def)
  show "breaker_get_state c' (breaker_reset c s) = circuit_after c' (Success_of c) (breaker_get_state c' s)"
    using u by (auto simp: breaker_get_state_def breaker_reset_def sql_lookup_delete split: option.splits dest: sql_lookup_SomeD)
qed

interpretation breaker_mem: failure_store mem_circuit_state mem_circuit_record mem_circuit_reset "\<lambda>_. True"
  by unfold_locales (simp_all add: mem_circuit_state_def mem_circuit_record_def mem_circuit_reset_def Let_def)

section \<open>When a circuit is open\<close>

definition open_state :: "circuit_breaker_policy \<Rightarrow> real \<Rightarrow> int \<times> real \<Rightarrow> bool" where
  "open_state p now x = (\<not> fst x < cp_threshold p \<and> (now - snd x) * 1000 < real_of_int (cp_half_open_after_ms p))"

section \<open>The probe\<close>

text \<open>The health checks by effect class: what a check says when it is run, \<open>None\<close> when it raises.\<close>

type_synonym probe_fns = "(string \<times> bool option) list"

definition iter_effect_classes :: "probe_fns \<Rightarrow> breaker_row list \<Rightarrow> string list" where
  "iter_effect_classes probes rows = sort (remdups (map fst probes @ list_effect_classes rows))"

text \<open>The body of the sweep; an exception of a check ends it, with the circuits closed before it.\<close>

fun probe_classes ::
  "circuit_breaker_policy \<Rightarrow> real \<Rightarrow> probe_fns \<Rightarrow> string list \<Rightarrow> string list \<Rightarrow> breaker_row list \<Rightarrow>
   string list option \<times> breaker_row list" where
  "probe_classes p now probes [] reset_now rows = (Some reset_now, rows)"
| "probe_classes p now probes (c # cs) reset_now rows =
     (case map_of probes c of
        None \<Rightarrow> probe_classes p now probes cs reset_now rows
      | Some check \<Rightarrow>
          let (count, last_failure_ts) = breaker_get_state c rows in
          if count < cp_threshold p then probe_classes p now probes cs reset_now rows
          else if (now - last_failure_ts) * 1000 < real_of_int (cp_half_open_after_ms p)
          then probe_classes p now probes cs reset_now rows
          else (case check of
              None \<Rightarrow> (None, rows)
            | Some True \<Rightarrow> probe_classes p now probes cs (reset_now @ [c]) (breaker_reset c rows)
            | Some False \<Rightarrow> probe_classes p now probes cs reset_now rows))"

definition probe_once ::
  "circuit_breaker_policy \<Rightarrow> real \<Rightarrow> probe_fns \<Rightarrow> breaker_row list \<Rightarrow> string list option \<times> breaker_row list" where
  "probe_once p now probes rows = probe_classes p now probes (iter_effect_classes probes rows) [] rows"

text \<open>The circuits a sweep closes.\<close>

definition recovers :: "circuit_breaker_policy \<Rightarrow> real \<Rightarrow> probe_fns \<Rightarrow> breaker_row list \<Rightarrow> string \<Rightarrow> bool" where
  "recovers p now probes rows c = (map_of probes c = Some (Some True) \<and> cp_threshold p \<le> fst (breaker_get_state c rows) \<and>
     \<not> open_state p now (breaker_get_state c rows))"

lemma probe_classes_exact:
  assumes "unique_key br_effect_class rows" "distinct cs" "None \<notin> snd ` set probes"
  shows "\<exists>rows'. probe_classes p now probes cs reset_now rows = (Some (reset_now @ filter (recovers p now probes rows) cs), rows') \<and>
    unique_key br_effect_class rows' \<and>
    (\<forall>c. breaker_get_state c rows' = (if c \<in> set cs \<and> recovers p now probes rows c then (0, 0) else breaker_get_state c rows))"
  using assms
proof (induction cs arbitrary: reset_now rows)
  case (Cons c cs)
  obtain n ts where st: "breaker_get_state c rows = (n, ts)" by (cases "breaker_get_state c rows")
  have no_raise: "map_of probes c \<noteq> Some None" using Cons.prems(3) by (auto dest: map_of_SomeD intro: rev_image_eqI)
  show ?case
  proof (cases "recovers p now probes rows c")
    case True
    let ?rows = "breaker_reset c rows"
    have u: "unique_key br_effect_class ?rows" by (rule breaker_db.reset_ok) (rule Cons.prems(1))
    have st': "breaker_get_state d ?rows = (if d = c then (0, 0) else breaker_get_state d rows)" for d
      using breaker_db.reset_state [OF Cons.prems(1), of d c] by auto
    have "filter (recovers p now probes ?rows) cs = filter (recovers p now probes rows) cs"
      using Cons.prems(2) by (intro filter_cong) (auto simp: recovers_def st')
    moreover have "recovers p now probes ?rows d = recovers p now probes rows d" if "d \<in> set cs" for d
      using Cons.prems(2) that by (auto simp: recovers_def st')
    moreover have "probe_classes p now probes (c # cs) reset_now rows = probe_classes p now probes cs (reset_now @ [c]) ?rows"
      using True st by (auto simp: recovers_def open_state_def)
    ultimately show ?thesis using Cons.IH [OF u _ Cons.prems(3), of "reset_now @ [c]"] Cons.prems(2) True st' by auto
  next
    case False
    then have "probe_classes p now probes (c # cs) reset_now rows = probe_classes p now probes cs reset_now rows"
      using st no_raise by (auto simp: recovers_def open_state_def split: option.splits bool.splits)
    with Cons.IH [OF Cons.prems(1) _ Cons.prems(3), of reset_now] Cons.prems(2) False show ?thesis by auto
  qed
qed simp

text \<open>One sweep of the probe closes exactly the circuits that may be tried again and whose health check passes: those at or
  over the threshold whose cooldown is over. It reports them in order, resets their counts, and leaves
  every other effect class as it was.\<close>

lemma probe_closes_recovered_circuits:
  assumes "unique_key br_effect_class rows" "None \<notin> snd ` set probes"
  shows "\<exists>rows' closed_now. probe_once p now probes rows = (Some closed_now, rows') \<and> sorted closed_now \<and> distinct closed_now \<and>
    (\<forall>c. c \<in> set closed_now \<longleftrightarrow> map_of probes c = Some (Some True) \<and> cp_threshold p \<le> fst (breaker_get_state c rows) \<and>
       real_of_int (cp_half_open_after_ms p) \<le> (now - snd (breaker_get_state c rows)) * 1000) \<and>
    (\<forall>c. breaker_get_state c rows' = (if c \<in> set closed_now then (0, 0) else breaker_get_state c rows))"
proof -
  let ?cs = "iter_effect_classes probes rows"
  have d: "distinct ?cs" "sorted ?cs" "fst ` set probes \<subseteq> set ?cs" by (auto simp: iter_effect_classes_def)
  have r: "recovers p now probes rows c \<longleftrightarrow> map_of probes c = Some (Some True) \<and> cp_threshold p \<le> fst (breaker_get_state c rows) \<and>
       real_of_int (cp_half_open_after_ms p) \<le> (now - snd (breaker_get_state c rows)) * 1000" for c
    by (auto simp: recovers_def open_state_def)
  have img_snd: "c \<in> fst ` set probes" if "map_of probes c = Some v" for c v
    using map_of_SomeD [OF that] by force
  have mem: "c \<in> set (filter (recovers p now probes rows) ?cs) \<longleftrightarrow> recovers p now probes rows c" for c
    using d(3) img_snd by (auto simp: recovers_def)
  obtain rows' where "probe_once p now probes rows = (Some (filter (recovers p now probes rows) ?cs), rows')"
    "\<forall>c. breaker_get_state c rows' = (if c \<in> set (filter (recovers p now probes rows) ?cs) then (0, 0) else breaker_get_state c rows)"
    using probe_classes_exact [OF assms(1) d(1) assms(2), of p now "[]"] by (auto simp: probe_once_def)
  with d mem r show ?thesis
    by (intro exI [of _ rows'] exI [of _ "filter (recovers p now probes rows) ?cs"]) (simp add: sorted_wrt_filter)
qed

end
