(* ===== verification/Compensation.thy ===== *)
theory Compensation
  imports Turn_Properties
begin

text \<open>
  Undoing an action: the handler registry of \<open>agent_kernel/kernel/recovery/compensation_registry.py\<close> and its
  \<open>execute\<close>, which reserves a key of the dispatch ledger, calls the handler up to \<open>max_attempts\<close> times and
  records how that ended. A handler is an argument: given the action and the number of handler calls made so
  far it says how one call ends. The calls made are kept in \<open>cw_calls\<close>. The sleeps between attempts and the
  log lines have no effect on the state and are left out.
\<close>

section \<open>Data and the registry\<close>

text \<open>How one awaited handler call ends: normally, with \<open>TimeoutError\<close>, with \<open>TransientCompensationError\<close>, or with
  any other exception.\<close>

datatype attempt_outcome = Attempt_done | Attempt_timeout | Attempt_transient | Attempt_raised

record compensation_entry =
  ce_effect_class :: string
  ce_compensate :: "action \<Rightarrow> nat \<Rightarrow> attempt_outcome"
  ce_description :: string
  ce_timeout_ms :: int
  ce_max_attempts :: int
  ce_backoff_base_ms :: int

type_synonym compensation_registry = "(string \<times> compensation_entry) list"

datatype compensation_error =
    Ledger_raised dedupe_error
  | Compensation_exhausted string string int

record 's compensation_world =
  cw_store :: "'s option"
  cw_calls :: "(string \<times> string) list"

definition register_handler ::
  "string \<Rightarrow> (action \<Rightarrow> nat \<Rightarrow> attempt_outcome) \<Rightarrow> string \<Rightarrow> int \<Rightarrow> int \<Rightarrow> int \<Rightarrow> compensation_registry \<Rightarrow> compensation_registry" where
  "register_handler effect_class compensate description timeout_ms max_attempts backoff_base_ms r =
     dict_set effect_class
       \<lparr>ce_effect_class = effect_class, ce_compensate = compensate, ce_description = description,
        ce_timeout_ms = timeout_ms, ce_max_attempts = max_attempts, ce_backoff_base_ms = backoff_base_ms\<rparr> r"

definition lookup_handler :: "string \<Rightarrow> compensation_registry \<Rightarrow> compensation_entry option" where
  "lookup_handler effect_class r = map_of r effect_class"

definition has_handler :: "string \<Rightarrow> compensation_registry \<Rightarrow> bool" where
  "has_handler effect_class r = (map_of r effect_class \<noteq> None)"

definition registered_effect_classes :: "compensation_registry \<Rightarrow> string list" where
  "registered_effect_classes r = sort (map fst r)"

section \<open>Executing a handler\<close>

definition compensation_envelope :: "action \<Rightarrow> idempotency_envelope" where
  "compensation_envelope a =
     (let key = generate_compensation_key (effect_class_str (ac_effect_class a)) (ac_action_id a) in
      \<lparr>en_dispatch_idempotency_key = key, en_operation_fingerprint = key, en_attempt_seq = 1,
       en_effect_scope = effect_class_str (ac_effect_class a), en_capability_snapshot_hash = ''compensation'',
       en_host_kind = ''local_process'', en_peer_operation_id = None, en_policy_snapshot_ref = None,
       en_rule_bundle_hash = None\<rparr>)"

definition call_handler :: "compensation_entry \<Rightarrow> action \<Rightarrow> 's compensation_world \<Rightarrow> attempt_outcome \<times> 's compensation_world" where
  "call_handler entry a w =
     (ce_compensate entry a (length (cw_calls w)),
      w\<lparr>cw_calls := cw_calls w @ [(effect_class_str (ac_effect_class a), ac_action_id a)]\<rparr>)"

text \<open>The acknowledgement stands inside the \<open>try\<close> block: when the store raises, the attempt counts as failed.\<close>

definition acknowledge ::
  "(dedupe_op \<Rightarrow> 's \<Rightarrow> dedupe_reply \<times> 's) \<Rightarrow> string \<Rightarrow> 's compensation_world \<Rightarrow> bool \<times> 's compensation_world" where
  "acknowledge exec key w =
     (case cw_store w of
        None \<Rightarrow> (True, w)
      | Some s \<Rightarrow> (case exec (Mark_acknowledged_op key None) s of
            (Inl _, s') \<Rightarrow> (False, w\<lparr>cw_store := Some s'\<rparr>)
          | (Inr _, s') \<Rightarrow> (True, w\<lparr>cw_store := Some s'\<rparr>)))"

text \<open>The \<open>while\<close> loop with \<open>remaining\<close> iterations left; \<open>True\<close> is the return inside it, \<open>False\<close> falling out.\<close>

fun attempt_loop ::
  "(dedupe_op \<Rightarrow> 's \<Rightarrow> dedupe_reply \<times> 's) \<Rightarrow> compensation_entry \<Rightarrow> action \<Rightarrow> string \<Rightarrow> nat \<Rightarrow> int \<Rightarrow>
   's compensation_world \<Rightarrow> bool \<times> 's compensation_world" where
  "attempt_loop exec entry a key 0 attempt w = (False, w)"
| "attempt_loop exec entry a key (Suc remaining) attempt w =
     (let attempt = attempt + 1 in
      case call_handler entry a w of
        (Attempt_done, w1) \<Rightarrow> acknowledge exec key w1
      | (Attempt_raised, w1) \<Rightarrow> (False, w1)
      | (_, w1) \<Rightarrow>
          if ce_max_attempts entry \<le> attempt then (False, w1)
          else attempt_loop exec entry a key remaining attempt w1)"

definition settle_unknown ::
  "(dedupe_op \<Rightarrow> 's \<Rightarrow> dedupe_reply \<times> 's) \<Rightarrow> string \<Rightarrow> 's compensation_world \<Rightarrow> 's compensation_world" where
  "settle_unknown exec key w = w\<lparr>cw_store := map_option (\<lambda>s. snd (exec (Mark_unknown_effect_op key) s)) (cw_store w)\<rparr>"

definition run_attempts ::
  "(dedupe_op \<Rightarrow> 's \<Rightarrow> dedupe_reply \<times> 's) \<Rightarrow> compensation_entry \<Rightarrow> action \<Rightarrow> string \<Rightarrow> bool \<Rightarrow>
   's compensation_world \<Rightarrow> (compensation_error + bool) \<times> 's compensation_world" where
  "run_attempts exec entry a key raise_on_failure w =
     (case attempt_loop exec entry a key (nat (max (ce_max_attempts entry) 1)) 0 w of
        (True, w1) \<Rightarrow> (Inr True, w1)
      | (False, w1) \<Rightarrow>
          (if raise_on_failure
           then Inl (Compensation_exhausted (effect_class_str (ac_effect_class a)) (ac_action_id a) (ce_max_attempts entry))
           else Inr False, settle_unknown exec key w1))"

definition execute_compensation ::
  "(dedupe_op \<Rightarrow> 's \<Rightarrow> dedupe_reply \<times> 's) \<Rightarrow> compensation_registry \<Rightarrow> action \<Rightarrow> bool \<Rightarrow>
   's compensation_world \<Rightarrow> (compensation_error + bool) \<times> 's compensation_world" where
  "execute_compensation exec registry a raise_on_failure w =
     (case map_of registry (effect_class_str (ac_effect_class a)) of
        None \<Rightarrow> (Inr False, w)
      | Some entry \<Rightarrow>
          let env = compensation_envelope a; key = en_dispatch_idempotency_key env in
          (case cw_store w of
             None \<Rightarrow> run_attempts exec entry a key raise_on_failure w
           | Some s \<Rightarrow> (case exec (Reserve_op env) s of
                 (Inl e, s1) \<Rightarrow> (Inl (Ledger_raised e), w\<lparr>cw_store := Some s1\<rparr>)
               | (Inr r, s1) \<Rightarrow>
                   if \<not> (case r of Some reservation \<Rightarrow> rs_accepted reservation | None \<Rightarrow> False)
                   then (Inr True, w\<lparr>cw_store := Some s1\<rparr>)
                   else (case exec (Mark_dispatched_op key None) s1 of
                       (Inl e, s2) \<Rightarrow> (Inl (Ledger_raised e), w\<lparr>cw_store := Some s2\<rparr>)
                     | (Inr _, s2) \<Rightarrow> run_attempts exec entry a key raise_on_failure (w\<lparr>cw_store := Some s2\<rparr>)))))"

section \<open>What one execution does\<close>

definition pair_of :: "action \<Rightarrow> string \<times> string" where
  "pair_of a = (effect_class_str (ac_effect_class a), ac_action_id a)"

definition compensation_key :: "string \<times> string \<Rightarrow> string" where
  "compensation_key p = generate_compensation_key (fst p) (snd p)"

lemma envelope_key [simp]: "en_dispatch_idempotency_key (compensation_envelope a) = compensation_key (pair_of a)"
  by (simp add: compensation_envelope_def compensation_key_def pair_of_def Let_def)

text \<open>The outcomes that make the loop go round again.\<close>

definition retried :: "attempt_outcome \<Rightarrow> bool" where
  "retried x = (x = Attempt_timeout \<or> x = Attempt_transient)"

definition outcome_at :: "compensation_entry \<Rightarrow> action \<Rightarrow> 's compensation_world \<Rightarrow> nat \<Rightarrow> attempt_outcome" where
  "outcome_at entry a w i = ce_compensate entry a (length (cw_calls w) + i)"

text \<open>The loop makes a number of calls, all but the last one ending in a way that is retried.\<close>

definition called :: "nat \<Rightarrow> action \<Rightarrow> 's compensation_world \<Rightarrow> 's compensation_world" where
  "called m a w = w\<lparr>cw_calls := cw_calls w @ replicate m (pair_of a)\<rparr>"

lemma called_simps [simp]:
  "cw_store (called m a w) = cw_store w" "cw_calls (called m a w) = cw_calls w @ replicate m (pair_of a)"
  by (simp_all add: called_def)

lemma called_Suc: "called m a (called (Suc 0) a w) = called (Suc m) a w"
  by (simp add: called_def)

lemma call_handler_eq: "call_handler entry a w = (outcome_at entry a w 0, called (Suc 0) a w)"
  by (simp add: call_handler_def outcome_at_def called_def pair_of_def)

lemma outcome_at_Suc: "outcome_at entry a (called (Suc 0) a w) i = outcome_at entry a w (Suc i)"
  by (simp add: outcome_at_def)

definition loop_end ::
  "(dedupe_op \<Rightarrow> 's \<Rightarrow> dedupe_reply \<times> 's) \<Rightarrow> compensation_entry \<Rightarrow> action \<Rightarrow> string \<Rightarrow> nat \<Rightarrow> 's compensation_world \<Rightarrow>
   bool \<times> 's compensation_world" where
  "loop_end exec entry a key m w =
     (if outcome_at entry a w (m - 1) = Attempt_done then acknowledge exec key (called m a w) else (False, called m a w))"

lemma attempt_loop_shape:
  assumes "0 < n"
  shows "\<exists>m. 0 < m \<and> m \<le> n \<and> (\<forall>i<m - 1. retried (outcome_at entry a w i)) \<and>
    (retried (outcome_at entry a w (m - 1)) \<longrightarrow> m = n \<or> ce_max_attempts entry \<le> t + int m) \<and>
    attempt_loop exec entry a key n t w = loop_end exec entry a key m w"
  using assms
proof (induction n arbitrary: t w)
  case (Suc n)
  let ?x = "outcome_at entry a w 0" and ?w = "called (Suc 0) a w"
  show ?case
  proof (cases "retried ?x \<and> \<not> ce_max_attempts entry \<le> t + 1 \<and> 0 < n")
    case True
    with Suc.IH [of ?w "t + 1"] obtain m where m: "0 < m" "m \<le> n" "\<forall>i<m - 1. retried (outcome_at entry a w (Suc i))"
      "retried (outcome_at entry a w (Suc (m - 1))) \<longrightarrow> m = n \<or> ce_max_attempts entry \<le> t + 1 + int m"
      "attempt_loop exec entry a key n (t + 1) ?w = loop_end exec entry a key m ?w"
      unfolding outcome_at_Suc by blast
    have "\<forall>i<m. retried (outcome_at entry a w i)"
      using True m(1,3) by (metis Suc_diff_1 less_Suc_eq_0_disj not_less_eq)
    moreover have "attempt_loop exec entry a key (Suc n) t w = loop_end exec entry a key (Suc m) w"
      using True m(1,5) by (auto simp: call_handler_eq retried_def Let_def loop_end_def outcome_at_Suc called_Suc)
    ultimately show ?thesis using m(1,2,4) by (intro exI [of _ "Suc m"]) (auto simp: algebra_simps)
  next
    case False
    then have "attempt_loop exec entry a key (Suc n) t w = loop_end exec entry a key 1 w"
      by (cases ?x; cases n) (auto simp: call_handler_eq retried_def Let_def loop_end_def)
    with False show ?thesis by (intro exI [of _ 1]) auto
  qed
qed simp

lemma acknowledge_calls [simp]: "cw_calls (snd (acknowledge exec key w)) = cw_calls w"
  by (simp add: acknowledge_def split: option.splits prod.splits sum.splits)

lemma settle_unknown_calls [simp]: "cw_calls (settle_unknown exec key w) = cw_calls w"
  by (simp add: settle_unknown_def)

lemma run_attempts_shape:
  obtains m where "0 < m" "int m \<le> max (ce_max_attempts entry) 1" "\<forall>i<m - 1. retried (outcome_at entry a w i)"
    "retried (outcome_at entry a w (m - 1)) \<longrightarrow> int m = max (ce_max_attempts entry) 1"
    "run_attempts exec entry a key raising w =
      (case loop_end exec entry a key m w of (True, w1) \<Rightarrow> (Inr True, w1)
       | (False, w1) \<Rightarrow> (if raising then Inl (Compensation_exhausted (effect_class_str (ac_effect_class a)) (ac_action_id a) (ce_max_attempts entry))
            else Inr False, settle_unknown exec key w1))"
proof -
  let ?n = "nat (max (ce_max_attempts entry) 1)"
  have "0 < ?n" by simp
  from attempt_loop_shape [OF this, where w = w and t = 0 and exec = exec and entry = entry and a = a and key = key]
  obtain m where "0 < m" "m \<le> ?n" "\<forall>i<m - 1. retried (outcome_at entry a w i)"
    "retried (outcome_at entry a w (m - 1)) \<longrightarrow> m = ?n \<or> ce_max_attempts entry \<le> int m"
    "attempt_loop exec entry a key ?n 0 w = loop_end exec entry a key m w" by auto
  then show ?thesis by (intro that [of m]) (auto simp: run_attempts_def)
qed

section \<open>Executions on a shared ledger\<close>

text \<open>A process calls \<open>execute\<close>, or uses the ledger for anything else.\<close>

datatype compensation_op = Compensate compensation_registry action bool | Other_use dedupe_op

fun compensation_step ::
  "(dedupe_op \<Rightarrow> 's \<Rightarrow> dedupe_reply \<times> 's) \<Rightarrow> compensation_op \<Rightarrow> 's compensation_world \<Rightarrow> 's compensation_world" where
  "compensation_step exec (Compensate reg a raising) w = snd (execute_compensation exec reg a raising w)"
| "compensation_step exec (Other_use op) w = w\<lparr>cw_store := map_option (\<lambda>s. snd (exec op s)) (cw_store w)\<rparr>"

definition allowed_attempts :: "nat \<Rightarrow> string \<Rightarrow> compensation_op \<Rightarrow> bool" where
  "allowed_attempts n c op = (case op of
     Compensate reg a raising \<Rightarrow> (case map_of reg c of None \<Rightarrow> True | Some entry \<Rightarrow> nat (max (ce_max_attempts entry) 1) \<le> n)
   | Other_use _ \<Rightarrow> True)"

context ledger
begin

definition keeps_ledger where
  "keeps_ledger w w' = (\<exists>s s'. cw_store w = Some s \<and> cw_store w' = Some s' \<and> inv s \<and> inv s' \<and>
     (\<forall>k. abs s k \<noteq> None \<longrightarrow> abs s' k \<noteq> None))"

lemma keeps_ledger_trans: "keeps_ledger w w' \<Longrightarrow> keeps_ledger w' w'' \<Longrightarrow> keeps_ledger w w''"
  by (auto simp: keeps_ledger_def)

lemma keeps_ledger_exec:
  "inv s \<Longrightarrow> cw_store w = Some s \<Longrightarrow> cw_store w' = Some (snd (exec op s)) \<Longrightarrow> keeps_ledger w w'"
  by (auto simp: keeps_ledger_def exec_inv dest: exec_keeps)

lemma keeps_ledger_same: "inv s \<Longrightarrow> cw_store w = Some s \<Longrightarrow> cw_store w' = Some s \<Longrightarrow> keeps_ledger w w'"
  by (auto simp: keeps_ledger_def)

lemma loop_end_keeps:
  assumes "inv s" "cw_store w = Some s"
  shows "keeps_ledger w (snd (loop_end exec entry a key m w))"
  using assms keeps_ledger_same [OF assms, of "called m a w"]
  by (auto simp: loop_end_def acknowledge_def split: prod.splits sum.splits intro!: keeps_ledger_exec [where op = "Mark_acknowledged_op key None"])

lemma settle_keeps:
  assumes "inv s" "cw_store w = Some s"
  shows "keeps_ledger w (settle_unknown exec key w)"
  using assms by (auto simp: settle_unknown_def intro!: keeps_ledger_exec)

lemma run_attempts_keeps:
  assumes "inv s" "cw_store w = Some s"
  shows "keeps_ledger w (snd (run_attempts exec entry a key raising w)) \<and>
    (\<exists>m. 0 < m \<and> int m \<le> max (ce_max_attempts entry) 1 \<and>
       cw_calls (snd (run_attempts exec entry a key raising w)) = cw_calls w @ replicate m (pair_of a))"
proof -
  obtain m where m: "0 < m" "int m \<le> max (ce_max_attempts entry) 1"
    "run_attempts exec entry a key raising w =
      (case loop_end exec entry a key m w of (True, w1) \<Rightarrow> (Inr True, w1)
       | (False, w1) \<Rightarrow> (if raising then Inl (Compensation_exhausted (effect_class_str (ac_effect_class a)) (ac_action_id a) (ce_max_attempts entry))
            else Inr False, settle_unknown exec key w1))"
    by (rule run_attempts_shape)
  obtain b w1 where l: "loop_end exec entry a key m w = (b, w1)" by (cases "loop_end exec entry a key m w")
  have k: "keeps_ledger w w1" using loop_end_keeps [OF assms, of entry a key m] l by simp
  then obtain s1 where s1: "inv s1" "cw_store w1 = Some s1" by (auto simp: keeps_ledger_def)
  have "cw_calls w1 = cw_calls w @ replicate m (pair_of a)"
    using l by (auto simp: loop_end_def split: if_splits) (metis acknowledge_calls called_simps(2) snd_conv)
  with k settle_keeps [OF s1, of key] m l show ?thesis
    by (cases b) (auto intro: keeps_ledger_trans)
qed

lemma exec_reserve:
  assumes "inv s" "exec (Reserve_op env) s = (Inr r, s1)"
  shows "r = Some (case abs s (en_dispatch_idempotency_key env) of None \<Rightarrow> accepted_reservation | Some x \<Rightarrow> duplicate_reservation x)"
    and "abs s1 (en_dispatch_idempotency_key env) \<noteq> None"
  using exec_law [OF assms(1), of "Reserve_op env"] assms(2) by (auto simp: spec_insert_def split: option.splits)

lemma execute_step:
  assumes "inv s" "cw_store w = Some s" and w'_def: "w' = snd (execute_compensation exec reg a raising w)"
  shows "keeps_ledger w w' \<and> (cw_calls w' = cw_calls w \<or>
    abs s (compensation_key (pair_of a)) = None \<and> (\<exists>s'. cw_store w' = Some s' \<and> abs s' (compensation_key (pair_of a)) \<noteq> None) \<and>
    (\<exists>entry m. map_of reg (fst (pair_of a)) = Some entry \<and> int m \<le> max (ce_max_attempts entry) 1 \<and>
       cw_calls w' = cw_calls w @ replicate m (pair_of a)))"
proof (cases "map_of reg (fst (pair_of a))")
  case None
  then show ?thesis using assms by (auto simp: w'_def execute_compensation_def pair_of_def intro: keeps_ledger_same)
next
  case (Some entry)
  let ?key = "compensation_key (pair_of a)" and ?env = "compensation_envelope a"
  obtain q s1 where e1: "exec (Reserve_op ?env) s = (q, s1)" by (cases "exec (Reserve_op ?env) s")
  obtain q2 s2 where e2: "exec (Mark_dispatched_op ?key None) s1 = (q2, s2)" by (cases "exec (Mark_dispatched_op ?key None) s1")
  let ?w1 = "w\<lparr>cw_store := Some s1\<rparr>" and ?w2 = "w\<lparr>cw_store := Some s2\<rparr>"
  have f: "map_of reg (effect_class_str (ac_effect_class a)) = Some entry" using Some by (simp add: pair_of_def)
  have k1: "keeps_ledger w ?w1" using assms(1,2) e1 keeps_ledger_exec [of s w ?w1 "Reserve_op ?env"] by simp
  then have s1: "inv s1" by (auto simp: keeps_ledger_def)
  then have k2: "keeps_ledger ?w1 ?w2" using e2 keeps_ledger_exec [of s1 ?w1 ?w2 "Mark_dispatched_op ?key None"] by simp
  then have s2: "inv s2" by (auto simp: keeps_ledger_def)
  have w': "w' = (case q of Inl e \<Rightarrow> ?w1 | Inr r \<Rightarrow>
     if \<not> (case r of Some reservation \<Rightarrow> rs_accepted reservation | None \<Rightarrow> False) then ?w1
     else (case q2 of Inl e \<Rightarrow> ?w2 | Inr _ \<Rightarrow> snd (run_attempts exec entry a ?key raising ?w2)))"
    using f assms(2) e1 e2 by (auto simp: w'_def execute_compensation_def Let_def split: sum.splits)
  show ?thesis
  proof (cases "\<exists>r. q = Inr r \<and> (case r of Some reservation \<Rightarrow> rs_accepted reservation | None \<Rightarrow> False)")
    case False
    then have "w' = ?w1" using w' by (auto split: sum.splits)
    with k1 show ?thesis by simp
  next
    case True
    then have new: "abs s ?key = None" "abs s1 ?key \<noteq> None"
      using exec_reserve [OF assms(1), of ?env] e1 by (auto simp: duplicate_reservation_def split: option.splits)
    note k = keeps_ledger_trans [OF k1 k2]
    show ?thesis
    proof (cases q2)
      case (Inl e)
      with True w' k show ?thesis by auto
    next
      case (Inr u)
      with True w' have e: "w' = snd (run_attempts exec entry a ?key raising ?w2)" by auto
      obtain m where m: "keeps_ledger ?w2 w'" "int m \<le> max (ce_max_attempts entry) 1"
        "cw_calls w' = cw_calls w @ replicate m (pair_of a)"
        using run_attempts_keeps [OF s2, of ?w2 entry a ?key raising] e by auto
      from keeps_ledger_trans [OF k2 m(1)] new(2) have "\<exists>s'. cw_store w' = Some s' \<and> abs s' ?key \<noteq> None"
        by (auto simp: keeps_ledger_def)
      with keeps_ledger_trans [OF k m(1)] m new(1) Some show ?thesis by blast
    qed
  qed
qed

text \<open>The calls made for one action: none before its key is recorded, and never more than one execution makes.\<close>

definition within_budget where
  "within_budget n p w = (\<exists>s. cw_store w = Some s \<and> inv s \<and> count_list (cw_calls w) p \<le> n \<and>
     (count_list (cw_calls w) p = 0 \<or> abs s (compensation_key p) \<noteq> None))"

lemma count_replicate: "count_list (replicate m x) y = (if x = y then m else 0)"
  by (induction m) auto

lemma step_within_budget:
  assumes "within_budget n p w" "allowed_attempts n (fst p) op"
  shows "within_budget n p (compensation_step exec op w)"
proof -
  obtain s where s: "cw_store w = Some s" "inv s" using assms(1) by (auto simp: within_budget_def)
  show ?thesis
  proof (cases op)
    case (Other_use d)
    then show ?thesis using assms(1) s by (auto simp: within_budget_def exec_inv dest: exec_keeps)
  next
    case (Compensate reg a raising)
    let ?w' = "snd (execute_compensation exec reg a raising w)"
    have step: "compensation_step exec op w = ?w'" using Compensate by simp
    note ex = execute_step [OF s(2) s(1) refl, of reg a raising]
    then obtain s' where s': "cw_store ?w' = Some s'" "inv s'" "\<forall>k. abs s k \<noteq> None \<longrightarrow> abs s' k \<noteq> None"
      using s(1) by (auto simp: keeps_ledger_def)
    show ?thesis
    proof (cases "cw_calls ?w' = cw_calls w \<or> pair_of a \<noteq> p")
      case True
      then have "count_list (cw_calls ?w') p = count_list (cw_calls w) p"
        using ex by (auto simp: count_replicate)
      with assms(1) s s' step show ?thesis by (auto simp: within_budget_def)
    next
      case False
      then obtain entry m where m: "abs s (compensation_key p) = None" "abs s' (compensation_key p) \<noteq> None"
        "map_of reg (fst p) = Some entry" "int m \<le> max (ce_max_attempts entry) 1" "cw_calls ?w' = cw_calls w @ replicate m p"
        using ex s'(1) by auto
      have "m \<le> n" using m(3,4) assms(2) Compensate by (auto simp: allowed_attempts_def)
      moreover have "count_list (cw_calls w) p = 0" using assms(1) s(1) m(1) by (auto simp: within_budget_def)
      ultimately show ?thesis using step s' m(2,5) by (auto simp: within_budget_def count_replicate)
    qed
  qed
qed

lemma run_within_budget:
  "within_budget n p w \<Longrightarrow> list_all (allowed_attempts n (fst p)) ops \<Longrightarrow>
   within_budget n p (fold (compensation_step exec) ops w)"
  by (induction ops arbitrary: w) (auto intro: step_within_budget)

end

context reliable_ledger
begin

lemma exec_obtain:
  assumes "inv s"
  obtains s' where "exec op s = (fst (spec_step op (abs s)), s')" "inv s'" "abs s' = snd (spec_step op (abs s))"
  by (rule that [of "snd (exec op s)"]) (simp_all add: assms exec_fst exec_snd exec_inv prod_eq_iff)

definition in_state where
  "in_state k st w = (\<exists>s r. cw_store w = Some s \<and> inv s \<and> abs s k = Some r \<and> dr_state r = st)"

lemma acknowledge_answers:
  assumes "in_state k Dispatched w"
  shows "\<exists>w'. acknowledge exec k w = (True, w') \<and> in_state k Acknowledged w'"
proof -
  obtain s r where s: "cw_store w = Some s" "inv s" "abs s k = Some r" "dr_state r = Dispatched"
    using assms by (auto simp: in_state_def)
  then obtain s' where "exec (Mark_acknowledged_op k None) s = (Inr None, s')" "inv s'"
    "abs s' = (abs s)(k \<mapsto> r\<lparr>dr_state := Acknowledged, dr_external_ack_ref := dr_external_ack_ref r\<rparr>)"
    using exec_obtain [OF s(2), of "Mark_acknowledged_op k None"] by (auto simp: spec_mark_def opt_or_def)
  with s(1) show ?thesis by (simp add: acknowledge_def in_state_def)
qed

lemma settle_answers:
  assumes "in_state k Dispatched w"
  shows "in_state k Unknown_effect (settle_unknown exec k w)"
proof -
  obtain s r where "cw_store w = Some s" "inv s" "abs s k = Some r" "dr_state r = Dispatched"
    using assms by (auto simp: in_state_def)
  then show ?thesis
    using exec_snd [of s "Mark_unknown_effect_op k"] exec_inv [of s] by (simp add: in_state_def settle_unknown_def spec_mark_def)
qed

lemma reserve_dispatched:
  assumes "cw_store w = Some s" "inv s" "abs s (compensation_key (pair_of a)) = None"
    "map_of reg (effect_class_str (ac_effect_class a)) = Some entry"
  shows "\<exists>w1. in_state (compensation_key (pair_of a)) Dispatched w1 \<and> cw_calls w1 = cw_calls w \<and>
    execute_compensation exec reg a raising w = run_attempts exec entry a (compensation_key (pair_of a)) raising w1"
proof -
  let ?k = "compensation_key (pair_of a)" and ?env = "compensation_envelope a"
  let ?r = "initial_record ?env Reserved (en_peer_operation_id ?env)"
  obtain s1 where s1: "exec (Reserve_op ?env) s = (Inr (Some accepted_reservation), s1)" "inv s1" "abs s1 = (abs s)(?k \<mapsto> ?r)"
    using exec_obtain [OF assms(2), of "Reserve_op ?env"] assms(3) by (auto simp: spec_insert_def)
  obtain s2 where s2: "exec (Mark_dispatched_op ?k None) s1 = (Inr None, s2)" "inv s2"
    "abs s2 = (abs s1)(?k \<mapsto> ?r\<lparr>dr_state := Dispatched\<rparr>)"
    using exec_obtain [OF s1(2), of "Mark_dispatched_op ?k None"] s1(3)
    by (auto simp: spec_mark_def opt_or_def initial_record_def)
  have "in_state ?k Dispatched (w\<lparr>cw_store := Some s2\<rparr>)" using s2 by (simp add: in_state_def)
  moreover have "execute_compensation exec reg a raising w = run_attempts exec entry a ?k raising (w\<lparr>cw_store := Some s2\<rparr>)"
    using assms(1,4) s1(1) s2(1) by (simp add: execute_compensation_def accepted_reservation_def Let_def)
  ultimately show ?thesis by (intro exI [of _ "w\<lparr>cw_store := Some s2\<rparr>"]) simp
qed

text \<open>How the execution of a handler on an unused key ends: the handler is called until an attempt is not
  retried or the attempts are used up, and the ledger records whether it completed.\<close>

definition settled_as where
  "settled_as reg entry a raising w res w' = (\<exists>m. 0 < m \<and> int m \<le> max (ce_max_attempts entry) 1 \<and>
     (\<forall>i<m - 1. retried (outcome_at entry a w i)) \<and> cw_calls w' = cw_calls w @ replicate m (pair_of a) \<and>
     (if outcome_at entry a w (m - 1) = Attempt_done
      then res = Inr True \<and> in_state (compensation_key (pair_of a)) Acknowledged w'
      else (retried (outcome_at entry a w (m - 1)) \<longrightarrow> int m = max (ce_max_attempts entry) 1) \<and>
        res = (if raising then Inl (Compensation_exhausted (fst (pair_of a)) (ac_action_id a) (ce_max_attempts entry)) else Inr False) \<and>
        in_state (compensation_key (pair_of a)) Unknown_effect w'))"

lemma execute_settles:
  assumes "cw_store w = Some s" "inv s" "abs s (compensation_key (pair_of a)) = None"
    "map_of reg (effect_class_str (ac_effect_class a)) = Some entry" "execute_compensation exec reg a raising w = (res, w')"
  shows "settled_as reg entry a raising w res w'"
proof -
  let ?k = "compensation_key (pair_of a)"
  obtain w1 where w1: "in_state ?k Dispatched w1" "cw_calls w1 = cw_calls w"
    "execute_compensation exec reg a raising w = run_attempts exec entry a ?k raising w1"
    using reserve_dispatched [OF assms(1-4), of raising] by blast
  have o: "outcome_at entry a w1 = outcome_at entry a w" using w1(2) by (simp add: outcome_at_def fun_eq_iff)
  obtain m where m: "0 < m" "int m \<le> max (ce_max_attempts entry) 1" "\<forall>i<m - 1. retried (outcome_at entry a w1 i)"
    "retried (outcome_at entry a w1 (m - 1)) \<longrightarrow> int m = max (ce_max_attempts entry) 1"
    "run_attempts exec entry a ?k raising w1 =
      (case loop_end exec entry a ?k m w1 of (True, w2) \<Rightarrow> (Inr True, w2)
       | (False, w2) \<Rightarrow> (if raising then Inl (Compensation_exhausted (effect_class_str (ac_effect_class a)) (ac_action_id a) (ce_max_attempts entry))
            else Inr False, settle_unknown exec ?k w2))" by (rule run_attempts_shape)
  have d: "in_state ?k Dispatched (called m a w1)" using w1(1) by (simp add: in_state_def)
  show ?thesis
  proof (cases "outcome_at entry a w (m - 1) = Attempt_done")
    case True
    obtain w2 where w2: "acknowledge exec ?k (called m a w1) = (True, w2)" "in_state ?k Acknowledged w2"
      using acknowledge_answers [OF d] by blast
    with acknowledge_calls [of exec ?k "called m a w1"] have "cw_calls w2 = cw_calls w @ replicate m (pair_of a)"
      using w1(2) by simp
    with True m w1(3) w2 assms(5) show ?thesis by (auto simp: settled_as_def loop_end_def o)
  next
    case False
    with m w1(2,3) settle_answers [OF d] assms(5) show ?thesis
      by (auto simp: settled_as_def loop_end_def o pair_of_def)
  qed
qed

text \<open>An action whose key is recorded is reported as compensated, whatever the record says.\<close>

lemma execute_recorded:
  assumes "cw_store w = Some s" "inv s" "abs s (compensation_key (pair_of a)) = Some r"
    "map_of reg (effect_class_str (ac_effect_class a)) = Some entry"
  shows "fst (execute_compensation exec reg a raising w) = Inr True \<and>
    cw_calls (snd (execute_compensation exec reg a raising w)) = cw_calls w"
proof -
  obtain s1 where "exec (Reserve_op (compensation_envelope a)) s = (Inr (Some (duplicate_reservation r)), s1)"
    using exec_obtain [OF assms(2), of "Reserve_op (compensation_envelope a)"] assms(3) by (auto simp: spec_insert_def)
  with assms(1,4) show ?thesis by (simp add: execute_compensation_def duplicate_reservation_def Let_def)
qed

lemma step_keeps_ledger:
  assumes "cw_store w = Some s" "inv s"
  shows "keeps_ledger w (compensation_step exec op w)"
proof (cases op)
  case (Compensate reg a raising)
  then show ?thesis using execute_step [OF assms(2,1) refl, of reg a raising] by simp
next
  case (Other_use d)
  then show ?thesis using assms by (auto intro!: keeps_ledger_exec)
qed

lemma steps_keep_ledger:
  assumes "cw_store w = Some s" "inv s"
  shows "keeps_ledger w (fold (compensation_step exec) ops w)"
  using assms
proof (induction ops arbitrary: w s)
  case Nil
  then show ?case by (simp add: keeps_ledger_same)
next
  case (Cons op ops)
  have k: "keeps_ledger w (compensation_step exec op w)" by (rule step_keeps_ledger) fact+
  then obtain s1 where "cw_store (compensation_step exec op w) = Some s1" "inv s1" by (auto simp: keeps_ledger_def)
  from keeps_ledger_trans [OF k Cons.IH [OF this]] show ?case by simp
qed

lemma settled_is_done:
  assumes "settled_as reg entry a raising w res w1" "pair_of b = pair_of a"
    "map_of reg' (effect_class_str (ac_effect_class b)) = Some entry'"
  assumes w2_def: "w2 = fold (compensation_step exec) ops w1"
  shows "fst (execute_compensation exec reg' b raising' w2) = Inr True \<and>
    cw_calls (snd (execute_compensation exec reg' b raising' w2)) = cw_calls w2"
proof -
  obtain s1 r where s1: "cw_store w1 = Some s1" "inv s1" "abs s1 (compensation_key (pair_of a)) = Some r"
    using assms(1) by (auto simp: settled_as_def in_state_def split: if_splits)
  then obtain s2 r2 where "cw_store w2 = Some s2" "inv s2" "abs s2 (compensation_key (pair_of b)) = Some r2"
    using steps_keep_ledger [OF s1(1,2), of ops] assms(2) by (auto simp: keeps_ledger_def w2_def)
  from execute_recorded [OF this assms(3)] show ?thesis .
qed

end

section \<open>Properties\<close>

definition comp_world :: "'s \<Rightarrow> 's compensation_world" where
  "comp_world s = \<lparr>cw_store = Some s, cw_calls = []\<rparr>"

lemma comp_world_simps [simp]: "cw_store (comp_world s) = Some s" "cw_calls (comp_world s) = []"
  by (simp_all add: comp_world_def)

text \<open>C37. A handler is never run for the same action by two executions: over any sequence of compensations and other uses
  of the shared durable ledger, whichever calls find the database locked, the handler calls made for
  an effect class and action id are at most the attempts one execution may make.\<close>

theorem compensation_runs_in_one_execution:
  assumes "dedupe_db_ok db" "list_all (allowed_attempts n effect_class) ops"
  shows "count_list (cw_calls (fold (compensation_step contended_exec) ops (comp_world (schedule, db)))) (effect_class, action_id) \<le> n"
proof -
  have "contended.within_budget n (effect_class, action_id) (comp_world (schedule, db))"
    using assms(1) by (simp add: contended.within_budget_def contended_ok_def)
  from contended.run_within_budget [OF this] assms(2) show ?thesis by (auto simp: contended.within_budget_def)
qed

text \<open>How a compensation on an unused key ends on the durable ledger: the handler is called at least once and at most
  \<open>max_attempts\<close> times, every call but the last timed out or failed transiently, a call that
  completed ends it with success and the record acknowledged, and otherwise all attempts were used or
  an attempt failed for good, the caller is told so and the record says unknown effect.\<close>

lemma compensation_outcome_is_recorded:
  assumes "dedupe_db_ok db" "sqlite_get (generate_compensation_key (effect_class_str (ac_effect_class a)) (ac_action_id a)) db = None"
    and "map_of reg (effect_class_str (ac_effect_class a)) = Some entry"
    and "execute_compensation (sqlite_exec False) reg a raising (comp_world db) = (res, w')"
  shows "\<exists>m db' r. cw_calls w' = replicate m (effect_class_str (ac_effect_class a), ac_action_id a) \<and>
    0 < m \<and> int m \<le> max (ce_max_attempts entry) 1 \<and>
    (\<forall>i<m - 1. ce_compensate entry a i \<in> {Attempt_timeout, Attempt_transient}) \<and> cw_store w' = Some db' \<and>
    sqlite_get (generate_compensation_key (effect_class_str (ac_effect_class a)) (ac_action_id a)) db' = Some r \<and>
    (if ce_compensate entry a (m - 1) = Attempt_done then res = Inr True \<and> dr_state r = Acknowledged
     else (ce_compensate entry a (m - 1) = Attempt_raised \<or> int m = max (ce_max_attempts entry) 1) \<and> dr_state r = Unknown_effect \<and>
       res = (if raising then Inl (Compensation_exhausted (effect_class_str (ac_effect_class a)) (ac_action_id a) (ce_max_attempts entry))
              else Inr False))"
proof -
  have "sqlite_ledger.settled_as reg entry a raising (comp_world db) res w'"
    using assms by (intro sqlite_ledger.execute_settles) (auto simp: dedupe_abs_def compensation_key_def pair_of_def)
  then obtain m where "0 < m" "int m \<le> max (ce_max_attempts entry) 1" "\<forall>i<m - 1. retried (ce_compensate entry a i)"
    "cw_calls w' = replicate m (pair_of a)"
    "if ce_compensate entry a (m - 1) = Attempt_done
      then res = Inr True \<and> sqlite_ledger.in_state (compensation_key (pair_of a)) Acknowledged w'
      else (retried (ce_compensate entry a (m - 1)) \<longrightarrow> int m = max (ce_max_attempts entry) 1) \<and>
        res = (if raising then Inl (Compensation_exhausted (fst (pair_of a)) (ac_action_id a) (ce_max_attempts entry)) else Inr False) \<and>
        sqlite_ledger.in_state (compensation_key (pair_of a)) Unknown_effect w'"
    unfolding sqlite_ledger.settled_as_def by (auto simp: outcome_at_def)
  moreover from this have "ce_compensate entry a (m - 1) \<noteq> Attempt_done \<longrightarrow>
      ce_compensate entry a (m - 1) = Attempt_raised \<or> int m = max (ce_max_attempts entry) 1"
    by (cases "ce_compensate entry a (m - 1)") (auto simp: retried_def)
  ultimately show ?thesis
    by (intro exI [of _ m])
      (auto simp: sqlite_ledger.in_state_def retried_def pair_of_def compensation_key_def dedupe_abs_def split: if_splits)
qed

text \<open>A compensation that failed is reported as done from then on: once an execution of a handler has ended on the durable
  ledger, in whatever way, every later execution for the same effect class and action id, whatever run it
  is for and whatever happened to the ledger in between, answers success without calling the handler.\<close>

lemma failed_compensation_reported_done:
  assumes "dedupe_db_ok db" "sqlite_get (generate_compensation_key (effect_class_str (ac_effect_class a)) (ac_action_id a)) db = None"
    and "map_of reg (effect_class_str (ac_effect_class a)) = Some entry" "map_of reg' (effect_class_str (ac_effect_class a)) = Some entry'"
    and "ac_effect_class b = ac_effect_class a" "ac_action_id b = ac_action_id a"
    and w2_def: "w2 = fold (compensation_step (sqlite_exec False)) ops (snd (execute_compensation (sqlite_exec False) reg a raising (comp_world db)))"
  shows "fst (execute_compensation (sqlite_exec False) reg' b raising' w2) = Inr True \<and>
    cw_calls (snd (execute_compensation (sqlite_exec False) reg' b raising' w2)) = cw_calls w2"
proof -
  have "sqlite_ledger.settled_as reg entry a raising (comp_world db)
      (fst (execute_compensation (sqlite_exec False) reg a raising (comp_world db)))
      (snd (execute_compensation (sqlite_exec False) reg a raising (comp_world db)))"
    using assms(1-3) by (intro sqlite_ledger.execute_settles) (auto simp: dedupe_abs_def compensation_key_def pair_of_def)
  then show ?thesis
    by (rule sqlite_ledger.settled_is_done [OF _ _ _ w2_def]) (simp_all add: pair_of_def assms)
qed

section \<open>Witnesses\<close>

text \<open>A handler that always times out, with the default limits of \<open>register\<close>.\<close>

definition wit_registry :: compensation_registry where
  "wit_registry = register_handler ''irreversible_write'' (\<lambda>a n. Attempt_timeout) ''undo'' 30000 2 1000 []"

lemma wit_registry_eq: "map_of wit_registry ''irreversible_write'' =
    Some \<lparr>ce_effect_class = ''irreversible_write'', ce_compensate = (\<lambda>a n. Attempt_timeout), ce_description = ''undo'',
      ce_timeout_ms = 30000, ce_max_attempts = 2, ce_backoff_base_ms = 1000\<rparr>"
  by (simp add: wit_registry_def register_handler_def)

lemma wit_class: "effect_class_str (ac_effect_class wit_action) = ''irreversible_write''" "ac_action_id wit_action = ''a''"
  by (simp_all add: wit_action_def effect_class_str_def)

lemma wit_unused: "sqlite_get k sqlite_init = None"
  by (simp add: sqlite_get_def sqlite_init_def sql_lookup_def)

theorem compensation_runs_in_one_execution_witness:
  "count_list (cw_calls (fold (compensation_step contended_exec)
      [Compensate wit_registry wit_action True, Compensate wit_registry wit_action False] (comp_world ([False, True], sqlite_init))))
    (''irreversible_write'', ''a'') \<le> 2"
  by (rule compensation_runs_in_one_execution) (simp_all add: allowed_attempts_def wit_registry_eq)

end
