(* ===== verification/Recovery_Gate.thy ===== *)
theory Recovery_Gate
  imports Recovery_Planner Gate_Circuit Compensation
begin

text \<open>
  The recovery gate of \<open>agent_kernel/kernel/recovery/gate.py\<close> (\<open>PlannedRecoveryGateService\<close>), with the reflection policy
  of \<open>contracts.py\<close> and the context builder of \<open>reflection_builder.py\<close>. The state is what the service
  keeps between calls: failure counts per run, the circuit breaker's counts (in dictionaries or in the
  table), and what the observability hook was told. The clock is read once when the circuit is checked
  and once when a failure is recorded; both readings are arguments of \<open>decide\<close>, as is the reasoning
  loop, which either raises or proposes actions.
\<close>

section \<open>Reflection\<close>

record reflection_policy =
  rp_max_rounds :: int
  rp_reflection_timeout_ms :: int
  rp_reflectable_failure_kinds :: "string list"
  rp_non_reflectable_failure_kinds :: "string list"
  rp_escalate_on_exhaustion :: bool

definition is_reflectable :: "reflection_policy \<Rightarrow> string \<Rightarrow> bool" where
  "is_reflectable p failure_kind =
     (if failure_kind \<in> set (rp_non_reflectable_failure_kinds p) then False
      else failure_kind \<in> set (rp_reflectable_failure_kinds p))"

record script_failure_evidence =
  se_script_id :: string
  se_failure_kind :: string
  se_budget_consumed_ratio :: string
  se_output_produced :: bool
  se_suspected_cause :: "string option"
  se_partial_output :: "string option"
  se_original_script :: string
  se_stderr_tail :: "string option"

record 'i context_window =
  ctw_system_instructions :: string
  ctw_tool_definitions :: "json list"
  ctw_skill_definitions :: "json list"
  ctw_history :: "json list"
  ctw_current_state :: json_dict
  ctw_memory_ref :: "string option"
  ctw_recovery_context :: "json_dict option"
  ctw_inference_config :: "'i option"

definition build_reflection_context ::
  "script_failure_evidence \<Rightarrow> string list \<Rightarrow> 'i context_window \<Rightarrow> int \<Rightarrow> 'i context_window" where
  "build_reflection_context e branch_ids base reflection_round =
     base\<lparr>ctw_recovery_context := Some
       [(''failure_kind'', JStr (se_failure_kind e)),
        (''suspected_cause'', opt_json (se_suspected_cause e)),
        (''budget_consumed_ratio'', JFloat (se_budget_consumed_ratio e)),
        (''original_script'', JStr (se_original_script e)),
        (''partial_output'', opt_json (se_partial_output e)),
        (''stderr_tail'', opt_json (se_stderr_tail e)),
        (''successful_branch_ids'', str_list_json branch_ids),
        (''reflection_round'', JInt reflection_round),
        (''instruction'', JStr ''Analyse the failure and produce a corrected script'')]\<rparr>"

definition build_evidence_from_input :: "recovery_input \<Rightarrow> script_failure_evidence" where
  "build_evidence_from_input ri =
     (let reason = ri_reason_code ri;
          known_kinds = [''heartbeat_timeout'', ''runtime_error'', ''permission_denied'', ''resource_exhausted'',
            ''output_validation_failed''] in
      \<lparr>se_script_id = (case opt_or (ri_failed_action_id ri) None of None \<Rightarrow> ''unknown'' | Some a \<Rightarrow> a),
       se_failure_kind = (if reason \<in> set known_kinds then reason else ''runtime_error''),
       se_budget_consumed_ratio = ''0.0'', se_output_produced = False, se_suspected_cause = Some reason,
       se_partial_output = None, se_original_script = '''', se_stderr_tail = None\<rparr>)"

section \<open>The service and its state\<close>

datatype hook_event =
    On_recovery_triggered string string string
  | On_reflection_round string string int bool
  | On_circuit_breaker_trip string string int bool

record gate_state =
  gs_failure_counts :: "(string \<times> int) list"
  gs_circuit :: mem_circuit
  gs_circuit_store :: "breaker_row list option"
  gs_hook :: "hook_event list option"

record 'i gate_services =
  gv_planner :: planner_heuristic_policy
  gv_modes :: mode_registry
  gv_compensation_registry :: "compensation_registry option"
  gv_reflection_policy :: "reflection_policy option"
  gv_reasoning_loop :: "(string \<Rightarrow> snapshot \<Rightarrow> 'i \<Rightarrow> 'i context_window \<Rightarrow> string \<Rightarrow> unit + action list) option"
  gv_reflection_builder :: bool
  gv_default_inference_config :: "'i option"
  gv_circuit_breaker_policy :: "circuit_breaker_policy option"
  gv_build_snapshot :: "snapshot_input \<Rightarrow> snapshot_error + snapshot"

datatype gate_error =
    Planner_raised planner_error
  | Unsupported_plan_action string
  | Missing_inference_config
  | Snapshot_raised snapshot_error

definition emit_hook :: "hook_event \<Rightarrow> gate_state \<Rightarrow> gate_state" where
  "emit_hook e g = g\<lparr>gs_hook := map_option (\<lambda>es. es @ [e]) (gs_hook g)\<rparr>"

section \<open>The circuit\<close>

definition gate_circuit_state :: "string \<Rightarrow> gate_state \<Rightarrow> int \<times> real" where
  "gate_circuit_state effect_class g =
     (case gs_circuit_store g of
        Some rows \<Rightarrow> breaker_get_state effect_class rows
      | None \<Rightarrow> mem_circuit_state effect_class (gs_circuit g))"

definition gate_circuit_record :: "real \<Rightarrow> string \<Rightarrow> gate_state \<Rightarrow> int option \<times> gate_state" where
  "gate_circuit_record now effect_class g =
     (case gs_circuit_store g of
        Some rows \<Rightarrow> (case breaker_record_failure now effect_class rows of
            (n, rows') \<Rightarrow> (n, g\<lparr>gs_circuit_store := Some rows'\<rparr>))
      | None \<Rightarrow> (case mem_circuit_record now effect_class (gs_circuit g) of
            (n, m) \<Rightarrow> (n, g\<lparr>gs_circuit := m\<rparr>)))"

definition on_action_success :: "string \<Rightarrow> gate_state \<Rightarrow> gate_state" where
  "on_action_success effect_class g =
     (case gs_circuit_store g of
        Some rows \<Rightarrow> g\<lparr>gs_circuit_store := Some (breaker_reset effect_class rows)\<rparr>
      | None \<Rightarrow> g\<lparr>gs_circuit := mem_circuit_reset effect_class (gs_circuit g)\<rparr>)"

definition is_circuit_open :: "'i gate_services \<Rightarrow> real \<Rightarrow> string option \<Rightarrow> gate_state \<Rightarrow> bool" where
  "is_circuit_open sv now effect_class g =
     (case (gv_circuit_breaker_policy sv, effect_class) of
        (Some p, Some c) \<Rightarrow>
          (let (count, last_failure) = gate_circuit_state c g in
           if count < cp_threshold p then False
           else (now - last_failure) * 1000 < real_of_int (cp_half_open_after_ms p))
      | _ \<Rightarrow> False)"

definition record_circuit_failure ::
  "'i gate_services \<Rightarrow> real \<Rightarrow> string option \<Rightarrow> string \<Rightarrow> gate_state \<Rightarrow> gate_state" where
  "record_circuit_failure sv now effect_class run_id g =
     (case (gv_circuit_breaker_policy sv, effect_class) of
        (Some p, Some c) \<Rightarrow>
          (case gate_circuit_record now c g of
             (None, g') \<Rightarrow> g'
           | (Some new_count, g') \<Rightarrow>
               emit_hook (On_circuit_breaker_trip run_id c new_count (cp_threshold p \<le> new_count)) g')
      | _ \<Rightarrow> g)"

section \<open>Backoff\<close>

definition RETRYABLE_MODES :: "string list" where
  "RETRYABLE_MODES = [''static_compensation'', ''reflect_and_retry'']"

definition compute_retry_after_ms :: "string \<Rightarrow> int \<Rightarrow> int option" where
  "compute_retry_after_ms mode failure_count =
     (if mode \<notin> set RETRYABLE_MODES then None
      else let exponent = min (failure_count - 1) 16; delay = \<lfloor>500 * 2 powi exponent :: real\<rfloor> in
        Some (min delay 30000))"

definition attach_backoff :: "kernel_recovery_decision \<Rightarrow> int \<Rightarrow> kernel_recovery_decision" where
  "attach_backoff d failure_count =
     d\<lparr>rd_retry_after_ms := compute_retry_after_ms (rd_mode d) failure_count, rd_failure_count := failure_count\<rparr>"

definition decision :: "string \<Rightarrow> string \<Rightarrow> string \<Rightarrow> kernel_recovery_decision" where
  "decision run_id mode reason =
     \<lparr>rd_run_id = run_id, rd_mode = mode, rd_reason = reason, rd_compensation_action_id = None,
      rd_escalation_channel_ref = None, rd_corrected_action = None, rd_retry_after_ms = None, rd_failure_count = 0\<rparr>"

section \<open>Reflecting\<close>

definition should_reflect :: "'i gate_services \<Rightarrow> recovery_input \<Rightarrow> string \<Rightarrow> bool" where
  "should_reflect sv ri mode =
     (case gv_reflection_policy sv of
        None \<Rightarrow> False
      | Some p \<Rightarrow>
          if gv_reasoning_loop sv = None then False
          else if \<not> gv_reflection_builder sv then False
          else if mode \<notin> {''static_compensation'', ''abort''} then False
          else if \<not> is_reflectable p (ri_reason_code ri) then False
          else ri_reflection_round ri < rp_max_rounds p)"

definition fallback_decision :: "reflection_policy \<Rightarrow> recovery_input \<Rightarrow> string \<Rightarrow> kernel_recovery_decision" where
  "fallback_decision p ri base_reason =
     (if rp_escalate_on_exhaustion p
      then decision (ri_run_id ri) ''human_escalation'' (base_reason @ '':reflect_exhausted:escalated'')
      else decision (ri_run_id ri) ''abort'' (base_reason @ '':reflect_exhausted:aborted''))"

definition failing_action_id :: "recovery_input \<Rightarrow> string" where
  "failing_action_id ri = (case ri_failing_action ri of None \<Rightarrow> ''unknown'' | Some a \<Rightarrow> ac_action_id a)"

definition decide_reflect_and_retry ::
  "'i gate_services \<Rightarrow> reflection_policy \<Rightarrow> recovery_input \<Rightarrow> string \<Rightarrow> gate_state \<Rightarrow>
   (gate_error + kernel_recovery_decision) \<times> gate_state" where
  "decide_reflect_and_retry sv p ri base_reason g =
     (let reflection_round = ri_reflection_round ri + 1;
          base_context = \<lparr>ctw_system_instructions = '''', ctw_tool_definitions = [], ctw_skill_definitions = [],
            ctw_history = [], ctw_current_state = [], ctw_memory_ref = None, ctw_recovery_context = None,
            ctw_inference_config = None\<rparr>;
          enriched_context = build_reflection_context (build_evidence_from_input ri) [] base_context reflection_round in
      case gv_default_inference_config sv of
        None \<Rightarrow> (Inl Missing_inference_config, g)
      | Some config \<Rightarrow>
          (case (case ri_capability_snapshot ri of Some s \<Rightarrow> Inr s
             | None \<Rightarrow> gv_build_snapshot sv (default_snapshot_input (ri_run_id ri)
                 (pj_projected_offset (ri_projection ri)) ''policy:default'' ''strict'')) of
             Inl e \<Rightarrow> (Inl (Snapshot_raised e), g)
           | Inr snap \<Rightarrow>
               let key = ri_run_id ri @ '':'' @ str_int (pj_projected_offset (ri_projection ri)) @ '':reflection:'' @
                 str_int reflection_round in
               (case (case gv_reasoning_loop sv of None \<Rightarrow> Inl ()
                  | Some loop \<Rightarrow> loop (ri_run_id ri) snap config enriched_context key) of
                  Inl _ \<Rightarrow> (Inr (fallback_decision p ri base_reason), g)
                | Inr [] \<Rightarrow> (Inr (fallback_decision p ri base_reason),
                    emit_hook (On_reflection_round (ri_run_id ri) (failing_action_id ri) reflection_round False) g)
                | Inr (corrected # _) \<Rightarrow>
                    (Inr ((decision (ri_run_id ri) ''reflect_and_retry''
                       (base_reason @ '':reflect_and_retry:round='' @ str_int reflection_round))\<lparr>rd_corrected_action := Some corrected\<rparr>),
                     emit_hook (On_reflection_round (ri_run_id ri) (failing_action_id ri) reflection_round True) g))))"

section \<open>Deciding\<close>

definition extract_effect_class :: "recovery_input \<Rightarrow> string option" where
  "extract_effect_class ri =
     (let reason = py_lower (ri_reason_code ri) in
      if CHR '':'' \<in> set reason then Some (takeWhile (\<lambda>c. c \<noteq> CHR '':'') reason) else None)"

text \<open>The effective mode, reason, compensation id and channel after the compensation check.\<close>

definition check_compensation ::
  "'i gate_services \<Rightarrow> (dedupe_op \<Rightarrow> 's \<Rightarrow> dedupe_reply \<times> 's) \<Rightarrow> recovery_input \<Rightarrow> recovery_plan \<Rightarrow> string \<Rightarrow>
   's compensation_world \<Rightarrow> (string \<times> string \<times> string option \<times> string option) \<times> 's compensation_world" where
  "check_compensation sv exec ri plan mode w =
     (let unchanged = (mode, pl_reason plan, pl_compensation_action_id plan, pl_escalation_channel_ref plan) in
      case (gv_compensation_registry sv, extract_effect_class ri) of
        (Some registry, Some c) \<Rightarrow>
          if mode \<noteq> ''static_compensation'' then (unchanged, w)
          else if \<not> has_handler c registry
          then ((''abort'', pl_reason plan @ '':no_compensation_handler'', None, None), w)
          else (case ri_failing_action ri of
              None \<Rightarrow> (unchanged, w)
            | Some a \<Rightarrow> (case execute_compensation exec registry a True w of
                  (Inr _, w') \<Rightarrow> (unchanged, w')
                | (Inl _, w') \<Rightarrow> ((''human_escalation'', pl_reason plan @ '':compensation_exhausted'', None,
                    pl_escalation_channel_ref plan), w')))
      | _ \<Rightarrow> (unchanged, w))"

definition count_failure :: "string \<Rightarrow> gate_state \<Rightarrow> int \<times> gate_state" where
  "count_failure run_id g =
     (let n = (case map_of (gs_failure_counts g) run_id of None \<Rightarrow> 0 | Some n \<Rightarrow> n) + 1 in
      (n, g\<lparr>gs_failure_counts := dict_set run_id n (gs_failure_counts g)\<rparr>))"

definition conclude ::
  "'i gate_services \<Rightarrow> real \<Rightarrow> recovery_input \<Rightarrow> int \<Rightarrow> string \<times> string \<times> string option \<times> string option \<Rightarrow> gate_state \<Rightarrow>
   (gate_error + kernel_recovery_decision) \<times> gate_state" where
  "conclude sv record_now ri failure_count eff g =
     (let (mode, reason, comp, esc) = eff;
          emit = (\<lambda>m. emit_hook (On_recovery_triggered (ri_run_id ri) (ri_reason_code ri) m)) in
      if should_reflect sv ri mode then
        (case gv_reflection_policy sv of
           None \<Rightarrow> (Inl Missing_inference_config, g)
         | Some p \<Rightarrow> (case decide_reflect_and_retry sv p ri reason g of
               (Inl e, g1) \<Rightarrow> (Inl e, g1)
             | (Inr d, g1) \<Rightarrow> let d' = attach_backoff d failure_count in (Inr d', emit (rd_mode d') g1)))
      else
        let d = \<lparr>rd_run_id = ri_run_id ri, rd_mode = mode, rd_reason = reason, rd_compensation_action_id = comp,
              rd_escalation_channel_ref = esc, rd_corrected_action = None,
              rd_retry_after_ms = compute_retry_after_ms mode failure_count, rd_failure_count = failure_count\<rparr> in
        (Inr d, emit mode (record_circuit_failure sv record_now (ri_failed_effect_class ri) (ri_run_id ri) g)))"

definition decide_recovery ::
  "'i gate_services \<Rightarrow> (dedupe_op \<Rightarrow> 's \<Rightarrow> dedupe_reply \<times> 's) \<Rightarrow> real \<Rightarrow> real \<Rightarrow> recovery_input \<Rightarrow>
   gate_state \<times> 's compensation_world \<Rightarrow> (gate_error + kernel_recovery_decision) \<times> gate_state \<times> 's compensation_world" where
  "decide_recovery sv exec check_now record_now ri st =
     (let (g0, w) = st; (failure_count, g) = count_failure (ri_run_id ri) g0 in
      if is_circuit_open sv check_now (ri_failed_effect_class ri) g then
        (Inr ((decision (ri_run_id ri) ''abort'' (ri_reason_code ri @ '':circuit_open''))\<lparr>rd_failure_count := failure_count\<rparr>),
         emit_hook (On_recovery_triggered (ri_run_id ri) (ri_reason_code ri) ''abort'') g, w)
      else (case build_plan_from_input (gv_planner sv) ri of
          Inl e \<Rightarrow> (Inl (Planner_raised e), g, w)
        | Inr plan \<Rightarrow> (case get_mode (gv_modes sv) (pl_action plan) of
              None \<Rightarrow> (Inl (Unsupported_plan_action (pl_action plan)), g, w)
            | Some mode \<Rightarrow> (case check_compensation sv exec ri plan mode w of
                  (eff, w') \<Rightarrow> (case conclude sv record_now ri failure_count eff g of
                      (res, g') \<Rightarrow> (res, g', w'))))))"

end
