(* ===== verification/Recovery_Gate_Theorems.thy ===== *)
theory Recovery_Gate_Theorems
  imports Recovery_Gate
begin

text \<open>
  What the recovery gate guarantees: the circuit of the gate implements \<open>failure_store\<close> whichever store is behind it, requests
  rejected by an open circuit leave it alone, failure counts and backoff follow the history of a run,
  decisions are well formed, and the gate behaves the same on the table and on its dictionaries.
\<close>

section \<open>The circuit of the gate\<close>

definition gate_ok :: "gate_state \<Rightarrow> bool" where
  "gate_ok g = (case gs_circuit_store g of None \<Rightarrow> True | Some rows \<Rightarrow> unique_key br_effect_class rows)"

interpretation gate: failure_store gate_circuit_state gate_circuit_record on_action_success gate_ok
proof
  fix g t c c' assume ok: "gate_ok g"
  show "gate_ok (snd (gate_circuit_record t c g))"
    using ok breaker_db.record_ok [of _ t c] by (fastforce simp: gate_ok_def gate_circuit_record_def split: option.splits prod.splits)
  show "gate_ok (on_action_success c g)"
    using ok breaker_db.reset_ok by (auto simp: gate_ok_def on_action_success_def split: option.splits)
  show "fst (gate_circuit_record t c g) = Some (fst (gate_circuit_state c g) + 1)"
    using ok breaker_db.record_reply [of _ t c] breaker_mem.record_reply [where s = "gs_circuit g" and t = t and c = c]
    by (fastforce simp: gate_ok_def gate_circuit_record_def gate_circuit_state_def split: option.splits prod.splits)
  show "gate_circuit_state c' (snd (gate_circuit_record t c g)) = circuit_after c' (Failure_at t c) (gate_circuit_state c' g)"
    using ok breaker_db.record_state [of _ c' t c] breaker_mem.record_state [where s = "gs_circuit g" and t = t and c = c and c' = c']
    by (fastforce simp: gate_ok_def gate_circuit_record_def gate_circuit_state_def split: option.splits prod.splits)
  show "gate_circuit_state c' (on_action_success c g) = circuit_after c' (Success_of c) (gate_circuit_state c' g)"
    using ok breaker_db.reset_state [of _ c' c] breaker_mem.reset_state [where s = "gs_circuit g" and c = c and c' = c']
    by (auto simp: gate_ok_def on_action_success_def gate_circuit_state_def split: option.splits)
qed

lemma is_open_eq:
  "gv_circuit_breaker_policy sv = Some p \<Longrightarrow> is_circuit_open sv t (Some c) g = open_state p t (gate_circuit_state c g)"
  by (auto simp: is_circuit_open_def open_state_def split: prod.splits)

text \<open>What leaves the circuit alone.\<close>

lemma emit_hook_frame [simp]:
  "gate_circuit_state c (emit_hook e g) = gate_circuit_state c g" "gate_ok (emit_hook e g) = gate_ok g"
  "gs_failure_counts (emit_hook e g) = gs_failure_counts g"
  by (simp_all add: emit_hook_def gate_circuit_state_def gate_ok_def split: option.splits)

lemma count_failure_frame [simp]:
  "gate_circuit_state c (snd (count_failure r g)) = gate_circuit_state c g" "gate_ok (snd (count_failure r g)) = gate_ok g"
  "gs_hook (snd (count_failure r g)) = gs_hook g"
  by (simp_all add: count_failure_def gate_circuit_state_def gate_ok_def Let_def split: option.splits)

lemma circuit_frame [simp]:
  "gs_failure_counts (snd (gate_circuit_record t c g)) = gs_failure_counts g"
  "gs_hook (snd (gate_circuit_record t c g)) = gs_hook g"
  "gs_failure_counts (on_action_success c g) = gs_failure_counts g" "gs_hook (on_action_success c g) = gs_hook g"
  by (simp_all add: gate_circuit_record_def on_action_success_def split: option.splits prod.splits)

lemma is_open_count [simp]: "is_circuit_open sv t c (snd (count_failure r g)) = is_circuit_open sv t c g"
  by (simp add: is_circuit_open_def split: option.splits)

lemma record_circuit_eq:
  "record_circuit_failure sv t None r g = g"
  "gv_circuit_breaker_policy sv = None \<Longrightarrow> record_circuit_failure sv t c r g = g"
  "gv_circuit_breaker_policy sv = Some p \<Longrightarrow> record_circuit_failure sv t (Some d) r g =
     (case fst (gate_circuit_record t d g) of None \<Rightarrow> snd (gate_circuit_record t d g)
      | Some k \<Rightarrow> emit_hook (On_circuit_breaker_trip r d k (cp_threshold p \<le> k)) (snd (gate_circuit_record t d g)))"
  by (auto simp: record_circuit_failure_def split: option.splits prod.splits)

lemma record_circuit_frame:
  "gs_failure_counts (record_circuit_failure sv t c r g) = gs_failure_counts g"
  "gate_ok g \<Longrightarrow> gate_ok (record_circuit_failure sv t c r g)"
  "gate_ok g \<Longrightarrow> c \<noteq> Some c' \<Longrightarrow> gate_circuit_state c' (record_circuit_failure sv t c r g) = gate_circuit_state c' g"
  by (cases c; cases "gv_circuit_breaker_policy sv";
      auto simp: record_circuit_eq gate.record_ok gate.record_state split: option.splits)+

lemma reflect_frame:
  assumes "decide_reflect_and_retry sv p ri reason g = (res, g')"
  shows "gate_circuit_state c g' = gate_circuit_state c g" "gate_ok g' = gate_ok g" "gs_failure_counts g' = gs_failure_counts g"
  using assms by (auto simp: decide_reflect_and_retry_def Let_def split: option.splits sum.splits list.splits)

lemma conclude_frame:
  assumes "conclude sv t ri n eff g = (res, g')" "gate_ok g"
  shows "gate_ok g' \<and> gs_failure_counts g' = gs_failure_counts g \<and>
    (\<forall>c. ri_failed_effect_class ri \<noteq> Some c \<longrightarrow> gate_circuit_state c g' = gate_circuit_state c g)"
  using assms
  by (auto simp: conclude_def Let_def record_circuit_frame reflect_frame split: prod.splits option.splits sum.splits if_splits)

section \<open>One decision\<close>

lemma decide_cases:
  assumes "decide_recovery sv exec t t' ri (g, w) = (res, g', w')"
  obtains (rejected) "is_circuit_open sv t (ri_failed_effect_class ri) g"
      "res = Inr ((decision (ri_run_id ri) ''abort'' (ri_reason_code ri @ '':circuit_open''))\<lparr>rd_failure_count := fst (count_failure (ri_run_id ri) g)\<rparr>)"
      "g' = emit_hook (On_recovery_triggered (ri_run_id ri) (ri_reason_code ri) ''abort'') (snd (count_failure (ri_run_id ri) g))" "w' = w"
  | (raised) "\<not> is_circuit_open sv t (ri_failed_effect_class ri) g" "\<exists>e. res = Inl e" "g' = snd (count_failure (ri_run_id ri) g)" "w' = w"
  | (planned) plan mode eff where "\<not> is_circuit_open sv t (ri_failed_effect_class ri) g"
      "build_plan_from_input (gv_planner sv) ri = Inr plan" "get_mode (gv_modes sv) (pl_action plan) = Some mode"
      "check_compensation sv exec ri plan mode w = (eff, w')"
      "conclude sv t' ri (fst (count_failure (ri_run_id ri) g)) eff (snd (count_failure (ri_run_id ri) g)) = (res, g')"
proof -
  obtain n g1 where c: "count_failure (ri_run_id ri) g = (n, g1)" by (cases "count_failure (ri_run_id ri) g")
  have o: "is_circuit_open sv t x g1 = is_circuit_open sv t x g" for x using is_open_count [of sv t x "ri_run_id ri" g] c by simp
  note d = assms [unfolded decide_recovery_def Let_def case_prod_conv c]
  show thesis
  proof (cases "is_circuit_open sv t (ri_failed_effect_class ri) g")
    case True
    with d show ?thesis by (intro rejected) (auto simp: o c)
  next
    case False
    note d' = d [unfolded o if_not_P [OF False]]
    show ?thesis
    proof (cases "build_plan_from_input (gv_planner sv) ri")
      case (Inl e)
      with d' False show ?thesis by (intro raised) (auto simp: c)
    next
      case (Inr plan)
      show ?thesis
      proof (cases "get_mode (gv_modes sv) (pl_action plan)")
        case None
        with d' False Inr show ?thesis by (intro raised) (auto simp: c)
      next
        case (Some mode)
        obtain eff w1 where e: "check_compensation sv exec ri plan mode w = (eff, w1)" by (cases "check_compensation sv exec ri plan mode w")
        with d' False Inr Some show ?thesis by (intro planned [of plan mode eff]) (auto simp: c split: prod.splits)
      qed
    qed
  qed
qed

lemma decide_frame:
  assumes "decide_recovery sv exec t t' ri (g, w) = (res, g', w')" "gate_ok g"
  shows "gate_ok g' \<and> gs_failure_counts g' = gs_failure_counts (snd (count_failure (ri_run_id ri) g)) \<and>
    (\<forall>c. ri_failed_effect_class ri \<noteq> Some c \<longrightarrow> gate_circuit_state c g' = gate_circuit_state c g)"
  using assms(1)
proof (cases rule: decide_cases)
  case (planned plan mode eff)
  from conclude_frame [OF planned(5)] assms(2) show ?thesis by simp
qed (simp_all add: assms(2))

section \<open>Histories of the gate\<close>

datatype gate_call = Decide_call real real recovery_input | Success_call string

fun gate_exec ::
  "'i gate_services \<Rightarrow> (dedupe_op \<Rightarrow> 's \<Rightarrow> dedupe_reply \<times> 's) \<Rightarrow> gate_call \<Rightarrow> gate_state \<times> 's compensation_world \<Rightarrow>
   (gate_error + kernel_recovery_decision) option \<times> gate_state \<times> 's compensation_world" where
  "gate_exec sv exec (Decide_call t t' ri) st = apfst Some (decide_recovery sv exec t t' ri st)"
| "gate_exec sv exec (Success_call c) st = (None, on_action_success c (fst st), snd st)"

lemma gate_exec_ok: "gate_ok (fst st) \<Longrightarrow> gate_ok (fst (snd (gate_exec sv exec call st)))"
proof (cases call)
  case (Decide_call t t' ri)
  assume ok: "gate_ok (fst st)"
  obtain g w res g' w' where "st = (g, w)" and d: "decide_recovery sv exec t t' ri (g, w) = (res, g', w')"
    by (metis prod.exhaust)
  with decide_frame [OF d] ok Decide_call show ?thesis by simp
qed (simp add: gate.reset_ok)

subsection \<open>A tripped circuit\<close>

text \<open>A call that leaves the circuit of \<open>c\<close> open: a decision for another class, or one that comes before the cooldown is over.\<close>

definition during_cooldown :: "circuit_breaker_policy \<Rightarrow> string \<Rightarrow> real \<Rightarrow> gate_call \<Rightarrow> bool" where
  "during_cooldown p c since call = (case call of
     Decide_call t t' ri \<Rightarrow> ri_failed_effect_class ri = Some c \<longrightarrow> (t - since) * 1000 < real_of_int (cp_half_open_after_ms p)
   | Success_call d \<Rightarrow> d \<noteq> c)"

definition rejected_call :: "string \<Rightarrow> gate_call \<Rightarrow> (gate_error + kernel_recovery_decision) option \<Rightarrow> bool" where
  "rejected_call c call r = (case call of
     Decide_call t t' ri \<Rightarrow> ri_failed_effect_class ri = Some c \<longrightarrow>
       (\<exists>d. r = Some (Inr d) \<and> rd_mode d = ''abort'' \<and> rd_reason d = ri_reason_code ri @ '':circuit_open'')
   | Success_call d \<Rightarrow> True)"

lemma tripped_step:
  assumes "gate_ok (fst st)" "gv_circuit_breaker_policy sv = Some p" "cp_threshold p \<le> fst (gate_circuit_state c (fst st))"
    "during_cooldown p c (snd (gate_circuit_state c (fst st))) call"
  shows "gate_circuit_state c (fst (snd (gate_exec sv exec call st))) = gate_circuit_state c (fst st) \<and>
    rejected_call c call (fst (gate_exec sv exec call st))"
proof (cases call)
  case (Success_call d)
  then show ?thesis using assms by (auto simp: during_cooldown_def rejected_call_def gate.reset_state)
next
  case (Decide_call t t' ri)
  obtain g w res g' w' where st: "st = (g, w)" and d: "decide_recovery sv exec t t' ri (g, w) = (res, g', w')"
    by (metis prod.exhaust)
  show ?thesis
  proof (cases "ri_failed_effect_class ri = Some c")
    case False
    then show ?thesis using decide_frame [OF d] assms(1) d st Decide_call by (auto simp: rejected_call_def)
  next
    case True
    then have "is_circuit_open sv t (ri_failed_effect_class ri) g"
      using assms(2-4) st Decide_call by (simp add: is_open_eq open_state_def during_cooldown_def)
    with d st Decide_call True show ?thesis
      by (cases rule: decide_cases [OF d]) (auto simp: rejected_call_def decision_def)
  qed
qed

lemma tripped_history:
  assumes "gate_ok (fst st)" "gv_circuit_breaker_policy sv = Some p" "cp_threshold p \<le> fst (gate_circuit_state c (fst st))"
    "list_all (during_cooldown p c (snd (gate_circuit_state c (fst st)))) calls"
  shows "gate_circuit_state c (fst (final (gate_exec sv exec) calls st)) = gate_circuit_state c (fst st) \<and>
    list_all2 (rejected_call c) calls (replies (gate_exec sv exec) calls st)"
  using assms
proof (induction calls arbitrary: st)
  case (Cons call calls)
  let ?st = "snd (gate_exec sv exec call st)"
  have s: "gate_circuit_state c (fst ?st) = gate_circuit_state c (fst st)" "rejected_call c call (fst (gate_exec sv exec call st))"
    using tripped_step [of st sv p c call exec] Cons.prems by auto
  with Cons.IH [of ?st] Cons.prems gate_exec_ok [of st sv exec call] show ?case by simp
qed simp

subsection \<open>Counts and delays\<close>

definition failures_of :: "string \<Rightarrow> gate_state \<Rightarrow> int" where
  "failures_of r g = (case map_of (gs_failure_counts g) r of None \<Rightarrow> 0 | Some n \<Rightarrow> n)"

lemma count_failure_eq:
  "fst (count_failure r g) = failures_of r g + 1"
  "failures_of r' (snd (count_failure r g)) = failures_of r' g + (if r' = r then 1 else 0)"
  by (simp_all add: count_failure_def failures_of_def Let_def)

text \<open>The delay a decision of a mode carries after \<open>k\<close> earlier failures of its run.\<close>

definition backoff :: "string \<Rightarrow> nat \<Rightarrow> int option" where
  "backoff mode k = (if mode \<in> {''static_compensation'', ''reflect_and_retry''} then Some (min 30000 (500 * 2 ^ k)) else None)"

lemma powi_floor: "0 \<le> e \<Longrightarrow> \<lfloor>500 * 2 powi e :: real\<rfloor> = 500 * 2 ^ nat e"
proof -
  assume "0 \<le> e"
  then have "(500 * 2 powi e :: real) = of_int (500 * 2 ^ nat e)" by (simp add: power_int_def)
  then show ?thesis by (simp only: floor_of_int)
qed

lemma capped_delay: "min \<lfloor>500 * 2 powi (min (int k) 16) :: real\<rfloor> 30000 = min 30000 (500 * 2 ^ k)"
proof -
  have "\<lfloor>500 * 2 powi (min (int k) 16) :: real\<rfloor> = 500 * 2 ^ min k 16" by (subst powi_floor) (auto simp: min_def)
  moreover have "min (500 * 2 ^ min k 16) 30000 = min 30000 (500 * 2 ^ k :: int)"
  proof (cases "k \<le> 16")
    case False
    then have "(2::int) ^ 16 \<le> 2 ^ k" by (intro power_increasing) auto
    with False show ?thesis by (simp add: min_def)
  qed (simp add: min.commute)
  ultimately show ?thesis by simp
qed

lemma retry_after_backoff: "compute_retry_after_ms mode (int k + 1) = backoff mode k"
  unfolding compute_retry_after_ms_def backoff_def RETRYABLE_MODES_def Let_def
  by (simp only: add_diff_cancel_right' capped_delay) simp

definition dated :: "int \<Rightarrow> kernel_recovery_decision \<Rightarrow> bool" where
  "dated n d = (rd_failure_count d = n \<and> rd_retry_after_ms d = compute_retry_after_ms (rd_mode d) n)"

lemma conclude_dated: "conclude sv t ri n eff g = (Inr d, g') \<Longrightarrow> dated n d"
  by (auto simp: conclude_def dated_def attach_backoff_def Let_def split: prod.splits option.splits sum.splits if_splits)

lemma decide_dated:
  assumes "decide_recovery sv exec t t' ri (g, w) = (Inr d, g', w')"
  shows "dated (failures_of (ri_run_id ri) g + 1) d"
  using assms
proof (cases rule: decide_cases)
  case rejected
  then show ?thesis by (simp add: dated_def decision_def compute_retry_after_ms_def RETRYABLE_MODES_def count_failure_eq)
next
  case (planned plan mode eff)
  then show ?thesis using conclude_dated [OF planned(5)] by (simp add: count_failure_eq)
qed auto

definition decides_run :: "string \<Rightarrow> gate_call \<Rightarrow> bool" where
  "decides_run r call = (case call of Decide_call t t' ri \<Rightarrow> ri_run_id ri = r | Success_call c \<Rightarrow> False)"

lemma gate_exec_counts:
  assumes "gate_ok (fst st)"
  shows "failures_of r (fst (snd (gate_exec sv exec call st))) = failures_of r (fst st) + (if decides_run r call then 1 else 0)"
proof (cases call)
  case (Decide_call t t' ri)
  obtain g w res g' w' where "st = (g, w)" and d: "decide_recovery sv exec t t' ri (g, w) = (res, g', w')"
    by (metis prod.exhaust)
  moreover have "gs_failure_counts g' = gs_failure_counts (snd (count_failure (ri_run_id ri) g))"
    using decide_frame [OF d] assms \<open>st = (g, w)\<close> by simp
  then have "failures_of r g' = failures_of r (snd (count_failure (ri_run_id ri) g))" by (simp add: failures_of_def)
  ultimately show ?thesis using Decide_call by (simp add: decides_run_def count_failure_eq)
qed (simp add: decides_run_def failures_of_def)

lemma history_counts:
  "gate_ok (fst st) \<Longrightarrow> failures_of r (fst (final (gate_exec sv exec) calls st)) =
     failures_of r (fst st) + int (length (filter (decides_run r) calls))"
  by (induction calls arbitrary: st) (auto simp: gate_exec_counts gate_exec_ok)

lemma final_ok: "gate_ok (fst st) \<Longrightarrow> gate_ok (fst (final (gate_exec sv exec) calls st))"
  by (induction calls arbitrary: st) (auto simp: gate_exec_ok)

lemma nth_replies: "i < length ops \<Longrightarrow> replies exec ops s ! i = fst (exec (ops ! i) (final exec (take i ops) s))"
proof (induction ops arbitrary: i s)
  case (Cons op ops)
  then show ?case by (cases i) simp_all
qed simp

subsection \<open>The shape of a decision\<close>

definition well_formed_decision :: "kernel_recovery_decision \<Rightarrow> bool" where
  "well_formed_decision d =
     (rd_mode d \<in> {''static_compensation'', ''human_escalation'', ''abort'', ''reflect_and_retry''} \<and>
      (rd_corrected_action d \<noteq> None \<longleftrightarrow> rd_mode d = ''reflect_and_retry'') \<and>
      (rd_retry_after_ms d \<noteq> None \<longleftrightarrow> rd_mode d \<in> {''static_compensation'', ''reflect_and_retry''}) \<and>
      (rd_compensation_action_id d \<noteq> None \<longrightarrow> rd_mode d = ''static_compensation'') \<and>
      (rd_escalation_channel_ref d \<noteq> None \<longrightarrow> rd_mode d = ''human_escalation''))"

definition effective_ok :: "string \<times> string \<times> string option \<times> string option \<Rightarrow> bool" where
  "effective_ok eff = (let (mode, reason, comp, esc) = eff in
     mode \<in> {''static_compensation'', ''human_escalation'', ''abort''} \<and> (comp \<noteq> None \<longrightarrow> mode = ''static_compensation'') \<and>
     (esc \<noteq> None \<longrightarrow> mode = ''human_escalation''))"

lemma builtin_mode:
  assumes "KERNEL_RECOVERY_MODE_REGISTRY = Inr modes" "get_mode modes a = Some m"
  shows "(a = ''schedule_compensation'' \<and> m = ''static_compensation'') \<or> (a = ''notify_human_operator'' \<and> m = ''human_escalation'') \<or>
    (a = ''abort_run'' \<and> m = ''abort'')"
  using assms by (auto simp: builtin_registry BUILTIN_MAPPINGS_def get_mode_def split: if_splits)

lemma plan_fields:
  assumes "build_plan_from_input p ri = Inr plan"
  shows "(pl_compensation_action_id plan \<noteq> None \<longrightarrow> pl_action plan = ''schedule_compensation'') \<and>
    (pl_escalation_channel_ref plan \<noteq> None \<longrightarrow> pl_action plan = ''notify_human_operator'') \<and> ri_run_id ri = pj_run_id (ri_projection ri)"
  using assms by (auto simp: build_plan_from_input_def Let_def split: if_splits option.splits recovery_mode.splits)

lemma check_shape:
  assumes "check_compensation sv exec ri plan mode w = (eff, w')"
  shows "eff = (mode, pl_reason plan, pl_compensation_action_id plan, pl_escalation_channel_ref plan) \<or>
    (mode = ''static_compensation'' \<and> (eff = (''abort'', pl_reason plan @ '':no_compensation_handler'', None, None) \<or>
       eff = (''human_escalation'', pl_reason plan @ '':compensation_exhausted'', None, pl_escalation_channel_ref plan)))"
  using assms unfolding check_compensation_def Let_def by (auto split: option.splits if_splits prod.splits sum.splits)

lemma check_effective:
  assumes "KERNEL_RECOVERY_MODE_REGISTRY = Inr modes" "build_plan_from_input p ri = Inr plan"
    "get_mode modes (pl_action plan) = Some mode" "check_compensation sv exec ri plan mode w = (eff, w')"
  shows "effective_ok eff"
  using check_shape [OF assms(4)] builtin_mode [OF assms(1,3)] plan_fields [OF assms(2)]
  by (elim disjE conjE) (simp_all add: effective_ok_def)

lemma reflect_shape:
  assumes "decide_reflect_and_retry sv p ri reason g = (Inr d, g')"
  shows "\<exists>m why x. d = (decision (ri_run_id ri) m why)\<lparr>rd_corrected_action := x\<rparr> \<and>
    (m = ''reflect_and_retry'' \<and> x \<noteq> None \<or> m = ''human_escalation'' \<and> x = None \<or> m = ''abort'' \<and> x = None)"
proof -
  have "fallback_decision p ri reason = (decision (ri_run_id ri) m why)\<lparr>rd_corrected_action := None\<rparr>"
    if "m = (if rp_escalate_on_exhaustion p then ''human_escalation'' else ''abort'')"
      "why = reason @ (if rp_escalate_on_exhaustion p then '':reflect_exhausted:escalated'' else '':reflect_exhausted:aborted'')" for m why
    using that by (simp add: fallback_decision_def decision_def)
  then have f: "\<exists>m why. fallback_decision p ri reason = (decision (ri_run_id ri) m why)\<lparr>rd_corrected_action := None\<rparr> \<and>
      (m = ''human_escalation'' \<or> m = ''abort'')" by (metis (full_types))
  have "d = fallback_decision p ri reason \<or>
      (\<exists>why a. d = (decision (ri_run_id ri) ''reflect_and_retry'' why)\<lparr>rd_corrected_action := Some a\<rparr>)"
    using assms unfolding decide_reflect_and_retry_def Let_def
    by (auto split: option.splits sum.splits list.splits)
  with f show ?thesis by blast
qed

lemma retry_modes:
  "(\<exists>ms. compute_retry_after_ms m n = Some ms) \<longleftrightarrow> m \<in> {''static_compensation'', ''reflect_and_retry''}"
  "compute_retry_after_ms m n = None \<longleftrightarrow> m \<notin> {''static_compensation'', ''reflect_and_retry''}"
  by (simp_all add: compute_retry_after_ms_def RETRYABLE_MODES_def Let_def)

lemma conclude_well_formed:
  assumes "conclude sv t ri n eff g = (Inr d, g')" "effective_ok eff"
  shows "well_formed_decision d"
proof -
  obtain mode reason comp esc where eff: "eff = (mode, reason, comp, esc)" by (cases eff)
  show ?thesis
  proof (cases "should_reflect sv ri mode")
    case True
    then obtain p where p: "gv_reflection_policy sv = Some p" by (auto simp: should_reflect_def split: option.splits)
    obtain d0 g0 where d0: "decide_reflect_and_retry sv p ri reason g = (Inr d0, g0)" "d = attach_backoff d0 n"
      using assms(1) True p eff by (auto simp: conclude_def Let_def split: prod.splits sum.splits)
    from reflect_shape [OF d0(1)] d0(2) show ?thesis
      by (elim exE conjE disjE) (simp_all add: well_formed_decision_def attach_backoff_def decision_def retry_modes)
  next
    case False
    then have d: "d = \<lparr>rd_run_id = ri_run_id ri, rd_mode = mode, rd_reason = reason, rd_compensation_action_id = comp,
        rd_escalation_channel_ref = esc, rd_corrected_action = None,
        rd_retry_after_ms = compute_retry_after_ms mode n, rd_failure_count = n\<rparr>"
      using assms(1) eff by (simp add: conclude_def Let_def)
    from assms(2) eff have "mode = ''static_compensation'' \<and> esc = None \<or> mode = ''human_escalation'' \<and> comp = None \<or>
        mode = ''abort'' \<and> comp = None \<and> esc = None" by (auto simp: effective_ok_def)
    then show ?thesis unfolding d by (elim disjE conjE) (simp_all add: well_formed_decision_def retry_modes)
  qed
qed

section \<open>Two gates\<close>

text \<open>Two gates look alike when their counts, their circuits and what their hooks were told agree.\<close>

definition alike :: "gate_state \<Rightarrow> gate_state \<Rightarrow> bool" where
  "alike g h = (gate_ok g \<and> gate_ok h \<and> gs_failure_counts g = gs_failure_counts h \<and> gs_hook g = gs_hook h \<and>
     (\<forall>c. gate_circuit_state c g = gate_circuit_state c h))"

lemma alike_emit: "alike g h \<Longrightarrow> alike (emit_hook e g) (emit_hook e h)"
  by (auto simp: alike_def) (simp add: emit_hook_def)

lemma alike_count:
  "alike g h \<Longrightarrow> fst (count_failure r g) = fst (count_failure r h)"
  "alike g h \<Longrightarrow> alike (snd (count_failure r g)) (snd (count_failure r h))"
  by (auto simp: alike_def) (simp_all add: count_failure_def Let_def)

lemma alike_open: "alike g h \<Longrightarrow> is_circuit_open sv t c g = is_circuit_open sv t c h"
  by (simp add: is_circuit_open_def alike_def split: option.splits)

lemma alike_record: "alike g h \<Longrightarrow> alike (record_circuit_failure sv t c r g) (record_circuit_failure sv t c r h)"
proof -
  assume a: "alike g h"
  have "alike (snd (gate_circuit_record t d g)) (snd (gate_circuit_record t d h))" for d
    using a by (simp add: alike_def gate.record_ok gate.record_state)
  moreover have "fst (gate_circuit_record t d g) = fst (gate_circuit_record t d h)" for d
    using a by (simp add: alike_def gate.record_reply)
  ultimately show ?thesis using a
    by (cases c; cases "gv_circuit_breaker_policy sv") (auto simp: record_circuit_eq intro!: alike_emit split: option.splits)
qed

lemma alike_reset: "alike g h \<Longrightarrow> alike (on_action_success c g) (on_action_success c h)"
  by (simp add: alike_def gate.reset_ok gate.reset_state)

lemma alike_reflect:
  "alike g h \<Longrightarrow> fst (decide_reflect_and_retry sv p ri reason g) = fst (decide_reflect_and_retry sv p ri reason h) \<and>
     alike (snd (decide_reflect_and_retry sv p ri reason g)) (snd (decide_reflect_and_retry sv p ri reason h))"
  by (auto simp: decide_reflect_and_retry_def Let_def intro: alike_emit split: option.splits sum.splits list.splits)

lemma alike_conclude:
  assumes "alike g h"
  shows "fst (conclude sv t ri n eff g) = fst (conclude sv t ri n eff h) \<and> alike (snd (conclude sv t ri n eff g)) (snd (conclude sv t ri n eff h))"
proof -
  obtain mode reason comp esc where eff: "eff = (mode, reason, comp, esc)" by (cases eff)
  show ?thesis
  proof (cases "should_reflect sv ri mode")
    case True
    then obtain p where p: "gv_reflection_policy sv = Some p" by (auto simp: should_reflect_def split: option.splits)
    from alike_reflect [OF assms, of sv p ri reason] True p eff show ?thesis
      by (auto simp: conclude_def Let_def intro: alike_emit split: prod.splits sum.splits)
  next
    case False
    then show ?thesis using alike_record [OF assms] eff by (auto simp: conclude_def Let_def intro!: alike_emit)
  qed
qed

lemma alike_decide:
  assumes "alike g h"
  shows "fst (decide_recovery sv exec t t' ri (g, w)) = fst (decide_recovery sv exec t t' ri (h, w)) \<and>
    alike (fst (snd (decide_recovery sv exec t t' ri (g, w)))) (fst (snd (decide_recovery sv exec t t' ri (h, w)))) \<and>
    snd (snd (decide_recovery sv exec t t' ri (g, w))) = snd (snd (decide_recovery sv exec t t' ri (h, w)))"
proof -
  obtain n g1 where g1: "count_failure (ri_run_id ri) g = (n, g1)" by (cases "count_failure (ri_run_id ri) g")
  with alike_count [OF assms, of "ri_run_id ri"] obtain h1 where h1: "count_failure (ri_run_id ri) h = (n, h1)" "alike g1 h1"
    by (cases "count_failure (ri_run_id ri) h") auto
  note o = alike_open [OF h1(2), of sv t "ri_failed_effect_class ri"]
  show ?thesis
  proof (cases "is_circuit_open sv t (ri_failed_effect_class ri) h1 \<or>
      (\<forall>plan mode. build_plan_from_input (gv_planner sv) ri = Inr plan \<longrightarrow> get_mode (gv_modes sv) (pl_action plan) \<noteq> Some mode)")
    case True
    then show ?thesis using g1 h1 o alike_emit [OF h1(2)]
      by (cases "build_plan_from_input (gv_planner sv) ri") (auto simp: decide_recovery_def split: option.splits)
  next
    case False
    then obtain plan mode where pm: "build_plan_from_input (gv_planner sv) ri = Inr plan" "get_mode (gv_modes sv) (pl_action plan) = Some mode"
      by blast
    obtain eff w' where e: "check_compensation sv exec ri plan mode w = (eff, w')" by (cases "check_compensation sv exec ri plan mode w")
    from alike_conclude [OF h1(2), of sv t' ri n eff] False g1 h1 o pm e show ?thesis
      by (auto simp: decide_recovery_def split: prod.splits)
  qed
qed

lemma alike_exec:
  "alike (fst s) (fst s') \<Longrightarrow> snd s = snd s' \<Longrightarrow> fst (gate_exec sv exec call s) = fst (gate_exec sv exec call s') \<and>
     alike (fst (snd (gate_exec sv exec call s))) (fst (snd (gate_exec sv exec call s'))) \<and>
     snd (snd (gate_exec sv exec call s)) = snd (snd (gate_exec sv exec call s'))"
  by (cases call; cases s; cases s') (simp_all add: alike_decide alike_reset)

lemma alike_history:
  "alike (fst s) (fst s') \<Longrightarrow> snd s = snd s' \<Longrightarrow> replies (gate_exec sv exec) calls s = replies (gate_exec sv exec) calls s' \<and>
     alike (fst (final (gate_exec sv exec) calls s)) (fst (final (gate_exec sv exec) calls s'))"
proof (induction calls arbitrary: s s')
  case (Cons call calls)
  from alike_exec [OF Cons.prems, of sv exec call] Cons.IH show ?case by simp
qed simp

section \<open>Properties\<close>

definition new_gate :: "breaker_row list option \<Rightarrow> hook_event list option \<Rightarrow> gate_state" where
  "new_gate store hook = \<lparr>gs_failure_counts = [], gs_circuit = \<lparr>mc_failures = [], mc_last_failure_mono = []\<rparr>,
     gs_circuit_store = store, gs_hook = hook\<rparr>"

text \<open>A tripped circuit recovers on time however much traffic it rejects: while its cooldown lasts, every decision for
  its effect class is an abort that says the circuit is open, and after any number of those, with any
  decisions and successes for other classes in between, its count and the time of its last failure are
  what they were, so it lets a request through as soon as the cooldown since that failure is over.\<close>

lemma rejections_do_not_prolong_cooldown:
  assumes "gate_ok g" "gv_circuit_breaker_policy sv = Some p" "gate_circuit_state c g = (n, since)" "cp_threshold p \<le> n"
    and "list_all (during_cooldown p c since) calls"
  shows "list_all2 (rejected_call c) calls (replies (gate_exec sv exec) calls (g, w)) \<and>
    gate_circuit_state c (fst (final (gate_exec sv exec) calls (g, w))) = (n, since) \<and>
    (\<forall>t. is_circuit_open sv t (Some c) (fst (final (gate_exec sv exec) calls (g, w))) \<longleftrightarrow>
       (t - since) * 1000 < real_of_int (cp_half_open_after_ms p))"
  using tripped_history [of "(g, w)" sv p c calls exec] assms by (auto simp: is_open_eq open_state_def)

text \<open>Failure counts and delays follow the history of the run: on a new gate, a decision made after \<open>k\<close> earlier failures of its
  run, whatever other runs and effect classes did, carries the count \<open>k + 1\<close>; it carries a delay exactly when its
  mode is retried, and the delay is 500 ms doubled \<open>k\<close> times and at most 30 s.\<close>

lemma backoff_follows_history:
  assumes "i < length calls" "calls ! i = Decide_call t t' ri" "gate_ok (new_gate store hook)"
    and "replies (gate_exec sv exec) calls (new_gate store hook, w) ! i = Some (Inr d)"
    and "k = length (filter (decides_run (ri_run_id ri)) (take i calls))"
  shows "rd_failure_count d = int k + 1 \<and> rd_retry_after_ms d = backoff (rd_mode d) k"
proof -
  let ?st = "(new_gate store hook, w)" and ?r = "ri_run_id ri"
  let ?mid = "final (gate_exec sv exec) (take i calls) ?st"
  have ok: "gate_ok (fst ?st)" using assms(3) by simp
  have "replies (gate_exec sv exec) calls ?st ! i = Some (fst (decide_recovery sv exec t t' ri ?mid))"
    using nth_replies [OF assms(1), of "gate_exec sv exec" ?st] assms(2) by simp
  with assms(4) obtain g' w' where "decide_recovery sv exec t t' ri (fst ?mid, snd ?mid) = (Inr d, g', w')"
    by (cases "decide_recovery sv exec t t' ri ?mid") auto
  from decide_dated [OF this] have "dated (failures_of ?r (fst ?mid) + 1) d" .
  moreover have "failures_of ?r (fst ?mid) = int k"
    using history_counts [OF ok, of ?r sv exec "take i calls"] assms(5) by (simp add: failures_of_def new_gate_def)
  ultimately show ?thesis by (simp add: dated_def retry_after_backoff)
qed

text \<open>C38. The decisions of a gate with the built-in mode registry are well typed: a known mode, a corrected action exactly for
  reflect and retry, a delay exactly for the retried modes, a compensation id only with static
  compensation, a channel only with human escalation.\<close>

theorem decisions_are_well_formed:
  assumes "KERNEL_RECOVERY_MODE_REGISTRY = Inr (gv_modes sv)" "fst (decide_recovery sv exec t t' ri (g, w)) = Inr d"
  shows "well_formed_decision d"
proof -
  obtain g' w' where d: "decide_recovery sv exec t t' ri (g, w) = (Inr d, g', w')"
    using assms(2) by (cases "decide_recovery sv exec t t' ri (g, w)") auto
  then show ?thesis
  proof (cases rule: decide_cases)
    case rejected
    then show ?thesis by (simp add: well_formed_decision_def decision_def)
  next
    case (planned plan mode eff)
    then show ?thesis using conclude_well_formed check_effective [OF assms(1)] by blast
  qed simp
qed

text \<open>The gate decides alike with and without the durable store: as long as the process lives and both clocks read the
  same, a new gate over an empty table and a new gate over its own dictionaries give the same answers
  and tell their hooks the same, over every history of decisions and successes.\<close>

lemma gate_store_is_transparent:
  "replies (gate_exec sv exec) calls (new_gate (Some []) hook, w) = replies (gate_exec sv exec) calls (new_gate None hook, w) \<and>
   gs_hook (fst (final (gate_exec sv exec) calls (new_gate (Some []) hook, w))) =
   gs_hook (fst (final (gate_exec sv exec) calls (new_gate None hook, w)))"
proof -
  have "alike (new_gate (Some []) hook) (new_gate None hook)"
    by (simp add: alike_def new_gate_def gate_ok_def gate_circuit_state_def breaker_get_state_def mem_circuit_state_def)
  from alike_history [of "(new_gate (Some []) hook, w)" "(new_gate None hook, w)" sv exec calls] this show ?thesis
    by (simp add: alike_def)
qed

text \<open>The gate never runs a compensation handler for a \<open>RecoveryInput\<close>: the class has no \<open>failing_action\<close>, so whatever
  the registry and the reason, deciding leaves the dispatch ledger and the handlers untouched, and a decision
  for static compensation only announces one.\<close>

lemma gate_never_compensates:
  assumes "ri_failing_action ri = None"
  shows "snd (snd (decide_recovery sv exec t t' ri (g, w))) = w"
proof -
  obtain res g' w' where "decide_recovery sv exec t t' ri (g, w) = (res, g', w')" by (metis prod.exhaust)
  then have "w' = w"
    by (cases rule: decide_cases) (use assms in \<open>auto simp: check_compensation_def Let_def split: option.splits if_splits\<close>)
  with \<open>decide_recovery sv exec t t' ri (g, w) = (res, g', w')\<close> show ?thesis by simp
qed

text \<open>A compensation nobody can run is announced: with a registry in place, no handlers in it, no circuit breaker and no
  reflection, a failure whose reason code is retryable or unknown and has no colon is answered with
  static compensation, although the effect class of the failed action is part of the input.\<close>

lemma handler_check_needs_colon:
  assumes "gv_compensation_registry sv = Some []" "gv_circuit_breaker_policy sv = None" "gv_reflection_policy sv = None"
    and "gv_planner sv = default_heuristics" "KERNEL_RECOVERY_MODE_REGISTRY = Inr (gv_modes sv)"
    and "ri_run_id ri = pj_run_id (ri_projection ri)" "pj_recovery_mode (ri_projection ri) = None"
    and "ri_lifecycle_state ri \<noteq> L_waiting_external" "ri_failed_action_id ri = Some a" "a \<noteq> ''''"
    and "classify_reason default_heuristics (py_lower (py_strip (ri_reason_code ri))) \<in> {Transient_reason, Unknown_reason}"
    and "CHR '':'' \<notin> set (py_lower (ri_reason_code ri))"
  shows "\<exists>d. fst (decide_recovery sv exec t t' ri (g, w)) = Inr d \<and> rd_mode d = ''static_compensation'' \<and>
    rd_compensation_action_id d = Some a"
proof -
  have modes: "gv_modes sv = BUILTIN_MAPPINGS" using assms(5) by (simp add: builtin_registry)
  have "action_for_classification default_heuristics (classify_reason default_heuristics (py_lower (py_strip (ri_reason_code ri)))) =
      ''schedule_compensation''"
    using assms(11) by (auto simp: action_for_classification_def default_heuristics_def)
  then have plan: "build_plan_from_input (gv_planner sv) ri = Inr \<lparr>pl_run_id = ri_run_id ri, pl_action = ''schedule_compensation'',
      pl_reason = hp_reason_prefix default_heuristics @ '':'' @ ri_reason_code ri, pl_compensation_action_id = Some a,
      pl_escalation_channel_ref = None\<rparr>"
    using assms by (simp add: build_plan_from_input_def opt_or_def Let_def)
  have "is_circuit_open sv t (ri_failed_effect_class ri) h = False" for h using assms(2) by (simp add: is_circuit_open_def)
  with plan assms(1,3,12) modes show ?thesis
    by (auto simp: decide_recovery_def count_failure_def get_mode_def BUILTIN_MAPPINGS_def check_compensation_def
        extract_effect_class_def conclude_def should_reflect_def Let_def)
qed

section \<open>Witnesses\<close>

definition wit_services :: "circuit_breaker_policy option \<Rightarrow> unit gate_services" where
  "wit_services breaker = \<lparr>gv_planner = default_heuristics, gv_modes = BUILTIN_MAPPINGS, gv_compensation_registry = Some [],
     gv_reflection_policy = None, gv_reasoning_loop = None, gv_reflection_builder = False,
     gv_default_inference_config = None, gv_circuit_breaker_policy = breaker, gv_build_snapshot = (\<lambda>i. Inr wit_snapshot)\<rparr>"

definition wit_failure :: recovery_input where
  "wit_failure = \<lparr>ri_run_id = ''r'', ri_reason_code = ''transient_io'', ri_lifecycle_state = L_dispatching,
     ri_projection = \<lparr>pj_run_id = ''r'', pj_lifecycle_state = L_dispatching, pj_projected_offset = 3, pj_waiting_external = False,
       pj_ready_for_dispatch = False, pj_current_action_id = Some ''a'', pj_recovery_mode = None, pj_recovery_reason = None,
       pj_active_child_runs = []\<rparr>,
     ri_failed_action_id = Some ''a'', ri_reflection_round = 0, ri_capability_snapshot = None,
     ri_failed_effect_class = Some ''irreversible_write'', ri_failing_action = None\<rparr>"

abbreviation wit_breaker :: circuit_breaker_policy where
  "wit_breaker \<equiv> \<lparr>cp_threshold = 5, cp_half_open_after_ms = 30000\<rparr>"

abbreviation wit_tripped :: gate_state where
  "wit_tripped \<equiv> new_gate (Some [\<lparr>br_effect_class = ''irreversible_write'', br_failure_count = 5, br_last_failure_ts = 100\<rparr>]) None"

lemma wit_decides:
  "decide_recovery (wit_services None) exec t t' wit_failure (g, w) =
     (Inr \<lparr>rd_run_id = ''r'', rd_mode = ''static_compensation'', rd_reason = ''recovery:transient_io'', rd_compensation_action_id = Some ''a'',
       rd_escalation_channel_ref = None, rd_corrected_action = None,
       rd_retry_after_ms = compute_retry_after_ms ''static_compensation'' (failures_of ''r'' g + 1), rd_failure_count = failures_of ''r'' g + 1\<rparr>,
      emit_hook (On_recovery_triggered ''r'' ''transient_io'' ''static_compensation'') (snd (count_failure ''r'' g)), w)"
  by (simp add: decide_recovery_def wit_services_def wit_failure_def count_failure_def is_circuit_open_def build_plan_from_input_def
      classify_reason_def action_for_classification_def default_heuristics_def has_prefix_def py_startswith_def py_lower_def
      py_lower_char_def py_strip_def is_py_space_def opt_or_def get_mode_def BUILTIN_MAPPINGS_def check_compensation_def
      extract_effect_class_def conclude_def should_reflect_def record_circuit_failure_def failures_of_def Let_def)

theorem decisions_are_well_formed_witness:
  "\<exists>d. fst (decide_recovery (wit_services None) mem_exec 1 1 wit_failure (new_gate None None, comp_world mem_init)) = Inr d \<and>
     well_formed_decision d"
proof -
  have "KERNEL_RECOVERY_MODE_REGISTRY = Inr (gv_modes (wit_services None))" by (simp add: wit_services_def builtin_registry)
  from decisions_are_well_formed [OF this, of mem_exec 1 1 wit_failure "new_gate None None" "comp_world mem_init"]
  show ?thesis by (simp add: wit_decides)
qed

end
