(* ===== verification/Workflow_Stores.thy ===== *)
theory Workflow_Stores
  imports Turn_Engine
begin

text \<open>
  The small stores behind the workflow actor, under \<open>agent_kernel/kernel/persistence/\<close> with their in-memory twins in
  \<open>minimal_runtime.py\<close>: the decision fingerprints, the turn intents and the recovery outcomes. The locale
  \<open>decision_deduper\<close> is the protocol the actor relies on; both fingerprint stores interpret it.
\<close>

section \<open>Decision fingerprints\<close>

definition mem_seen :: "string \<Rightarrow> string list \<Rightarrow> bool" where
  "mem_seen fingerprint s = (fingerprint \<in> set s)"

definition mem_mark :: "string \<Rightarrow> string list \<Rightarrow> string list" where
  "mem_mark fingerprint s = (if fingerprint \<in> set s then s else s @ [fingerprint])"

record fingerprint_row =
  fp_fingerprint :: string
  fp_run_id :: string
  fp_created_at :: real

definition db_seen :: "string \<Rightarrow> fingerprint_row list \<Rightarrow> bool" where
  "db_seen fingerprint rows = (sql_lookup fp_fingerprint fingerprint rows \<noteq> None)"

definition db_mark :: "real \<Rightarrow> string \<Rightarrow> fingerprint_row list \<Rightarrow> fingerprint_row list" where
  "db_mark now fingerprint rows =
     sql_insert_ignore fp_fingerprint \<lparr>fp_fingerprint = fingerprint, fp_run_id = '''', fp_created_at = now\<rparr> rows"

locale decision_deduper =
  fixes seen :: "string \<Rightarrow> 'd \<Rightarrow> bool"
    and mark :: "string \<Rightarrow> 'd \<Rightarrow> 'd"
  assumes seen_mark: "seen f (mark g d) = (f = g \<or> seen f d)"

interpretation mem_deduper: decision_deduper mem_seen mem_mark
  by unfold_locales (auto simp: mem_seen_def mem_mark_def)

interpretation db_deduper: decision_deduper db_seen "db_mark now" for now
  by unfold_locales (auto simp: db_seen_def db_mark_def sql_lookup_insert_ignore split: option.splits)

section \<open>Turn intents\<close>

record turn_intent_record =
  ti_run_id :: string
  ti_intent_commit_ref :: string
  ti_decision_ref :: string
  ti_decision_fingerprint :: string
  ti_dispatch_dedupe_key :: "string option"
  ti_host_kind :: "string option"
  ti_outcome_kind :: string
  ti_written_at :: string
  ti_reflection_round :: int

text \<open>The table: the rowid beside each record, and the largest rowid handed out.\<close>

record intent_log =
  il_rows :: "(int \<times> turn_intent_record) list"
  il_autoincrement :: int

definition intent_log_init :: intent_log where
  "intent_log_init = \<lparr>il_rows = [], il_autoincrement = 0\<rparr>"

definition write_intent :: "turn_intent_record \<Rightarrow> intent_log \<Rightarrow> intent_log" where
  "write_intent intent l =
     (case sql_lookup (ti_intent_commit_ref \<circ> snd) (ti_intent_commit_ref intent) (il_rows l) of
        None \<Rightarrow> l\<lparr>il_rows := il_rows l @ [(il_autoincrement l + 1, intent)], il_autoincrement := il_autoincrement l + 1\<rparr>
      | Some _ \<Rightarrow> l\<lparr>il_rows := sql_update (\<lambda>r. ti_intent_commit_ref (snd r) = ti_intent_commit_ref intent)
            (\<lambda>r. (fst r, intent)) (il_rows l)\<rparr>)"

definition latest_intent_for_run :: "string \<Rightarrow> intent_log \<Rightarrow> turn_intent_record option" where
  "latest_intent_for_run run_id l =
     (case rev (sort_key (\<lambda>r. (ti_written_at (snd r), fst r)) (filter (\<lambda>r. ti_run_id (snd r) = run_id) (il_rows l))) of
        [] \<Rightarrow> None | r # _ \<Rightarrow> Some (snd r))"

section \<open>Recovery outcomes\<close>

record recovery_outcome =
  ro_run_id :: string
  ro_action_id :: "string option"
  ro_recovery_mode :: string
  ro_outcome_state :: string
  ro_written_at :: string
  ro_operator_escalation_ref :: "string option"
  ro_emitted_event_ids :: "string list"

definition mem_write_outcome :: "recovery_outcome \<Rightarrow> (string \<times> recovery_outcome list) list \<Rightarrow> (string \<times> recovery_outcome list) list" where
  "mem_write_outcome outcome s =
     dict_set (ro_run_id outcome) ((case map_of s (ro_run_id outcome) of None \<Rightarrow> [] | Some os \<Rightarrow> os) @ [outcome]) s"

definition mem_latest_outcome :: "string \<Rightarrow> (string \<times> recovery_outcome list) list \<Rightarrow> recovery_outcome option" where
  "mem_latest_outcome run_id s =
     (case map_of s run_id of None \<Rightarrow> None | Some os \<Rightarrow> if os = [] then None else Some (List.last os))"

text \<open>The durable table in rowid order; the ids are stored as JSON text and read back.\<close>

definition db_write_outcome :: "recovery_outcome \<Rightarrow> recovery_outcome list \<Rightarrow> recovery_outcome list" where
  "db_write_outcome outcome rows = rows @ [outcome]"

definition db_latest_outcome :: "string \<Rightarrow> recovery_outcome list \<Rightarrow> recovery_outcome option" where
  "db_latest_outcome run_id rows =
     (case rev (sort_key ro_written_at (filter (\<lambda>r. ro_run_id r = run_id) rows)) of [] \<Rightarrow> None | r # _ \<Rightarrow> Some r)"

section \<open>What the stores answer\<close>

lemma db_outcomes: "fold db_write_outcome os rows = rows @ os"
  by (induction os arbitrary: rows) (simp_all add: db_write_outcome_def)

lemma mem_outcomes:
  "(case map_of (fold mem_write_outcome os s) rid of None \<Rightarrow> [] | Some xs \<Rightarrow> xs) =
   (case map_of s rid of None \<Rightarrow> [] | Some xs \<Rightarrow> xs) @ filter (\<lambda>r. ro_run_id r = rid) os"
  by (induction os arbitrary: s) (simp_all add: mem_write_outcome_def split: option.split)

lemma newest_is_last: "(case rev xs of [] \<Rightarrow> None | r # _ \<Rightarrow> Some r) = (if xs = [] then None else Some (List.last xs))"
  by (cases xs rule: rev_cases) simp_all

text \<open>The two outcome stores answer alike while the timestamps written do not go back.\<close>

lemma outcome_stores_agree:
  assumes "sorted (map ro_written_at (filter (\<lambda>r. ro_run_id r = rid) os))"
  shows "mem_latest_outcome rid (fold mem_write_outcome os []) = db_latest_outcome rid (fold db_write_outcome os [])"
proof -
  let ?xs = "filter (\<lambda>r. ro_run_id r = rid) os"
  have s: "sort_key ro_written_at ?xs = ?xs" using assms by (rule sort_key_id_if_sorted)
  have "db_latest_outcome rid (fold db_write_outcome os []) = (if ?xs = [] then None else Some (List.last ?xs))"
    by (simp add: db_latest_outcome_def db_outcomes s newest_is_last)
  moreover have "mem_latest_outcome rid (fold mem_write_outcome os []) = (if ?xs = [] then None else Some (List.last ?xs))"
    using mem_outcomes [of os "[]" rid] by (auto simp: mem_latest_outcome_def split: option.splits)
  ultimately show ?thesis by simp
qed

text \<open>The commit ref of an intent names the action and the offset but not the run, and it is the table's unique key: when two
  runs use the same action id at the same offset, the second intent takes the row of the first.\<close>

lemma intent_row_is_taken:
  assumes "ti_intent_commit_ref j = ti_intent_commit_ref i" "ti_run_id j \<noteq> ti_run_id i"
  shows "latest_intent_for_run (ti_run_id i) (write_intent j (write_intent i intent_log_init)) = None"
  using assms by (simp add: write_intent_def intent_log_init_def latest_intent_for_run_def sql_lookup_def sql_update_def)

end
