(* ===== verification/Run_Actor.thy ===== *)
theory Run_Actor
  imports Recovery_Gate Workflow_Stores Projection
begin

text \<open>
  The workflow actor that owns a run: \<open>agent_kernel/substrate/temporal/run_actor_workflow.py\<close>. It turns signals into
  authoritative events, catches up the projection, and takes one decision round per commit: a turn, the
  commit that records its outcome, and a recovery decision when the turn did not end well. It composes the
  event log, the projection service, the turn engine with its ledger and admission, the recovery gate
  and the stores of \<open>Workflow_Stores\<close>. Each \<open>raise\<close> is a left value; awaiting is sequential.
\<close>

section \<open>Data\<close>

record actor_signal =
  sg_signal_type :: string
  sg_signal_payload :: "json_dict option"
  sg_caused_by :: "string option"
  sg_signal_token :: "string option"
  sg_from_peer_run_id :: "string option"

record run_policy_versions =
  pv_route_policy_version :: "string option"
  pv_acceptance_policy_version :: "string option"
  pv_memory_policy_version :: "string option"
  pv_skill_policy_version :: "string option"
  pv_evaluation_policy_version :: "string option"
  pv_task_view_policy_version :: "string option"
  pv_pinned_at :: string

record run_input =
  rn_run_id :: string
  rn_session_id :: "string option"
  rn_parent_run_id :: "string option"
  rn_pending_signals :: "actor_signal list"
  rn_policy_versions :: "run_policy_versions option"
  rn_initial_stage_id :: "string option"

text \<open>What unwinds out of the actor. \<open>Continue_as_new\<close> is the exception with which Temporal restarts the workflow.\<close>

datatype 'e actor_error =
    Not_running
  | Projection_missing
  | Diagnostic_input
  | Index_error
  | Projection_raised 'e
  | Turn_raised turn_error
  | Log_raised log_error
  | Gate_raised gate_error
  | Multiple_dispatches
  | Gate_not_read_only
  | Event_type_not_allowed string
  | Continue_as_new run_input

record run_actor =
  ra_run_id :: "string option"
  ra_session_id :: "string option"
  ra_parent_run_id :: "string option"
  ra_policy_versions :: "run_policy_versions option"
  ra_active_stage_id :: "string option"
  ra_last_projection :: "run_projection option"
  ra_last_snapshot :: "snapshot option"
  ra_pending_signals :: "actor_signal list"
  ra_signal_sequence :: int
  ra_seen_signal_tokens :: "string list"
  ra_history_event_count :: int

definition new_actor :: run_actor where
  "new_actor = \<lparr>ra_run_id = None, ra_session_id = None, ra_parent_run_id = None, ra_policy_versions = None,
     ra_active_stage_id = None, ra_last_projection = None, ra_last_snapshot = None, ra_pending_signals = [],
     ra_signal_sequence = 0, ra_seen_signal_tokens = [], ra_history_event_count = 0\<rparr>"

record ('l, 'e, 's, 'a, 'd, 'i) actor_services =
  as_append :: "action_commit \<Rightarrow> 'l \<Rightarrow> (log_error + int) \<times> 'l"
  as_load :: "string \<Rightarrow> int \<Rightarrow> 'l \<Rightarrow> runtime_event list"
  as_turn :: "('s, 'a) turn_env"
  as_gate :: "'i gate_services"
  as_seen :: "string \<Rightarrow> 'd \<Rightarrow> bool"
  as_mark :: "string \<Rightarrow> 'd \<Rightarrow> 'd"
  as_error_name :: "'e actor_error \<Rightarrow> string"
  as_now :: string
  as_check_now :: real
  as_record_now :: real
  as_temporal :: bool
  as_history_event_threshold :: int

record ('l, 'e, 's, 'a, 'd) actor_world =
  aw_log :: 'l
  aw_projections :: "'e projection_service"
  aw_turn :: "('s, 'a) turn_world"
  aw_gate :: gate_state
  aw_deduper :: 'd
  aw_intents :: "intent_log option"
  aw_outcomes :: "recovery_outcome list option"

section \<open>Signals and events\<close>

definition SIGNAL_EVENT_TYPE_MAP :: "(string \<times> string) list" where
  "SIGNAL_EVENT_TYPE_MAP =
     [(''resume_from_snapshot'', ''run.resume_requested''), (''cancel_requested'', ''run.cancel_requested''),
      (''hard_failure'', ''run.recovery_aborted''), (''timeout'', ''run.waiting_external''),
      (''recovery_succeeded'', ''run.recovery_succeeded''), (''recovery_aborted'', ''run.recovery_aborted''),
      (''plan_submitted'', ''run.plan_submitted''), (''approval_submitted'', ''run.approval_submitted''),
      (''speculation_committed'', ''run.speculation_committed''), (''child_run_completed'', ''run.child_run_completed'')]"

definition signal_event_type :: "string \<Rightarrow> string" where
  "signal_event_type signal_type =
     (case map_of SIGNAL_EVENT_TYPE_MAP signal_type of Some t \<Rightarrow> t | None \<Rightarrow> ''signal.'' @ signal_type)"

definition setdefault :: "string \<Rightarrow> json \<Rightarrow> json_dict \<Rightarrow> json_dict" where
  "setdefault k v d = (if map_of d k = None then d @ [(k, v)] else d)"

definition normalize_signal_payload :: "string \<Rightarrow> json_dict option \<Rightarrow> json_dict option" where
  "normalize_signal_payload signal_type signal_payload =
     (let d0 = payload signal_payload;
          d = (if signal_type = ''cancel_requested'' then setdefault ''reason'' (JStr ''cancel_requested'') d0
               else if signal_type = ''hard_failure'' then
                 setdefault ''reason'' (JStr ''hard_failure'') (setdefault ''mode'' (JStr ''abort'') d0)
               else if signal_type = ''timeout'' then
                 setdefault ''reason'' (JStr ''timeout'') (setdefault ''mode'' (JStr ''human_escalation'') d0)
               else d0)
      in if d = [] then None else Some d)"

definition mk_event ::
  "string \<Rightarrow> string \<Rightarrow> int \<Rightarrow> string \<Rightarrow> event_class \<Rightarrow> event_authority \<Rightarrow> wake_policy \<Rightarrow> string \<Rightarrow> string option \<Rightarrow>
   json_dict option \<Rightarrow> runtime_event" where
  "mk_event run_id event_id offset event_type cls authority wake now key p =
     \<lparr>ev_run_id = run_id, ev_event_id = event_id, ev_commit_offset = offset, ev_event_type = event_type,
      ev_event_class = cls, ev_event_authority = authority, ev_ordering_key = run_id, ev_wake_policy = wake,
      ev_created_at = now, ev_idempotency_key = key, ev_payload_ref = None, ev_payload_json = p, ev_schema_version = ''1''\<rparr>"

definition mk_commit :: "string \<Rightarrow> string \<Rightarrow> string \<Rightarrow> runtime_event list \<Rightarrow> action_commit" where
  "mk_commit run_id commit_id now events = \<lparr>cm_run_id = run_id, cm_commit_id = commit_id, cm_events = events, cm_created_at = now\<rparr>"

section \<open>Turn outcomes\<close>

definition outcome_kind_str :: "turn_outcome_kind \<Rightarrow> string" where
  "outcome_kind_str k = (case k of Noop_outcome \<Rightarrow> ''noop'' | Blocked_outcome \<Rightarrow> ''blocked''
     | Dispatched_outcome \<Rightarrow> ''dispatched'' | Recovery_pending_outcome \<Rightarrow> ''recovery_pending'')"

definition turn_state_str :: "turn_state \<Rightarrow> string" where
  "turn_state_str s = (case s of Collecting \<Rightarrow> ''collecting'' | Intent_committed \<Rightarrow> ''intent_committed'' | Reasoning \<Rightarrow> ''reasoning''
     | Snapshot_built \<Rightarrow> ''snapshot_built'' | Admission_checked \<Rightarrow> ''admission_checked'' | Dispatch_blocked \<Rightarrow> ''dispatch_blocked''
     | Dispatched_state \<Rightarrow> ''dispatched'' | Dispatch_acknowledged \<Rightarrow> ''dispatch_acknowledged'' | Effect_unknown \<Rightarrow> ''effect_unknown''
     | Effect_recorded \<Rightarrow> ''effect_recorded'' | Recovery_pending \<Rightarrow> ''recovery_pending'' | Completed_noop \<Rightarrow> ''completed_noop'')"

definition turn_outcome_event_type :: "turn_outcome_kind \<Rightarrow> string" where
  "turn_outcome_event_type k = (case k of Dispatched_outcome \<Rightarrow> ''run.dispatching'' | Recovery_pending_outcome \<Rightarrow> ''run.recovering''
     | _ \<Rightarrow> ''run.ready'')"

definition level_str :: "idempotency_level \<Rightarrow> string" where
  "level_str l = (case l of Guaranteed \<Rightarrow> ''guaranteed'' | Best_effort \<Rightarrow> ''best_effort'' | Unknown_level \<Rightarrow> ''unknown'')"

definition build_remote_policy_decision_payload :: "turn_result \<Rightarrow> json option" where
  "build_remote_policy_decision_payload tr =
     map_option (\<lambda>d. JObj
       [(''effective_idempotency_level'', JStr (level_str (rp_effective_idempotency_level d))),
        (''default_retry_policy'', JStr (case rp_default_retry_policy d of No_auto_retry \<Rightarrow> ''no_auto_retry'' | Bounded_retry \<Rightarrow> ''bounded_retry'')),
        (''auto_retry_enabled'', JBool (rp_auto_retry_enabled d)),
        (''can_claim_guaranteed'', JBool (rp_can_claim_guaranteed d)), (''reason'', JStr (rp_reason d))]) (tr_remote_policy_decision tr)"

definition extract_turn_emitted_states :: "turn_state_event list \<Rightarrow> string list" where
  "extract_turn_emitted_states es = filter (\<lambda>s. s \<noteq> '''') (map ts_state es)"

definition digest_json :: "bundle_digest option \<Rightarrow> json" where
  "digest_json d = (case d of None \<Rightarrow> JNull
     | Some b \<Rightarrow> JObj [(''bundle_ref'', JStr (bd_bundle_ref b)), (''semantics_version'', JStr (bd_semantics_version b)),
         (''content_hash'', JStr (bd_content_hash b)), (''compile_hash'', JStr (bd_compile_hash b))])"

definition execution_context_payload :: "execution_context \<Rightarrow> json" where
  "execution_context_payload x = JObj
     [(''run_id'', JStr (xc_run_id x)), (''action_id'', JStr (xc_action_id x)), (''causation_id'', JStr (xc_causation_id x)),
      (''correlation_id'', JStr (xc_correlation_id x)), (''lineage_id'', JStr (xc_lineage_id x)),
      (''capability_snapshot_ref'', JStr (xc_capability_snapshot_ref x)),
      (''capability_snapshot_hash'', JStr (xc_capability_snapshot_hash x)),
      (''context_binding_ref'', opt_json (xc_context_binding_ref x)), (''grant_ref'', opt_json (xc_grant_ref x)),
      (''policy_snapshot_ref'', opt_json (xc_policy_snapshot_ref x)), (''rule_bundle_hash'', opt_json (xc_rule_bundle_hash x)),
      (''declarative_bundle_digest'', digest_json (xc_declarative_bundle_digest x)),
      (''timeout_ms'', case xc_timeout_ms x of None \<Rightarrow> JNull | Some n \<Rightarrow> JInt n), (''budget_ref'', opt_json (xc_budget_ref x))]"

definition failed_stage_str :: "failed_stage \<Rightarrow> string" where
  "failed_stage_str s = (case s of Admission_stage \<Rightarrow> ''admission'' | Execution_stage \<Rightarrow> ''execution'' | Verification_stage \<Rightarrow> ''verification''
     | Reconciliation_stage \<Rightarrow> ''reconciliation'' | Callback_stage \<Rightarrow> ''callback'')"

definition failure_class_str :: "failure_class \<Rightarrow> string" where
  "failure_class_str c = (case c of Deterministic \<Rightarrow> ''deterministic'' | Transient \<Rightarrow> ''transient'' | Policy_class \<Rightarrow> ''policy''
     | Side_effect_class \<Rightarrow> ''side_effect'' | Unknown_class \<Rightarrow> ''unknown'')"

definition evidence_source_json :: "evidence_source \<Rightarrow> json" where
  "evidence_source_json s = (case s of External_ack_source \<Rightarrow> JStr ''external_ack_ref'' | Evidence_source \<Rightarrow> JStr ''evidence_ref''
     | Local_inference_source \<Rightarrow> JStr ''local_inference'' | No_source \<Rightarrow> JStr ''none'')"

definition build_recovery_input_payload :: "failure_envelope \<Rightarrow> json" where
  "build_recovery_input_payload f = JObj
     [(''failure_code'', JStr (fe_failure_code f)), (''failed_stage'', JStr (failed_stage_str (fe_failed_stage f))),
      (''failed_component'', JStr (fe_failed_component f)), (''failure_class'', JStr (failure_class_str (fe_failure_class f))),
      (''evidence_priority_source'', evidence_source_json (fe_evidence_priority_source f)),
      (''evidence_priority_ref'', opt_json (fe_evidence_priority_ref f))]"

definition opt_entry :: "string \<Rightarrow> json option \<Rightarrow> json_dict" where
  "opt_entry k v = (case v of None \<Rightarrow> [] | Some j \<Rightarrow> [(k, j)])"

definition build_turn_outcome_payload :: "turn_result \<Rightarrow> json_dict" where
  "build_turn_outcome_payload tr =
     [(''state'', JStr (turn_state_str (tr_state tr))), (''outcome_kind'', JStr (outcome_kind_str (tr_outcome_kind tr))),
      (''decision_ref'', JStr (tr_decision_ref tr)), (''decision_fingerprint'', JStr (tr_decision_fingerprint tr))] @
     opt_entry ''intent_commit_ref'' (map_option JStr (tr_intent_commit_ref tr)) @
     opt_entry ''dispatch_dedupe_key'' (map_option JStr (tr_dispatch_dedupe_key tr)) @
     opt_entry ''host_kind'' (map_option JStr (tr_host_kind tr)) @
     opt_entry ''remote_policy_decision'' (build_remote_policy_decision_payload tr) @
     (let states = extract_turn_emitted_states (tr_emitted_events tr) in
      if states = [] then [] else [(''emitted_states'', str_list_json states)]) @
     opt_entry ''action_commit'' (map_option (\<lambda>c. JObj
       [(''action_id'', JStr (am_action_id c)), (''run_id'', JStr (am_run_id c)), (''committed_at'', JStr (am_committed_at c)),
        (''execution_context'', execution_context_payload (am_execution_context c))]) (tr_action_commit tr)) @
     opt_entry ''recovery_input'' (map_option build_recovery_input_payload (tr_recovery_input tr))"

section \<open>Appending\<close>

definition turn_outcome_event :: "string \<Rightarrow> int \<Rightarrow> string \<Rightarrow> turn_result \<Rightarrow> runtime_event" where
  "turn_outcome_event run_id offset now tr =
     mk_event run_id (''evt-turn-'' @ outcome_kind_str (tr_outcome_kind tr) @ ''-'' @ str_int offset) offset
       (turn_outcome_event_type (tr_outcome_kind tr)) Fact Authoritative_fact Wake_actor now
       (Some (tr_decision_fingerprint tr)) (Some (build_turn_outcome_payload tr))"

definition append_turn_outcome_commit ::
  "('l, 'e, 's, 'a, 'd, 'i) actor_services \<Rightarrow> string \<Rightarrow> int \<Rightarrow> turn_result \<Rightarrow> ('l, 'e, 's, 'a, 'd) actor_world \<Rightarrow>
   ('e actor_error + int) \<times> ('l, 'e, 's, 'a, 'd) actor_world" where
  "append_turn_outcome_commit sv run_id offset tr w =
     (let kind = outcome_kind_str (tr_outcome_kind tr);
          event = turn_outcome_event run_id offset (as_now sv) tr;
          w1 = (case (aw_intents w, tr_intent_commit_ref tr) of
              (Some l, Some ref) \<Rightarrow> w\<lparr>aw_intents := Some (write_intent
                \<lparr>ti_run_id = run_id, ti_intent_commit_ref = ref, ti_decision_ref = tr_decision_ref tr,
                 ti_decision_fingerprint = tr_decision_fingerprint tr, ti_dispatch_dedupe_key = tr_dispatch_dedupe_key tr,
                 ti_host_kind = tr_host_kind tr, ti_outcome_kind = kind, ti_written_at = as_now sv, ti_reflection_round = 0\<rparr> l)\<rparr>
            | _ \<Rightarrow> w)
      in case as_append sv (mk_commit run_id (''turn:'' @ kind @ '':'' @ str_int offset) (as_now sv) [event]) (aw_log w1) of
           (Inl e, l) \<Rightarrow> (Inl (Log_raised e), w1\<lparr>aw_log := l\<rparr>)
         | (Inr _, l) \<Rightarrow> (Inr (offset + 1), w1\<lparr>aw_log := l\<rparr>))"

definition recovery_event_type :: "string \<Rightarrow> string" where
  "recovery_event_type mode =
     (if mode = ''abort'' then ''run.recovery_aborted''
      else if mode = ''human_escalation'' then ''run.waiting_external'' else ''run.recovering'')"

definition recovery_outcome_state :: "string \<Rightarrow> string" where
  "recovery_outcome_state mode =
     (if mode = ''abort'' then ''aborted'' else if mode = ''human_escalation'' then ''escalated'' else ''executed'')"

definition recovery_event_type_allowed :: "string \<Rightarrow> bool" where
  "recovery_event_type_allowed t = (t \<in> {''run.recovering'', ''run.waiting_external'', ''run.recovery_aborted''})"

definition recovery_events :: "string \<Rightarrow> int \<Rightarrow> string \<Rightarrow> kernel_recovery_decision \<Rightarrow> runtime_event list" where
  "recovery_events run_id offset now d =
     [mk_event run_id (''evt-recovery-plan-'' @ str_int offset) offset ''recovery.plan_selected'' Derived Derived_diagnostic
        Projection_only now None (Some
          [(''planned_mode'', JStr (rd_mode d)), (''reason'', JStr (rd_reason d)),
           (''compensation_action_id'', opt_json (rd_compensation_action_id d)),
           (''escalation_channel_ref'', opt_json (rd_escalation_channel_ref d))]),
      mk_event run_id (''evt-recovery-'' @ str_int offset) (offset + 1) (recovery_event_type (rd_mode d)) Fact Authoritative_fact
        Wake_actor now None (Some [(''mode'', JStr (rd_mode d)), (''reason'', JStr (rd_reason d))])]"

definition append_recovery_event ::
  "('l, 'e, 's, 'a, 'd, 'i) actor_services \<Rightarrow> string \<Rightarrow> int \<Rightarrow> kernel_recovery_decision \<Rightarrow> string option \<Rightarrow>
   ('l, 'e, 's, 'a, 'd) actor_world \<Rightarrow> ('e actor_error + int) \<times> ('l, 'e, 's, 'a, 'd) actor_world" where
  "append_recovery_event sv run_id offset d caused_by w =
     (let event_type = recovery_event_type (rd_mode d); ids = [''evt-recovery-plan-'' @ str_int offset, ''evt-recovery-'' @ str_int offset] in
      if \<not> recovery_event_type_allowed event_type then (Inl (Event_type_not_allowed event_type), w)
      else (case as_append sv (mk_commit run_id (''recovery:'' @ event_type @ '':'' @ str_int offset) (as_now sv)
            (recovery_events run_id offset (as_now sv) d)) (aw_log w) of
          (Inl e, l) \<Rightarrow> (Inl (Log_raised e), w\<lparr>aw_log := l\<rparr>)
        | (Inr _, l) \<Rightarrow>
            (Inr (offset + 2), w\<lparr>aw_log := l, aw_outcomes := map_option (db_write_outcome
               \<lparr>ro_run_id = run_id, ro_action_id = caused_by, ro_recovery_mode = rd_mode d,
                ro_outcome_state = recovery_outcome_state (rd_mode d), ro_written_at = as_now sv,
                ro_operator_escalation_ref = rd_escalation_channel_ref d, ro_emitted_event_ids = ids\<rparr>) (aw_outcomes w)\<rparr>)))"

section \<open>One decision round\<close>

definition latest_run_offset :: "('l, 'e, 's, 'a, 'd, 'i) actor_services \<Rightarrow> string \<Rightarrow> ('l, 'e, 's, 'a, 'd) actor_world \<Rightarrow> int" where
  "latest_run_offset sv run_id w =
     (case as_load sv run_id 0 (aw_log w) of [] \<Rightarrow> 0 | e # es \<Rightarrow> fold max (map ev_commit_offset es) (ev_commit_offset e))"

definition no_derived_diagnostic_authority_input :: "action_commit \<Rightarrow> bool" where
  "no_derived_diagnostic_authority_input commit = list_all (\<lambda>e. ev_event_authority e \<noteq> Derived_diagnostic) (cm_events commit)"

definition single_dispatch_attempt_in_turn :: "turn_result \<Rightarrow> bool" where
  "single_dispatch_attempt_in_turn tr = (length (filter (\<lambda>e. ts_state e = ''dispatched'') (tr_emitted_events tr)) \<le> 1)"

definition actor_recovery_input :: "action_commit \<Rightarrow> action \<Rightarrow> string \<Rightarrow> run_projection \<Rightarrow> recovery_input" where
  "actor_recovery_input commit a reason projection =
     \<lparr>ri_run_id = cm_run_id commit, ri_reason_code = reason, ri_lifecycle_state = pj_lifecycle_state projection,
      ri_projection = projection, ri_failed_action_id = Some (ac_action_id a), ri_reflection_round = 0,
      ri_capability_snapshot = None, ri_failed_effect_class = Some (effect_class_str (ac_effect_class a)),
      ri_failing_action = None\<rparr>"

text \<open>Asking the gate, between two readings of the log, and appending what it decided. The gate is handed the dispatch
  ledger as its dedupe store.\<close>

definition decide_and_append ::
  "('l, 'e, 's, 'a, 'd, 'i) actor_services \<Rightarrow> action_commit \<Rightarrow> action \<Rightarrow> string \<Rightarrow> run_projection \<Rightarrow> int \<Rightarrow>
   ('l, 'e, 's, 'a, 'd) actor_world \<Rightarrow> ('e actor_error + unit) \<times> ('l, 'e, 's, 'a, 'd) actor_world" where
  "decide_and_append sv commit a reason projection offset w =
     (let before_offset = latest_run_offset sv (cm_run_id commit) w;
          ri = actor_recovery_input commit a reason projection;
          store = tw_store (aw_turn w) in
      case decide_recovery (as_gate sv) (te_exec (as_turn sv)) (as_check_now sv) (as_record_now sv) ri
          (aw_gate w, \<lparr>cw_store = Some store, cw_calls = []\<rparr>) of
        (res, g, cw) \<Rightarrow>
          let w1 = w\<lparr>aw_gate := g, aw_turn := (aw_turn w)\<lparr>tw_store := (case cw_store cw of Some s \<Rightarrow> s | None \<Rightarrow> store)\<rparr>\<rparr> in
          (case res of
             Inl e \<Rightarrow> (Inl (Gate_raised e), w1)
           | Inr d \<Rightarrow>
               if latest_run_offset sv (cm_run_id commit) w1 \<noteq> before_offset then (Inl Gate_not_read_only, w1)
               else (case append_recovery_event sv (cm_run_id commit) offset d (Some (ac_action_id a)) w1 of
                   (Inl e, w2) \<Rightarrow> (Inl e, w2)
                 | (Inr _, w2) \<Rightarrow> (Inr (), w2))))"

text \<open>The body of the \<open>try\<close> block.\<close>

definition try_round ::
  "('l, 'e, 's, 'a, 'd, 'i) actor_services \<Rightarrow> action_commit \<Rightarrow> action \<Rightarrow> int \<Rightarrow> run_projection \<Rightarrow>
   ('l, 'e, 's, 'a, 'd) actor_world \<Rightarrow> ('e actor_error + unit) \<times> ('l, 'e, 's, 'a, 'd) actor_world" where
  "try_round sv commit a offset projection w =
     (case run_turn (as_turn sv) \<lparr>in_run_id = cm_run_id commit, in_through_offset = offset, in_based_on_offset = offset,
          in_trigger_type = Signal_trigger, in_history = []\<rparr> (Some a) (aw_turn w) of
        (Inl e, t) \<Rightarrow> (Inl (Turn_raised e), w\<lparr>aw_turn := t\<rparr>)
      | (Inr tr, t) \<Rightarrow>
          (case append_turn_outcome_commit sv (cm_run_id commit) (offset + 1) tr (w\<lparr>aw_turn := t\<rparr>) of
             (Inl e, w1) \<Rightarrow>
               (Inl e, case tr_dispatch_dedupe_key tr of
                  None \<Rightarrow> w1
                | Some k \<Rightarrow> w1\<lparr>aw_turn := (aw_turn w1)\<lparr>tw_store :=
                    snd (te_exec (as_turn sv) (Mark_unknown_effect_op k) (tw_store (aw_turn w1)))\<rparr>\<rparr>)
           | (Inr next_offset, w1) \<Rightarrow>
               if \<not> single_dispatch_attempt_in_turn tr then (Inl Multiple_dispatches, w1)
               else
                 let w2 = (if tr_outcome_kind tr = Dispatched_outcome
                           then w1\<lparr>aw_gate := on_action_success (effect_class_str (ac_effect_class a)) (aw_gate w1)\<rparr> else w1) in
                 if tr_outcome_kind tr = Recovery_pending_outcome then
                   decide_and_append sv commit a
                     (case tr_recovery_input tr of Some f \<Rightarrow> fe_failure_code f | None \<Rightarrow> ''effect_unknown'')
                     projection next_offset w2
                 else (Inr (), w2)))"

definition decision_round ::
  "('l, 'e, 's, 'a, 'd, 'i) actor_services \<Rightarrow> action_commit \<Rightarrow> action \<Rightarrow> int \<Rightarrow> run_projection \<Rightarrow>
   ('l, 'e, 's, 'a, 'd) actor_world \<Rightarrow> ('e actor_error + unit) \<times> ('l, 'e, 's, 'a, 'd) actor_world" where
  "decision_round sv commit a offset projection w =
     (case try_round sv commit a offset projection w of
        (Inr _, w1) \<Rightarrow> (Inr (), w1)
      | (Inl err, w1) \<Rightarrow>
          (case decide_and_append sv commit a (py_lower (as_error_name sv err)) projection (offset + 1) w1 of
             (Inl e, w2) \<Rightarrow> (Inl e, w2)
           | (Inr _, w2) \<Rightarrow> (Inl err, w2)))"

definition commit_fingerprint :: "action_commit \<Rightarrow> int \<Rightarrow> string" where
  "commit_fingerprint commit offset = cm_run_id commit @ '':'' @ cm_commit_id commit @ '':'' @ str_int offset"

definition process_action_commit ::
  "('l, 'e, 's, 'a, 'd, 'i) actor_services \<Rightarrow> action_commit \<Rightarrow> action option \<Rightarrow>
   run_actor \<times> ('l, 'e, 's, 'a, 'd) actor_world \<Rightarrow> ('e actor_error + unit) \<times> run_actor \<times> ('l, 'e, 's, 'a, 'd) actor_world" where
  "process_action_commit sv commit action st =
     (let (actor, w) = st; load = (\<lambda>r k. as_load sv r k (aw_log w)) in
      if \<not> no_derived_diagnostic_authority_input commit then (Inl Diagnostic_input, st)
      else if cm_events commit = [] then (Inl Index_error, st)
      else
        let offset = ev_commit_offset (List.last (cm_events commit)) in
        (case catch_up load (cm_run_id commit) offset (aw_projections w) of
           (Inl e, ps) \<Rightarrow> (Inl (Projection_raised e), actor, w\<lparr>aw_projections := ps\<rparr>)
         | (Inr projection, ps) \<Rightarrow>
             let actor1 = actor\<lparr>ra_last_projection := Some projection\<rparr> in
             (case readiness load (cm_run_id commit) offset ps of
                (Inl e, ps1) \<Rightarrow> (Inl (Projection_raised e), actor1, w\<lparr>aw_projections := ps1\<rparr>)
              | (Inr ready, ps1) \<Rightarrow>
                  let w1 = w\<lparr>aw_projections := ps1\<rparr>; fingerprint = commit_fingerprint commit offset in
                  if \<not> ready \<or> as_seen sv fingerprint (aw_deduper w1) then (Inr (), actor1, w1)
                  else
                    let w2 = w1\<lparr>aw_deduper := as_mark sv fingerprint (aw_deduper w1)\<rparr> in
                    (case action of
                       None \<Rightarrow> (Inr (), actor1, w2)
                     | Some a \<Rightarrow> (case decision_round sv commit a offset projection w2 of (res, w3) \<Rightarrow> (res, actor1, w3))))))"

section \<open>Signals\<close>

definition is_peer_run_authorized :: "string \<Rightarrow> snapshot \<Rightarrow> string list \<Rightarrow> bool" where
  "is_peer_run_authorized peer_run_id snapshot active_child_runs =
     (if sn_peer_run_bindings snapshot \<noteq> [] then peer_run_id \<in> set (sn_peer_run_bindings snapshot)
      else active_child_runs \<noteq> [] \<and> peer_run_id \<in> set active_child_runs)"

definition active_children :: "run_actor \<Rightarrow> string list" where
  "active_children actor = (case ra_last_projection actor of None \<Rightarrow> [] | Some p \<Rightarrow> pj_active_child_runs p)"

definition peer_rejected :: "run_actor \<Rightarrow> actor_signal \<Rightarrow> bool" where
  "peer_rejected actor sg =
     (case sg_from_peer_run_id sg of
        None \<Rightarrow> False
      | Some peer \<Rightarrow>
          (case ra_last_snapshot actor of
             Some snapshot \<Rightarrow> \<not> is_peer_run_authorized peer snapshot (active_children actor)
           | None \<Rightarrow> peer \<notin> set (active_children actor)))"

text \<open>A cause counts when it is present and not empty.\<close>

definition signal_cause :: "actor_signal \<Rightarrow> string option" where
  "signal_cause sg = (case sg_caused_by sg of Some c \<Rightarrow> if c = '''' then None else Some c | None \<Rightarrow> None)"

definition signal_token :: "actor_signal \<Rightarrow> string option" where
  "signal_token sg = map_option (\<lambda>c. sg_signal_type sg @ '':'' @ c) (signal_cause sg)"

definition signal_commit :: "string \<Rightarrow> int \<Rightarrow> int \<Rightarrow> string \<Rightarrow> actor_signal \<Rightarrow> action_commit" where
  "signal_commit run_id seq next_offset now sg =
     mk_commit run_id
       (''signal:'' @ sg_signal_type sg @ '':'' @ (case signal_cause sg of Some c \<Rightarrow> c | None \<Rightarrow> ''seq-'' @ str_int seq)) now
       [mk_event run_id (''evt-signal-'' @ str_int seq) next_offset (signal_event_type (sg_signal_type sg)) Fact
          Authoritative_fact Wake_actor now None (normalize_signal_payload (sg_signal_type sg) (sg_signal_payload sg))]"

definition should_continue_as_new :: "('l, 'e, 's, 'a, 'd, 'i) actor_services \<Rightarrow> run_actor \<Rightarrow> bool" where
  "should_continue_as_new sv actor =
     (as_temporal sv \<and> as_history_event_threshold sv \<le> ra_history_event_count actor \<and>
      (case ra_last_projection actor of
         None \<Rightarrow> False
       | Some p \<Rightarrow> ra_pending_signals actor = [] \<and> pj_lifecycle_state p \<notin> {L_completed, L_aborted}))"

definition is_run_terminal :: "run_actor \<Rightarrow> bool" where
  "is_run_terminal actor =
     (case ra_last_projection actor of None \<Rightarrow> False | Some p \<Rightarrow> pj_lifecycle_state p \<in> {L_completed, L_aborted})"

text \<open>The input of the next workflow instance.\<close>

definition continue_as_new_input :: "string \<Rightarrow> run_actor \<Rightarrow> run_input" where
  "continue_as_new_input run_id actor =
     \<lparr>rn_run_id = run_id, rn_session_id = ra_session_id actor, rn_parent_run_id = ra_parent_run_id actor,
      rn_pending_signals = ra_pending_signals actor, rn_policy_versions = None, rn_initial_stage_id = None\<rparr>"

definition handle_signal ::
  "('l, 'e, 's, 'a, 'd, 'i) actor_services \<Rightarrow> actor_signal \<Rightarrow> run_actor \<times> ('l, 'e, 's, 'a, 'd) actor_world \<Rightarrow>
   ('e actor_error + unit) \<times> run_actor \<times> ('l, 'e, 's, 'a, 'd) actor_world" where
  "handle_signal sv sg st =
     (let (actor, w) = st in
      case (case ra_run_id actor of Some r \<Rightarrow> if r = '''' then None else Some r | None \<Rightarrow> None) of
        None \<Rightarrow> (Inl Not_running, st)
      | Some run_id \<Rightarrow>
          if peer_rejected actor sg then (Inr (), st)
          else if (case signal_token sg of Some t \<Rightarrow> t \<in> set (ra_seen_signal_tokens actor) | None \<Rightarrow> False) then (Inr (), st)
          else
            let seq = ra_signal_sequence actor + 1;
                actor1 = actor\<lparr>ra_signal_sequence := seq\<rparr> in
            (case get_projection (\<lambda>r k. as_load sv r k (aw_log w)) run_id (aw_projections w) of
               (Inl e, ps) \<Rightarrow> (Inl (Projection_raised e), actor1, w\<lparr>aw_projections := ps\<rparr>)
             | (Inr projection, ps) \<Rightarrow>
                 let w1 = w\<lparr>aw_projections := ps\<rparr>;
                     commit = signal_commit run_id seq (pj_projected_offset projection + 1) (as_now sv) sg in
                 (case as_append sv commit (aw_log w1) of
                    (Inl e, l) \<Rightarrow> (Inl (Log_raised e), actor1, w1\<lparr>aw_log := l\<rparr>)
                  | (Inr _, l) \<Rightarrow>
                      let actor2 = (case signal_token sg of
                          Some t \<Rightarrow> actor1\<lparr>ra_seen_signal_tokens := ra_seen_signal_tokens actor1 @ [t]\<rparr> | None \<Rightarrow> actor1) in
                      (case process_action_commit sv commit None (actor2, w1\<lparr>aw_log := l\<rparr>) of
                         (Inl e, st1) \<Rightarrow> (Inl e, st1)
                       | (Inr _, actor3, w3) \<Rightarrow>
                           let actor4 = actor3\<lparr>ra_history_event_count := ra_history_event_count actor3 + 1\<rparr> in
                           if should_continue_as_new sv actor4
                           then (Inl (Continue_as_new (continue_as_new_input run_id actor4)), actor4, w3)
                           else (Inr (), actor4, w3)))))"

definition actor_running :: "run_actor \<Rightarrow> bool" where
  "actor_running actor = (case ra_run_id actor of Some r \<Rightarrow> r \<noteq> '''' | None \<Rightarrow> False)"

definition signal ::
  "('l, 'e, 's, 'a, 'd, 'i) actor_services \<Rightarrow> actor_signal \<Rightarrow> run_actor \<times> ('l, 'e, 's, 'a, 'd) actor_world \<Rightarrow>
   ('e actor_error + unit) \<times> run_actor \<times> ('l, 'e, 's, 'a, 'd) actor_world" where
  "signal sv sg st =
     (if \<not> actor_running (fst st)
      then (Inr (), (fst st)\<lparr>ra_pending_signals := ra_pending_signals (fst st) @ [sg]\<rparr>, snd st)
      else handle_signal sv sg st)"

fun handle_signals ::
  "('l, 'e, 's, 'a, 'd, 'i) actor_services \<Rightarrow> actor_signal list \<Rightarrow> run_actor \<times> ('l, 'e, 's, 'a, 'd) actor_world \<Rightarrow>
   ('e actor_error + unit) \<times> run_actor \<times> ('l, 'e, 's, 'a, 'd) actor_world" where
  "handle_signals sv [] st = (Inr (), st)"
| "handle_signals sv (sg # sgs) st =
     (case handle_signal sv sg st of
        (Inl e, st1) \<Rightarrow> (Inl e, st1)
      | (Inr _, st1) \<Rightarrow> handle_signals sv sgs st1)"

definition query :: "run_actor \<Rightarrow> 'e actor_error + run_projection" where
  "query actor =
     (if \<not> actor_running actor then Inl Not_running
      else case ra_last_projection actor of None \<Rightarrow> Inl Projection_missing | Some p \<Rightarrow> Inr p)"

section \<open>Starting and ending\<close>

definition policy_pinned_commit :: "string \<Rightarrow> string \<Rightarrow> run_policy_versions \<Rightarrow> action_commit" where
  "policy_pinned_commit run_id now pv =
     mk_commit run_id (''policy-versions-pinned:'' @ run_id) now
       [mk_event run_id (''evt-policy-pinned-'' @ run_id) 0 ''run.policy_versions_pinned'' Fact Authoritative_fact
          Projection_only now None (Some
            [(''route_policy_version'', opt_json (pv_route_policy_version pv)),
             (''skill_policy_version'', opt_json (pv_skill_policy_version pv)),
             (''evaluation_policy_version'', opt_json (pv_evaluation_policy_version pv)),
             (''task_view_policy_version'', opt_json (pv_task_view_policy_version pv)),
             (''pinned_at'', JStr (pv_pinned_at pv))])]"

text \<open>\<open>run\<close> up to the point where a Temporal workflow waits for a terminal state.\<close>

definition run_start ::
  "('l, 'e, 's, 'a, 'd, 'i) actor_services \<Rightarrow> run_input \<Rightarrow> run_actor \<times> ('l, 'e, 's, 'a, 'd) actor_world \<Rightarrow>
   ('e actor_error + unit) \<times> run_actor \<times> ('l, 'e, 's, 'a, 'd) actor_world" where
  "run_start sv inp st =
     (let (actor, w) = st;
          actor1 = actor\<lparr>ra_run_id := Some (rn_run_id inp), ra_session_id := rn_session_id inp,
            ra_parent_run_id := rn_parent_run_id inp, ra_policy_versions := rn_policy_versions inp,
            ra_active_stage_id := rn_initial_stage_id inp\<rparr> in
      case get_projection (\<lambda>r k. as_load sv r k (aw_log w)) (rn_run_id inp) (aw_projections w) of
        (Inl e, ps) \<Rightarrow> (Inl (Projection_raised e), actor1, w\<lparr>aw_projections := ps\<rparr>)
      | (Inr projection, ps) \<Rightarrow>
          let actor2 = actor1\<lparr>ra_last_projection := Some projection\<rparr>; w1 = w\<lparr>aw_projections := ps\<rparr> in
          (case (case rn_policy_versions inp of
                   None \<Rightarrow> (Inr 0, aw_log w1)
                 | Some pv \<Rightarrow> as_append sv (policy_pinned_commit (rn_run_id inp) (as_now sv) pv) (aw_log w1)) of
             (Inl e, l) \<Rightarrow> (Inl (Log_raised e), actor2, w1\<lparr>aw_log := l\<rparr>)
           | (Inr _, l) \<Rightarrow>
               handle_signals sv (ra_pending_signals actor2 @ rn_pending_signals inp)
                 (actor2\<lparr>ra_pending_signals := []\<rparr>, w1\<lparr>aw_log := l\<rparr>)))"

text \<open>The workflow's result, and the signal the parent is sent.\<close>

definition final_state :: "run_lifecycle_state \<Rightarrow> string" where
  "final_state s = (case s of L_aborted \<Rightarrow> ''aborted'' | L_failed \<Rightarrow> ''failed'' | _ \<Rightarrow> ''completed'')"

definition child_completed_signal :: "run_actor \<Rightarrow> string \<Rightarrow> actor_signal" where
  "child_completed_signal actor run_id =
     \<lparr>sg_signal_type = ''child_run_completed'',
      sg_signal_payload = Some [(''child_run_id'', JStr run_id),
        (''outcome'', JStr (case ra_last_projection actor of Some p \<Rightarrow> final_state (pj_lifecycle_state p) | None \<Rightarrow> ''completed'')),
        (''task_id'', JNull)],
      sg_caused_by = Some (''child:'' @ run_id), sg_signal_token = None, sg_from_peer_run_id = None\<rparr>"

definition workflow_id_for_parent_run :: "string \<Rightarrow> string \<Rightarrow> string" where
  "workflow_id_for_parent_run parent_run_id workflow_id_prefix =
     (let pre = workflow_id_prefix @ '':'' in
      if py_startswith parent_run_id pre then parent_run_id else pre @ parent_run_id)"

definition notify_parent_child_completed ::
  "('l, 'e, 's, 'a, 'd, 'i) actor_services \<Rightarrow> string \<Rightarrow> string option \<Rightarrow> run_actor \<Rightarrow> (string \<times> actor_signal) option" where
  "notify_parent_child_completed sv workflow_id_prefix parent_run_id actor =
     (case (parent_run_id, ra_run_id actor) of
        (Some parent, Some run_id) \<Rightarrow>
          if parent = '''' \<or> run_id = '''' \<or> \<not> as_temporal sv then None
          else Some (workflow_id_for_parent_run parent workflow_id_prefix, child_completed_signal actor run_id)
      | _ \<Rightarrow> None)"

text \<open>\<open>run\<close> after the wait: in a Temporal workflow the projection is read again.\<close>

definition run_finish ::
  "('l, 'e, 's, 'a, 'd, 'i) actor_services \<Rightarrow> string \<Rightarrow> run_input \<Rightarrow> run_actor \<times> ('l, 'e, 's, 'a, 'd) actor_world \<Rightarrow>
   ('e actor_error + (string \<times> (string \<times> actor_signal) option)) \<times> run_actor \<times> ('l, 'e, 's, 'a, 'd) actor_world" where
  "run_finish sv workflow_id_prefix inp st =
     (let (actor, w) = st in
      case (if as_temporal sv
            then (case get_projection (\<lambda>r k. as_load sv r k (aw_log w)) (rn_run_id inp) (aw_projections w) of
                    (Inl e, ps) \<Rightarrow> (Inl (Projection_raised e), ps) | (Inr p, ps) \<Rightarrow> (Inr p, ps))
            else (case ra_last_projection actor of None \<Rightarrow> (Inl Projection_missing, aw_projections w)
                    | Some p \<Rightarrow> (Inr p, aw_projections w))) of
        (Inl e, ps) \<Rightarrow> (Inl e, actor, w\<lparr>aw_projections := ps\<rparr>)
      | (Inr p, ps) \<Rightarrow>
          let actor1 = actor\<lparr>ra_last_projection := Some p\<rparr> in
          (Inr (final_state (pj_lifecycle_state p),
                notify_parent_child_completed sv workflow_id_prefix (rn_parent_run_id inp) actor1),
           actor1, w\<lparr>aw_projections := ps\<rparr>))"

end
