(* ===== verification/Run_Actor_Theorems.thy ===== *)
theory Run_Actor_Theorems
  imports Run_Actor Projection_Theorems Turn_Properties Recovery_Gate_Theorems
begin

text \<open>
  What the workflow actor promises: on a reliable log it refines a fold over the accepted signals, signals that arrive
  before the start are applied in order, a decided commit is never decided again; and where it falls
  short: what a restart of the workflow forgets, and what a decision round does not look at.
\<close>

section \<open>The specification\<close>

text \<open>A run as its events in order, the signal tokens applied and the number of signals.\<close>

definition project_run :: "bool \<Rightarrow> string \<Rightarrow> runtime_event list \<Rightarrow> run_projection" where
  "project_run reject rid es =
     fold (\<lambda>e p. apply_projection_event p e) (filter (\<lambda>e. validate_projection_authority_input e reject) es) (default_projection rid)"

lemma replay_no_migrator:
  "replay_unseen None reject es p = Inr (fold (\<lambda>e p. apply_projection_event p e) (filter (\<lambda>e. validate_projection_authority_input e reject) es) p)"
  by (induction es arbitrary: p) (auto simp: maybe_migrate_event_def)

lemma replay_project: "replay_unseen None reject es (default_projection rid) = Inr (project_run reject rid es)"
  by (simp add: replay_no_migrator project_run_def)

lemma project_run_snoc:
  "validate_projection_authority_input e reject \<Longrightarrow> project_run reject rid (es @ [e]) = apply_projection_event (project_run reject rid es) e"
  by (simp add: project_run_def)

type_synonym run_spec = "runtime_event list \<times> string list \<times> int"

definition spec_ignores :: "bool \<Rightarrow> string \<Rightarrow> actor_signal \<Rightarrow> run_spec \<Rightarrow> bool" where
  "spec_ignores reject rid sg s =
     ((case sg_from_peer_run_id sg of None \<Rightarrow> False
       | Some peer \<Rightarrow> peer \<notin> set (pj_active_child_runs (project_run reject rid (fst s)))) \<or>
      (case signal_token sg of None \<Rightarrow> False | Some t \<Rightarrow> t \<in> set (fst (snd s))))"

definition spec_event :: "(runtime_event \<Rightarrow> runtime_event) \<Rightarrow> string \<Rightarrow> string \<Rightarrow> actor_signal \<Rightarrow> run_spec \<Rightarrow> runtime_event" where
  "spec_event canon rid now sg s =
     (canon (mk_event rid (''evt-signal-'' @ str_int (snd (snd s) + 1)) (int (length (fst s)) + 1) (signal_event_type (sg_signal_type sg)) Fact
        Authoritative_fact Wake_actor now None (normalize_signal_payload (sg_signal_type sg) (sg_signal_payload sg))))
      \<lparr>ev_commit_offset := int (length (fst s)) + 1\<rparr>"

definition spec_signal :: "(runtime_event \<Rightarrow> runtime_event) \<Rightarrow> bool \<Rightarrow> string \<Rightarrow> string \<Rightarrow> actor_signal \<Rightarrow> run_spec \<Rightarrow> run_spec" where
  "spec_signal canon reject rid now sg s =
     (if spec_ignores reject rid sg s then s
      else (fst s @ [spec_event canon rid now sg s],
            fst (snd s) @ (case signal_token sg of None \<Rightarrow> [] | Some t \<Rightarrow> [t]), snd (snd s) + 1))"

text \<open>Projections that differ at most in the offset they report.\<close>

definition same_state :: "run_projection \<Rightarrow> run_projection \<Rightarrow> bool" where
  "same_state p q = (p\<lparr>pj_projected_offset := 0\<rparr> = q\<lparr>pj_projected_offset := 0\<rparr>)"

lemma same_stateD: "same_state p q \<Longrightarrow> pj_active_child_runs p = pj_active_child_runs q \<and> pj_lifecycle_state p = pj_lifecycle_state q"
  unfolding same_state_def by (metis run_projection.select_convs(2,9) run_projection.surjective run_projection.update_convs(3))

lemma same_state_refl [simp]: "same_state p p"
  by (simp add: same_state_def)

lemma pinned_keeps_state:
  assumes "ev_event_type e = ''run.policy_versions_pinned''"
  shows "same_state p (apply_projection_event p e)"
proof -
  have "STATIC_EVENT_TRANSITIONS ''run.policy_versions_pinned'' = None" "resolve_dynamic_transition ''run.policy_versions_pinned'' = None"
    by (simp_all add: STATIC_EVENT_TRANSITIONS_def resolve_dynamic_transition_def py_startswith_def)
  then have "resolve_projection_transition p e = projection_unchanged_state p"
    by (simp add: resolve_projection_transition_def assms)
  moreover have "resolve_active_child_runs p e = pj_active_child_runs p"
    by (simp add: resolve_active_child_runs_def assms split: option.split)
  ultimately show ?thesis by (simp add: same_state_def apply_projection_event_def projection_unchanged_state_def)
qed

text \<open>A skipped event at the end of the log would leave the projected offset behind it.\<close>

definition tail_ok :: "bool \<Rightarrow> runtime_event list \<Rightarrow> bool" where
  "tail_ok reject es = (es = [] \<or> validate_projection_authority_input (List.last es) reject)"

lemma project_run_offset:
  assumes "numbered es" "tail_ok reject es"
  shows "pj_projected_offset (project_run reject rid es) = int (length es)"
proof (cases es rule: rev_cases)
  case Nil
  then show ?thesis by (simp add: project_run_def default_projection_def)
next
  case (snoc fs e)
  have "ev_commit_offset e = int (length fs) + 1"
    using assms(1) snoc by (metis length_append_singleton lessI nth_append_length numbered_def)
  then show ?thesis using assms(2) snoc by (simp add: tail_ok_def project_run_snoc apply_event_fields)
qed

lemma project_run_id [simp]: "pj_run_id (project_run reject rid es) = rid"
  using replay_ok [OF replay_project [of reject es rid] default_ok] by (simp add: default_projection_def)

section \<open>The projection service on a reliable log\<close>

context event_log
begin

definition service_in_sync :: "bool \<Rightarrow> 's \<Rightarrow> 'e projection_service \<Rightarrow> bool" where
  "service_in_sync reject s v = (service_ok s v \<and> ps_migrator v = None \<and> ps_reject_derived_diagnostic v = reject)"

lemma get_in_sync:
  assumes "inv s" "service_in_sync reject s v" "get_projection (\<lambda>r j. load r j s) rid v = (res, v')"
  shows "res = Inr (project_run reject rid (stream s rid))" "service_in_sync reject s v'"
proof -
  have m: "keeps_offsets (ps_migrator v)" "service_ok s v" using assms(2) by (simp_all add: service_in_sync_def)
  show "res = Inr (project_run reject rid (stream s rid))"
    using get_replays [OF assms(1) m, of rid] assms(2,3) by (simp add: service_in_sync_def replay_project)
  have "ps_migrator v' = ps_migrator v" "ps_reject_derived_diagnostic v' = ps_reject_derived_diagnostic v"
    using assms(3) by (auto simp: get_projection_def Let_def split: sum.splits)
  then show "service_in_sync reject s v'"
    using get_keeps_service [OF assms(1) m, of rid] assms(2,3) by (simp add: service_in_sync_def)
qed

lemma catch_up_is_get:
  assumes "inv s" "int (length (stream s rid)) \<le> k"
  shows "catch_up (\<lambda>r j. load r j s) rid k v = get_projection (\<lambda>r j. load r j s) rid v"
proof -
  have "ev_commit_offset e \<le> k" if "e \<in> set (load rid j s)" for e j
    using that assms stream_numbered [OF assms(1), of rid] by (auto simp: load_stream numbered_def in_set_conv_nth)
  then have "takeWhile (\<lambda>e. ev_commit_offset e \<le> k) (load rid j s) = load rid j s" for j by simp
  then show ?thesis unfolding catch_up_def get_projection_def Let_def by (simp only:)
qed

lemma catch_up_in_sync:
  assumes "inv s" "service_in_sync reject s v" "int (length (stream s rid)) \<le> k" "catch_up (\<lambda>r j. load r j s) rid k v = (res, v')"
  shows "res = Inr (project_run reject rid (stream s rid))" "service_in_sync reject s v'"
proof -
  note g = get_in_sync [OF assms(1,2) assms(4) [unfolded catch_up_is_get [OF assms(1,3)]]]
  show "res = Inr (project_run reject rid (stream s rid))" "service_in_sync reject s v'" by (fact g)+
qed

lemma readiness_in_sync:
  assumes "inv s" "service_in_sync reject s v" "readiness (\<lambda>r j. load r j s) rid k v = (res, v')"
  shows "\<exists>b. res = Inr b" "service_in_sync reject s v'"
proof -
  obtain x y where g: "get_projection (\<lambda>r j. load r j s) rid v = (x, y)" by fastforce
  note get_in_sync [OF assms(1,2) g]
  then show "\<exists>b. res = Inr b" "service_in_sync reject s v'" using assms(3) g by (auto simp: readiness_def)
qed

lemma append_in_sync:
  assumes "inv s" "room c s" "service_in_sync reject s v"
  shows "service_in_sync reject (snd (append c s)) v"
  using append_keeps_service [OF assms(1,2), of v] assms(3) by (simp add: service_in_sync_def)

text \<open>A commit without an action: catch up and mark, whatever the fingerprint store says.\<close>

lemma process_without_action:
  assumes "inv (aw_log w)" "service_in_sync reject (aw_log w) (aw_projections w)" "as_load sv = load"
    "no_derived_diagnostic_authority_input c" "cm_events c \<noteq> []"
    "int (length (stream (aw_log w) (cm_run_id c))) \<le> ev_commit_offset (List.last (cm_events c))"
    "process_action_commit sv c None (actor, w) = (res, actor', w')"
  shows "res = Inr ()" "actor' = actor\<lparr>ra_last_projection := Some (project_run reject (cm_run_id c) (stream (aw_log w) (cm_run_id c)))\<rparr>"
    "aw_log w' = aw_log w" "service_in_sync reject (aw_log w) (aw_projections w')"
proof -
  let ?k = "ev_commit_offset (List.last (cm_events c))" and ?ld = "\<lambda>r j. load r j (aw_log w)"
  obtain x v1 where cu: "catch_up ?ld (cm_run_id c) ?k (aw_projections w) = (x, v1)" by fastforce
  note x = catch_up_in_sync [OF assms(1,2,6) cu]
  obtain y v2 where rd: "readiness ?ld (cm_run_id c) ?k v1 = (y, v2)" by fastforce
  note y = readiness_in_sync [OF assms(1) x(2) rd]
  obtain b where b: "y = Inr b" using y(1) by blast
  show "res = Inr ()" "actor' = actor\<lparr>ra_last_projection := Some (project_run reject (cm_run_id c) (stream (aw_log w) (cm_run_id c)))\<rparr>"
    "aw_log w' = aw_log w" "service_in_sync reject (aw_log w) (aw_projections w')"
    using assms(7) y(2) unfolding process_action_commit_def
    by (auto simp: assms(3,4,5) cu x(1) rd b Let_def split: if_splits)
qed

end

section \<open>The actor on a reliable log\<close>

text \<open>Signals delivered one after the other, up to the first that raises, and a workflow instance: signals before its
  start, the start, signals after.\<close>

fun signals ::
  "('l, 'e, 's, 'a, 'd, 'i) actor_services \<Rightarrow> actor_signal list \<Rightarrow> run_actor \<times> ('l, 'e, 's, 'a, 'd) actor_world \<Rightarrow>
   ('e actor_error + unit) \<times> run_actor \<times> ('l, 'e, 's, 'a, 'd) actor_world" where
  "signals sv [] st = (Inr (), st)"
| "signals sv (sg # sgs) st = (case signal sv sg st of (Inl e, st1) \<Rightarrow> (Inl e, st1) | (Inr _, st1) \<Rightarrow> signals sv sgs st1)"

definition workflow_instance ::
  "('l, 'e, 's, 'a, 'd, 'i) actor_services \<Rightarrow> actor_signal list \<Rightarrow> run_input \<Rightarrow> actor_signal list \<Rightarrow>
   ('l, 'e, 's, 'a, 'd) actor_world \<Rightarrow> ('e actor_error + unit) \<times> run_actor \<times> ('l, 'e, 's, 'a, 'd) actor_world" where
  "workflow_instance sv early inp later w =
     (case signals sv early (new_actor, w) of
        (Inl e, st) \<Rightarrow> (Inl e, st)
      | (Inr _, st) \<Rightarrow>
          (case run_start sv inp st of (Inl e, st1) \<Rightarrow> (Inl e, st1) | (Inr _, st1) \<Rightarrow> signals sv later st1))"

lemma signals_before_start:
  "\<not> actor_running actor \<Longrightarrow>
   signals sv sgs (actor, w) = (Inr (), actor\<lparr>ra_pending_signals := ra_pending_signals actor @ sgs\<rparr>, w)"
proof (induction sgs arbitrary: actor)
  case (Cons sg sgs)
  let ?a = "actor\<lparr>ra_pending_signals := ra_pending_signals actor @ [sg]\<rparr>"
  have "\<not> actor_running ?a" using Cons.prems by (simp add: actor_running_def)
  from Cons.IH [OF this] Cons.prems show ?case by (simp add: signal_def)
qed simp

lemma handle_signals_append:
  "handle_signals sv (xs @ ys) st =
     (case handle_signals sv xs st of (Inl e, st1) \<Rightarrow> (Inl e, st1) | (Inr _, st1) \<Rightarrow> handle_signals sv ys st1)"
  by (induction sv xs st rule: handle_signals.induct) (auto split: prod.split sum.split)

text \<open>The start of a run: the events pinned before its first signal.\<close>

definition pinned_events :: "(runtime_event \<Rightarrow> runtime_event) \<Rightarrow> string \<Rightarrow> run_input \<Rightarrow> nat \<Rightarrow> runtime_event list" where
  "pinned_events canon now inp n =
     (case rn_policy_versions inp of None \<Rightarrow> []
      | Some pv \<Rightarrow> spec_number canon n (cm_events (policy_pinned_commit (rn_run_id inp) now pv)))"

text \<open>Signals without cause or peer are never ignored.\<close>

definition anonymous :: "actor_signal \<Rightarrow> bool" where
  "anonymous sg = (signal_cause sg = None \<and> sg_from_peer_run_id sg = None)"

lemma anonymous_accepted: "anonymous sg \<Longrightarrow> \<not> spec_ignores reject rid sg s"
  by (simp add: anonymous_def spec_ignores_def signal_token_def)

text \<open>A log that keeps room for a run it has accepted an event of, and the type and authority of the events.\<close>

locale run_log = event_log +
  assumes room_stays: "inv s \<Longrightarrow> room c s \<Longrightarrow> cm_events c \<noteq> [] \<Longrightarrow> cm_run_id c' = cm_run_id c \<Longrightarrow> room c' (snd (append c s))"
    and canon_authority: "ev_event_authority (canon e) = ev_event_authority e"
    and canon_type: "ev_event_type (canon e) = ev_event_type e"
begin

definition actor_sim ::
  "bool \<Rightarrow> string \<Rightarrow> run_actor \<times> ('a, 'e, 's, 't, 'd) actor_world \<Rightarrow> run_spec \<Rightarrow> bool" where
  "actor_sim reject rid st s = (case st of (actor, w) \<Rightarrow>
     ra_run_id actor = Some rid \<and> rid \<noteq> '''' \<and> ra_last_snapshot actor = None \<and>
     (\<exists>p. ra_last_projection actor = Some p \<and> same_state p (project_run reject rid (fst s))) \<and>
     ra_seen_signal_tokens actor = fst (snd s) \<and> ra_signal_sequence actor = snd (snd s) \<and>
     stream (aw_log w) rid = fst s \<and> inv (aw_log w) \<and> (\<forall>c. cm_run_id c = rid \<longrightarrow> room c (aw_log w)) \<and>
     service_in_sync reject (aw_log w) (aw_projections w) \<and> tail_ok reject (fst s))"

lemma spec_ignores_sim:
  "actor_sim reject rid (actor, w) s \<Longrightarrow>
   spec_ignores reject rid sg s = (peer_rejected actor sg \<or> (case signal_token sg of Some t \<Rightarrow> t \<in> set (ra_seen_signal_tokens actor) | None \<Rightarrow> False))"
  by (auto simp: actor_sim_def spec_ignores_def peer_rejected_def active_children_def dest!: same_stateD split: option.splits)

text \<open>Appending one authoritative event to the run.\<close>

lemma append_one:
  assumes "inv s" "\<forall>c. cm_run_id c = rid \<longrightarrow> room c s" "service_in_sync reject s v" "cm_run_id c = rid" "cm_events c = [e]"
    "ev_event_authority e = Authoritative_fact" "append c s = (res, s')"
  shows "\<exists>n. res = Inr n" "inv s'" "stream s' rid = stream s rid @ [(canon e)\<lparr>ev_commit_offset := int (length (stream s rid)) + 1\<rparr>]"
    "\<forall>c. cm_run_id c = rid \<longrightarrow> room c s'" "service_in_sync reject s' v" "tail_ok reject (stream s' rid)"
proof -
  have s': "s' = snd (append c s)" "res = fst (append c s)" using assms(7) by simp_all
  show "\<exists>n. res = Inr n" unfolding s' by (rule append_accepts) (simp add: assms(5))
  have room: "room c s" using assms(2,4) by simp
  show "inv s'" unfolding s' by (rule append_inv [OF assms(1) room])
  show str: "stream s' rid = stream s rid @ [(canon e)\<lparr>ev_commit_offset := int (length (stream s rid)) + 1\<rparr>]"
    unfolding s' using append_stream [OF assms(1) room, of rid] by (simp add: assms(4,5))
  show "\<forall>c. cm_run_id c = rid \<longrightarrow> room c s'"
    unfolding s' using room_stays [OF assms(1) room] assms(4,5) by simp
  show "service_in_sync reject s' v" unfolding s' by (rule append_in_sync [OF assms(1) room assms(3)])
  show "tail_ok reject (stream s' rid)"
    unfolding str tail_ok_def validate_projection_authority_input_def by (simp add: canon_authority assms(6))
qed

text \<open>The step of an accepted signal, in the order of the code.\<close>

lemma handle_accepted:
  assumes "actor_sim reject rid (actor, w) s" "as_append sv = append" "as_load sv = load"
    "\<not> spec_ignores reject rid sg s" "handle_signal sv sg (actor, w) = (res, actor', w')"
  shows "actor_sim reject rid (actor', w') (spec_signal canon reject rid (as_now sv) sg s)"
    "ra_last_projection actor' = Some (project_run reject rid (fst (spec_signal canon reject rid (as_now sv) sg s)))"
    "res = (if should_continue_as_new sv actor' then Inl (Continue_as_new (continue_as_new_input rid actor')) else Inr ())"
    "ra_history_event_count actor' = ra_history_event_count actor + 1 \<and> ra_pending_signals actor' = ra_pending_signals actor"
proof -
  note sim = assms(1) [unfolded actor_sim_def, simplified]
  let ?seq = "ra_signal_sequence actor + 1"
  obtain x v1 where g: "get_projection (\<lambda>r k. load r k (aw_log w)) rid (aw_projections w) = (x, v1)" by fastforce
  have x: "x = Inr (project_run reject rid (stream (aw_log w) rid))" "service_in_sync reject (aw_log w) v1"
    using get_in_sync [OF _ _ g] sim by blast+
  have off: "pj_projected_offset (project_run reject rid (stream (aw_log w) rid)) = int (length (fst s))"
    using project_run_offset [of "stream (aw_log w) rid" reject rid] stream_numbered [of "aw_log w" rid] sim by simp
  let ?c = "signal_commit rid ?seq (int (length (fst s)) + 1) (as_now sv) sg"
  obtain e where c: "cm_events ?c = [e]" "ev_event_authority e = Authoritative_fact" "cm_run_id ?c = rid" "ev_commit_offset e = int (length (fst s)) + 1"
    and e: "(canon e)\<lparr>ev_commit_offset := int (length (fst s)) + 1\<rparr> = spec_event canon rid (as_now sv) sg s"
    using sim by (simp add: signal_commit_def mk_commit_def mk_event_def spec_event_def)
  obtain y l where ap: "append ?c (aw_log w) = (y, l)" by fastforce
  have a: "\<exists>n. y = Inr n" "inv l" "stream l rid = stream (aw_log w) rid @ [(canon e)\<lparr>ev_commit_offset := int (length (stream (aw_log w) rid)) + 1\<rparr>]"
    "\<forall>c. cm_run_id c = rid \<longrightarrow> room c l" "service_in_sync reject l v1" "tail_ok reject (stream l rid)"
    using append_one [OF _ _ x(2) c(3,1,2) ap] sim by blast+
  have l: "stream l rid = fst s @ [spec_event canon rid (as_now sv) sg s]" using a(3) e sim by simp
  let ?t = "case signal_token sg of None \<Rightarrow> [] | Some t \<Rightarrow> [t]"
  let ?a2 = "actor\<lparr>ra_signal_sequence := ?seq, ra_seen_signal_tokens := ra_seen_signal_tokens actor @ ?t\<rparr>"
  let ?w2 = "w\<lparr>aw_projections := v1, aw_log := l\<rparr>"
  have a2: "(case signal_token sg of Some t \<Rightarrow> actor\<lparr>ra_signal_sequence := ?seq,
        ra_seen_signal_tokens := ra_seen_signal_tokens (actor\<lparr>ra_signal_sequence := ?seq\<rparr>) @ [t]\<rparr>
      | None \<Rightarrow> actor\<lparr>ra_signal_sequence := ?seq\<rparr>) = ?a2" by (simp split: option.split)
  obtain z a3 w3 where p: "process_action_commit sv ?c None (?a2, ?w2) = (z, a3, w3)" by (metis prod_cases3)
  have diag: "no_derived_diagnostic_authority_input ?c" by (simp add: no_derived_diagnostic_authority_input_def c)
  have p3: "z = Inr ()" "a3 = ?a2\<lparr>ra_last_projection := Some (project_run reject rid (stream l rid))\<rparr>"
    "aw_log w3 = l" "service_in_sync reject l (aw_projections w3)"
    using process_without_action [of ?w2 reject sv ?c ?a2 z a3 w3] a assms(3) diag c p l by simp_all
  have ig: "\<not> peer_rejected actor sg" "\<not> (case signal_token sg of Some t \<Rightarrow> t \<in> set (ra_seen_signal_tokens actor) | None \<Rightarrow> False)"
    using assms(4) spec_ignores_sim [OF assms(1), of sg] by auto
  have run: "ra_run_id actor = Some rid" "rid \<noteq> ''''" using sim by simp_all
  obtain n where n: "y = Inr n" using a(1) by blast
  let ?a4 = "a3\<lparr>ra_history_event_count := ra_history_event_count a3 + 1\<rparr>"
  have "handle_signal sv sg (actor, w) = (if should_continue_as_new sv ?a4
      then (Inl (Continue_as_new (continue_as_new_input rid ?a4)), ?a4, w3) else (Inr (), ?a4, w3))"
    unfolding handle_signal_def by (simp add: run ig assms(2,3) g x(1) off ap n a2 p p3(1) Let_def)
  then have r: "actor' = ?a4" "w' = w3" "res = (if should_continue_as_new sv ?a4 then Inl (Continue_as_new (continue_as_new_input rid ?a4)) else Inr ())"
    using assms(5) by (auto split: if_splits)
  show "actor_sim reject rid (actor', w') (spec_signal canon reject rid (as_now sv) sg s)"
    using sim a p3 assms(4) l by (simp add: actor_sim_def r spec_signal_def)
  show "ra_last_projection actor' = Some (project_run reject rid (fst (spec_signal canon reject rid (as_now sv) sg s)))"
    using p3(2) assms(4) l by (simp add: r spec_signal_def)
  show "res = (if should_continue_as_new sv actor' then Inl (Continue_as_new (continue_as_new_input rid actor')) else Inr ())"
    "ra_history_event_count actor' = ra_history_event_count actor + 1 \<and> ra_pending_signals actor' = ra_pending_signals actor"
    using r p3(2) by simp_all
qed

lemma handle_ignored:
  assumes "actor_sim reject rid (actor, w) s" "spec_ignores reject rid sg s"
  shows "handle_signal sv sg (actor, w) = (Inr (), actor, w)"
  using assms spec_ignores_sim [OF assms(1), of sg] by (auto simp: handle_signal_def actor_sim_def)

text \<open>While no restart is due, a sequence of signals is a fold of the specification.\<close>

definition no_restart :: "('a, 'e, 's, 't, 'd, 'i) actor_services \<Rightarrow> run_actor \<Rightarrow> nat \<Rightarrow> bool" where
  "no_restart sv actor n = (\<not> as_temporal sv \<or> ra_history_event_count actor + int n < as_history_event_threshold sv)"

lemma handle_signals_sim:
  assumes "actor_sim reject rid st s" "as_append sv = append" "as_load sv = load" "no_restart sv (fst st) (length sgs)"
  shows "\<exists>st'. handle_signals sv sgs st = (Inr (), st') \<and>
    actor_sim reject rid st' (fold (spec_signal canon reject rid (as_now sv)) sgs s) \<and>
    (ra_last_projection (fst st) = Some (project_run reject rid (fst s)) \<longrightarrow>
       ra_last_projection (fst st') = Some (project_run reject rid (fst (fold (spec_signal canon reject rid (as_now sv)) sgs s))))"
  using assms(1,4)
proof (induction sgs arbitrary: st s)
  case (Cons sg sgs)
  obtain actor w where st: "st = (actor, w)" by fastforce
  show ?case
  proof (cases "spec_ignores reject rid sg s")
    case True
    have "no_restart sv (fst st) (length sgs)" using Cons.prems(2) by (auto simp: no_restart_def)
    moreover have "spec_signal canon reject rid (as_now sv) sg s = s" using True by (simp add: spec_signal_def)
    moreover have "handle_signal sv sg st = (Inr (), st)" unfolding st by (rule handle_ignored [OF Cons.prems(1) [unfolded st] True])
    ultimately show ?thesis using Cons.IH [OF Cons.prems(1)] by simp
  next
    case False
    obtain res actor' w' where h: "handle_signal sv sg (actor, w) = (res, actor', w')" by (metis prod_cases3)
    note acc = handle_accepted [OF Cons.prems(1) [unfolded st] assms(2,3) False h]
    have nr: "no_restart sv actor' (length sgs)" "\<not> should_continue_as_new sv actor'"
      using Cons.prems(2) acc(4) by (auto simp: no_restart_def should_continue_as_new_def st)
    then have "res = Inr ()" using acc(3) by simp
    then have "handle_signals sv (sg # sgs) st = handle_signals sv sgs (actor', w')" by (simp add: st h)
    with Cons.IH [OF acc(1)] nr(1) acc(2) show ?thesis by (auto simp: st)
  qed
qed simp

lemma handle_signals_counts:
  assumes "actor_sim reject rid st s" "as_append sv = append" "as_load sv = load" "no_restart sv (fst st) (length sgs)" "list_all anonymous sgs"
  shows "\<exists>st'. handle_signals sv sgs st = (Inr (), st') \<and>
    actor_sim reject rid st' (fold (spec_signal canon reject rid (as_now sv)) sgs s) \<and>
    ra_history_event_count (fst st') = ra_history_event_count (fst st) + int (length sgs) \<and>
    ra_pending_signals (fst st') = ra_pending_signals (fst st)"
  using assms(1,4,5)
proof (induction sgs arbitrary: st s)
  case (Cons sg sgs)
  obtain actor w where st: "st = (actor, w)" by fastforce
  have False': "\<not> spec_ignores reject rid sg s" using Cons.prems(3) by (simp add: anonymous_accepted)
  obtain res actor' w' where h: "handle_signal sv sg (actor, w) = (res, actor', w')" by (metis prod_cases3)
  note acc = handle_accepted [OF Cons.prems(1) [unfolded st] assms(2,3) False' h]
  have nr: "no_restart sv actor' (length sgs)" "\<not> should_continue_as_new sv actor'"
    using Cons.prems(2) acc(4) by (auto simp: no_restart_def should_continue_as_new_def st)
  then have "res = Inr ()" using acc(3) by simp
  then have "handle_signals sv (sg # sgs) st = handle_signals sv sgs (actor', w')" by (simp add: st h)
  with Cons.IH [OF acc(1)] nr(1) acc(4) Cons.prems(3) show ?case by (auto simp: st)
qed simp

text \<open>The signal that reaches the threshold ends the loop over a batch; what follows it in the batch is not handled.\<close>

lemma batch_cut_at_threshold:
  assumes "actor_sim reject rid st s" "as_append sv = append" "as_load sv = load" "as_temporal sv"
    "list_all anonymous (xs @ [sg])" "ra_history_event_count (fst st) + int (length (xs @ [sg])) = as_history_event_threshold sv"
    "ra_pending_signals (fst st) = []"
    "\<not> run_settled (project_run reject rid (fst (fold (spec_signal canon reject rid (as_now sv)) (xs @ [sg]) s)))"
  shows "\<exists>inp' actor' w'. handle_signals sv (xs @ [sg] @ ys) st = (Inl (Continue_as_new inp'), actor', w') \<and> rn_pending_signals inp' = [] \<and>
    actor_sim reject rid (actor', w') (fold (spec_signal canon reject rid (as_now sv)) (xs @ [sg]) s)"
proof -
  let ?s1 = "fold (spec_signal canon reject rid (as_now sv)) xs s"
  have nr: "no_restart sv (fst st) (length xs)" "list_all anonymous xs" using assms(5,6) by (simp_all add: no_restart_def)
  obtain actor w where st1: "handle_signals sv xs st = (Inr (), actor, w)" "actor_sim reject rid (actor, w) ?s1"
    "ra_history_event_count actor = ra_history_event_count (fst st) + int (length xs)" "ra_pending_signals actor = []"
    using handle_signals_counts [OF assms(1-3) nr] assms(7) by auto
  have acc': "\<not> spec_ignores reject rid sg ?s1" using assms(5) by (simp add: anonymous_accepted)
  obtain res actor' w' where h: "handle_signal sv sg (actor, w) = (res, actor', w')" by (metis prod_cases3)
  note acc = handle_accepted [OF st1(2) assms(2,3) acc' h]
  have "should_continue_as_new sv actor'"
    using acc(2,4) st1(3,4) assms(4,6,8) by (auto simp: should_continue_as_new_def run_settled_def)
  then have "res = Inl (Continue_as_new (continue_as_new_input rid actor'))" using acc(3) by simp
  then have "handle_signals sv (xs @ [sg] @ ys) st = (Inl (Continue_as_new (continue_as_new_input rid actor')), actor', w')"
    using st1(1) h by (simp add: handle_signals_append)
  moreover have "rn_pending_signals (continue_as_new_input rid actor') = []" using acc(4) st1(4) by (simp add: continue_as_new_input_def)
  ultimately show ?thesis using acc(1) by auto
qed

lemma handle_signal_sim:
  assumes "actor_sim reject rid (actor, w) s" "as_append sv = append" "as_load sv = load"
    "handle_signal sv sg (actor, w) = (res, actor', w')"
  shows "actor_sim reject rid (actor', w') (spec_signal canon reject rid (as_now sv) sg s)"
proof (cases "spec_ignores reject rid sg s")
  case True
  with handle_ignored [OF assms(1) True, of sv] assms(1,4) show ?thesis by (simp add: spec_signal_def)
qed (rule handle_accepted(1) [OF assms(1-3) _ assms(4)])

lemma signals_sim:
  assumes "actor_sim reject rid st s" "as_append sv = append" "as_load sv = load"
  shows "signals sv sgs st = handle_signals sv sgs st"
  using assms(1)
proof (induction sgs arbitrary: st s)
  case (Cons sg sgs)
  obtain actor w where st: "st = (actor, w)" by fastforce
  have run: "actor_running actor" using Cons.prems by (simp add: st actor_sim_def actor_running_def)
  obtain res actor' w' where h: "handle_signal sv sg (actor, w) = (res, actor', w')" by (metis prod_cases3)
  note sim = handle_signal_sim [OF Cons.prems [unfolded st] assms(2,3) h]
  show ?case using Cons.IH [OF sim] run by (simp add: st signal_def h split: sum.split)
qed simp

lemma run_start_sim:
  assumes "inv (aw_log w)" "service_in_sync reject (aw_log w) (aw_projections w)" "as_append sv = append" "as_load sv = load"
    "\<forall>c. cm_run_id c = rid \<longrightarrow> room c (aw_log w)" "tail_ok reject (stream (aw_log w) rid)"
    "rn_run_id inp = rid" "rid \<noteq> ''''"
  defines "es \<equiv> stream (aw_log w) rid @ pinned_events canon (as_now sv) inp (length (stream (aw_log w) rid))"
  shows "\<exists>st. run_start sv inp (new_actor\<lparr>ra_pending_signals := early\<rparr>, w) = handle_signals sv (early @ rn_pending_signals inp) st \<and>
    actor_sim reject rid st (es, [], 0) \<and> ra_history_event_count (fst st) = 0 \<and> ra_pending_signals (fst st) = [] \<and>
    (rn_policy_versions inp = None \<longrightarrow> ra_last_projection (fst st) = Some (project_run reject rid es))"
proof -
  obtain x v1 where g: "get_projection (\<lambda>r k. load r k (aw_log w)) rid (aw_projections w) = (x, v1)" by fastforce
  note x = get_in_sync [OF assms(1,2) g]
  let ?p = "project_run reject rid (stream (aw_log w) rid)"
  let ?a = "new_actor\<lparr>ra_run_id := Some rid, ra_session_id := rn_session_id inp, ra_parent_run_id := rn_parent_run_id inp,
      ra_policy_versions := rn_policy_versions inp, ra_active_stage_id := rn_initial_stage_id inp, ra_last_projection := Some ?p\<rparr>"
  show ?thesis
  proof (cases "rn_policy_versions inp")
    case None
    have "run_start sv inp (new_actor\<lparr>ra_pending_signals := early\<rparr>, w) =
        handle_signals sv (early @ rn_pending_signals inp) (?a, w\<lparr>aw_projections := v1\<rparr>)"
      by (simp add: run_start_def assms(3,4,7) g x(1) None Let_def new_actor_def)
    moreover have "actor_sim reject rid (?a, w\<lparr>aw_projections := v1\<rparr>) (es, [], 0)"
      using assms(1,5,6,8) x(2) by (simp add: actor_sim_def es_def pinned_events_def None new_actor_def)
    moreover have "ra_history_event_count ?a = 0" "ra_pending_signals ?a = []" "ra_last_projection ?a = Some (project_run reject rid es)"
      by (simp_all add: new_actor_def es_def pinned_events_def None)
    ultimately show ?thesis by fastforce
  next
    case (Some pv)
    let ?c = "policy_pinned_commit rid (as_now sv) pv"
    obtain e where c: "cm_events ?c = [e]" "ev_event_authority e = Authoritative_fact" "cm_run_id ?c = rid"
      "ev_event_type e = ''run.policy_versions_pinned''"
      by (simp add: policy_pinned_commit_def mk_commit_def mk_event_def)
    obtain y l where ap: "append ?c (aw_log w) = (y, l)" by fastforce
    note a = append_one [OF assms(1,5) x(2) c(3,1,2) ap]
    obtain n where n: "y = Inr n" using a(1) by blast
    have es: "stream l rid = es" unfolding a(3) es_def by (simp add: pinned_events_def Some assms(7) c(1))
    have "same_state ?p (project_run reject rid es)"
      unfolding es [symmetric] a(3)
      by (subst project_run_snoc) (simp_all add: validate_projection_authority_input_def canon_authority canon_type c pinned_keeps_state)
    then have "actor_sim reject rid (?a, w\<lparr>aw_projections := v1, aw_log := l\<rparr>) (es, [], 0)"
      using a(2,4,5,6) es assms(8) by (simp add: actor_sim_def new_actor_def)
    moreover have "run_start sv inp (new_actor\<lparr>ra_pending_signals := early\<rparr>, w) =
        handle_signals sv (early @ rn_pending_signals inp) (?a, w\<lparr>aw_projections := v1, aw_log := l\<rparr>)"
      by (simp add: run_start_def assms(3,4,7) g x(1) Some ap n Let_def new_actor_def)
    moreover have "ra_history_event_count ?a = 0" "ra_pending_signals ?a = []" by (simp_all add: new_actor_def)
    ultimately show ?thesis using Some by fastforce
  qed
qed

text \<open>A whole workflow instance: early, carried-over and later signals are one sequence.\<close>

lemma workflow_instance_sim:
  assumes "inv (aw_log w)" "service_in_sync reject (aw_log w) (aw_projections w)" "as_append sv = append" "as_load sv = load"
    "\<forall>c. cm_run_id c = rid \<longrightarrow> room c (aw_log w)" "tail_ok reject (stream (aw_log w) rid)"
    "rn_run_id inp = rid" "rid \<noteq> ''''"
    "\<not> as_temporal sv \<or> int (length (early @ rn_pending_signals inp @ later)) < as_history_event_threshold sv"
  defines "es \<equiv> stream (aw_log w) rid @ pinned_events canon (as_now sv) inp (length (stream (aw_log w) rid))"
  shows "\<exists>st. workflow_instance sv early inp later w = (Inr (), st) \<and>
    actor_sim reject rid st (fold (spec_signal canon reject rid (as_now sv)) (early @ rn_pending_signals inp @ later) (es, [], 0)) \<and>
    (rn_policy_versions inp = None \<longrightarrow> ra_last_projection (fst st) =
       Some (project_run reject rid (fst (fold (spec_signal canon reject rid (as_now sv)) (early @ rn_pending_signals inp @ later) (es, [], 0)))))"
proof -
  have early: "signals sv early (new_actor, w) = (Inr (), new_actor\<lparr>ra_pending_signals := early\<rparr>, w)"
    using signals_before_start [of new_actor sv early w] by (simp add: new_actor_def actor_running_def)
  obtain st0 where st0: "run_start sv inp (new_actor\<lparr>ra_pending_signals := early\<rparr>, w) = handle_signals sv (early @ rn_pending_signals inp) st0"
    "actor_sim reject rid st0 (es, [], 0)" "ra_history_event_count (fst st0) = 0"
    "rn_policy_versions inp = None \<longrightarrow> ra_last_projection (fst st0) = Some (project_run reject rid es)"
    using run_start_sim [OF assms(1-8), of early, folded es_def] by (elim exE conjE) (rule that; assumption)
  have nr: "no_restart sv (fst st0) (length (early @ rn_pending_signals inp))" "no_restart sv (fst st0) (length (early @ rn_pending_signals inp @ later))"
    using assms(9) st0(3) by (auto simp: no_restart_def)
  obtain st1 where st1: "handle_signals sv (early @ rn_pending_signals inp) st0 = (Inr (), st1)"
    "actor_sim reject rid st1 (fold (spec_signal canon reject rid (as_now sv)) (early @ rn_pending_signals inp) (es, [], 0))"
    using handle_signals_sim [OF st0(2) assms(3,4) nr(1)] by (elim exE conjE) (rule that; assumption)
  have "workflow_instance sv early inp later w = handle_signals sv later st1"
    unfolding workflow_instance_def by (simp add: early st0(1) st1(1) signals_sim [OF st1(2) assms(3,4)])
  also have "\<dots> = handle_signals sv (early @ rn_pending_signals inp @ later) st0"
    using st1(1) handle_signals_append [of sv "early @ rn_pending_signals inp" later st0] by simp
  finally have eq: "workflow_instance sv early inp later w = handle_signals sv (early @ rn_pending_signals inp @ later) st0" .
  let ?F = "fold (spec_signal canon reject rid (as_now sv)) (early @ rn_pending_signals inp @ later) (es, [], 0)"
  obtain st2 where st2: "handle_signals sv (early @ rn_pending_signals inp @ later) st0 = (Inr (), st2)" "actor_sim reject rid st2 ?F"
    "ra_last_projection (fst st0) = Some (project_run reject rid es) \<longrightarrow> ra_last_projection (fst st2) = Some (project_run reject rid (fst ?F))"
    using handle_signals_sim [OF st0(2) assms(3,4) nr(2)] unfolding fst_conv by (elim exE conjE) (rule that; assumption)
  show ?thesis unfolding eq by (rule exI [of _ st2]) (intro conjI impI st2(1,2) mp [OF st2(3)] mp [OF st0(4)])
qed

text \<open>An instance that is sent one signal of its own, restart or not.\<close>

lemma instance_of_one_signal:
  assumes "inv (aw_log w)" "service_in_sync reject (aw_log w) (aw_projections w)" "as_append sv = append" "as_load sv = load"
    "\<forall>c. cm_run_id c = rid \<longrightarrow> room c (aw_log w)" "tail_ok reject (stream (aw_log w) rid)"
    "rn_run_id inp = rid" "rid \<noteq> ''''" "rn_pending_signals inp = []" "rn_policy_versions inp = None" "sg_from_peer_run_id sg = None"
    "workflow_instance sv [] inp [sg] w = (res, actor', w')"
  shows "actor_sim reject rid (actor', w') (spec_signal canon reject rid (as_now sv) sg (stream (aw_log w) rid, [], 0))"
    "stream (aw_log w') rid = stream (aw_log w) rid @ [spec_event canon rid (as_now sv) sg (stream (aw_log w) rid, [], 0)]"
    "res = (if should_continue_as_new sv actor' then Inl (Continue_as_new (continue_as_new_input rid actor')) else Inr ())"
proof -
  let ?s = "(stream (aw_log w) rid, [] :: string list, 0 :: int)"
  obtain st0 where st0: "run_start sv inp (new_actor, w) = (Inr (), st0)" "actor_sim reject rid st0 ?s"
    using run_start_sim [OF assms(1-8), of "[]"] by (auto simp: assms(9,10) pinned_events_def new_actor_def)
  obtain actor0 w0 where s0: "st0 = (actor0, w0)" by fastforce
  have acc: "\<not> spec_ignores reject rid sg ?s" by (simp add: spec_ignores_def assms(11) split: option.split)
  have run: "actor_running actor0" using st0(2) by (simp add: s0 actor_sim_def actor_running_def)
  have h: "handle_signal sv sg (actor0, w0) = (res, actor', w')"
    using assms(12) by (auto simp: workflow_instance_def st0(1) s0 signal_def run split: prod.splits sum.splits)
  note a = handle_accepted [OF st0(2) [unfolded s0] assms(3,4) acc h]
  show "actor_sim reject rid (actor', w') (spec_signal canon reject rid (as_now sv) sg ?s)"
    "res = (if should_continue_as_new sv actor' then Inl (Continue_as_new (continue_as_new_input rid actor')) else Inr ())"
    by (fact a(1), fact a(3))
  show "stream (aw_log w') rid = stream (aw_log w) rid @ [spec_event canon rid (as_now sv) sg ?s]"
    using a(1) acc by (simp add: actor_sim_def spec_signal_def)
qed

end

section \<open>The two logs\<close>

interpretation mem_run_log: run_log "mem_append cap" mem_load mem_log_ok mem_stream mem_norm "mem_room cap" for cap
proof
  show "mem_room cap c' (snd (mem_append cap c s))"
    if "mem_log_ok s" "mem_room cap c s" "cm_events c \<noteq> []" "cm_run_id c' = cm_run_id c" for s c c'
    using that mem_append_stream [OF that(1,2,3)] by (auto simp: mem_room_def length_dict_set keys_dict_set [unfolded set_map])
qed (simp_all add: mem_norm_def)

interpretation sqlite_run_log: run_log "sqlite_append dumps" "sqlite_load loads" log_db_ok "db_stream loads"
    "db_norm dumps loads" "\<lambda>_ _. True" for dumps loads
  by unfold_locales (simp_all add: db_norm_def)

lemma sqlite_load_all: "log_db_ok db \<Longrightarrow> sqlite_load loads rid 0 db = db_stream loads db rid"
  using sqlite_log.load_drop [of db 0 loads rid] by simp

lemma fresh_in_sync [simp]: "sqlite_log.service_in_sync loads reject db (fresh_service reject None)"
  unfolding sqlite_log.service_in_sync_def sqlite_log.service_ok_def
  by (auto simp: fresh_service_def stored_projection_def intro: exI [of _ 0])

lemma sqlite_instance_sim:
  assumes "as_append sv = sqlite_append dumps" "as_load sv = sqlite_load loads"
    and "log_db_ok (aw_log w)" "aw_projections w = fresh_service reject (None :: 'e migrator option)"
    and "tail_ok reject (sqlite_load loads rid 0 (aw_log w))" "rn_run_id inp = rid" "rid \<noteq> ''''"
    and "\<not> as_temporal sv \<or> int (length (early @ rn_pending_signals inp @ later)) < as_history_event_threshold sv"
    and s_def: "s = fold (spec_signal (db_norm dumps loads) reject rid (as_now sv)) (early @ rn_pending_signals inp @ later)
      (sqlite_load loads rid 0 (aw_log w) @
       pinned_events (db_norm dumps loads) (as_now sv) inp (length (sqlite_load loads rid 0 (aw_log w))), [], 0)"
  shows "\<exists>actor w' p. workflow_instance sv early inp later w = (Inr (), actor, w') \<and> sqlite_load loads rid 0 (aw_log w') = fst s \<and>
    query actor = (Inr p :: 'e actor_error + run_projection) \<and> same_state p (project_run reject rid (fst s)) \<and>
    (rn_policy_versions inp = None \<longrightarrow> p = project_run reject rid (fst s)) \<and>
    sqlite_run_log.actor_sim loads reject rid (actor, w') s"
proof -
  have sync: "sqlite_log.service_in_sync loads reject (aw_log w) (aw_projections w)" by (simp add: assms(4))
  obtain actor w' where st: "workflow_instance sv early inp later w = (Inr (), actor, w')"
    "sqlite_run_log.actor_sim loads reject rid (actor, w') s"
    "rn_policy_versions inp = None \<longrightarrow> ra_last_projection actor = Some (project_run reject rid (fst s))"
    using sqlite_run_log.workflow_instance_sim [OF assms(3) sync assms(1,2) _ _ assms(6,7,8)] assms(5)
    unfolding s_def sqlite_load_all [OF assms(3)] by auto
  note sim = st(2) [unfolded sqlite_run_log.actor_sim_def, simplified]
  obtain p where p: "ra_last_projection actor = Some p" "same_state p (project_run reject rid (fst s))" using sim by blast
  have "query actor = Inr p" using sim by (simp add: query_def actor_running_def p(1))
  moreover have "sqlite_load loads rid 0 (aw_log w') = fst s" using sim sqlite_load_all [of "aw_log w'" loads rid] by simp
  ultimately show ?thesis using st p by auto
qed

text \<open>C34. A workflow instance on the durable log is a fold over its signals: those delivered before the start, those carried
  over in the input and those delivered later act as one sequence; each is ignored when its peer is
  no active child or its token was applied, and is otherwise one more event, numbered and projected;
  the log ends as the specification says, nothing is raised while no restart is due, and a query answers
  the replay of that log, up to the offset when policy versions were pinned first. This is for a projection service without a
  migrator, a log whose last event the projection does not skip (\<open>tail_ok\<close>), and, under Temporal, fewer signals than the
  history threshold.\<close>

theorem actor_refines_signal_fold:
  assumes "as_append sv = sqlite_append dumps" "as_load sv = sqlite_load loads"
    and "log_db_ok (aw_log w)" "aw_projections w = fresh_service reject (None :: 'e migrator option)"
    and "tail_ok reject (sqlite_load loads rid 0 (aw_log w))" "rn_run_id inp = rid" "rid \<noteq> ''''"
    and "\<not> as_temporal sv \<or> int (length (early @ rn_pending_signals inp @ later)) < as_history_event_threshold sv"
    and "s = fold (spec_signal (db_norm dumps loads) reject rid (as_now sv)) (early @ rn_pending_signals inp @ later)
      (sqlite_load loads rid 0 (aw_log w) @
       pinned_events (db_norm dumps loads) (as_now sv) inp (length (sqlite_load loads rid 0 (aw_log w))), [], 0)"
  shows "\<exists>actor w' p. workflow_instance sv early inp later w = (Inr (), actor, w') \<and> sqlite_load loads rid 0 (aw_log w') = fst s \<and>
    query actor = (Inr p :: 'e actor_error + run_projection) \<and> same_state p (project_run reject rid (fst s)) \<and>
    (rn_policy_versions inp = None \<longrightarrow> p = project_run reject rid (fst s))"
  using sqlite_instance_sim [OF assms] by (elim exE conjE) (intro exI conjI; assumption)

section \<open>Cancelling and repeating\<close>

lemma fst_spec_signal:
  "\<exists>es. fst (spec_signal canon reject rid now sg s) = fst s @ es \<and> length es \<le> 1"
  by (simp add: spec_signal_def)

text \<open>What the tokens of cancel signals say: the run is over.\<close>

definition cancel_tokens_ok :: "bool \<Rightarrow> string \<Rightarrow> run_spec \<Rightarrow> bool" where
  "cancel_tokens_ok reject rid s =
     ((\<exists>c. ''cancel_requested'' @ '':'' @ c \<in> set (fst (snd s))) \<longrightarrow> run_settled (project_run reject rid (fst s)))"

lemma token_type:
  assumes "signal_token sg = Some (''cancel_requested'' @ '':'' @ c)" "CHR '':'' \<notin> set (sg_signal_type sg)"
  shows "sg_signal_type sg = ''cancel_requested''"
proof -
  obtain d where "sg_signal_type sg @ CHR '':'' # d = ''cancel_requested'' @ CHR '':'' # c"
    using assms(1) by (auto simp: signal_token_def)
  then have "takeWhile (\<lambda>x. x \<noteq> CHR '':'') (sg_signal_type sg @ CHR '':'' # d) = takeWhile (\<lambda>x. x \<noteq> CHR '':'') (''cancel_requested'' @ CHR '':'' # c)"
    by simp
  moreover have "takeWhile (\<lambda>x. x \<noteq> CHR '':'') (sg_signal_type sg @ CHR '':'' # d) = sg_signal_type sg"
    using assms(2) by (subst takeWhile_append2) auto
  ultimately show ?thesis by simp
qed

lemma spec_event_valid:
  "ev_event_authority (canon (mk_event rid i k ty Fact Authoritative_fact Wake_actor now None pl)) = Authoritative_fact"
  if "\<And>e. ev_event_authority (canon e) = ev_event_authority e"
  by (simp add: that mk_event_def)

lemma spec_signal_settles:
  assumes "\<And>e. ev_event_authority (canon e) = ev_event_authority e" "\<And>e. ev_event_type (canon e) = ev_event_type e"
  shows "run_settled (project_run reject rid (fst s)) \<Longrightarrow> run_settled (project_run reject rid (fst (spec_signal canon reject rid now sg s)))"
    and "\<not> spec_ignores reject rid sg s \<Longrightarrow> sg_signal_type sg = ''cancel_requested'' \<Longrightarrow>
      run_settled (project_run reject rid (fst (spec_signal canon reject rid now sg s)))"
proof -
  let ?e = "spec_event canon rid now sg s"
  have "ev_event_authority ?e = Authoritative_fact" by (simp add: spec_event_def assms(1) mk_event_def)
  then have snoc: "project_run reject rid (fst s @ [?e]) = apply_projection_event (project_run reject rid (fst s)) ?e"
    by (intro project_run_snoc) (simp add: validate_projection_authority_input_def)
  show "run_settled (project_run reject rid (fst (spec_signal canon reject rid now sg s)))" if "run_settled (project_run reject rid (fst s))"
    using that settled_step [OF that, of ?e] by (simp add: spec_signal_def snoc run_settled_def)
  show "run_settled (project_run reject rid (fst (spec_signal canon reject rid now sg s)))"
    if "\<not> spec_ignores reject rid sg s" "sg_signal_type sg = ''cancel_requested''"
  proof -
    have "ev_event_type ?e = ''run.cancel_requested''"
      by (simp add: spec_event_def assms(2) mk_event_def that(2) signal_event_type_def SIGNAL_EVENT_TYPE_MAP_def)
    then show ?thesis using that(1) cancel_settles [of ?e] by (simp add: spec_signal_def snoc)
  qed
qed

lemma fold_spec_cancel:
  assumes "\<And>e. ev_event_authority (canon e) = ev_event_authority e" "\<And>e. ev_event_type (canon e) = ev_event_type e"
    and "\<forall>sg\<in>set sgs. CHR '':'' \<notin> set (sg_signal_type sg)" "cancel_tokens_ok reject rid s"
    and "run_settled (project_run reject rid (fst s)) \<or>
      (\<exists>sg\<in>set sgs. sg_signal_type sg = ''cancel_requested'' \<and> sg_from_peer_run_id sg = None)"
  shows "run_settled (project_run reject rid (fst (fold (spec_signal canon reject rid now) sgs s)))"
  using assms(3-5)
proof (induction sgs arbitrary: s)
  case (Cons sg sgs)
  let ?s = "spec_signal canon reject rid now sg s"
  note settles = spec_signal_settles [OF assms(1,2)]
  have cancel_type: "sg_signal_type sg = ''cancel_requested''" if "signal_token sg = Some (''cancel_requested'' @ '':'' @ c)" for c
    using token_type [OF that] Cons.prems(1) by simp
  have "cancel_tokens_ok reject rid ?s"
  proof (cases "run_settled (project_run reject rid (fst ?s))")
    case False
    then have "\<not> run_settled (project_run reject rid (fst s))" "spec_ignores reject rid sg s \<or> sg_signal_type sg \<noteq> ''cancel_requested''"
      using settles by blast+
    with Cons.prems(2) cancel_type False show ?thesis by (auto simp: cancel_tokens_ok_def spec_signal_def split: option.splits)
  qed (simp add: cancel_tokens_ok_def)
  moreover have "run_settled (project_run reject rid (fst ?s)) \<or>
      (\<exists>sg\<in>set sgs. sg_signal_type sg = ''cancel_requested'' \<and> sg_from_peer_run_id sg = None)"
  proof (cases "run_settled (project_run reject rid (fst s)) \<or> (\<exists>sg\<in>set sgs. sg_signal_type sg = ''cancel_requested'' \<and> sg_from_peer_run_id sg = None)")
    case False
    then have c: "sg_signal_type sg = ''cancel_requested''" "sg_from_peer_run_id sg = None" using Cons.prems(3) by auto
    have "\<not> spec_ignores reject rid sg s"
      using Cons.prems(2) False c by (auto simp: spec_ignores_def cancel_tokens_ok_def signal_token_def split: option.splits)
    then show ?thesis using settles(2) c(1) by blast
  qed (use settles(1) in blast)
  ultimately show ?case using Cons.IH [of ?s] Cons.prems(1) by simp
qed simp

lemma db_norm_keeps: "ev_event_authority (db_norm dumps loads e) = ev_event_authority e" "ev_event_type (db_norm dumps loads e) = ev_event_type e"
  by (simp_all add: db_norm_def)

text \<open>C36. Cancelling ends a run, as long as its workflow is not restarted. Take a workflow instance on a well-formed durable log, with a
  projection service without a migrator and a log whose last event the projection does not skip. Either it runs outside Temporal, or the
  signals before the start, carried over and delivered later are together fewer than the history threshold, so that it never
  continues as new (a restart can lose a buffered cancel: \<open>restart_drops_buffered_signals\<close>); and no signal type contains a colon, which
  could forge a token. Then, once a cancel signal that names no peer is among those signals, wherever it comes in the sequence, the
  instance ends without an error with the run in a terminal state (which is what the workflow waits for), and its projection says
  aborted or completed.\<close>

theorem cancel_ends_the_run:
  assumes "as_append sv = sqlite_append dumps" "as_load sv = sqlite_load loads"
    and "log_db_ok (aw_log w)" "aw_projections w = fresh_service reject (None :: 'e migrator option)"
    and "tail_ok reject (sqlite_load loads rid 0 (aw_log w))" "rn_run_id inp = rid" "rid \<noteq> ''''"
    and "\<not> as_temporal sv \<or> int (length (early @ rn_pending_signals inp @ later)) < as_history_event_threshold sv"
    and "\<forall>sg\<in>set (early @ rn_pending_signals inp @ later). CHR '':'' \<notin> set (sg_signal_type sg)"
    and "sg \<in> set (early @ rn_pending_signals inp @ later)" "sg_signal_type sg = ''cancel_requested''" "sg_from_peer_run_id sg = None"
  shows "\<exists>actor w' p. workflow_instance sv early inp later w = (Inr (), actor, w') \<and> is_run_terminal actor \<and>
    query actor = (Inr p :: 'e actor_error + run_projection) \<and> pj_lifecycle_state p \<in> {L_aborted, L_completed}"
proof -
  let ?s = "fold (spec_signal (db_norm dumps loads) reject rid (as_now sv)) (early @ rn_pending_signals inp @ later)
      (sqlite_load loads rid 0 (aw_log w) @
       pinned_events (db_norm dumps loads) (as_now sv) inp (length (sqlite_load loads rid 0 (aw_log w))), [], 0)"
  have "run_settled (project_run reject rid (fst ?s))"
    by (rule fold_spec_cancel [OF db_norm_keeps assms(9)]) (use assms(10-12) in \<open>auto simp: cancel_tokens_ok_def\<close>)
  moreover obtain actor w' p where i: "workflow_instance sv early inp later w = (Inr (), actor, w')"
    "query actor = (Inr p :: 'e actor_error + run_projection)" "same_state p (project_run reject rid (fst ?s))"
    using sqlite_instance_sim [OF assms(1-8) refl] by (elim exE conjE) (rule that; assumption)
  ultimately have p: "pj_lifecycle_state p \<in> {L_aborted, L_completed}" using same_stateD by (auto simp: run_settled_def)
  have "ra_last_projection actor = Some p" using i(2) by (auto simp: query_def split: if_splits option.splits)
  then have "is_run_terminal actor" using p by (auto simp: is_run_terminal_def)
  then show ?thesis using i(1,2) p by (intro exI conjI) assumption+
qed

lemma fold_spec_seen: "set (fst (snd s)) \<subseteq> set (fst (snd (fold (spec_signal canon reject rid now) sgs s)))"
proof (induction sgs arbitrary: s)
  case (Cons sg sgs)
  have "set (fst (snd s)) \<subseteq> set (fst (snd (spec_signal canon reject rid now sg s)))" by (auto simp: spec_signal_def)
  with Cons show ?case by fastforce
qed simp

lemma fold_spec_applied:
  "sg \<in> set sgs \<Longrightarrow> sg_from_peer_run_id sg = None \<Longrightarrow> signal_token sg = Some t \<Longrightarrow>
   t \<in> set (fst (snd (fold (spec_signal canon reject rid now) sgs s)))"
proof (induction sgs arbitrary: s)
  case (Cons sg' sgs)
  have "t \<in> set (fst (snd (spec_signal canon reject rid now sg s)))"
    using Cons.prems by (auto simp: spec_signal_def spec_ignores_def)
  then show ?case
    using Cons.IH [of "spec_signal canon reject rid now sg' s"] Cons.prems
      fold_spec_seen [of "spec_signal canon reject rid now sg s" canon reject rid now sgs] by auto
qed simp

text \<open>A signal with a cause is applied once per workflow instance: delivering it again, after any other signals, leaves the
  actor, the log and every store as they are.\<close>

lemma repeated_signal_is_ignored:
  assumes "as_append sv = sqlite_append dumps" "as_load sv = sqlite_load loads"
    and "log_db_ok (aw_log w)" "aw_projections w = fresh_service reject (None :: 'e migrator option)"
    and "tail_ok reject (sqlite_load loads rid 0 (aw_log w))" "rn_run_id inp = rid" "rid \<noteq> ''''"
    and "\<not> as_temporal sv \<or> int (length (early @ rn_pending_signals inp @ later)) < as_history_event_threshold sv"
    and "sg \<in> set (early @ rn_pending_signals inp @ later)" "signal_cause sg = Some c" "sg_from_peer_run_id sg = None"
  shows "\<exists>st. workflow_instance sv early inp later w = (Inr (), st) \<and> signal sv sg st = (Inr (), st)"
proof -
  let ?s = "fold (spec_signal (db_norm dumps loads) reject rid (as_now sv)) (early @ rn_pending_signals inp @ later)
      (sqlite_load loads rid 0 (aw_log w) @
       pinned_events (db_norm dumps loads) (as_now sv) inp (length (sqlite_load loads rid 0 (aw_log w))), [], 0)"
  obtain actor w' where i: "workflow_instance sv early inp later w = (Inr (), actor, w')"
    "sqlite_run_log.actor_sim loads reject rid (actor, w') ?s"
    using sqlite_instance_sim [OF assms(1-8) refl] by (elim exE conjE) (rule that; assumption)
  obtain t where t: "signal_token sg = Some t" using assms(10) by (simp add: signal_token_def)
  have "spec_ignores reject rid sg ?s"
    using fold_spec_applied [OF assms(9,11) t] by (simp add: spec_ignores_def t)
  from sqlite_run_log.handle_ignored [OF i(2) this]
  have "signal sv sg (actor, w') = (Inr (), actor, w')"
    using i(2) by (simp add: signal_def sqlite_run_log.actor_sim_def actor_running_def)
  then show ?thesis using i(1) by auto
qed

lemma spec_event_first:
  "ev_event_id (spec_event (db_norm dumps loads) rid now sg (es, seen, 0)) = ''evt-signal-'' @ str_int 1"
  "ev_event_type (spec_event (db_norm dumps loads) rid now sg (es, seen, 0)) = signal_event_type (sg_signal_type sg)"
  by (simp_all add: spec_event_def db_norm_def mk_event_def)

text \<open>Restarting the workflow forgets which signals were applied: when the history threshold makes an instance continue as
  new after a signal, the same signal delivered to the next instance is applied a second time, under the same
  event id.\<close>

lemma restart_applies_signal_again:
  assumes "as_append sv = sqlite_append dumps" "as_load sv = sqlite_load loads"
    and "log_db_ok (aw_log w)" "aw_projections w = fresh_service reject (None :: 'e migrator option)"
    and "tail_ok reject (sqlite_load loads rid 0 (aw_log w))" "rn_run_id inp = rid" "rid \<noteq> ''''"
    and "rn_pending_signals inp = []" "rn_policy_versions inp = None" "sg_from_peer_run_id sg = None"
    and "workflow_instance sv [] inp [sg] w = (Inl (Continue_as_new inp'), actor1, w1)"
    and "workflow_instance sv [] inp' [sg] w1 = (res, actor2, w2)"
  shows "\<exists>e1 e2. sqlite_load loads rid 0 (aw_log w2) = sqlite_load loads rid 0 (aw_log w) @ [e1, e2] \<and>
    ev_event_id e1 = ev_event_id e2 \<and> ev_event_type e1 = signal_event_type (sg_signal_type sg) \<and> ev_event_type e2 = ev_event_type e1"
proof -
  have t: "tail_ok reject (db_stream loads (aw_log w) rid)" using assms(3,5) sqlite_load_all by metis
  have sync: "sqlite_log.service_in_sync loads reject (aw_log w) (aw_projections w)" by (simp add: assms(4))
  note one = sqlite_run_log.instance_of_one_signal [OF assms(3) sync assms(1,2) _ t assms(6-11), simplified]
  note sim1 = one(1) [unfolded sqlite_run_log.actor_sim_def, simplified]
  have inp': "inp' = continue_as_new_input rid actor1" "should_continue_as_new sv actor1" using one(3) by (auto split: if_splits)
  then have p': "rn_pending_signals inp' = []" "rn_policy_versions inp' = None" "rn_run_id inp' = rid"
    by (auto simp: continue_as_new_input_def should_continue_as_new_def split: option.splits)
  have t1: "tail_ok reject (db_stream loads (aw_log w1) rid)" using sim1 by simp
  have sync1: "log_db_ok (aw_log w1)" "sqlite_log.service_in_sync loads reject (aw_log w1) (aw_projections w1)" using sim1 by simp_all
  note two = sqlite_run_log.instance_of_one_signal [OF sync1 assms(1,2) _ t1 p'(3) assms(7) p'(1,2) assms(10,12), simplified]
  have ok2: "log_db_ok (aw_log w2)" using two(1) by (simp add: sqlite_run_log.actor_sim_def)
  let ?es = "db_stream loads (aw_log w) rid"
  let ?e = "spec_event (db_norm dumps loads) rid (as_now sv) sg"
  show ?thesis
    unfolding sqlite_load_all [OF assms(3)] sqlite_load_all [OF ok2] two(2) one(2)
    by (rule exI [of _ "?e (?es, [], 0)"], rule exI [of _ "?e (?es @ [?e (?es, [], 0)], [], 0)"]) (simp add: spec_event_first)
qed

text \<open>Continuing as new loses buffered signals: when as many signals as the history threshold have been buffered before the
  start, the restart is triggered in the middle of the replay of the buffer, the buffer having been
  emptied, so the signals after that point are neither in the log nor in the input of the next instance.\<close>

lemma restart_drops_buffered_signals:
  assumes "as_append sv = sqlite_append dumps" "as_load sv = sqlite_load loads"
    and "log_db_ok (aw_log w)" "aw_projections w = fresh_service reject (None :: 'e migrator option)"
    and "tail_ok reject (sqlite_load loads rid 0 (aw_log w))" "rn_run_id inp = rid" "rid \<noteq> ''''"
    and "as_temporal sv" "list_all anonymous (xs @ [sg])" "int (length (xs @ [sg])) = as_history_event_threshold sv"
    and "s = fold (spec_signal (db_norm dumps loads) reject rid (as_now sv)) (xs @ [sg])
      (sqlite_load loads rid 0 (aw_log w) @
       pinned_events (db_norm dumps loads) (as_now sv) inp (length (sqlite_load loads rid 0 (aw_log w))), [], 0)"
    and "\<not> run_settled (project_run reject rid (fst s))"
  shows "\<exists>inp' actor w'. workflow_instance sv (xs @ [sg] @ ys) inp later w = (Inl (Continue_as_new inp'), actor, w') \<and>
    rn_pending_signals inp' = [] \<and> sqlite_load loads rid 0 (aw_log w') = fst s"
proof -
  have sync: "sqlite_log.service_in_sync loads reject (aw_log w) (aw_projections w)" by (simp add: assms(4))
  have t: "tail_ok reject (db_stream loads (aw_log w) rid)" using assms(3,5) sqlite_load_all by metis
  let ?es = "db_stream loads (aw_log w) rid @ pinned_events (db_norm dumps loads) (as_now sv) inp (length (db_stream loads (aw_log w) rid))"
  obtain st0 where st0: "run_start sv inp (new_actor\<lparr>ra_pending_signals := xs @ [sg] @ ys\<rparr>, w) =
      handle_signals sv ((xs @ [sg] @ ys) @ rn_pending_signals inp) st0"
    "sqlite_run_log.actor_sim loads reject rid st0 (?es, [], 0)" "ra_history_event_count (fst st0) = 0" "ra_pending_signals (fst st0) = []"
    using sqlite_run_log.run_start_sim [OF assms(3) sync assms(1,2) _ t assms(6,7), of "xs @ [sg] @ ys"] by auto
  have "ra_history_event_count (fst st0) + int (length (xs @ [sg])) = as_history_event_threshold sv" using assms(10) st0(3) by simp
  moreover have "s = fold (spec_signal (db_norm dumps loads) reject rid (as_now sv)) (xs @ [sg]) (?es, [], 0)"
    using assms(11) by (simp add: sqlite_load_all [OF assms(3)])
  ultimately obtain inp' actor w' where h: "handle_signals sv (xs @ [sg] @ (ys @ rn_pending_signals inp)) st0 = (Inl (Continue_as_new inp'), actor, w')"
    "rn_pending_signals inp' = []" "sqlite_run_log.actor_sim loads reject rid (actor, w') s"
    using sqlite_run_log.batch_cut_at_threshold [OF st0(2) assms(1,2,8,9) _ st0(4), of "ys @ rn_pending_signals inp"] assms(12) by auto
  have "signals sv (xs @ [sg] @ ys) (new_actor, w) = (Inr (), new_actor\<lparr>ra_pending_signals := xs @ [sg] @ ys\<rparr>, w)"
    using signals_before_start [of new_actor sv "xs @ [sg] @ ys" w] by (simp add: new_actor_def actor_running_def)
  then have "workflow_instance sv (xs @ [sg] @ ys) inp later w = (Inl (Continue_as_new inp'), actor, w')"
    using st0(1) h(1) by (simp add: workflow_instance_def)
  moreover have "sqlite_load loads rid 0 (aw_log w') = fst s"
    using h(3) sqlite_load_all [of "aw_log w'" loads rid] by (simp add: sqlite_run_log.actor_sim_def)
  ultimately show ?thesis using h(2) by auto
qed

section \<open>Witnesses\<close>

definition demo_services ::
  "bool \<Rightarrow> int \<Rightarrow> (log_db, unit, dedupe_db, unit, fingerprint_row list, unit) actor_services" where
  "demo_services temporal threshold =
     \<lparr>as_append = sqlite_append (\<lambda>_. []), as_load = sqlite_load wit_loads, as_turn = demo_env (sqlite_exec False) sqlite_lookup,
      as_gate = wit_services None, as_seen = db_seen, as_mark = db_mark 0, as_error_name = (\<lambda>_. ''RuntimeError''), as_now = ''t'',
      as_check_now = 0, as_record_now = 0, as_temporal = temporal, as_history_event_threshold = threshold\<rparr>"

definition demo_world :: "log_db \<Rightarrow> (log_db, unit, dedupe_db, unit, fingerprint_row list) actor_world" where
  "demo_world db =
     \<lparr>aw_log = db, aw_projections = fresh_service True None, aw_turn = start_world sqlite_init (), aw_gate = new_gate None None,
      aw_deduper = [], aw_intents = None, aw_outcomes = None\<rparr>"

definition demo_signal :: "string \<Rightarrow> string option \<Rightarrow> actor_signal" where
  "demo_signal ty cause = \<lparr>sg_signal_type = ty, sg_signal_payload = None, sg_caused_by = cause, sg_signal_token = None, sg_from_peer_run_id = None\<rparr>"

definition demo_run :: run_input where
  "demo_run = \<lparr>rn_run_id = ''r'', rn_session_id = None, rn_parent_run_id = None, rn_pending_signals = [], rn_policy_versions = None,
     rn_initial_stage_id = None\<rparr>"

lemma demo_simps:
  "as_append (demo_services t n) = sqlite_append (\<lambda>_. [])" "as_load (demo_services t n) = sqlite_load wit_loads"
  "as_temporal (demo_services t n) = t" "as_history_event_threshold (demo_services t n) = n" "as_now (demo_services t n) = ''t''"
  "as_seen (demo_services t n) = db_seen" "as_mark (demo_services t n) = db_mark 0"
  "aw_log (demo_world db) = db" "aw_projections (demo_world db) = fresh_service True None" "aw_deduper (demo_world db) = []"
  "rn_run_id demo_run = ''r''" "rn_pending_signals demo_run = []" "rn_policy_versions demo_run = None"
  by (simp_all add: demo_services_def demo_world_def demo_run_def)

lemma demo_tail [simp]: "tail_ok reject (sqlite_load wit_loads rid 0 log_db_init)"
  by (simp add: sqlite_load_all tail_ok_def)

theorem actor_refines_signal_fold_witness:
  "\<exists>actor w' p. workflow_instance (demo_services False 0) [demo_signal ''callback'' (Some ''c1'')] demo_run [demo_signal ''callback'' (Some ''c1'')]
      (demo_world log_db_init) = (Inr (), actor, w') \<and>
    sqlite_load wit_loads ''r'' 0 (aw_log w') = [spec_event (db_norm (\<lambda>_. []) wit_loads) ''r'' ''t'' (demo_signal ''callback'' (Some ''c1'')) ([], [], 0)] \<and>
    query actor = (Inr p :: unit actor_error + run_projection)"
proof -
  let ?sg = "demo_signal ''callback'' (Some ''c1'')"
  have "fst (fold (spec_signal (db_norm (\<lambda>_. []) wit_loads) True ''r'' ''t'') [?sg, ?sg] ([], [], 0)) =
      [spec_event (db_norm (\<lambda>_. []) wit_loads) ''r'' ''t'' ?sg ([], [], 0)]"
    by (simp add: spec_signal_def spec_ignores_def demo_signal_def signal_token_def signal_cause_def)
  then show ?thesis
    using actor_refines_signal_fold [OF demo_simps(1,2) [of False 0], where w = "demo_world log_db_init" and reject = True and rid = "''r''" and inp = demo_run and
          early = "[?sg]" and later = "[?sg]", OF _ _ _ _ _ _ refl]
    by (auto simp: demo_simps sqlite_load_all pinned_events_def tail_ok_def)
qed

theorem cancel_ends_the_run_witness:
  "\<exists>actor w' p. workflow_instance (demo_services True 10) [demo_signal ''cancel_requested'' (Some ''c1'')] demo_run [demo_signal ''callback'' None]
      (demo_world log_db_init) = (Inr (), actor, w') \<and> query actor = (Inr p :: unit actor_error + run_projection) \<and>
    pj_lifecycle_state p \<in> {L_aborted, L_completed}"
  using cancel_ends_the_run [OF demo_simps(1,2) [of True 10], where w = "demo_world log_db_init" and reject = True and rid = "''r''" and inp = demo_run and
      early = "[demo_signal ''cancel_requested'' (Some ''c1'')]" and later = "[demo_signal ''callback'' None]" and
      sg = "demo_signal ''cancel_requested'' (Some ''c1'')"]
  by (auto simp: demo_simps demo_signal_def)

lemma demo_restarts:
  "case fst (workflow_instance (demo_services True 1) [] demo_run [demo_signal ''callback'' (Some ''c1'')] (demo_world log_db_init)) of
     Inl (Continue_as_new _) \<Rightarrow> True | _ \<Rightarrow> False"
  by code_simp

end
