(* ===== verification/Decision_Rounds.thy ===== *)
theory Decision_Rounds
  imports Run_Actor_Theorems
begin

text \<open>
  The decision rounds of the workflow actor: at most one per commit, what a round leaves in the log, and that
  a turn dispatches at most once; and what a round does not look at, the lifecycle state of the run.
\<close>

section \<open>One decision round per commit\<close>

text \<open>What a decision round can change, apart from the fingerprints.\<close>

definition effects :: "('l, 'e, 's, 'a, 'd) actor_world \<Rightarrow> 'l \<times> ('s, 'a) turn_world \<times> gate_state \<times> intent_log option \<times> recovery_outcome list option" where
  "effects w = (aw_log w, aw_turn w, aw_gate w, aw_intents w, aw_outcomes w)"

fun process_commits ::
  "('l, 'e, 's, 'a, 'd, 'i) actor_services \<Rightarrow> (action_commit \<times> action option) list \<Rightarrow> run_actor \<times> ('l, 'e, 's, 'a, 'd) actor_world \<Rightarrow>
   run_actor \<times> ('l, 'e, 's, 'a, 'd) actor_world" where
  "process_commits sv [] st = st"
| "process_commits sv ((c, a) # cs) st = process_commits sv cs (snd (process_action_commit sv c a st))"

lemma append_outcome_deduper: "aw_deduper (snd (append_turn_outcome_commit sv rid k tr w)) = aw_deduper w"
  by (simp add: append_turn_outcome_commit_def Let_def split: prod.split sum.split option.split)

lemma append_recovery_deduper: "aw_deduper (snd (append_recovery_event sv rid k d cb w)) = aw_deduper w"
  by (simp add: append_recovery_event_def Let_def split: prod.split sum.split)

lemma decide_and_append_deduper: "aw_deduper (snd (decide_and_append sv c a r p k w)) = aw_deduper w"
proof -
  have "aw_deduper w' = aw_deduper v" if "append_recovery_event sv rid k d cb v = (res, w')" for rid k d cb v res w'
    using append_recovery_deduper [of sv rid k d cb v] that by simp
  then show ?thesis by (auto simp: decide_and_append_def Let_def split: prod.split sum.split)
qed

lemma try_round_deduper: "aw_deduper (snd (try_round sv c a k p w)) = aw_deduper w"
proof -
  let ?i = "\<lparr>in_run_id = cm_run_id c, in_through_offset = k, in_based_on_offset = k, in_trigger_type = Signal_trigger, in_history = []\<rparr>"
  obtain r t where rt: "run_turn (as_turn sv) ?i (Some a) (aw_turn w) = (r, t)" by fastforce
  show ?thesis
  proof (cases r)
    case (Inr tr)
    obtain x w1 where ap: "append_turn_outcome_commit sv (cm_run_id c) (k + 1) tr (w\<lparr>aw_turn := t\<rparr>) = (x, w1)" by fastforce
    have "aw_deduper w1 = aw_deduper w"
      using append_outcome_deduper [of sv "cm_run_id c" "k + 1" tr "w\<lparr>aw_turn := t\<rparr>"] ap by simp
    then show ?thesis
      by (simp add: try_round_def rt Inr ap Let_def decide_and_append_deduper split: sum.split option.split)
  qed (simp add: try_round_def rt)
qed

lemma decision_round_deduper: "aw_deduper (snd (decision_round sv c a k p w)) = aw_deduper w"
proof -
  obtain res w1 where t: "try_round sv c a k p w = (res, w1)" by fastforce
  have "aw_deduper w1 = aw_deduper w" using try_round_deduper [of sv c a k p w] t by simp
  moreover have "aw_deduper w' = aw_deduper v" if "decide_and_append sv c a r p k v = (res, w')" for r k v res w'
    using decide_and_append_deduper [of sv c a r p k v] that by simp
  ultimately show ?thesis by (auto simp: decision_round_def t split: prod.split sum.split)
qed

definition fingerprint_of :: "action_commit \<Rightarrow> string" where
  "fingerprint_of c = commit_fingerprint c (ev_commit_offset (List.last (cm_events c)))"

lemma process_decides_or_not:
  assumes "process_action_commit sv c a (actor, w) = (res, actor', w')"
  shows "(effects w' = effects w \<and> aw_deduper w' = aw_deduper w) \<or>
    (\<not> as_seen sv (fingerprint_of c) (aw_deduper w) \<and> aw_deduper w' = as_mark sv (fingerprint_of c) (aw_deduper w))"
proof -
  have round: "aw_deduper w3 = d" if "decision_round sv c b k p (v\<lparr>aw_projections := ps, aw_deduper := d\<rparr>) = (r, w3)" for b k p v ps d r w3
    using decision_round_deduper [of sv c b k p "v\<lparr>aw_projections := ps, aw_deduper := d\<rparr>"] that by simp
  show ?thesis using assms
    by (auto simp: process_action_commit_def Let_def effects_def fingerprint_of_def dest!: round
        split: if_splits prod.splits sum.splits option.splits)
qed

context decision_deduper
begin

lemma process_keeps_seen:
  assumes "as_seen sv = seen" "as_mark sv = mark" "seen f (aw_deduper (snd st))"
  shows "seen f (aw_deduper (snd (snd (process_action_commit sv c a st))))"
proof -
  obtain actor w where st: "st = (actor, w)" by fastforce
  obtain res actor' w' where p: "process_action_commit sv c a (actor, w) = (res, actor', w')" by (metis prod_cases3)
  show ?thesis using process_decides_or_not [OF p, unfolded assms(1,2)] assms(3) by (auto simp: st p seen_mark)
qed

lemma process_commits_keep_seen:
  assumes "as_seen sv = seen" "as_mark sv = mark" "seen f (aw_deduper (snd st))"
  shows "seen f (aw_deduper (snd (process_commits sv cs st)))"
  using assms(3)
proof (induction cs arbitrary: st)
  case (Cons ca cs)
  obtain c a where "ca = (c, a)" by fastforce
  with Cons.IH [OF process_keeps_seen [OF assms(1,2) Cons.prems, of c a]] show ?case by simp
qed simp

text \<open>Whatever a commit's round did, the commit gets no second one.\<close>

lemma one_round_per_commit:
  assumes "as_seen sv = seen" "as_mark sv = mark"
    and "st1 = snd (process_action_commit sv c a st)" "effects (snd st1) \<noteq> effects (snd st)"
    and "st2 = process_commits sv cs st1" "fingerprint_of c' = fingerprint_of c" "process_action_commit sv c' a' st2 = (res, st3)"
  shows "effects (snd st3) = effects (snd st2)"
proof -
  obtain actor w where st: "st = (actor, w)" by fastforce
  obtain r actor1 w1 where p: "process_action_commit sv c a (actor, w) = (r, actor1, w1)" by (metis prod_cases3)
  have "aw_deduper w1 = mark (fingerprint_of c) (aw_deduper w)"
    using process_decides_or_not [OF p] assms(2,3,4) by (simp add: st p)
  then have "seen (fingerprint_of c) (aw_deduper (snd st1))" using assms(3) by (simp add: st p seen_mark)
  then have "seen (fingerprint_of c') (aw_deduper (snd st2))"
    unfolding assms(5,6) by (rule process_commits_keep_seen [OF assms(1,2)])
  then show ?thesis using process_decides_or_not [of sv c' a' "fst st2" "snd st2" res "fst st3" "snd st3"] assms(1,7) by simp
qed

end

text \<open>C35. A commit gets at most one decision round: once processing it has changed the log, the dispatch ledger or a store,
  processing it again (or any commit with its run, id and last offset), after any other commits, changes none of them,
  also when the first round ended in an error and rolled the dispatch back to an unknown effect.\<close>

theorem one_decision_round_per_commit:
  assumes "as_seen sv = db_seen" "as_mark sv = db_mark now"
    and "st1 = snd (process_action_commit sv c a st)" "effects (snd st1) \<noteq> effects (snd st)"
    and "st2 = process_commits sv cs st1" "fingerprint_of c' = fingerprint_of c" "process_action_commit sv c' a' st2 = (res, st3)"
  shows "effects (snd st3) = effects (snd st2)"
  by (rule db_deduper.one_round_per_commit [OF assms])

section \<open>One dispatch per turn\<close>

definition dispatches :: "turn_state_event list \<Rightarrow> nat" where
  "dispatches es = length (filter (\<lambda>e. ts_state e = ''dispatched'') es)"

lemma dispatches_simps [simp]: "dispatches [] = 0" "dispatches (xs @ ys) = dispatches xs + dispatches ys"
  "dispatches (e # es) = (if ts_state e = ''dispatched'' then 1 else 0) + dispatches es"
  by (simp_all add: dispatches_def)

definition phase_emits :: "nat \<Rightarrow> ('s, 'a) turn_phase \<Rightarrow> bool" where
  "phase_emits n f = (\<forall>ctx w ctx' w'. cx_result ctx = None \<longrightarrow> f ctx w = (Inr ctx', w') \<longrightarrow>
     dispatches (cx_emitted_events ctx') \<le> dispatches (cx_emitted_events ctx) + n \<and>
     (\<forall>r. cx_result ctx' = Some r \<longrightarrow> tr_emitted_events r = cx_emitted_events ctx'))"

lemma run_phases_emits:
  "list_all2 phase_emits ns fs \<Longrightarrow> cx_result ctx = None \<Longrightarrow> run_phases fs ctx w = (Inr r, w') \<Longrightarrow>
   dispatches (tr_emitted_events r) \<le> dispatches (cx_emitted_events ctx) + sum_list ns"
proof (induction fs arbitrary: ns ctx w)
  case (Cons f fs)
  obtain n ns' where ns: "ns = n # ns'" "phase_emits n f" "list_all2 phase_emits ns' fs" using Cons.prems(1) by (auto simp: list_all2_Cons2)
  obtain ctx1 w1 where f: "f ctx w = (Inr ctx1, w1)" using Cons.prems(3) by (auto split: prod.splits sum.splits)
  have e: "dispatches (cx_emitted_events ctx1) \<le> dispatches (cx_emitted_events ctx) + n"
    "\<forall>r. cx_result ctx1 = Some r \<longrightarrow> tr_emitted_events r = cx_emitted_events ctx1"
    using ns(2) Cons.prems(2) f unfolding phase_emits_def by blast+
  show ?case
  proof (cases "cx_result ctx1")
    case None
    then have "run_phases fs ctx1 w1 = (Inr r, w')" using Cons.prems(3) f by simp
    from Cons.IH [OF ns(3) None this] e(1) show ?thesis by (simp add: ns(1))
  next
    case (Some r')
    then show ?thesis using Cons.prems(3) f e by (simp add: ns(1))
  qed
qed simp

lemmas phase_results = noop_result_def identified_result_def hosted_result_def build_recovery_pending_turn_result_def emit_events_def ev_def

lemma emits_noop: "phase_emits 0 (phase_noop_or_reasoning env)"
  by (auto simp: phase_emits_def phase_noop_or_reasoning_def phase_results Let_def split: option.splits sum.splits list.splits)

lemma emits_snapshot: "phase_emits 0 (phase_snapshot env)"
  by (auto simp: phase_emits_def phase_snapshot_def phase_results Let_def split: option.splits sum.splits)

lemma emits_admission: "phase_emits 0 (phase_admission env)"
  by (auto simp: phase_emits_def phase_admission_def phase_results Let_def split: option.splits sum.splits prod.splits if_splits)

lemma emits_dispatch_policy: "phase_emits 0 (phase_dispatch_policy env)"
  by (auto simp: phase_emits_def phase_dispatch_policy_def phase_results Let_def split: option.splits if_splits)

lemma degradation_emits:
  "reserve_with_degradation env e a h ctx w = (Inr (acc, e', av, ctx1), w1) \<Longrightarrow>
   dispatches (cx_emitted_events ctx1) = dispatches (cx_emitted_events ctx) \<and> cx_result ctx1 = cx_result ctx"
  by (auto simp: reserve_with_degradation_def phase_results Let_def split: prod.splits sum.splits option.splits if_splits)

lemma emits_dedupe: "phase_emits (Suc 0) (phase_dedupe env)"
  unfolding phase_emits_def
  by (auto simp: phase_dedupe_def phase_results Let_def dest!: degradation_emits split: option.splits prod.splits sum.splits if_splits)

lemma emits_execute: "phase_emits 0 (phase_execute env)"
  unfolding phase_emits_def
  by (auto simp: phase_execute_def phase_results Let_def split: option.splits prod.splits sum.splits if_splits)

lemma single_dispatch_holds:
  assumes "run_turn env inp a w = (Inr tr, w')"
  shows "single_dispatch_attempt_in_turn tr"
proof -
  have "list_all2 phase_emits [0, 0, 0, 0, 1, 0] (TURN_PHASES env)"
    by (simp add: TURN_PHASES_def emits_noop emits_snapshot emits_admission emits_dispatch_policy emits_dedupe emits_execute)
  from run_phases_emits [OF this _ assms [unfolded run_turn_def]]
  have "dispatches (tr_emitted_events tr) \<le> 1" by (simp add: initial_context_def ev_def)
  then show ?thesis by (simp add: single_dispatch_attempt_in_turn_def dispatches_def)
qed

section \<open>What a round records\<close>

definition turn_input_of :: "action_commit \<Rightarrow> int \<Rightarrow> turn_input" where
  "turn_input_of c k = \<lparr>in_run_id = cm_run_id c, in_through_offset = k, in_based_on_offset = k, in_trigger_type = Signal_trigger, in_history = []\<rparr>"

lemma recovery_types_allowed: "recovery_event_type_allowed (recovery_event_type m)"
  by (simp add: recovery_event_type_def recovery_event_type_allowed_def)

lemma latest_offset_log: "aw_log w = aw_log w' \<Longrightarrow> latest_run_offset sv rid w = latest_run_offset sv rid w'"
  by (simp add: latest_run_offset_def)

text \<open>The ways a round can go, by what the turn said, what was appended and how it ended.\<close>

definition round_record ::
  "string \<Rightarrow> int \<Rightarrow> string \<Rightarrow> turn_error + turn_result \<Rightarrow> runtime_event list \<Rightarrow> 'e actor_error + unit \<Rightarrow> bool" where
  "round_record rid k now turn evs res =
     (case turn of
        Inl e \<Rightarrow> (\<exists>d. evs = recovery_events rid (k + 1) now d \<and> res = Inl (Turn_raised e)) \<or> (\<exists>g. evs = [] \<and> res = Inl (Gate_raised g))
      | Inr tr \<Rightarrow>
          (\<exists>rest. evs = turn_outcome_event rid (k + 1) now tr # rest \<and>
             (if tr_outcome_kind tr = Recovery_pending_outcome
              then (\<exists>d. rest = recovery_events rid (k + 2) now d \<and> res = Inr ()) \<or>
                (\<exists>g. res = Inl (Gate_raised g) \<and> (rest = [] \<or> (\<exists>d. rest = recovery_events rid (k + 1) now d)))
              else rest = [] \<and> res = Inr ())))"

context run_log
begin

definition recorded :: "string \<Rightarrow> 'a \<Rightarrow> runtime_event list \<Rightarrow> 'a \<Rightarrow> bool" where
  "recorded rid s evs s' = (inv s' \<and> (\<forall>c. cm_run_id c = rid \<longrightarrow> room c s') \<and>
     stream s' rid = stream s rid @ spec_number canon (length (stream s rid)) evs)"

lemma spec_number_append: "spec_number canon n (xs @ ys) = spec_number canon n xs @ spec_number canon (n + length xs) ys"
  by (induction xs arbitrary: n) simp_all

lemma recorded_trans: "recorded rid s xs s' \<Longrightarrow> recorded rid s' ys s'' \<Longrightarrow> recorded rid s (xs @ ys) s''"
  by (auto simp: recorded_def spec_number_append)

lemma append_recorded:
  assumes "inv s" "\<forall>c. cm_run_id c = rid \<longrightarrow> room c s" "cm_run_id c = rid" "cm_events c \<noteq> []" "append c s = (res, s')"
  shows "\<exists>n. res = Inr n" "recorded rid s (cm_events c) s'"
proof -
  have s': "s' = snd (append c s)" "res = fst (append c s)" using assms(5) by simp_all
  have room: "room c s" using assms(2,3) by simp
  show "\<exists>n. res = Inr n" unfolding s' by (rule append_accepts [OF assms(4)])
  show "recorded rid s (cm_events c) s'"
    unfolding s' recorded_def using append_inv [OF assms(1) room] append_stream [OF assms(1) room, of rid] room_stays [OF assms(1) room assms(4)] assms(3)
    by simp
qed

lemma append_outcome_recorded:
  assumes "as_append sv = append" "inv (aw_log w)" "\<forall>c. cm_run_id c = rid \<longrightarrow> room c (aw_log w)"
    "append_turn_outcome_commit sv rid k tr w = (res, w')"
  shows "res = Inr (k + 1)" "recorded rid (aw_log w) [turn_outcome_event rid k (as_now sv) tr] (aw_log w')" "tw_calls (aw_turn w') = tw_calls (aw_turn w)"
proof -
  let ?c = "mk_commit rid (''turn:'' @ outcome_kind_str (tr_outcome_kind tr) @ '':'' @ str_int k) (as_now sv) [turn_outcome_event rid k (as_now sv) tr]"
  obtain x l where ap: "append ?c (aw_log w) = (x, l)" by fastforce
  have c: "cm_run_id ?c = rid" "cm_events ?c = [turn_outcome_event rid k (as_now sv) tr]" by (simp_all add: mk_commit_def)
  note a = append_recorded [OF assms(2,3) c(1) _ ap, unfolded c(2), simplified]
  show "res = Inr (k + 1)" "recorded rid (aw_log w) [turn_outcome_event rid k (as_now sv) tr] (aw_log w')" "tw_calls (aw_turn w') = tw_calls (aw_turn w)"
    using assms(4) ap a by (auto simp: append_turn_outcome_commit_def assms(1) Let_def split: option.splits)
qed

lemma append_recovery_recorded:
  assumes "as_append sv = append" "inv (aw_log w)" "\<forall>c. cm_run_id c = rid \<longrightarrow> room c (aw_log w)"
    "append_recovery_event sv rid k d cb w = (res, w')"
  shows "res = Inr (k + 2)" "recorded rid (aw_log w) (recovery_events rid k (as_now sv) d) (aw_log w')" "aw_turn w' = aw_turn w"
proof -
  let ?c = "mk_commit rid (''recovery:'' @ recovery_event_type (rd_mode d) @ '':'' @ str_int k) (as_now sv) (recovery_events rid k (as_now sv) d)"
  obtain x l where ap: "append ?c (aw_log w) = (x, l)" by fastforce
  have c: "cm_run_id ?c = rid" "cm_events ?c = recovery_events rid k (as_now sv) d" by (simp_all add: mk_commit_def)
  have ne: "recovery_events rid k (as_now sv) d \<noteq> []" by (simp add: recovery_events_def)
  note a = append_recorded [OF assms(2,3) c(1) _ ap, unfolded c(2), OF ne]
  show "res = Inr (k + 2)" "recorded rid (aw_log w) (recovery_events rid k (as_now sv) d) (aw_log w')" "aw_turn w' = aw_turn w"
    using assms(4) ap a by (auto simp: append_recovery_event_def assms(1) recovery_types_allowed Let_def)
qed

lemma decide_recorded:
  assumes "as_append sv = append" "inv (aw_log w)" "\<forall>c. cm_run_id c = rid \<longrightarrow> room c (aw_log w)" "cm_run_id c = rid"
    "decide_and_append sv c a r p k w = (res, w')"
  shows "((\<exists>d. recorded rid (aw_log w) (recovery_events rid k (as_now sv) d) (aw_log w')) \<and> res = Inr ()) \<or>
    (aw_log w' = aw_log w \<and> (\<exists>g. res = Inl (Gate_raised g)))" "tw_calls (aw_turn w') = tw_calls (aw_turn w)"
proof -
  obtain x g cw where d: "decide_recovery (as_gate sv) (te_exec (as_turn sv)) (as_check_now sv) (as_record_now sv) (actor_recovery_input c a r p)
      (aw_gate w, \<lparr>cw_store = Some (tw_store (aw_turn w)), cw_calls = []\<rparr>) = (x, g, cw)" by (metis prod_cases3)
  let ?w1 = "w\<lparr>aw_gate := g, aw_turn := (aw_turn w)\<lparr>tw_store := (case cw_store cw of Some s \<Rightarrow> s | None \<Rightarrow> tw_store (aw_turn w))\<rparr>\<rparr>"
  have off: "latest_run_offset sv rid ?w1 = latest_run_offset sv rid w" by (rule latest_offset_log) simp
  have "(((\<exists>d. recorded rid (aw_log w) (recovery_events rid k (as_now sv) d) (aw_log w')) \<and> res = Inr ()) \<or>
    (aw_log w' = aw_log w \<and> (\<exists>g. res = Inl (Gate_raised g)))) \<and> tw_calls (aw_turn w') = tw_calls (aw_turn w)"
  proof (cases x)
    case (Inl e)
    then have "res = Inl (Gate_raised e)" "w' = ?w1" using assms(5) by (auto simp: decide_and_append_def d)
    then show ?thesis by simp
  next
    case (Inr dn)
    obtain y w2 where ar: "append_recovery_event sv rid k dn (Some (ac_action_id a)) ?w1 = (y, w2)" by fastforce
    note rec = append_recovery_recorded [OF assms(1) _ _ ar, simplified, OF assms(2,3)]
    then have "res = Inr ()" "w' = w2" using assms(5) by (auto simp: decide_and_append_def d Inr assms(4) off ar Let_def)
    then show ?thesis using rec(2,3) by auto
  qed
  then show "((\<exists>d. recorded rid (aw_log w) (recovery_events rid k (as_now sv) d) (aw_log w')) \<and> res = Inr ()) \<or>
    (aw_log w' = aw_log w \<and> (\<exists>g. res = Inl (Gate_raised g)))" "tw_calls (aw_turn w') = tw_calls (aw_turn w)" by blast+
qed

lemma recorded_nil: "inv s \<Longrightarrow> \<forall>c. cm_run_id c = rid \<longrightarrow> room c s \<Longrightarrow> recorded rid s [] s"
  by (simp add: recorded_def)

lemma try_recorded:
  assumes "as_append sv = append" "inv (aw_log w)" "\<forall>c. cm_run_id c = rid \<longrightarrow> room c (aw_log w)" "cm_run_id c = rid"
    "run_turn (as_turn sv) (turn_input_of c k) (Some a) (aw_turn w) = (Inr tr, t)" "try_round sv c a k p w = (res, w')"
  shows "\<exists>rest. recorded rid (aw_log w) (turn_outcome_event rid (k + 1) (as_now sv) tr # rest) (aw_log w') \<and>
      (if tr_outcome_kind tr = Recovery_pending_outcome
       then (\<exists>d. rest = recovery_events rid (k + 2) (as_now sv) d \<and> res = Inr ()) \<or> (rest = [] \<and> (\<exists>g. res = Inl (Gate_raised g)))
       else rest = [] \<and> res = Inr ())" "tw_calls (aw_turn w') = tw_calls t"
proof -
  let ?oe = "turn_outcome_event rid (k + 1) (as_now sv) tr"
  obtain x w1 where ap: "append_turn_outcome_commit sv rid (k + 1) tr (w\<lparr>aw_turn := t\<rparr>) = (x, w1)" by fastforce
  note o' = append_outcome_recorded [OF assms(1) _ _ ap, simplified, OF assms(2,3)]
  have one: "inv (aw_log w1)" "\<forall>c. cm_run_id c = rid \<longrightarrow> room c (aw_log w1)" using o'(2) by (simp_all add: recorded_def)
  have rt: "run_turn (as_turn sv) \<lparr>in_run_id = rid, in_through_offset = k, in_based_on_offset = k, in_trigger_type = Signal_trigger, in_history = []\<rparr>
      (Some a) (aw_turn w) = (Inr tr, t)" using assms(5) by (simp add: turn_input_of_def assms(4))
  have x: "x = Inr (k + 2)" using o'(1) by (simp add: add.commute)
  have t: "try_round sv c a k p w =
      (let w2 = (if tr_outcome_kind tr = Dispatched_outcome then w1\<lparr>aw_gate := on_action_success (effect_class_str (ac_effect_class a)) (aw_gate w1)\<rparr> else w1) in
       if tr_outcome_kind tr = Recovery_pending_outcome
       then decide_and_append sv c a (case tr_recovery_input tr of Some f \<Rightarrow> fe_failure_code f | None \<Rightarrow> ''effect_unknown'') p (k + 2) w2
       else (Inr (), w2))"
    by (simp add: try_round_def assms(4) rt x ap single_dispatch_holds [OF assms(5)] Let_def)
  have "(\<exists>rest. recorded rid (aw_log w) (?oe # rest) (aw_log w') \<and>
      (if tr_outcome_kind tr = Recovery_pending_outcome
       then (\<exists>d. rest = recovery_events rid (k + 2) (as_now sv) d \<and> res = Inr ()) \<or> (rest = [] \<and> (\<exists>g. res = Inl (Gate_raised g)))
       else rest = [] \<and> res = Inr ())) \<and> tw_calls (aw_turn w') = tw_calls t"
  proof (cases "tr_outcome_kind tr = Recovery_pending_outcome")
    case True
    then obtain r where "decide_and_append sv c a r p (k + 2) w1 = (res, w')" using t assms(6) by (auto simp: Let_def)
    note d = decide_recorded [OF assms(1) one assms(4) this]
    from d(1) show ?thesis
    proof
      assume "(\<exists>d. recorded rid (aw_log w1) (recovery_events rid (k + 2) (as_now sv) d) (aw_log w')) \<and> res = Inr ()"
      then obtain dn where dn: "recorded rid (aw_log w1) (recovery_events rid (k + 2) (as_now sv) dn) (aw_log w')" "res = Inr ()" by blast
      from recorded_trans [OF o'(2) dn(1)] show ?thesis using dn(2) True d(2) o'(3) by auto
    next
      assume "aw_log w' = aw_log w1 \<and> (\<exists>g. res = Inl (Gate_raised g))"
      then show ?thesis using o'(2,3) True d(2) by auto
    qed
  next
    case False
    then show ?thesis using t assms(6) o'(2,3) by (auto simp: Let_def split: if_splits)
  qed
  then show "\<exists>rest. recorded rid (aw_log w) (?oe # rest) (aw_log w') \<and>
      (if tr_outcome_kind tr = Recovery_pending_outcome
       then (\<exists>d. rest = recovery_events rid (k + 2) (as_now sv) d \<and> res = Inr ()) \<or> (rest = [] \<and> (\<exists>g. res = Inl (Gate_raised g)))
       else rest = [] \<and> res = Inr ())" "tw_calls (aw_turn w') = tw_calls t" by blast+
qed

lemma round_recorded:
  assumes "as_append sv = append" "inv (aw_log w)" "\<forall>c. cm_run_id c = rid \<longrightarrow> room c (aw_log w)" "cm_run_id c = rid"
    "run_turn (as_turn sv) (turn_input_of c k) (Some a) (aw_turn w) = (turn, t)" "decision_round sv c a k p w = (res, w')"
  shows "\<exists>evs. recorded rid (aw_log w) evs (aw_log w') \<and> round_record rid k (as_now sv) turn evs res \<and> tw_calls (aw_turn w') = tw_calls t"
proof (cases turn)
  case (Inl e)
  let ?r = "py_lower (as_error_name sv (Turn_raised e))"
  have "try_round sv c a k p w = (Inl (Turn_raised e), w\<lparr>aw_turn := t\<rparr>)"
    using assms(5) Inl by (simp add: try_round_def turn_input_of_def)
  moreover obtain x w2 where d: "decide_and_append sv c a ?r p (k + 1) (w\<lparr>aw_turn := t\<rparr>) = (x, w2)" by fastforce
  ultimately have r: "w' = w2" "res = (case x of Inl e' \<Rightarrow> Inl e' | Inr _ \<Rightarrow> Inl (Turn_raised e))"
    using assms(6) by (auto simp: decision_round_def split: sum.splits)
  note dr = decide_recorded [OF assms(1) _ _ assms(4) d, simplified, OF assms(2,3)]
  show ?thesis using dr r recorded_nil [OF assms(2,3)] by (auto simp: round_record_def Inl)
next
  case (Inr tr)
  obtain x w1 where tr: "try_round sv c a k p w = (x, w1)" by fastforce
  note tt = try_recorded [OF assms(1-4) assms(5) [unfolded Inr] tr]
  obtain rest where rest: "recorded rid (aw_log w) (turn_outcome_event rid (k + 1) (as_now sv) tr # rest) (aw_log w1)"
    "if tr_outcome_kind tr = Recovery_pending_outcome
       then (\<exists>d. rest = recovery_events rid (k + 2) (as_now sv) d \<and> x = Inr ()) \<or> (rest = [] \<and> (\<exists>g. x = Inl (Gate_raised g)))
       else rest = [] \<and> x = Inr ()" using tt(1) by blast
  show ?thesis
  proof (cases x)
    case (Inr u)
    then have "res = Inr ()" "w' = w1" using assms(6) tr by (simp_all add: decision_round_def)
    then show ?thesis using rest tt(2) Inr by (auto simp: round_record_def \<open>turn = Inr tr\<close> split: if_splits)
  next
    case (Inl e)
    then obtain g where g: "e = Gate_raised g" "rest = []" "tr_outcome_kind tr = Recovery_pending_outcome" using rest(2) by (auto split: if_splits)
    have one: "inv (aw_log w1)" "\<forall>c. cm_run_id c = rid \<longrightarrow> room c (aw_log w1)" using rest(1) by (simp_all add: recorded_def)
    obtain y w2 where d: "decide_and_append sv c a (py_lower (as_error_name sv e)) p (k + 1) w1 = (y, w2)" by fastforce
    note dr = decide_recorded [OF assms(1) one assms(4) d]
    have r: "w' = w2" "res = (case y of Inl e' \<Rightarrow> Inl e' | Inr _ \<Rightarrow> Inl e)"
      using assms(6) tr Inl d by (auto simp: decision_round_def split: sum.splits)
    from dr(1) show ?thesis
    proof
      assume "(\<exists>d. recorded rid (aw_log w1) (recovery_events rid (k + 1) (as_now sv) d) (aw_log w2)) \<and> y = Inr ()"
      then obtain dn where dn: "recorded rid (aw_log w1) (recovery_events rid (k + 1) (as_now sv) dn) (aw_log w2)" "y = Inr ()" by blast
      from recorded_trans [OF rest(1) dn(1)] show ?thesis
        using r dn(2) g dr(2) tt(2) by (intro exI conjI) (auto simp: round_record_def \<open>turn = Inr tr\<close>)
    next
      assume "aw_log w2 = aw_log w1 \<and> (\<exists>g. y = Inl (Gate_raised g))"
      then show ?thesis using rest(1) r g dr(2) tt(2) by (auto simp: round_record_def \<open>turn = Inr tr\<close>)
    qed
  qed
qed

end

text \<open>A decision round on the durable log is recorded in full: a turn that ended leaves its outcome event, followed by
  the recovery plan and the recovery fact when the outcome is a pending recovery; a turn that raised leaves plan and fact
  and the error goes on; no event type is refused, no second dispatch is found and the gate never appends, so only
  a gate that raises can cut the record short.\<close>

lemma round_is_recorded:
  assumes "as_append sv = sqlite_append dumps" "log_db_ok (aw_log w)" "cm_run_id c = rid"
    and "run_turn (as_turn sv) (turn_input_of c k) (Some a) (aw_turn w) = (turn, t)" "decision_round sv c a k p w = (res, w')"
  shows "\<exists>evs. sqlite_load loads rid 0 (aw_log w') = sqlite_load loads rid 0 (aw_log w) @
      spec_number (db_norm dumps loads) (length (sqlite_load loads rid 0 (aw_log w))) evs \<and>
    round_record rid k (as_now sv) turn evs res"
proof -
  obtain evs where evs: "sqlite_run_log.recorded loads dumps rid (aw_log w) evs (aw_log w')" "round_record rid k (as_now sv) turn evs res"
    using sqlite_run_log.round_recorded [OF assms(1,2) _ assms(3,4,5)] by auto
  then have "log_db_ok (aw_log w')" "db_stream loads (aw_log w') rid =
      db_stream loads (aw_log w) rid @ spec_number (db_norm dumps loads) (length (db_stream loads (aw_log w) rid)) evs"
    by (simp_all add: sqlite_run_log.recorded_def)
  then show ?thesis using evs(2) sqlite_load_all assms(2) by metis
qed

section \<open>What a round does not look at\<close>

lemma process_decides:
  assumes "as_load sv = sqlite_load loads" "log_db_ok (aw_log w)" "aw_projections w = fresh_service reject (None :: 'e migrator option)"
    "no_derived_diagnostic_authority_input c" "cm_events c \<noteq> []" "k = ev_commit_offset (List.last (cm_events c))"
    "k \<le> pj_projected_offset (project_run reject (cm_run_id c) (sqlite_load loads (cm_run_id c) 0 (aw_log w)))"
    "\<not> as_seen sv (fingerprint_of c) (aw_deduper w)"
  shows "\<exists>p ps w3. process_action_commit sv c (Some a) (actor, w) = (fst w3, actor\<lparr>ra_last_projection := Some p\<rparr>, snd w3) \<and>
    w3 = decision_round sv c a k p (w\<lparr>aw_projections := ps, aw_deduper := as_mark sv (fingerprint_of c) (aw_deduper w)\<rparr>)"
proof -
  let ?ld = "\<lambda>r j. sqlite_load loads r j (aw_log w)"
  have sync: "sqlite_log.service_in_sync loads reject (aw_log w) (aw_projections w)" by (simp add: assms(3))
  obtain x v1 where cu: "catch_up ?ld (cm_run_id c) k (aw_projections w) = (x, v1)" by fastforce
  have keeps: "keeps_offsets (ps_migrator (aw_projections w))" "sqlite_log.service_ok loads (aw_log w) (aw_projections w)"
    using sync by (simp_all add: sqlite_log.service_in_sync_def)
  have v1: "sqlite_log.service_in_sync loads reject (aw_log w) v1"
    using sqlite_log.catch_up_keeps_service [OF assms(2) keeps, of "cm_run_id c" k] cu sync
    by (auto simp: sqlite_log.service_in_sync_def catch_up_def Let_def split: sum.splits)
  obtain p where p: "x = Inr p"
    using sqlite_log.catch_up_replays [OF assms(2) keeps, of "cm_run_id c" k] cu sync
    by (auto simp: sqlite_log.service_in_sync_def replay_project)
  obtain y v2 where g: "get_projection ?ld (cm_run_id c) v1 = (y, v2)" by fastforce
  have y: "y = Inr (project_run reject (cm_run_id c) (db_stream loads (aw_log w) (cm_run_id c)))"
    using sqlite_log.get_in_sync(1) [OF assms(2) v1 g] .
  have rd: "readiness ?ld (cm_run_id c) k v1 = (Inr True, v2)"
    using assms(7) by (simp add: readiness_def g y sqlite_load_all [OF assms(2)])
  let ?w3 = "decision_round sv c a k p (w\<lparr>aw_projections := v2, aw_deduper := as_mark sv (fingerprint_of c) (aw_deduper w)\<rparr>)"
  have "process_action_commit sv c (Some a) (actor, w) = (fst ?w3, actor\<lparr>ra_last_projection := Some p\<rparr>, snd ?w3)"
    using assms(8) unfolding process_action_commit_def
    by (simp add: assms(1,4,5) assms(6) [symmetric] cu p rd fingerprint_of_def Let_def split: prod.split)
  then show ?thesis by blast
qed

text \<open>A decision round does not look at the lifecycle of the run: an action commit of a cancelled or completed run, once it
  is in the durable log and not yet decided, goes through the same turn as that of a live run, and the
  executor is called exactly when that turn calls it. The readiness check compares offsets only.\<close>

lemma settled_run_still_dispatches:
  assumes "as_append sv = sqlite_append dumps" "as_load sv = sqlite_load loads" "log_db_ok (aw_log w)"
    and "aw_projections w = fresh_service reject (None :: 'e migrator option)"
    and "no_derived_diagnostic_authority_input c" "cm_events c \<noteq> []" "k = ev_commit_offset (List.last (cm_events c))"
    and "k \<le> pj_projected_offset (project_run reject (cm_run_id c) (sqlite_load loads (cm_run_id c) 0 (aw_log w)))"
    and "\<not> as_seen sv (fingerprint_of c) (aw_deduper w)"
    and "run_settled (project_run reject (cm_run_id c) (sqlite_load loads (cm_run_id c) 0 (aw_log w)))"
    and "process_action_commit sv c (Some a) (actor, w) = (res, actor', w')"
  shows "tw_calls (aw_turn w') = tw_calls (snd (run_turn (as_turn sv) (turn_input_of c k) (Some a) (aw_turn w)))"
proof -
  obtain p ps w3 where pr: "process_action_commit sv c (Some a) (actor, w) = (fst w3, actor\<lparr>ra_last_projection := Some p\<rparr>, snd w3)"
    "w3 = decision_round sv c a k p (w\<lparr>aw_projections := ps, aw_deduper := as_mark sv (fingerprint_of c) (aw_deduper w)\<rparr>)"
    using process_decides [OF assms(2-9), of a actor] by blast
  let ?w = "w\<lparr>aw_projections := ps, aw_deduper := as_mark sv (fingerprint_of c) (aw_deduper w)\<rparr>"
  obtain turn t where t: "run_turn (as_turn sv) (turn_input_of c k) (Some a) (aw_turn ?w) = (turn, t)" by fastforce
  have d: "decision_round sv c a k p ?w = (fst w3, snd w3)" using pr(2) by simp
  have "log_db_ok (aw_log ?w)" using assms(3) by simp
  from sqlite_run_log.round_recorded [OF assms(1) this _ refl t d, of loads]
  have "tw_calls (aw_turn (snd w3)) = tw_calls t" by blast
  then show ?thesis using pr(1) assms(11) t by simp
qed

section \<open>Witnesses\<close>

definition demo_cancelled :: log_db where
  "demo_cancelled = snd (sqlite_append (\<lambda>_. []) (wit_commit ''r'' [wit_event ''run.created'' Authoritative_fact,
     wit_event ''run.cancel_requested'' Authoritative_fact]) log_db_init)"

definition demo_commit :: action_commit where
  "demo_commit = wit_commit ''r'' [(wit_event ''run.ready'' Authoritative_fact)\<lparr>ev_commit_offset := 2\<rparr>]"

lemma demo_cancelled_ok: "log_db_ok demo_cancelled"
  unfolding demo_cancelled_def by (rule sqlite_log.append_inv) simp_all

lemma demo_commit_simps:
  "no_derived_diagnostic_authority_input demo_commit" "cm_events demo_commit \<noteq> []" "ev_commit_offset (List.last (cm_events demo_commit)) = 2"
  "cm_run_id demo_commit = ''r''"
  by (simp_all add: demo_commit_def wit_commit_def wit_event_def no_derived_diagnostic_authority_input_def)

lemma demo_cancelled_projection:
  "pj_projected_offset (project_run True ''r'' (sqlite_load wit_loads ''r'' 0 demo_cancelled)) = 2"
  "run_settled (project_run True ''r'' (sqlite_load wit_loads ''r'' 0 demo_cancelled))"
  by code_simp+

lemma demo_turn_dispatches:
  "length (tw_calls (snd (run_turn (as_turn (demo_services False 0)) (turn_input_of demo_commit 2) (Some wit_action) (aw_turn (demo_world demo_cancelled))))) = 1"
  by code_simp

lemma demo_decides:
  "tw_calls (aw_turn (snd (snd (process_action_commit (demo_services False 0) demo_commit (Some wit_action) (new_actor, demo_world demo_cancelled))))) \<noteq> []"
  by code_simp

theorem one_decision_round_per_commit_witness:
  "let st1 = snd (process_action_commit (demo_services False 0) demo_commit (Some wit_action) (new_actor, demo_world demo_cancelled)) in
   effects (snd (snd (process_action_commit (demo_services False 0) demo_commit (Some wit_action) st1))) = effects (snd st1)"
proof -
  let ?p = "process_action_commit (demo_services False 0) demo_commit (Some wit_action)"
  have "effects (snd (snd (?p (new_actor, demo_world demo_cancelled)))) \<noteq> effects (snd (new_actor, demo_world demo_cancelled))"
    using demo_decides by (auto simp: effects_def demo_world_def)
  from one_decision_round_per_commit [OF demo_simps(6,7) refl this process_commits.simps(1) [symmetric] refl surjective_pairing]
  show ?thesis by (simp add: Let_def)
qed

end
