(* ===== verification/Request_Auth.thy ===== *)
theory Request_Auth
  imports Posture_Model Capability_Snapshot
begin

text \<open>
  Who may call: claim validation (\<open>hi_agent/auth/jwt_middleware.py\<close>), roles (\<open>rbac_enforcer.py\<close>), the
  middleware of the hi-agent server (\<open>hi_agent/server/auth_middleware.py\<close>), and the seam, the JWT
  middleware and the tenant middleware of the agent server (\<open>agent_server/runtime/auth_seam.py\<close>,
  \<open>agent_server/api/middleware/\<close>). PyJWT, base64 with the JSON decoder, the value of a float literal and the \<open>repr\<close> of a
  container are parameters. A middleware is the decision it takes: forward the request or answer it.
\<close>

section \<open>Parameters\<close>

record jwt_services =
  js_decode :: "string \<Rightarrow> string \<Rightarrow> string \<Rightarrow> json_dict option"
  js_b64_json :: "string \<Rightarrow> json option"
  js_float :: "string \<Rightarrow> real"
  js_repr :: "json \<Rightarrow> string"

record auth_env =
  ae_posture :: "string option"
  ae_jwt_secret :: "string option"
  ae_allow_unsigned :: "string option"
  ae_api_key :: "string option"

text \<open>\<open>os.environ.get(name, "").strip() or None\<close>.\<close>

definition jwt_secret_of :: "auth_env \<Rightarrow> string option" where
  "jwt_secret_of e = (let s = py_strip (env_get (ae_jwt_secret e) '''') in if s = '''' then None else Some s)"

definition unsigned_allowed :: "auth_env \<Rightarrow> bool" where
  "unsigned_allowed e = (py_lower (env_get (ae_allow_unsigned e) '''') = ''true'')"

definition py_str :: "jwt_services \<Rightarrow> json \<Rightarrow> string" where
  "py_str sv v = (case v of JStr s \<Rightarrow> s | JNull \<Rightarrow> ''None'' | JBool b \<Rightarrow> (if b then ''True'' else ''False'') | JInt n \<Rightarrow> str_int n
     | JFloat l \<Rightarrow> l | _ \<Rightarrow> js_repr sv v)"

definition str_claim :: "jwt_services \<Rightarrow> json_dict \<Rightarrow> string \<Rightarrow> string \<Rightarrow> string" where
  "str_claim sv d k dflt = (case map_of d k of None \<Rightarrow> dflt | Some v \<Rightarrow> py_str sv v)"

fun split_on :: "char \<Rightarrow> string \<Rightarrow> string list" where
  "split_on c [] = [[]]"
| "split_on c (x # xs) =
     (if x = c then [] # split_on c xs
      else case split_on c xs of [] \<Rightarrow> [[x]] | y # ys \<Rightarrow> (x # y) # ys)"

section \<open>Claims and roles\<close>

datatype jwt_error =
    MissingClaimError string
  | InvalidAudienceError string
  | TokenExpiredError

definition jwt_error_message :: "jwt_error \<Rightarrow> string" where
  "jwt_error_message e = (case e of MissingClaimError k \<Rightarrow> ''missing required claim: '' @ k
     | InvalidAudienceError a \<Rightarrow> ''required audience not present: '' @ a | TokenExpiredError \<Rightarrow> ''token has expired'')"

definition require_non_empty_string :: "json_dict \<Rightarrow> string \<Rightarrow> jwt_error option" where
  "require_non_empty_string claims k =
     (case map_of claims k of Some (JStr v) \<Rightarrow> if py_strip v = '''' then Some (MissingClaimError k) else None
      | _ \<Rightarrow> Some (MissingClaimError k))"

definition extract_audience_values :: "json option \<Rightarrow> string list" where
  "extract_audience_values v =
     (case v of Some (JStr s) \<Rightarrow> [s]
      | Some (JList xs) \<Rightarrow> List.map_filter (\<lambda>x. case x of JStr s \<Rightarrow> Some s | _ \<Rightarrow> None) xs
      | _ \<Rightarrow> [])"

text \<open>A Python \<open>bool\<close> is an \<open>int\<close>.\<close>

definition numeric_claim :: "jwt_services \<Rightarrow> json option \<Rightarrow> real option" where
  "numeric_claim sv v =
     (case v of Some (JInt n) \<Rightarrow> Some (of_int n) | Some (JFloat l) \<Rightarrow> Some (js_float sv l)
      | Some (JBool b) \<Rightarrow> Some (if b then 1 else 0) | _ \<Rightarrow> None)"

definition validate_jwt_claims :: "jwt_services \<Rightarrow> real \<Rightarrow> string \<Rightarrow> json_dict \<Rightarrow> jwt_error + json_dict" where
  "validate_jwt_claims sv now audience claims =
     (case require_non_empty_string claims ''sub'' of
        Some e \<Rightarrow> Inl e
      | None \<Rightarrow>
          let aud_values = extract_audience_values (map_of claims ''aud'') in
          if aud_values = [] then Inl (MissingClaimError ''aud'')
          else if audience \<notin> set aud_values then Inl (InvalidAudienceError audience)
          else (case numeric_claim sv (map_of claims ''exp'') of
              None \<Rightarrow> Inl (MissingClaimError ''exp'')
            | Some e \<Rightarrow> if e \<le> now then Inl TokenExpiredError else Inr claims))"

definition DEFAULT_POLICY :: "(string \<times> string list) list" where
  "DEFAULT_POLICY = [(''read'', [''read'', ''write'', ''admin'']), (''write'', [''write'', ''admin'']), (''admin'', [''admin''])]"

datatype rbac_error = UnknownOperationError string | OperationNotAllowedError string string

definition rbac_can :: "(string \<times> string list) list \<Rightarrow> string \<Rightarrow> string \<Rightarrow> rbac_error + bool" where
  "rbac_can policy role operation =
     (case map_of policy operation of None \<Rightarrow> Inl (UnknownOperationError operation) | Some roles \<Rightarrow> Inr (role \<in> set roles))"

definition rbac_enforce :: "(string \<times> string list) list \<Rightarrow> string \<Rightarrow> string \<Rightarrow> rbac_error option" where
  "rbac_enforce policy role operation =
     (case rbac_can policy role operation of Inl e \<Rightarrow> Some e
      | Inr True \<Rightarrow> None | Inr False \<Rightarrow> Some (OperationNotAllowedError operation role))"

section \<open>Tokens\<close>

definition verify_jwt :: "jwt_services \<Rightarrow> string \<Rightarrow> string \<Rightarrow> string \<Rightarrow> json_dict option" where
  "verify_jwt sv token secret audience = js_decode sv token secret audience"

definition decode_jwt_payload :: "jwt_services \<Rightarrow> string \<Rightarrow> json option" where
  "decode_jwt_payload sv token =
     (case split_on (CHR ''.'') token of
        [_, payload_b64, _] \<Rightarrow>
          let padding = 4 - length payload_b64 mod 4 in
          js_b64_json sv (if padding \<noteq> 4 then payload_b64 @ replicate padding (CHR ''='') else payload_b64)
      | _ \<Rightarrow> None)"

text \<open>What unwinds: an unknown posture, or a payload that is no object where the code calls \<open>get\<close>.\<close>

datatype auth_error = Auth_posture posture_error | Claims_not_a_dict

definition as_dict :: "json \<Rightarrow> auth_error + json_dict" where
  "as_dict v = (case v of JObj d \<Rightarrow> Inr d | _ \<Rightarrow> Inl Claims_not_a_dict)"

section \<open>The seam of the agent server\<close>

record validation_outcome =
  vo_ok :: bool
  vo_status :: int
  vo_reason :: string
  vo_claims :: json_dict

definition vo_reject :: "string \<Rightarrow> validation_outcome" where
  "vo_reject reason = \<lparr>vo_ok = False, vo_status = 401, vo_reason = reason, vo_claims = []\<rparr>"

definition vo_accept :: "json_dict \<Rightarrow> validation_outcome" where
  "vo_accept claims = \<lparr>vo_ok = True, vo_status = 0, vo_reason = '''', vo_claims = claims\<rparr>"

definition extract_bearer :: "string \<Rightarrow> string option" where
  "extract_bearer auth_header =
     (if auth_header = '''' then None
      else let h = py_strip auth_header in
        if \<not> py_startswith (py_lower h) ''bearer '' then None
        else let t = py_strip (drop 7 h) in if t = '''' then None else Some t)"

definition accept_claims :: "jwt_services \<Rightarrow> real \<Rightarrow> string \<Rightarrow> json_dict \<Rightarrow> validation_outcome" where
  "accept_claims sv now audience raw =
     (case validate_jwt_claims sv now audience raw of
        Inl e \<Rightarrow> vo_reject (''invalid_jwt_claims:'' @ jwt_error_message e)
      | Inr validated \<Rightarrow> vo_accept
          [(''sub'', JStr (str_claim sv validated ''sub'' '''')),
           (''tenant_id'', JStr (if py_truthy (map_of validated ''tenant_id'') then str_claim sv validated ''tenant_id'' '''' else '''')),
           (''role'', JStr (str_claim sv validated ''role'' ''read'')),
           (''aud'', case map_of validated ''aud'' of Some a \<Rightarrow> a | None \<Rightarrow> JStr audience),
           (''auth_method'', JStr ''jwt'')])"

definition validate_authorization ::
  "jwt_services \<Rightarrow> auth_env \<Rightarrow> real \<Rightarrow> string \<Rightarrow> string \<Rightarrow> auth_error + validation_outcome" where
  "validate_authorization sv env now audience auth_header =
     (case posture_from_env (ae_posture env) of
        Inl e \<Rightarrow> Inl (Auth_posture e)
      | Inr posture \<Rightarrow>
          (case extract_bearer auth_header of
             None \<Rightarrow>
               Inr (if is_strict posture then vo_reject ''missing_jwt''
                    else vo_accept [(''sub'', JStr ''__anonymous__''), (''auth_method'', JStr ''none'')])
           | Some token \<Rightarrow>
               (case jwt_secret_of env of
                  Some secret \<Rightarrow>
                    (case verify_jwt sv token secret audience of
                       None \<Rightarrow> Inr (vo_reject ''invalid_or_expired_jwt'')
                     | Some raw \<Rightarrow> Inr (accept_claims sv now audience raw))
                | None \<Rightarrow>
                    if is_strict posture then Inr (vo_reject ''jwt_secret_missing'')
                    else if \<not> unsigned_allowed env then Inr (vo_reject ''jwt_signature_unverified'')
                    else (case decode_jwt_payload sv token of
                        None \<Rightarrow> Inr (vo_reject ''invalid_jwt_format'')
                      | Some v \<Rightarrow> (case as_dict v of Inl e \<Rightarrow> Inl e | Inr raw \<Rightarrow> Inr (accept_claims sv now audience raw))))))"

section \<open>The middlewares of the agent server\<close>

text \<open>Header names are lower case, as ASGI delivers them; the first of equal headers counts.\<close>

type_synonym headers = "(string \<times> string) list"

definition header :: "headers \<Rightarrow> string \<Rightarrow> string" where
  "header hs name = (case map_of hs (py_lower name) of None \<Rightarrow> '''' | Some v \<Rightarrow> v)"

datatype jwt_decision = Jwt_forward "json_dict option" | Jwt_respond int string | Jwt_raise auth_error

definition JWT_EXEMPT_PATHS :: "string list" where
  "JWT_EXEMPT_PATHS = [''/v1/health'', ''/health'', ''/metrics'']"

definition jwt_dispatch :: "jwt_services \<Rightarrow> auth_env \<Rightarrow> real \<Rightarrow> string \<Rightarrow> string \<Rightarrow> headers \<Rightarrow> jwt_decision" where
  "jwt_dispatch sv env now audience path hs =
     (if path \<in> set JWT_EXEMPT_PATHS then Jwt_forward None
      else case validate_authorization sv env now audience (header hs ''authorization'') of
          Inl e \<Rightarrow> Jwt_raise e
        | Inr outcome \<Rightarrow>
            if \<not> vo_ok outcome then Jwt_respond (vo_status outcome) (vo_reason outcome)
            else Jwt_forward (Some (vo_claims outcome)))"

record tenant_context =
  tn_tenant_id :: string
  tn_project_id :: string
  tn_profile_id :: string
  tn_session_id :: string

text \<open>\<open>None\<close> is the 401 of \<open>AuthError\<close>.\<close>

definition tenant_dispatch :: "headers \<Rightarrow> tenant_context option" where
  "tenant_dispatch hs =
     (let tenant_id = py_strip (header hs ''X-Tenant-Id'') in
      if tenant_id = '''' then None
      else Some \<lparr>tn_tenant_id = tenant_id, tn_project_id = py_strip (header hs ''X-Project-Id''),
        tn_profile_id = py_strip (header hs ''X-Profile-Id''), tn_session_id = py_strip (header hs ''X-Session-Id'')\<rparr>)"

section \<open>The middleware of the hi-agent server\<close>

record auth_middleware =
  am_audience :: string
  am_runtime_mode :: string
  am_api_keys :: "string list"
  am_enabled :: bool
  am_jwt_secret :: "string option"

definition load_api_keys :: "auth_env \<Rightarrow> string list" where
  "load_api_keys env =
     (let raw = py_strip (env_get (ae_api_key env) '''') in
      if raw = '''' then [] else filter (\<lambda>k. k \<noteq> '''') (map py_strip (split_on (CHR '','') raw)))"

definition mk_auth_middleware :: "auth_env \<Rightarrow> string \<Rightarrow> string \<Rightarrow> auth_middleware" where
  "mk_auth_middleware env audience runtime_mode =
     \<lparr>am_audience = audience, am_runtime_mode = runtime_mode, am_api_keys = load_api_keys env,
      am_enabled = (load_api_keys env \<noteq> []), am_jwt_secret = jwt_secret_of env\<rparr>"

definition reload_keys :: "auth_env \<Rightarrow> auth_middleware \<Rightarrow> auth_middleware" where
  "reload_keys env m = m\<lparr>am_api_keys := load_api_keys env, am_enabled := (load_api_keys env \<noteq> [])\<rparr>"

definition auth_posture :: "auth_middleware \<Rightarrow> string" where
  "auth_posture m = (if am_enabled m then ''ok'' else if am_runtime_mode m = ''prod-real'' then ''degraded'' else ''dev_risk_open'')"

definition role_of_claims :: "jwt_services \<Rightarrow> real \<Rightarrow> string \<Rightarrow> json_dict \<Rightarrow> string option" where
  "role_of_claims sv now audience claims =
     (case validate_jwt_claims sv now audience claims of Inl _ \<Rightarrow> None | Inr validated \<Rightarrow> Some (str_claim sv validated ''role'' ''read''))"

definition authenticate :: "jwt_services \<Rightarrow> auth_env \<Rightarrow> real \<Rightarrow> auth_middleware \<Rightarrow> string \<Rightarrow> auth_error + string option" where
  "authenticate sv env now m token =
     (if token \<in> set (am_api_keys m) then Inr (Some ''write'')
      else case am_jwt_secret m of
          Some secret \<Rightarrow>
            (case verify_jwt sv token secret (am_audience m) of
               None \<Rightarrow> Inr None
             | Some claims \<Rightarrow> Inr (role_of_claims sv now (am_audience m) claims))
        | None \<Rightarrow>
            if am_runtime_mode m = ''prod-real'' then Inr None
            else if unsigned_allowed env then
              (case decode_jwt_payload sv token of
                 None \<Rightarrow> Inr None
               | Some v \<Rightarrow> (case as_dict v of Inl e \<Rightarrow> Inl e | Inr claims \<Rightarrow> Inr (role_of_claims sv now (am_audience m) claims)))
            else Inr None)"

record request_identity =
  rq_tenant_id :: string
  rq_user_id :: string
  rq_roles :: "string list"
  rq_auth_method :: string

datatype auth_decision = Auth_forward "request_identity option" | Auth_reject string int | Auth_raise auth_error

definition AUTH_EXEMPT_PATHS :: "string list" where
  "AUTH_EXEMPT_PATHS = [''/health'', ''/metrics'', ''/metrics/json'']"

definition WRITE_METHODS :: "string list" where
  "WRITE_METHODS = [''POST'', ''PUT'', ''DELETE'', ''PATCH'']"

text \<open>HTTP methods are ASCII tokens.\<close>

definition ascii_upper :: "string \<Rightarrow> string" where
  "ascii_upper s = map (\<lambda>c. if CHR ''a'' \<le> c \<and> c \<le> CHR ''z'' then char_of (of_char c - 32 :: nat) else c) s"

text \<open>The claims that populate the context: verified or decoded again, \<open>{}\<close> for an API key.\<close>

definition context_claims :: "jwt_services \<Rightarrow> auth_middleware \<Rightarrow> string \<Rightarrow> auth_error + json_dict" where
  "context_claims sv m token =
     (if token \<in> set (am_api_keys m) then Inr []
      else case am_jwt_secret m of
          Some secret \<Rightarrow> Inr (case verify_jwt sv token secret (am_audience m) of Some d \<Rightarrow> d | None \<Rightarrow> [])
        | None \<Rightarrow> (case decode_jwt_payload sv token of None \<Rightarrow> Inr []
            | Some v \<Rightarrow> if py_truthy (Some v) then as_dict v else Inr []))"

text \<open>Constructing the context reads the posture, which can raise; its tenant id is never empty here.\<close>

definition forward_as :: "auth_env \<Rightarrow> request_identity \<Rightarrow> auth_decision" where
  "forward_as env identity =
     (case posture_from_env (ae_posture env) of Inl e \<Rightarrow> Auth_raise (Auth_posture e) | Inr _ \<Rightarrow> Auth_forward (Some identity))"

definition auth_call ::
  "jwt_services \<Rightarrow> auth_env \<Rightarrow> real \<Rightarrow> auth_middleware \<Rightarrow> string \<Rightarrow> string \<Rightarrow> headers \<Rightarrow> auth_decision" where
  "auth_call sv env now m path method0 hs =
     (if path \<in> set AUTH_EXEMPT_PATHS then Auth_forward None
      else if \<not> am_enabled m then
        (if am_runtime_mode m = ''prod-real'' then Auth_reject ''auth_not_configured'' 503
         else forward_as env \<lparr>rq_tenant_id = ''__anonymous__'', rq_user_id = ''__anonymous__'', rq_roles = [], rq_auth_method = ''none''\<rparr>)
      else
        let method = ascii_upper (if method0 = '''' then ''GET'' else method0);
            operation = (if method \<in> set WRITE_METHODS then ''write'' else ''read'');
            auth_header = (case map_of (rev hs) ''authorization'' of None \<Rightarrow> '''' | Some v \<Rightarrow> v);
            auth_str = py_strip auth_header in
        if auth_header = '''' then Auth_reject ''missing_authorization'' 401
        else if \<not> py_startswith (py_lower auth_str) ''bearer '' then Auth_reject ''invalid_authorization_scheme'' 401
        else
          let token = py_strip (drop 7 auth_str) in
          (case authenticate sv env now m token of
             Inl e \<Rightarrow> Auth_raise e
           | Inr None \<Rightarrow> Auth_reject ''invalid_or_expired_token'' 401
           | Inr (Some role) \<Rightarrow>
               if rbac_enforce DEFAULT_POLICY role operation \<noteq> None then Auth_reject ''forbidden'' 403
               else (case context_claims sv m token of
                   Inl e \<Rightarrow> Auth_raise e
                 | Inr claims \<Rightarrow>
                     let raw_tenant_id = py_strip (if py_truthy (map_of claims ''tenant_id'') then str_claim sv claims ''tenant_id'' '''' else '''');
                         identity = (\<lambda>t. \<lparr>rq_tenant_id = t, rq_user_id = str_claim sv claims ''sub'' '''', rq_roles = [role],
                           rq_auth_method = (if token \<in> set (am_api_keys m) then ''api_key'' else ''jwt'')\<rparr>) in
                     if raw_tenant_id = '''' then
                       (case posture_from_env (ae_posture env) of
                          Inl e \<Rightarrow> Auth_raise (Auth_posture e)
                        | Inr posture \<Rightarrow>
                            if is_strict posture then Auth_reject ''missing_tenant_id_claim'' 401
                            else forward_as env (identity ''default''))
                     else forward_as env (identity raw_tenant_id))))"

end
