(* ===== verification/Request_Auth_Theorems.thy ===== *)
theory Request_Auth_Theorems
  imports Request_Auth
begin

text \<open>
  What the middlewares guarantee about the requests they let through, and where they fall short: the agent
  server does not tie the tenant header to the token, and API keys cannot be used under a strict posture.
\<close>

section \<open>Claims\<close>

lemma py_strip_empty [simp]: "py_strip [] = []"
  by (simp add: py_strip_def)

lemma claims_valid:
  assumes "validate_jwt_claims sv now audience claims = Inr validated"
  shows "validated = claims" "\<exists>sub. map_of claims ''sub'' = Some (JStr sub) \<and> py_strip sub \<noteq> ''''"
    "audience \<in> set (extract_audience_values (map_of claims ''aud''))"
    "\<exists>e. numeric_claim sv (map_of claims ''exp'') = Some e \<and> now < e"
  using assms
  by (auto simp: validate_jwt_claims_def require_non_empty_string_def Let_def not_le
      split: option.splits if_splits json.splits)

lemma accept_claims_ok:
  "vo_ok (accept_claims sv now audience raw) = (validate_jwt_claims sv now audience raw = Inr raw)"
  using claims_valid(1) [of sv now audience raw]
  by (auto simp: accept_claims_def vo_reject_def vo_accept_def split: sum.split)

text \<open>What a token has to be for a server that checks signatures.\<close>

definition verified_token :: "jwt_services \<Rightarrow> real \<Rightarrow> string \<Rightarrow> string \<Rightarrow> string \<Rightarrow> json_dict \<Rightarrow> bool" where
  "verified_token sv now audience secret token claims =
     (js_decode sv token secret audience = Some claims \<and>
      (\<exists>sub. map_of claims ''sub'' = Some (JStr sub) \<and> py_strip sub \<noteq> '''') \<and>
      audience \<in> set (extract_audience_values (map_of claims ''aud'')) \<and>
      (\<exists>e. numeric_claim sv (map_of claims ''exp'') = Some e \<and> now < e))"

lemma verified_tokenI:
  "js_decode sv token secret audience = Some claims \<Longrightarrow> validate_jwt_claims sv now audience claims = Inr v \<Longrightarrow>
   verified_token sv now audience secret token claims"
  using claims_valid [of sv now audience claims v] by (simp add: verified_token_def)

section \<open>The agent server\<close>

text \<open>C7. Under a strict posture the agent server lets a request past its JWT middleware, outside the three exempt paths,
  only with a bearer token that the configured secret verifies and whose claims name a subject, the
  server's audience and an expiry in the future; without a secret nothing passes.\<close>

theorem agent_server_auth_fails_closed:
  assumes "posture_from_env (ae_posture env) = Inr p" "is_strict p" "path \<notin> set JWT_EXEMPT_PATHS"
    and "jwt_dispatch sv env now audience path hs = Jwt_forward c"
  shows "\<exists>secret token claims. jwt_secret_of env = Some secret \<and> extract_bearer (header hs ''authorization'') = Some token \<and>
    verified_token sv now audience secret token claims"
proof -
  obtain o' where o': "validate_authorization sv env now audience (header hs ''authorization'') = Inr o'" "vo_ok o'"
    using assms(3,4) by (auto simp: jwt_dispatch_def split: sum.splits if_splits)
  then obtain token secret raw where t: "extract_bearer (header hs ''authorization'') = Some token" "jwt_secret_of env = Some secret"
    "js_decode sv token secret audience = Some raw" "o' = accept_claims sv now audience raw"
    using assms(1,2) by (auto simp: validate_authorization_def vo_reject_def verify_jwt_def split: option.splits)
  from o'(2) have "validate_jwt_claims sv now audience raw = Inr raw" unfolding t(4) accept_claims_ok .
  then show ?thesis using t(1-3) verified_tokenI by blast
qed

lemma header_cons: "py_lower name \<noteq> k \<Longrightarrow> header ((k, v) # hs) name = header hs name"
  by (simp add: header_def)

text \<open>The tenant of a request is whatever its header says: prepending any tenant header leaves the decision of the JWT
  middleware as it is, whatever tenant the token was issued for, and makes that tenant the context every handler
  and the idempotency layer read.\<close>

lemma tenant_header_is_not_bound_to_token:
  assumes "py_strip t \<noteq> ''''"
  shows "jwt_dispatch sv env now audience path ((''x-tenant-id'', t) # hs) = jwt_dispatch sv env now audience path hs \<and>
    (\<exists>c. tenant_dispatch ((''x-tenant-id'', t) # hs) = Some c \<and> tn_tenant_id c = py_strip t)"
proof -
  have "py_lower ''authorization'' = ''authorization''" "py_lower ''X-Tenant-Id'' = ''x-tenant-id''" by code_simp+
  then show ?thesis using assms by (simp add: jwt_dispatch_def tenant_dispatch_def header_def Let_def)
qed

text \<open>The health probe is exempt from the token but not from the tenant header.\<close>

lemma health_needs_tenant: "jwt_dispatch sv env now audience ''/v1/health'' [] = Jwt_forward None \<and> tenant_dispatch [] = None"
  by (simp add: jwt_dispatch_def JWT_EXEMPT_PATHS_def tenant_dispatch_def header_def py_strip_def)

section \<open>The hi-agent server\<close>

lemma roles_allowed: "rbac_enforce DEFAULT_POLICY role op = None \<Longrightarrow>
    (op = ''read'' \<and> role \<in> {''read'', ''write'', ''admin''}) \<or> (op = ''write'' \<and> role \<in> {''write'', ''admin''}) \<or> (op = ''admin'' \<and> role = ''admin'')"
  by (auto simp: rbac_enforce_def rbac_can_def DEFAULT_POLICY_def split: if_splits bool.splits)

lemma forward_as_ident: "forward_as env x = Auth_forward (Some i) \<Longrightarrow> x = i \<and> (\<exists>p. posture_from_env (ae_posture env) = Inr p)"
  by (auto simp: forward_as_def split: sum.splits)

definition bearer_of :: "headers \<Rightarrow> string" where
  "bearer_of hs = py_strip (drop 7 (py_strip (case map_of (rev hs) ''authorization'' of None \<Rightarrow> '''' | Some v \<Rightarrow> v)))"

lemma auth_call_forward:
  assumes "am_enabled m" "path \<notin> set AUTH_EXEMPT_PATHS" "auth_call sv env now m path method0 hs = Auth_forward (Some i)"
  shows "\<exists>role claims. authenticate sv env now m (bearer_of hs) = Inr (Some role) \<and>
    rbac_enforce DEFAULT_POLICY role (if ascii_upper (if method0 = '''' then ''GET'' else method0) \<in> set WRITE_METHODS then ''write'' else ''read'') = None \<and>
    context_claims sv m (bearer_of hs) = Inr claims \<and> rq_roles i = [role] \<and> rq_user_id i = str_claim sv claims ''sub'' '''' \<and>
    (\<exists>p. posture_from_env (ae_posture env) = Inr p \<and> (is_strict p \<longrightarrow>
      py_truthy (map_of claims ''tenant_id'') \<and> rq_tenant_id i = py_strip (str_claim sv claims ''tenant_id'' '''') \<and> rq_tenant_id i \<noteq> ''''))"
  using assms unfolding auth_call_def bearer_of_def Let_def
  by (auto split: if_splits sum.splits option.splits dest!: forward_as_ident)

text \<open>C8. What the hi-agent server lets through under a strict posture, outside the exempt paths, once API keys are
  configured: a token that the configured secret verifies (or, without a secret and outside the real production mode, that passes
  the explicit test override), whose claims are valid now for the audience of the server and name a tenant, and whose role claim
  (\<open>read\<close> when it has none) may do the operation: writing needs the write or the admin role. The request carries exactly the
  tenant, the subject and the role of the token.\<close>

theorem hi_agent_auth_fails_closed:
  assumes "posture_from_env (ae_posture env) = Inr p" "is_strict p" "am_enabled m" "path \<notin> set AUTH_EXEMPT_PATHS"
    and "auth_call sv env now m path meth hs = Auth_forward (Some i)"
  shows "\<exists>claims role. validate_jwt_claims sv now (am_audience m) claims = Inr claims \<and>
    role = str_claim sv claims ''role'' ''read'' \<and> role \<in> {''read'', ''write'', ''admin''} \<and> rq_roles i = [role] \<and>
    (ascii_upper meth \<in> set WRITE_METHODS \<longrightarrow> role \<noteq> ''read'') \<and>
    rq_tenant_id i = py_strip (str_claim sv claims ''tenant_id'' '''') \<and> rq_tenant_id i \<noteq> '''' \<and>
    rq_user_id i = str_claim sv claims ''sub'' '''' \<and>
    (case am_jwt_secret m of
       Some secret \<Rightarrow> verified_token sv now (am_audience m) secret (bearer_of hs) claims
     | None \<Rightarrow> am_runtime_mode m \<noteq> ''prod-real'' \<and> unsigned_allowed env \<and> decode_jwt_payload sv (bearer_of hs) = Some (JObj claims))"
proof -
  obtain role claims where c: "authenticate sv env now m (bearer_of hs) = Inr (Some role)" "rq_roles i = [role]"
    "rbac_enforce DEFAULT_POLICY role (if ascii_upper (if meth = '''' then ''GET'' else meth) \<in> set WRITE_METHODS then ''write'' else ''read'') = None"
    "context_claims sv m (bearer_of hs) = Inr claims"
    "py_truthy (map_of claims ''tenant_id'')" "rq_tenant_id i = py_strip (str_claim sv claims ''tenant_id'' '''')" "rq_tenant_id i \<noteq> ''''"
    "rq_user_id i = str_claim sv claims ''sub'' ''''"
    using auth_call_forward [OF assms(3,4,5)] assms(1,2) by auto
  have key: "bearer_of hs \<notin> set (am_api_keys m)" using c(4,5) by (auto simp: context_claims_def py_truthy_def)
  have role: "role \<in> {''read'', ''write'', ''admin''} \<and> (ascii_upper meth \<in> set WRITE_METHODS \<longrightarrow> role \<noteq> ''read'')"
    using roles_allowed [OF c(3)] by (auto simp: WRITE_METHODS_def ascii_upper_def split: if_splits)
  have "case am_jwt_secret m of
       Some secret \<Rightarrow> verified_token sv now (am_audience m) secret (bearer_of hs) claims
     | None \<Rightarrow> am_runtime_mode m \<noteq> ''prod-real'' \<and> unsigned_allowed env \<and> decode_jwt_payload sv (bearer_of hs) = Some (JObj claims)"
  proof (cases "am_jwt_secret m")
    case (Some secret)
    then show ?thesis using c(1,4) key
      by (auto simp: authenticate_def context_claims_def verify_jwt_def role_of_claims_def intro: verified_tokenI split: option.splits sum.splits)
  next
    case None
    then show ?thesis using c(1,4,5) key
      by (auto simp: authenticate_def context_claims_def as_dict_def py_truthy_def split: option.splits if_splits json.splits sum.splits)
  qed
  moreover have "role_of_claims sv now (am_audience m) claims = Some role"
    using c(1,4,5) key
    by (auto simp: authenticate_def context_claims_def as_dict_def verify_jwt_def py_truthy_def
        split: option.splits if_splits json.splits sum.splits)
  then have "validate_jwt_claims sv now (am_audience m) claims = Inr claims \<and> role = str_claim sv claims ''role'' ''read''"
    by (auto simp: role_of_claims_def dest: claims_valid split: sum.splits)
  ultimately show ?thesis using c(2,6-8) role by blast
qed

text \<open>API keys do not work under a strict posture: a request with a configured API key is rejected for its missing tenant
  claim, whatever its path outside the exempt ones, since an API key has no claims to take a tenant from.\<close>

lemma api_key_is_rejected_when_strict:
  assumes "posture_from_env (ae_posture env) = Inr p" "is_strict p" "am_enabled m" "path \<notin> set AUTH_EXEMPT_PATHS"
    and "bearer_of hs \<in> set (am_api_keys m)" "auth_call sv env now m path meth hs = d"
  shows "\<exists>reason. d = Auth_reject reason 401 \<and> reason \<in> {''missing_authorization'', ''invalid_authorization_scheme'', ''missing_tenant_id_claim''}"
proof -
  have "rbac_enforce DEFAULT_POLICY ''write'' op = None" if "op \<in> {''read'', ''write''}" for op
    using that by (auto simp: rbac_enforce_def rbac_can_def DEFAULT_POLICY_def)
  then show ?thesis using assms
    by (auto simp: auth_call_def bearer_of_def authenticate_def context_claims_def py_truthy_def Let_def)
qed

section \<open>Witnesses\<close>

definition demo_claims :: json_dict where
  "demo_claims = [(''sub'', JStr ''u''), (''aud'', JStr ''hi-agent''), (''exp'', JInt 100), (''tenant_id'', JStr ''t1''), (''role'', JStr ''write'')]"

definition demo_jwt :: jwt_services where
  "demo_jwt = \<lparr>js_decode = (\<lambda>token secret aud. if token = ''tok'' \<and> secret = ''k'' then Some demo_claims else None),
     js_b64_json = (\<lambda>_. None), js_float = (\<lambda>_. 0), js_repr = (\<lambda>_. '''')\<rparr>"

definition demo_auth_env :: auth_env where
  "demo_auth_env = \<lparr>ae_posture = Some ''prod'', ae_jwt_secret = Some ''k'', ae_allow_unsigned = None, ae_api_key = Some ''key1''\<rparr>"

definition demo_headers :: headers where
  "demo_headers = [(''authorization'', ''Bearer tok'')]"

lemma demo_posture: "posture_from_env (ae_posture demo_auth_env) = Inr Prod"
  using posture_from_env_canonical [of Prod] by (simp add: demo_auth_env_def posture_value_def)

lemma demo_verified: "validate_jwt_claims demo_jwt 50 ''hi-agent'' demo_claims = Inr demo_claims"
  by (simp add: validate_jwt_claims_def demo_claims_def require_non_empty_string_def extract_audience_values_def numeric_claim_def
      py_strip_def is_py_space_def)

lemma demo_strings:
  "jwt_secret_of demo_auth_env = Some ''k''" "extract_bearer (header demo_headers ''authorization'') = Some ''tok''"
  "load_api_keys demo_auth_env = [''key1'']" "bearer_of demo_headers = ''tok''" "ascii_upper ''POST'' = ''POST''"
  "bearer_of [(''authorization'', ''Bearer key1'')] = ''key1''" "py_startswith (py_lower (py_strip ''Bearer tok'')) ''bearer ''"
  by code_simp+

theorem agent_server_auth_fails_closed_witness:
  "\<exists>secret token claims. jwt_secret_of demo_auth_env = Some secret \<and> extract_bearer (header demo_headers ''authorization'') = Some token \<and>
     verified_token demo_jwt 50 ''hi-agent'' secret token claims"
proof -
  have "vo_ok (accept_claims demo_jwt 50 ''hi-agent'' demo_claims)" using demo_verified by (simp add: accept_claims_ok)
  then have "jwt_dispatch demo_jwt demo_auth_env 50 ''hi-agent'' ''/v1/runs'' demo_headers =
      Jwt_forward (Some (vo_claims (accept_claims demo_jwt 50 ''hi-agent'' demo_claims)))"
    by (simp add: jwt_dispatch_def JWT_EXEMPT_PATHS_def validate_authorization_def demo_posture demo_strings verify_jwt_def demo_jwt_def)
  from agent_server_auth_fails_closed [OF demo_posture _ _ this] show ?thesis by (simp add: JWT_EXEMPT_PATHS_def)
qed

lemma demo_call:
  "auth_call demo_jwt demo_auth_env 50 (mk_auth_middleware demo_auth_env ''hi-agent'' ''prod-real'') ''/runs'' ''POST'' demo_headers =
     Auth_forward (Some \<lparr>rq_tenant_id = ''t1'', rq_user_id = ''u'', rq_roles = [''write''], rq_auth_method = ''jwt''\<rparr>)"
proof -
  have "authenticate demo_jwt demo_auth_env 50 (mk_auth_middleware demo_auth_env ''hi-agent'' ''prod-real'') ''tok'' = Inr (Some ''write'')"
    using demo_verified
    by (simp add: authenticate_def mk_auth_middleware_def demo_strings verify_jwt_def role_of_claims_def demo_jwt_def)
      (simp add: demo_claims_def str_claim_def py_str_def)
  moreover have "context_claims demo_jwt (mk_auth_middleware demo_auth_env ''hi-agent'' ''prod-real'') ''tok'' = Inr demo_claims"
    by (simp add: context_claims_def mk_auth_middleware_def demo_strings verify_jwt_def demo_jwt_def)
  moreover have "rbac_enforce DEFAULT_POLICY ''write'' ''write'' = None" by (simp add: rbac_enforce_def rbac_can_def DEFAULT_POLICY_def)
  moreover have "py_strip (drop 7 (py_strip ''Bearer tok'')) = ''tok''" "py_strip ''t1'' = ''t1''" by code_simp+
  moreover have "str_claim demo_jwt demo_claims ''tenant_id'' '''' = ''t1''" "str_claim demo_jwt demo_claims ''sub'' '''' = ''u''"
    "py_truthy (map_of demo_claims ''tenant_id'')"
    by (simp_all add: str_claim_def demo_claims_def py_str_def py_truthy_def)
  ultimately show ?thesis
    using demo_strings(7) by (simp add: auth_call_def AUTH_EXEMPT_PATHS_def demo_headers_def WRITE_METHODS_def demo_strings(5) forward_as_def demo_posture Let_def)
      (simp add: mk_auth_middleware_def demo_strings)
qed

theorem hi_agent_auth_fails_closed_witness:
  "\<exists>claims. verified_token demo_jwt 50 ''hi-agent'' ''k'' ''tok'' claims \<and> ''t1'' = py_strip (str_claim demo_jwt claims ''tenant_id'' '''') \<and>
    ''write'' = str_claim demo_jwt claims ''role'' ''read''"
proof -
  have "am_enabled (mk_auth_middleware demo_auth_env ''hi-agent'' ''prod-real'')" by (simp add: mk_auth_middleware_def demo_strings)
  from hi_agent_auth_fails_closed [OF demo_posture _ this _ demo_call] show ?thesis
    by (auto simp: AUTH_EXEMPT_PATHS_def mk_auth_middleware_def demo_strings)
qed

end
