(* ===== verification/Idempotency_Gateway.thy ===== *)
theory Idempotency_Gateway
  imports Idempotency_Theorems Request_Auth
begin

text \<open>
  The idempotency layer of the agent server: the facade over the store
  (\<open>agent_server/facade/idempotency_facade.py\<close>) and the middleware around the handlers
  (\<open>agent_server/api/middleware/idempotency.py\<close>). A request is two steps, since the handler runs between them:
  \<open>begin_request\<close> up to the call of the handler, \<open>finish_request\<close> from its answer on; requests interleave at
  those steps. Unicode normalisation, SHA-256, the JSON codec and \<open>int()\<close> on a value that is no integer are
  parameters. Bodies are bytes (a \<open>char\<close> is one of 256). \<open>json.loads\<close> on bytes first detects their encoding and
  decodes them: it gives a value, or \<open>JSONDecodeError\<close>, or another exception (\<open>UnicodeDecodeError\<close>, or
  \<open>RecursionError\<close> for a deep nesting), which neither call of the middleware catches. An \<open>Answer\<close> is what the code
  hands to \<open>JSONResponse\<close>; how Starlette renders it is outside.
\<close>

datatype parsed = Parsed json | Not_json | Loads_raises

text \<open>\<open>gw_dumps\<close> is \<open>json.dumps\<close> with \<open>sort_keys=True, ensure_ascii=True\<close>, \<open>gw_dumps_unicode\<close> the store's with
  \<open>ensure_ascii=False\<close>; \<open>gw_loads\<close> reads a text (\<open>None\<close>: \<open>JSONDecodeError\<close>), \<open>gw_loads_bytes\<close> a body;
  \<open>gw_replace\<close> is \<open>bytes.decode("utf-8", errors="replace")\<close>.\<close>

record gateway_services =
  gw_nfc :: "string \<Rightarrow> string"
  gw_digest :: "string \<Rightarrow> string"
  gw_loads :: "string \<Rightarrow> json option"
  gw_loads_bytes :: "string \<Rightarrow> parsed"
  gw_replace :: "string \<Rightarrow> string"
  gw_dumps :: "json \<Rightarrow> string"
  gw_dumps_unicode :: "json \<Rightarrow> string"
  gw_int :: "json \<Rightarrow> int option"

section \<open>The facade\<close>

definition IDENTITY_KEYS_TO_STRIP :: "string list" where
  "IDENTITY_KEYS_TO_STRIP = [''request_id'', ''trace_id'', ''_response_timestamp'']"

fun nfc_normalize :: "(string \<Rightarrow> string) \<Rightarrow> json \<Rightarrow> json" where
  "nfc_normalize nfc (JStr s) = JStr (nfc s)"
| "nfc_normalize nfc (JObj d) = JObj (map (\<lambda>(k, v). (k, nfc_normalize nfc v)) d)"
| "nfc_normalize nfc (JList xs) = JList (map (nfc_normalize nfc) xs)"
| "nfc_normalize nfc v = v"

definition canonical_body_hash :: "gateway_services \<Rightarrow> json_dict \<Rightarrow> string" where
  "canonical_body_hash sv body = gw_digest sv (gw_dumps sv (nfc_normalize (gw_nfc sv) (JObj body)))"

definition strip_identity :: "json_dict \<Rightarrow> json_dict" where
  "strip_identity p = drop_keys IDENTITY_KEYS_TO_STRIP p"

datatype facade_error =
    Tenant_required
  | Key_required
  | Store_error idem_error
  | Snapshot_not_an_object
  | Status_not_an_int
  | Body_not_readable

datatype facade_reply = Reply_created | Reply_replayed json_dict int | Reply_conflict

definition decode_snapshot :: "gateway_services \<Rightarrow> string \<Rightarrow> facade_error + json_dict \<times> int" where
  "decode_snapshot sv snapshot =
     (if snapshot = '''' then Inr ([(''error'', JStr ''ConflictError''), (''message'', JStr ''request still in flight'')], 409)
      else case gw_loads sv snapshot of
          None \<Rightarrow> Inr ([(''error'', JStr ''InternalError''), (''message'', JStr ''snapshot corrupt'')], 500)
        | Some (JObj decoded) \<Rightarrow>
            (case map_of decoded ''body'' of
               Some (JObj body) \<Rightarrow>
                 (case map_of decoded ''status_code'' of
                    None \<Rightarrow> Inr (body, 200)
                  | Some (JInt n) \<Rightarrow> Inr (body, n)
                  | Some v \<Rightarrow> (case gw_int sv v of Some n \<Rightarrow> Inr (body, n) | None \<Rightarrow> Inl Status_not_an_int))
             | _ \<Rightarrow> Inr ([(''error'', JStr ''InternalError''), (''message'', JStr ''snapshot malformed'')], 500))
        | Some _ \<Rightarrow> Inl Snapshot_not_an_object)"

definition STORE_TTL :: real where
  "STORE_TTL = 86400"

definition facade_reserve ::
  "gateway_services \<Rightarrow> string option \<Rightarrow> real \<Rightarrow> string \<Rightarrow> string \<Rightarrow> json_dict \<Rightarrow> idem_store \<Rightarrow> (facade_error + facade_reply) \<times> idem_store" where
  "facade_reserve sv env now tenant_id key body s =
     (if tenant_id = '''' then (Inl Tenant_required, s)
      else if key = '''' then (Inl Key_required, s)
      else case reserve_or_replay env now tenant_id key (canonical_body_hash sv body) (''reserved::'' @ key) STORE_TTL '''' '''' '''' None s of
          (Inl e, s1) \<Rightarrow> (Inl (Store_error e), s1)
        | (Inr (Created, _), s1) \<Rightarrow> (Inr Reply_created, s1)
        | (Inr (Replayed, record), s1) \<Rightarrow>
            (case decode_snapshot sv (ir_response_snapshot record) of
               Inl e \<Rightarrow> (Inl e, s1) | Inr (body, code) \<Rightarrow> (Inr (Reply_replayed body code), s1))
        | (Inr (Conflicted, _), s1) \<Rightarrow> (Inr Reply_conflict, s1))"

definition snapshot_envelope :: "int \<Rightarrow> json_dict \<Rightarrow> json" where
  "snapshot_envelope status_code response_json = JObj [(''status_code'', JInt status_code), (''body'', JObj (strip_identity response_json))]"

definition facade_mark_complete ::
  "gateway_services \<Rightarrow> real \<Rightarrow> string \<Rightarrow> string \<Rightarrow> json_dict \<Rightarrow> int \<Rightarrow> idem_store \<Rightarrow> idem_store" where
  "facade_mark_complete sv now tenant_id key response_json status_code s =
     (if tenant_id = '''' \<or> key = '''' then s
      else mark_complete (gw_loads sv) (gw_dumps_unicode sv) now tenant_id key (gw_dumps sv (snapshot_envelope status_code response_json))
        ''succeeded'' None s)"

definition facade_release :: "string \<Rightarrow> string \<Rightarrow> idem_store \<Rightarrow> idem_store" where
  "facade_release tenant_id key s = (if tenant_id = '''' \<or> key = '''' then s else idem_release tenant_id key s)"

section \<open>The middleware\<close>

record http_request =
  ht_method :: string
  ht_path :: string
  ht_headers :: headers
  ht_body :: string

definition IDEMPOTENCY_KEY_MAX_LEN :: nat where
  "IDEMPOTENCY_KEY_MAX_LEN = 256"

definition MUTATING_METHODS :: "string list" where
  "MUTATING_METHODS = [''POST'', ''PUT'', ''DELETE'', ''PATCH'']"

definition is_runs_mutation :: "string \<Rightarrow> string \<Rightarrow> bool" where
  "is_runs_mutation meth path =
     (meth \<in> set MUTATING_METHODS \<and> (if path = ''/v1/runs'' then meth = ''POST'' else py_startswith path ''/v1/runs/''))"

definition is_skills_mutation :: "string \<Rightarrow> string \<Rightarrow> bool" where
  "is_skills_mutation meth path = (meth \<in> set MUTATING_METHODS \<and> (path = ''/v1/skills'' \<or> py_startswith path ''/v1/skills/''))"

definition is_memory_write_mutation :: "string \<Rightarrow> string \<Rightarrow> bool" where
  "is_memory_write_mutation meth path = (meth \<in> set MUTATING_METHODS \<and> path = ''/v1/memory/write'')"

definition is_gates_decide_mutation :: "string \<Rightarrow> string \<Rightarrow> bool" where
  "is_gates_decide_mutation meth path = (meth \<in> set MUTATING_METHODS \<and> py_startswith path ''/v1/gates/'')"

definition guarded_route :: "string \<Rightarrow> string \<Rightarrow> bool" where
  "guarded_route meth path =
     (is_runs_mutation meth path \<or> is_skills_mutation meth path \<or> is_memory_write_mutation meth path \<or> is_gates_decide_mutation meth path)"

text \<open>\<open>None\<close>: the exception of \<open>json.loads\<close> goes through.\<close>

definition safe_decode_body :: "gateway_services \<Rightarrow> string \<Rightarrow> json_dict option" where
  "safe_decode_body sv body =
     (if body = '''' then Some []
      else case gw_loads_bytes sv body of
          Loads_raises \<Rightarrow> None
        | Not_json \<Rightarrow> Some [(''__raw_body__'', JStr (gw_replace sv body))]
        | Parsed (JObj d) \<Rightarrow> Some d
        | Parsed v \<Rightarrow> Some [(''__non_dict_body__'', v)])"

datatype http_response = Json_response int json_dict | Raw_response int string

datatype begun =
    Pass_through
  | Answer http_response
  | Reserved string string
  | Begin_raises facade_error

definition key_of :: "http_request \<Rightarrow> string" where
  "key_of r = py_strip (header (ht_headers r) ''Idempotency-Key'')"

definition tenant_of :: "http_request \<Rightarrow> string" where
  "tenant_of r = py_strip (header (ht_headers r) ''X-Tenant-Id'')"

text \<open>In the message on long keys the code has the sign for less-or-equal, which is no Latin-1 character.\<close>

definition begin_request ::
  "gateway_services \<Rightarrow> string option \<Rightarrow> bool \<Rightarrow> real \<Rightarrow> http_request \<Rightarrow> idem_store \<Rightarrow> begun \<times> idem_store" where
  "begin_request sv env strict now r s =
     (if \<not> guarded_route (ascii_upper (ht_method r)) (ht_path r) then (Pass_through, s)
      else
        let key = key_of r; tenant_id = tenant_of r in
        if tenant_id = '''' then (Pass_through, s)
        else if key \<noteq> '''' \<and> IDEMPOTENCY_KEY_MAX_LEN < length key then
          (Answer (Json_response 400
             [(''error'', JStr ''ContractError''), (''error_category'', JStr ''contract_violation''),
              (''message'', JStr (''Idempotency-Key length '' @ str_int (int (length key)) @ '' exceeds max '' @
                str_int (int IDEMPOTENCY_KEY_MAX_LEN))),
              (''retryable'', JBool False), (''next_action'', JStr (''Use an Idempotency-Key <= '' @ str_int (int IDEMPOTENCY_KEY_MAX_LEN) @
                '' characters (UUID4 / ULID / nanoid recommended).'')),
              (''tenant_id'', JStr tenant_id), (''detail'', JStr '''')]), s)
        else if key = '''' then
          (if strict then
             (Answer (Json_response 400 [(''error'', JStr ''ContractError''), (''message'', JStr ''missing required Idempotency-Key header''),
                (''tenant_id'', JStr tenant_id), (''detail'', JStr ''research/prod posture demands idempotency keys'')]), s)
           else (Pass_through, s))
        else
          (case safe_decode_body sv (ht_body r) of
             None \<Rightarrow> (Begin_raises Body_not_readable, s)
           | Some body_dict \<Rightarrow>
          (case facade_reserve sv env now tenant_id key body_dict s of
             (Inl e, s1) \<Rightarrow> (Begin_raises e, s1)
           | (Inr (Reply_replayed body code), s1) \<Rightarrow> (Answer (Json_response code body), s1)
           | (Inr Reply_conflict, s1) \<Rightarrow>
               (Answer (Json_response 409 [(''error'', JStr ''ConflictError''),
                  (''message'', JStr (''Idempotency-Key='' @ key @ '' already used with a different body'')),
                  (''tenant_id'', JStr tenant_id), (''detail'', JStr ''idempotency key reuse with body mismatch'')]), s1)
           | (Inr Reply_created, s1) \<Rightarrow> (Reserved tenant_id key, s1))))"

text \<open>How a handler ends. A cancelled request unwinds with \<open>CancelledError\<close>, which is no \<open>Exception\<close>. A 2xx answer whose
  body raises while the middleware drains it raises outside the \<open>try\<close>, too.\<close>

datatype handler_end = Handler_raised | Handler_cancelled | Body_raised | Handler_returned int string

text \<open>\<open>None\<close>: an exception that is no \<open>JSONDecodeError\<close> goes through.\<close>

definition response_object :: "gateway_services \<Rightarrow> string \<Rightarrow> json option" where
  "response_object sv payload_text =
     (if payload_text = '''' then Some (JObj [])
      else case gw_loads_bytes sv payload_text of Parsed v \<Rightarrow> Some v | Not_json \<Rightarrow> Some (JObj []) | Loads_raises \<Rightarrow> None)"

text \<open>\<open>None\<close>: the exception goes on.\<close>

definition finish_request ::
  "gateway_services \<Rightarrow> real \<Rightarrow> string \<Rightarrow> string \<Rightarrow> handler_end \<Rightarrow> idem_store \<Rightarrow> http_response option \<times> idem_store" where
  "finish_request sv now tenant_id key h s =
     (case h of
        Handler_raised \<Rightarrow> (None, facade_release tenant_id key s)
      | Handler_cancelled \<Rightarrow> (None, s)
      | Body_raised \<Rightarrow> (None, s)
      | Handler_returned status payload_text \<Rightarrow>
          if 200 \<le> status \<and> status < 300 then
            (case response_object sv payload_text of
               None \<Rightarrow> (None, s)
             | Some (JObj response_json) \<Rightarrow>
                 (Some (Raw_response status payload_text), facade_mark_complete sv now tenant_id key response_json status s)
             | Some _ \<Rightarrow> (Some (Raw_response status payload_text), s))
          else (Some (Raw_response status payload_text), facade_release tenant_id key s))"

section \<open>Interleaved requests\<close>

text \<open>A gateway: the store, the guarded requests whose handler is running, by a number the server gives each, and a journal of
  the calls of handlers (\<open>None\<close>) and their ends, with the tenant and key they were guarded by.\<close>

record gateway =
  gx_store :: idem_store
  gx_running :: "(nat \<times> string \<times> string) list"
  gx_journal :: "((string \<times> string) \<times> handler_end option) list"

datatype gateway_event =
    Arrive nat real http_request
  | Handler_ends nat real handler_end
  | Purge_run real

definition gateway_init :: gateway where
  "gateway_init = \<lparr>gx_store = idem_init, gx_running = [], gx_journal = []\<rparr>"

fun gateway_step :: "gateway_services \<Rightarrow> string option \<Rightarrow> bool \<Rightarrow> gateway_event \<Rightarrow> gateway \<Rightarrow> gateway" where
  "gateway_step sv env strict (Arrive n now r) g =
     (if n \<in> fst ` set (gx_running g) then g
      else case begin_request sv env strict now r (gx_store g) of
        (Reserved t k, s) \<Rightarrow> g\<lparr>gx_store := s, gx_running := (n, t, k) # gx_running g, gx_journal := gx_journal g @ [((t, k), None)]\<rparr>
      | (_, s) \<Rightarrow> g\<lparr>gx_store := s\<rparr>)"
| "gateway_step sv env strict (Handler_ends n now h) g =
     (case map_of (gx_running g) n of
        None \<Rightarrow> g
      | Some (t, k) \<Rightarrow> g\<lparr>gx_store := snd (finish_request sv now t k h (gx_store g)),
          gx_running := filter (\<lambda>e. fst e \<noteq> n) (gx_running g), gx_journal := gx_journal g @ [((t, k), Some h)]\<rparr>)"
| "gateway_step sv env strict (Purge_run now) g = g\<lparr>gx_store := snd (purge_expired now (gx_store g))\<rparr>"

end
