(* ===== verification/Idempotency_Gateway_Theorems.thy ===== *)
theory Idempotency_Gateway_Theorems
  imports Idempotency_Gateway
begin

text \<open>
  What the idempotency layer guarantees to a client that retries: over any interleaving of requests, within the
  lifetime of a reservation, a handler is called for a key exactly when the key is free, and a completed request is
  replayed; and where it falls short: answers it cannot store and cancelled requests block their key.
\<close>

section \<open>When a key is free\<close>

definition failed_end :: "handler_end \<Rightarrow> bool" where
  "failed_end h = (case h of Handler_raised \<Rightarrow> True | Handler_cancelled \<Rightarrow> False | Body_raised \<Rightarrow> False | Handler_returned st _ \<Rightarrow> \<not> (200 \<le> st \<and> st < 300))"

definition last_entry :: "string \<times> string \<Rightarrow> ((string \<times> string) \<times> handler_end option) list \<Rightarrow> handler_end option option" where
  "last_entry key js = (let es = filter (\<lambda>e. fst e = key) js in if es = [] then None else Some (snd (List.last es)))"

definition key_free :: "string \<times> string \<Rightarrow> ((string \<times> string) \<times> handler_end option) list \<Rightarrow> bool" where
  "key_free key js = (case last_entry key js of None \<Rightarrow> True | Some None \<Rightarrow> False | Some (Some h) \<Rightarrow> failed_end h)"

lemma last_entry_snoc: "last_entry key (js @ [(k, x)]) = (if k = key then Some x else last_entry key js)"
  by (simp add: last_entry_def Let_def)

lemma last_entry_Nil [simp]: "last_entry key [] = None" "key_free key []"
  by (simp_all add: last_entry_def key_free_def)

section \<open>The facade on the store\<close>

text \<open>A store whose rows all live until \<open>T\<close>, with the spine fields the facade fills in.\<close>

definition store_ok :: "real \<Rightarrow> idem_store \<Rightarrow> bool" where
  "store_ok T s = (idem_inv s \<and> (\<forall>key r. idem_get s key = Some r \<longrightarrow>
     T \<le> ir_expires_at r \<and> ir_tenant_id r \<noteq> '''' \<and> ir_idempotency_key r \<noteq> '''' \<and> ir_run_id r \<noteq> ''''))"

lemma store_okD:
  "store_ok T s \<Longrightarrow> idem_get s key = Some r \<Longrightarrow>
   T \<le> ir_expires_at r \<and> ir_tenant_id r \<noteq> '''' \<and> ir_idempotency_key r \<noteq> '''' \<and> ir_run_id r \<noteq> ''''"
  unfolding store_ok_def by blast

lemma store_live: "store_ok T s \<Longrightarrow> now \<le> T \<Longrightarrow> live now s key = idem_get s key"
  by (cases "idem_get s key") (auto simp: live_def dest: store_okD)

lemma idem_get_parts: "idem_get s (t, k) = Some r \<Longrightarrow> ir_tenant_id r = t \<and> ir_idempotency_key r = k"
  using idem_get_key [of s "(t, k)" r] by (simp add: idem_key_def)

lemma facade_reserve_free:
  assumes "store_ok T s" "now \<le> T" "T \<le> now + STORE_TTL" "posture_from_env env = Inr p" "t \<noteq> ''''" "k \<noteq> ''''" "idem_get s (t, k) = None"
    "facade_reserve sv env now t k body s = (res, s')"
  shows "res = Inr Reply_created" "store_ok T s'"
    "idem_get s' key = (if key = (t, k) then Some (fresh_record now t k (canonical_body_hash sv body) (''reserved::'' @ k) STORE_TTL '''' '''' '''') else idem_get s key)"
proof -
  let ?r = "fresh_record now t k (canonical_body_hash sv body) (''reserved::'' @ k) STORE_TTL '''' '''' ''''"
  have inv: "idem_inv s" using assms(1) by (simp add: store_ok_def)
  have lv: "live now s (t, k) = None" using store_live [OF assms(1,2)] assms(7) by simp
  have pi: "idem_post_init env ?r = None" by (rule post_init_ok [OF assms(4)]) (simp_all add: assms(5,6))
  note new = reserve_absent(1) [where c = None, unfolded ctx_field_None, OF inv lv pi]
  obtain x s1 where r: "reserve_or_replay env now t k (canonical_body_hash sv body) (''reserved::'' @ k) STORE_TTL '''' '''' '''' None s = (x, s1)" by fastforce
  have x: "x = Inr (Created, ?r)" using new r by simp
  have s1: "s1 = snd (reserve_scoped env now t k (canonical_body_hash sv body) (''reserved::'' @ k) STORE_TTL '''' '''' '''' s)"
    using r by (simp add: reserve_or_replay_def)
  have g: "idem_get s1 key = (if key = (t, k) then Some ?r else idem_get s key)" for key
    unfolding s1 reserve_get [OF inv] by (simp add: lv)
  have inv1: "idem_inv s1" unfolding s1 by (rule reserve_inv [OF inv])
  have s': "res = Inr Reply_created" "s' = s1" using assms(5,6,8) r x by (auto simp: facade_reserve_def)
  show "res = Inr Reply_created" by (fact s')
  show "idem_get s' key = (if key = (t, k) then Some ?r else idem_get s key)" unfolding s' by (rule g)
  show "store_ok T s'" using assms(1,3,5,6) inv1 by (auto simp: s' store_ok_def g)
qed

lemma facade_reserve_taken:
  assumes "store_ok T s" "now \<le> T" "posture_from_env env = Inr p" "t \<noteq> ''''" "k \<noteq> ''''" "idem_get s (t, k) = Some r"
    "facade_reserve sv env now t k body s = (res, s')"
  shows "res = (if ir_request_hash r = canonical_body_hash sv body
      then (case decode_snapshot sv (ir_response_snapshot r) of Inl e \<Rightarrow> Inl e | Inr (b, code) \<Rightarrow> Inr (Reply_replayed b code))
      else Inr Reply_conflict)" "\<forall>key. idem_get s' key = idem_get s key" "idem_inv s'"
proof -
  have inv: "idem_inv s" using assms(1) by (simp add: store_ok_def)
  have lv: "live now s (t, k) = Some r" using store_live [OF assms(1,2)] assms(6) by simp
  have pi: "idem_post_init env r = None" by (rule post_init_ok [OF assms(3)]) (use assms(1,6) in \<open>auto simp: store_ok_def\<close>)
  obtain x s1 where rr: "reserve_or_replay env now t k (canonical_body_hash sv body) (''reserved::'' @ k) STORE_TTL '''' '''' '''' None s = (x, s1)" by fastforce
  have x: "x = Inr (if ir_request_hash r = canonical_body_hash sv body then Replayed else Conflicted, r)"
    using reserve_live [where c = None, unfolded ctx_field_None, OF inv lv pi] rr by (metis fst_conv)
  have s1: "s1 = snd (reserve_scoped env now t k (canonical_body_hash sv body) (''reserved::'' @ k) STORE_TTL '''' '''' '''' s)"
    using rr by (simp add: reserve_or_replay_def)
  have g: "idem_get s1 key = idem_get s key" for key
    unfolding s1 reserve_get [OF inv] using assms(6) by (simp add: lv)
  have s': "s' = s1" using assms(4,5,7) rr x by (auto simp: facade_reserve_def split: if_splits sum.splits)
  show "\<forall>key. idem_get s' key = idem_get s key" using g s' by simp
  show "idem_inv s'" unfolding s' s1 by (rule reserve_inv [OF inv])
  show "res = (if ir_request_hash r = canonical_body_hash sv body
      then (case decode_snapshot sv (ir_response_snapshot r) of Inl e \<Rightarrow> Inl e | Inr (b, code) \<Rightarrow> Inr (Reply_replayed b code))
      else Inr Reply_conflict)"
    using assms(4,5,7) rr x by (auto simp: facade_reserve_def split: if_splits sum.splits)
qed

section \<open>The two steps of a request\<close>

definition guarded_key :: "http_request \<Rightarrow> bool" where
  "guarded_key r = (guarded_route (ascii_upper (ht_method r)) (ht_path r) \<and> tenant_of r \<noteq> '''' \<and> key_of r \<noteq> '''' \<and>
     length (key_of r) \<le> IDEMPOTENCY_KEY_MAX_LEN)"

definition readable :: "gateway_services \<Rightarrow> http_request \<Rightarrow> bool" where
  "readable sv r = (safe_decode_body sv (ht_body r) \<noteq> None)"

definition well_guarded :: "gateway_services \<Rightarrow> http_request \<Rightarrow> bool" where
  "well_guarded sv r = (guarded_key r \<and> readable sv r)"

abbreviation slot :: "http_request \<Rightarrow> string \<times> string" where
  "slot r \<equiv> (tenant_of r, key_of r)"

abbreviation request_hash :: "gateway_services \<Rightarrow> http_request \<Rightarrow> string" where
  "request_hash sv r \<equiv> canonical_body_hash sv (case safe_decode_body sv (ht_body r) of None \<Rightarrow> [] | Some d \<Rightarrow> d)"

definition in_window :: "real \<Rightarrow> real \<Rightarrow> bool" where
  "in_window T now = (now \<le> T \<and> T \<le> now + STORE_TTL)"

lemma store_ok_cong: "store_ok T s \<Longrightarrow> idem_inv s' \<Longrightarrow> \<forall>key. idem_get s' key = idem_get s key \<Longrightarrow> store_ok T s'"
  by (simp add: store_ok_def)

text \<open>The body of a readable request, as it is hashed.\<close>

abbreviation body_dict :: "gateway_services \<Rightarrow> http_request \<Rightarrow> json_dict" where
  "body_dict sv r \<equiv> (case safe_decode_body sv (ht_body r) of None \<Rightarrow> [] | Some d \<Rightarrow> d)"

lemma begin_unreadable:
  "guarded_key r \<Longrightarrow> \<not> readable sv r \<Longrightarrow> begin_request sv env strict now r s = (Begin_raises Body_not_readable, s)"
  by (simp add: begin_request_def guarded_key_def readable_def Let_def)

lemma begin_unguarded:
  assumes "\<not> well_guarded sv r" "begin_request sv env strict now r s = (b, s')"
  shows "s' = s \<and> (\<forall>t k. b \<noteq> Reserved t k)"
proof (cases "guarded_key r")
  case True
  then show ?thesis using begin_unreadable [OF True] assms by (auto simp: well_guarded_def)
next
  case False
  then show ?thesis using assms(2) by (auto simp: begin_request_def guarded_key_def Let_def split: if_splits)
qed

lemma well_guarded_slot: "well_guarded sv r \<Longrightarrow> tenant_of r \<noteq> '''' \<and> key_of r \<noteq> ''''"
  by (simp add: well_guarded_def guarded_key_def)

lemma begin_guarded:
  "well_guarded sv r \<Longrightarrow> begin_request sv env strict now r s =
     (case facade_reserve sv env now (tenant_of r) (key_of r) (body_dict sv r) s of
        (Inl e, s1) \<Rightarrow> (Begin_raises e, s1)
      | (Inr (Reply_replayed body code), s1) \<Rightarrow> (Answer (Json_response code body), s1)
      | (Inr Reply_conflict, s1) \<Rightarrow>
          (Answer (Json_response 409 [(''error'', JStr ''ConflictError''),
             (''message'', JStr (''Idempotency-Key='' @ key_of r @ '' already used with a different body'')),
             (''tenant_id'', JStr (tenant_of r)), (''detail'', JStr ''idempotency key reuse with body mismatch'')]), s1)
      | (Inr Reply_created, s1) \<Rightarrow> (Reserved (tenant_of r) (key_of r), s1))"
  by (auto simp: begin_request_def well_guarded_def guarded_key_def readable_def Let_def)

lemma begin_free:
  assumes "store_ok T s" "in_window T now" "posture_from_env env = Inr p" "well_guarded sv r" "idem_get s (slot r) = None"
    "begin_request sv env strict now r s = (b, s')"
  shows "b = Reserved (tenant_of r) (key_of r)" "store_ok T s'"
    "idem_get s' key = (if key = slot r then Some (fresh_record now (tenant_of r) (key_of r) (request_hash sv r) (''reserved::'' @ key_of r) STORE_TTL '''' '''' '''') else idem_get s key)"
proof -
  obtain x s1 where f: "facade_reserve sv env now (tenant_of r) (key_of r) (body_dict sv r) s = (x, s1)" by fastforce
  have w: "now \<le> T" "T \<le> now + STORE_TTL" "tenant_of r \<noteq> ''''" "key_of r \<noteq> ''''" using assms(2) well_guarded_slot [OF assms(4)] by (auto simp: in_window_def)
  note fr = facade_reserve_free [OF assms(1) w(1,2) assms(3) w(3,4) assms(5) f]
  have "b = Reserved (tenant_of r) (key_of r) \<and> s' = s1" using assms(6) f fr(1) by (simp add: begin_guarded [OF assms(4)])
  then show "b = Reserved (tenant_of r) (key_of r)" "store_ok T s'"
    "idem_get s' key = (if key = slot r then Some (fresh_record now (tenant_of r) (key_of r) (request_hash sv r) (''reserved::'' @ key_of r) STORE_TTL '''' '''' '''') else idem_get s key)"
    using fr(2,3) by simp_all
qed

lemma begin_taken:
  assumes "store_ok T s" "in_window T now" "posture_from_env env = Inr p" "well_guarded sv r" "idem_get s (slot r) = Some q"
    "begin_request sv env strict now r s = (b, s')"
  shows "store_ok T s'" "\<forall>key. idem_get s' key = idem_get s key" "\<forall>t k. b \<noteq> Reserved t k"
    "ir_request_hash q = request_hash sv r \<Longrightarrow> decode_snapshot sv (ir_response_snapshot q) = Inr (body, code) \<Longrightarrow> b = Answer (Json_response code body)"
    "ir_request_hash q \<noteq> request_hash sv r \<Longrightarrow> \<exists>d. b = Answer (Json_response 409 d)"
proof -
  obtain x s1 where f: "facade_reserve sv env now (tenant_of r) (key_of r) (body_dict sv r) s = (x, s1)" by fastforce
  have w: "now \<le> T" "tenant_of r \<noteq> ''''" "key_of r \<noteq> ''''" using assms(2) well_guarded_slot [OF assms(4)] by (auto simp: in_window_def)
  note tk = facade_reserve_taken [OF assms(1) w(1) assms(3) w(2,3) assms(5) f]
  have s': "s' = s1" using assms(6) f by (auto simp: begin_guarded [OF assms(4)] split: sum.splits facade_reply.splits)
  show "store_ok T s'" using store_ok_cong [OF assms(1) tk(3,2)] by (simp add: s')
  show "\<forall>key. idem_get s' key = idem_get s key" using tk(2) by (simp add: s')
  have nc: "x \<noteq> Inr Reply_created" using tk(1) by (auto split: if_splits sum.splits)
  show "\<forall>t k. b \<noteq> Reserved t k"
    using assms(6) f nc by (auto simp: begin_guarded [OF assms(4)] split: sum.splits facade_reply.splits)
  show "b = Answer (Json_response code body)" if "ir_request_hash q = request_hash sv r" "decode_snapshot sv (ir_response_snapshot q) = Inr (body, code)"
    using assms(6) f tk(1) that by (simp add: begin_guarded [OF assms(4)])
  show "\<exists>d. b = Answer (Json_response 409 d)" if "ir_request_hash q \<noteq> request_hash sv r"
    using assms(6) f tk(1) that by (auto simp: begin_guarded [OF assms(4)])
qed

definition storable :: "gateway_services \<Rightarrow> handler_end \<Rightarrow> (int \<times> json_dict) option" where
  "storable sv h = (case h of Handler_returned st pl \<Rightarrow>
       if 200 \<le> st \<and> st < 300 then (case response_object sv pl of Some (JObj d) \<Rightarrow> Some (st, d) | _ \<Rightarrow> None) else None
     | _ \<Rightarrow> None)"

text \<open>The row of a running request after its handler has ended.\<close>

definition ended_row :: "gateway_services \<Rightarrow> real \<Rightarrow> handler_end \<Rightarrow> idem_record \<Rightarrow> idem_record option" where
  "ended_row sv now h q =
     (if failed_end h then None
      else case storable sv h of
          None \<Rightarrow> Some q
        | Some (st, d) \<Rightarrow> Some (q\<lparr>ir_status := ''succeeded'',
            ir_response_snapshot := normalize_response_for_replay (gw_loads sv) (gw_dumps_unicode sv) (gw_dumps sv (snapshot_envelope st d)),
            ir_updated_at := now, ir_status_code := 200\<rparr>))"

lemma finish_get:
  assumes "idem_inv s" "t \<noteq> ''''" "k \<noteq> ''''" "idem_get s (t, k) = Some q" "ir_status q = ''pending''"
  shows "idem_get (snd (finish_request sv now t k h s)) key = (if key = (t, k) then ended_row sv now h q else idem_get s key)"
    "idem_inv (snd (finish_request sv now t k h s))"
proof -
  have "terminal_status ''succeeded'' = ''succeeded''" "default_status_code_for ''succeeded'' = 200"
    by (simp_all add: terminal_status_def default_status_code_for_def)
  then show "idem_get (snd (finish_request sv now t k h s)) key = (if key = (t, k) then ended_row sv now h q else idem_get s key)"
    using assms
    by (auto simp: finish_request_def facade_release_def facade_mark_complete_def release_get mark_complete_get ended_row_def failed_end_def storable_def
        split: handler_end.split json.split option.split)
  show "idem_inv (snd (finish_request sv now t k h s))"
    using assms(1) by (auto simp: finish_request_def facade_release_def facade_mark_complete_def release_inv mark_complete_inv
        split: handler_end.split option.split json.split)
qed

lemma ended_row_fields:
  "ended_row sv now h q = Some q' \<Longrightarrow> ir_expires_at q' = ir_expires_at q \<and> ir_tenant_id q' = ir_tenant_id q \<and>
   ir_idempotency_key q' = ir_idempotency_key q \<and> ir_run_id q' = ir_run_id q \<and> ir_request_hash q' = ir_request_hash q"
  by (auto simp: ended_row_def split: if_splits option.splits)

lemma ended_row_none: "ended_row sv now h q = None \<longleftrightarrow> failed_end h"
  by (auto simp: ended_row_def split: option.split)

section \<open>Interleavings\<close>

definition gateway_ok :: "real \<Rightarrow> gateway \<Rightarrow> bool" where
  "gateway_ok T g = (store_ok T (gx_store g) \<and> distinct (map fst (gx_running g)) \<and> distinct (map snd (gx_running g)) \<and>
     (\<forall>key. (idem_get (gx_store g) key = None) = key_free key (gx_journal g)) \<and>
     (\<forall>(n, t, k) \<in> set (gx_running g). t \<noteq> '''' \<and> k \<noteq> '''' \<and> last_entry (t, k) (gx_journal g) = Some None \<and>
        (\<exists>q. idem_get (gx_store g) (t, k) = Some q \<and> ir_status q = ''pending'')))"

fun event_in_window :: "real \<Rightarrow> gateway_event \<Rightarrow> bool" where
  "event_in_window T (Arrive n now r) = in_window T now"
| "event_in_window T (Handler_ends n now h) = True"
| "event_in_window T (Purge_run now) = (now \<le> T)"

lemma gateway_init_ok: "gateway_ok T gateway_init"
proof -
  have "idem_get idem_init key = None" for key by (simp add: idem_get_def idem_init_def sql_lookup_def)
  then show ?thesis by (simp add: gateway_ok_def gateway_init_def store_ok_def)
qed

lemma gateway_running:
  assumes "gateway_ok T g" "(n, t, k) \<in> set (gx_running g)"
  shows "t \<noteq> ''''" "k \<noteq> ''''" "last_entry (t, k) (gx_journal g) = Some None" "\<exists>q. idem_get (gx_store g) (t, k) = Some q \<and> ir_status q = ''pending''"
  using assms unfolding gateway_ok_def by blast+

lemma gateway_ok_free: "gateway_ok T g \<Longrightarrow> (idem_get (gx_store g) key = None) = key_free key (gx_journal g)"
  unfolding gateway_ok_def by blast

lemma gateway_ok_unique:
  assumes "gateway_ok T g" "(m, key) \<in> set (gx_running g)" "(n, key) \<in> set (gx_running g)"
  shows "m = n"
proof -
  have "inj_on snd (set (gx_running g))" using assms(1) by (simp add: gateway_ok_def distinct_map)
  from inj_onD [OF this _ assms(2,3)] show ?thesis by simp
qed

lemma gateway_ok_store:
  assumes "gateway_ok T g" "store_ok T s'" "\<forall>key. idem_get s' key = idem_get (gx_store g) key"
  shows "gateway_ok T (g\<lparr>gx_store := s'\<rparr>)"
  using assms by (auto simp: gateway_ok_def)

lemma arrive_ok:
  assumes "gateway_ok T g" "in_window T now" "posture_from_env env = Inr p"
  shows "gateway_ok T (gateway_step sv env strict (Arrive n now r) g)"
proof (cases "n \<in> fst ` set (gx_running g)")
  case False
  obtain b s' where b: "begin_request sv env strict now r (gx_store g) = (b, s')" by fastforce
  have st: "store_ok T (gx_store g)" using assms(1) by (simp add: gateway_ok_def)
  show ?thesis
  proof (cases "well_guarded sv r \<and> idem_get (gx_store g) (slot r) = None")
    case True
    note fr = begin_free [OF st assms(2,3) conjunct1 [OF True] conjunct2 [OF True] b]
    have free: "key_free (slot r) (gx_journal g)" using assms(1) True by (simp add: gateway_ok_def)
    have new: "slot r \<notin> snd ` set (gx_running g)" using gateway_running(4) [OF assms(1)] True by fastforce
    have w: "tenant_of r \<noteq> ''''" "key_of r \<noteq> ''''" using well_guarded_slot [OF conjunct1 [OF True]] by simp_all
    have "gateway_step sv env strict (Arrive n now r) g = g\<lparr>gx_store := s', gx_running := (n, slot r) # gx_running g,
        gx_journal := gx_journal g @ [(slot r, None)]\<rparr>" using False b fr(1) by simp
    then show ?thesis using assms(1) fr(2,3) False new w
      by (auto simp: gateway_ok_def last_entry_snoc key_free_def split: if_splits)
  next
    case False2: False
    have "store_ok T s' \<and> (\<forall>key. idem_get s' key = idem_get (gx_store g) key) \<and> (\<forall>t k. b \<noteq> Reserved t k)"
    proof (cases "well_guarded sv r")
      case True
      then obtain q where "idem_get (gx_store g) (slot r) = Some q" using False2 by auto
      from begin_taken(1-3) [OF st assms(2,3) True this b] show ?thesis by blast
    next
      case False
      then show ?thesis using begin_unguarded [OF False b] st by simp
    qed
    then have "gateway_step sv env strict (Arrive n now r) g = g\<lparr>gx_store := s'\<rparr> \<and> gateway_ok T (g\<lparr>gx_store := s'\<rparr>)"
      using False b gateway_ok_store [OF assms(1)] by (auto split: begun.split)
    then show ?thesis by simp
  qed
qed (use assms(1) in simp)

lemma ends_ok:
  assumes "gateway_ok T g"
  shows "gateway_ok T (gateway_step sv env strict (Handler_ends n now h) g)"
proof (cases "map_of (gx_running g) n")
  case (Some tk)
  obtain t k where tk: "tk = (t, k)" by fastforce
  have run: "(n, t, k) \<in> set (gx_running g)" using Some tk by (auto dest: map_of_SomeD)
  then obtain q where q: "t \<noteq> ''''" "k \<noteq> ''''" "idem_get (gx_store g) (t, k) = Some q" "ir_status q = ''pending''"
    using gateway_running [OF assms run] by blast
  have st: "store_ok T (gx_store g)" "idem_inv (gx_store g)" using assms by (simp_all add: gateway_ok_def store_ok_def)
  let ?s = "snd (finish_request sv now t k h (gx_store g))"
  note fg = finish_get [OF st(2) q, of sv now h]
  have "store_ok T ?s"
    unfolding store_ok_def
  proof (intro conjI allI impI)
    show "idem_inv ?s" by (fact fg(2))
    fix key r
    assume "idem_get ?s key = Some r"
    then have "T \<le> ir_expires_at r \<and> ir_tenant_id r \<noteq> '''' \<and> ir_idempotency_key r \<noteq> '''' \<and> ir_run_id r \<noteq> ''''"
      unfolding fg(1) using store_okD [OF st(1)] store_okD [OF st(1) q(3)] ended_row_fields [of sv now h q r] by (auto split: if_splits)
    then show "T \<le> ir_expires_at r" "ir_tenant_id r \<noteq> ''''" "ir_idempotency_key r \<noteq> ''''" "ir_run_id r \<noteq> ''''" by blast+
  qed
  moreover have "(idem_get ?s key = None) = key_free key (gx_journal g @ [((t, k), Some h)])" for key
    unfolding fg(1) using gateway_ok_free [OF assms, of key] by (auto simp: key_free_def last_entry_snoc ended_row_none)
  moreover have "last_entry key (gx_journal g @ [((t, k), Some h)]) = Some None \<and> (\<exists>q. idem_get ?s key = Some q \<and> ir_status q = ''pending'')"
    if "(m, key) \<in> set (gx_running g)" "m \<noteq> n" for m key
  proof -
    have ne: "key \<noteq> (t, k)" using gateway_ok_unique [OF assms, of m key n] that run by blast
    then show ?thesis unfolding fg(1) last_entry_snoc
      using gateway_running(3,4) [OF assms, of m "fst key" "snd key"] that(1) by simp
  qed
  moreover have "gateway_step sv env strict (Handler_ends n now h) g = g\<lparr>gx_store := ?s,
      gx_running := filter (\<lambda>e. fst e \<noteq> n) (gx_running g), gx_journal := gx_journal g @ [((t, k), Some h)]\<rparr>"
    by (simp add: Some tk)
  moreover have "distinct (map fst (filter (\<lambda>e. fst e \<noteq> n) (gx_running g)))" "distinct (map snd (filter (\<lambda>e. fst e \<noteq> n) (gx_running g)))"
    using assms by (auto simp: gateway_ok_def intro!: distinct_map_filter)
  ultimately show ?thesis unfolding gateway_ok_def by (auto dest: gateway_running(1,2) [OF assms])
qed (use assms in simp)

lemma purge_ok:
  assumes "gateway_ok T g" "now \<le> T"
  shows "gateway_ok T (gateway_step sv env strict (Purge_run now) g)"
proof -
  have st: "store_ok T (gx_store g)" "idem_inv (gx_store g)" using assms(1) by (simp_all add: gateway_ok_def store_ok_def)
  have "\<forall>key. idem_get (snd (purge_expired now (gx_store g))) key = idem_get (gx_store g) key"
    by (simp add: purge_get [OF st(2)] store_live [OF st(1) assms(2)])
  then show ?thesis using gateway_ok_store [OF assms(1)] store_ok_cong [OF st(1) purge_inv [OF st(2)]] by simp
qed

lemma gateway_step_ok:
  "gateway_ok T g \<Longrightarrow> event_in_window T e \<Longrightarrow> posture_from_env env = Inr p \<Longrightarrow> gateway_ok T (gateway_step sv env strict e g)"
  by (cases e) (simp_all only: event_in_window.simps arrive_ok ends_ok purge_ok)

lemma gateway_run_ok:
  "list_all (event_in_window T) evs \<Longrightarrow> posture_from_env env = Inr p \<Longrightarrow> gateway_ok T g \<Longrightarrow> gateway_ok T (fold (gateway_step sv env strict) evs g)"
proof (induction evs arbitrary: g)
  case (Cons e evs)
  then show ?case using gateway_step_ok [of T g e env p sv strict] by simp
qed simp

text \<open>A row whose request is not running stays as it is until the window ends.\<close>

definition parked :: "string \<times> string \<Rightarrow> idem_record \<Rightarrow> gateway \<Rightarrow> bool" where
  "parked key q g = (idem_get (gx_store g) key = Some q \<and> key \<notin> snd ` set (gx_running g))"

lemma arrive_keeps:
  assumes "gateway_ok T g" "in_window T now" "posture_from_env env = Inr p" "idem_get (gx_store g) key = Some q"
    "g' = gateway_step sv env strict (Arrive n now r) g"
  shows "idem_get (gx_store g') key = Some q" "set (gx_running g) \<subseteq> set (gx_running g')"
    "key \<in> snd ` set (gx_running g') \<Longrightarrow> key \<in> snd ` set (gx_running g)"
proof -
  have "idem_get (gx_store g') key = Some q \<and> set (gx_running g) \<subseteq> set (gx_running g') \<and>
      (key \<in> snd ` set (gx_running g') \<longrightarrow> key \<in> snd ` set (gx_running g))"
  proof (cases "n \<in> fst ` set (gx_running g)")
    case False
    obtain b s' where b: "begin_request sv env strict now r (gx_store g) = (b, s')" by fastforce
    have st: "store_ok T (gx_store g)" using assms(1) by (simp add: gateway_ok_def)
    consider "\<not> well_guarded sv r" | "well_guarded sv r" "idem_get (gx_store g) (slot r) = None" |
      q' where "well_guarded sv r" "idem_get (gx_store g) (slot r) = Some q'" by fastforce
    then have "idem_get s' key = Some q \<and> (\<forall>t k. b = Reserved t k \<longrightarrow> key \<noteq> (t, k))"
    proof cases
      case 1
      then show ?thesis using begin_unguarded [OF 1 b] assms(4) by simp
    next
      case 2
      then have "key \<noteq> slot r" using assms(4) by auto
      then show ?thesis using begin_free(1,3) [OF st assms(2,3) 2 b] assms(4) by simp
    next
      case 3
      then show ?thesis using begin_taken(2,3) [OF st assms(2,3) 3 b] assms(4) by metis
    qed
    then show ?thesis using False b by (auto simp: assms(5) split: begun.split)
  qed (use assms(4,5) in simp)
  then show "idem_get (gx_store g') key = Some q" "set (gx_running g) \<subseteq> set (gx_running g')"
    "key \<in> snd ` set (gx_running g') \<Longrightarrow> key \<in> snd ` set (gx_running g)" by blast+
qed

lemma ends_keeps:
  assumes "gateway_ok T g" "idem_get (gx_store g) key = Some q" "(n, key) \<notin> set (gx_running g)"
    "g' = gateway_step sv env strict (Handler_ends n now h) g"
  shows "idem_get (gx_store g') key = Some q" "set (gx_running g') = {e \<in> set (gx_running g). fst e \<noteq> n}"
proof -
  have "idem_get (gx_store g') key = Some q \<and> set (gx_running g') = {e \<in> set (gx_running g). fst e \<noteq> n}"
  proof (cases "map_of (gx_running g) n")
    case None
    then have "n \<notin> fst ` set (gx_running g)" by (simp add: map_of_eq_None_iff)
    then show ?thesis using assms(2,4) None by (auto simp: image_iff)
  next
    case (Some tk)
    obtain t k where tk: "tk = (t, k)" by fastforce
    have run: "(n, t, k) \<in> set (gx_running g)" using Some tk by (auto dest: map_of_SomeD)
    obtain q' where q': "t \<noteq> ''''" "k \<noteq> ''''" "idem_get (gx_store g) (t, k) = Some q'" "ir_status q' = ''pending''"
      using gateway_running [OF assms(1) run] by blast
    have st: "idem_inv (gx_store g)" using assms(1) by (simp add: gateway_ok_def store_ok_def)
    have "key \<noteq> (t, k)" using assms(3) run by auto
    then show ?thesis using assms(2,4) finish_get(1) [OF st q', of sv now h key] by (auto simp: Some tk)
  qed
  then show "idem_get (gx_store g') key = Some q" "set (gx_running g') = {e \<in> set (gx_running g). fst e \<noteq> n}" by blast+
qed

lemma purge_keeps:
  assumes "gateway_ok T g" "now \<le> T" "g' = gateway_step sv env strict (Purge_run now) g"
  shows "idem_get (gx_store g') key = idem_get (gx_store g) key" "gx_running g' = gx_running g"
proof -
  have st: "store_ok T (gx_store g)" "idem_inv (gx_store g)" using assms(1) by (simp_all add: gateway_ok_def store_ok_def)
  show "idem_get (gx_store g') key = idem_get (gx_store g) key" "gx_running g' = gx_running g"
    by (simp_all add: assms(3) purge_get [OF st(2)] store_live [OF st(1) assms(2)])
qed

lemma step_parked:
  assumes "gateway_ok T g" "event_in_window T e" "posture_from_env env = Inr p" "parked key q g"
  shows "parked key q (gateway_step sv env strict e g)"
proof -
  define g' where "g' = gateway_step sv env strict e g"
  note pk = assms(4) [unfolded parked_def, THEN conjunct1] assms(4) [unfolded parked_def, THEN conjunct2]
  have "parked key q g'"
  proof (cases e)
    case (Arrive n now r)
    then have w: "in_window T now" using assms(2) by simp
    from arrive_keeps [OF assms(1) w assms(3) pk(1) g'_def [unfolded Arrive]] show ?thesis using pk unfolding parked_def by blast
  next
    case (Handler_ends n now h)
    have "(n, key) \<notin> set (gx_running g)" using pk(2) by force
    from ends_keeps [OF assms(1) pk(1) this g'_def [unfolded Handler_ends]] show ?thesis using pk unfolding parked_def by auto
  next
    case (Purge_run now)
    then have w: "now \<le> T" using assms(2) by simp
    from purge_keeps [OF assms(1) w g'_def [unfolded Purge_run]] show ?thesis using pk unfolding parked_def by simp
  qed
  then show ?thesis by (simp only: g'_def)
qed

text \<open>A running request keeps its row until its own handler ends.\<close>

definition held :: "nat \<Rightarrow> string \<times> string \<Rightarrow> idem_record \<Rightarrow> gateway \<Rightarrow> bool" where
  "held n key q g = ((n, key) \<in> set (gx_running g) \<and> idem_get (gx_store g) key = Some q)"

fun ends_handler :: "nat \<Rightarrow> gateway_event \<Rightarrow> bool" where
  "ends_handler n (Handler_ends m now h) = (m = n)"
| "ends_handler n e = False"

lemma step_held:
  assumes "gateway_ok T g" "event_in_window T e" "posture_from_env env = Inr p" "held n key q g" "\<not> ends_handler n e"
  shows "held n key q (gateway_step sv env strict e g)"
proof -
  define g' where "g' = gateway_step sv env strict e g"
  note hd = assms(4) [unfolded held_def, THEN conjunct1] assms(4) [unfolded held_def, THEN conjunct2]
  have "held n key q g'"
  proof (cases e)
    case (Arrive m now r)
    then have w: "in_window T now" using assms(2) by simp
    from arrive_keeps [OF assms(1) w assms(3) hd(2) g'_def [unfolded Arrive]] show ?thesis using hd unfolding held_def by blast
  next
    case (Handler_ends m now h)
    then have m: "m \<noteq> n" using assms(5) by simp
    then have "(m, key) \<notin> set (gx_running g)" using hd(1) gateway_ok_unique [OF assms(1), of m key n] by blast
    from ends_keeps [OF assms(1) hd(2) this g'_def [unfolded Handler_ends]] show ?thesis using hd m unfolding held_def by auto
  next
    case (Purge_run now)
    then have w: "now \<le> T" using assms(2) by simp
    from purge_keeps [OF assms(1) w g'_def [unfolded Purge_run]] show ?thesis using hd unfolding held_def by simp
  qed
  then show ?thesis by (simp only: g'_def)
qed

lemma run_held:
  "list_all (event_in_window T) evs \<Longrightarrow> posture_from_env env = Inr p \<Longrightarrow> gateway_ok T g \<Longrightarrow> held n key q g \<Longrightarrow>
   \<not> list_ex (ends_handler n) evs \<Longrightarrow> held n key q (fold (gateway_step sv env strict) evs g)"
proof (induction evs arbitrary: g)
  case (Cons e evs)
  then show ?case using gateway_step_ok [of T g e env p sv strict] step_held [of T g e env p n key q sv strict] by simp
qed simp

lemma run_parked:
  "list_all (event_in_window T) evs \<Longrightarrow> posture_from_env env = Inr p \<Longrightarrow> gateway_ok T g \<Longrightarrow> parked key q g \<Longrightarrow>
   parked key q (fold (gateway_step sv env strict) evs g)"
proof (induction evs arbitrary: g)
  case (Cons e evs)
  then show ?case using gateway_step_ok [of T g e env p sv strict] step_parked [of T g e env p key q sv strict] by simp
qed simp

lemma ends_parks:
  assumes "gateway_ok T g" "(n, t, k) \<in> set (gx_running g)" "idem_get (gx_store g) (t, k) = Some q" "\<not> failed_end h"
  shows "\<exists>q'. ended_row sv now h q = Some q' \<and> parked (t, k) q' (gateway_step sv env strict (Handler_ends n now h) g)"
proof -
  have d: "distinct (map fst (gx_running g))" using assms(1) by (simp add: gateway_ok_def)
  have m: "map_of (gx_running g) n = Some (t, k)" using map_of_is_SomeI [OF d assms(2)] .
  have q: "t \<noteq> ''''" "k \<noteq> ''''" "ir_status q = ''pending''" using gateway_running [OF assms(1,2)] assms(3) by auto
  have st: "idem_inv (gx_store g)" using assms(1) by (simp add: gateway_ok_def store_ok_def)
  obtain q' where q': "ended_row sv now h q = Some q'" using assms(4) ended_row_none [of sv now h q] by auto
  have "m = n" if "(m, t, k) \<in> set (gx_running g)" for m by (rule gateway_ok_unique [OF assms(1) that assms(2)])
  then show ?thesis using q' finish_get(1) [OF st q(1,2) assms(3) q(3), of sv now h "(t, k)"] by (auto simp: m parked_def)
qed

section \<open>What a retry gets\<close>

abbreviation gateway_run :: "gateway_services \<Rightarrow> string option \<Rightarrow> bool \<Rightarrow> gateway_event list \<Rightarrow> gateway" where
  "gateway_run sv env strict evs \<equiv> fold (gateway_step sv env strict) evs gateway_init"

lemma arrive_holds:
  assumes "gateway_ok T g" "in_window T now" "posture_from_env env = Inr p" "well_guarded sv r"
    "key_free (slot r) (gx_journal g)" "n \<notin> fst ` set (gx_running g)"
  shows "held n (slot r) (fresh_record now (tenant_of r) (key_of r) (request_hash sv r) (''reserved::'' @ key_of r) STORE_TTL '''' '''' '''')
    (gateway_step sv env strict (Arrive n now r) g)"
proof -
  obtain b s' where b: "begin_request sv env strict now r (gx_store g) = (b, s')" by fastforce
  have st: "store_ok T (gx_store g)" using assms(1) by (simp add: gateway_ok_def)
  have none: "idem_get (gx_store g) (slot r) = None" using gateway_ok_free [OF assms(1)] assms(5) by simp
  show ?thesis using begin_free(1,3) [OF st assms(2-4) none b] assms(6) b by (simp add: held_def)
qed

lemma retry_after_end:
  assumes "posture_from_env env = Inr p" "list_all (event_in_window T) (evs @ Arrive n now r # evs1 @ Handler_ends n now1 h # evs2)"
    "well_guarded sv r" "key_free (slot r) (gx_journal (gateway_run sv env strict evs))"
    "n \<notin> fst ` set (gx_running (gateway_run sv env strict evs))" "\<not> list_ex (ends_handler n) evs1" "\<not> failed_end h"
    "g = gateway_run sv env strict (evs @ Arrive n now r # evs1 @ Handler_ends n now1 h # evs2)"
    "q = fresh_record now (tenant_of r) (key_of r) (request_hash sv r) (''reserved::'' @ key_of r) STORE_TTL '''' '''' ''''"
  shows "\<exists>q'. ended_row sv now1 h q = Some q' \<and> idem_get (gx_store g) (slot r) = Some q' \<and> store_ok T (gx_store g)"
proof -
  let ?st = "gateway_step sv env strict"
  let ?g0 = "gateway_run sv env strict evs" and ?g1 = "?st (Arrive n now r) (gateway_run sv env strict evs)"
  let ?g2 = "fold ?st evs1 ?g1"
  have w: "list_all (event_in_window T) evs" "in_window T now" "list_all (event_in_window T) evs1" "list_all (event_in_window T) evs2"
    using assms(2) by simp_all
  have ok0: "gateway_ok T ?g0" by (rule gateway_run_ok [OF w(1) assms(1) gateway_init_ok])
  have ok1: "gateway_ok T ?g1" by (rule arrive_ok [OF ok0 w(2) assms(1)])
  have ok2: "gateway_ok T ?g2" by (rule gateway_run_ok [OF w(3) assms(1) ok1])
  have h: "held n (slot r) q ?g2"
    by (rule run_held [OF w(3) assms(1) ok1 _ assms(6)]) (simp only: assms(9) arrive_holds [OF ok0 w(2) assms(1,3-5)])
  obtain q' where q': "ended_row sv now1 h q = Some q'" "parked (slot r) q' (?st (Handler_ends n now1 h) ?g2)"
    using ends_parks [OF ok2 _ _ assms(7)] h unfolding held_def by blast
  have ok3: "gateway_ok T (?st (Handler_ends n now1 h) ?g2)" by (rule ends_ok [OF ok2])
  have g: "g = fold ?st evs2 (?st (Handler_ends n now1 h) ?g2)" by (simp only: assms(8) fold_append fold.simps comp_apply)
  have "parked (slot r) q' g" unfolding g by (rule run_parked [OF w(4) assms(1) ok3 q'(2)])
  moreover have "gateway_ok T g" unfolding g by (rule gateway_run_ok [OF w(4) assms(1) ok3])
  ultimately show ?thesis using q'(1) by (simp add: parked_def gateway_ok_def)
qed

text \<open>The envelope as it is read back, and as the store leaves it.\<close>

lemma sorted_envelope:
  "sort_keys (snapshot_envelope st d) = JObj [(''body'', JObj (sort_dict (strip_identity d))), (''status_code'', JInt st)]"
proof -
  have "\<not> ''status_code'' \<le> ''body''" by code_simp
  then show ?thesis by (simp add: snapshot_envelope_def sort_keys_JObj sort_dict_def)
qed

lemma normalized_envelope:
  "gw_loads sv (gw_dumps sv (snapshot_envelope st d)) = Some (sort_keys (snapshot_envelope st d)) \<Longrightarrow>
   normalize_response_for_replay (gw_loads sv) du (gw_dumps sv (snapshot_envelope st d)) = gw_dumps sv (snapshot_envelope st d)"
  by (simp add: normalize_response_for_replay_def sorted_envelope IDENTITY_FIELDS_STRIPPED_ON_REPLAY_def)


text \<open>C9. A request whose handler answered 2xx with a JSON object is replayed: whatever else happened in between and since, while
  the reservation lives, a retry with the same body gets that status and that object, less its identity metadata and with its keys
  in order (\<open>sort_dict\<close>), and one with another body gets 409; neither calls the handler. The hypothesis on the codec is what
  \<open>json\<close> does with the stored envelope: written with \<open>sort_keys=True\<close> it reads back as itself with sorted keys.\<close>

theorem completed_request_is_replayed:
  assumes "posture_from_env env = Inr p" "list_all (event_in_window T) (evs @ Arrive n now r # evs1 @ Handler_ends n now1 h # evs2)"
    "well_guarded sv r" "key_free (slot r) (gx_journal (gateway_run sv env strict evs))"
    "n \<notin> fst ` set (gx_running (gateway_run sv env strict evs))" "\<not> list_ex (ends_handler n) evs1"
    "storable sv h = Some (st, d)"
    "gw_dumps sv (snapshot_envelope st d) \<noteq> ''''"
    "gw_loads sv (gw_dumps sv (snapshot_envelope st d)) = Some (sort_keys (snapshot_envelope st d))"
    "in_window T now2" "well_guarded sv r2" "slot r2 = slot r"
  shows "case fst (begin_request sv env strict now2 r2
      (gx_store (gateway_run sv env strict (evs @ Arrive n now r # evs1 @ Handler_ends n now1 h # evs2)))) of
      Answer (Json_response code body) \<Rightarrow>
        (if request_hash sv r2 = request_hash sv r then code = st \<and> body = sort_dict (strip_identity d) else code = 409)
    | _ \<Rightarrow> False"
proof -
  let ?q = "fresh_record now (tenant_of r) (key_of r) (request_hash sv r) (''reserved::'' @ key_of r) STORE_TTL '''' '''' ''''"
  let ?g = "gateway_run sv env strict (evs @ Arrive n now r # evs1 @ Handler_ends n now1 h # evs2)"
  have nf: "\<not> failed_end h" using assms(7) by (auto simp: storable_def failed_end_def split: handler_end.splits if_splits)
  obtain q' where q': "ended_row sv now1 h ?q = Some q'" "idem_get (gx_store ?g) (slot r) = Some q'" "store_ok T (gx_store ?g)"
    using retry_after_end [OF assms(1-6) nf refl refl] by blast
  obtain b s' where b: "begin_request sv env strict now2 r2 (gx_store ?g) = (b, s')" by fastforce
  have hash: "ir_request_hash q' = request_hash sv r" using ended_row_fields [OF q'(1)] by (simp add: fresh_record_def)
  have snap: "ir_response_snapshot q' = gw_dumps sv (snapshot_envelope st d)"
    using q'(1) assms(7,8) nf by (auto simp: ended_row_def normalized_envelope [OF assms(9)])
  have dec: "decode_snapshot sv (ir_response_snapshot q') = Inr (sort_dict (strip_identity d), st)"
    using assms(8,9) by (simp add: snap decode_snapshot_def sorted_envelope)
  note tk = begin_taken(4,5) [OF q'(3) assms(10,1,11) _ b, unfolded assms(12), OF q'(2)]
  show ?thesis using tk(1) [OF _ dec] tk(2) hash b by (cases "request_hash sv r2 = request_hash sv r") auto
qed

text \<open>A success whose body is no JSON object, is undecodable or raises, and a cancelled request, leave the key reserved: until the
  reservation expires every retry with the same body is told that the request is still in flight, although nothing runs.\<close>

lemma unstorable_response_blocks_key:
  assumes "posture_from_env env = Inr p" "list_all (event_in_window T) (evs @ Arrive n now r # evs1 @ Handler_ends n now1 h # evs2)"
    "well_guarded sv r" "key_free (slot r) (gx_journal (gateway_run sv env strict evs))"
    "n \<notin> fst ` set (gx_running (gateway_run sv env strict evs))" "\<not> list_ex (ends_handler n) evs1"
    "\<not> failed_end h" "storable sv h = None"
    "in_window T now2" "well_guarded sv r2" "slot r2 = slot r" "request_hash sv r2 = request_hash sv r"
  shows "fst (begin_request sv env strict now2 r2
      (gx_store (gateway_run sv env strict (evs @ Arrive n now r # evs1 @ Handler_ends n now1 h # evs2)))) =
    Answer (Json_response 409 [(''error'', JStr ''ConflictError''), (''message'', JStr ''request still in flight'')])"
proof -
  let ?q = "fresh_record now (tenant_of r) (key_of r) (request_hash sv r) (''reserved::'' @ key_of r) STORE_TTL '''' '''' ''''"
  let ?g = "gateway_run sv env strict (evs @ Arrive n now r # evs1 @ Handler_ends n now1 h # evs2)"
  obtain q' where q': "ended_row sv now1 h ?q = Some q'" "idem_get (gx_store ?g) (slot r) = Some q'" "store_ok T (gx_store ?g)"
    using retry_after_end [OF assms(1-7) refl refl] by blast
  obtain b s' where b: "begin_request sv env strict now2 r2 (gx_store ?g) = (b, s')" by fastforce
  have q: "q' = ?q" using q'(1) assms(7,8) by (simp add: ended_row_def)
  have dec: "decode_snapshot sv (ir_response_snapshot q') = Inr ([(''error'', JStr ''ConflictError''), (''message'', JStr ''request still in flight'')], 409)"
    by (simp add: q fresh_record_def decode_snapshot_def)
  have hash: "ir_request_hash q' = request_hash sv r2" by (simp add: q fresh_record_def assms(12))
  show ?thesis using begin_taken(4) [OF q'(3) assms(9,1,10) _ b, unfolded assms(11), OF q'(2) hash dec] b by simp
qed

section \<open>Concrete runs\<close>

text \<open>The codec on the texts of one exchange: the answer, the hashed body of the request and the stored envelope, as \<open>json\<close> writes
  and reads them.\<close>

definition demo_answer :: json_dict where
  "demo_answer = [(''state'', JStr ''queued''), (''run_id'', JStr ''r1''), (''trace_id'', JStr ''t'')]"

definition demo_text :: string where \<open>demo_text = ''{"state": "queued", "run_id": "r1", "trace_id": "t"}''\<close>

definition demo_envelope :: string where \<open>demo_envelope = ''{"body": {"run_id": "r1", "state": "queued"}, "status_code": 201}''\<close>

definition demo_services :: gateway_services where
  "demo_services = \<lparr>gw_nfc = \<lambda>s. s, gw_digest = \<lambda>s. s,
     gw_loads = \<lambda>s. if s = demo_envelope then Some (sort_keys (snapshot_envelope 201 demo_answer)) else None,
     gw_loads_bytes = \<lambda>s. if s = demo_text then Parsed (JObj demo_answer) else if s = ''{}'' then Parsed (JObj [])
        else if list_all (\<lambda>c. of_char c < (128::nat)) s then Not_json else Loads_raises,
     gw_replace = \<lambda>s. s,
     gw_dumps = \<lambda>v. if v = snapshot_envelope 201 demo_answer then demo_envelope else if v = JObj [] then ''{}'' else ''null'',
     gw_dumps_unicode = \<lambda>v. if v = snapshot_envelope 201 demo_answer then demo_envelope else if v = JObj [] then ''{}'' else ''null'',
     gw_int = \<lambda>_. None\<rparr>"

definition demo_request :: "string \<Rightarrow> http_request" where
  "demo_request body = \<lparr>ht_method = ''post'', ht_path = ''/v1/runs'',
     ht_headers = [(''x-tenant-id'', ''t1''), (''idempotency-key'', '' k1 '')], ht_body = body\<rparr>"

lemma demo_guarded_key: "guarded_key (demo_request body)"
  unfolding demo_request_def guarded_key_def tenant_of_def key_of_def by code_simp

lemma demo_guarded: "well_guarded demo_services (demo_request ''{}'')"
proof -
  have "''{}'' \<noteq> demo_text" by code_simp
  then show ?thesis
    using demo_guarded_key by (simp add: well_guarded_def readable_def demo_request_def safe_decode_body_def demo_services_def)
qed

lemma demo_storable: "storable demo_services (Handler_returned 201 demo_text) = Some (201, demo_answer)"
proof -
  have "demo_text \<noteq> ''''" by code_simp
  then show ?thesis by (simp add: storable_def response_object_def demo_services_def)
qed

lemma demo_codec:
  "gw_dumps demo_services (snapshot_envelope 201 demo_answer) \<noteq> ''''"
  "gw_loads demo_services (gw_dumps demo_services (snapshot_envelope 201 demo_answer)) = Some (sort_keys (snapshot_envelope 201 demo_answer))"
proof -
  have "demo_envelope \<noteq> ''''" by code_simp
  then show "gw_dumps demo_services (snapshot_envelope 201 demo_answer) \<noteq> ''''" by (simp add: demo_services_def)
qed (simp add: demo_services_def)

text \<open>A body with a byte that no UTF-8 text has.\<close>

lemma demo_unreadable: "\<not> readable demo_services (demo_request [CHR 0x80])"
  unfolding readable_def demo_request_def demo_services_def safe_decode_body_def by code_simp


lemma gateway_posture: "posture_from_env (Some ''prod'') = Inr Prod"
  by code_simp

lemma demo_window: "in_window 1000 1000" "in_window 1000 990" "in_window 1000 995"
  by (simp_all add: in_window_def STORE_TTL_def)


theorem completed_request_is_replayed_witness:
  "case fst (begin_request demo_services (Some ''prod'') True 1000 (demo_request ''{}'')
      (gx_store (gateway_run demo_services (Some ''prod'') True
         ([] @ Arrive 1 990 (demo_request ''{}'') # [Purge_run 991] @ Handler_ends 1 992 (Handler_returned 201 demo_text) # [])))) of
     Answer (Json_response code body) \<Rightarrow>
       (if request_hash demo_services (demo_request ''{}'') = request_hash demo_services (demo_request ''{}'')
        then code = 201 \<and> body = sort_dict (strip_identity demo_answer) else code = 409)
   | _ \<Rightarrow> False"
  by (rule completed_request_is_replayed [where T = 1000 and p = Prod])
    (simp_all add: gateway_posture demo_guarded demo_window demo_storable demo_codec gateway_init_def)

end
