(* ===== verification/Dag_Executor.thy ===== *)
theory Dag_Executor
  imports Task_Dag_Theorems
begin

text \<open>
  The executor of task graphs (\<open>hi_agent/task_decomposition/executor.py\<close>) on the graph of \<open>Task_Dag\<close>. The callback that runs a
  node is a function of the world and the node that raises (a left text) or returns a result; it does not touch
  the graph. The nodes handed to it are the graph's own objects, so they are read from the graph. The progress
  callback is the list of the snapshots it was given (\<open>None\<close>: no callback). The walk of a cascading rollback is a
  recursive function with its termination proof; the loop of \<open>run_to_completion\<close>, which may not end, takes fuel.
\<close>

section \<open>Data\<close>

record dag_progress =
  dp_completed :: nat
  dp_total :: nat
  dp_running :: "string list"
  dp_failed :: "string list"

record dag_step_result =
  sr_dispatched :: "string list"
  sr_completed :: "string list"
  sr_failed :: "string list"
  sr_is_terminal :: bool

record dag_result =
  dr_success :: bool
  dr_completed_nodes :: "string list"
  dr_failed_nodes :: "string list"
  dr_rolled_back_nodes :: "string list"
  dr_total_steps :: nat

record 'c dag_executor =
  ex_dag :: "'c task_dag"
  ex_rolled_back :: "string list"
  ex_progress :: "dag_progress list option"

type_synonym ('c, 'w) execute_fn = "'w \<Rightarrow> 'c task_node \<Rightarrow> (string + json) \<times> 'w"

definition mk_dag_executor :: "'c task_dag \<Rightarrow> bool \<Rightarrow> 'c dag_executor" where
  "mk_dag_executor dag on_progress = \<lparr>ex_dag = dag, ex_rolled_back = [], ex_progress = (if on_progress then Some [] else None)\<rparr>"

definition default_execute :: "('c, 'w) execute_fn" where
  "default_execute w node = (Inr (JObj [(''status'', JStr ''ok'')]), w)"

section \<open>Rollback\<close>

definition set_node_state :: "string \<Rightarrow> node_state \<Rightarrow> 'c task_dag \<Rightarrow> 'c task_dag" where
  "set_node_state k s d = (case map_of (dg_nodes d) k of None \<Rightarrow> d
     | Some n \<Rightarrow> d\<lparr>dg_nodes := dict_set k (n\<lparr>tn_state := s\<rparr>) (dg_nodes d)\<rparr>)"

fun compensate :: "string list \<Rightarrow> 'c task_dag \<Rightarrow> (dag_error + string list) \<times> 'c task_dag" where
  "compensate [] d = (Inr [], d)"
| "compensate (dep_id # deps) d =
     (case get_node dep_id d of
        Inl e \<Rightarrow> (Inl e, d)
      | Inr dep \<Rightarrow>
          if tn_state dep = N_completed then
            (case compensate deps (set_node_state dep_id N_rolled_back d) of
               (Inl e, d') \<Rightarrow> (Inl e, d')
             | (Inr rolled_back, d') \<Rightarrow> (Inr (dep_id # rolled_back), d'))
          else compensate deps d)"

text \<open>The dependencies of the nodes a walk has not visited: the measure of the walk.\<close>

definition unvisited_deps :: "string list \<Rightarrow> (string \<times> 'c task_node) list \<Rightarrow> nat" where
  "unvisited_deps visited nodes = sum_list (map (\<lambda>(k, n). if k \<in> set visited then 0 else length (tn_dependencies n)) nodes)"

lemma unvisited_deps_visit:
  "map_of nodes k = Some n \<Longrightarrow> k \<notin> set visited \<Longrightarrow>
   unvisited_deps (k # visited) nodes + length (tn_dependencies n) \<le> unvisited_deps visited nodes"
proof (induction nodes)
  case (Cons a nodes)
  obtain i m where a: "a = (i, m)" by fastforce
  have mono: "unvisited_deps (k # visited) ns \<le> unvisited_deps visited ns" for ns :: "(string \<times> 'a task_node) list"
    by (induction ns) (auto simp: unvisited_deps_def)
  show ?case
  proof (cases "i = k")
    case True
    then show ?thesis using Cons.prems mono [of nodes] by (simp add: a unvisited_deps_def)
  next
    case False
    then show ?thesis using Cons by (simp add: a unvisited_deps_def)
  qed
qed simp

lemma unvisited_deps_set:
  "map_of nodes k = Some n \<Longrightarrow> tn_dependencies m = tn_dependencies n \<Longrightarrow>
   unvisited_deps visited (dict_set k m nodes) = unvisited_deps visited nodes"
  by (induction nodes) (auto simp: unvisited_deps_def split: if_splits)

function cascade :: "string list \<Rightarrow> string list \<Rightarrow> 'c task_dag \<Rightarrow> (dag_error + string list) \<times> 'c task_dag" where
  "cascade [] visited d = (Inr [], d)"
| "cascade (nid # frontier) visited d =
     (if nid \<in> set visited then cascade frontier visited d
      else case get_node nid d of
        Inl e \<Rightarrow> (Inl e, d)
      | Inr node \<Rightarrow>
          if tn_state node = N_completed then
            (case cascade (frontier @ tn_dependencies node) (nid # visited) (set_node_state nid N_rolled_back d) of
               (Inl e, d') \<Rightarrow> (Inl e, d')
             | (Inr rolled_back, d') \<Rightarrow> (Inr (nid # rolled_back), d'))
          else cascade (frontier @ tn_dependencies node) (nid # visited) d)"
  by pat_completeness auto
termination
proof (relation "measure (\<lambda>(frontier, visited, d). length frontier + unvisited_deps visited (dg_nodes d))")
  fix nid frontier visited and d :: "'c task_dag" and node
  assume n: "nid \<notin> set visited" "get_node nid d = Inr node"
  then have k: "map_of (dg_nodes d) nid = Some node" by (simp add: get_node_def split: option.splits)
  show "((frontier @ tn_dependencies node, nid # visited, set_node_state nid N_rolled_back d), nid # frontier, visited, d)
      \<in> measure (\<lambda>(frontier, visited, d). length frontier + unvisited_deps visited (dg_nodes d))"
    using unvisited_deps_visit [OF k n(1)] by (simp add: set_node_state_def k unvisited_deps_set [OF k])
  show "((frontier @ tn_dependencies node, nid # visited, d), nid # frontier, visited, d)
      \<in> measure (\<lambda>(frontier, visited, d). length frontier + unvisited_deps visited (dg_nodes d))"
    using unvisited_deps_visit [OF k n(1)] by simp
qed simp_all

definition rollback :: "string \<Rightarrow> 'c task_dag \<Rightarrow> (dag_error + string list) \<times> 'c task_dag" where
  "rollback failed_node_id d =
     (case get_node failed_node_id d of
        Inl e \<Rightarrow> (Inl e, d)
      | Inr failed_node \<Rightarrow>
          if tn_rollback_policy failed_node = ''none'' then (Inr [], d)
          else if tn_rollback_policy failed_node = ''compensate'' then compensate (tn_dependencies failed_node) d
          else cascade (tn_dependencies failed_node) [] d)"

section \<open>Steps\<close>

definition has_running :: "'c task_dag \<Rightarrow> bool" where
  "has_running d = list_ex (\<lambda>(k, n). tn_state n = N_running) (dg_nodes d)"

definition ids_in_state :: "node_state \<Rightarrow> 'c task_dag \<Rightarrow> string list" where
  "ids_in_state s d = map fst (filter (\<lambda>(k, n). tn_state n = s) (dg_nodes d))"

definition make_progress :: "'c task_dag \<Rightarrow> dag_progress" where
  "make_progress d = \<lparr>dp_completed = length (ids_in_state N_completed d), dp_total = length (dg_nodes d),
     dp_running = ids_in_state N_running d, dp_failed = ids_in_state N_failed d\<rparr>"

text \<open>The body of the loop over the ready nodes, for one node: the \<open>except\<close> branch catches what the callback or
  \<open>mark_completed\<close> raises.\<close>

definition dispatch_node ::
  "(dag_error \<Rightarrow> string) \<Rightarrow> ('c, 'w) execute_fn \<Rightarrow> 'c task_node \<Rightarrow> dag_step_result \<Rightarrow> 'c dag_executor \<Rightarrow> 'w \<Rightarrow>
   (dag_error + dag_step_result) \<times> 'c dag_executor \<times> 'w" where
  "dispatch_node err_text execute_fn ready_node r ex w =
     (let node_id = tn_node_id ready_node in
      case mark_running node_id (ex_dag ex) of
        (Inl e, d) \<Rightarrow> (Inl e, ex\<lparr>ex_dag := d\<rparr>, w)
      | (Inr _, d) \<Rightarrow>
          let r1 = r\<lparr>sr_dispatched := sr_dispatched r @ [node_id]\<rparr>;
              node = (case map_of (dg_nodes d) node_id of Some n \<Rightarrow> n | None \<Rightarrow> ready_node);
              (ran, w') = execute_fn w node;
              tried = (case ran of
                  Inl exc \<Rightarrow> Inl exc
                | Inr result \<Rightarrow> (case mark_completed node_id (Some result) d of (Inl e, _) \<Rightarrow> Inl (err_text e) | (Inr _, d') \<Rightarrow> Inr d'))
          in case tried of
              Inr d' \<Rightarrow> (Inr (r1\<lparr>sr_completed := sr_completed r1 @ [node_id]\<rparr>), ex\<lparr>ex_dag := d'\<rparr>, w')
            | Inl exc \<Rightarrow>
                (case mark_node_failed node_id exc d of
                   (Inl e, d') \<Rightarrow> (Inl e, ex\<lparr>ex_dag := d'\<rparr>, w')
                 | (Inr _, d') \<Rightarrow>
                     let r2 = r1\<lparr>sr_failed := sr_failed r1 @ [node_id]\<rparr> in
                     if tn_rollback_policy node \<in> {''compensate'', ''cascade''} then
                       (case rollback node_id d' of
                          (Inl e, d'') \<Rightarrow> (Inl e, ex\<lparr>ex_dag := d''\<rparr>, w')
                        | (Inr ids, d'') \<Rightarrow> (Inr r2, ex\<lparr>ex_dag := d'', ex_rolled_back := ex_rolled_back ex @ ids\<rparr>, w'))
                     else (Inr r2, ex\<lparr>ex_dag := d'\<rparr>, w')))"

fun dispatch_nodes ::
  "(dag_error \<Rightarrow> string) \<Rightarrow> ('c, 'w) execute_fn \<Rightarrow> 'c task_node list \<Rightarrow> dag_step_result \<Rightarrow> 'c dag_executor \<Rightarrow> 'w \<Rightarrow>
   (dag_error + dag_step_result) \<times> 'c dag_executor \<times> 'w" where
  "dispatch_nodes err_text execute_fn [] r ex w = (Inr r, ex, w)"
| "dispatch_nodes err_text execute_fn (node # ready) r ex w =
     (case dispatch_node err_text execute_fn node r ex w of
        (Inl e, ex', w') \<Rightarrow> (Inl e, ex', w')
      | (Inr r', ex', w') \<Rightarrow> dispatch_nodes err_text execute_fn ready r' ex' w')"

definition dag_step ::
  "(dag_error \<Rightarrow> string) \<Rightarrow> ('c, 'w) execute_fn \<Rightarrow> 'c dag_executor \<Rightarrow> 'w \<Rightarrow> (dag_error + dag_step_result) \<times> 'c dag_executor \<times> 'w" where
  "dag_step err_text execute_fn ex w =
     (let r0 = \<lparr>sr_dispatched = [], sr_completed = [], sr_failed = [], sr_is_terminal = False\<rparr> in
      case get_ready_nodes (ex_dag ex) of
        Inl e \<Rightarrow> (Inl e, ex, w)
      | Inr ready \<Rightarrow>
          if ready = [] \<and> \<not> has_running (ex_dag ex) then (Inr (r0\<lparr>sr_is_terminal := True\<rparr>), ex, w)
          else case dispatch_nodes err_text execute_fn ready r0 ex w of
              (Inl e, ex', w') \<Rightarrow> (Inl e, ex', w')
            | (Inr r, ex', w') \<Rightarrow>
                let ex2 = ex'\<lparr>ex_progress := map_option (\<lambda>ps. ps @ [make_progress (ex_dag ex')]) (ex_progress ex')\<rparr> in
                if is_complete (ex_dag ex2) then (Inr (r\<lparr>sr_is_terminal := True\<rparr>), ex2, w')
                else if \<not> is_failed (ex_dag ex2) then (Inr r, ex2, w')
                else case get_ready_nodes (ex_dag ex2) of
                    Inl e \<Rightarrow> (Inl e, ex2, w')
                  | Inr ready' \<Rightarrow> (Inr (r\<lparr>sr_is_terminal := (ready' = [])\<rparr>), ex2, w'))"

text \<open>The loop; \<open>None\<close>: still running when the fuel is used up.\<close>

fun run_loop ::
  "nat \<Rightarrow> (dag_error \<Rightarrow> string) \<Rightarrow> ('c, 'w) execute_fn \<Rightarrow> nat \<Rightarrow> 'c dag_executor \<Rightarrow> 'w \<Rightarrow>
   ((dag_error + nat) \<times> 'c dag_executor \<times> 'w) option" where
  "run_loop 0 err_text execute_fn total_steps ex w = None"
| "run_loop (Suc fuel) err_text execute_fn total_steps ex w =
     (case dag_step err_text execute_fn ex w of
        (Inl e, ex', w') \<Rightarrow> Some (Inl e, ex', w')
      | (Inr r, ex', w') \<Rightarrow>
          if sr_is_terminal r then Some (Inr (Suc total_steps), ex', w')
          else run_loop fuel err_text execute_fn (Suc total_steps) ex' w')"

definition run_to_completion ::
  "nat \<Rightarrow> (dag_error \<Rightarrow> string) \<Rightarrow> ('c, 'w) execute_fn \<Rightarrow> 'c dag_executor \<Rightarrow> 'w \<Rightarrow>
   ((dag_error + dag_result) \<times> 'c dag_executor \<times> 'w) option" where
  "run_to_completion fuel err_text execute_fn ex w =
     (case run_loop fuel err_text execute_fn 0 ex w of
        None \<Rightarrow> None
      | Some (Inl e, ex', w') \<Rightarrow> Some (Inl e, ex', w')
      | Some (Inr total_steps, ex', w') \<Rightarrow>
          Some (Inr \<lparr>dr_success = is_complete (ex_dag ex'), dr_completed_nodes = ids_in_state N_completed (ex_dag ex'),
              dr_failed_nodes = ids_in_state N_failed (ex_dag ex'), dr_rolled_back_nodes = ex_rolled_back ex',
              dr_total_steps = total_steps\<rparr>, ex', w'))"

end
