(* ===== verification/Dag_Executor_Theorems.thy ===== *)
theory Dag_Executor_Theorems
  imports Dag_Executor
begin

text \<open>
  What the executor guarantees: on a graph built by the operations of \<open>Task_Dag\<close> with no node running, \<open>run_to_completion\<close> ends
  after at most one step per pending node and one more, and leaves nothing that could still run; when no node fails it
  completes every node. With a node left running it never ends.
\<close>

section \<open>Node states\<close>

definition st :: "'c task_dag \<Rightarrow> string \<Rightarrow> node_state option" where
  "st d k = map_option tn_state (map_of (dg_nodes d) k)"

definition same_shape :: "'c task_dag \<Rightarrow> 'c task_dag \<Rightarrow> bool" where
  "same_shape d d' = (dg_edges d' = dg_edges d \<and> node_ids d' = node_ids d \<and>
     (\<forall>k n. map_of (dg_nodes d) k = Some n \<longrightarrow> (\<exists>m. map_of (dg_nodes d') k = Some m \<and> same_links n m)))"

lemma known_iff: "k \<in> set (node_ids d) \<longleftrightarrow> (\<exists>n. map_of (dg_nodes d) k = Some n)"
proof -
  have "map_of (dg_nodes d) k = None \<longleftrightarrow> k \<notin> set (node_ids d)" by (simp add: node_ids_def map_of_eq_None_iff)
  then show ?thesis by (cases "map_of (dg_nodes d) k") auto
qed

lemma same_shape_refl [simp]: "same_shape d d"
  by (simp add: same_shape_def same_links_def)

lemma same_shape_trans: "same_shape d d' \<Longrightarrow> same_shape d' d'' \<Longrightarrow> same_shape d d''"
  unfolding same_shape_def same_links_def by (metis (no_types, lifting))

lemma same_shape_set:
  assumes "map_of (dg_nodes d) k = Some n" "same_links n m"
  shows "same_shape d (d\<lparr>dg_nodes := dict_set k m (dg_nodes d)\<rparr>)"
proof -
  have "k \<in> set (map fst (dg_nodes d))" using assms(1) by (metis map_of_eq_None_iff option.distinct(1) list.set_map)
  then show ?thesis using assms by (auto simp: same_shape_def node_ids_def keys_dict_set_old same_links_def)
qed

lemma same_shape_ok:
  assumes "same_shape d d'" "dag_ok d"
  shows "dag_ok d'" "length (dg_nodes d') = length (dg_nodes d)"
proof -
  have e: "dg_edges d' = dg_edges d" "node_ids d' = node_ids d" using assms(1) by (simp_all add: same_shape_def)
  have "linked d'" unfolding linked_def
  proof (intro allI impI)
    fix k m
    assume m: "map_of (dg_nodes d') k = Some m"
    then have "k \<in> set (node_ids d)" unfolding e(2) [symmetric] known_iff by blast
    then obtain n where n: "map_of (dg_nodes d) k = Some n" by (auto simp: known_iff)
    then have "same_links n m" using assms(1) m by (fastforce simp: same_shape_def)
    then show "tn_node_id m = k \<and> (\<forall>u. u \<in> set (tn_dependencies m) \<longleftrightarrow> edge (dg_edges d') u k)"
      using assms(2) n by (auto simp: dag_ok_def linked_def same_links_def e)
  qed
  then show "dag_ok d'" using assms(2) by (simp add: dag_ok_def acyclic_dag_def dag_wf_def e)
  show "length (dg_nodes d') = length (dg_nodes d)" using e(2) by (metis length_map node_ids_def)
qed

text \<open>What rolling back may do: completed nodes become rolled back.\<close>

definition undoes :: "'c task_dag \<Rightarrow> 'c task_dag \<Rightarrow> bool" where
  "undoes d d' = (same_shape d d' \<and> (\<forall>k. st d' k = st d k \<or> st d k = Some N_completed \<and> st d' k = Some N_rolled_back))"

lemma undoes_refl [simp]: "undoes d d"
  by (simp add: undoes_def)

lemma undoes_trans: "undoes d d' \<Longrightarrow> undoes d' d'' \<Longrightarrow> undoes d d''"
  unfolding undoes_def using same_shape_trans by (metis)

lemma undoes_set: "get_node k d = Inr n \<Longrightarrow> tn_state n = N_completed \<Longrightarrow> undoes d (set_node_state k N_rolled_back d)"
  by (auto simp: undoes_def st_def set_node_state_def get_node_def same_links_def intro!: same_shape_set split: option.splits)

lemma known_shape: "same_shape d d' \<Longrightarrow> k \<in> set (node_ids d) \<Longrightarrow> \<exists>n. get_node k d' = Inr n"
  unfolding same_shape_def known_iff get_node_def by (metis option.simps(5))

lemma compensate_undoes:
  "set deps \<subseteq> set (node_ids d) \<Longrightarrow> \<exists>ids d'. compensate deps d = (Inr ids, d') \<and> undoes d d'"
proof (induction deps arbitrary: d)
  case (Cons k deps)
  obtain n where n: "get_node k d = Inr n" using known_shape [of d d k] Cons.prems by auto
  show ?case
  proof (cases "tn_state n = N_completed")
    case True
    let ?d = "set_node_state k N_rolled_back d"
    have u: "undoes d ?d" by (rule undoes_set [OF n True])
    then have "node_ids ?d = node_ids d" by (simp add: undoes_def same_shape_def)
    then obtain ids d' where "compensate deps ?d = (Inr ids, d')" "undoes ?d d'" using Cons.IH [of ?d] Cons.prems by auto
    then show ?thesis using n True undoes_trans [OF u] by auto
  qed (use Cons n in auto)
qed simp

lemma dag_deps_known:
  assumes "dag_ok d" "get_node k d = Inr n"
  shows "set (tn_dependencies n) \<subseteq> set (node_ids d)"
proof -
  have k: "map_of (dg_nodes d) k = Some n" using assms(2) by (simp add: get_node_def split: option.splits)
  then have "n \<in> set (map snd (dg_nodes d))" by (auto dest: map_of_SomeD intro: rev_image_eqI)
  then have "\<forall>j\<in>set (tn_dependencies n). map_of (dg_nodes d) j \<noteq> None"
    using linked_deps [of d n] assms(1) unfolding dag_ok_def acyclic_dag_def by blast
  then show ?thesis by (auto simp: known_iff)
qed

lemma cascade_undoes:
  "dag_ok d \<Longrightarrow> set frontier \<subseteq> set (node_ids d) \<Longrightarrow> \<exists>ids d'. cascade frontier visited d = (Inr ids, d') \<and> undoes d d'"
proof (induction frontier visited d rule: cascade.induct)
  case (2 nid frontier visited d)
  show ?case
  proof (cases "nid \<in> set visited")
    case False
    obtain n where n: "get_node nid d = Inr n" using known_shape [of d d nid] "2.prems" by auto
    have deps: "set (tn_dependencies n) \<subseteq> set (node_ids d)" by (rule dag_deps_known [OF "2.prems"(1) n])
    show ?thesis
    proof (cases "tn_state n = N_completed")
      case True
      let ?d = "set_node_state nid N_rolled_back d"
      have u: "undoes d ?d" by (rule undoes_set [OF n True])
      then have s: "node_ids ?d = node_ids d" "dag_ok ?d" using same_shape_ok(1) [of d ?d] "2.prems"(1) by (auto simp: undoes_def same_shape_def)
      from "2.IH"(2) [OF False n True] obtain ids d' where
        "cascade (frontier @ tn_dependencies n) (nid # visited) ?d = (Inr ids, d')" "undoes ?d d'"
        using s deps "2.prems" by auto
      then show ?thesis using False n True undoes_trans [OF u] by auto
    next
      case nc: False
      from "2.IH"(3) [OF False n nc] show ?thesis using False n nc deps "2.prems" by auto
    qed
  qed (use 2 in auto)
qed simp

lemma rollback_undoes:
  assumes "dag_ok d" "k \<in> set (node_ids d)"
  shows "\<exists>ids d'. rollback k d = (Inr ids, d') \<and> undoes d d'"
proof -
  obtain n where n: "get_node k d = Inr n" using known_shape [of d d k] assms(2) by auto
  note deps = dag_deps_known [OF assms(1) n]
  show ?thesis using compensate_undoes [OF deps] cascade_undoes [OF assms(1) deps] n by (auto simp: rollback_def)
qed

text \<open>What a rollback achieves: it reports the nodes it rolls back; afterwards no completed dependency of a node to compensate and
  no completed ancestor of a node to cascade from is left.\<close>

definition rolled_ids :: "'c task_dag \<Rightarrow> string set" where
  "rolled_ids d = {k. st d k = Some N_rolled_back}"

lemma rolled_ids_set: "get_node k d = Inr n \<Longrightarrow> rolled_ids (set_node_state k N_rolled_back d) = insert k (rolled_ids d)"
  by (auto simp: rolled_ids_def st_def set_node_state_def get_node_def split: option.splits if_splits)

lemma compensate_ids: "compensate deps d = (Inr ids, d') \<Longrightarrow> rolled_ids d' = rolled_ids d \<union> set ids"
proof (induction deps arbitrary: d ids)
  case (Cons k deps)
  then show ?case
    by (fastforce simp: rolled_ids_set split: sum.splits if_splits prod.splits)
qed simp

lemma compensate_done:
  "set deps \<subseteq> set (node_ids d) \<Longrightarrow> compensate deps d = (Inr ids, d') \<Longrightarrow> k \<in> set deps \<Longrightarrow> st d' k \<noteq> Some N_completed"
proof (induction deps arbitrary: d ids)
  case (Cons j deps)
  obtain n where n: "get_node j d = Inr n" using known_shape [of d d j] Cons.prems(1) by auto
  show ?case
  proof (cases "tn_state n = N_completed")
    case True
    let ?d = "set_node_state j N_rolled_back d"
    have "node_ids ?d = node_ids d" using undoes_set [OF n True] by (simp add: undoes_def same_shape_def)
    then have sub: "set deps \<subseteq> set (node_ids ?d)" using Cons.prems(1) by simp
    obtain ids' where c: "compensate deps ?d = (Inr ids', d')"
      using Cons.prems(2) n True by (auto split: prod.splits sum.splits)
    have u: "undoes ?d d'" using compensate_undoes [OF sub] c by auto
    have "st ?d j = Some N_rolled_back" using n by (auto simp: st_def set_node_state_def get_node_def split: option.splits)
    then have "st d' j \<noteq> Some N_completed" using u by (auto simp: undoes_def dest: spec [of _ j])
    then show ?thesis using Cons.IH [OF sub c] Cons.prems(3) by auto
  next
    case False
    have sub: "set deps \<subseteq> set (node_ids d)" using Cons.prems(1) by simp
    have c: "compensate deps d = (Inr ids, d')" using Cons.prems(2) n False by simp
    have u: "undoes d d'" using compensate_undoes [OF sub] c by auto
    have "st d j \<noteq> Some N_completed" using n False by (auto simp: st_def get_node_def split: option.splits)
    then have "st d' j \<noteq> Some N_completed" using u by (auto simp: undoes_def dest: spec [of _ j])
    then show ?thesis using Cons.IH [OF sub c] Cons.prems(3) by auto
  qed
qed simp

lemma cascade_ids: "cascade frontier visited d = (Inr ids, d') \<Longrightarrow> rolled_ids d' = rolled_ids d \<union> set ids"
proof (induction frontier visited d arbitrary: ids rule: cascade.induct)
  case (2 nid frontier visited d)
  show ?case
  proof (cases "nid \<in> set visited")
    case False
    then obtain n where n: "get_node nid d = Inr n" using "2.prems" by (auto split: sum.splits)
    show ?thesis
    proof (cases "tn_state n = N_completed")
      case True
      then obtain ids' where "ids = nid # ids'"
        "cascade (frontier @ tn_dependencies n) (nid # visited) (set_node_state nid N_rolled_back d) = (Inr ids', d')"
        using "2.prems" False n by (auto split: prod.splits sum.splits)
      then show ?thesis using "2.IH"(2) [OF False n True] by (auto simp: rolled_ids_set [OF n])
    qed (use 2 False n in simp)
  qed (use 2 in simp)
qed simp

lemma dag_deps_edges: "dag_ok d \<Longrightarrow> get_node k d = Inr n \<Longrightarrow> u \<in> set (tn_dependencies n) \<longleftrightarrow> edge (dg_edges d) u k"
  by (auto simp: dag_ok_def linked_def get_node_def split: option.splits)

text \<open>The walk of a cascade covers a set of nodes closed under predecessors.\<close>

lemma cascade_covers:
  "dag_ok d \<Longrightarrow> set frontier \<subseteq> set (node_ids d) \<Longrightarrow> cascade frontier visited d = (Inr ids, d') \<Longrightarrow>
   \<exists>V. set visited \<union> set frontier \<subseteq> V \<and>
     (\<forall>x\<in>V - set visited. st d' x \<noteq> Some N_completed \<and> (\<forall>u. edge (dg_edges d) u x \<longrightarrow> u \<in> V))"
proof (induction frontier visited d arbitrary: ids rule: cascade.induct)
  case (1 visited d)
  then show ?case by (intro exI [of _ "set visited"]) simp
next
  case (2 nid frontier visited d)
  show ?case
  proof (cases "nid \<in> set visited")
    case True
    then show ?thesis using "2.IH"(1) [OF True] "2.prems" by (simp add: insert_absorb)
  next
    case False
    obtain n where n: "get_node nid d = Inr n" using known_shape [of d d nid] "2.prems" by auto
    have deps: "set (tn_dependencies n) \<subseteq> set (node_ids d)" by (rule dag_deps_known [OF "2.prems"(1) n])
    let ?d = "if tn_state n = N_completed then set_node_state nid N_rolled_back d else d"
    have u: "undoes d ?d" "st ?d nid \<noteq> Some N_completed"
      using undoes_set [OF n] n by (auto simp: st_def set_node_state_def get_node_def split: option.splits)
    have shape: "same_shape d ?d" using u(1) unfolding undoes_def by blast
    then have e: "dg_edges ?d = dg_edges d" "node_ids ?d = node_ids d" unfolding same_shape_def by blast+
    note e = e same_shape_ok(1) [OF shape "2.prems"(1)]
    obtain ids' where c: "cascade (frontier @ tn_dependencies n) (nid # visited) ?d = (Inr ids', d')"
      using "2.prems"(3) False n by (auto split: prod.splits sum.splits if_splits)
    have sub: "set (frontier @ tn_dependencies n) \<subseteq> set (node_ids ?d)" using deps "2.prems"(2) unfolding e(2) by simp
    have "\<exists>V. set (nid # visited) \<union> set (frontier @ tn_dependencies n) \<subseteq> V \<and>
        (\<forall>x\<in>V - set (nid # visited). st d' x \<noteq> Some N_completed \<and> (\<forall>u. edge (dg_edges ?d) u x \<longrightarrow> u \<in> V))"
    proof (cases "tn_state n = N_completed")
      case True
      then show ?thesis using "2.IH"(2) [OF False n True] e(3) sub c by (simp only: if_True simp_thms)
    next
      case nc: False
      then show ?thesis using "2.IH"(3) [OF False n nc] e(3) sub c by (simp only: if_False simp_thms)
    qed
    then obtain V where V: "insert nid (set visited) \<union> (set frontier \<union> set (tn_dependencies n)) \<subseteq> V"
      "\<forall>x\<in>V - insert nid (set visited). st d' x \<noteq> Some N_completed \<and> (\<forall>u. edge (dg_edges d) u x \<longrightarrow> u \<in> V)"
      unfolding e(1) set_append list.set by blast
    have "undoes ?d d'" using cascade_undoes [OF e(3) sub, of "nid # visited"] c by auto
    then have "st d' nid \<noteq> Some N_completed" using u(2) by (auto simp: undoes_def dest: spec [of _ nid])
    moreover have "\<forall>u. edge (dg_edges d) u nid \<longrightarrow> u \<in> V" using V(1) dag_deps_edges [OF "2.prems"(1) n] by blast
    moreover have "set visited \<union> set (nid # frontier) \<subseteq> V" using V(1) by auto
    ultimately show ?thesis using V(2) by blast
  qed
qed

definition undone_for :: "'c task_dag \<Rightarrow> string \<Rightarrow> 'c task_node \<Rightarrow> 'c task_dag \<Rightarrow> bool" where
  "undone_for d k n d' = ((tn_rollback_policy n = ''compensate'' \<longrightarrow> (\<forall>u. edge (dg_edges d) u k \<longrightarrow> st d' u \<noteq> Some N_completed)) \<and>
     (tn_rollback_policy n = ''cascade'' \<longrightarrow> (\<forall>u. (edge (dg_edges d))\<^sup>+\<^sup>+ u k \<longrightarrow> st d' u \<noteq> Some N_completed)))"

lemma rollback_done:
  assumes "dag_ok d" "get_node k d = Inr n" "rollback k d = (Inr ids, d')"
  shows "rolled_ids d' = rolled_ids d \<union> set ids" "undone_for d k n d'"
proof -
  have deps: "set (tn_dependencies n) \<subseteq> set (node_ids d)" by (rule dag_deps_known [OF assms(1,2)])
  show "rolled_ids d' = rolled_ids d \<union> set ids"
    using assms(2,3) by (auto simp: rollback_def compensate_ids cascade_ids split: if_splits)
  have "st d' u \<noteq> Some N_completed" if "tn_rollback_policy n = ''compensate''" "edge (dg_edges d) u k" for u
    using compensate_done [OF deps, of ids d' u] that assms by (simp add: rollback_def dag_deps_edges)
  moreover have "st d' u \<noteq> Some N_completed" if "tn_rollback_policy n = ''cascade''" "(edge (dg_edges d))\<^sup>+\<^sup>+ u k" for u
  proof -
    have "cascade (tn_dependencies n) [] d = (Inr ids, d')" using assms(2,3) that(1) by (simp add: rollback_def)
    from cascade_covers [OF assms(1) deps this] obtain V where V: "set (tn_dependencies n) \<subseteq> V"
      "\<forall>x\<in>V. st d' x \<noteq> Some N_completed \<and> (\<forall>u. edge (dg_edges d) u x \<longrightarrow> u \<in> V)" by auto
    from that(2) have "u \<in> V"
      by (induction rule: converse_tranclp_induct) (use V dag_deps_edges [OF assms(1,2)] in blast)+
    then show ?thesis using V(2) by blast
  qed
  ultimately show "undone_for d k n d'" by (simp add: undone_for_def)
qed

section \<open>What has been undone\<close>

text \<open>No predecessor of a node that has been run is pending; every failed node has been rolled back for; the executor reports
  exactly the nodes that are rolled back.\<close>

definition coherent :: "'c task_dag \<Rightarrow> bool" where
  "coherent d = (\<forall>u k. edge (dg_edges d) u k \<longrightarrow> st d u = Some N_pending \<longrightarrow> st d k = Some N_pending)"

definition failures_undone :: "'c task_dag \<Rightarrow> bool" where
  "failures_undone d = (\<forall>k n. map_of (dg_nodes d) k = Some n \<and> tn_state n = N_failed \<longrightarrow> undone_for d k n d)"

definition undone :: "'c dag_executor \<Rightarrow> bool" where
  "undone ex = (coherent (ex_dag ex) \<and> failures_undone (ex_dag ex) \<and> set (ex_rolled_back ex) = rolled_ids (ex_dag ex))"

definition quiet :: "'c dag_executor \<Rightarrow> bool" where
  "quiet ex = ((\<forall>k n. map_of (dg_nodes (ex_dag ex)) k = Some n \<longrightarrow> tn_rollback_policy n = ''none'') \<and> ex_rolled_back ex = [])"

lemma coherent_trancl: "coherent d \<Longrightarrow> (edge (dg_edges d))\<^sup>+\<^sup>+ u k \<Longrightarrow> st d u = Some N_pending \<Longrightarrow> st d k = Some N_pending"
  by (rotate_tac 1, induction rule: tranclp_induct) (auto simp: coherent_def)

lemma same_shape_policy:
  "same_shape d d' \<Longrightarrow> map_of (dg_nodes d') k = Some m \<Longrightarrow>
   \<exists>n. map_of (dg_nodes d) k = Some n \<and> tn_rollback_policy m = tn_rollback_policy n"
proof -
  assume s: "same_shape d d'" and m: "map_of (dg_nodes d') k = Some m"
  then have "k \<in> set (node_ids d)" unfolding same_shape_def by (metis known_iff)
  then obtain n where n: "map_of (dg_nodes d) k = Some n" by (auto simp: known_iff)
  then show ?thesis using s m by (auto simp: same_shape_def same_links_def dest!: spec [of _ k])
qed

lemma quiet_same_shape: "same_shape (ex_dag ex) d \<Longrightarrow> quiet ex \<Longrightarrow> quiet (ex\<lparr>ex_dag := d\<rparr>)"
  unfolding quiet_def using same_shape_policy [of "ex_dag ex" d] by fastforce

text \<open>The node \<open>k\<close> of a batch has ended, and others may have been rolled back.\<close>

lemma ended_node_undone:
  assumes "same_shape d d'" "coherent d" "failures_undone d" "st d k = Some N_pending"
    and preds: "\<forall>u. edge (dg_edges d) u k \<longrightarrow> st d u \<noteq> Some N_pending"
    and others: "\<forall>j. j \<noteq> k \<longrightarrow> st d' j = st d j \<or> st d j = Some N_completed \<and> st d' j = Some N_rolled_back"
    and done_k: "st d' k = Some N_completed \<or> st d' k = Some N_failed \<and> (\<forall>n. map_of (dg_nodes d') k = Some n \<longrightarrow> undone_for d k n d')"
  shows "coherent d' \<and> failures_undone d'"
proof
  have e: "dg_edges d' = dg_edges d" using assms(1) by (simp add: same_shape_def)
  show "coherent d'" unfolding coherent_def e
  proof (intro allI impI)
    fix u j
    assume uj: "edge (dg_edges d) u j" "st d' u = Some N_pending"
    have "u \<noteq> k" using uj(2) done_k by auto
    then have u: "st d u = Some N_pending" using others [rule_format, of u] uj(2) by auto
    then have j: "st d j = Some N_pending" "j \<noteq> k" using assms(2) uj(1) preds by (auto simp: coherent_def)
    then show "st d' j = Some N_pending" using others [rule_format, of j] by auto
  qed
  show "failures_undone d'" unfolding failures_undone_def
  proof (intro allI impI)
    fix j n
    assume j: "map_of (dg_nodes d') j = Some n \<and> tn_state n = N_failed"
    show "undone_for d' j n d'"
    proof (cases "j = k")
      case True
      then show ?thesis using done_k j by (auto simp: undone_for_def e st_def)
    next
      case False
      have st: "st d' j = Some N_failed" using j by (simp add: st_def)
      then have stj: "st d j = Some N_failed" using others [rule_format, OF False] by auto
      obtain m where m: "map_of (dg_nodes d) j = Some m" "tn_rollback_policy n = tn_rollback_policy m"
        using same_shape_policy [OF assms(1)] j by blast
      have "undone_for d j m d" using assms(3) m stj by (auto simp: failures_undone_def st_def)
      moreover have "st d' u \<noteq> Some N_completed" if "st d u \<noteq> Some N_completed" "(edge (dg_edges d))\<^sup>+\<^sup>+ u j" for u
      proof (cases "u = k")
        case True
        then show ?thesis using coherent_trancl [OF assms(2) that(2)] assms(4) stj by simp
      next
        case False
        then show ?thesis using others [rule_format, of u] that(1) by auto
      qed
      ultimately show ?thesis unfolding undone_for_def e m(2) by blast
    qed
  qed
qed

section \<open>One node\<close>

text \<open>A batch of pending nodes is run: each ends completed or failed (or is rolled back by a later one), every other node
  is untouched or rolled back; \<open>clean\<close>: no callback raises.\<close>

definition ran :: "bool \<Rightarrow> string set \<Rightarrow> 'c task_dag \<Rightarrow> 'c task_dag \<Rightarrow> bool" where
  "ran clean ks d d' = (same_shape d d' \<and>
     (\<forall>k. if k \<in> ks then st d k = Some N_pending \<and> st d' k \<in> Some ` (if clean then {N_completed} else {N_completed, N_failed, N_rolled_back})
          else st d' k = st d k \<or> \<not> clean \<and> st d k = Some N_completed \<and> st d' k = Some N_rolled_back))"

definition never_raises :: "('c, 'w) execute_fn \<Rightarrow> bool" where
  "never_raises fn = (\<forall>w n. \<exists>x. fst (fn w n) = Inr x)"

lemma get_node_st: "st d k = Some s \<longleftrightarrow> (\<exists>n. get_node k d = Inr n \<and> map_of (dg_nodes d) k = Some n \<and> tn_state n = s)"
  by (auto simp: st_def get_node_def split: option.splits)

lemma dispatch_node_runs:
  assumes ok: "dag_ok (ex_dag ex)" and pending: "st (ex_dag ex) (tn_node_id node) = Some N_pending"
  shows "\<exists>r' ex' w'. dispatch_node err fn node r ex w = (Inr r', ex', w') \<and> sr_is_terminal r' = sr_is_terminal r \<and>
    ran (never_raises fn) {tn_node_id node} (ex_dag ex) (ex_dag ex') \<and>
    ((\<forall>u. edge (dg_edges (ex_dag ex)) u (tn_node_id node) \<longrightarrow> st (ex_dag ex) u \<noteq> Some N_pending) \<longrightarrow> undone ex \<longrightarrow> undone ex') \<and>
    (quiet ex \<longrightarrow> quiet ex')"
proof -
  let ?k = "tn_node_id node" and ?d = "ex_dag ex"
  let ?ready = "\<forall>u. edge (dg_edges ?d) u ?k \<longrightarrow> st ?d u \<noteq> Some N_pending"
  obtain n where n: "get_node ?k ?d = Inr n" "map_of (dg_nodes ?d) ?k = Some n" "tn_state n = N_pending"
    using pending by (auto simp: get_node_st)
  let ?n = "n\<lparr>tn_state := N_running\<rparr>"
  let ?d1 = "?d\<lparr>dg_nodes := dict_set ?k ?n (dg_nodes ?d)\<rparr>"
  have m1: "mark_running ?k ?d = (Inr (), ?d1)" using n by (simp add: mark_running_def)
  have s1: "same_shape ?d ?d1" by (rule same_shape_set [OF n(2)]) (simp add: same_links_def)
  have g1: "get_node ?k ?d1 = Inr ?n" by (simp add: get_node_def)
  obtain res w1 where fn: "fn w ?n = (res, w1)" by fastforce
  show ?thesis
  proof (cases res)
    case (Inr x)
    let ?m = "?n\<lparr>tn_state := N_completed, tn_result := Some x\<rparr>"
    let ?d2 = "?d1\<lparr>dg_nodes := dict_set ?k ?m (dg_nodes ?d1)\<rparr>"
    have m2: "mark_completed ?k (Some x) ?d1 = (Inr (), ?d2)" using g1 by (simp add: mark_completed_def)
    have "same_shape ?d1 ?d2" by (rule same_shape_set [where n = ?n]) (simp_all add: same_links_def)
    then have s2: "same_shape ?d ?d2" by (rule same_shape_trans [OF s1])
    have r2: "ran (never_raises fn) {?k} ?d ?d2" using s2 n(2,3) by (auto simp: ran_def st_def)
    have rb: "rolled_ids ?d2 = rolled_ids ?d" using n(2,3) by (auto simp: rolled_ids_def st_def)
    have "coherent ?d2 \<and> failures_undone ?d2" if "?ready" "coherent ?d" "failures_undone ?d"
      by (rule ended_node_undone [OF s2 that(2,3) pending that(1)]) (simp_all add: st_def)
    moreover have "quiet ex \<Longrightarrow> quiet (ex\<lparr>ex_dag := ?d2\<rparr>)" by (rule quiet_same_shape [OF s2])
    ultimately show ?thesis using m1 m2 fn Inr r2 rb by (simp add: dispatch_node_def Let_def undone_def)
  next
    case (Inl exc)
    let ?m = "?n\<lparr>tn_state := N_failed, tn_failure_reason := Some exc\<rparr>"
    let ?d2 = "?d1\<lparr>dg_nodes := dict_set ?k ?m (dg_nodes ?d1)\<rparr>"
    have m2: "mark_node_failed ?k exc ?d1 = (Inr (), ?d2)" using g1 by (simp add: mark_node_failed_def)
    have "same_shape ?d1 ?d2" by (rule same_shape_set [where n = ?n]) (simp_all add: same_links_def)
    then have s2: "same_shape ?d ?d2" by (rule same_shape_trans [OF s1])
    have raises: "\<not> never_raises fn" using fn Inl by (auto simp: never_raises_def) (metis Inl_Inr_False fst_conv)
    have "?k \<in> set (node_ids ?d)" using n(2) by (simp add: known_iff)
    then have "?k \<in> set (node_ids ?d2)" using s2 by (simp add: same_shape_def)
    from rollback_undoes [OF same_shape_ok(1) [OF s2 ok] this]
    obtain ids d' where rb: "rollback ?k ?d2 = (Inr ids, d')" "undoes ?d2 d'" by blast
    have r2: "ran (never_raises fn) {?k} ?d ?d2" using s2 n(2,3) raises by (auto simp: ran_def st_def)
    have r3: "ran (never_raises fn) {?k} ?d d'"
      using same_shape_trans [OF s2] rb(2) raises n(2,3) unfolding ran_def undoes_def
      by (auto simp: st_def split: if_splits)
    have q: "quiet (ex\<lparr>ex_dag := ?d2\<rparr>) \<and> tn_rollback_policy n = ''none''" if "quiet ex"
      using quiet_same_shape [OF s2 that] n(2) that unfolding quiet_def by blast
    have u2: "undone (ex\<lparr>ex_dag := ?d2\<rparr>)" if "?ready" "undone ex" "tn_rollback_policy n \<notin> {''compensate'', ''cascade''}"
    proof -
      have "coherent ?d2 \<and> failures_undone ?d2"
        by (rule ended_node_undone [OF s2 _ _ pending that(1)]) (use that in \<open>simp_all add: undone_def undone_for_def st_def\<close>)
      moreover have "rolled_ids ?d2 = rolled_ids ?d" using n(2,3) by (auto simp: rolled_ids_def st_def)
      ultimately show ?thesis using that by (simp add: undone_def)
    qed
    have u3: "undone (ex\<lparr>ex_dag := d', ex_rolled_back := ex_rolled_back ex @ ids\<rparr>)" if "?ready" "undone ex"
    proof -
      have g2: "get_node ?k ?d2 = Inr ?m" by (simp add: get_node_def)
      note done2 = rollback_done [OF same_shape_ok(1) [OF s2 ok] g2 rb(1)]
      have s3: "same_shape ?d d'" using same_shape_trans [OF s2] rb(2) by (simp add: undoes_def)
      have k: "st d' ?k = Some N_failed" using rb(2) by (auto simp: undoes_def st_def dest!: spec [of _ ?k])
      have "undone_for ?d ?k m d'" if "map_of (dg_nodes d') ?k = Some m" for m
      proof -
        have "same_shape ?d2 d'" using rb(2) by (simp add: undoes_def)
        from same_shape_policy [OF this that] have "tn_rollback_policy m = tn_rollback_policy ?m" by simp
        then show ?thesis using done2(2) by (simp add: undone_for_def)
      qed
      moreover have "\<forall>j. j \<noteq> ?k \<longrightarrow> st d' j = st ?d j \<or> st ?d j = Some N_completed \<and> st d' j = Some N_rolled_back"
      proof (intro allI impI)
        fix j
        assume "j \<noteq> ?k"
        then have "st ?d2 j = st ?d j" by (simp add: st_def)
        then show "st d' j = st ?d j \<or> st ?d j = Some N_completed \<and> st d' j = Some N_rolled_back"
          using rb(2) [unfolded undoes_def, THEN conjunct2, rule_format, of j] by simp
      qed
      ultimately have "coherent d' \<and> failures_undone d'"
        using ended_node_undone [OF s3 _ _ pending that(1)] that(2) k by (simp add: undone_def)
      moreover have "rolled_ids ?d2 = rolled_ids ?d" using n(2,3) by (auto simp: rolled_ids_def st_def)
      ultimately show ?thesis using that(2) done2(1) by (simp add: undone_def)
    qed
    show ?thesis
    proof (cases "tn_rollback_policy n \<in> {''compensate'', ''cascade''}")
      case True
      then have "\<not> quiet ex" using q by auto
      moreover have "\<exists>r'. dispatch_node err fn node r ex w = (Inr r', ex\<lparr>ex_dag := d', ex_rolled_back := ex_rolled_back ex @ ids\<rparr>, w1) \<and>
          sr_is_terminal r' = sr_is_terminal r"
        using True m1 m2 fn Inl rb(1) by (auto simp: dispatch_node_def Let_def)
      ultimately show ?thesis using r3 u3 by fastforce
    next
      case False
      then have "\<exists>r'. dispatch_node err fn node r ex w = (Inr r', ex\<lparr>ex_dag := ?d2\<rparr>, w1) \<and> sr_is_terminal r' = sr_is_terminal r"
        using m1 m2 fn Inl by (simp add: dispatch_node_def Let_def)
      then show ?thesis using r2 q u2 False by fastforce
    qed
  qed
qed

section \<open>One step\<close>

lemma ran_compose:
  assumes "ran c A d d1" "ran c B d1 d2" "A \<inter> B = {}"
  shows "ran c (A \<union> B) d d2"
proof -
  have shape: "same_shape d d2" using assms(1,2) same_shape_trans by (auto simp: ran_def)
  have "if k \<in> A \<union> B then st d k = Some N_pending \<and> st d2 k \<in> Some ` (if c then {N_completed} else {N_completed, N_failed, N_rolled_back})
      else st d2 k = st d k \<or> \<not> c \<and> st d k = Some N_completed \<and> st d2 k = Some N_rolled_back" for k
    using assms(1,2) [unfolded ran_def, THEN conjunct2, rule_format, of k] assms(3) by (auto split: if_splits)
  with shape show ?thesis unfolding ran_def by blast
qed

lemma dispatch_nodes_run:
  "dag_ok (ex_dag ex) \<Longrightarrow> distinct (map tn_node_id ns) \<Longrightarrow> \<forall>n\<in>set ns. st (ex_dag ex) (tn_node_id n) = Some N_pending \<Longrightarrow>
   \<exists>r' ex' w'. dispatch_nodes err fn ns r ex w = (Inr r', ex', w') \<and> sr_is_terminal r' = sr_is_terminal r \<and>
     ran (never_raises fn) (set (map tn_node_id ns)) (ex_dag ex) (ex_dag ex') \<and>
     ((\<forall>n\<in>set ns. \<forall>u. edge (dg_edges (ex_dag ex)) u (tn_node_id n) \<longrightarrow> st (ex_dag ex) u \<noteq> Some N_pending) \<longrightarrow> undone ex \<longrightarrow> undone ex') \<and>
     (quiet ex \<longrightarrow> quiet ex')"
proof (induction ns arbitrary: r ex w)
  case Nil
  then show ?case by (simp add: ran_def)
next
  case (Cons n ns)
  from dispatch_node_runs [OF Cons.prems(1), of n err fn r w] Cons.prems(3)
  obtain r1 ex1 w1 where s: "dispatch_node err fn n r ex w = (Inr r1, ex1, w1)" "sr_is_terminal r1 = sr_is_terminal r"
    "ran (never_raises fn) {tn_node_id n} (ex_dag ex) (ex_dag ex1)"
    and undone1: "(\<forall>u. edge (dg_edges (ex_dag ex)) u (tn_node_id n) \<longrightarrow> st (ex_dag ex) u \<noteq> Some N_pending) \<longrightarrow> undone ex \<longrightarrow> undone ex1"
    and quiet1: "quiet ex \<longrightarrow> quiet ex1" by auto
  have e1: "dg_edges (ex_dag ex1) = dg_edges (ex_dag ex)" using s(3) by (simp add: ran_def same_shape_def)
  have np: "st (ex_dag ex1) u \<noteq> Some N_pending" if "st (ex_dag ex) u \<noteq> Some N_pending" for u
    using s(3) [unfolded ran_def, THEN conjunct2, rule_format, of u] that by (auto split: if_splits)
  have ok: "dag_ok (ex_dag ex1)" using s(3) same_shape_ok(1) [OF _ Cons.prems(1)] by (simp add: ran_def)
  have "st (ex_dag ex1) (tn_node_id m) = Some N_pending" if "m \<in> set ns" for m
  proof -
    have "tn_node_id m \<noteq> tn_node_id n" using that Cons.prems(2) by auto (metis imageI)
    then show ?thesis using s(3) [unfolded ran_def, THEN conjunct2, rule_format, of "tn_node_id m"] that Cons.prems(3) by simp
  qed
  then have all: "\<forall>m\<in>set ns. st (ex_dag ex1) (tn_node_id m) = Some N_pending" by blast
  have "distinct (map tn_node_id ns)" using Cons.prems(2) by simp
  from Cons.IH [OF ok this all, of r1 w1]
  obtain r2 ex2 w2 where t: "dispatch_nodes err fn ns r1 ex1 w1 = (Inr r2, ex2, w2)" "sr_is_terminal r2 = sr_is_terminal r1"
    "ran (never_raises fn) (set (map tn_node_id ns)) (ex_dag ex1) (ex_dag ex2)"
    and undone2: "(\<forall>n\<in>set ns. \<forall>u. edge (dg_edges (ex_dag ex1)) u (tn_node_id n) \<longrightarrow> st (ex_dag ex1) u \<noteq> Some N_pending) \<longrightarrow> undone ex1 \<longrightarrow> undone ex2"
    and quiet2: "quiet ex1 \<longrightarrow> quiet ex2"
    by (elim exE conjE) (rule that; assumption)
  have "ran (never_raises fn) ({tn_node_id n} \<union> set (map tn_node_id ns)) (ex_dag ex) (ex_dag ex2)"
    by (rule ran_compose [OF s(3) t(3)]) (use Cons.prems(2) in auto)
  then show ?case using s t undone1 undone2 quiet1 quiet2 np unfolding e1 by simp
qed

definition pending_ids :: "'c task_dag \<Rightarrow> string set" where
  "pending_ids d = {k. st d k = Some N_pending}"

lemma finite_pending: "finite (pending_ids d)"
  by (rule finite_subset [of _ "set (node_ids d)"]) (auto simp: pending_ids_def st_def known_iff)

lemma ready_batch:
  assumes "dag_ok d" "get_ready_nodes d = Inr ready"
  shows "distinct (map tn_node_id ready)" "\<forall>n\<in>set ready. st d (tn_node_id n) = Some N_pending"
proof -
  have wf: "dag_wf d" "linked d" using assms(1) by (simp_all add: dag_ok_def acyclic_dag_def)
  let ?P = "\<lambda>n. tn_state n = N_pending \<and> (\<forall>k. edge (dg_edges d) k (tn_node_id n) \<longrightarrow> completed_id d k)"
  have r: "ready = filter ?P (map snd (dg_nodes d))" using get_ready_nodes_filter [OF wf] assms(2) by simp
  have dist: "distinct (map fst (dg_nodes d))" using wf(1) by (simp add: dag_wf_def node_ids_def)
  have "map tn_node_id (map snd (dg_nodes d)) = map fst (dg_nodes d)"
  proof -
    have "tn_node_id (snd e) = fst e" if "e \<in> set (dg_nodes d)" for e
    proof -
      have "map_of (dg_nodes d) (fst e) = Some (snd e)" using dist that by (simp add: map_of_eq_Some_iff)
      then show ?thesis using wf(2) by (simp add: linked_def)
    qed
    then show ?thesis by simp
  qed
  then have "distinct (map tn_node_id (map snd (dg_nodes d)))" using dist by (simp only:)
  then show "distinct (map tn_node_id ready)" unfolding r by (rule distinct_map_filter)
  show "\<forall>n\<in>set ready. st d (tn_node_id n) = Some N_pending"
    using linked_deps [OF wf] by (auto simp: r st_def)
qed

lemma no_ready_if_complete:
  assumes "dag_ok d" "is_complete d"
  shows "get_ready_nodes d = Inr []"
proof -
  have "tn_state n \<noteq> N_pending" if "n \<in> set (map snd (dg_nodes d))" for n
    using assms(2) that by (auto simp: is_complete_def list_all_iff)
  then show ?thesis using get_ready_nodes_filter [of d] assms(1) by (auto simp: dag_ok_def acyclic_dag_def filter_empty_conv)
qed

lemma running_iff: "dag_ok d \<Longrightarrow> has_running d \<longleftrightarrow> (\<exists>k. st d k = Some N_running)"
proof -
  assume "dag_ok d"
  then have "distinct (map fst (dg_nodes d))" by (simp add: dag_ok_def acyclic_dag_def dag_wf_def node_ids_def)
  then have "(k, n) \<in> set (dg_nodes d) \<longleftrightarrow> map_of (dg_nodes d) k = Some n" for k n by (simp add: map_of_eq_Some_iff)
  then show ?thesis by (auto simp: has_running_def list_ex_iff st_def)
qed

text \<open>A step either finds nothing to do, or runs the ready batch and is terminal exactly when nothing is left to run, or when
  nothing has failed and all is done.\<close>

lemma dag_step_cases:
  assumes ok: "dag_ok (ex_dag ex)" and nr: "\<not> has_running (ex_dag ex)"
    and step: "dag_step err fn ex w = (res, ex', w')"
  shows "\<exists>r. res = Inr r \<and> dag_ok (ex_dag ex') \<and> \<not> has_running (ex_dag ex') \<and> pending_ids (ex_dag ex') \<subseteq> pending_ids (ex_dag ex) \<and>
    same_shape (ex_dag ex) (ex_dag ex') \<and>
    (sr_is_terminal r \<longrightarrow> get_ready_nodes (ex_dag ex') = Inr []) \<and>
    (\<not> sr_is_terminal r \<longrightarrow> pending_ids (ex_dag ex') \<subset> pending_ids (ex_dag ex)) \<and>
    (never_raises fn \<longrightarrow> (\<forall>k. st (ex_dag ex') k = st (ex_dag ex) k \<or> st (ex_dag ex) k = Some N_pending \<and> st (ex_dag ex') k = Some N_completed)) \<and>
    (undone ex \<longrightarrow> undone ex') \<and> (quiet ex \<longrightarrow> quiet ex')"
proof -
  have wf: "dag_wf (ex_dag ex)" "linked (ex_dag ex)" using ok by (simp_all add: dag_ok_def acyclic_dag_def)
  obtain ready where ready: "get_ready_nodes (ex_dag ex) = Inr ready" using get_ready_nodes_filter [OF wf] by blast
  show ?thesis
  proof (cases "ready = []")
    case True
    then have "res = Inr \<lparr>sr_dispatched = [], sr_completed = [], sr_failed = [], sr_is_terminal = True\<rparr> \<and> ex' = ex"
      using step ready nr by (simp add: dag_step_def Let_def)
    then show ?thesis using ok nr ready True by simp
  next
    case False
    let ?r0 = "\<lparr>sr_dispatched = [], sr_completed = [], sr_failed = [], sr_is_terminal = False\<rparr>"
    from dispatch_nodes_run [OF ok ready_batch [OF ok ready], of err fn ?r0 w]
    obtain r ex1 w1 where d: "dispatch_nodes err fn ready ?r0 ex w = (Inr r, ex1, w1)" "\<not> sr_is_terminal r"
      and ran: "ran (never_raises fn) (set (map tn_node_id ready)) (ex_dag ex) (ex_dag ex1)"
      and undone1: "(\<forall>n\<in>set ready. \<forall>u. edge (dg_edges (ex_dag ex)) u (tn_node_id n) \<longrightarrow> st (ex_dag ex) u \<noteq> Some N_pending) \<longrightarrow> undone ex \<longrightarrow> undone ex1"
      and quiet1: "quiet ex \<longrightarrow> quiet ex1"
      by (elim exE conjE) (rule that; (assumption | simp))
    have "\<forall>n\<in>set ready. \<forall>u. edge (dg_edges (ex_dag ex)) u (tn_node_id n) \<longrightarrow> st (ex_dag ex) u \<noteq> Some N_pending"
      using get_ready_nodes_filter [OF wf] ready by (auto simp: completed_id_def st_def split: option.splits)
    with undone1 have undone1: "undone ex \<longrightarrow> undone ex1" by blast
    let ?d = "ex_dag ex" and ?d1 = "ex_dag ex1"
    have shape: "same_shape ?d ?d1" using ran by (simp add: ran_def)
    have ok1: "dag_ok ?d1" by (rule same_shape_ok(1) [OF shape ok])
    note at = ran [unfolded ran_def, THEN conjunct2, rule_format]
    have nr1: "\<not> has_running ?d1"
    proof
      assume "has_running ?d1"
      then obtain k where "st ?d1 k = Some N_running" using running_iff [OF ok1] by blast
      with at [of k] have "st ?d k = Some N_running" by (auto split: if_splits)
      with nr running_iff [OF ok] show False by blast
    qed
    have sub: "pending_ids ?d1 \<subseteq> pending_ids ?d - set (map tn_node_id ready)"
    proof
      fix k
      assume "k \<in> pending_ids ?d1"
      then show "k \<in> pending_ids ?d - set (map tn_node_id ready)" using at [of k] by (auto simp: pending_ids_def split: if_splits)
    qed
    obtain n where n: "n \<in> set ready" using False by (cases ready) auto
    have "tn_node_id n \<in> pending_ids ?d" using ready_batch(2) [OF ok ready] n by (simp add: pending_ids_def)
    with sub n have strict: "pending_ids ?d1 \<subset> pending_ids ?d" by auto
    have clean: "never_raises fn \<longrightarrow> (\<forall>k. st ?d1 k = st ?d k \<or> st ?d k = Some N_pending \<and> st ?d1 k = Some N_completed)"
    proof (intro impI allI)
      fix k
      assume "never_raises fn"
      then show "st ?d1 k = st ?d k \<or> st ?d k = Some N_pending \<and> st ?d1 k = Some N_completed" using at [of k] by (auto split: if_splits)
    qed
    obtain ready' where ready': "get_ready_nodes ?d1 = Inr ready'"
      using get_ready_nodes_filter [of ?d1] ok1 by (auto simp: dag_ok_def acyclic_dag_def)
    have "\<exists>r'. res = Inr r' \<and> ex_dag ex' = ?d1 \<and> ex_rolled_back ex' = ex_rolled_back ex1 \<and> (sr_is_terminal r' \<longrightarrow> is_complete ?d1 \<or> ready' = [])"
      using step ready False d ready' by (auto simp: dag_step_def Let_def split: if_splits)
    moreover from this have "undone ex1 = undone ex' \<and> quiet ex1 = quiet ex'" by (auto simp: undone_def quiet_def)
    ultimately show ?thesis using ok1 nr1 strict shape clean ready' no_ready_if_complete [OF ok1] undone1 quiet1 by fastforce
  qed
qed

section \<open>The loop\<close>

definition settles :: "bool \<Rightarrow> 'c task_dag \<Rightarrow> 'c task_dag \<Rightarrow> bool" where
  "settles clean d d' = (dag_ok d' \<and> \<not> has_running d' \<and> get_ready_nodes d' = Inr [] \<and> same_shape d d' \<and>
     (clean \<longrightarrow> (\<forall>k. st d' k = st d k \<or> st d k = Some N_pending \<and> st d' k = Some N_completed)))"

lemma run_loop_ends:
  "dag_ok (ex_dag ex) \<Longrightarrow> \<not> has_running (ex_dag ex) \<Longrightarrow> card (pending_ids (ex_dag ex)) < fuel \<Longrightarrow>
   \<exists>steps ex' w'. run_loop fuel err fn n ex w = Some (Inr steps, ex', w') \<and> steps \<le> Suc (n + card (pending_ids (ex_dag ex))) \<and>
     settles (never_raises fn) (ex_dag ex) (ex_dag ex') \<and> (undone ex \<longrightarrow> undone ex') \<and> (quiet ex \<longrightarrow> quiet ex')"
proof (induction fuel arbitrary: n ex w)
  case (Suc fuel)
  obtain res ex1 w1 where step: "dag_step err fn ex w = (res, ex1, w1)" by (metis prod_cases3)
  from dag_step_cases [OF Suc.prems(1,2) step] obtain r where r: "res = Inr r" "dag_ok (ex_dag ex1)" "\<not> has_running (ex_dag ex1)"
    "same_shape (ex_dag ex) (ex_dag ex1)" "sr_is_terminal r \<longrightarrow> get_ready_nodes (ex_dag ex1) = Inr []"
    "\<not> sr_is_terminal r \<longrightarrow> pending_ids (ex_dag ex1) \<subset> pending_ids (ex_dag ex)"
    and clean: "never_raises fn \<longrightarrow> (\<forall>k. st (ex_dag ex1) k = st (ex_dag ex) k \<or> st (ex_dag ex) k = Some N_pending \<and> st (ex_dag ex1) k = Some N_completed)"
    and keeps: "undone ex \<longrightarrow> undone ex1" "quiet ex \<longrightarrow> quiet ex1"
    by (elim exE conjE) (rule that; assumption)
  show ?case
  proof (cases "sr_is_terminal r")
    case True
    then show ?thesis using step r clean keeps by (simp add: settles_def)
  next
    case False
    then have less: "card (pending_ids (ex_dag ex1)) < card (pending_ids (ex_dag ex))"
      using r(6) psubset_card_mono [OF finite_pending] by blast
    then have "card (pending_ids (ex_dag ex1)) < fuel" using Suc.prems(3) by simp
    from Suc.IH [OF r(2,3) this, of "Suc n" w1] obtain steps ex2 w2 where
      l: "run_loop fuel err fn (Suc n) ex1 w1 = Some (Inr steps, ex2, w2)" "steps \<le> Suc (Suc n + card (pending_ids (ex_dag ex1)))"
        "settles (never_raises fn) (ex_dag ex1) (ex_dag ex2)" "undone ex1 \<longrightarrow> undone ex2" "quiet ex1 \<longrightarrow> quiet ex2" by blast
    have "settles (never_raises fn) (ex_dag ex) (ex_dag ex2)"
      using l(3) clean same_shape_trans [OF r(4)] unfolding settles_def by (metis (no_types, lifting))
    then show ?thesis using step r(1) False l(1,2,4,5) keeps less by auto
  qed
qed simp

lemma settled_clean:
  assumes "settles True d d'" "\<forall>n\<in>set (map snd (dg_nodes d)). tn_state n \<in> {N_pending, N_completed}"
  shows "is_complete d'" "\<forall>(k, n)\<in>set (dg_nodes d'). tn_state n = N_completed"
proof -
  have ok: "dag_ok d'" and shape: "same_shape d d'" using assms(1) by (simp_all add: settles_def)
  have dist: "distinct (map fst (dg_nodes d'))" using ok by (simp add: dag_ok_def acyclic_dag_def dag_wf_def node_ids_def)
  have all: "tn_state n \<in> {N_pending, N_completed}" if "(k, n) \<in> set (dg_nodes d')" for k n
  proof -
    have k: "st d' k = Some (tn_state n)" using that dist by (simp add: st_def map_of_eq_Some_iff)
    then have "k \<in> set (node_ids d)" using shape known_iff [of k d'] by (auto simp: st_def same_shape_def)
    then obtain m where m: "map_of (dg_nodes d) k = Some m" by (auto simp: known_iff)
    then have "tn_state m \<in> {N_pending, N_completed}" using assms(2) map_of_SomeD [OF m] by force
    moreover have "st d k = Some (tn_state m)" using m by (simp add: st_def)
    ultimately show ?thesis using assms(1) k by (auto simp: settles_def) (metis option.inject)+
  qed
  show c: "is_complete d'"
  proof (rule ccontr)
    assume "\<not> is_complete d'"
    moreover have "\<forall>n\<in>set (map snd (dg_nodes d')). tn_state n \<in> {N_pending, N_completed}" using all by fastforce
    ultimately obtain n rest where "get_ready_nodes d' = Inr (n # rest)" using some_ready [OF ok] by blast
    then show False using assms(1) by (simp add: settles_def)
  qed
  show "\<forall>(k, n)\<in>set (dg_nodes d'). tn_state n = N_completed"
    using all c by (force simp: is_complete_def list_all_iff)
qed

lemma ids_all_in_state:
  "\<forall>(k, n)\<in>set (dg_nodes d). tn_state n = s \<Longrightarrow> ids_in_state s d = node_ids d \<and> (s' \<noteq> s \<longrightarrow> ids_in_state s' d = [])"
proof -
  assume "\<forall>(k, n)\<in>set (dg_nodes d). tn_state n = s"
  then have "filter (\<lambda>(k, n). tn_state n = s) (dg_nodes d) = dg_nodes d" "s' \<noteq> s \<longrightarrow> filter (\<lambda>(k, n). tn_state n = s') (dg_nodes d) = []"
    by (auto simp: filter_id_conv filter_empty_conv)
  then show ?thesis by (simp add: ids_in_state_def node_ids_def)
qed

lemma fresh_undone:
  assumes "dag_ok d" "\<forall>n\<in>set (map snd (dg_nodes d)). tn_state n = N_pending"
  shows "undone (mk_dag_executor d cb)"
proof -
  have pending: "tn_state n = N_pending" if "map_of (dg_nodes d) k = Some n" for k n
    using assms(2) map_of_SomeD [OF that] by force
  have "st d k = Some N_pending" if "edge (dg_edges d) u k" for u k
  proof -
    have "k \<in> set (node_ids d)" using assms(1) that by (auto simp: dag_ok_def acyclic_dag_def dag_wf_def)
    then show ?thesis using pending by (auto simp: known_iff st_def)
  qed
  then have "coherent d" by (auto simp: coherent_def)
  moreover have "failures_undone d" using pending by (force simp: failures_undone_def)
  moreover have "rolled_ids d = {}" using pending by (force simp: rolled_ids_def st_def)
  ultimately show ?thesis by (simp add: undone_def mk_dag_executor_def)
qed

lemma fresh_quiet:
  "\<forall>n\<in>set (map snd (dg_nodes d)). tn_rollback_policy n = ''none'' \<Longrightarrow> quiet (mk_dag_executor d cb)"
  by (force simp: quiet_def mk_dag_executor_def dest: map_of_SomeD)

text \<open>C22. On a graph built by the graph's own operations, whatever rollback policies its nodes have, and with no node left
  running, run_to_completion ends, whatever a callback that leaves the graph alone returns or raises: after at most one step per
  node and one more, with no error, no node running and none that could still run. When no callback raises and the nodes were
  pending or completed, it reports success with every node completed. When every node was pending at the start, the nodes reported
  as rolled back are exactly those in that state, no direct dependency of a failed node with the policy \<open>compensate\<close> and no
  ancestor of one with \<open>cascade\<close> is still completed; and when every policy is \<open>none\<close>, nothing is rolled back.\<close>

theorem run_to_completion_ends:
  assumes "length ops \<le> depth" "d = dag_after depth ops" "\<not> has_running d" "length (dg_nodes d) < fuel"
  shows "\<exists>res ex' w'. run_to_completion fuel err fn (mk_dag_executor d cb) w = Some (Inr res, ex', w') \<and>
    dr_total_steps res \<le> Suc (length (dg_nodes d)) \<and> get_ready_nodes (ex_dag ex') = Inr [] \<and> \<not> has_running (ex_dag ex') \<and>
    node_ids (ex_dag ex') = node_ids d \<and>
    (never_raises fn \<and> (\<forall>n\<in>set (map snd (dg_nodes d)). tn_state n \<in> {N_pending, N_completed}) \<longrightarrow>
       dr_success res \<and> dr_completed_nodes res = node_ids d \<and> dr_failed_nodes res = []) \<and>
    ((\<forall>n\<in>set (map snd (dg_nodes d)). tn_state n = N_pending) \<longrightarrow>
       set (dr_rolled_back_nodes res) = {k. st (ex_dag ex') k = Some N_rolled_back} \<and>
       (\<forall>k n. map_of (dg_nodes (ex_dag ex')) k = Some n \<and> tn_state n = N_failed \<longrightarrow>
         (tn_rollback_policy n = ''compensate'' \<longrightarrow> (\<forall>u. edge (dg_edges d) u k \<longrightarrow> st (ex_dag ex') u \<noteq> Some N_completed)) \<and>
         (tn_rollback_policy n = ''cascade'' \<longrightarrow> (\<forall>u. (edge (dg_edges d))\<^sup>+\<^sup>+ u k \<longrightarrow> st (ex_dag ex') u \<noteq> Some N_completed)))) \<and>
    ((\<forall>n\<in>set (map snd (dg_nodes d)). tn_rollback_policy n = ''none'') \<longrightarrow> dr_rolled_back_nodes res = [])"
proof -
  let ?ex = "mk_dag_executor d cb"
  have ok: "dag_ok d" using dag_after_ok [OF assms(1)] assms(2) by simp
  have "card (pending_ids d) \<le> card (set (node_ids d))" by (rule card_mono) (auto simp: pending_ids_def st_def known_iff)
  then have card: "card (pending_ids d) \<le> length (dg_nodes d)" by (metis card_length le_trans length_map node_ids_def)
  have dag: "ex_dag ?ex = d" by (simp add: mk_dag_executor_def)
  have "card (pending_ids (ex_dag ?ex)) < fuel" using card assms(4) dag by simp
  from run_loop_ends [of ?ex, unfolded dag, OF ok assms(3) this [unfolded dag], of err fn 0 w] obtain steps ex' w' where
    l: "run_loop fuel err fn 0 ?ex w = Some (Inr steps, ex', w')" "steps \<le> Suc (0 + card (pending_ids d))" "settles (never_raises fn) d (ex_dag ex')"
      "undone ?ex \<longrightarrow> undone ex'" "quiet ?ex \<longrightarrow> quiet ex'"
    by (elim exE conjE) (rule that; assumption)
  have clean: "is_complete (ex_dag ex') \<and> ids_in_state N_completed (ex_dag ex') = node_ids (ex_dag ex') \<and> ids_in_state N_failed (ex_dag ex') = []"
    if "never_raises fn" "\<forall>n\<in>set (map snd (dg_nodes d)). tn_state n \<in> {N_pending, N_completed}"
    using settled_clean [of d "ex_dag ex'"] l(3) that ids_all_in_state [of "ex_dag ex'" N_completed N_failed] by simp
  have shape: "dg_edges (ex_dag ex') = dg_edges d" "node_ids (ex_dag ex') = node_ids d" using l(3) by (simp_all add: settles_def same_shape_def)
  have rolled: "undone ex'" if "\<forall>n\<in>set (map snd (dg_nodes d)). tn_state n = N_pending"
    using l(4) fresh_undone [OF ok that, of cb] by blast
  have quiet: "ex_rolled_back ex' = []" if "\<forall>n\<in>set (map snd (dg_nodes d)). tn_rollback_policy n = ''none''"
    using l(5) fresh_quiet [OF that, of cb] by (simp add: quiet_def)
  have r: "run_to_completion fuel err fn ?ex w = Some (Inr \<lparr>dr_success = is_complete (ex_dag ex'),
      dr_completed_nodes = ids_in_state N_completed (ex_dag ex'), dr_failed_nodes = ids_in_state N_failed (ex_dag ex'),
      dr_rolled_back_nodes = ex_rolled_back ex', dr_total_steps = steps\<rparr>, ex', w')"
    by (simp add: run_to_completion_def l(1))
  show ?thesis
    unfolding r
  proof (intro exI conjI impI)
    assume "\<forall>n\<in>set (map snd (dg_nodes d)). tn_state n = N_pending"
    note u = rolled [OF this, unfolded undone_def failures_undone_def undone_for_def shape(1)]
    show "set (dr_rolled_back_nodes \<lparr>dr_success = is_complete (ex_dag ex'),
      dr_completed_nodes = ids_in_state N_completed (ex_dag ex'), dr_failed_nodes = ids_in_state N_failed (ex_dag ex'),
      dr_rolled_back_nodes = ex_rolled_back ex', dr_total_steps = steps\<rparr>) = {k. st (ex_dag ex') k = Some N_rolled_back}"
      using u by (simp add: rolled_ids_def)
    show "\<forall>k n. map_of (dg_nodes (ex_dag ex')) k = Some n \<and> tn_state n = N_failed \<longrightarrow>
         (tn_rollback_policy n = ''compensate'' \<longrightarrow> (\<forall>u. edge (dg_edges d) u k \<longrightarrow> st (ex_dag ex') u \<noteq> Some N_completed)) \<and>
         (tn_rollback_policy n = ''cascade'' \<longrightarrow> (\<forall>u. (edge (dg_edges d))\<^sup>+\<^sup>+ u k \<longrightarrow> st (ex_dag ex') u \<noteq> Some N_completed))"
      using u by blast
  qed (use l(2,3) card clean quiet shape in \<open>auto simp: settles_def\<close>)
qed

text \<open>A node that is running when the executor starts is waited for by a loop that does nothing: when no other node is ready
  and none has failed, run_to_completion never returns, however many steps it takes.\<close>

lemma running_node_is_awaited_forever:
  assumes "has_running d" "get_ready_nodes d = Inr []" "\<not> is_failed d"
  shows "run_to_completion fuel err fn (mk_dag_executor d cb) w = None"
proof -
  have nc: "\<not> is_complete d" using assms(1) by (force simp: has_running_def is_complete_def list_all_iff list_ex_iff)
  have "run_loop fuel err fn n ex w = None" if "ex_dag ex = d" for n ex
    using that
  proof (induction fuel arbitrary: n ex)
    case (Suc fuel)
    then show ?case using assms nc by (simp add: dag_step_def Let_def)
  qed simp
  then show ?thesis by (simp add: run_to_completion_def mk_dag_executor_def)
qed

section \<open>Concrete runs\<close>

definition branching :: "unit dag_op list" where
  "branching = [AddNode ''D'' () 2 ''none'', AddNode ''A'' () 2 ''compensate'', AddNode ''B'' () 2 ''cascade'', AddEdge ''D'' ''A'', AddEdge ''D'' ''B'']"

text \<open>The callback of a run whose second node fails.\<close>

definition fails_on :: "string \<Rightarrow> (unit, string list) execute_fn" where
  "fails_on k w n = (if tn_node_id n = k then Inl ''boom'' else Inr JNull, w @ [tn_node_id n])"

theorem run_to_completion_ends_witness:
  "\<exists>res ex' w'. run_to_completion 4 (\<lambda>_. '''') default_execute (mk_dag_executor (dag_after 1000 branching) True) () = Some (Inr res, ex', w') \<and>
     dr_success res \<and> dr_completed_nodes res = [''D'', ''A'', ''B'']"
proof -
  have c: "\<not> has_running (dag_after 1000 branching) \<and> length (dg_nodes (dag_after 1000 branching)) < 4 \<and>
      list_all (\<lambda>n. tn_state n = N_pending) (map snd (dg_nodes (dag_after 1000 branching))) \<and>
      node_ids (dag_after 1000 branching) = [''D'', ''A'', ''B'']"
    by code_simp
  have len: "length branching \<le> 1000" by (simp add: branching_def)
  have nr: "never_raises (default_execute :: (unit, unit) execute_fn)" by (simp add: never_raises_def default_execute_def)
  have "\<forall>n\<in>set (map snd (dg_nodes (dag_after 1000 branching))). tn_state n \<in> {N_pending, N_completed}" using c by (auto simp: list_all_iff)
  with run_to_completion_ends [OF len refl, where fuel = 4 and err = "\<lambda>_. ''''" and cb = True and w = "()" and fn = default_execute] c nr
  show ?thesis by auto
qed

text \<open>A node of a batch runs although an earlier node of the batch has failed and rolled their common dependency back: the
  batch is fixed when the step starts.\<close>

lemma batch_runs_after_rollback:
  "(case run_to_completion 4 (\<lambda>_. '''') (fails_on ''A'') (mk_dag_executor (dag_after 1000 branching) False) [] of
      Some (Inr res, ex', w') \<Rightarrow> w' = [''D'', ''A'', ''B''] \<and> dr_rolled_back_nodes res = [''D''] \<and> dr_completed_nodes res = [''B''] \<and>
        dr_failed_nodes res = [''A''] \<and> \<not> dr_success res
    | _ \<Rightarrow> False)"
  by code_simp

end
