(* ===== verification/Run_Store.thy ===== *)
theory Run_Store
  imports Posture_Model
begin

text \<open>
  The durable run records of \<open>hi_agent/server/run_store.py\<close> and the run events of \<open>hi_agent/server/event_store.py\<close>: the two
  tables, every method that reads or writes them, and the context (\<open>hi_agent/context/run_execution_context.py\<close>) from which
  writers fill identity fields. A method runs under the store's lock and is one function on the table; the
  clock and the posture variable are arguments, exceptions left values. Rows read back are rebuilt as records, so the
  constructor's check applies to them too. \<open>ORDER BY\<close> ties follow the rowid.
\<close>

record run_execution_context =
  xc_tenant_id :: string
  xc_user_id :: string
  xc_session_id :: string
  xc_project_id :: string
  xc_profile_id :: string
  xc_run_id :: string
  xc_parent_run_id :: string
  xc_attempt_id :: string
  xc_phase_id :: string
  xc_stage_id :: string
  xc_capability_name :: string
  xc_request_id :: string

definition with_stage :: "string \<Rightarrow> run_execution_context \<Rightarrow> run_execution_context" where
  "with_stage stage_id c = c\<lparr>xc_stage_id := stage_id\<rparr>"

definition with_capability :: "string \<Rightarrow> run_execution_context \<Rightarrow> run_execution_context" where
  "with_capability capability_name c = c\<lparr>xc_capability_name := capability_name\<rparr>"

definition with_phase :: "string \<Rightarrow> run_execution_context \<Rightarrow> run_execution_context" where
  "with_phase phase_id c = c\<lparr>xc_phase_id := phase_id\<rparr>"

definition with_attempt :: "string \<Rightarrow> string \<Rightarrow> run_execution_context \<Rightarrow> run_execution_context" where
  "with_attempt attempt_id parent_run_id c =
     (let parent = (if parent_run_id \<noteq> '''' then parent_run_id else if xc_run_id c \<noteq> '''' then xc_run_id c else xc_parent_run_id c)
      in c\<lparr>xc_attempt_id := attempt_id, xc_parent_run_id := parent\<rparr>)"

datatype run_store_error =
    Run_scope_error string
  | Run_posture posture_error
  | Run_incomplete "string list"
  | Run_workspace_required

text \<open>The names in a list of required fields that are empty, and what the constructor of a record makes of them.\<close>

definition missing_fields :: "(string \<times> string) list \<Rightarrow> string list" where
  "missing_fields required = map fst (filter (\<lambda>f. snd f = '''') required)"

definition spine_check :: "string option \<Rightarrow> string list \<Rightarrow> run_store_error option" where
  "spine_check env missing =
     (case posture_from_env env of
        Inl e \<Rightarrow> Some (Run_posture e)
      | Inr posture \<Rightarrow> if missing \<noteq> [] \<and> is_strict posture then Some (Run_incomplete missing) else None)"

section \<open>Run records\<close>

record run_record =
  rr_run_id :: string
  rr_tenant_id :: string
  rr_user_id :: string
  rr_session_id :: string
  rr_task_contract_json :: string
  rr_status :: string
  rr_priority :: int
  rr_attempt_count :: int
  rr_cancellation_flag :: bool
  rr_result_summary :: string
  rr_error_summary :: string
  rr_created_at :: real
  rr_updated_at :: real
  rr_project_id :: string
  rr_finished_at :: real
  rr_parent_run_id :: string
  rr_attempt_id :: string
  rr_phase_id :: string

record run_store =
  rs_rows :: "run_record list"

definition run_record_post_init :: "string option \<Rightarrow> run_record \<Rightarrow> run_store_error option" where
  "run_record_post_init env r = spine_check env (missing_fields [(''run_id'', rr_run_id r), (''tenant_id'', rr_tenant_id r)])"

definition check_run_store_tenant_scope :: "string option \<Rightarrow> string option \<Rightarrow> string \<Rightarrow> run_store_error + string option" where
  "check_run_store_tenant_scope env workspace meth =
     (if py_strip (str_or workspace) \<noteq> '''' then Inr workspace
      else case posture_from_env env of
        Inl e \<Rightarrow> Inl (Run_posture e)
      | Inr posture \<Rightarrow> if is_strict posture then Inl (Run_scope_error meth) else Inr None)"

definition record_owned_by :: "string option \<Rightarrow> run_record \<Rightarrow> bool" where
  "record_owned_by workspace r = (case workspace of None \<Rightarrow> True | Some w \<Rightarrow> rr_tenant_id r = w)"

text \<open>A scoped statement: the check, then one update of the rows of a run.\<close>

definition scoped_update ::
  "string option \<Rightarrow> string option \<Rightarrow> string \<Rightarrow> string \<Rightarrow> (run_record \<Rightarrow> run_record) \<Rightarrow> run_store \<Rightarrow> (run_store_error + unit) \<times> run_store" where
  "scoped_update env workspace meth run_id f s =
     (case check_run_store_tenant_scope env workspace meth of
        Inl e \<Rightarrow> (Inl e, s)
      | Inr effective \<Rightarrow> (Inr (), s\<lparr>rs_rows := sql_update (\<lambda>r. rr_run_id r = run_id \<and> record_owned_by effective r) f (rs_rows s)\<rparr>))"

text \<open>Rows become records one after the other; the first that the constructor rejects raises.\<close>

fun rows_to_records :: "string option \<Rightarrow> run_record list \<Rightarrow> run_store_error + run_record list" where
  "rows_to_records env [] = Inr []"
| "rows_to_records env (r # rows) =
     (case run_record_post_init env r of
        Some e \<Rightarrow> Inl e
      | None \<Rightarrow> (case rows_to_records env rows of Inl e \<Rightarrow> Inl e | Inr rs \<Rightarrow> Inr (r # rs)))"

definition row_or_none :: "string option \<Rightarrow> run_record option \<Rightarrow> run_store_error + run_record option" where
  "row_or_none env row = (case row of None \<Rightarrow> Inr None
     | Some r \<Rightarrow> (case run_record_post_init env r of Some e \<Rightarrow> Inl e | None \<Rightarrow> Inr (Some r)))"

definition upsert_fields :: "run_execution_context option \<Rightarrow> run_record \<Rightarrow> run_record" where
  "upsert_fields exec_ctx r =
     (case exec_ctx of None \<Rightarrow> r
      | Some c \<Rightarrow> r\<lparr>rr_tenant_id := (if rr_tenant_id r = '''' then xc_tenant_id c else rr_tenant_id r),
          rr_user_id := (if rr_user_id r \<in> {'''', ''__legacy__''} \<and> xc_user_id c \<noteq> '''' then xc_user_id c else rr_user_id r),
          rr_session_id := (if rr_session_id r \<in> {'''', ''__legacy__''} \<and> xc_session_id c \<noteq> '''' then xc_session_id c else rr_session_id r),
          rr_project_id := (if rr_project_id r = '''' then xc_project_id c else rr_project_id r),
          rr_run_id := (if rr_run_id r = '''' then xc_run_id c else rr_run_id r)\<rparr>)"

definition upsert :: "run_execution_context option \<Rightarrow> run_record \<Rightarrow> run_store \<Rightarrow> run_store" where
  "upsert exec_ctx record s = s\<lparr>rs_rows := sql_insert_replace rr_run_id (upsert_fields exec_ctx record) (rs_rows s)\<rparr>"

definition get_record :: "string option \<Rightarrow> string \<Rightarrow> string option \<Rightarrow> run_store \<Rightarrow> run_store_error + run_record option" where
  "get_record env run_id workspace s = row_or_none env (find (\<lambda>r. rr_run_id r = run_id \<and> record_owned_by workspace r) (rs_rows s))"

definition get_for_tenant :: "string option \<Rightarrow> string \<Rightarrow> string option \<Rightarrow> run_store \<Rightarrow> run_store_error + run_record option" where
  "get_for_tenant env run_id workspace s = (if workspace = None then Inl Run_workspace_required else get_record env run_id workspace s)"

definition list_by_tenant :: "string option \<Rightarrow> string \<Rightarrow> run_store \<Rightarrow> run_store_error + run_record list" where
  "list_by_tenant env tenant_id s = rows_to_records env (sort_key rr_created_at (filter (\<lambda>r. rr_tenant_id r = tenant_id) (rs_rows s)))"

definition get_by_workspace ::
  "string option \<Rightarrow> string \<Rightarrow> string \<Rightarrow> string \<Rightarrow> string \<Rightarrow> run_store \<Rightarrow> run_store_error + run_record option" where
  "get_by_workspace env run_id tenant_id user_id session_id s =
     row_or_none env (find (\<lambda>r. rr_run_id r = run_id \<and> rr_tenant_id r = tenant_id \<and> rr_user_id r = user_id \<and> rr_session_id r = session_id) (rs_rows s))"

definition list_by_workspace ::
  "string option \<Rightarrow> string \<Rightarrow> string \<Rightarrow> string option \<Rightarrow> run_store \<Rightarrow> run_store_error + run_record list" where
  "list_by_workspace env tenant_id user_id session_id s =
     rows_to_records env (rev (sort_key rr_created_at (rev (filter
       (\<lambda>r. rr_tenant_id r = tenant_id \<and> rr_user_id r = user_id \<and> (str_or session_id = '''' \<or> Some (rr_session_id r) = session_id)) (rs_rows s)))))"

definition list_runs_by_project :: "string option \<Rightarrow> string \<Rightarrow> string \<Rightarrow> run_store \<Rightarrow> run_store_error + run_record list" where
  "list_runs_by_project env tenant_id project_id s =
     rows_to_records env (sort_key rr_created_at (filter (\<lambda>r. rr_tenant_id r = tenant_id \<and> rr_project_id r = project_id) (rs_rows s)))"

definition list_pending :: "string option \<Rightarrow> run_store \<Rightarrow> run_store_error + run_record list" where
  "list_pending env s = rows_to_records env (sort_key rr_created_at (filter (\<lambda>r. rr_status r \<in> {''queued'', ''running''}) (rs_rows s)))"

definition store_mark_cancelled :: "string option \<Rightarrow> real \<Rightarrow> string \<Rightarrow> string option \<Rightarrow> run_store \<Rightarrow> (run_store_error + unit) \<times> run_store" where
  "store_mark_cancelled env now run_id workspace s = scoped_update env workspace ''mark_cancelled'' run_id
     (\<lambda>r. r\<lparr>rr_status := ''cancelled'', rr_cancellation_flag := True, rr_updated_at := now, rr_finished_at := now\<rparr>) s"

definition store_mark_complete ::
  "string option \<Rightarrow> real \<Rightarrow> string \<Rightarrow> string \<Rightarrow> string option \<Rightarrow> run_store \<Rightarrow> (run_store_error + unit) \<times> run_store" where
  "store_mark_complete env now run_id result_summary workspace s = scoped_update env workspace ''mark_complete'' run_id
     (\<lambda>r. r\<lparr>rr_status := ''completed'', rr_result_summary := result_summary, rr_updated_at := now, rr_finished_at := now\<rparr>) s"

definition store_mark_failed ::
  "string option \<Rightarrow> real \<Rightarrow> string \<Rightarrow> string \<Rightarrow> string option \<Rightarrow> run_store \<Rightarrow> (run_store_error + unit) \<times> run_store" where
  "store_mark_failed env now run_id error_summary workspace s = scoped_update env workspace ''mark_failed'' run_id
     (\<lambda>r. r\<lparr>rr_status := ''failed'', rr_error_summary := error_summary, rr_updated_at := now, rr_finished_at := now\<rparr>) s"

definition store_mark_running :: "string option \<Rightarrow> real \<Rightarrow> string \<Rightarrow> string option \<Rightarrow> run_store \<Rightarrow> (run_store_error + unit) \<times> run_store" where
  "store_mark_running env now run_id workspace s = scoped_update env workspace ''mark_running'' run_id
     (\<lambda>r. r\<lparr>rr_status := ''running'', rr_updated_at := now\<rparr>) s"

definition store_is_cancelled :: "string option \<Rightarrow> string \<Rightarrow> string option \<Rightarrow> run_store \<Rightarrow> run_store_error + bool" where
  "store_is_cancelled env run_id workspace s =
     (case check_run_store_tenant_scope env workspace ''is_cancelled'' of
        Inl e \<Rightarrow> Inl e
      | Inr effective \<Rightarrow> Inr (case find (\<lambda>r. rr_run_id r = run_id \<and> record_owned_by effective r) (rs_rows s) of
          None \<Rightarrow> False | Some r \<Rightarrow> rr_cancellation_flag r))"

definition delete_record :: "string option \<Rightarrow> string \<Rightarrow> string option \<Rightarrow> run_store \<Rightarrow> (run_store_error + unit) \<times> run_store" where
  "delete_record env run_id workspace s =
     (case check_run_store_tenant_scope env workspace ''delete'' of
        Inl e \<Rightarrow> (Inl e, s)
      | Inr effective \<Rightarrow> (Inr (), s\<lparr>rs_rows := sql_delete (\<lambda>r. rr_run_id r = run_id \<and> record_owned_by effective r) (rs_rows s)\<rparr>))"

section \<open>Run events\<close>

record stored_event =
  se_event_id :: string
  se_run_id :: string
  se_sequence :: int
  se_event_type :: string
  se_payload_json :: string
  se_tenant_id :: string
  se_user_id :: string
  se_session_id :: string
  se_trace_id :: string
  se_created_at :: real
  se_parent_run_id :: string
  se_attempt_id :: string
  se_phase_id :: string

text \<open>The table \<open>run_events\<close> in the order of its autoincremented \<open>id\<close>.\<close>

record event_store =
  es_rows :: "stored_event list"

definition stored_event_post_init :: "string option \<Rightarrow> stored_event \<Rightarrow> run_store_error option" where
  "stored_event_post_init env e =
     spine_check env (missing_fields [(''run_id'', se_run_id e), (''event_id'', se_event_id e), (''tenant_id'', se_tenant_id e)])"

definition event_fields :: "run_execution_context option \<Rightarrow> string option \<Rightarrow> stored_event \<Rightarrow> stored_event" where
  "event_fields exec_ctx trace event =
     (let over = (\<lambda>new old. if new \<noteq> '''' then new else old);
          e1 = (case exec_ctx of None \<Rightarrow> event
            | Some c \<Rightarrow> event\<lparr>se_tenant_id := over (xc_tenant_id c) (se_tenant_id event), se_user_id := over (xc_user_id c) (se_user_id event),
                se_session_id := over (xc_session_id c) (se_session_id event), se_run_id := over (xc_run_id c) (se_run_id event)\<rparr>)
      in if se_trace_id e1 = '''' then (case trace of None \<Rightarrow> e1 | Some t \<Rightarrow> e1\<lparr>se_trace_id := t\<rparr>) else e1)"

definition append_event :: "run_execution_context option \<Rightarrow> string option \<Rightarrow> stored_event \<Rightarrow> event_store \<Rightarrow> event_store" where
  "append_event exec_ctx trace event s = s\<lparr>es_rows := sql_insert_ignore se_event_id (event_fields exec_ctx trace event) (es_rows s)\<rparr>"

fun rows_to_events :: "string option \<Rightarrow> stored_event list \<Rightarrow> run_store_error + stored_event list" where
  "rows_to_events env [] = Inr []"
| "rows_to_events env (e # rows) =
     (case stored_event_post_init env e of
        Some err \<Rightarrow> Inl err
      | None \<Rightarrow> (case rows_to_events env rows of Inl err \<Rightarrow> Inl err | Inr es \<Rightarrow> Inr (e # es)))"

definition list_since ::
  "string option \<Rightarrow> string \<Rightarrow> int \<Rightarrow> int option \<Rightarrow> string option \<Rightarrow> string option \<Rightarrow> string option \<Rightarrow> event_store \<Rightarrow>
   run_store_error + stored_event list" where
  "list_since env run_id since_sequence last_id tenant_id user_id session_id s =
     (let threshold = (case last_id of Some n \<Rightarrow> n | None \<Rightarrow> since_sequence);
          wanted = (\<lambda>filt v. case filt of None \<Rightarrow> True | Some x \<Rightarrow> v = x) in
      rows_to_events env (sort_key se_sequence (filter (\<lambda>e. se_run_id e = run_id \<and> threshold < se_sequence e \<and>
        wanted tenant_id (se_tenant_id e) \<and> wanted user_id (se_user_id e) \<and> wanted session_id (se_session_id e)) (es_rows s))))"

text \<open>\<open>LIMIT ? OFFSET ?\<close>: a negative limit is none, a negative offset is zero.\<close>

definition limit_offset :: "int \<Rightarrow> int \<Rightarrow> 'a list \<Rightarrow> 'a list" where
  "limit_offset limit offset xs = (let ys = drop (nat offset) xs in if limit < 0 then ys else take (nat limit) ys)"

definition get_events_rows :: "string \<Rightarrow> string option \<Rightarrow> int \<Rightarrow> int \<Rightarrow> event_store \<Rightarrow> stored_event list" where
  "get_events_rows run_id tenant_id_filter offset limit s =
     limit_offset limit offset (filter (\<lambda>e. se_run_id e = run_id \<and> (str_or tenant_id_filter = '''' \<or> Some (se_tenant_id e) = tenant_id_filter)) (es_rows s))"

definition get_events ::
  "string option \<Rightarrow> string \<Rightarrow> string option \<Rightarrow> int \<Rightarrow> int \<Rightarrow> event_store \<Rightarrow> run_store_error + stored_event list" where
  "get_events env run_id tenant_id offset limit s =
     (if str_or tenant_id \<noteq> '''' then Inr (get_events_rows run_id tenant_id offset limit s)
      else case posture_from_env env of
        Inl e \<Rightarrow> Inl (Run_posture e)
      | Inr posture \<Rightarrow> if is_strict posture then Inl (Run_scope_error ''get_events'') else Inr (get_events_rows run_id tenant_id offset limit s))"

definition get_events_unsafe :: "string \<Rightarrow> int \<Rightarrow> int \<Rightarrow> event_store \<Rightarrow> stored_event list" where
  "get_events_unsafe run_id offset limit s = get_events_rows run_id None offset limit s"

definition highest_sequence :: "stored_event list \<Rightarrow> int" where
  "highest_sequence es = (case map se_sequence es of [] \<Rightarrow> - 1 | n # ns \<Rightarrow> foldr max ns n)"

definition max_sequence :: "string option \<Rightarrow> string \<Rightarrow> string option \<Rightarrow> event_store \<Rightarrow> run_store_error + int" where
  "max_sequence env run_id tenant_id s =
     (if py_strip (str_or tenant_id) \<noteq> '''' then
        Inr (highest_sequence (filter (\<lambda>e. se_run_id e = run_id \<and> Some (se_tenant_id e) = tenant_id) (es_rows s)))
      else case posture_from_env env of
        Inl e \<Rightarrow> Inl (Run_posture e)
      | Inr posture \<Rightarrow>
          if is_strict posture then Inl (Run_scope_error ''max_sequence'')
          else Inr (highest_sequence (filter (\<lambda>e. se_run_id e = run_id) (es_rows s))))"

end
