(* ===== verification/Run_Manager.thy ===== *)
theory Run_Manager
  imports Run_Store Run_State Run_Queue_Theorems Idempotency_Theorems
begin

text \<open>
  The run lifecycle manager of \<open>hi_agent/server/run_manager.py\<close> over the stores of \<open>Run_Store\<close>, \<open>Run_Queue\<close> and
  \<open>Idempotency_Store\<close>, any of which may be missing. The manager's threads are interleaved at the points where they wait: a
  worker polls and then waits for a slot, a run thread begins (up to the call of its executor) and ends (from the
  executor's return on), a heartbeat thread ticks. Each such part is one function on the state; an exception that
  leaves it is a left value, and the thread is gone. The readings of the clock that a part makes are \<open>ck 0\<close>, \<open>ck 1\<close>,
  ..., its fresh identifiers \<open>uu 0\<close>, \<open>uu 1\<close>, .... A run object is known by its identifier, since the registry never
  drops one. Executors and cancellation tokens are opaque: only their registration is kept.

  Contract entries that the code uses as text are texts or null. Not modelled: the trace file, the postmortem engine, fallback
  events, spine taps, metrics and logging, none of which changes what is modelled here.
\<close>

section \<open>Data\<close>

record manager_services =
  mg_iso :: "real \<Rightarrow> string"
  mg_dumps :: "json \<Rightarrow> string"
  mg_loads :: "string \<Rightarrow> json option"
  mg_digest :: "json \<Rightarrow> string"
  mg_str :: "json \<Rightarrow> string"
  mg_int :: "json \<Rightarrow> int option"
  mg_repr :: "real \<Rightarrow> string"
  mg_timestamp :: "string \<Rightarrow> real option"
  mg_trace :: "string option"
  mg_fallbacks :: "string \<Rightarrow> json list"

text \<open>The authenticated identity a route passes on.\<close>

record workspace_ctx =
  wk_tenant_id :: string
  wk_user_id :: string
  wk_session_id :: string

text \<open>What an executor returns: the attributes the manager reads, the text and the JSON form of the object.\<close>

record exec_result =
  er_status :: "string option"
  er_error :: "string option"
  er_truthy :: bool
  er_text :: string
  er_json :: json
  er_llm_fallback_count :: "int option"
  er_finished_at :: "string option option"

datatype executor_outcome = Exec_returned exec_result | Exec_raised string

record live_run =
  lv_run_id :: string
  lv_task_contract :: "(string \<times> json) list"
  lv_tenant_id :: string
  lv_state :: string
  lv_result :: "exec_result option"
  lv_error :: "string option"
  lv_created_at :: string
  lv_updated_at :: string
  lv_finished_at :: "string option"
  lv_user_id :: string
  lv_session_id :: string
  lv_project_id :: string
  lv_current_stage :: "string option"
  lv_stage_updated_at :: "string option"
  lv_idempotency_key :: "string option"
  lv_outcome :: string
  lv_response_snapshot :: string
  lv_response_status_code :: int
  lv_started_at :: "string option"
  lv_last_heartbeat_at :: "string option"
  lv_current_action_id :: "string option"
  lv_trace_id :: string
  lv_parent_run_id :: string
  lv_attempt_id :: string
  lv_phase_id :: string
  lv_profile_id :: string

datatype worker_state = No_worker | Polling | Awaiting_slot string

record run_manager =
  rm_runs :: "(string \<times> live_run) list"
  rm_max_concurrent :: nat
  rm_permits :: nat
  rm_idempotency_store :: "idem_store option"
  rm_run_store :: "run_store option"
  rm_run_queue :: "run_queue option"
  rm_event_store :: "event_store option"
  rm_event_seqs :: "(string \<times> int) list"
  rm_pending_executors :: "string list"
  rm_tokens :: "string list"
  rm_signalled :: "string list"
  rm_active_run_ids :: "string list"
  rm_active_count :: int
  rm_queue :: "(int \<times> nat \<times> string) list"
  rm_queue_seq :: nat
  rm_queue_size :: nat
  rm_shutdown :: bool
  rm_worker :: worker_state
  rm_idle_cycles :: nat
  rm_release_count :: "(string \<times> nat) list"
  rm_starting :: "string list"
  rm_executing :: "string list"
  rm_heartbeats :: "string list"

datatype manager_error =
    Mgr_posture posture_error
  | Mgr_workspace_required
  | Mgr_tenant_mismatch
  | Mgr_tenant_required
  | Mgr_idempotency_conflict
  | Mgr_idempotency idem_error
  | Mgr_duplicate_task string
  | Mgr_bad_priority
  | Mgr_store run_store_error
  | Mgr_queue rq_error
  | Mgr_transition transition_error
  | Mgr_queue_saturated nat nat
  | Mgr_no_run

definition mk_run_manager ::
  "nat \<Rightarrow> nat \<Rightarrow> idem_store option \<Rightarrow> run_store option \<Rightarrow> run_queue option \<Rightarrow> event_store option \<Rightarrow> run_manager" where
  "mk_run_manager max_concurrent queue_size ids rs rq es =
     \<lparr>rm_runs = [], rm_max_concurrent = max_concurrent, rm_permits = max_concurrent, rm_idempotency_store = ids, rm_run_store = rs,
      rm_run_queue = rq, rm_event_store = es, rm_event_seqs = [], rm_pending_executors = [], rm_tokens = [], rm_signalled = [],
      rm_active_run_ids = [], rm_active_count = 0, rm_queue = [], rm_queue_seq = 0, rm_queue_size = queue_size, rm_shutdown = False,
      rm_worker = No_worker, rm_idle_cycles = 0, rm_release_count = [], rm_starting = [], rm_executing = [], rm_heartbeats = []\<rparr>"

section \<open>Helpers\<close>

definition RUN_STATES :: "string list" where
  "RUN_STATES = [''created'', ''active'', ''waiting'', ''recovering'', ''completed'', ''failed'', ''aborted'', ''running'', ''cancelled'',
     ''queue_timeout'', ''queue_full'']"

definition run_state_to_terminal :: "string \<Rightarrow> string" where
  "run_state_to_terminal state =
     (if state \<in> {''completed'', ''succeeded''} then ''succeeded'' else if state = ''cancelled'' then ''cancelled''
      else if state \<in> {''timed_out'', ''queue_timeout''} then ''timed_out'' else ''failed'')"

definition run_state_to_status_code :: "string \<Rightarrow> int" where
  "run_state_to_status_code state = default_status_code_for (run_state_to_terminal state)"

definition text_entry :: "(string \<times> json) list \<Rightarrow> string \<Rightarrow> string" where
  "text_entry d k = (case map_of d k of Some (JStr s) \<Rightarrow> s | _ \<Rightarrow> '''')"

definition str_entry :: "manager_services \<Rightarrow> (string \<times> json) list \<Rightarrow> string \<Rightarrow> string" where
  "str_entry sv d k = (case map_of d k of None \<Rightarrow> '''' | Some (JStr s) \<Rightarrow> s | Some v \<Rightarrow> mg_str sv v)"

definition priority_of :: "manager_services \<Rightarrow> (string \<times> json) list \<Rightarrow> int option" where
  "priority_of sv d = (case map_of d ''priority'' of None \<Rightarrow> Some 5 | Some (JInt n) \<Rightarrow> Some n | Some v \<Rightarrow> mg_int sv v)"

definition managed_run_post_init :: "string option \<Rightarrow> live_run \<Rightarrow> run_store_error option" where
  "managed_run_post_init env r = spine_check env (missing_fields [(''run_id'', lv_run_id r), (''tenant_id'', lv_tenant_id r)])"

definition transition_run :: "live_run \<Rightarrow> string \<Rightarrow> transition_error + live_run" where
  "transition_run r target =
     (case transition \<lparr>mr_run_id = lv_run_id r, mr_state = lv_state r\<rparr> target of
        Inl e \<Rightarrow> Inl e | Inr m \<Rightarrow> Inr (r\<lparr>lv_state := mr_state m\<rparr>))"

definition set_run :: "live_run \<Rightarrow> run_manager \<Rightarrow> run_manager" where
  "set_run r m = m\<lparr>rm_runs := dict_set (lv_run_id r) r (rm_runs m)\<rparr>"

definition owns :: "live_run \<Rightarrow> workspace_ctx \<Rightarrow> bool" where
  "owns run ctx = (if lv_tenant_id run \<noteq> wk_tenant_id ctx \<or> lv_user_id run \<noteq> wk_user_id ctx then False
     else if wk_session_id ctx \<noteq> '''' then lv_session_id run = wk_session_id ctx else True)"

definition task_id_exists :: "string \<Rightarrow> workspace_ctx option \<Rightarrow> run_manager \<Rightarrow> bool" where
  "task_id_exists task_id workspace m =
     list_ex (\<lambda>(k, run). map_of (lv_task_contract run) ''task_id'' = Some (JStr task_id) \<and>
       (case workspace of None \<Rightarrow> True | Some w \<Rightarrow> owns run w)) (rm_runs m)"

section \<open>Events\<close>

text \<open>The constructor of the event stands before the \<open>try\<close>: what it raises leaves the method, with the sequence number used up.\<close>

definition publish_run_event ::
  "manager_services \<Rightarrow> string option \<Rightarrow> real \<Rightarrow> string \<Rightarrow> string \<Rightarrow> string \<Rightarrow> (string \<times> json) list \<Rightarrow> live_run \<Rightarrow> run_manager \<Rightarrow>
   (run_store_error + unit) \<times> run_manager" where
  "publish_run_event sv env now event_id run_id event_type payload run m =
     (case rm_event_store m of
        None \<Rightarrow> (Inr (), m)
      | Some es \<Rightarrow>
          let seq = (case map_of (rm_event_seqs m) run_id of
                       Some n \<Rightarrow> n
                     | None \<Rightarrow> (case max_sequence env run_id None es of Inl _ \<Rightarrow> 0 | Inr n \<Rightarrow> n + 1));
              m1 = m\<lparr>rm_event_seqs := dict_set run_id (seq + 1) (rm_event_seqs m)\<rparr>;
              or_legacy = (\<lambda>s. if s = '''' then ''__legacy__'' else s);
              event = \<lparr>se_event_id = event_id, se_run_id = run_id, se_sequence = seq, se_event_type = event_type,
                se_payload_json = mg_dumps sv (JObj payload), se_tenant_id = lv_tenant_id run, se_user_id = or_legacy (lv_user_id run),
                se_session_id = or_legacy (lv_session_id run), se_trace_id = '''', se_created_at = now,
                se_parent_run_id = lv_parent_run_id run, se_attempt_id = lv_attempt_id run, se_phase_id = lv_phase_id run\<rparr>
          in case stored_event_post_init env event of
              Some e \<Rightarrow> (Inl e, m1)
            | None \<Rightarrow> (Inr (), m1\<lparr>rm_event_store := Some (append_event None (mg_trace sv) event es)\<rparr>))"

definition on_stage_event ::
  "manager_services \<Rightarrow> real \<Rightarrow> string \<Rightarrow> json \<Rightarrow> string \<Rightarrow> run_manager \<Rightarrow> run_manager" where
  "on_stage_event sv now event_type payload_json run_id m =
     (if event_type \<notin> {''stage_start'', ''StageStateChanged''} then m
      else
        let payload = (case payload_json of
              JStr s \<Rightarrow> (if s = '''' then Some (JObj []) else mg_loads sv s)
            | v \<Rightarrow> Some (if py_truthy (Some v) then v else JObj [])) in
        case payload of
          Some (JObj d) \<Rightarrow>
            if event_type = ''StageStateChanged'' \<and> map_of d ''to_state'' \<noteq> Some (JStr ''active'') then m
            else
              let stage_name = (if text_entry d ''stage_name'' \<noteq> '''' then text_entry d ''stage_name'' else text_entry d ''stage_id'') in
              if stage_name = '''' \<or> run_id = '''' then m
              else (case map_of (rm_runs m) run_id of
                  None \<Rightarrow> m
                | Some run \<Rightarrow> set_run (run\<lparr>lv_current_stage := Some stage_name, lv_stage_updated_at := Some (mg_iso sv now)\<rparr>) m)
        | _ \<Rightarrow> m)"

section \<open>Creating a run\<close>

definition resolve_run_tenant :: "string option \<Rightarrow> (string \<times> json) list \<Rightarrow> workspace_ctx option \<Rightarrow> manager_error + string" where
  "resolve_run_tenant env contract workspace =
     (case posture_from_env env of
        Inl e \<Rightarrow> Inl (Mgr_posture e)
      | Inr posture \<Rightarrow>
          let middleware = (case workspace of None \<Rightarrow> '''' | Some w \<Rightarrow> wk_tenant_id w); body = text_entry contract ''tenant_id'' in
          if is_strict posture \<and> workspace = None then Inl Mgr_workspace_required
          else if middleware \<noteq> '''' \<and> body \<noteq> '''' \<and> body \<noteq> middleware \<and> is_strict posture then Inl Mgr_tenant_mismatch
          else if middleware \<noteq> '''' then Inr middleware
          else if body \<noteq> '''' then Inr body
          else if is_strict posture then Inl Mgr_tenant_required
          else Inr ''default'')"

datatype reservation = Run_is_new "string option" | Run_is_replay idem_record

definition reserve_run ::
  "manager_services \<Rightarrow> string option \<Rightarrow> real \<Rightarrow> string \<Rightarrow> string \<Rightarrow> (string \<times> json) list \<Rightarrow> workspace_ctx option \<Rightarrow> run_manager \<Rightarrow>
   (manager_error + reservation) \<times> run_manager" where
  "reserve_run sv env now tenant_id candidate contract workspace m =
     (let key = text_entry contract ''idempotency_key'' in
      case rm_idempotency_store m of
        None \<Rightarrow> (Inr (Run_is_new None), m)
      | Some ids \<Rightarrow>
          if key = '''' then (Inr (Run_is_new None), m)
          else
            let request_hash = mg_digest sv (JObj (drop_keys [''idempotency_key''] contract));
                user = (case workspace of None \<Rightarrow> '''' | Some w \<Rightarrow> wk_user_id w);
                session = (case workspace of None \<Rightarrow> '''' | Some w \<Rightarrow> wk_session_id w)
            in case reserve_or_replay env now tenant_id key request_hash candidate 86400 (text_entry contract ''project_id'') user session None ids of
                (Inl e, ids') \<Rightarrow> (Inl (Mgr_idempotency e), m\<lparr>rm_idempotency_store := Some ids'\<rparr>)
              | (Inr (Conflicted, _), ids') \<Rightarrow> (Inl Mgr_idempotency_conflict, m\<lparr>rm_idempotency_store := Some ids'\<rparr>)
              | (Inr (Replayed, record), ids') \<Rightarrow> (Inr (Run_is_replay record), m\<lparr>rm_idempotency_store := Some ids'\<rparr>)
              | (Inr (Created, _), ids') \<Rightarrow> (Inr (Run_is_new (Some key)), m\<lparr>rm_idempotency_store := Some ids'\<rparr>))"

definition new_run ::
  "manager_services \<Rightarrow> string \<Rightarrow> string \<Rightarrow> string \<Rightarrow> (string \<times> json) list \<Rightarrow> workspace_ctx option \<Rightarrow> string option \<Rightarrow> live_run" where
  "new_run sv now_iso run_id attempt_id contract workspace key =
     \<lparr>lv_run_id = run_id, lv_task_contract = contract, lv_tenant_id = (case workspace of None \<Rightarrow> '''' | Some w \<Rightarrow> wk_tenant_id w),
      lv_state = ''created'', lv_result = None, lv_error = None, lv_created_at = now_iso, lv_updated_at = now_iso, lv_finished_at = None,
      lv_user_id = (case workspace of None \<Rightarrow> '''' | Some w \<Rightarrow> wk_user_id w),
      lv_session_id = (case workspace of None \<Rightarrow> '''' | Some w \<Rightarrow> wk_session_id w), lv_project_id = text_entry contract ''project_id'',
      lv_current_stage = None, lv_stage_updated_at = None, lv_idempotency_key = key, lv_outcome = ''created'', lv_response_snapshot = '''',
      lv_response_status_code = 0, lv_started_at = None, lv_last_heartbeat_at = None, lv_current_action_id = None,
      lv_trace_id = str_or (mg_trace sv), lv_parent_run_id = '''', lv_attempt_id = attempt_id,
      lv_phase_id = str_entry sv contract ''phase_id'', lv_profile_id = str_entry sv contract ''profile_id''\<rparr>"

definition replay_stub :: "string \<Rightarrow> (string \<times> json) list \<Rightarrow> string \<Rightarrow> idem_record \<Rightarrow> live_run" where
  "replay_stub tenant_id contract key record =
     \<lparr>lv_run_id = ir_run_id record, lv_task_contract = contract, lv_tenant_id = tenant_id, lv_state = ''created'', lv_result = None,
      lv_error = None, lv_created_at = '''', lv_updated_at = '''', lv_finished_at = None, lv_user_id = '''', lv_session_id = '''',
      lv_project_id = '''', lv_current_stage = None, lv_stage_updated_at = None, lv_idempotency_key = Some key, lv_outcome = ''replayed'',
      lv_response_snapshot = ir_response_snapshot record, lv_response_status_code = ir_status_code record, lv_started_at = None,
      lv_last_heartbeat_at = None, lv_current_action_id = None, lv_trace_id = '''', lv_parent_run_id = '''', lv_attempt_id = '''',
      lv_phase_id = '''', lv_profile_id = ''''\<rparr>"

text \<open>The record and the queue row of a new run; a priority that is no integer raises.\<close>

definition persist_run ::
  "manager_services \<Rightarrow> string option \<Rightarrow> real \<Rightarrow> real \<Rightarrow> string \<Rightarrow> live_run \<Rightarrow> workspace_ctx option \<Rightarrow> run_manager \<Rightarrow>
   (manager_error + unit) \<times> run_manager" where
  "persist_run sv env now_ts enqueued_at tenant_id run workspace m =
     (let contract = lv_task_contract run; project = text_entry contract ''project_id''; text = mg_dumps sv (JObj contract);
          ctx = \<lparr>xc_tenant_id = tenant_id, xc_user_id = lv_user_id run, xc_session_id = lv_session_id run, xc_project_id = project,
            xc_profile_id = lv_profile_id run, xc_run_id = lv_run_id run, xc_parent_run_id = '''', xc_attempt_id = lv_attempt_id run,
            xc_phase_id = lv_phase_id run, xc_stage_id = '''', xc_capability_name = '''', xc_request_id = ''''\<rparr>;
          stored = (case rm_run_store m of
              None \<Rightarrow> (Inr (), m)
            | Some rs \<Rightarrow>
                (case priority_of sv contract of
                   None \<Rightarrow> (Inl Mgr_bad_priority, m)
                 | Some priority \<Rightarrow>
                     let record = \<lparr>rr_run_id = lv_run_id run, rr_tenant_id = tenant_id,
                           rr_user_id = (case workspace of None \<Rightarrow> ''__legacy__'' | Some w \<Rightarrow> wk_user_id w),
                           rr_session_id = (case workspace of None \<Rightarrow> ''__legacy__'' | Some w \<Rightarrow> wk_session_id w),
                           rr_task_contract_json = text, rr_status = ''queued'', rr_priority = priority, rr_attempt_count = 0,
                           rr_cancellation_flag = False, rr_result_summary = '''', rr_error_summary = '''', rr_created_at = now_ts,
                           rr_updated_at = now_ts, rr_project_id = project, rr_finished_at = 0, rr_parent_run_id = '''',
                           rr_attempt_id = lv_attempt_id run, rr_phase_id = lv_phase_id run\<rparr>
                     in (case run_record_post_init env record of
                           Some e \<Rightarrow> (Inl (Mgr_store e), m)
                         | None \<Rightarrow> (Inr (), m\<lparr>rm_run_store := Some (upsert (Some ctx) record rs)\<rparr>))))
      in case stored of
          (Inl e, m1) \<Rightarrow> (Inl e, m1)
        | (Inr _, m1) \<Rightarrow>
            (case rm_run_queue m1 of
               None \<Rightarrow> (Inr (), m1)
             | Some rq \<Rightarrow>
                 (case priority_of sv contract of
                    None \<Rightarrow> (Inl Mgr_bad_priority, m1)
                  | Some priority \<Rightarrow> (Inr (), m1\<lparr>rm_run_queue := Some (enqueue enqueued_at (lv_run_id run) priority text tenant_id
                      (lv_user_id run) (lv_session_id run) project rq)\<rparr>))))"

definition register_run ::
  "manager_services \<Rightarrow> string option \<Rightarrow> (nat \<Rightarrow> real) \<Rightarrow> string \<Rightarrow> string \<Rightarrow> live_run \<Rightarrow> workspace_ctx option \<Rightarrow> run_manager \<Rightarrow>
   (manager_error + live_run) \<times> run_manager" where
  "register_run sv env ck event_id tenant_id run workspace m =
     (let task_id = text_entry (lv_task_contract run) ''task_id'' in
      if task_id \<noteq> '''' \<and> task_id_exists task_id workspace m then
        (Inl (Mgr_duplicate_task task_id),
         case (rm_idempotency_store m, lv_idempotency_key run) of
           (Some ids, Some key) \<Rightarrow> m\<lparr>rm_idempotency_store := Some (idem_release tenant_id key ids)\<rparr>
         | _ \<Rightarrow> m)
      else
        case publish_run_event sv env (ck 2) event_id (lv_run_id run) ''run_queued''
            [(''state'', JStr ''created''), (''created_at'', JStr (lv_created_at run))] run (set_run run m) of
          (Inl e, m1) \<Rightarrow> (Inl (Mgr_store e), m1)
        | (Inr _, m1) \<Rightarrow>
            (case persist_run sv env (ck 3) (ck 4) tenant_id run workspace m1 of
               (Inl e, m2) \<Rightarrow> (Inl e, m2) | (Inr _, m2) \<Rightarrow> (Inr run, m2)))"

definition create_run ::
  "manager_services \<Rightarrow> string option \<Rightarrow> (nat \<Rightarrow> real) \<Rightarrow> (nat \<Rightarrow> string) \<Rightarrow> (string \<times> json) list \<Rightarrow> workspace_ctx option \<Rightarrow> run_manager \<Rightarrow>
   (manager_error + live_run) \<times> run_manager" where
  "create_run sv env ck uu contract workspace m =
     (case resolve_run_tenant env contract workspace of
        Inl e \<Rightarrow> (Inl e, m)
      | Inr tenant_id \<Rightarrow>
          (case reserve_run sv env (ck 0) tenant_id (uu 0) contract workspace m of
             (Inl e, m1) \<Rightarrow> (Inl e, m1)
           | (Inr (Run_is_replay record), m1) \<Rightarrow>
               let stub = replay_stub tenant_id contract (text_entry contract ''idempotency_key'') record in
               (case managed_run_post_init env stub of Some e \<Rightarrow> (Inl (Mgr_store e), m1) | None \<Rightarrow> (Inr stub, m1))
           | (Inr (Run_is_new key), m1) \<Rightarrow>
               let run = new_run sv (mg_iso sv (ck 1)) (uu 0) (uu 1) contract workspace key in
               (case managed_run_post_init env run of
                  Some e \<Rightarrow> (Inl (Mgr_store e), m1)
                | None \<Rightarrow> register_run sv env ck (uu 2) tenant_id run workspace m1)))"

end
