(* ===== verification/Run_Threads.thy ===== *)
theory Run_Threads
  imports Run_Manager
begin

text \<open>
  The threads of the run manager (\<open>hi_agent/server/run_manager.py\<close>): starting a run, the queue worker on the durable queue and
  on the in-memory one, the begin and the end of a run thread, the heartbeat of a lease, cancellation and
  shutdown. \<open>rm_starting\<close> are the run threads that have not begun, \<open>rm_executing\<close> those whose executor is running,
  \<open>rm_heartbeats\<close> the live heartbeat threads.
\<close>

section \<open>Starting\<close>

definition ensure_worker_started :: "run_manager \<Rightarrow> run_manager" where
  "ensure_worker_started m = (if rm_worker m \<noteq> No_worker then m
     else m\<lparr>rm_shutdown := False, rm_worker := Polling, rm_idle_cycles := 0, rm_release_count := []\<rparr>)"

definition add_once :: "string \<Rightarrow> string list \<Rightarrow> string list" where
  "add_once k ks = (if k \<in> set ks then ks else ks @ [k])"

definition start_run :: "manager_services \<Rightarrow> real \<Rightarrow> string \<Rightarrow> run_manager \<Rightarrow> (manager_error + unit) \<times> run_manager" where
  "start_run sv now run_id m =
     (case map_of (rm_runs m) run_id of
        None \<Rightarrow> (Inr (), m)
      | Some run \<Rightarrow>
          if lv_state run \<noteq> ''created'' then (Inr (), m)
          else
            let m1 = ensure_worker_started m in
            if rm_run_queue m1 \<noteq> None then (Inr (), m1\<lparr>rm_pending_executors := add_once run_id (rm_pending_executors m1)\<rparr>)
            else case priority_of sv (lv_task_contract run) of
              None \<Rightarrow> (Inl Mgr_bad_priority, m1)
            | Some priority \<Rightarrow>
                let seq = rm_queue_seq m1; m2 = m1\<lparr>rm_queue_seq := seq + 1\<rparr> in
                if 0 < rm_queue_size m2 \<and> rm_queue_size m2 \<le> length (rm_queue m2) then
                  (case transition_run run ''failed'' of
                     Inl e \<Rightarrow> (Inl (Mgr_transition e), m2)
                   | Inr run' \<Rightarrow> (Inl (Mgr_queue_saturated (length (rm_queue m2)) (rm_queue_size m2)),
                       set_run (run'\<lparr>lv_error := Some ''queue_full'', lv_updated_at := mg_iso sv now\<rparr>) m2))
                else (Inr (), m2\<lparr>rm_queue := rm_queue m2 @ [(priority, seq, run_id)]\<rparr>))"

section \<open>The queue worker\<close>

definition WORKER :: string where
  "WORKER = ''run_manager''"

definition MAX_RELEASES :: nat where
  "MAX_RELEASES = 50"

definition tenant_of_run :: "run_manager \<Rightarrow> string \<Rightarrow> string" where
  "tenant_of_run m run_id = (case map_of (rm_runs m) run_id of None \<Rightarrow> '''' | Some run \<Rightarrow> lv_tenant_id run)"

text \<open>\<open>fail\<close> on the durable queue; what it raises ends the worker.\<close>

definition worker_fail :: "manager_services \<Rightarrow> string option \<Rightarrow> real \<Rightarrow> string \<Rightarrow> string \<Rightarrow> run_queue \<Rightarrow> run_manager \<Rightarrow>
    (manager_error + unit) \<times> run_manager" where
  "worker_fail sv env now run_id tenant q m =
     (case fail env now (mg_iso sv now) run_id WORKER (Some tenant) q of
        (Inl e, q') \<Rightarrow> (Inl (Mgr_queue e), m\<lparr>rm_run_queue := Some q', rm_worker := No_worker\<rparr>)
      | (Inr _, q') \<Rightarrow> (Inr (), m\<lparr>rm_run_queue := Some q'\<rparr>))"

definition go_idle :: "run_manager \<Rightarrow> run_manager" where
  "go_idle m = (let n = rm_idle_cycles m + 1 in
     if 20 \<le> n \<and> rm_active_count m = 0 \<and> rm_pending_executors m = [] then m\<lparr>rm_idle_cycles := n, rm_worker := No_worker\<rparr>
     else m\<lparr>rm_idle_cycles := n\<rparr>)"

definition worker_poll :: "manager_services \<Rightarrow> string option \<Rightarrow> (nat \<Rightarrow> real) \<Rightarrow> run_manager \<Rightarrow> (manager_error + unit) \<times> run_manager" where
  "worker_poll sv env ck m =
     (case (rm_worker m, rm_run_queue m) of
        (Polling, Some q0) \<Rightarrow>
          if rm_shutdown m then (Inr (), m\<lparr>rm_worker := No_worker\<rparr>)
          else (case claim_next (ck 1) WORKER (snd (release_expired_leases (ck 0) q0)) of
              (None, q) \<Rightarrow> (Inr (), go_idle (m\<lparr>rm_run_queue := Some q\<rparr>))
            | (Some (run_id, _), q) \<Rightarrow>
                let has_executor = run_id \<in> set (rm_pending_executors m);
                    m1 = m\<lparr>rm_run_queue := Some q, rm_idle_cycles := 0, rm_pending_executors := removeAll run_id (rm_pending_executors m)\<rparr> in
                case map_of (rm_runs m) run_id of
                  None \<Rightarrow> worker_fail sv env (ck 2) run_id '''' q m1
                | Some run \<Rightarrow>
                    if \<not> has_executor then
                      let retries = (case map_of (rm_release_count m1) run_id of None \<Rightarrow> 0 | Some n \<Rightarrow> n);
                          forget = m1\<lparr>rm_release_count := dict_pop run_id (rm_release_count m1)\<rparr> in
                      if MAX_RELEASES \<le> retries then worker_fail sv env (ck 2) run_id (lv_tenant_id run) q forget
                      else (case release_lease (ck 2) run_id WORKER q of
                          (False, q') \<Rightarrow> worker_fail sv env (ck 3) run_id (lv_tenant_id run) q' (forget\<lparr>rm_run_queue := Some q'\<rparr>)
                        | (True, q') \<Rightarrow> (Inr (), m1\<lparr>rm_run_queue := Some q', rm_release_count := dict_set run_id (retries + 1) (rm_release_count m1)\<rparr>))
                    else (Inr (), m1\<lparr>rm_release_count := dict_pop run_id (rm_release_count m1), rm_worker := Awaiting_slot run_id\<rparr>))
      | _ \<Rightarrow> (Inr (), m))"

text \<open>The in-memory queue: the least \<open>(priority, sequence)\<close> first.\<close>

definition legacy_poll :: "run_manager \<Rightarrow> run_manager" where
  "legacy_poll m =
     (case (rm_worker m, rm_run_queue m) of
        (Polling, None) \<Rightarrow>
          if rm_shutdown m then m\<lparr>rm_worker := No_worker\<rparr>
          else (case sort_key (\<lambda>(p, n, _). (p, n)) (rm_queue m) of
              [] \<Rightarrow> let n = rm_idle_cycles m + 1 in
                if 20 \<le> n \<and> rm_active_count m = 0 then m\<lparr>rm_idle_cycles := n, rm_worker := No_worker\<rparr> else m\<lparr>rm_idle_cycles := n\<rparr>
            | (p, n, run_id) # _ \<Rightarrow> m\<lparr>rm_idle_cycles := 0, rm_queue := remove1 (p, n, run_id) (rm_queue m), rm_worker := Awaiting_slot run_id\<rparr>)
      | _ \<Rightarrow> m)"

text \<open>The semaphore: a slot is taken and the run's thread started, or the wait times out.\<close>

definition worker_acquire :: "run_manager \<Rightarrow> run_manager" where
  "worker_acquire m =
     (case rm_worker m of
        Awaiting_slot run_id \<Rightarrow>
          if 0 < rm_permits m then m\<lparr>rm_permits := rm_permits m - 1, rm_starting := rm_starting m @ [run_id], rm_worker := Polling\<rparr> else m
      | _ \<Rightarrow> m)"

definition worker_timeout :: "manager_services \<Rightarrow> string option \<Rightarrow> (nat \<Rightarrow> real) \<Rightarrow> run_manager \<Rightarrow> (manager_error + unit) \<times> run_manager" where
  "worker_timeout sv env ck m =
     (case rm_worker m of
        Awaiting_slot run_id \<Rightarrow>
          let m0 = m\<lparr>rm_worker := Polling\<rparr> in
          (case (case rm_run_queue m0 of None \<Rightarrow> (Inr (), m0) | Some q \<Rightarrow> worker_fail sv env (ck 0) run_id (tenant_of_run m0 run_id) q m0) of
             (Inl e, m1) \<Rightarrow> (Inl e, m1)
           | (Inr _, m1) \<Rightarrow>
               (case map_of (rm_runs m1) run_id of
                  None \<Rightarrow> (Inr (), m1)
                | Some run \<Rightarrow>
                    (case transition_run run ''failed'' of
                       Inl e \<Rightarrow> (Inl (Mgr_transition e), m1\<lparr>rm_worker := No_worker\<rparr>)
                     | Inr run' \<Rightarrow> (Inr (), set_run (run'\<lparr>lv_error := Some ''queue_timeout'', lv_updated_at := mg_iso sv (ck 1)\<rparr>) m1))))
      | _ \<Rightarrow> (Inr (), m))"

section \<open>A run thread\<close>

text \<open>Two calls of \<open>publish_run_event\<close> in a row; the first exception leaves both.\<close>

definition publish_two ::
  "manager_services \<Rightarrow> string option \<Rightarrow> real \<Rightarrow> string \<Rightarrow> string \<Rightarrow> (string \<times> json) list \<Rightarrow> real \<Rightarrow> string \<Rightarrow> string \<Rightarrow> (string \<times> json) list \<Rightarrow>
   live_run \<Rightarrow> run_manager \<Rightarrow> (run_store_error + unit) \<times> run_manager" where
  "publish_two sv env now1 id1 type1 payload1 now2 id2 type2 payload2 run m =
     (case publish_run_event sv env now1 id1 (lv_run_id run) type1 payload1 run m of
        (Inl e, m1) \<Rightarrow> (Inl e, m1)
      | (Inr _, m1) \<Rightarrow> publish_run_event sv env now2 id2 (lv_run_id run) type2 payload2 run m1)"

text \<open>Up to the call of the executor. The statements stand before the \<open>try\<close>: an exception ends the thread with the slot taken.\<close>

definition execute_begin ::
  "manager_services \<Rightarrow> string option \<Rightarrow> (nat \<Rightarrow> real) \<Rightarrow> (nat \<Rightarrow> string) \<Rightarrow> string \<Rightarrow> run_manager \<Rightarrow> (manager_error + unit) \<times> run_manager" where
  "execute_begin sv env ck uu run_id m =
     (if run_id \<notin> set (rm_starting m) then (Inr (), m)
      else
        let m0 = m\<lparr>rm_starting := remove1 run_id (rm_starting m), rm_active_count := rm_active_count m + 1,
              rm_active_run_ids := add_once run_id (rm_active_run_ids m)\<rparr> in
        case map_of (rm_runs m0) run_id of
          None \<Rightarrow> (Inl Mgr_no_run, m0)
        | Some run \<Rightarrow>
            (case transition_run run ''running'' of
               Inl e \<Rightarrow> (Inl (Mgr_transition e), m0)
             | Inr r1 \<Rightarrow>
                 let started = mg_iso sv (ck 0); run1 = r1\<lparr>lv_updated_at := started, lv_started_at := Some started\<rparr>; m1 = set_run run1 m0;
                     marked = (case rm_run_store m1 of
                         None \<Rightarrow> (Inr (), m1)
                       | Some rs \<Rightarrow> (case store_mark_running env (ck 1) run_id None rs of (x, rs') \<Rightarrow> (x, m1\<lparr>rm_run_store := Some rs'\<rparr>)))
                 in case marked of
                     (Inl e, m2) \<Rightarrow> (Inl (Mgr_store e), m2)
                   | (Inr _, m2) \<Rightarrow>
                       let running = [(''state'', JStr ''running''), (''started_at'', JStr started)];
                           published = (if rm_run_queue m2 = None
                             then publish_run_event sv env (ck 2) (uu 0) run_id ''run_started'' running run1 m2
                             else publish_two sv env (ck 2) (uu 0) ''lease_acquired'' [(''worker_id'', JStr WORKER), (''state'', JStr ''running'')]
                               (ck 3) (uu 1) ''run_started'' running run1 (m2\<lparr>rm_heartbeats := add_once run_id (rm_heartbeats m2)\<rparr>))
                       in (case published of
                             (Inl e, m3) \<Rightarrow> (Inl (Mgr_store e), m3)
                           | (Inr _, m3) \<Rightarrow> (Inr (), m3\<lparr>rm_executing := rm_executing m3 @ [run_id]\<rparr>))))"

text \<open>What the executor's outcome makes of the run: the body of the \<open>try\<close> under the lock.\<close>

definition settle_result :: "manager_services \<Rightarrow> real \<Rightarrow> exec_result \<Rightarrow> live_run \<Rightarrow> transition_error + live_run" where
  "settle_result sv now res run =
     (let moved = (case er_status res of
          None \<Rightarrow> transition_run run ''completed''
        | Some status \<Rightarrow>
            if status = ''completed'' then transition_run run ''completed''
            else case transition_run run (if status \<in> set RUN_STATES then status else ''failed'') of
                Inl e \<Rightarrow> Inl e
              | Inr r \<Rightarrow> Inr (r\<lparr>lv_error := Some (if str_or (er_error res) \<noteq> '''' then str_or (er_error res) else status)\<rparr>))
      in case moved of Inl e \<Rightarrow> Inl e | Inr r \<Rightarrow> Inr (r\<lparr>lv_result := Some res, lv_updated_at := mg_iso sv now\<rparr>))"

text \<open>The queue is told: \<open>complete\<close> or \<open>fail\<close>.\<close>

definition settle_queue ::
  "manager_services \<Rightarrow> string option \<Rightarrow> real \<Rightarrow> bool \<Rightarrow> live_run \<Rightarrow> run_manager \<Rightarrow> (rq_error + unit) \<times> run_manager" where
  "settle_queue sv env now success run m =
     (case rm_run_queue m of
        None \<Rightarrow> (Inr (), m)
      | Some q \<Rightarrow>
          (case (if success then complete env now (lv_run_id run) WORKER (Some (lv_tenant_id run)) q
                 else fail env now (mg_iso sv now) (lv_run_id run) WORKER (Some (lv_tenant_id run)) q) of
             (x, q') \<Rightarrow> (x, m\<lparr>rm_run_queue := Some q'\<rparr>)))"

text \<open>\<open>str(exc)\<close> of what the body of the \<open>try\<close> raised. The outcome is the exception that is still on its way after the
  \<open>except\<close> clause.\<close>

definition execute_except ::
  "manager_services \<Rightarrow> string option \<Rightarrow> (nat \<Rightarrow> real) \<Rightarrow> string \<Rightarrow> string \<Rightarrow> run_manager \<Rightarrow> (manager_error + unit) \<times> run_manager" where
  "execute_except sv env ck run_id exc m =
     (case map_of (rm_runs m) run_id of
        None \<Rightarrow> (Inl Mgr_no_run, m)
      | Some run \<Rightarrow>
          (case transition_run run ''failed'' of
             Inl e \<Rightarrow> (Inl (Mgr_transition e), m)
           | Inr r \<Rightarrow>
               let run' = r\<lparr>lv_error := Some exc, lv_updated_at := mg_iso sv (ck 2)\<rparr> in
               (case settle_queue sv env (ck 3) False run' (set_run run' m) of
                  (Inl e, m1) \<Rightarrow> (Inl (Mgr_queue e), m1) | (Inr _, m1) \<Rightarrow> (Inr (), m1))))"

definition execute_try ::
  "(manager_error \<Rightarrow> string) \<Rightarrow> manager_services \<Rightarrow> string option \<Rightarrow> (nat \<Rightarrow> real) \<Rightarrow> string \<Rightarrow> executor_outcome \<Rightarrow> run_manager \<Rightarrow>
   (manager_error + unit) \<times> run_manager" where
  "execute_try err_text sv env ck run_id out m =
     (case out of
        Exec_raised exc \<Rightarrow> execute_except sv env ck run_id exc m
      | Exec_returned res \<Rightarrow>
          (case map_of (rm_runs m) run_id of
             None \<Rightarrow> (Inl Mgr_no_run, m)
           | Some run \<Rightarrow>
               (case settle_result sv (ck 0) res run of
                  Inl e \<Rightarrow> execute_except sv env ck run_id (err_text (Mgr_transition e)) m
                | Inr run' \<Rightarrow>
                    (case settle_queue sv env (ck 1) (lv_state run' = ''completed'') run' (set_run run' m) of
                       (Inl e, m1) \<Rightarrow> execute_except sv env ck run_id (err_text (Mgr_queue e)) m1
                     | (Inr _, m1) \<Rightarrow> (Inr (), m1)))))"

section \<open>The end of a run thread\<close>

definition text_json :: "string option \<Rightarrow> json" where
  "text_json s = (case s of None \<Rightarrow> JNull | Some v \<Rightarrow> JStr v)"

definition last_event :: "string option \<Rightarrow> string \<Rightarrow> run_manager \<Rightarrow> stored_event option" where
  "last_event env run_id m =
     (case rm_event_store m of
        None \<Rightarrow> None
      | Some es \<Rightarrow> (case list_since env run_id 0 None None None None es of
          Inl _ \<Rightarrow> None | Inr [] \<Rightarrow> None | Inr (e # evs) \<Rightarrow> Some (List.last (e # evs))))"

definition to_dict :: "manager_services \<Rightarrow> string option \<Rightarrow> real \<Rightarrow> live_run \<Rightarrow> run_manager \<Rightarrow> json" where
  "to_dict sv env now run m =
     (let evt = last_event env (lv_run_id run) m;
          finished = (case lv_result run of Some res \<Rightarrow> (case er_finished_at res of Some (Some f) \<Rightarrow> Some f | _ \<Rightarrow> lv_finished_at run) | None \<Rightarrow> lv_finished_at run);
          beat = (case lv_last_heartbeat_at run of None \<Rightarrow> None | Some t \<Rightarrow> mg_timestamp sv t);
          latest = (case (beat, map_option se_created_at evt) of
              (None, t) \<Rightarrow> t | (Some t, None) \<Rightarrow> Some t | (Some t, Some u) \<Rightarrow> Some (max t u))
      in JObj
       [(''run_id'', JStr (lv_run_id run)), (''task_contract'', JObj (lv_task_contract run)), (''state'', JStr (lv_state run)),
        (''result'', case lv_result run of None \<Rightarrow> JNull | Some res \<Rightarrow> er_json res), (''error'', text_json (lv_error run)),
        (''created_at'', JStr (lv_created_at run)), (''updated_at'', JStr (lv_updated_at run)),
        (''current_stage'', text_json (lv_current_stage run)), (''stage_updated_at'', text_json (lv_stage_updated_at run)),
        (''llm_fallback_count'', JInt (case lv_result run of None \<Rightarrow> 0 | Some res \<Rightarrow> (case er_llm_fallback_count res of None \<Rightarrow> 0 | Some n \<Rightarrow> n))),
        (''finished_at'', text_json finished), (''fallback_events'', JList (mg_fallbacks sv (lv_run_id run))),
        (''started_at'', text_json (lv_started_at run)), (''last_heartbeat_at'', text_json (lv_last_heartbeat_at run)),
        (''last_event_offset'', case evt of None \<Rightarrow> JNull | Some e \<Rightarrow> JInt (se_sequence e)),
        (''last_event_at'', case evt of None \<Rightarrow> JNull | Some e \<Rightarrow> JStr (mg_iso sv (se_created_at e))),
        (''current_action_id'', text_json (lv_current_action_id run)),
        (''no_progress_seconds'', case latest of None \<Rightarrow> JNull | Some t \<Rightarrow> JFloat (mg_repr sv (now - t)))])"

definition terminal_event :: "string \<Rightarrow> string" where
  "terminal_event state = (if state = ''completed'' then ''run_completed'' else if state = ''cancelled'' then ''run_cancelled'' else ''run_failed'')"

text \<open>The terminal state in the run store, by the state in memory.\<close>

definition sync_run_store :: "string option \<Rightarrow> real \<Rightarrow> live_run \<Rightarrow> run_manager \<Rightarrow> (run_store_error + unit) \<times> run_manager" where
  "sync_run_store env now run m =
     (case rm_run_store m of
        None \<Rightarrow> (Inr (), m)
      | Some rs \<Rightarrow>
          let result_str = (case lv_result run of None \<Rightarrow> '''' | Some res \<Rightarrow> if er_truthy res then er_text res else '''') in
          (case (if lv_state run = ''completed'' then store_mark_complete env now (lv_run_id run) result_str None rs
                 else if lv_state run = ''cancelled'' then store_mark_cancelled env now (lv_run_id run) None rs
                 else store_mark_failed env now (lv_run_id run) (str_or (lv_error run)) None rs) of
             (x, rs') \<Rightarrow> (x, m\<lparr>rm_run_store := Some rs'\<rparr>)))"

definition settle_idempotency :: "manager_services \<Rightarrow> string option \<Rightarrow> real \<Rightarrow> real \<Rightarrow> live_run \<Rightarrow> run_manager \<Rightarrow> run_manager" where
  "settle_idempotency sv env dict_now now run m =
     (case (lv_idempotency_key run, rm_idempotency_store m) of
        (Some key, Some ids) \<Rightarrow> m\<lparr>rm_idempotency_store := Some (mark_complete (mg_loads sv) (mg_dumps sv) now (lv_tenant_id run) key
            (mg_dumps sv (to_dict sv env dict_now run m)) (run_state_to_terminal (lv_state run)) (Some (run_state_to_status_code (lv_state run))) ids)\<rparr>
      | _ \<Rightarrow> m)"

text \<open>The \<open>finally\<close> clause: what the run store or the event store raise leaves it, and the statements after that are skipped.\<close>

definition execute_finally ::
  "manager_services \<Rightarrow> string option \<Rightarrow> (nat \<Rightarrow> real) \<Rightarrow> (nat \<Rightarrow> string) \<Rightarrow> string \<Rightarrow> run_manager \<Rightarrow> (manager_error + unit) \<times> run_manager" where
  "execute_finally sv env ck uu run_id m =
     (case map_of (rm_runs m) run_id of
        None \<Rightarrow> (Inl Mgr_no_run, m)
      | Some r0 \<Rightarrow>
          let run = r0\<lparr>lv_finished_at := (case lv_finished_at r0 of None \<Rightarrow> Some (mg_iso sv (ck 4)) | Some t \<Rightarrow> Some t)\<rparr>;
              m1 = set_run run (m\<lparr>rm_heartbeats := removeAll run_id (rm_heartbeats m), rm_active_count := rm_active_count m - 1,
                rm_active_run_ids := removeAll run_id (rm_active_run_ids m)\<rparr>);
              finished = (''finished_at'', text_json (lv_finished_at run))
          in case sync_run_store env (ck 5) run m1 of
              (Inl e, m2) \<Rightarrow> (Inl (Mgr_store e), m2)
            | (Inr _, m2) \<Rightarrow>
                let m3 = m2\<lparr>rm_permits := rm_permits m2 + 1\<rparr> in
                (case publish_two sv env (ck 6) (uu 0) ''run_finalized'' [(''state'', JStr (lv_state run)), finished]
                     (ck 7) (uu 1) (terminal_event (lv_state run)) [(''state'', JStr (lv_state run)), (''error'', JStr (str_or (lv_error run))), finished]
                     run m3 of
                   (Inl e, m4) \<Rightarrow> (Inl (Mgr_store e), m4)
                 | (Inr _, m4) \<Rightarrow> (Inr (), settle_idempotency sv env (ck 8) (ck 9) run m4)))"

definition execute_end ::
  "(manager_error \<Rightarrow> string) \<Rightarrow> manager_services \<Rightarrow> string option \<Rightarrow> (nat \<Rightarrow> real) \<Rightarrow> (nat \<Rightarrow> string) \<Rightarrow> string \<Rightarrow> executor_outcome \<Rightarrow> run_manager \<Rightarrow>
   (manager_error + unit) \<times> run_manager" where
  "execute_end err_text sv env ck uu run_id out m =
     (if run_id \<notin> set (rm_executing m) then (Inr (), m)
      else case execute_try err_text sv env ck run_id out (m\<lparr>rm_executing := remove1 run_id (rm_executing m)\<rparr>) of
        (x, m1) \<Rightarrow> (case execute_finally sv env ck uu run_id m1 of (Inl e, m2) \<Rightarrow> (Inl e, m2) | (Inr _, m2) \<Rightarrow> (x, m2)))"

section \<open>Heartbeats\<close>

text \<open>One turn of the heartbeat loop; every exception is caught and counted.\<close>

definition heartbeat_tick ::
  "manager_services \<Rightarrow> string option \<Rightarrow> (nat \<Rightarrow> real) \<Rightarrow> (nat \<Rightarrow> string) \<Rightarrow> string \<Rightarrow> run_manager \<Rightarrow> run_manager" where
  "heartbeat_tick sv env ck uu run_id m =
     (case (rm_run_queue m, map_of (rm_runs m) run_id) of
        (Some q, Some run) \<Rightarrow>
          if run_id \<notin> set (rm_heartbeats m) then m
          else (case heartbeat env (ck 0) run_id WORKER (Some (lv_tenant_id run)) q of
              (Inl e, q') \<Rightarrow> m\<lparr>rm_run_queue := Some q'\<rparr>
            | (Inr True, q') \<Rightarrow> snd (publish_run_event sv env (ck 1) (uu 0) run_id ''heartbeat_renewed''
                [(''worker_id'', JStr WORKER), (''state'', JStr (lv_state run))] run (m\<lparr>rm_run_queue := Some q'\<rparr>))
            | (Inr False, q') \<Rightarrow>
                let m1 = m\<lparr>rm_run_queue := Some q'\<rparr>;
                    lost = (if lv_state run = ''running''
                      then (case transition_run run ''failed'' of Inl e \<Rightarrow> None | Inr r \<Rightarrow> Some (r\<lparr>lv_error := Some ''lease_lost: heartbeat renewal denied''\<rparr>))
                      else Some run)
                in case lost of
                    None \<Rightarrow> m1
                  | Some run' \<Rightarrow>
                      (case publish_run_event sv env (ck 1) (uu 0) run_id ''lease_lost''
                           [(''reason'', JStr ''heartbeat_renewal_denied''), (''state'', JStr ''failed'')] run' (set_run run' m1) of
                         (Inl e, m2) \<Rightarrow> m2
                       | (Inr _, m2) \<Rightarrow>
                           (case rm_run_queue m2 of
                              None \<Rightarrow> m2
                            | Some q2 \<Rightarrow> m2\<lparr>rm_run_queue := Some (snd (dead_letter env (ck 2) (mg_iso sv (ck 2)) run_id ''lease_lost'' ''running''
                                  (Some (lv_tenant_id run')) q2)), rm_heartbeats := removeAll run_id (rm_heartbeats m2)\<rparr>)))
      | _ \<Rightarrow> m)"

section \<open>Queries, cancellation and shutdown\<close>

definition get_run :: "string \<Rightarrow> workspace_ctx option \<Rightarrow> run_manager \<Rightarrow> live_run option" where
  "get_run run_id workspace m =
     (case map_of (rm_runs m) run_id of
        None \<Rightarrow> None
      | Some run \<Rightarrow> (case workspace of None \<Rightarrow> Some run | Some w \<Rightarrow> if owns run w then Some run else None))"

definition list_runs :: "workspace_ctx option \<Rightarrow> run_manager \<Rightarrow> live_run list" where
  "list_runs workspace m =
     (case workspace of None \<Rightarrow> map snd (rm_runs m) | Some w \<Rightarrow> filter (\<lambda>r. owns r w) (map snd (rm_runs m)))"

definition queue_depth :: "run_manager \<Rightarrow> nat" where
  "queue_depth m = length (rm_queue m)"

text \<open>The snapshot of \<open>get_status\<close>; an unbounded queue has utilisation 0.\<close>

record manager_status =
  ms_active_runs :: int
  ms_queued_runs :: nat
  ms_total_capacity :: nat
  ms_queue_utilization :: real

definition get_status :: "run_manager \<Rightarrow> manager_status" where
  "get_status m = \<lparr>ms_active_runs = rm_active_count m, ms_queued_runs = queue_depth m, ms_total_capacity = rm_max_concurrent m,
     ms_queue_utilization = (if rm_queue_size m \<noteq> 0 then real (queue_depth m) / real (rm_queue_size m) else 0)\<rparr>"

definition set_event_store :: "event_store \<Rightarrow> run_manager \<Rightarrow> run_manager" where
  "set_event_store es m = m\<lparr>rm_event_store := Some es\<rparr>"

definition register_cancellation_token :: "string \<Rightarrow> run_manager \<Rightarrow> run_manager" where
  "register_cancellation_token run_id m = m\<lparr>rm_tokens := add_once run_id (rm_tokens m)\<rparr>"

definition unregister_cancellation_token :: "string \<Rightarrow> run_manager \<Rightarrow> run_manager" where
  "unregister_cancellation_token run_id m = m\<lparr>rm_tokens := removeAll run_id (rm_tokens m)\<rparr>"

definition cancel_run ::
  "manager_services \<Rightarrow> string option \<Rightarrow> (nat \<Rightarrow> real) \<Rightarrow> string \<Rightarrow> workspace_ctx option \<Rightarrow> run_manager \<Rightarrow> (manager_error + bool) \<times> run_manager" where
  "cancel_run sv env ck run_id workspace m =
     (case get_run run_id workspace m of
        None \<Rightarrow> (Inr False, m)
      | Some run \<Rightarrow>
          if lv_state run \<notin> {''created'', ''running''} then (Inr False, m)
          else case transition_run run ''cancelled'' of
              Inl e \<Rightarrow> (Inl (Mgr_transition e), m)
            | Inr r \<Rightarrow>
                let run' = r\<lparr>lv_updated_at := mg_iso sv (ck 0)\<rparr>;
                    m1 = set_run run' m;
                    m2 = m1\<lparr>rm_run_queue := map_option (\<lambda>q. snd (cancel env (ck 1) run_id (Some (lv_tenant_id run')) q)) (rm_run_queue m1)\<rparr>;
                    m3 = m2\<lparr>rm_run_store := map_option (\<lambda>rs. snd (store_mark_cancelled env (ck 2) run_id None rs)) (rm_run_store m2)\<rparr>
                in (Inr True, if run_id \<in> set (rm_tokens m3) then m3\<lparr>rm_signalled := add_once run_id (rm_signalled m3)\<rparr> else m3))"

definition shutdown_start :: "run_manager \<Rightarrow> run_manager" where
  "shutdown_start m = m\<lparr>rm_shutdown := True, rm_pending_executors := []\<rparr>"

text \<open>After the deadline, for one run that is still active. What the queue and the store raise is caught.\<close>

definition abandon_run :: "manager_services \<Rightarrow> string option \<Rightarrow> real \<Rightarrow> real \<Rightarrow> string \<Rightarrow> run_manager \<Rightarrow> (manager_error + unit) \<times> run_manager" where
  "abandon_run sv env now1 now2 run_id m =
     (let m1 = m\<lparr>rm_run_queue := map_option (\<lambda>q. snd (fail env now1 (mg_iso sv now1) run_id WORKER (Some (tenant_of_run m run_id)) q)) (rm_run_queue m),
             rm_run_store := map_option (\<lambda>rs. snd (store_mark_failed env now2 run_id ''server_shutdown'' None rs)) (rm_run_store m)\<rparr> in
      case map_of (rm_runs m1) run_id of
        None \<Rightarrow> (Inr (), m1)
      | Some run \<Rightarrow>
          if lv_state run \<in> {''completed'', ''failed'', ''cancelled''} then (Inr (), m1)
          else case transition_run run ''failed'' of
              Inl e \<Rightarrow> (Inl (Mgr_transition e), m1)
            | Inr r \<Rightarrow> (Inr (), set_run (r\<lparr>lv_error := Some ''server_shutdown''\<rparr>) m1))"

fun abandon_runs :: "manager_services \<Rightarrow> string option \<Rightarrow> (nat \<Rightarrow> real) \<Rightarrow> string list \<Rightarrow> run_manager \<Rightarrow> (manager_error + unit) \<times> run_manager" where
  "abandon_runs sv env ck [] m = (Inr (), m)"
| "abandon_runs sv env ck (run_id # rest) m =
     (case abandon_run sv env (ck 0) (ck 1) run_id m of
        (Inl e, m1) \<Rightarrow> (Inl e, m1)
      | (Inr _, m1) \<Rightarrow> abandon_runs sv env (\<lambda>i. ck (i + 2)) rest m1)"

definition shutdown_finish :: "manager_services \<Rightarrow> string option \<Rightarrow> (nat \<Rightarrow> real) \<Rightarrow> run_manager \<Rightarrow> (manager_error + unit) \<times> run_manager" where
  "shutdown_finish sv env ck m = abandon_runs sv env ck (rm_active_run_ids m) m"

definition drain_start :: "run_manager \<Rightarrow> run_manager" where
  "drain_start m = m\<lparr>rm_shutdown := True\<rparr>"

section \<open>Interleavings\<close>

datatype manager_event =
    Ev_create "nat \<Rightarrow> real" "nat \<Rightarrow> string" "(string \<times> json) list" "workspace_ctx option"
  | Ev_start real string
  | Ev_poll "nat \<Rightarrow> real"
  | Ev_acquire
  | Ev_timeout "nat \<Rightarrow> real"
  | Ev_begin "nat \<Rightarrow> real" "nat \<Rightarrow> string" string
  | Ev_end "nat \<Rightarrow> real" "nat \<Rightarrow> string" string executor_outcome
  | Ev_beat "nat \<Rightarrow> real" "nat \<Rightarrow> string" string
  | Ev_cancel "nat \<Rightarrow> real" string "workspace_ctx option"
  | Ev_stage real string json string
  | Ev_token string bool
  | Ev_shutdown
  | Ev_abandon "nat \<Rightarrow> real"
  | Ev_drain

fun manager_step :: "(manager_error \<Rightarrow> string) \<Rightarrow> manager_services \<Rightarrow> string option \<Rightarrow> manager_event \<Rightarrow> run_manager \<Rightarrow> run_manager" where
  "manager_step et sv env (Ev_create ck uu contract ws) m = snd (create_run sv env ck uu contract ws m)"
| "manager_step et sv env (Ev_start now run_id) m = snd (start_run sv now run_id m)"
| "manager_step et sv env (Ev_poll ck) m = (if rm_run_queue m = None then legacy_poll m else snd (worker_poll sv env ck m))"
| "manager_step et sv env Ev_acquire m = worker_acquire m"
| "manager_step et sv env (Ev_timeout ck) m = snd (worker_timeout sv env ck m)"
| "manager_step et sv env (Ev_begin ck uu run_id) m = snd (execute_begin sv env ck uu run_id m)"
| "manager_step et sv env (Ev_end ck uu run_id out) m = snd (execute_end et sv env ck uu run_id out m)"
| "manager_step et sv env (Ev_beat ck uu run_id) m = heartbeat_tick sv env ck uu run_id m"
| "manager_step et sv env (Ev_cancel ck run_id ws) m = snd (cancel_run sv env ck run_id ws m)"
| "manager_step et sv env (Ev_stage now type payload run_id) m = on_stage_event sv now type payload run_id m"
| "manager_step et sv env (Ev_token run_id on) m = (if on then register_cancellation_token run_id m else unregister_cancellation_token run_id m)"
| "manager_step et sv env Ev_shutdown m = shutdown_start m"
| "manager_step et sv env (Ev_abandon ck) m = snd (shutdown_finish sv env ck m)"
| "manager_step et sv env Ev_drain m = drain_start m"

end
