(* ===== verification/Run_Manager_Laws.thy ===== *)
theory Run_Manager_Laws
  imports Run_Threads
begin

text \<open>
  What the run manager guarantees over any interleaving of its threads, and where it falls short: the bound on concurrent
  runs, terminal states, the tenant of a new run; and that under a strict posture no executor is ever called.
\<close>

section \<open>What each operation touches\<close>

lemma publish_frame:
  "publish_run_event sv env now eid rid ty pl run m = (x, m') \<Longrightarrow> \<exists>sq es. m' = m\<lparr>rm_event_seqs := sq, rm_event_store := es\<rparr>"
proof -
  assume p: "publish_run_event sv env now eid rid ty pl run m = (x, m')"
  show ?thesis
  proof (cases "rm_event_store m")
    case None
    then have "m' = m\<lparr>rm_event_seqs := rm_event_seqs m, rm_event_store := rm_event_store m\<rparr>" using p by (simp add: publish_run_event_def)
    then show ?thesis by blast
  next
    case (Some es)
    obtain sq where "m' = m\<lparr>rm_event_seqs := sq\<rparr> \<or> (\<exists>es'. m' = m\<lparr>rm_event_seqs := sq, rm_event_store := Some es'\<rparr>)"
      using p Some by (auto simp: publish_run_event_def Let_def split: option.splits)
    then show ?thesis
    proof
      assume "m' = m\<lparr>rm_event_seqs := sq\<rparr>"
      then have "m' = m\<lparr>rm_event_seqs := sq, rm_event_store := rm_event_store m\<rparr>" by simp
      then show ?thesis by blast
    qed blast
  qed
qed

lemma publish_two_frame:
  "publish_two sv env n1 i1 t1 p1 n2 i2 t2 p2 run m = (x, m') \<Longrightarrow> \<exists>sq es. m' = m\<lparr>rm_event_seqs := sq, rm_event_store := es\<rparr>"
proof -
  assume p: "publish_two sv env n1 i1 t1 p1 n2 i2 t2 p2 run m = (x, m')"
  obtain y m1 where q: "publish_run_event sv env n1 i1 (lv_run_id run) t1 p1 run m = (y, m1)" by fastforce
  obtain sq es where m1: "m1 = m\<lparr>rm_event_seqs := sq, rm_event_store := es\<rparr>" using publish_frame [OF q] by blast
  show ?thesis
  proof (cases y)
    case (Inl e)
    then show ?thesis using p q m1 by (auto simp: publish_two_def)
  next
    case (Inr u)
    then have "publish_run_event sv env n2 i2 (lv_run_id run) t2 p2 run m1 = (x, m')" using p q by (simp add: publish_two_def)
    from publish_frame [OF this] obtain sq' es' where "m' = m1\<lparr>rm_event_seqs := sq', rm_event_store := es'\<rparr>" by blast
    then have "m' = m\<lparr>rm_event_seqs := sq', rm_event_store := es'\<rparr>" using m1 by simp
    then show ?thesis by blast
  qed
qed

text \<open>A part of the manager that takes, moves and returns no slot.\<close>

definition slots :: "run_manager \<Rightarrow> nat \<times> string list \<times> string list \<times> nat" where
  "slots m = (rm_permits m, rm_starting m, rm_executing m, rm_max_concurrent m)"

lemma slots_set_run [simp]: "slots (set_run r m) = slots m"
  by (simp add: slots_def set_run_def)

lemma publish_slots: "slots (snd (publish_run_event sv env now eid rid ty pl run m)) = slots m"
  using publish_frame [of sv env now eid rid ty pl run m] by (cases "publish_run_event sv env now eid rid ty pl run m") (auto simp: slots_def)

lemma persist_slots: "slots (snd (persist_run sv env t1 t2 tenant run ws m)) = slots m"
  by (auto simp: persist_run_def slots_def Let_def split: option.splits)

lemma reserve_slots: "slots (snd (reserve_run sv env now tenant cand contract ws m)) = slots m"
  by (auto simp: reserve_run_def slots_def Let_def split: option.splits prod.splits sum.splits outcome.splits)

lemma register_slots: "slots (snd (register_run sv env ck eid tenant run ws m)) = slots m"
proof -
  obtain x m1 where p: "publish_run_event sv env (ck 2) eid (lv_run_id run) ''run_queued''
      [(''state'', JStr ''created''), (''created_at'', JStr (lv_created_at run))] run (set_run run m) = (x, m1)" by fastforce
  have "slots m1 = slots m" using publish_slots [of sv env "ck 2" eid "lv_run_id run" "''run_queued''" _ run "set_run run m"] p by (metis slots_set_run snd_conv)
  moreover obtain y m2 where q: "persist_run sv env (ck 3) (ck 4) tenant run ws m1 = (y, m2)" by fastforce
  moreover have "slots m2 = slots m1" using persist_slots [of sv env "ck 3" "ck 4" tenant run ws m1] q by simp
  moreover have "slots (m\<lparr>rm_idempotency_store := i\<rparr>) = slots m" for i by (simp add: slots_def)
  ultimately show ?thesis using p by (cases x; cases y) (auto simp: register_run_def Let_def split: option.splits)
qed

lemma create_slots: "slots (snd (create_run sv env ck uu contract ws m)) = slots m"
proof (cases "resolve_run_tenant env contract ws")
  case (Inr tenant)
  obtain x m1 where r: "reserve_run sv env (ck 0) tenant (uu 0) contract ws m = (x, m1)" by fastforce
  have "slots m1 = slots m" using reserve_slots [of sv env "ck 0" tenant "uu 0" contract ws m] r by simp
  then show ?thesis using Inr r by (auto simp: create_run_def Let_def register_slots split: sum.splits reservation.splits option.splits)
qed (simp add: create_run_def)

lemma start_slots: "slots (snd (start_run sv now rid m)) = slots m"
  by (auto simp: start_run_def ensure_worker_started_def slots_def set_run_def Let_def split: option.splits sum.splits)

lemma worker_fail_slots: "slots (snd (worker_fail sv env now rid t q m)) = slots m"
  by (auto simp: worker_fail_def slots_def split: prod.splits sum.splits)

lemma go_idle_slots: "slots (go_idle m) = slots m"
  by (simp add: go_idle_def slots_def Let_def)

lemma worker_poll_slots: "slots (snd (worker_poll sv env ck m)) = slots m"
proof -
  have upd: "slots (m'\<lparr>rm_run_queue := q\<rparr>) = slots m'" "slots (m'\<lparr>rm_worker := w\<rparr>) = slots m'" "slots (m'\<lparr>rm_idle_cycles := n\<rparr>) = slots m'"
    "slots (m'\<lparr>rm_pending_executors := p\<rparr>) = slots m'" "slots (m'\<lparr>rm_release_count := c\<rparr>) = slots m'" for m' q w n p c
    by (simp_all add: slots_def)
  show ?thesis
    by (auto simp: worker_poll_def Let_def worker_fail_slots go_idle_slots upd split: worker_state.splits option.splits prod.splits bool.splits if_splits)
qed

lemma legacy_poll_slots: "slots (legacy_poll m) = slots m"
  by (auto simp: legacy_poll_def slots_def Let_def split: worker_state.splits option.splits list.splits prod.splits)

lemma worker_timeout_slots: "slots (snd (worker_timeout sv env ck m)) = slots m"
proof -
  have upd: "slots (m'\<lparr>rm_worker := w\<rparr>) = slots m'" for m' w by (simp add: slots_def)
  have wf: "worker_fail sv env now rid t q m' = (x, m1) \<Longrightarrow> slots m1 = slots m'" for now rid t q m' x m1
    using worker_fail_slots [of sv env now rid t q m'] by simp
  show ?thesis
    by (auto simp: worker_timeout_def Let_def upd split: worker_state.splits option.splits prod.splits sum.splits dest!: wf)
qed

lemma cancel_slots: "slots (snd (cancel_run sv env ck rid ws m)) = slots m"
  by (auto simp: cancel_run_def slots_def set_run_def Let_def split: option.splits sum.splits)

lemma stage_slots: "slots (on_stage_event sv now ty pl rid m) = slots m"
  by (auto simp: on_stage_event_def Let_def split: json.splits option.splits)

lemma heartbeat_slots: "slots (heartbeat_tick sv env ck uu rid m) = slots m"
proof -
  have upd: "slots (m'\<lparr>rm_run_queue := q\<rparr>) = slots m'" "slots (m'\<lparr>rm_heartbeats := h\<rparr>) = slots m'" for m' q h by (simp_all add: slots_def)
  have pub: "publish_run_event sv env now eid r ty pl run m' = (x, m1) \<Longrightarrow> slots m1 = slots m'" for now eid r ty pl run m' x m1
    using publish_slots [of sv env now eid r ty pl run m'] by simp
  show ?thesis
    by (auto simp: heartbeat_tick_def Let_def publish_slots upd split: option.splits prod.splits sum.splits bool.splits if_splits dest!: pub)
qed

lemma abandon_slots: "slots (snd (abandon_run sv env t1 t2 rid m)) = slots m"
  by (auto simp: abandon_run_def slots_def set_run_def Let_def split: option.splits sum.splits)

lemma abandons_slots: "slots (snd (abandon_runs sv env ck rids m)) = slots m"
proof (induction rids arbitrary: ck m)
  case (Cons rid rids)
  obtain x m1 where a: "abandon_run sv env (ck 0) (ck 1) rid m = (x, m1)" by fastforce
  then have "slots m1 = slots m" using abandon_slots [of sv env "ck 0" "ck 1" rid m] by simp
  then show ?case using Cons.IH [of "\<lambda>i. ck (i + 2)" m1] a by (cases x) auto
qed simp

lemma begin_slots:
  assumes "execute_begin sv env ck uu rid m = (x, m')" "rid \<in> set (rm_starting m)"
  shows "slots m' = (rm_permits m, remove1 rid (rm_starting m), rm_executing m @ (if x = Inr () then [rid] else []), rm_max_concurrent m)"
proof -
  have pub: "publish_run_event sv env now eid r ty pl run m' = (x, m1) \<Longrightarrow> slots m1 = slots m'" for now eid r ty pl run m' x m1
    using publish_slots [of sv env now eid r ty pl run m'] by simp
  have pub2: "publish_two sv env n1 i1 t1 p1 n2 i2 t2 p2 run m' = (x, m1) \<Longrightarrow> slots m1 = slots m'" for n1 i1 t1 p1 n2 i2 t2 p2 run m' x m1
    by (drule publish_two_frame) (auto simp: slots_def)
  show ?thesis
    using assms
    by (auto simp: execute_begin_def Let_def slots_def set_run_def split: option.splits prod.splits sum.splits if_splits
        dest!: pub [unfolded slots_def] pub2 [unfolded slots_def])
qed

lemma settle_queue_slots: "slots (snd (settle_queue sv env now ok run m)) = slots m"
  by (auto simp: settle_queue_def slots_def split: option.splits prod.splits)

lemma except_slots: "slots (snd (execute_except sv env ck rid exc m)) = slots m"
proof -
  have q: "settle_queue sv env now ok run m' = (x, m1) \<Longrightarrow> slots m1 = slots m'" for now ok run m' x m1
    using settle_queue_slots [of sv env now ok run m'] by simp
  show ?thesis by (auto simp: execute_except_def Let_def split: option.splits sum.splits prod.splits dest!: q)
qed

lemma try_slots: "slots (snd (execute_try et sv env ck rid out m)) = slots m"
proof -
  have q: "settle_queue sv env now ok run m' = (x, m1) \<Longrightarrow> slots m1 = slots m'" for now ok run m' x m1
    using settle_queue_slots [of sv env now ok run m'] by simp
  show ?thesis by (auto simp: execute_try_def Let_def except_slots split: executor_outcome.splits option.splits sum.splits prod.splits dest!: q)
qed

lemma finally_slots:
  assumes "execute_finally sv env ck uu rid m = (x, m')"
  shows "slots m' = slots m \<or> slots m' = (Suc (rm_permits m), rm_starting m, rm_executing m, rm_max_concurrent m)"
proof -
  have pub2: "publish_two sv env n1 i1 t1 p1 n2 i2 t2 p2 run m' = (x, m1) \<Longrightarrow> slots m1 = slots m'" for n1 i1 t1 p1 n2 i2 t2 p2 run m' x m1
    by (drule publish_two_frame) (auto simp: slots_def)
  have sync: "sync_run_store env now run m' = (x, m1) \<Longrightarrow> slots m1 = slots m'" for now run m' x m1
    by (auto simp: sync_run_store_def slots_def Let_def split: option.splits prod.splits)
  have idem: "slots (settle_idempotency sv env t1 t2 run m') = slots m'" for t1 t2 run m'
    by (auto simp: settle_idempotency_def slots_def split: option.splits)
  show ?thesis
    using assms idem
    by (auto simp: execute_finally_def Let_def set_run_def slots_def split: option.splits prod.splits sum.splits
        dest!: pub2 [unfolded slots_def] sync [unfolded slots_def])
qed

lemma end_slots:
  assumes "execute_end et sv env ck uu rid out m = (x, m')" "rid \<in> set (rm_executing m)"
  shows "\<exists>p. slots m' = (p, rm_starting m, remove1 rid (rm_executing m), rm_max_concurrent m) \<and> p \<le> Suc (rm_permits m)"
proof -
  let ?m = "m\<lparr>rm_executing := remove1 rid (rm_executing m)\<rparr>"
  obtain y m1 where t: "execute_try et sv env ck rid out ?m = (y, m1)" by fastforce
  obtain z m2 where f: "execute_finally sv env ck uu rid m1 = (z, m2)" by fastforce
  have "slots m1 = slots ?m" using try_slots [of et sv env ck rid out ?m] t by simp
  moreover have "m' = m2" using assms t f by (auto simp: execute_end_def split: sum.splits)
  ultimately show ?thesis using finally_slots [OF f] by (auto simp: slots_def)
qed

section \<open>The bound on concurrent runs\<close>

text \<open>The slots that are free or held by a thread that will return it.\<close>

definition capacity :: "run_manager \<Rightarrow> nat" where
  "capacity m = rm_permits m + length (rm_starting m) + length (rm_executing m)"

lemma capacity_cong: "slots m' = slots m \<Longrightarrow> capacity m' = capacity m"
  by (simp add: slots_def capacity_def)

lemma length_remove1_mem: "x \<in> set xs \<Longrightarrow> Suc (length (remove1 x xs)) = length xs"
  by (induction xs) auto

lemmas quiet_slots = create_slots start_slots worker_poll_slots legacy_poll_slots worker_timeout_slots cancel_slots stage_slots heartbeat_slots abandons_slots

lemma manager_step_slots:
  "(\<forall>ck uu rid. e \<noteq> Ev_begin ck uu rid) \<Longrightarrow> (\<forall>ck uu rid out. e \<noteq> Ev_end ck uu rid out) \<Longrightarrow> e \<noteq> Ev_acquire \<Longrightarrow>
   slots (manager_step et sv env e m) = slots m"
  by (cases e) (simp_all add: quiet_slots shutdown_finish_def, simp_all add: slots_def register_cancellation_token_def
      unregister_cancellation_token_def shutdown_start_def drain_start_def)

lemma begin_capacity:
  assumes "execute_begin sv env ck uu rid m = (x, m')" "rid \<in> set (rm_starting m)"
  shows "capacity m' = (if x = Inr () then capacity m else capacity m - 1)" "0 < capacity m"
  using begin_slots [OF assms] length_remove1_mem [OF assms(2)] by (auto simp: slots_def capacity_def)

lemma end_capacity:
  assumes "execute_end et sv env ck uu rid out m = (x, m')" "rid \<in> set (rm_executing m)"
  shows "capacity m' \<le> capacity m"
  using end_slots [OF assms] length_remove1_mem [OF assms(2)] by (auto simp: slots_def capacity_def)

lemma acquire_capacity: "capacity (worker_acquire m) = capacity m"
  by (auto simp: worker_acquire_def capacity_def split: worker_state.split)

lemma manager_step_capacity: "capacity (manager_step et sv env e m) \<le> capacity m"
proof -
  consider (acq) "e = Ev_acquire" | (beg) ck uu rid where "e = Ev_begin ck uu rid" | (fin) ck uu rid out where "e = Ev_end ck uu rid out"
    | (other) "(\<forall>ck uu rid. e \<noteq> Ev_begin ck uu rid)" "(\<forall>ck uu rid out. e \<noteq> Ev_end ck uu rid out)" "e \<noteq> Ev_acquire" by blast
  then show ?thesis
  proof cases
    case beg
    obtain x m' where b: "execute_begin sv env ck uu rid m = (x, m')" by fastforce
    show ?thesis
      using begin_capacity [OF b] beg b by (cases "rid \<in> set (rm_starting m)") (auto simp: execute_begin_def)
  next
    case fin
    obtain x m' where b: "execute_end et sv env ck uu rid out m = (x, m')" by fastforce
    show ?thesis
      using end_capacity [OF b] fin b by (cases "rid \<in> set (rm_executing m)") (auto simp: execute_end_def)
  next
    case other
    show ?thesis using capacity_cong [OF manager_step_slots [OF other]] by simp
  qed (simp add: acquire_capacity)
qed

definition run_trace :: "(manager_error \<Rightarrow> string) \<Rightarrow> manager_services \<Rightarrow> string option \<Rightarrow> manager_event list \<Rightarrow> run_manager \<Rightarrow> run_manager" where
  "run_trace et sv env evs m = fold (manager_step et sv env) evs m"

lemma run_trace_simps [simp]: "run_trace et sv env [] m = m" "run_trace et sv env (e # es) m = run_trace et sv env es (manager_step et sv env e m)"
  by (simp_all add: run_trace_def)

interpretation manager_slots: op_system "manager_step et sv env" "\<lambda>m. capacity m \<le> n" for et sv env n
  by unfold_locales (meson manager_step_capacity order_trans)

lemma run_trace_capacity: "capacity (run_trace et sv env evs m) \<le> capacity m"
  unfolding run_trace_def by (rule manager_slots.run_inv) simp

section \<open>What happens to a run\<close>

text \<open>A registered run stays registered, with its identifier and tenant; a terminal state stays.\<close>

definition same_run :: "live_run \<Rightarrow> live_run \<Rightarrow> bool" where
  "same_run r r' = (lv_run_id r' = lv_run_id r \<and> lv_tenant_id r' = lv_tenant_id r \<and> (is_terminal (lv_state r) \<longrightarrow> lv_state r' = lv_state r))"

definition keyed :: "(string \<times> live_run) list \<Rightarrow> bool" where
  "keyed rs = (\<forall>k r. map_of rs k = Some r \<longrightarrow> lv_run_id r = k)"

definition survive :: "(string \<times> live_run) list \<Rightarrow> (string \<times> live_run) list \<Rightarrow> bool" where
  "survive rs rs' = (\<forall>k r. map_of rs k = Some r \<longrightarrow> (\<exists>r'. map_of rs' k = Some r' \<and> same_run r r'))"

definition only_new :: "string set \<Rightarrow> (string \<times> live_run) list \<Rightarrow> (string \<times> live_run) list \<Rightarrow> bool" where
  "only_new N rs rs' = (\<forall>k. map_of rs k = None \<longrightarrow> k \<in> N \<or> map_of rs' k = None)"

definition run_le :: "string set \<Rightarrow> (string \<times> live_run) list \<Rightarrow> (string \<times> live_run) list \<Rightarrow> bool" where
  "run_le N rs rs' = (keyed rs \<longrightarrow> keyed rs' \<and> survive rs rs' \<and> only_new N rs rs')"

definition keeps :: "string set \<Rightarrow> run_manager \<Rightarrow> run_manager \<Rightarrow> bool" where
  "keeps N m m' = ((rm_run_store m' = None) = (rm_run_store m = None) \<and> (rm_run_queue m' = None) = (rm_run_queue m = None) \<and>
     run_le N (rm_runs m) (rm_runs m'))"

lemma same_run_refl [simp]: "same_run r r"
  by (simp add: same_run_def)

lemma same_run_trans: "same_run r r' \<Longrightarrow> same_run r' r'' \<Longrightarrow> same_run r r''"
  by (auto simp: same_run_def)

lemma run_le_refl [simp]: "run_le N rs rs"
  by (simp add: run_le_def survive_def only_new_def)

lemma survive_trans: "survive rs rs' \<Longrightarrow> survive rs' rs'' \<Longrightarrow> survive rs rs''"
  unfolding survive_def by (meson same_run_trans)

lemma only_new_trans: "only_new N rs rs' \<Longrightarrow> only_new N rs' rs'' \<Longrightarrow> only_new N rs rs''"
  unfolding only_new_def by meson

lemma run_le_trans: "run_le N rs rs' \<Longrightarrow> run_le N rs' rs'' \<Longrightarrow> run_le N rs rs''"
  unfolding run_le_def using survive_trans only_new_trans by meson

lemmas run_le_defs = run_le_def keyed_def survive_def only_new_def

lemma keeps_refl [simp]: "keeps N m m"
  by (simp add: keeps_def)

lemma keeps_trans: "keeps N m m' \<Longrightarrow> keeps N m' m'' \<Longrightarrow> keeps N m m''"
  unfolding keeps_def using run_le_trans [of N "rm_runs m" "rm_runs m'" "rm_runs m''"] by simp

lemma run_le_set: "map_of rs k = Some r \<Longrightarrow> same_run r r' \<Longrightarrow> run_le N rs (dict_set (lv_run_id r') r' rs)"
  unfolding run_le_defs same_run_def by (auto split: if_splits)

lemma run_le_set': "map_of rs k = Some r \<Longrightarrow> same_run r r' \<Longrightarrow> lv_run_id r' = k' \<Longrightarrow> run_le N rs (dict_set k' r' rs)"
  using run_le_set by blast

lemma run_le_new: "map_of rs (lv_run_id r) = None \<Longrightarrow> lv_run_id r \<in> N \<Longrightarrow> run_le N rs (dict_set (lv_run_id r) r rs)"
  unfolding run_le_defs by auto

lemma transition_same_run:
  assumes "transition_run r t = Inr r'"
  shows "same_run r r'"
proof (cases "is_terminal (lv_state r)")
  case True
  then show ?thesis using assms terminal_no_exit [OF True]
    by (auto simp: transition_run_def transition_def same_run_def Let_def split: sum.splits option.splits if_splits)
next
  case False
  then show ?thesis using assms by (auto simp: transition_run_def same_run_def split: sum.splits)
qed

lemma transition_keeps_fields:
  "transition_run r t = Inr r' \<Longrightarrow> lv_run_id r' = lv_run_id r \<and> lv_tenant_id r' = lv_tenant_id r \<and> lv_idempotency_key r' = lv_idempotency_key r"
  by (auto simp: transition_run_def split: sum.splits)

lemma publish_parts:
  "publish_run_event sv env now eid rid ty pl run m = (x, m') \<Longrightarrow>
   rm_runs m' = rm_runs m \<and> rm_run_store m' = rm_run_store m \<and> rm_run_queue m' = rm_run_queue m"
  by (drule publish_frame) auto

lemma publish_two_parts:
  "publish_two sv env n1 i1 t1 p1 n2 i2 t2 p2 run m = (x, m') \<Longrightarrow>
   rm_runs m' = rm_runs m \<and> rm_run_store m' = rm_run_store m \<and> rm_run_queue m' = rm_run_queue m"
  by (drule publish_two_frame) auto

lemma keeps_parts:
  "rm_runs m' = rm_runs m \<Longrightarrow> (rm_run_store m' = None) = (rm_run_store m = None) \<Longrightarrow> (rm_run_queue m' = None) = (rm_run_queue m = None) \<Longrightarrow> keeps N m m'"
  by (simp add: keeps_def)

lemma keeps_set:
  "map_of (rm_runs m) k = Some r \<Longrightarrow> same_run r r' \<Longrightarrow> rm_runs m1 = rm_runs m \<Longrightarrow>
   (rm_run_store m1 = None) = (rm_run_store m = None) \<Longrightarrow> (rm_run_queue m1 = None) = (rm_run_queue m = None) \<Longrightarrow> keeps N m (set_run r' m1)"
  using run_le_set [of "rm_runs m" k r r' N] by (simp add: keeps_def set_run_def)

lemma same_run_upd:
  "same_run r r' \<Longrightarrow> same_run r (r'\<lparr>lv_error := e, lv_updated_at := u\<rparr>)" "same_run r r' \<Longrightarrow> same_run r (r'\<lparr>lv_updated_at := u\<rparr>)"
  "same_run r r' \<Longrightarrow> same_run r (r'\<lparr>lv_error := e\<rparr>)" "same_run r r' \<Longrightarrow> same_run r (r'\<lparr>lv_updated_at := u, lv_started_at := v\<rparr>)"
  "same_run r r' \<Longrightarrow> same_run r (r'\<lparr>lv_result := w, lv_updated_at := u\<rparr>)" "same_run r (r\<lparr>lv_finished_at := f\<rparr>)"
  "same_run r (r\<lparr>lv_current_stage := c, lv_stage_updated_at := d\<rparr>)"
  by (simp_all add: same_run_def)

lemma reserve_keeps: "keeps N m (snd (reserve_run sv env now tenant cand contract ws m)) \<and> rm_runs (snd (reserve_run sv env now tenant cand contract ws m)) = rm_runs m"
  by (auto simp: reserve_run_def keeps_def Let_def split: option.splits prod.splits sum.splits outcome.splits)

lemma persist_keeps: "keeps N m (snd (persist_run sv env t1 t2 tenant run ws m))"
  by (auto simp: persist_run_def keeps_def Let_def split: option.splits)

lemma register_keeps:
  assumes "map_of (rm_runs m) (lv_run_id run) = None" "lv_run_id run \<in> N"
  shows "keeps N m (snd (register_run sv env ck eid tenant run ws m))"
proof -
  obtain x m1 where p: "publish_run_event sv env (ck 2) eid (lv_run_id run) ''run_queued''
      [(''state'', JStr ''created''), (''created_at'', JStr (lv_created_at run))] run (set_run run m) = (x, m1)" by fastforce
  have "keeps N m m1" using publish_parts [OF p] run_le_new [OF assms] by (simp add: keeps_def set_run_def)
  moreover obtain y m2 where q: "persist_run sv env (ck 3) (ck 4) tenant run ws m1 = (y, m2)" by fastforce
  moreover have "keeps N m1 m2" using persist_keeps [of N m1 sv env "ck 3" "ck 4" tenant run ws] q by simp
  moreover have "keeps N m (m\<lparr>rm_idempotency_store := i\<rparr>)" for i by (simp add: keeps_def)
  ultimately show ?thesis using p keeps_trans [of N m m1 m2]
    by (cases x; cases y) (auto simp: register_run_def Let_def split: option.splits)
qed

lemma create_keeps:
  assumes "map_of (rm_runs m) (uu 0) = None" "uu 0 \<in> N"
  shows "keeps N m (snd (create_run sv env ck uu contract ws m))"
proof (cases "resolve_run_tenant env contract ws")
  case (Inr tenant)
  obtain x m1 where r: "reserve_run sv env (ck 0) tenant (uu 0) contract ws m = (x, m1)" by fastforce
  have k: "keeps N m m1" "rm_runs m1 = rm_runs m" using reserve_keeps [of N m sv env "ck 0" tenant "uu 0" contract ws] r by simp_all
  have "keeps N m (snd (register_run sv env ck eid tenant (new_run sv ni (uu 0) ai contract ws key) ws m1))" for eid ni ai key
    by (rule keeps_trans [OF k(1) register_keeps]) (simp_all add: new_run_def k(2) assms)
  then show ?thesis using Inr r k by (auto simp: create_run_def Let_def split: sum.splits reservation.splits option.splits)
qed (simp add: create_run_def)

lemma start_keeps: "keeps N m (snd (start_run sv now rid m))"
  by (auto simp: start_run_def ensure_worker_started_def keeps_def set_run_def Let_def split: option.splits sum.splits
      intro!: run_le_set' same_run_upd dest!: transition_same_run)

lemma worker_fail_keeps: "rm_run_queue m \<noteq> None \<Longrightarrow> keeps N m (snd (worker_fail sv env now rid t q m))"
  by (auto simp: worker_fail_def intro!: keeps_parts split: prod.splits sum.splits)

lemma go_idle_keeps: "keeps N m (go_idle m)"
  by (auto simp: go_idle_def Let_def intro!: keeps_parts)

lemma worker_poll_keeps: "keeps N m (snd (worker_poll sv env ck m))"
  by (simp add: worker_poll_def worker_fail_def go_idle_def keeps_def Let_def
      split: worker_state.splits option.splits prod.splits bool.splits sum.splits)

lemma legacy_poll_keeps: "keeps N m (legacy_poll m)"
  by (auto simp: legacy_poll_def Let_def intro!: keeps_parts split: worker_state.splits option.splits list.splits prod.splits)

lemma acquire_keeps: "keeps N m (worker_acquire m)"
  by (auto simp: worker_acquire_def intro!: keeps_parts split: worker_state.splits)

lemma worker_timeout_keeps: "keeps N m (snd (worker_timeout sv env ck m))"
proof -
  have wf: "worker_fail sv env now rid t q m' = (x, m1) \<Longrightarrow> rm_runs m1 = rm_runs m' \<and> rm_run_store m1 = rm_run_store m' \<and> rm_run_queue m1 \<noteq> None" for now rid t q m' x m1
    by (auto simp: worker_fail_def split: prod.splits sum.splits)
  show ?thesis
    by (auto simp: worker_timeout_def keeps_def set_run_def Let_def intro!: run_le_set' same_run_upd
        split: worker_state.splits option.splits prod.splits sum.splits dest!: wf transition_same_run)
qed

lemma get_run_registered: "get_run rid ws m = Some r \<Longrightarrow> map_of (rm_runs m) rid = Some r"
  by (auto simp: get_run_def split: option.splits if_splits)

lemma cancel_keeps: "keeps N m (snd (cancel_run sv env ck rid ws m))"
proof (cases "get_run rid ws m")
  case (Some r)
  show ?thesis
  proof (cases "transition_run r ''cancelled''")
    case (Inr r')
    have "run_le N (rm_runs m) (dict_set (lv_run_id r') (r'\<lparr>lv_updated_at := mg_iso sv (ck 0)\<rparr>) (rm_runs m))"
      by (rule run_le_set' [OF get_run_registered [OF Some]]) (simp_all add: same_run_upd transition_same_run [OF Inr])
    then show ?thesis using Some Inr by (simp add: cancel_run_def Let_def keeps_def set_run_def)
  qed (use Some in \<open>simp add: cancel_run_def\<close>)
qed (simp add: cancel_run_def)

lemma keeps_if: "keeps N m x \<Longrightarrow> keeps N m (if c then m else x)"
  by simp

lemma stage_keeps: "keeps N m (on_stage_event sv now ty pl rid m)"
proof -
  have gen: "keeps N m (case p of Some (JObj d) \<Rightarrow> (if A d then m else if B d then m else case map_of (rm_runs m) rid of None \<Rightarrow> m
      | Some run \<Rightarrow> set_run (run\<lparr>lv_current_stage := Some (C d), lv_stage_updated_at := u\<rparr>) m) | _ \<Rightarrow> m)" for p A B C u
    by (auto simp: keeps_def set_run_def intro!: run_le_set' same_run_upd split: option.split json.split)
  show ?thesis unfolding on_stage_event_def Let_def by (rule keeps_if, rule gen)
qed

lemma heartbeat_keeps: "keeps N m (heartbeat_tick sv env ck uu rid m)"
proof -
  consider "rm_run_queue m = None \<or> map_of (rm_runs m) rid = None \<or> rid \<notin> set (rm_heartbeats m)"
    | q run where "rm_run_queue m = Some q" "map_of (rm_runs m) rid = Some run" "rid \<in> set (rm_heartbeats m)" by fastforce
  then show ?thesis
  proof cases
    case 1
    then show ?thesis by (auto simp: heartbeat_tick_def split: option.splits)
  next
    case 2
    obtain b q' where h: "heartbeat env (ck 0) rid WORKER (Some (lv_tenant_id run)) q = (b, q')" by fastforce
    let ?m1 = "m\<lparr>rm_run_queue := Some q'\<rparr>"
    have k1: "keeps N m ?m1" using 2 by (simp add: keeps_def)
    have pub: "publish_run_event sv env now eid r ty pl x m' = (y, m2) \<Longrightarrow> keeps N m' m2" for now eid r ty pl x m' y m2
      by (drule publish_parts) (simp add: keeps_def)
    have pub': "keeps N m (snd (publish_run_event sv env now eid r ty pl x ?m1))" for now eid r ty pl x
      using pub [of now eid r ty pl x ?m1] keeps_trans [OF k1] by (cases "publish_run_event sv env now eid r ty pl x ?m1") simp
    have fin: "keeps N m (case publish_run_event sv env (ck 1) (uu 0) rid ty pl x (set_run x ?m1) of (Inl e, m2) \<Rightarrow> m2
        | (Inr _, m2) \<Rightarrow> (case rm_run_queue m2 of None \<Rightarrow> m2 | Some q2 \<Rightarrow> m2\<lparr>rm_run_queue := Some (f q2), rm_heartbeats := g m2\<rparr>))"
      if "same_run run x" for ty pl x f g
    proof -
      have "keeps N m (set_run x ?m1)" by (rule keeps_set [OF 2(2) that]) (use 2 in simp_all)
      moreover obtain y m2 where p: "publish_run_event sv env (ck 1) (uu 0) rid ty pl x (set_run x ?m1) = (y, m2)" by fastforce
      ultimately have "keeps N m m2" using pub keeps_trans by blast
      then show ?thesis using p by (auto simp: keeps_def split: sum.split option.split)
    qed
    have sr: "same_run run (r\<lparr>lv_error := e\<rparr>)" if "transition_run run ''failed'' = Inr r" for r e
      using transition_same_run [OF that] same_run_upd(3) by blast
    show ?thesis
    proof (cases b)
      case (Inl e)
      then show ?thesis using h 2 k1 by (simp add: heartbeat_tick_def)
    next
      case (Inr renewed)
      show ?thesis
      proof (cases renewed)
        case True
        then show ?thesis using h 2 Inr pub' by (simp add: heartbeat_tick_def)
      next
        case False
        then show ?thesis using h 2 Inr k1 fin [OF same_run_refl] fin [OF sr]
          by (simp add: heartbeat_tick_def Let_def split: sum.split)
      qed
    qed
  qed
qed

lemma settle_queue_keeps: "keeps N m (snd (settle_queue sv env now ok run m))"
  by (auto simp: settle_queue_def keeps_def split: option.splits prod.splits)

lemma except_keeps: "keeps N m (snd (execute_except sv env ck rid exc m))"
proof (cases "map_of (rm_runs m) rid")
  case (Some run)
  show ?thesis
  proof (cases "transition_run run ''failed''")
    case (Inr r)
    let ?r = "r\<lparr>lv_error := Some exc, lv_updated_at := mg_iso sv (ck 2)\<rparr>"
    have "keeps N m (set_run ?r m)" by (rule keeps_set [OF Some]) (simp_all add: same_run_upd transition_same_run [OF Inr])
    then have "keeps N m (snd (settle_queue sv env (ck 3) False ?r (set_run ?r m)))" using settle_queue_keeps keeps_trans by blast
    then show ?thesis using Some Inr by (auto simp: execute_except_def Let_def split: prod.splits sum.splits)
  qed (use Some in \<open>simp add: execute_except_def\<close>)
qed (simp add: execute_except_def)

lemma settle_same_run: "settle_result sv now res run = Inr run' \<Longrightarrow> same_run run run'"
  by (auto simp: settle_result_def Let_def intro!: same_run_upd split: option.splits sum.splits if_splits dest!: transition_same_run)

lemma try_keeps: "keeps N m (snd (execute_try et sv env ck rid out m))"
proof (cases out)
  case (Exec_returned res)
  show ?thesis
  proof (cases "map_of (rm_runs m) rid")
    case (Some run)
    show ?thesis
    proof (cases "settle_result sv (ck 0) res run")
      case (Inr run')
      obtain x m1 where q: "settle_queue sv env (ck 1) (lv_state run' = ''completed'') run' (set_run run' m) = (x, m1)" by fastforce
      have "keeps N m (set_run run' m)" by (rule keeps_set [OF Some settle_same_run [OF Inr]]) simp_all
      moreover have "keeps N (set_run run' m) m1" using settle_queue_keeps [of N "set_run run' m" sv env "ck 1" "lv_state run' = ''completed''" run'] by (simp only: q snd_conv)
      ultimately have "keeps N m m1" by (rule keeps_trans)
      then show ?thesis using Some Inr q Exec_returned keeps_trans [OF _ except_keeps]
        by (cases x) (simp_all add: execute_try_def)
    qed (use Some Exec_returned in \<open>simp add: execute_try_def except_keeps\<close>)
  qed (use Exec_returned in \<open>simp add: execute_try_def\<close>)
qed (simp add: execute_try_def except_keeps)

lemma sync_keeps: "sync_run_store env now run m = (x, m') \<Longrightarrow> keeps N m m'"
  by (auto simp: sync_run_store_def keeps_def Let_def split: option.splits prod.splits)

lemma finally_keeps: "keeps N m (snd (execute_finally sv env ck uu rid m))"
proof (cases "map_of (rm_runs m) rid")
  case (Some r0)
  let ?run = "r0\<lparr>lv_finished_at := (case lv_finished_at r0 of None \<Rightarrow> Some (mg_iso sv (ck 4)) | Some t \<Rightarrow> Some t)\<rparr>"
  let ?m1 = "set_run ?run (m\<lparr>rm_heartbeats := removeAll rid (rm_heartbeats m), rm_active_count := rm_active_count m - 1,
      rm_active_run_ids := removeAll rid (rm_active_run_ids m)\<rparr>)"
  have k1: "keeps N m ?m1" by (rule keeps_set [OF Some]) (simp_all add: same_run_upd)
  obtain x m2 where s: "sync_run_store env (ck 5) ?run ?m1 = (x, m2)" by fastforce
  have k2: "keeps N m m2" by (rule keeps_trans [OF k1 sync_keeps [OF s]])
  then have k3: "keeps N m (m2\<lparr>rm_permits := p\<rparr>)" for p by (simp add: keeps_def)
  have k4: "keeps N m m4" if "publish_two sv env n1 i1 t1 p1 n2 i2 t2 p2 run (m2\<lparr>rm_permits := p\<rparr>) = (y, m4)" for n1 i1 t1 p1 n2 i2 t2 p2 run p y m4
    using publish_two_parts [OF that] k2 by (simp add: keeps_def)
  have idem: "keeps N m' (settle_idempotency sv env t1 t2 run m')" for t1 t2 run m'
    by (auto simp: settle_idempotency_def keeps_def split: option.splits)
  show ?thesis
  proof (cases x)
    case (Inl e)
    then show ?thesis using Some s k2 by (simp add: execute_finally_def Let_def)
  next
    case (Inr u)
    then show ?thesis using Some s k4 keeps_trans [OF k4 idem]
      by (auto simp: execute_finally_def Let_def split: prod.split sum.split)
  qed
qed (simp add: execute_finally_def)

lemma end_keeps: "keeps N m (snd (execute_end et sv env ck uu rid out m))"
proof (cases "rid \<in> set (rm_executing m)")
  case True
  let ?m = "m\<lparr>rm_executing := remove1 rid (rm_executing m)\<rparr>"
  obtain y m1 where t: "execute_try et sv env ck rid out ?m = (y, m1)" by fastforce
  obtain z m2 where f: "execute_finally sv env ck uu rid m1 = (z, m2)" by fastforce
  have "keeps N m ?m" by (simp add: keeps_def)
  moreover have "keeps N ?m m1" using try_keeps [of N ?m et sv env ck rid out] t by simp
  moreover have "keeps N m1 m2" using finally_keeps [of N m1 sv env ck uu rid] f by simp
  ultimately have "keeps N m m2" using keeps_trans by blast
  then show ?thesis using True t f by (auto simp: execute_end_def split: sum.split)
qed (simp add: execute_end_def)

lemma begin_keeps: "keeps N m (snd (execute_begin sv env ck uu rid m))"
proof (cases "rid \<in> set (rm_starting m)")
  case True
  let ?m0 = "m\<lparr>rm_starting := remove1 rid (rm_starting m), rm_active_count := rm_active_count m + 1, rm_active_run_ids := add_once rid (rm_active_run_ids m)\<rparr>"
  have k0: "keeps N m ?m0" by (simp add: keeps_def)
  show ?thesis
  proof (cases "map_of (rm_runs m) rid")
    case (Some run)
    show ?thesis
    proof (cases "transition_run run ''running''")
      case (Inr r1)
      let ?run = "r1\<lparr>lv_updated_at := mg_iso sv (ck 0), lv_started_at := Some (mg_iso sv (ck 0))\<rparr>"
      have k1: "keeps N m (set_run ?run ?m0)" by (rule keeps_set [OF Some]) (simp_all add: same_run_upd transition_same_run [OF Inr])
      obtain x m2 where mk: "(case rm_run_store (set_run ?run ?m0) of None \<Rightarrow> (Inr (), set_run ?run ?m0)
          | Some rs \<Rightarrow> (case store_mark_running env (ck 1) rid None rs of (x, rs') \<Rightarrow> (x, (set_run ?run ?m0)\<lparr>rm_run_store := Some rs'\<rparr>))) = (x, m2)" by fastforce
      have k2: "keeps N m m2"
        by (rule keeps_trans [OF k1]) (use mk in \<open>auto simp: keeps_def split: option.splits prod.splits\<close>)
      have p1: "keeps N m m3" if "publish_run_event sv env n i rid t p r m2 = (y, m3)" for n i t p r y m3
        using publish_parts [OF that] k2 by (simp add: keeps_def)
      have p2: "keeps N m m3" if "publish_two sv env n i t p n' i' t' p' r (m2\<lparr>rm_heartbeats := h\<rparr>) = (y, m3)" for n i t p n' i' t' p' r h y m3
        using publish_two_parts [OF that] k2 by (simp add: keeps_def)
      have upd: "keeps N m m3 \<Longrightarrow> keeps N m (m3\<lparr>rm_executing := e\<rparr>)" for m3 e by (simp add: keeps_def)
      show ?thesis using True Some Inr mk k2 p1 p2 upd
        by (auto simp: execute_begin_def Let_def split: sum.split prod.split)
    qed (use True Some k0 in \<open>simp add: execute_begin_def Let_def\<close>)
  qed (use True k0 in \<open>simp add: execute_begin_def Let_def\<close>)
qed (simp add: execute_begin_def)

lemma abandon_keeps: "keeps N m (snd (abandon_run sv env t1 t2 rid m))"
  by (auto simp: abandon_run_def keeps_def set_run_def Let_def intro!: run_le_set' same_run_upd split: option.splits sum.splits dest!: transition_same_run)

lemma abandons_keeps: "keeps N m (snd (abandon_runs sv env ck rids m))"
proof (induction rids arbitrary: ck m)
  case (Cons rid rids)
  obtain x m1 where a: "abandon_run sv env (ck 0) (ck 1) rid m = (x, m1)" by fastforce
  have "keeps N m m1" using abandon_keeps [of N m sv env "ck 0" "ck 1" rid] a by simp
  then have "keeps N m (snd (abandon_runs sv env ck' rids m1))" for ck' using Cons.IH keeps_trans by blast
  with \<open>keeps N m m1\<close> show ?case using a by (cases x) simp_all
qed simp

text \<open>The identifier of a new run is fresh.\<close>

fun new_ids :: "manager_event \<Rightarrow> string set" where
  "new_ids (Ev_create ck uu contract ws) = {uu 0}"
| "new_ids e = {}"

definition fresh_ids :: "run_manager \<Rightarrow> manager_event \<Rightarrow> bool" where
  "fresh_ids m e = (\<forall>rid \<in> new_ids e. map_of (rm_runs m) rid = None)"

lemma manager_step_keeps: "fresh_ids m e \<Longrightarrow> keeps (new_ids e) m (manager_step et sv env e m)"
  by (cases e) (simp_all add: fresh_ids_def create_keeps start_keeps worker_poll_keeps legacy_poll_keeps acquire_keeps worker_timeout_keeps begin_keeps end_keeps
      heartbeat_keeps cancel_keeps stage_keeps abandons_keeps shutdown_finish_def, simp_all add: keeps_def register_cancellation_token_def
      unregister_cancellation_token_def shutdown_start_def drain_start_def)

lemma create_store: "(rm_run_store (snd (create_run sv env ck uu contract ws m)) = None) = (rm_run_store m = None)"
proof (cases "resolve_run_tenant env contract ws")
  case (Inr tenant)
  have reg: "(rm_run_store (snd (register_run sv env ck eid tenant run ws m')) = None) = (rm_run_store m' = None)" for eid run m'
  proof -
    obtain x m1 where p: "publish_run_event sv env (ck 2) eid (lv_run_id run) ''run_queued''
        [(''state'', JStr ''created''), (''created_at'', JStr (lv_created_at run))] run (set_run run m') = (x, m1)" by fastforce
    have "rm_run_store m1 = rm_run_store m'" using publish_parts [OF p] by (simp add: set_run_def)
    moreover obtain y m2 where q: "persist_run sv env (ck 3) (ck 4) tenant run ws m1 = (y, m2)" by fastforce
    moreover have "(rm_run_store m2 = None) = (rm_run_store m1 = None)"
      using persist_keeps [of "{}" m1 sv env "ck 3" "ck 4" tenant run ws] q by (simp add: keeps_def)
    ultimately show ?thesis using p by (cases x; cases y) (auto simp: register_run_def Let_def split: option.splits)
  qed
  obtain x m1 where r: "reserve_run sv env (ck 0) tenant (uu 0) contract ws m = (x, m1)" by fastforce
  have "(rm_run_store m1 = None) = (rm_run_store m = None)"
    using reserve_keeps [of "{}" m sv env "ck 0" tenant "uu 0" contract ws] r by (simp add: keeps_def)
  then show ?thesis using Inr r by (auto simp: create_run_def Let_def reg split: sum.splits reservation.splits option.splits)
qed (simp add: create_run_def)

lemma manager_step_store: "(rm_run_store (manager_step et sv env e m) = None) = (rm_run_store m = None)"
proof (cases "\<exists>ck uu contract ws. e = Ev_create ck uu contract ws")
  case True
  then show ?thesis using create_store by auto
next
  case False
  then have "fresh_ids m e" by (cases e) (auto simp: fresh_ids_def)
  then show ?thesis using manager_step_keeps [of m e et sv env] by (simp add: keeps_def)
qed

section \<open>A strict posture\<close>

lemma strict_store_scope:
  "posture_from_env env = Inr p \<Longrightarrow> is_strict p \<Longrightarrow> check_run_store_tenant_scope env None meth = Inl (Run_scope_error meth)"
  by (simp add: check_run_store_tenant_scope_def py_strip_def)

lemma strict_begin_raises:
  assumes "posture_from_env env = Inr p" "is_strict p" "rm_run_store m \<noteq> None" "rid \<in> set (rm_starting m)"
    "execute_begin sv env ck uu rid m = (x, m')"
  shows "\<exists>e. x = Inl e"
proof -
  obtain rs where rs: "rm_run_store m = Some rs" using assms(3) by blast
  have "store_mark_running env t rid None s = (Inl (Run_scope_error ''mark_running''), s)" for t s
    by (simp add: store_mark_running_def scoped_update_def strict_store_scope [OF assms(1,2)])
  then show ?thesis using assms(4,5) rs
    by (auto simp: execute_begin_def Let_def set_run_def split: option.splits sum.splits)
qed

end
