(* ===== verification/Run_Manager_Theorems.thy ===== *)
theory Run_Manager_Theorems
  imports Run_Manager_Laws
begin

text \<open>
  What the run manager guarantees over any interleaving of its threads, and where it falls short: the bound on concurrent
  runs, cancellation, the tenant of a new run, the end of a run in all the stores; and that under a strict posture no
  executor is ever called, that a cancelled waiting run costs a slot, that neither a recovered run nor a failed one is
  executed.
\<close>

section \<open>Traces\<close>

text \<open>Identifiers that \<open>create_run\<close> draws are fresh, also against those of earlier processes.\<close>

fun fresh_trace ::
  "(manager_error \<Rightarrow> string) \<Rightarrow> manager_services \<Rightarrow> string option \<Rightarrow> string set \<Rightarrow> manager_event list \<Rightarrow> run_manager \<Rightarrow> bool" where
  "fresh_trace et sv env used [] m = True"
| "fresh_trace et sv env used (e # es) m =
     (fresh_ids m e \<and> new_ids e \<inter> used = {} \<and> fresh_trace et sv env used es (manager_step et sv env e m))"

lemma run_trace_append: "run_trace et sv env (es @ es') m = run_trace et sv env es' (run_trace et sv env es m)"
  by (simp add: run_trace_def)

lemma mk_registry [simp]: "rm_runs (mk_run_manager n qs ids rs rq es) = []" "rm_executing (mk_run_manager n qs ids rs rq es) = []"
    "rm_run_store (mk_run_manager n qs ids rs rq es) = rs" "capacity (mk_run_manager n qs ids rs rq es) = n"
  by (simp_all add: mk_run_manager_def capacity_def)

lemma keyed_Nil [simp]: "keyed []"
  by (simp add: keyed_def)

lemma trace_keeps:
  assumes "fresh_trace et sv env used es m" "keyed (rm_runs m)"
  shows "keyed (rm_runs (run_trace et sv env es m)) \<and> survive (rm_runs m) (rm_runs (run_trace et sv env es m)) \<and>
    (\<forall>k\<in>used. map_of (rm_runs m) k = None \<longrightarrow> map_of (rm_runs (run_trace et sv env es m)) k = None)"
  using assms
proof (induction es arbitrary: m)
  case (Cons e es)
  let ?m = "manager_step et sv env e m"
  have f: "fresh_ids m e" "new_ids e \<inter> used = {}" "fresh_trace et sv env used es ?m" using Cons.prems(1) by simp_all
  have k: "keyed (rm_runs ?m)" "survive (rm_runs m) (rm_runs ?m)" "only_new (new_ids e) (rm_runs m) (rm_runs ?m)"
    using manager_step_keeps [OF f(1), of et sv env] Cons.prems(2) by (simp_all add: keeps_def run_le_def)
  note ih = Cons.IH [OF f(3) k(1)]
  have "map_of (rm_runs (run_trace et sv env es ?m)) key = None" if "key \<in> used" "map_of (rm_runs m) key = None" for key
  proof -
    have "map_of (rm_runs ?m) key = None" using k(3) f(2) that unfolding only_new_def by blast
    then show ?thesis using ih that(1) by blast
  qed
  then show ?case using ih survive_trans [OF k(2)] by simp
qed (simp add: survive_def)

lemma mk_trace_keyed:
  "fresh_trace et sv env used es (mk_run_manager n qs ids rs rq evs) \<Longrightarrow> keyed (rm_runs (run_trace et sv env es (mk_run_manager n qs ids rs rq evs)))"
  using trace_keeps [of et sv env used es "mk_run_manager n qs ids rs rq evs"] by simp

section \<open>Who is executed\<close>

lemma begin_needs_run:
  assumes "execute_begin sv env ck uu rid m = (Inr (), m')" "rid \<in> set (rm_starting m)"
  shows "\<exists>r r'. map_of (rm_runs m) rid = Some r \<and> transition_run r ''running'' = Inr r'"
  using assms by (auto simp: execute_begin_def Let_def split: option.splits sum.splits)

lemma executing_step:
  assumes "rid \<in> set (rm_executing (manager_step et sv env e m))"
  shows "rid \<in> set (rm_executing m) \<or>
    (\<exists>ck uu. e = Ev_begin ck uu rid \<and> rid \<in> set (rm_starting m) \<and> fst (execute_begin sv env ck uu rid m) = Inr ())"
proof -
  consider (acq) "e = Ev_acquire" | (beg) ck uu k where "e = Ev_begin ck uu k" | (fin) ck uu k out where "e = Ev_end ck uu k out"
    | (other) "(\<forall>ck uu rid. e \<noteq> Ev_begin ck uu rid)" "(\<forall>ck uu rid out. e \<noteq> Ev_end ck uu rid out)" "e \<noteq> Ev_acquire" by blast
  then show ?thesis
  proof cases
    case acq
    then show ?thesis using assms by (auto simp: worker_acquire_def split: worker_state.splits if_splits)
  next
    case beg
    obtain x m' where b: "execute_begin sv env ck uu k m = (x, m')" by fastforce
    show ?thesis
    proof (cases "k \<in> set (rm_starting m)")
      case True
      have "rm_executing m' = rm_executing m @ (if x = Inr () then [k] else [])" using begin_slots [OF b True] by (simp add: slots_def)
      then show ?thesis using assms beg b True by (auto split: if_splits)
    qed (use assms beg in \<open>simp add: execute_begin_def\<close>)
  next
    case fin
    obtain x m' where b: "execute_end et sv env ck uu k out m = (x, m')" by fastforce
    show ?thesis
    proof (cases "k \<in> set (rm_executing m)")
      case True
      have "rm_executing m' = remove1 k (rm_executing m)" using end_slots [OF b True] by (auto simp: slots_def)
      then show ?thesis using assms fin b set_remove1_subset by fastforce
    qed (use assms fin in \<open>simp add: execute_end_def\<close>)
  next
    case other
    have "rm_executing (manager_step et sv env e m) = rm_executing m" using manager_step_slots [OF other, of et sv env m] unfolding slots_def by blast
    then show ?thesis using assms by simp
  qed
qed

lemma strict_trace:
  assumes "posture_from_env env = Inr p" "is_strict p" "rm_run_store m \<noteq> None" "rm_executing m = []"
  shows "rm_run_store (run_trace et sv env es m) \<noteq> None \<and> rm_executing (run_trace et sv env es m) = []"
  using assms(3,4)
proof (induction es arbitrary: m)
  case (Cons e es)
  let ?m = "manager_step et sv env e m"
  have "rid \<notin> set (rm_executing ?m)" for rid
  proof
    assume "rid \<in> set (rm_executing ?m)"
    then obtain ck uu where b: "rid \<in> set (rm_starting m)" "fst (execute_begin sv env ck uu rid m) = Inr ()"
      using executing_step Cons.prems(2) by fastforce
    obtain x m' where "execute_begin sv env ck uu rid m = (x, m')" by fastforce
    then show False using strict_begin_raises [OF assms(1,2) Cons.prems(1) b(1), of sv ck uu x m'] b(2) by auto
  qed
  then have "rm_executing ?m = []" by (metis list.set_intros(1) neq_Nil_conv)
  then show ?case using Cons.IH [of ?m] manager_step_store [of et sv env e m] Cons.prems(1) by simp
qed simp

lemma terminal_not_run: "is_terminal (lv_state r) \<Longrightarrow> \<exists>e. transition_run r ''running'' = Inl e"
  by (auto simp: transition_run_def transition_def is_terminal_def TERMINAL_STATES_def LEGAL_TRANSITIONS_def Let_def)

text \<open>A run that no state with \<open>P\<close> lets begin is not executed, as long as \<open>P\<close> holds.\<close>

lemma never_executed:
  assumes "fresh_trace et sv env used es m" "rid \<notin> set (rm_executing m)" "P m"
    and step: "\<And>e m. P m \<Longrightarrow> fresh_ids m e \<Longrightarrow> new_ids e \<inter> used = {} \<Longrightarrow> P (manager_step et sv env e m)"
    and no: "\<And>m r. P m \<Longrightarrow> map_of (rm_runs m) rid = Some r \<Longrightarrow> \<exists>e. transition_run r ''running'' = Inl e"
  shows "rid \<notin> set (rm_executing (run_trace et sv env es m))"
  using assms(1-3)
proof (induction es arbitrary: m)
  case (Cons e es)
  let ?m = "manager_step et sv env e m"
  have "rid \<notin> set (rm_executing ?m)"
  proof
    assume "rid \<in> set (rm_executing ?m)"
    then obtain ck uu where b: "rid \<in> set (rm_starting m)" "fst (execute_begin sv env ck uu rid m) = Inr ()"
      using executing_step Cons.prems(2) by blast
    obtain m' where "execute_begin sv env ck uu rid m = (Inr (), m')" using b(2) by (metis prod.collapse)
    then obtain r r' where "map_of (rm_runs m) rid = Some r" "transition_run r ''running'' = Inr r'" using begin_needs_run b(1) by blast
    then show False using no [OF Cons.prems(3)] by fastforce
  qed
  moreover have "P ?m" using step [of m e] Cons.prems(1,3) by simp
  ultimately show ?case using Cons.IH [of ?m] Cons.prems(1) by simp
qed simp

section \<open>A small manager\<close>

text \<open>One slot, a run store and a durable queue; one run of tenant \<open>acme\<close> is created, started, claimed and given the slot.\<close>

definition small_services :: manager_services where
  "small_services = \<lparr>mg_iso = (\<lambda>_. ''t''), mg_dumps = (\<lambda>_. ''{}''), mg_loads = (\<lambda>_. None), mg_digest = (\<lambda>_. ''h''), mg_str = (\<lambda>_. ''s''),
     mg_int = (\<lambda>_. None), mg_repr = (\<lambda>_. ''0''), mg_timestamp = (\<lambda>_. None), mg_trace = None, mg_fallbacks = (\<lambda>_. [])\<rparr>"

definition small_workspace :: workspace_ctx where
  "small_workspace = \<lparr>wk_tenant_id = ''acme'', wk_user_id = ''u'', wk_session_id = ''s''\<rparr>"

definition small_uu :: "nat \<Rightarrow> string" where
  "small_uu i = (if i = 0 then ''r1'' else if i = 1 then ''a1'' else ''e1'')"

definition small_manager :: "run_queue \<Rightarrow> run_manager" where
  "small_manager q = mk_run_manager 1 0 None (Some \<lparr>rs_rows = []\<rparr>) (Some q) None"

definition small_run :: live_run where
  "small_run = new_run small_services ''t'' ''r1'' ''a1'' [] (Some small_workspace) None"

definition small_created :: "run_queue \<Rightarrow> run_manager" where
  "small_created q = (small_manager q)\<lparr>rm_runs := [(''r1'', small_run)],
     rm_run_store := Some \<lparr>rs_rows = [\<lparr>rr_run_id = ''r1'', rr_tenant_id = ''acme'', rr_user_id = ''u'', rr_session_id = ''s'',
       rr_task_contract_json = ''{}'', rr_status = ''queued'', rr_priority = 5, rr_attempt_count = 0, rr_cancellation_flag = False,
       rr_result_summary = '''', rr_error_summary = '''', rr_created_at = 0, rr_updated_at = 0, rr_project_id = '''', rr_finished_at = 0,
       rr_parent_run_id = '''', rr_attempt_id = ''a1'', rr_phase_id = ''''\<rparr>]\<rparr>,
     rm_run_queue := Some (enqueue 0 ''r1'' 5 ''{}'' ''acme'' ''u'' ''s'' '''' q)\<rparr>"

lemma small_fields [simp]: "lv_run_id small_run = ''r1''" "lv_state small_run = ''created''" "lv_tenant_id small_run = ''acme''"
    "lv_task_contract small_run = []" "lv_idempotency_key small_run = None" "lv_project_id small_run = ''''" "lv_attempt_id small_run = ''a1''"
    "lv_phase_id small_run = ''''" "lv_user_id small_run = ''u''" "lv_session_id small_run = ''s''" "lv_profile_id small_run = ''''"
  by (simp_all add: small_run_def new_run_def small_workspace_def str_entry_def text_entry_def)

lemma prod_posture [simp]: "posture_from_env (Some ''prod'') = Inr Prod"
  using posture_from_env_canonical [of Prod] by (simp add: posture_value_def)

lemma small_create: "create_run small_services (Some ''prod'') (\<lambda>_. 0) small_uu [] (Some small_workspace) (small_manager q) = (Inr small_run, small_created q)"
proof -
  have t: "resolve_run_tenant (Some ''prod'') [] (Some small_workspace) = Inr ''acme''"
    by (simp add: resolve_run_tenant_def small_workspace_def text_entry_def Let_def)
  have r: "reserve_run small_services (Some ''prod'') 0 ''acme'' (small_uu 0) [] (Some small_workspace) (small_manager q) = (Inr (Run_is_new None), (small_manager q))"
    by (simp add: reserve_run_def small_manager_def mk_run_manager_def)
  have n: "new_run small_services (mg_iso small_services 0) (small_uu 0) (small_uu (Suc 0)) [] (Some small_workspace) None = small_run"
    by (simp add: small_run_def small_uu_def small_services_def)
  have p: "managed_run_post_init (Some ''prod'') small_run = None"
    by (simp add: managed_run_post_init_def spine_check_def missing_fields_def)
  have e: "publish_run_event sv env now eid rid ty pl run (set_run small_run (small_manager q)) = (Inr (), set_run small_run (small_manager q))" for sv env now eid rid ty pl run
    by (simp add: publish_run_event_def small_manager_def mk_run_manager_def set_run_def)
  have q: "persist_run small_services (Some ''prod'') 0 0 ''acme'' small_run (Some small_workspace) (set_run small_run (small_manager q)) = (Inr (), small_created q)"
    by (simp add: persist_run_def Let_def priority_of_def text_entry_def run_record_post_init_def spine_check_def missing_fields_def set_run_def
        small_manager_def mk_run_manager_def small_created_def small_workspace_def small_services_def upsert_def upsert_fields_def
        sql_insert_replace_def)
  show ?thesis by (simp add: create_run_def t r n p e q register_run_def Let_def text_entry_def)
qed

definition small_leased :: run_queue where
  "small_leased = snd (claim_next 0 WORKER (enqueue 0 ''r1'' 5 ''{}'' ''acme'' ''u'' ''s'' '''' (rq_init 300 None)))"

lemma small_claim: "claim_next 0 WORKER (snd (release_expired_leases 0 (enqueue 0 ''r1'' 5 ''{}'' ''acme'' ''u'' ''s'' '''' (rq_init 300 None)))) = (Some (''r1'', ''{}''), small_leased)"
  by (simp add: small_leased_def claim_next_def claim_candidate_def claimable_def enqueue_def rq_init_def release_expired_leases_def
      sql_insert_ignore_def sql_update_def sql_rowcount_def Let_def)

definition small_events :: "manager_event list" where
  "small_events = [Ev_create (\<lambda>_. 0) small_uu [] (Some small_workspace), Ev_start 0 ''r1'', Ev_poll (\<lambda>_. 0), Ev_acquire]"

definition small_waiting :: run_manager where
  "small_waiting = (small_created (rq_init 300 None))\<lparr>rm_worker := Polling, rm_run_queue := Some small_leased, rm_permits := 0, rm_starting := [''r1'']\<rparr>"

lemma small_trace: "run_trace et small_services (Some ''prod'') small_events (small_manager (rq_init 300 None)) = small_waiting"
  by (simp only: small_events_def run_trace_simps manager_step.simps small_create snd_conv)
     (simp add: start_run_def small_created_def small_manager_def mk_run_manager_def ensure_worker_started_def add_once_def
      worker_poll_def small_claim worker_acquire_def small_waiting_def dict_pop_def)

lemma small_fresh: "fresh_trace et small_services (Some ''prod'') used [] m" "fresh_trace et small_services (Some ''prod'') {} small_events (small_manager (rq_init 300 None))"
  by (simp_all add: small_events_def fresh_ids_def small_manager_def mk_run_manager_def)

definition small_cancelled :: run_manager where
  "small_cancelled = snd (cancel_run small_services (Some ''prod'') (\<lambda>_. 0) ''r1'' None small_waiting)"

lemma small_waiting_runs [simp]: "rm_runs small_waiting = [(''r1'', small_run)]" "rm_starting small_waiting = [''r1'']" "rm_executing small_waiting = []"
  by (simp_all add: small_waiting_def small_created_def small_manager_def)

lemma small_cancel:
  "cancel_run small_services (Some ''prod'') (\<lambda>_. 0) ''r1'' None small_waiting = (Inr True, small_cancelled)"
  "rm_runs small_cancelled = [(''r1'', small_run\<lparr>lv_state := ''cancelled'', lv_updated_at := ''t''\<rparr>)]"
  "rm_starting small_cancelled = [''r1'']" "rm_executing small_cancelled = []"
  by (simp_all add: small_cancelled_def cancel_run_def get_run_def transition_run_def transition_def LEGAL_TRANSITIONS_def TERMINAL_STATES_def
      Let_def set_run_def small_services_def)

lemma small_capacity: "capacity small_waiting = 1"
  by (simp add: capacity_def) (simp add: small_waiting_def)

text \<open>The same process after a restart: the durable queue still holds run \<open>r0\<close> of the process before it.\<close>

definition small_left_over :: run_queue where
  "small_left_over = enqueue 0 ''r0'' 5 ''{}'' ''acme'' ''u'' ''s'' '''' (rq_init 300 None)"

definition small_restarted :: run_manager where
  "small_restarted = (small_created small_left_over)\<lparr>rm_worker := Polling, rm_pending_executors := [''r1'']\<rparr>"

lemma small_restarted_trace: "run_trace et small_services (Some ''prod'') (take 2 small_events) (small_manager small_left_over) = small_restarted"
  by (simp only: small_events_def take_Suc_Cons numeral_2_eq_2 take_0 run_trace_simps manager_step.simps small_create snd_conv)
     (simp add: start_run_def small_created_def small_manager_def mk_run_manager_def ensure_worker_started_def add_once_def small_restarted_def)

lemma small_restarted_worker: "rm_worker small_restarted = Polling" "\<not> rm_shutdown small_restarted"
    "rm_run_queue small_restarted = Some (enqueue 0 ''r1'' 5 ''{}'' ''acme'' ''u'' ''s'' '''' small_left_over)"
  by (simp_all add: small_restarted_def small_created_def small_manager_def mk_run_manager_def)

lemma small_restarted_claim:
  "\<exists>q'. claim_next 0 WORKER (snd (release_expired_leases 0 (enqueue 0 ''r1'' 5 ''{}'' ''acme'' ''u'' ''s'' '''' small_left_over))) = (Some (''r0'', ''{}''), q')"
  by (simp add: claim_next_def claim_candidate_def claimable_def enqueue_def rq_init_def release_expired_leases_def small_left_over_def
      sql_insert_ignore_def sql_update_def sql_rowcount_def Let_def)

section \<open>Properties\<close>

text \<open>C16. Whatever its threads, its clients and the executors do and in whatever order, a run manager with \<open>n\<close> slots never has more
  than \<open>n\<close> runs between the taking of a slot and its return, free slots included.\<close>

theorem concurrency_is_bounded:
  "rm_permits (run_trace et sv env evs (mk_run_manager n qs ids rs rq es)) +
   length (rm_starting (run_trace et sv env evs (mk_run_manager n qs ids rs rq es))) +
   length (rm_executing (run_trace et sv env evs (mk_run_manager n qs ids rs rq es))) \<le> n"
  using run_trace_capacity [of et sv env evs "mk_run_manager n qs ids rs rq es"] by (simp add: capacity_def [symmetric])

text \<open>C18. A run that was cancelled stays cancelled, whatever is done afterwards: by its executor returning, by
  heartbeats, by the queue or by a shutdown.\<close>

theorem cancelled_run_stays_cancelled:
  assumes "fresh_trace et sv env used evs (mk_run_manager n qs ids rs rq es)"
    and "cancel_run sv env ck rid ws (run_trace et sv env evs (mk_run_manager n qs ids rs rq es)) = (Inr True, m)"
    and "fresh_trace et sv env used evs' m"
  shows "\<exists>r. map_of (rm_runs (run_trace et sv env evs' m)) rid = Some r \<and> lv_state r = ''cancelled''"
proof -
  let ?m0 = "run_trace et sv env evs (mk_run_manager n qs ids rs rq es)"
  have k0: "keyed (rm_runs ?m0)" by (rule mk_trace_keyed [OF assms(1)])
  have "keeps {} ?m0 m" using cancel_keeps [of "{}" ?m0 sv env ck rid ws] assms(2) by simp
  then have k: "keyed (rm_runs m)" using k0 by (simp add: keeps_def run_le_def)
  obtain r0 where g: "get_run rid ws ?m0 = Some r0" using assms(2) by (auto simp: cancel_run_def split: option.splits)
  then have "map_of (rm_runs ?m0) rid = Some r0" by (rule get_run_registered)
  then have id0: "lv_run_id r0 = rid" using k0 by (simp add: keyed_def)
  obtain r where t: "lv_state r0 \<in> {''created'', ''running''}" "transition_run r0 ''cancelled'' = Inr r"
    using assms(2) g by (auto simp: cancel_run_def split: if_splits sum.splits)
  have "map_of (rm_runs m) rid = Some (r\<lparr>lv_updated_at := mg_iso sv (ck 0)\<rparr>)"
    using assms(2) g t id0 transition_keeps_fields [OF t(2)] by (auto simp: cancel_run_def Let_def set_run_def split: if_splits)
  moreover have c: "lv_state r = ''cancelled''"
    using t by (auto simp: transition_run_def transition_def LEGAL_TRANSITIONS_def TERMINAL_STATES_def Let_def split: sum.splits)
  ultimately obtain r' where "map_of (rm_runs (run_trace et sv env evs' m)) rid = Some r'" "same_run (r\<lparr>lv_updated_at := mg_iso sv (ck 0)\<rparr>) r'"
    using trace_keeps [OF assms(3) k] unfolding survive_def by blast
  then show ?thesis using c by (auto simp: same_run_def is_terminal_def TERMINAL_STATES_def)
qed

theorem cancelled_run_stays_cancelled_witness:
  "\<exists>r. map_of (rm_runs (run_trace (\<lambda>_. ''e'') small_services (Some ''prod'') [Ev_begin (\<lambda>_. 0) small_uu ''r1'', Ev_abandon (\<lambda>_. 0)] small_cancelled)) ''r1'' = Some r \<and>
     lv_state r = ''cancelled''"
proof (rule cancelled_run_stays_cancelled [where evs = small_events])
  show "fresh_trace (\<lambda>_. ''e'') small_services (Some ''prod'') {} small_events (mk_run_manager 1 0 None (Some \<lparr>rs_rows = []\<rparr>) (Some (rq_init 300 None)) None)"
    using small_fresh(2) by (simp add: small_manager_def)
  show "cancel_run small_services (Some ''prod'') (\<lambda>_. 0) ''r1'' None (run_trace (\<lambda>_. ''e'') small_services (Some ''prod'') small_events
      (mk_run_manager 1 0 None (Some \<lparr>rs_rows = []\<rparr>) (Some (rq_init 300 None)) None)) = (Inr True, small_cancelled)"
    using small_cancel(1) by (simp only: small_trace [unfolded small_manager_def])
qed (simp add: fresh_ids_def)

text \<open>C20. A run that ended is never executed again. The durable queue gives a failed row back twice, up to its three attempts, but the
  worker has no executor for it, and the state machine has no way back: the retries of a failed run never run.\<close>

theorem ended_run_is_never_executed_again:
  assumes "fresh_trace et sv env used evs m" "keyed (rm_runs m)" "map_of (rm_runs m) rid = Some run" "is_terminal (lv_state run)"
    and "rid \<notin> set (rm_executing m)"
  shows "rid \<notin> set (rm_executing (run_trace et sv env evs m))"
proof (rule never_executed [OF assms(1,5), where P = "\<lambda>m. keyed (rm_runs m) \<and> (\<exists>r. map_of (rm_runs m) rid = Some r \<and> is_terminal (lv_state r))"])
  fix e m'
  assume p: "keyed (rm_runs m') \<and> (\<exists>r. map_of (rm_runs m') rid = Some r \<and> is_terminal (lv_state r))" and f: "fresh_ids m' e"
  then have "keyed (rm_runs (manager_step et sv env e m'))" "survive (rm_runs m') (rm_runs (manager_step et sv env e m'))"
    using manager_step_keeps [OF f, of et sv env] by (simp_all add: keeps_def run_le_def)
  then show "keyed (rm_runs (manager_step et sv env e m')) \<and>
      (\<exists>r. map_of (rm_runs (manager_step et sv env e m')) rid = Some r \<and> is_terminal (lv_state r))"
    using p unfolding survive_def same_run_def by metis
qed (use assms terminal_not_run in auto)

theorem ended_run_is_never_executed_again_witness:
  "''r1'' \<notin> set (rm_executing (run_trace (\<lambda>_. ''e'') small_services (Some ''prod'') [Ev_begin (\<lambda>_. 0) small_uu ''r1''] small_cancelled))"
  by (rule ended_run_is_never_executed_again [where used = "{}" and run = "small_run\<lparr>lv_state := ''cancelled'', lv_updated_at := ''t''\<rparr>"])
     (simp_all add: fresh_ids_def small_cancel keyed_def is_terminal_def TERMINAL_STATES_def)

text \<open>C21. A run of an earlier process that is still in the durable queue is never executed by the new process, which has no
  record of it in memory. Under a strict posture the worker that claims it ends with an exception, because it passes an empty tenant
  to \<open>fail\<close>.\<close>

theorem recovered_run_is_never_executed:
  assumes "fresh_trace et sv env {rid} evs (mk_run_manager n qs ids rs (Some rq) es)"
    and "m = run_trace et sv env evs (mk_run_manager n qs ids rs (Some rq) es)"
    and "posture_from_env env = Inr p" "is_strict p"
    and "rm_worker m = Polling" "\<not> rm_shutdown m" "rm_run_queue m = Some q"
    and "claim_next (ck 1) WORKER (snd (release_expired_leases (ck 0) q)) = (Some (rid, payload), q')"
  shows "rid \<notin> set (rm_executing m) \<and> fst (worker_poll sv env ck m) = Inl (Mgr_queue (TenantScopeError ''fail'' TenantMissing)) \<and>
    rm_worker (snd (worker_poll sv env ck m)) = No_worker \<and> rm_run_queue (snd (worker_poll sv env ck m)) = Some q'"
proof -
  let ?m0 = "mk_run_manager n qs ids rs (Some rq) es"
  have none: "map_of (rm_runs m) rid = None" using trace_keeps [OF assms(1)] assms(2) by simp
  have "rid \<notin> set (rm_executing (run_trace et sv env evs ?m0))"
  proof (rule never_executed [OF assms(1), where P = "\<lambda>m. keyed (rm_runs m) \<and> map_of (rm_runs m) rid = None"])
    fix e m'
    assume p: "keyed (rm_runs m') \<and> map_of (rm_runs m') rid = None" and f: "fresh_ids m' e" "new_ids e \<inter> {rid} = {}"
    then have "keyed (rm_runs (manager_step et sv env e m'))" "only_new (new_ids e) (rm_runs m') (rm_runs (manager_step et sv env e m'))"
      using manager_step_keeps [OF f(1), of et sv env] by (simp_all add: keeps_def run_le_def)
    then show "keyed (rm_runs (manager_step et sv env e m')) \<and> map_of (rm_runs (manager_step et sv env e m')) rid = None"
      using p f(2) unfolding only_new_def by blast
  qed simp_all
  moreover have "fail env now ts rid WORKER (Some '''') q' = (Inl (TenantScopeError ''fail'' TenantMissing), q')" for now ts
    using assms(3,4) by (simp add: fail_def with_scope_def check_tenant_scope_def py_strip_def)
  ultimately show ?thesis using assms(2,5-8) none by (simp add: worker_poll_def worker_fail_def)
qed

theorem recovered_run_is_never_executed_witness:
  "fst (worker_poll small_services (Some ''prod'') (\<lambda>_. 0) small_restarted) = Inl (Mgr_queue (TenantScopeError ''fail'' TenantMissing))"
proof -
  obtain q' where q': "claim_next 0 WORKER (snd (release_expired_leases 0 (enqueue 0 ''r1'' 5 ''{}'' ''acme'' ''u'' ''s'' '''' small_left_over))) = (Some (''r0'', ''{}''), q')"
    using small_restarted_claim by blast
  show ?thesis
    by (rule recovered_run_is_never_executed [where et = "\<lambda>_. ''e''" and evs = "take 2 small_events" and rid = "''r0''" and rq = small_left_over,
          OF _ small_restarted_trace [symmetric, unfolded small_manager_def] prod_posture _ small_restarted_worker q', THEN conjunct2, THEN conjunct1])
       (simp_all add: small_events_def fresh_ids_def small_uu_def numeral_2_eq_2)
qed

text \<open>C15. Under a strict posture a run manager with a run store never calls an executor: the thread of a run ends with an
  exception at \<open>mark_running\<close>, which is called without a workspace, and the slot it took never comes back.\<close>

theorem strict_posture_runs_nothing:
  assumes "posture_from_env env = Inr p" "is_strict p" "m = run_trace et sv env evs (mk_run_manager n qs ids (Some rs) rq es)"
  shows "rm_executing m = [] \<and> capacity (run_trace et sv env evs' m) \<le> capacity m \<and>
    (\<forall>rid \<in> set (rm_starting m). \<forall>ck uu. capacity (manager_step et sv env (Ev_begin ck uu rid) m) < capacity m)"
proof -
  have t: "rm_run_store m \<noteq> None" "rm_executing m = []"
    using strict_trace [OF assms(1,2), of "mk_run_manager n qs ids (Some rs) rq es" et sv evs] assms(3) by simp_all
  have "capacity (manager_step et sv env (Ev_begin ck uu rid) m) < capacity m" if rid: "rid \<in> set (rm_starting m)" for rid ck uu
  proof -
    obtain x m' where b: "execute_begin sv env ck uu rid m = (x, m')" by fastforce
    obtain e where "x = Inl e" using strict_begin_raises [OF assms(1,2) t(1) rid b] by blast
    then show ?thesis using begin_capacity [OF b rid] b by auto
  qed
  then show ?thesis using t(2) run_trace_capacity by blast
qed

theorem strict_posture_runs_nothing_witness:
  "rm_starting small_waiting = [''r1''] \<and> capacity small_waiting = 1 \<and>
   capacity (manager_step (\<lambda>_. ''e'') small_services (Some ''prod'') (Ev_begin (\<lambda>_. 0) small_uu ''r1'') small_waiting) < 1"
proof -
  have "\<forall>rid \<in> set (rm_starting small_waiting). \<forall>ck uu.
      capacity (manager_step (\<lambda>_. ''e'') small_services (Some ''prod'') (Ev_begin ck uu rid) small_waiting) < capacity small_waiting"
    by (rule strict_posture_runs_nothing [OF prod_posture _ small_trace [symmetric, unfolded small_manager_def], THEN conjunct2, THEN conjunct2]) simp
  then show ?thesis by (simp add: small_capacity del: manager_step.simps)
qed

text \<open>A run that is cancelled while its thread waits to begin costs a slot for good: the thread ends with an exception before the
  \<open>try\<close> that would return it.\<close>

lemma cancel_before_begin_loses_a_slot:
  assumes "rid \<in> set (rm_starting m)" "map_of (rm_runs m) rid = Some run" "lv_state run = ''cancelled''"
  shows "fst (execute_begin sv env ck uu rid m) = Inl (Mgr_transition (IllegalTransition ''cancelled'' ''running'')) \<and>
    capacity (run_trace et sv env evs (manager_step et sv env (Ev_begin ck uu rid) m)) < capacity m"
proof -
  obtain x m' where b: "execute_begin sv env ck uu rid m = (x, m')" by fastforce
  have x: "x = Inl (Mgr_transition (IllegalTransition ''cancelled'' ''running''))"
    using b assms by (auto simp: execute_begin_def Let_def transition_run_def transition_def LEGAL_TRANSITIONS_def TERMINAL_STATES_def)
  have "capacity m' < capacity m" using begin_capacity [OF b assms(1)] x by simp
  then show ?thesis using b x run_trace_capacity [of et sv env evs m'] by simp
qed

section \<open>Creating and ending a run\<close>

lemma strict_register_tenant:
  assumes "register_run sv env ck eid tenant run ws m = (Inr r, m')" "lv_run_id run \<noteq> ''''" "tenant \<noteq> ''''"
  shows "r = run \<and> (\<forall>rs. rm_run_store m' = Some rs \<longrightarrow> (\<exists>row \<in> set (rs_rows rs). rr_run_id row = lv_run_id run \<and> rr_tenant_id row = tenant))"
proof -
  obtain x m1 where p: "publish_run_event sv env (ck 2) eid (lv_run_id run) ''run_queued''
      [(''state'', JStr ''created''), (''created_at'', JStr (lv_created_at run))] run (set_run run m) = (x, m1)" by fastforce
  obtain y m2 where q: "persist_run sv env (ck 3) (ck 4) tenant run ws m1 = (y, m2)" by fastforce
  have r: "r = run" "m' = m2" "y = Inr ()" using assms(1) p q by (cases x; cases y; auto simp: register_run_def Let_def split: if_splits option.splits)+
  have "\<exists>row \<in> set (rs_rows rs). rr_run_id row = lv_run_id run \<and> rr_tenant_id row = tenant" if "rm_run_store m2 = Some rs" for rs
    using q r(3) that assms(2,3)
    by (auto simp: persist_run_def Let_def upsert_def upsert_fields_def sql_insert_replace_def split: option.splits)
  then show ?thesis using r by simp
qed

text \<open>C19. Under a strict posture a run is only created for an authenticated workspace with a tenant, never for another tenant that the body
  of the request names; the new run and its durable record carry that tenant, and so does the replay of an earlier run.\<close>

theorem created_run_is_bound_to_its_tenant:
  assumes "posture_from_env env = Inr p" "is_strict p" "create_run sv env ck uu contract ws m = (Inr run, m')"
  shows "\<exists>w. ws = Some w \<and>
    (lv_outcome run = ''replayed'' \<and> (wk_tenant_id w \<noteq> '''' \<longrightarrow> lv_tenant_id run = wk_tenant_id w) \<or>
     lv_run_id run = uu 0 \<and> wk_tenant_id w \<noteq> '''' \<and> text_entry contract ''tenant_id'' \<in> {'''', wk_tenant_id w} \<and> lv_tenant_id run = wk_tenant_id w \<and>
       (\<forall>rs. rm_run_store m' = Some rs \<longrightarrow> (\<exists>row \<in> set (rs_rows rs). rr_run_id row = uu 0 \<and> rr_tenant_id row = wk_tenant_id w)))"
proof -
  obtain tenant where t: "resolve_run_tenant env contract ws = Inr tenant"
    using assms(3) by (cases "resolve_run_tenant env contract ws") (auto simp: create_run_def)
  have "ws \<noteq> None" using t assms(1,2) by (cases ws) (auto simp: resolve_run_tenant_def Let_def)
  then obtain w where w: "ws = Some w" by blast
  have init: "lv_run_id r \<noteq> '''' \<and> lv_tenant_id r \<noteq> ''''" if "managed_run_post_init env r = None" for r
    using that assms(1,2) by (auto simp: managed_run_post_init_def spine_check_def missing_fields_def split: if_splits)
  obtain x m1 where r: "reserve_run sv env (ck 0) tenant (uu 0) contract ws m = (x, m1)" by fastforce
  obtain z where z: "x = Inr z" using assms(3) t r by (cases x) (auto simp: create_run_def)
  have tw: "wk_tenant_id w \<noteq> '''' \<Longrightarrow> tenant = wk_tenant_id w \<and> text_entry contract ''tenant_id'' \<in> {'''', wk_tenant_id w}"
    using t w assms(1,2) by (auto simp: resolve_run_tenant_def Let_def split: if_splits)
  show ?thesis
  proof (cases z)
    case (Run_is_new key)
    let ?run = "new_run sv (mg_iso sv (ck 1)) (uu 0) (uu 1) contract ws key"
    have i: "managed_run_post_init env ?run = None" and g: "register_run sv env ck (uu 2) tenant ?run ws m1 = (Inr run, m')"
      using assms(3) t r z Run_is_new by (auto simp: create_run_def Let_def split: option.splits)
    have f: "lv_tenant_id ?run = wk_tenant_id w" "lv_run_id ?run = uu 0" using w by (simp_all add: new_run_def)
    have ne: "wk_tenant_id w \<noteq> ''''" "uu 0 \<noteq> ''''" using init [OF i] f by simp_all
    then show ?thesis using strict_register_tenant [OF g] tw f w by auto
  next
    case (Run_is_replay old)
    have "run = replay_stub tenant contract (text_entry contract ''idempotency_key'') old"
      using assms(3) t r z Run_is_replay by (auto simp: create_run_def Let_def split: option.splits)
    then show ?thesis using tw w by (auto simp: replay_stub_def)
  qed
qed

theorem created_run_is_bound_to_its_tenant_witness:
  "\<exists>w. Some small_workspace = Some w \<and>
    (lv_outcome small_run = ''replayed'' \<and> (wk_tenant_id w \<noteq> '''' \<longrightarrow> lv_tenant_id small_run = wk_tenant_id w) \<or>
     lv_run_id small_run = small_uu 0 \<and> wk_tenant_id w \<noteq> '''' \<and> text_entry [] ''tenant_id'' \<in> {'''', wk_tenant_id w} \<and>
       lv_tenant_id small_run = wk_tenant_id w \<and>
       (\<forall>rs. rm_run_store (small_created (rq_init 300 None)) = Some rs \<longrightarrow>
          (\<exists>row \<in> set (rs_rows rs). rr_run_id row = small_uu 0 \<and> rr_tenant_id row = wk_tenant_id w)))"
  by (rule created_run_is_bound_to_its_tenant [OF prod_posture _ small_create]) simp

text \<open>What becomes of a running run, and what the run store says of it.\<close>

definition settled_state :: "executor_outcome \<Rightarrow> string" where
  "settled_state out = (case out of
     Exec_raised _ \<Rightarrow> ''failed''
   | Exec_returned res \<Rightarrow> (case er_status res of None \<Rightarrow> ''completed''
       | Some s \<Rightarrow> if s \<in> set RUN_STATES \<and> s \<noteq> ''created'' then s else ''failed''))"

definition stored_status :: "string \<Rightarrow> string" where
  "stored_status s = (if s \<in> {''completed'', ''cancelled''} then s else ''failed'')"

lemma dev_settle_queue:
  assumes "posture_from_env env = Inr Dev"
  shows "\<exists>q'. settle_queue sv env now ok run m = (Inr (), m\<lparr>rm_run_queue := q'\<rparr>) \<and>
    (\<forall>q. q' = Some q \<longrightarrow> (\<forall>row \<in> set (rq_rows q). rq_run_id row = lv_run_id run \<and> rq_tenant_id row = py_strip (lv_tenant_id run) \<longrightarrow> rq_worker_id row \<noteq> Some WORKER))"
proof (cases "rm_run_queue m")
  case None
  then have "settle_queue sv env now ok run m = (Inr (), m\<lparr>rm_run_queue := None\<rparr>)" by (simp add: settle_queue_def)
  then show ?thesis by blast
next
  case (Some q)
  define sc where "sc = (if py_strip (lv_tenant_id run) = [] then None else Some (py_strip (lv_tenant_id run)))"
  have sc: "check_tenant_scope env (Some (lv_tenant_id run)) meth = Inr sc" "sc = None \<or> sc = Some (py_strip (lv_tenant_id run))" for meth
    using assms by (simp_all add: check_tenant_scope_def sc_def)
  show ?thesis
  proof (cases ok)
    case True
    then show ?thesis using Some sc
      by (intro exI [of _ "Some (snd (complete env now (lv_run_id run) WORKER (Some (lv_tenant_id run)) q))"])
         (auto simp: settle_queue_def complete_def with_scope_def sql_update_def)
  next
    case False
    let ?f = "fail env now (mg_iso sv now) (lv_run_id run) WORKER (Some (lv_tenant_id run)) q"
    have "\<forall>row \<in> set (rq_rows (snd ?f)). rq_run_id row = lv_run_id run \<and> rq_tenant_id row = py_strip (lv_tenant_id run) \<longrightarrow> rq_worker_id row \<noteq> Some WORKER"
      using sc by (auto simp: fail_def with_scope_def sql_update_def Let_def find_None_iff split: option.split)
    moreover have "fst ?f = Inr ()"
      using sc by (auto simp: fail_def with_scope_def Let_def split: option.split)
    then have "settle_queue sv env now ok run m = (Inr (), m\<lparr>rm_run_queue := Some (snd ?f)\<rparr>)"
      using Some False by (simp add: settle_queue_def case_prod_beta)
    ultimately show ?thesis by (intro exI [of _ "Some (snd ?f)"]) simp
  qed
qed

lemma running_moves:
  "lv_state r = ''running'' \<Longrightarrow> transition_run r t =
     (if t \<in> set RUN_STATES \<and> t \<noteq> ''created'' then Inr (r\<lparr>lv_state := t\<rparr>) else Inl (IllegalTransition ''running'' t))"
  by (auto simp: transition_run_def transition_def LEGAL_TRANSITIONS_def TERMINAL_STATES_def RUN_STATES_def Let_def)

lemma known_states: "''completed'' \<in> set RUN_STATES" "''failed'' \<in> set RUN_STATES" "''created'' \<in> set RUN_STATES"
  by (simp_all add: RUN_STATES_def)

text \<open>The result of a running run is refused only when it reports \<open>created\<close>.\<close>

lemma settle_running:
  assumes "lv_state r = ''running''"
  shows "(\<exists>e. settle_result sv now res r = Inl e) \<and> settled_state (Exec_returned res) = ''failed'' \<or>
    (\<exists>r'. settle_result sv now res r = Inr r' \<and> lv_state r' = settled_state (Exec_returned res) \<and> lv_run_id r' = lv_run_id r \<and>
       lv_tenant_id r' = lv_tenant_id r)"
proof (cases "er_status res")
  case None
  then show ?thesis using known_states by (simp add: settle_result_def settled_state_def running_moves [OF assms])
next
  case (Some s)
  consider "s = ''completed''" | "s = ''created''" | "s \<noteq> ''completed''" "s \<noteq> ''created''" "s \<in> set RUN_STATES" | "s \<noteq> ''completed''" "s \<notin> set RUN_STATES"
    by blast
  then show ?thesis
    by cases (use Some known_states in \<open>simp_all add: settle_result_def settled_state_def running_moves [OF assms]\<close>)
qed

lemma dev_except:
  assumes "posture_from_env env = Inr Dev" "map_of (rm_runs m) rid = Some run" "lv_run_id run = rid" "lv_state run = ''running''"
  shows "\<exists>run' q'. execute_except sv env ck rid exc m = (Inr (), (set_run run' m)\<lparr>rm_run_queue := q'\<rparr>) \<and> lv_run_id run' = rid \<and>
    lv_tenant_id run' = lv_tenant_id run \<and> lv_state run' = ''failed'' \<and>
    (\<forall>q. q' = Some q \<longrightarrow> (\<forall>row \<in> set (rq_rows q). rq_run_id row = rid \<and> rq_tenant_id row = py_strip (lv_tenant_id run) \<longrightarrow> rq_worker_id row \<noteq> Some WORKER))"
proof -
  let ?run = "run\<lparr>lv_state := ''failed'', lv_error := Some exc, lv_updated_at := mg_iso sv (ck 2)\<rparr>"
  obtain q' where q': "settle_queue sv env (ck 3) False ?run (set_run ?run m) = (Inr (), (set_run ?run m)\<lparr>rm_run_queue := q'\<rparr>)"
      "\<forall>q. q' = Some q \<longrightarrow> (\<forall>row \<in> set (rq_rows q). rq_run_id row = lv_run_id ?run \<and> rq_tenant_id row = py_strip (lv_tenant_id ?run) \<longrightarrow> rq_worker_id row \<noteq> Some WORKER)"
    using dev_settle_queue [OF assms(1)] by blast
  have "transition_run run ''failed'' = Inr (run\<lparr>lv_state := ''failed''\<rparr>)" using running_moves [OF assms(4)] by (simp add: RUN_STATES_def)
  then have "execute_except sv env ck rid exc m = (Inr (), (set_run ?run m)\<lparr>rm_run_queue := q'\<rparr>)"
    using assms(2) q'(1) by (simp add: execute_except_def Let_def)
  then show ?thesis using q'(2) assms(3) by (intro exI [of _ ?run] exI [of _ q']) simp
qed

lemma dev_try:
  assumes "posture_from_env env = Inr Dev" "map_of (rm_runs m) rid = Some run" "lv_run_id run = rid" "lv_state run = ''running''"
  shows "\<exists>run' q'. execute_try et sv env ck rid out m = (Inr (), (set_run run' m)\<lparr>rm_run_queue := q'\<rparr>) \<and> lv_run_id run' = rid \<and>
    lv_tenant_id run' = lv_tenant_id run \<and> lv_state run' = settled_state out \<and>
    (\<forall>q. q' = Some q \<longrightarrow> (\<forall>row \<in> set (rq_rows q). rq_run_id row = rid \<and> rq_tenant_id row = py_strip (lv_tenant_id run) \<longrightarrow> rq_worker_id row \<noteq> Some WORKER))"
proof (cases out)
  case (Exec_raised exc)
  then show ?thesis using dev_except [OF assms, of sv ck exc] by (simp add: execute_try_def settled_state_def)
next
  case (Exec_returned res)
  show ?thesis
  proof (cases "settle_result sv (ck 0) res run")
    case (Inl e)
    then have "settled_state out = ''failed''" using settle_running [OF assms(4), of sv "ck 0" res] Exec_returned by auto
    then show ?thesis using dev_except [OF assms, of sv ck "et (Mgr_transition e)"] Inl Exec_returned assms(2) by (simp add: execute_try_def)
  next
    case (Inr run')
    have s: "lv_state run' = settled_state out" "lv_run_id run' = rid" "lv_tenant_id run' = lv_tenant_id run"
      using settle_running [OF assms(4), of sv "ck 0" res] Inr Exec_returned assms(3) by auto
    obtain q' where "settle_queue sv env (ck 1) (lv_state run' = ''completed'') run' (set_run run' m) = (Inr (), (set_run run' m)\<lparr>rm_run_queue := q'\<rparr>)"
        "\<forall>q. q' = Some q \<longrightarrow> (\<forall>row \<in> set (rq_rows q). rq_run_id row = lv_run_id run' \<and> rq_tenant_id row = py_strip (lv_tenant_id run') \<longrightarrow> rq_worker_id row \<noteq> Some WORKER)"
      using dev_settle_queue [OF assms(1)] by blast
    then show ?thesis using Inr Exec_returned assms(2) s by (intro exI [of _ run'] exI [of _ q']) (simp add: execute_try_def)
  qed
qed

lemma dev_publish_two:
  assumes "posture_from_env env = Inr Dev"
  shows "\<exists>sq es. publish_two sv env n1 i1 t1 p1 n2 i2 t2 p2 run m = (Inr (), m\<lparr>rm_event_seqs := sq, rm_event_store := es\<rparr>)"
proof -
  have one: "fst (publish_run_event sv env now eid rid ty pl run m') = Inr ()" for now eid rid ty pl m'
    using assms by (auto simp: publish_run_event_def Let_def stored_event_post_init_def spine_check_def split: option.split)
  obtain x m' where p: "publish_two sv env n1 i1 t1 p1 n2 i2 t2 p2 run m = (x, m')" by fastforce
  obtain y m1 where q: "publish_run_event sv env n1 i1 (lv_run_id run) t1 p1 run m = (y, m1)" by fastforce
  then have "y = Inr ()" using one [of n1 i1 "lv_run_id run" t1 p1 m] by simp
  then have "x = Inr ()" using p q one [of n2 i2 "lv_run_id run" t2 p2 m1] by (simp add: publish_two_def)
  then show ?thesis using p publish_two_frame [OF p] by auto
qed

lemma dev_sync:
  assumes "posture_from_env env = Inr Dev"
  shows "\<exists>rs. sync_run_store env now run m = (Inr (), m\<lparr>rm_run_store := rs\<rparr>) \<and>
    (\<forall>s. rs = Some s \<longrightarrow> (\<forall>row \<in> set (rs_rows s). rr_run_id row = lv_run_id run \<longrightarrow> rr_status row = stored_status (lv_state run)))"
proof (cases "rm_run_store m")
  case None
  then have "sync_run_store env now run m = (Inr (), m\<lparr>rm_run_store := None\<rparr>)" by (simp add: sync_run_store_def)
  then show ?thesis by blast
next
  case (Some s)
  then show ?thesis using assms
    by (intro exI [of _ "rm_run_store (snd (sync_run_store env now run m))"])
       (auto simp: sync_run_store_def Let_def store_mark_complete_def store_mark_cancelled_def store_mark_failed_def scoped_update_def
        check_run_store_tenant_scope_def py_strip_def record_owned_by_def sql_update_def stored_status_def)
qed

text \<open>C17. In development, when the executor of a running run returns or raises, the thread ends without an exception: the run has the state of the
  outcome, the durable record the terminal status of that state (and \<open>failed\<close> for a state that is not terminal), the queue no lease of
  this process on it, and the slot is free again.\<close>

theorem executor_return_settles_the_run:
  assumes "posture_from_env env = Inr Dev" "rid \<in> set (rm_executing m)" "map_of (rm_runs m) rid = Some run" "lv_run_id run = rid"
    "lv_state run = ''running''" "execute_end et sv env ck uu rid out m = (x, m')"
  shows "x = Inr () \<and> (\<exists>run'. map_of (rm_runs m') rid = Some run' \<and> lv_state run' = settled_state out) \<and>
    rm_permits m' = Suc (rm_permits m) \<and> rm_executing m' = remove1 rid (rm_executing m) \<and> rid \<notin> set (rm_active_run_ids m') \<and>
    (\<forall>rs. rm_run_store m' = Some rs \<longrightarrow> (\<forall>row \<in> set (rs_rows rs). rr_run_id row = rid \<longrightarrow> rr_status row = stored_status (settled_state out))) \<and>
    (\<forall>q. rm_run_queue m' = Some q \<longrightarrow> (\<forall>row \<in> set (rq_rows q). rq_run_id row = rid \<and> rq_tenant_id row = py_strip (lv_tenant_id run) \<longrightarrow>
       rq_worker_id row \<noteq> Some WORKER))"
proof -
  let ?m = "m\<lparr>rm_executing := remove1 rid (rm_executing m)\<rparr>"
  obtain r1 q' where t: "execute_try et sv env ck rid out ?m = (Inr (), (set_run r1 ?m)\<lparr>rm_run_queue := q'\<rparr>)" "lv_run_id r1 = rid"
      "lv_state r1 = settled_state out" and q: "\<forall>q. q' = Some q \<longrightarrow> (\<forall>row \<in> set (rq_rows q). rq_run_id row = rid \<and>
        rq_tenant_id row = py_strip (lv_tenant_id run) \<longrightarrow> rq_worker_id row \<noteq> Some WORKER)"
    using dev_try [of env ?m rid run et sv ck out] assms(1,3-5) by auto
  let ?m1 = "(set_run r1 ?m)\<lparr>rm_run_queue := q'\<rparr>"
  let ?r2 = "r1\<lparr>lv_finished_at := (case lv_finished_at r1 of None \<Rightarrow> Some (mg_iso sv (ck 4)) | Some t \<Rightarrow> Some t)\<rparr>"
  let ?m2 = "set_run ?r2 (?m1\<lparr>rm_heartbeats := removeAll rid (rm_heartbeats ?m1), rm_active_count := rm_active_count ?m1 - 1,
      rm_active_run_ids := removeAll rid (rm_active_run_ids ?m1)\<rparr>)"
  obtain rs where s: "sync_run_store env (ck 5) ?r2 ?m2 = (Inr (), ?m2\<lparr>rm_run_store := rs\<rparr>)"
      "\<forall>s. rs = Some s \<longrightarrow> (\<forall>row \<in> set (rs_rows s). rr_run_id row = lv_run_id ?r2 \<longrightarrow> rr_status row = stored_status (lv_state ?r2))"
    using dev_sync [OF assms(1)] by blast
  let ?m3 = "?m2\<lparr>rm_run_store := rs, rm_permits := rm_permits ?m2 + 1\<rparr>"
  let ?fin = "(''finished_at'', text_json (lv_finished_at ?r2))"
  obtain sq es where p: "publish_two sv env (ck 6) (uu 0) ''run_finalized'' [(''state'', JStr (lv_state ?r2)), ?fin] (ck 7) (uu 1)
      (terminal_event (lv_state ?r2)) [(''state'', JStr (lv_state ?r2)), (''error'', JStr (str_or (lv_error ?r2))), ?fin] ?r2 ?m3 =
      (Inr (), ?m3\<lparr>rm_event_seqs := sq, rm_event_store := es\<rparr>)"
    using dev_publish_two [OF assms(1)] by blast
  let ?m4 = "?m3\<lparr>rm_event_seqs := sq, rm_event_store := es\<rparr>"
  have "map_of (rm_runs ?m1) rid = Some r1" using t(2) by (simp add: set_run_def)
  then have "execute_finally sv env ck uu rid ?m1 = (Inr (), settle_idempotency sv env (ck 8) (ck 9) ?r2 ?m4)"
    using s(1) p by (simp add: execute_finally_def Let_def)
  then have e: "x = Inr ()" "m' = settle_idempotency sv env (ck 8) (ck 9) ?r2 ?m4"
    using assms(2,6) t(1) by (auto simp: execute_end_def)
  have i: "\<exists>ids. settle_idempotency sv env t1 t2 r k = k\<lparr>rm_idempotency_store := ids\<rparr>" for t1 t2 r k
  proof -
    have "settle_idempotency sv env t1 t2 r k = k \<or> (\<exists>ids. settle_idempotency sv env t1 t2 r k = k\<lparr>rm_idempotency_store := ids\<rparr>)"
      unfolding settle_idempotency_def by (auto split: option.split)
    moreover have "k = k\<lparr>rm_idempotency_store := rm_idempotency_store k\<rparr>" by simp
    ultimately show ?thesis by metis
  qed
  obtain ids where "m' = ?m4\<lparr>rm_idempotency_store := ids\<rparr>" using i e(2) by blast
  then show ?thesis using e(1) t(2,3) s(2) q by (auto simp: set_run_def)
qed

definition small_running :: run_manager where
  "small_running = small_waiting\<lparr>rm_starting := [], rm_executing := [''r1''], rm_active_run_ids := [''r1''],
     rm_runs := [(''r1'', small_run\<lparr>lv_state := ''running''\<rparr>)]\<rparr>"

theorem executor_return_settles_the_run_witness:
  "rm_permits (snd (execute_end (\<lambda>_. ''e'') small_services None (\<lambda>_. 0) small_uu ''r1'' (Exec_raised ''boom'') small_running)) = 1 \<and>
   (\<exists>run'. map_of (rm_runs (snd (execute_end (\<lambda>_. ''e'') small_services None (\<lambda>_. 0) small_uu ''r1'' (Exec_raised ''boom'') small_running))) ''r1'' = Some run' \<and>
     lv_state run' = ''failed'')"
proof -
  have p: "rm_permits small_running = 0" by (simp add: small_running_def small_waiting_def)
  show ?thesis
    using executor_return_settles_the_run [where env = None and rid = "''r1''" and m = small_running and run = "small_run\<lparr>lv_state := ''running''\<rparr>"
        and out = "Exec_raised ''boom''" and et = "\<lambda>_. ''e''" and sv = small_services and ck = "\<lambda>_. 0" and uu = small_uu,
        OF posture_from_env_unset _ _ _ _ prod.collapse [symmetric]] p
    by (simp add: small_running_def settled_state_def)
qed

end
