(* ===== verification/Rate_Limiter.thy ===== *)
theory Rate_Limiter
  imports Run_Store
begin

text \<open>
  The token-bucket rate limiter of \<open>hi_agent/server/rate_limiter.py\<close>: one bucket per tenant or client address, a second and
  smaller one per tenant, refilled by elapsed time and capped, with stale buckets dropped. The readings of the monotonic
  clock are arguments; floats are reals. A division by zero is the only exception.
\<close>

section \<open>State\<close>

record token_bucket =
  tb_tokens :: real
  tb_last_refill :: real

type_synonym bucket_table = "(string \<times> token_bucket) list"

record rate_limiter =
  rl_burst :: int
  rl_rate :: real
  rl_buckets :: bucket_table
  rl_tenant_rate :: real
  rl_tenant_burst :: int
  rl_tenant_limiters :: bucket_table
  rl_last_cleanup :: real

datatype limiter_error = Zero_division

definition RATE_EXEMPT_PATHS :: "string list" where
  "RATE_EXEMPT_PATHS = [''/health'', ''/metrics'', ''/metrics/json'', ''/ready'', ''/manifest'', ''/mcp/status'']"

definition EXEMPT_GET_PREFIXES :: "string list" where
  "EXEMPT_GET_PREFIXES = [''/runs/'']"

definition STALE_SECONDS :: real where
  "STALE_SECONDS = 600"

text \<open>\<open>int\<close> of a float.\<close>

definition py_trunc :: "real \<Rightarrow> int" where
  "py_trunc x = (if 0 \<le> x then \<lfloor>x\<rfloor> else \<lceil>x\<rceil>)"

definition rate_limiter_init :: "int \<Rightarrow> real \<Rightarrow> int \<Rightarrow> real \<Rightarrow> real \<Rightarrow> limiter_error + rate_limiter" where
  "rate_limiter_init max_requests window_seconds burst tenant_rate_divisor now =
     (if window_seconds = 0 then Inl Zero_division
      else
        let rate = of_int max_requests / window_seconds; divisor = max tenant_rate_divisor 1 in
        Inr \<lparr>rl_burst = burst, rl_rate = rate, rl_buckets = [], rl_tenant_rate = rate / divisor,
          rl_tenant_burst = max 1 (py_trunc (of_int burst / divisor)), rl_tenant_limiters = [], rl_last_cleanup = now\<rparr>)"

section \<open>Buckets\<close>

text \<open>The step that both limiters make under the lock: find or create the bucket, refill it, take a token.\<close>

definition refill :: "real \<Rightarrow> int \<Rightarrow> real \<Rightarrow> token_bucket \<Rightarrow> token_bucket" where
  "refill rate burst now b =
     \<lparr>tb_tokens = min (of_int burst) (tb_tokens b + (now - tb_last_refill b) * rate), tb_last_refill = now\<rparr>"

definition take_token ::
  "real \<Rightarrow> int \<Rightarrow> real \<Rightarrow> string \<Rightarrow> bucket_table \<Rightarrow> (limiter_error + bool \<times> real) \<times> bucket_table" where
  "take_token rate burst now key buckets =
     (let bucket = (case map_of buckets key of None \<Rightarrow> \<lparr>tb_tokens = of_int burst, tb_last_refill = now\<rparr> | Some b \<Rightarrow> b);
          b = refill rate burst now bucket
      in if 1 \<le> tb_tokens b then (Inr (True, 0), dict_set key (b\<lparr>tb_tokens := tb_tokens b - 1\<rparr>) buckets)
         else if rate = 0 then (Inl Zero_division, dict_set key b buckets)
         else (Inr (False, (1 - tb_tokens b) / rate), dict_set key b buckets))"

definition fresh_buckets :: "real \<Rightarrow> bucket_table \<Rightarrow> bucket_table" where
  "fresh_buckets now buckets = filter (\<lambda>(k, b). \<not> now - tb_last_refill b > STALE_SECONDS) buckets"

definition cleanup_stale_buckets :: "real \<Rightarrow> rate_limiter \<Rightarrow> rate_limiter" where
  "cleanup_stale_buckets now l =
     l\<lparr>rl_buckets := fresh_buckets now (rl_buckets l), rl_tenant_limiters := fresh_buckets now (rl_tenant_limiters l)\<rparr>"

definition maybe_cleanup :: "real \<Rightarrow> rate_limiter \<Rightarrow> rate_limiter" where
  "maybe_cleanup now l =
     (if now - rl_last_cleanup l < STALE_SECONDS then l else cleanup_stale_buckets now (l\<lparr>rl_last_cleanup := now\<rparr>))"

definition bucket_key :: "string \<Rightarrow> string \<Rightarrow> run_execution_context option \<Rightarrow> string" where
  "bucket_key client_ip tenant_id exec_ctx =
     (let from_ctx = (case exec_ctx of None \<Rightarrow> '''' | Some c \<Rightarrow> xc_tenant_id c);
          effective_tenant = (if from_ctx \<noteq> '''' then from_ctx else tenant_id)
      in if effective_tenant \<noteq> '''' then ''tenant:'' @ effective_tenant else ''ip:'' @ client_ip)"

definition consume ::
  "real \<Rightarrow> string \<Rightarrow> string \<Rightarrow> run_execution_context option \<Rightarrow> rate_limiter \<Rightarrow> (limiter_error + bool \<times> real) \<times> rate_limiter" where
  "consume now client_ip tenant_id exec_ctx l =
     (let l1 = maybe_cleanup now l in
      case take_token (rl_rate l1) (rl_burst l1) now (bucket_key client_ip tenant_id exec_ctx) (rl_buckets l1) of
        (x, buckets) \<Rightarrow> (x, l1\<lparr>rl_buckets := buckets\<rparr>))"

definition consume_tenant :: "real \<Rightarrow> string \<Rightarrow> rate_limiter \<Rightarrow> (limiter_error + bool \<times> real) \<times> rate_limiter" where
  "consume_tenant now tenant_id l =
     (case take_token (rl_tenant_rate l) (rl_tenant_burst l) now tenant_id (rl_tenant_limiters l) of
        (x, buckets) \<Rightarrow> (x, l\<lparr>rl_tenant_limiters := buckets\<rparr>))"

section \<open>Requests\<close>

record limited_request =
  hq_is_http :: bool
  hq_path :: string
  hq_method :: string
  hq_client :: "string option"
  hq_tenant :: "string option"

datatype limiter_answer = Pass_on | Too_many int | Limiter_raised limiter_error

definition is_exempt :: "limited_request \<Rightarrow> bool" where
  "is_exempt r = (\<not> hq_is_http r \<or> hq_path r \<in> set RATE_EXEMPT_PATHS \<or>
     hq_method r = ''GET'' \<and> list_ex (\<lambda>p. py_startswith (hq_path r) p) EXEMPT_GET_PREFIXES)"

definition limit_request :: "real \<Rightarrow> real \<Rightarrow> limited_request \<Rightarrow> rate_limiter \<Rightarrow> limiter_answer \<times> rate_limiter" where
  "limit_request now1 now2 r l =
     (if is_exempt r then (Pass_on, l)
      else
        let client_ip = (case hq_client r of None \<Rightarrow> ''unknown'' | Some ip \<Rightarrow> ip); tenant_id = str_or (hq_tenant r) in
        case consume now1 client_ip tenant_id None l of
          (Inl e, l1) \<Rightarrow> (Limiter_raised e, l1)
        | (Inr (False, retry_after), l1) \<Rightarrow> (Too_many (py_trunc retry_after + 1), l1)
        | (Inr (True, _), l1) \<Rightarrow>
            if tenant_id = '''' then (Pass_on, l1)
            else (case consume_tenant now2 tenant_id l1 of
                (Inl e, l2) \<Rightarrow> (Limiter_raised e, l2)
              | (Inr (False, retry_after), l2) \<Rightarrow> (Too_many (py_trunc retry_after + 1), l2)
              | (Inr (True, _), l2) \<Rightarrow> (Pass_on, l2)))"

end
