(* ===== verification/Session_Store.thy ===== *)
theory Session_Store
  imports Run_Store
begin

text \<open>
  The durable sessions of \<open>hi_agent/server/session_store.py\<close> and the middleware of \<open>hi_agent/server/session_middleware.py\<close> that
  checks who owns the session a request names. A store that was not opened has no table. Session identifiers are fresh
  UUIDs, an argument; the shim for admin tooling is the unscoped read.
\<close>

section \<open>The store\<close>

record session_record =
  sn_session_id :: string
  sn_tenant_id :: string
  sn_user_id :: string
  sn_team_id :: string
  sn_name :: string
  sn_status :: string
  sn_created_at :: real
  sn_archived_at :: "real option"

record session_store =
  sn_rows :: "session_record list option"

datatype session_error =
    Session_not_initialized
  | Session_incomplete run_store_error
  | Session_id_taken
  | Session_permission string string string

definition session_store_init :: session_store where
  "session_store_init = \<lparr>sn_rows = None\<rparr>"

text \<open>\<open>CREATE TABLE IF NOT EXISTS\<close> on the database file, whose rows are the argument.\<close>

definition session_initialize :: "session_record list \<Rightarrow> session_store \<Rightarrow> session_store" where
  "session_initialize on_disk s = s\<lparr>sn_rows := Some on_disk\<rparr>"

definition session_record_post_init :: "string option \<Rightarrow> session_record \<Rightarrow> run_store_error option" where
  "session_record_post_init env r = spine_check env (missing_fields [(''session_id'', sn_session_id r), (''tenant_id'', sn_tenant_id r)])"

definition session_create ::
  "real \<Rightarrow> string \<Rightarrow> string \<Rightarrow> string \<Rightarrow> string \<Rightarrow> string \<Rightarrow> run_execution_context option \<Rightarrow> session_store \<Rightarrow>
   (session_error + string) \<times> session_store" where
  "session_create now sid tenant_id user_id team_id name exec_ctx s =
     (let tenant = (case exec_ctx of None \<Rightarrow> tenant_id | Some c \<Rightarrow> if xc_tenant_id c \<noteq> '''' then xc_tenant_id c else tenant_id);
          user = (case exec_ctx of None \<Rightarrow> user_id | Some c \<Rightarrow> if xc_user_id c \<noteq> '''' then xc_user_id c else user_id) in
      case sn_rows s of
        None \<Rightarrow> (Inl Session_not_initialized, s)
      | Some rows \<Rightarrow>
          if sid \<in> sn_session_id ` set rows then (Inl Session_id_taken, s)
          else (Inr sid, s\<lparr>sn_rows := Some (rows @ [\<lparr>sn_session_id = sid, sn_tenant_id = tenant, sn_user_id = user, sn_team_id = team_id,
            sn_name = name, sn_status = ''active'', sn_created_at = now, sn_archived_at = None\<rparr>])\<rparr>))"

definition session_row :: "string option \<Rightarrow> session_record option \<Rightarrow> session_error + session_record option" where
  "session_row env row = (case row of None \<Rightarrow> Inr None
     | Some r \<Rightarrow> (case session_record_post_init env r of Some e \<Rightarrow> Inl (Session_incomplete e) | None \<Rightarrow> Inr (Some r)))"

definition admin_internal_get :: "string option \<Rightarrow> string \<Rightarrow> session_store \<Rightarrow> session_error + session_record option" where
  "admin_internal_get env session_id s =
     (case sn_rows s of None \<Rightarrow> Inl Session_not_initialized
      | Some rows \<Rightarrow> session_row env (find (\<lambda>r. sn_session_id r = session_id) rows))"

definition session_for_tenant :: "string option \<Rightarrow> string \<Rightarrow> string \<Rightarrow> session_store \<Rightarrow> session_error + session_record option" where
  "session_for_tenant env session_id tenant_id s =
     (case sn_rows s of None \<Rightarrow> Inl Session_not_initialized
      | Some rows \<Rightarrow> session_row env (find (\<lambda>r. sn_session_id r = session_id \<and> sn_tenant_id r = tenant_id) rows))"

definition owns_session :: "string \<Rightarrow> string \<Rightarrow> string \<Rightarrow> session_record \<Rightarrow> bool" where
  "owns_session session_id tenant_id user_id r =
     (sn_session_id r = session_id \<and> sn_tenant_id r = tenant_id \<and> sn_user_id r = user_id \<and> sn_status r = ''active'')"

definition validate_ownership :: "string \<Rightarrow> string \<Rightarrow> string \<Rightarrow> session_store \<Rightarrow> session_error + bool" where
  "validate_ownership session_id tenant_id user_id s =
     (case sn_rows s of None \<Rightarrow> Inl Session_not_initialized
      | Some rows \<Rightarrow> Inr (find (owns_session session_id tenant_id user_id) rows \<noteq> None))"

fun session_rows :: "string option \<Rightarrow> session_record list \<Rightarrow> session_error + session_record list" where
  "session_rows env [] = Inr []"
| "session_rows env (r # rows) =
     (case session_record_post_init env r of
        Some e \<Rightarrow> Inl (Session_incomplete e)
      | None \<Rightarrow> (case session_rows env rows of Inl e \<Rightarrow> Inl e | Inr rs \<Rightarrow> Inr (r # rs)))"

text \<open>\<open>ORDER BY created_at DESC\<close> along the index \<open>(tenant_id, user_id, status, created_at)\<close>, read backwards.\<close>

definition list_active_sessions :: "string option \<Rightarrow> string \<Rightarrow> string \<Rightarrow> session_store \<Rightarrow> session_error + session_record list" where
  "list_active_sessions env tenant_id user_id s =
     (case sn_rows s of None \<Rightarrow> Inl Session_not_initialized
      | Some rows \<Rightarrow> session_rows env (rev (sort_key sn_created_at
          (filter (\<lambda>r. sn_tenant_id r = tenant_id \<and> sn_user_id r = user_id \<and> sn_status r = ''active'') rows))))"

definition archive_session :: "real \<Rightarrow> string \<Rightarrow> string \<Rightarrow> string \<Rightarrow> session_store \<Rightarrow> (session_error + unit) \<times> session_store" where
  "archive_session now session_id tenant_id user_id s =
     (case sn_rows s of
        None \<Rightarrow> (Inl Session_not_initialized, s)
      | Some rows \<Rightarrow>
          let p = owns_session session_id tenant_id user_id;
              s' = s\<lparr>sn_rows := Some (sql_update p (\<lambda>r. r\<lparr>sn_status := ''archived'', sn_archived_at := Some now\<rparr>) rows)\<rparr>
          in if sql_rowcount p rows = 0 then (Inl (Session_permission session_id tenant_id user_id), s') else (Inr (), s'))"

section \<open>The middleware\<close>

text \<open>The attributes of the request's tenant context that the middleware reads and sets.\<close>

record scope_context =
  sc_tenant_id :: string
  sc_user_id :: string
  sc_team_id :: string
  sc_session_id :: string

datatype session_answer =
    Session_pass "scope_context option" "string option"
  | Session_reject string int
  | Session_raise session_error

definition SESSION_EXEMPT_PATHS :: "string list" where
  "SESSION_EXEMPT_PATHS = [''/health'', ''/ready'', ''/metrics'', ''/metrics/json'', ''/manifest'']"

definition SESSION_AUTOCREATE :: "(string \<times> string) list" where
  "SESSION_AUTOCREATE = [(''POST'', ''/runs'')]"

definition SESSION_OPTIONAL_PREFIXES :: "string list" where
  "SESSION_OPTIONAL_PREFIXES = [''/runs'']"

text \<open>For an HTTP request; \<open>header\<close> is the value of \<open>X-Session-Id\<close>, empty when absent.\<close>

definition session_call ::
  "real \<Rightarrow> string \<Rightarrow> scope_context option \<Rightarrow> string \<Rightarrow> string \<Rightarrow> string \<Rightarrow> session_store \<Rightarrow> session_answer \<times> session_store" where
  "session_call now new_id ctx path verb header s =
     (if path \<in> set SESSION_EXEMPT_PATHS then (Session_pass ctx None, s)
      else case ctx of
        None \<Rightarrow> (Session_pass None None, s)
      | Some c \<Rightarrow>
          let header_sid = py_strip header in
          if header_sid \<noteq> '''' then
            (case validate_ownership header_sid (sc_tenant_id c) (sc_user_id c) s of
               Inl e \<Rightarrow> (Session_raise e, s)
             | Inr False \<Rightarrow> (Session_reject ''session not found or access denied'' 403, s)
             | Inr True \<Rightarrow> (Session_pass (Some (c\<lparr>sc_session_id := header_sid\<rparr>)) None, s))
          else if (verb, path) \<in> set SESSION_AUTOCREATE then
            (case session_create now new_id (sc_tenant_id c) (sc_user_id c) (sc_team_id c) '''' None s of
               (Inl e, s') \<Rightarrow> (Session_raise e, s')
             | (Inr sid, s') \<Rightarrow> (Session_pass (Some (c\<lparr>sc_session_id := sid\<rparr>)) (Some sid), s'))
          else if verb = ''GET'' \<and> list_ex (\<lambda>p. path = p \<or> py_startswith path (p @ ''/'')) SESSION_OPTIONAL_PREFIXES then
            (Session_pass (Some c) None, s)
          else (Session_reject ''X-Session-Id header required'' 400, s))"

end
