(* ===== verification/Http_Stack.thy ===== *)
theory Http_Stack
  imports Rate_Limiter Session_Store Request_Auth
begin

text \<open>
  The middleware stack that \<open>build_app\<close> of \<open>hi_agent/server/app.py\<close> puts in front of the routes: the drain gate of
  \<open>middleware_drain.py\<close>, the rate limiter, the sessions and the authentication, each passing the request on to the
  next. \<open>run_stack\<close> takes the stack from the outside in; how Starlette orders the calls of \<open>add_middleware\<close> is a
  parameter of the properties. The trace middleware passes every request on.
\<close>

section \<open>The drain gate\<close>

definition DRAIN_EXEMPT_PREFIXES :: "string list" where
  "DRAIN_EXEMPT_PREFIXES = [''/ops/drain'']"

definition DRAIN_EXEMPT_SUFFIXES :: "string list" where
  "DRAIN_EXEMPT_SUFFIXES = [''/cancel'', ''/signal'']"

definition SAFE_METHODS :: "string list" where
  "SAFE_METHODS = [''GET'', ''HEAD'', ''OPTIONS'']"

definition py_endswith :: "string \<Rightarrow> string \<Rightarrow> bool" where
  "py_endswith s sfx = (length sfx \<le> length s \<and> drop (length s - length sfx) s = sfx)"

text \<open>Whether the request is passed on.\<close>

definition drain_passes :: "bool \<Rightarrow> string \<Rightarrow> string \<Rightarrow> bool" where
  "drain_passes is_draining verb path =
     (verb \<in> set SAFE_METHODS \<or> list_ex (\<lambda>p. path = p \<or> py_startswith path (p @ ''/'')) DRAIN_EXEMPT_PREFIXES \<or>
      list_ex (py_endswith path) DRAIN_EXEMPT_SUFFIXES \<or> \<not> is_draining)"

section \<open>The stack\<close>

datatype middleware = Auth_mw | Session_mw | Rate_limit_mw | Trace_id_mw | Drain_mw

text \<open>The calls of \<open>add_middleware\<close>, in their order; the session middleware only with a session store.\<close>

definition added_middleware :: "bool \<Rightarrow> middleware list" where
  "added_middleware has_sessions = [Auth_mw] @ (if has_sessions then [Session_mw] else []) @ [Rate_limit_mw, Trace_id_mw, Drain_mw]"

text \<open>An HTTP request, the contexts that its scope and its task carry, and what a request meets on its way.\<close>

record http_scope =
  ht_path :: string
  ht_method :: string
  ht_client :: "string option"
  ht_headers :: headers
  ht_session_header :: string
  ht_scope_ctx :: "scope_context option"
  ht_task_ctx :: "scope_context option"

record server_state =
  sv_limiter :: rate_limiter
  sv_sessions :: session_store
  sv_draining :: bool

record stack_services =
  sk_jwt :: jwt_services
  sk_env :: auth_env
  sk_auth :: auth_middleware
  sk_time :: real
  sk_clock1 :: real
  sk_clock2 :: real
  sk_new_id :: string

datatype stack_answer = Routed http_scope | Answered int string | Stack_limiter_raised limiter_error
  | Stack_session_raised session_error | Stack_auth_raised auth_error

definition current_ctx :: "http_scope \<Rightarrow> scope_context option" where
  "current_ctx r = (case ht_scope_ctx r of Some c \<Rightarrow> Some c | None \<Rightarrow> ht_task_ctx r)"

text \<open>The context is one object: what the session middleware writes into it is also seen through the task.\<close>

definition propagate_ctx :: "scope_context option \<Rightarrow> http_scope \<Rightarrow> http_scope" where
  "propagate_ctx ctx r = (case ctx of None \<Rightarrow> r
     | Some c \<Rightarrow> r\<lparr>ht_scope_ctx := Some c, ht_task_ctx := map_option (\<lambda>_. c) (ht_task_ctx r)\<rparr>)"

definition to_limiter :: "http_scope \<Rightarrow> limited_request" where
  "to_limiter r = \<lparr>hq_is_http = True, hq_path = ht_path r, hq_method = ht_method r, hq_client = ht_client r,
     hq_tenant = map_option sc_tenant_id (ht_scope_ctx r)\<rparr>"

text \<open>What the authentication attaches: to the task only while it is disabled, to both otherwise.\<close>

definition attach_identity :: "auth_middleware \<Rightarrow> request_identity option \<Rightarrow> http_scope \<Rightarrow> http_scope" where
  "attach_identity m identity r =
     (case identity of
        None \<Rightarrow> r
      | Some i \<Rightarrow>
          if am_enabled m then
            let c = \<lparr>sc_tenant_id = rq_tenant_id i, sc_user_id = rq_user_id i, sc_team_id = '''', sc_session_id = ''''\<rparr>
            in r\<lparr>ht_scope_ctx := Some c, ht_task_ctx := Some c\<rparr>
          else r\<lparr>ht_task_ctx := Some \<lparr>sc_tenant_id = rq_tenant_id i, sc_user_id = rq_user_id i, sc_team_id = '''',
            sc_session_id = ''__anonymous__''\<rparr>\<rparr>)"

fun run_stack :: "stack_services \<Rightarrow> middleware list \<Rightarrow> http_scope \<Rightarrow> server_state \<Rightarrow> stack_answer \<times> server_state" where
  "run_stack k [] r s = (Routed r, s)"
| "run_stack k (Trace_id_mw # ms) r s = run_stack k ms r s"
| "run_stack k (Drain_mw # ms) r s =
     (if drain_passes (sv_draining s) (ht_method r) (ht_path r) then run_stack k ms r s else (Answered 503 ''server_draining'', s))"
| "run_stack k (Rate_limit_mw # ms) r s =
     (case limit_request (sk_clock1 k) (sk_clock2 k) (to_limiter r) (sv_limiter s) of
        (Pass_on, l) \<Rightarrow> run_stack k ms r (s\<lparr>sv_limiter := l\<rparr>)
      | (Too_many _, l) \<Rightarrow> (Answered 429 ''rate_limit_exceeded'', s\<lparr>sv_limiter := l\<rparr>)
      | (Limiter_raised e, l) \<Rightarrow> (Stack_limiter_raised e, s\<lparr>sv_limiter := l\<rparr>))"
| "run_stack k (Session_mw # ms) r s =
     (case session_call (sk_time k) (sk_new_id k) (current_ctx r) (ht_path r) (ht_method r) (ht_session_header r) (sv_sessions s) of
        (Session_pass ctx _, ss) \<Rightarrow>
          run_stack k ms (if ht_path r \<in> set SESSION_EXEMPT_PATHS then r else propagate_ctx ctx r) (s\<lparr>sv_sessions := ss\<rparr>)
      | (Session_reject message status, ss) \<Rightarrow> (Answered status message, s\<lparr>sv_sessions := ss\<rparr>)
      | (Session_raise e, ss) \<Rightarrow> (Stack_session_raised e, s\<lparr>sv_sessions := ss\<rparr>))"
| "run_stack k (Auth_mw # ms) r s =
     (case auth_call (sk_jwt k) (sk_env k) (sk_time k) (sk_auth k) (ht_path r) (ht_method r) (ht_headers r) of
        Auth_forward identity \<Rightarrow> run_stack k ms (attach_identity (sk_auth k) identity r) s
      | Auth_reject message status \<Rightarrow> (Answered status message, s)
      | Auth_raise e \<Rightarrow> (Stack_auth_raised e, s))"

end
