(* ===== verification/Http_Stack_Theorems.thy ===== *)
theory Http_Stack_Theorems
  imports Http_Stack
begin

text \<open>
  What the rate limiter admits in any stretch of time, when a rejected client gets in again, who gets through the session check,
  and what the order of the stack makes of both.
\<close>

section \<open>Levels\<close>

text \<open>What a bucket would hold if it were refilled now; a client without one would get a full one.\<close>

definition bucket_level :: "real \<Rightarrow> int \<Rightarrow> real \<Rightarrow> bucket_table \<Rightarrow> string \<Rightarrow> real" where
  "bucket_level rate burst now tbl k =
     (case map_of tbl k of None \<Rightarrow> of_int burst | Some b \<Rightarrow> min (of_int burst) (tb_tokens b + (now - tb_last_refill b) * rate))"

definition buckets_ok :: "real \<Rightarrow> bucket_table \<Rightarrow> bool" where
  "buckets_ok now tbl = (distinct (map fst tbl) \<and> (\<forall>k b. map_of tbl k = Some b \<longrightarrow> 0 \<le> tb_tokens b \<and> tb_last_refill b \<le> now))"

lemma level_le_burst: "bucket_level rate burst now tbl k \<le> of_int burst"
  by (simp add: bucket_level_def split: option.split)

lemma level_later:
  assumes "0 \<le> rate" "now \<le> now'"
  shows "bucket_level rate burst now' tbl k \<le> bucket_level rate burst now tbl k + (now' - now) * rate"
proof -
  have "0 \<le> (now' - now) * rate" using assms by simp
  then show ?thesis by (auto simp: bucket_level_def algebra_simps min_def split: option.split)
qed

lemma buckets_ok_later: "buckets_ok now tbl \<Longrightarrow> now \<le> now' \<Longrightarrow> buckets_ok now' tbl"
  by (fastforce simp: buckets_ok_def)

lemma buckets_ok_Nil [simp]: "buckets_ok now []"
  by (simp add: buckets_ok_def)

lemma map_of_filter_snd:
  "distinct (map fst tbl) \<Longrightarrow> map_of (filter (\<lambda>(k, b). p b) tbl) k = (case map_of tbl k of None \<Rightarrow> None | Some b \<Rightarrow> if p b then Some b else None)"
  by (induction tbl) (auto simp: map_of_eq_None_iff split: option.split)

lemma fresh_ok: "buckets_ok now tbl \<Longrightarrow> buckets_ok now (fresh_buckets now tbl)"
  by (auto simp: buckets_ok_def fresh_buckets_def distinct_map_filter map_of_filter_snd split: option.splits if_splits)

text \<open>Dropping a bucket that nobody used for ten minutes changes nothing if ten minutes fill a bucket.\<close>

lemma fresh_level:
  assumes "buckets_ok now tbl" "of_int burst \<le> STALE_SECONDS * rate" "0 \<le> rate"
  shows "bucket_level rate burst now (fresh_buckets now tbl) k = bucket_level rate burst now tbl k"
proof (cases "map_of tbl k")
  case (Some b)
  have b: "0 \<le> tb_tokens b" using assms(1) Some by (auto simp: buckets_ok_def)
  have m: "map_of (fresh_buckets now tbl) k = (if now - tb_last_refill b > STALE_SECONDS then None else Some b)"
    using assms(1) Some by (simp add: fresh_buckets_def map_of_filter_snd buckets_ok_def)
  show ?thesis
  proof (cases "now - tb_last_refill b > STALE_SECONDS")
    case True
    then have "STALE_SECONDS * rate \<le> (now - tb_last_refill b) * rate" using assms(3) by (intro mult_right_mono) auto
    then show ?thesis using True m Some b assms(2) by (simp add: bucket_level_def)
  qed (simp add: bucket_level_def m Some)
next
  case None
  then show ?thesis using assms(1) by (simp add: bucket_level_def fresh_buckets_def map_of_filter_snd buckets_ok_def)
qed

lemma take_token_effect:
  assumes "take_token rate burst now key tbl = (x, tbl')" "buckets_ok now tbl" "0 < rate" "0 \<le> burst"
  shows "buckets_ok now tbl' \<and> x = (if 1 \<le> bucket_level rate burst now tbl key then Inr (True, 0)
      else Inr (False, (1 - bucket_level rate burst now tbl key) / rate)) \<and>
    bucket_level rate burst now tbl' key = bucket_level rate burst now tbl key - (if 1 \<le> bucket_level rate burst now tbl key then 1 else 0) \<and>
    (\<forall>k. k \<noteq> key \<longrightarrow> bucket_level rate burst now tbl' k = bucket_level rate burst now tbl k)"
proof -
  define b where "b = refill rate burst now (case map_of tbl key of None \<Rightarrow> \<lparr>tb_tokens = of_int burst, tb_last_refill = now\<rparr> | Some b \<Rightarrow> b)"
  have lv: "tb_tokens b = bucket_level rate burst now tbl key" "tb_last_refill b = now"
    by (simp_all add: b_def refill_def bucket_level_def split: option.split)
  have "0 \<le> tb_tokens b"
  proof (cases "map_of tbl key")
    case (Some c)
    then have "0 \<le> tb_tokens c" "0 \<le> (now - tb_last_refill c) * rate" using assms(2,3) by (auto simp: buckets_ok_def)
    then show ?thesis using Some assms(4) by (simp add: b_def refill_def)
  qed (use assms(4) in \<open>simp add: b_def refill_def\<close>)
  then have ok: "buckets_ok now (dict_set key c tbl)" if "0 \<le> tb_tokens c" "tb_last_refill c = now" for c
    using assms(2) that by (auto simp: buckets_ok_def distinct_dict_set)
  show ?thesis using assms(1,3) lv level_le_burst [of rate burst now tbl key] ok \<open>0 \<le> tb_tokens b\<close>
    by (auto simp: take_token_def b_def [symmetric] bucket_level_def Let_def split: if_splits)
qed

section \<open>Sequences of requests\<close>

text \<open>Requests with the two readings of the clock each one makes, in order.\<close>

type_synonym timed_request = "real \<times> real \<times> limited_request"

fun clock_ordered :: "real \<Rightarrow> timed_request list \<Rightarrow> real \<Rightarrow> bool" where
  "clock_ordered s [] t = (s \<le> t)"
| "clock_ordered s ((t1, t2, r) # rs) t = (s \<le> t1 \<and> t1 \<le> t2 \<and> clock_ordered t2 rs t)"

fun after_requests :: "timed_request list \<Rightarrow> rate_limiter \<Rightarrow> rate_limiter" where
  "after_requests [] l = l"
| "after_requests ((t1, t2, r) # rs) l = after_requests rs (snd (limit_request t1 t2 r l))"

fun passed :: "(limited_request \<Rightarrow> bool) \<Rightarrow> timed_request list \<Rightarrow> rate_limiter \<Rightarrow> nat" where
  "passed P [] l = 0"
| "passed P ((t1, t2, r) # rs) l =
     (if \<not> is_exempt r \<and> P r \<and> fst (limit_request t1 t2 r l) = Pass_on then 1 else 0) + passed P rs (snd (limit_request t1 t2 r l))"

definition request_bucket :: "limited_request \<Rightarrow> string" where
  "request_bucket r = bucket_key (case hq_client r of None \<Rightarrow> ''unknown'' | Some ip \<Rightarrow> ip) (str_or (hq_tenant r)) None"

text \<open>The configuration is kept, and ten minutes fill both kinds of bucket.\<close>

definition limits :: "rate_limiter \<Rightarrow> int \<times> real \<times> int \<times> real" where
  "limits l = (rl_burst l, rl_rate l, rl_tenant_burst l, rl_tenant_rate l)"

definition limiter_ok :: "real \<Rightarrow> rate_limiter \<Rightarrow> bool" where
  "limiter_ok now l = (0 < rl_rate l \<and> 0 < rl_tenant_rate l \<and> 0 \<le> rl_burst l \<and> 0 \<le> rl_tenant_burst l \<and>
     of_int (rl_burst l) \<le> STALE_SECONDS * rl_rate l \<and> of_int (rl_tenant_burst l) \<le> STALE_SECONDS * rl_tenant_rate l \<and>
     buckets_ok now (rl_buckets l) \<and> buckets_ok now (rl_tenant_limiters l))"

abbreviation client_level :: "real \<Rightarrow> rate_limiter \<Rightarrow> string \<Rightarrow> real" where
  "client_level now l k \<equiv> bucket_level (rl_rate l) (rl_burst l) now (rl_buckets l) k"

abbreviation tenant_level :: "real \<Rightarrow> rate_limiter \<Rightarrow> string \<Rightarrow> real" where
  "tenant_level now l k \<equiv> bucket_level (rl_tenant_rate l) (rl_tenant_burst l) now (rl_tenant_limiters l) k"

lemma limiter_ok_later: "limiter_ok now l \<Longrightarrow> now \<le> now' \<Longrightarrow> limiter_ok now' l"
  by (auto simp: limiter_ok_def buckets_ok_later)

lemma maybe_cleanup_effect:
  assumes "limiter_ok now l"
  shows "limiter_ok now (maybe_cleanup now l) \<and> limits (maybe_cleanup now l) = limits l \<and>
    client_level now (maybe_cleanup now l) k = client_level now l k \<and> tenant_level now (maybe_cleanup now l) k = tenant_level now l k"
  using assms by (auto simp: maybe_cleanup_def cleanup_stale_buckets_def limiter_ok_def limits_def fresh_ok fresh_level)

lemma consume_effect:
  assumes "consume now ip tenant ctx l = (x, l')" "limiter_ok now l"
  defines "key \<equiv> bucket_key ip tenant ctx"
  shows "limiter_ok now l' \<and> limits l' = limits l \<and> tenant_level now l' k = tenant_level now l k \<and>
    x = (if 1 \<le> client_level now l key then Inr (True, 0) else Inr (False, (1 - client_level now l key) / rl_rate l)) \<and>
    client_level now l' k = client_level now l k - (if k = key \<and> 1 \<le> client_level now l key then 1 else 0)"
proof -
  let ?l = "maybe_cleanup now l"
  note c = maybe_cleanup_effect [OF assms(2)]
  obtain tbl where t: "take_token (rl_rate ?l) (rl_burst ?l) now key (rl_buckets ?l) = (x, tbl)" "l' = ?l\<lparr>rl_buckets := tbl\<rparr>"
    using assms(1) by (auto simp: consume_def Let_def key_def split: prod.splits)
  have "limiter_ok now ?l" using c by blast
  then have ok: "buckets_ok now (rl_buckets ?l)" "0 < rl_rate ?l" "0 \<le> rl_burst ?l" by (simp_all add: limiter_ok_def)
  note e = take_token_effect [OF t(1) ok]
  have r: "rl_rate ?l = rl_rate l" "client_level now ?l key = client_level now l key" "client_level now ?l k = client_level now l k"
      "tenant_level now ?l k = tenant_level now l k" "limits ?l = limits l"
    using c [of key] c [of k] by (auto simp: limits_def)
  have "limiter_ok now l'" using e \<open>limiter_ok now ?l\<close> t(2) by (simp add: limiter_ok_def)
  moreover have "limits l' = limits l" "tenant_level now l' k = tenant_level now l k" using t(2) r by (simp_all add: limits_def)
  moreover have "x = (if 1 \<le> client_level now l key then Inr (True, 0) else Inr (False, (1 - client_level now l key) / rl_rate l))"
    using e r(1,2) by simp
  moreover have "client_level now l' k = client_level now l k - (if k = key \<and> 1 \<le> client_level now l key then 1 else 0)"
    using e r(2,3) t(2) by (cases "k = key") simp_all
  ultimately show ?thesis by blast
qed

lemma consume_tenant_effect:
  assumes "consume_tenant now tenant l = (x, l')" "limiter_ok now l"
  shows "limiter_ok now l' \<and> limits l' = limits l \<and> client_level now l' k = client_level now l k \<and>
    x = (if 1 \<le> tenant_level now l tenant then Inr (True, 0) else Inr (False, (1 - tenant_level now l tenant) / rl_tenant_rate l)) \<and>
    tenant_level now l' k = tenant_level now l k - (if k = tenant \<and> 1 \<le> tenant_level now l tenant then 1 else 0)"
proof -
  obtain tbl where t: "take_token (rl_tenant_rate l) (rl_tenant_burst l) now tenant (rl_tenant_limiters l) = (x, tbl)"
      "l' = l\<lparr>rl_tenant_limiters := tbl\<rparr>"
    using assms(1) by (auto simp: consume_tenant_def split: prod.splits)
  have ok: "buckets_ok now (rl_tenant_limiters l)" "0 < rl_tenant_rate l" "0 \<le> rl_tenant_burst l" using assms(2) by (simp_all add: limiter_ok_def)
  note e = take_token_effect [OF t(1) ok]
  have "limiter_ok now l'" using e assms(2) t(2) by (simp add: limiter_ok_def)
  moreover have "tenant_level now l' k = tenant_level now l k - (if k = tenant \<and> 1 \<le> tenant_level now l tenant then 1 else 0)"
    using e t(2) by (cases "k = tenant") simp_all
  ultimately show ?thesis using e t(2) by (auto simp: limits_def)
qed

lemma levels_later:
  assumes "limiter_ok s l" "s \<le> t"
  shows "client_level t l k \<le> client_level s l k + (t - s) * rl_rate l" "tenant_level t l k \<le> tenant_level s l k + (t - s) * rl_tenant_rate l"
  using level_later assms by (auto simp: limiter_ok_def less_imp_le)

abbreviation counts :: "bool \<Rightarrow> real" where
  "counts b \<equiv> (if b then 1 else 0)"

lemma limit_request_effect:
  assumes "limit_request t1 t2 r l = (a, l')" "limiter_ok s l" "s \<le> t1" "t1 \<le> t2"
  shows "limiter_ok t2 l' \<and> limits l' = limits l \<and>
    client_level t2 l' k + counts (\<not> is_exempt r \<and> request_bucket r = k \<and> a = Pass_on) \<le> client_level s l k + (t2 - s) * rl_rate l \<and>
    tenant_level t2 l' T + counts (\<not> is_exempt r \<and> hq_tenant r = Some T \<and> T \<noteq> '''' \<and> a = Pass_on) \<le> tenant_level s l T + (t2 - s) * rl_tenant_rate l"
proof (cases "is_exempt r")
  case True
  then show ?thesis using assms levels_later [OF assms(2), of t2] limiter_ok_later [OF assms(2), of t2] by (auto simp: limit_request_def)
next
  case False
  let ?ip = "case hq_client r of None \<Rightarrow> ''unknown'' | Some ip \<Rightarrow> ip"
  let ?tenant = "str_or (hq_tenant r)"
  obtain x l1 where c: "consume t1 ?ip ?tenant None l = (x, l1)" by fastforce
  have ok1: "limiter_ok t1 l" using limiter_ok_later [OF assms(2,3)] .
  note e = consume_effect [OF c ok1, folded request_bucket_def]
  have ok: "limiter_ok t1 l1" "limits l1 = limits l" using e by blast+
  have rates: "rl_rate l1 = rl_rate l" "rl_tenant_rate l1 = rl_tenant_rate l" using ok(2) by (simp_all add: limits_def)
  have rp: "0 \<le> (t2 - t1) * rl_rate l" "0 \<le> (t2 - t1) * rl_tenant_rate l" using assms(4) ok1 by (simp_all add: limiter_ok_def)
  have split_time: "(t2 - s) * w = (t1 - s) * w + (t2 - t1) * w" for w :: real by (simp add: algebra_simps)
  have cl: "client_level t1 l1 k + counts (request_bucket r = k \<and> x = Inr (True, 0)) \<le> client_level s l k + (t1 - s) * rl_rate l"
    using e [of k] levels_later(1) [OF assms(2,3), of k] by (auto split: if_splits)
  have tl: "tenant_level t1 l1 T \<le> tenant_level s l T + (t1 - s) * rl_tenant_rate l"
    using e [of T] levels_later(2) [OF assms(2,3), of T] by simp
  have cl2: "client_level t2 l1 k + counts (request_bucket r = k \<and> x = Inr (True, 0)) \<le> client_level s l k + (t2 - s) * rl_rate l"
    using levels_later(1) [OF ok(1) assms(4), of k] cl split_time [of "rl_rate l"] unfolding rates by linarith
  have tl2: "tenant_level t2 l1 T \<le> tenant_level s l T + (t2 - s) * rl_tenant_rate l"
    using levels_later(2) [OF ok(1) assms(4), of T] tl split_time [of "rl_tenant_rate l"] unfolding rates by linarith
  have cl3: "client_level t2 l1 k \<le> client_level s l k + (t2 - s) * rl_rate l" using cl2 by (auto split: if_splits)
  have ok2: "limiter_ok t2 l1" by (rule limiter_ok_later [OF ok(1) assms(4)])
  have xe: "x = (if 1 \<le> client_level t1 l (request_bucket r) then Inr (True, 0) else Inr (False, (1 - client_level t1 l (request_bucket r)) / rl_rate l))"
    using e by blast
  show ?thesis
  proof (cases "1 \<le> client_level t1 l (request_bucket r)")
    case rejected: False
    then have a: "a \<noteq> Pass_on" "l' = l1" using assms(1) False c xe by (auto simp: limit_request_def Let_def)
    show ?thesis using a ok(2) ok2 cl3 tl2 by simp
  next
    case True
    then have x: "x = Inr (True, 0)" using xe by simp
    show ?thesis
    proof (cases "?tenant = ''''")
      case anonymous: True
      then have a: "l' = l1" "hq_tenant r \<noteq> Some T \<or> T = ''''" using assms(1) False c x by (auto simp: limit_request_def Let_def str_or_def)
      have "client_level t2 l' k + counts (\<not> is_exempt r \<and> request_bucket r = k \<and> a = Pass_on) \<le> client_level s l k + (t2 - s) * rl_rate l"
        using cl2 cl3 x a(1) by (auto split: if_splits)
      moreover have "\<not> (\<not> is_exempt r \<and> hq_tenant r = Some T \<and> T \<noteq> '''' \<and> a = Pass_on)" using a(2) by blast
      ultimately show ?thesis using a(1) ok(2) ok2 tl2 by auto
    next
      case tenant: False
      obtain y l2 where d: "consume_tenant t2 ?tenant l1 = (y, l2)" by fastforce
      note f = consume_tenant_effect [OF d ok2]
      have l': "l' = l2" "a = Pass_on \<longleftrightarrow> y = Inr (True, 0)"
        using assms(1) False c d tenant f [of T] x by (auto simp: limit_request_def Let_def split: if_splits)
      have 1: "limits l2 = limits l" "limiter_ok t2 l2" using f [of T] ok(2) by auto
      have "client_level t2 l2 k = client_level t2 l1 k" using f by blast
      then have 2: "client_level t2 l2 k + counts (\<not> is_exempt r \<and> request_bucket r = k \<and> a = Pass_on) \<le> client_level s l k + (t2 - s) * rl_rate l"
        using cl2 cl3 x by (auto split: if_splits)
      have y: "tenant_level t2 l2 T + counts (T = ?tenant \<and> y = Inr (True, 0)) \<le> tenant_level t2 l1 T"
        using f [of T] by (auto split: if_splits)
      have y0: "tenant_level t2 l2 T \<le> tenant_level t2 l1 T" using y by (auto split: if_splits)
      have 3: "tenant_level t2 l2 T + counts (\<not> is_exempt r \<and> hq_tenant r = Some T \<and> T \<noteq> '''' \<and> a = Pass_on) \<le> tenant_level s l T + (t2 - s) * rl_tenant_rate l"
      proof (cases "\<not> is_exempt r \<and> hq_tenant r = Some T \<and> T \<noteq> '''' \<and> a = Pass_on")
        case True
        then have "T = ?tenant \<and> y = Inr (True, 0)" using l'(2) by (auto simp: str_or_def)
        then show ?thesis using y tl2 True by simp
      next
        case False
        then show ?thesis using y0 tl2 by (simp only: if_False if_not_P)
      qed
      show ?thesis using l'(1) 1 2 3 by blast
    qed
  qed
qed

lemma level_nonneg: "buckets_ok now tbl \<Longrightarrow> 0 \<le> burst \<Longrightarrow> 0 < rate \<Longrightarrow> 0 \<le> bucket_level rate burst now tbl k"
  unfolding bucket_level_def buckets_ok_def by (cases "map_of tbl k") simp_all

lemma passed_le_level:
  assumes "limiter_ok s l" "clock_ordered s rs t"
  shows "limiter_ok t (after_requests rs l) \<and> limits (after_requests rs l) = limits l \<and>
    real (passed (\<lambda>r. request_bucket r = k) rs l) \<le> client_level s l k + (t - s) * rl_rate l \<and>
    (T \<noteq> '''' \<longrightarrow> real (passed (\<lambda>r. hq_tenant r = Some T) rs l) \<le> tenant_level s l T + (t - s) * rl_tenant_rate l)"
  using assms
proof (induction rs arbitrary: s l)
  case Nil
  have "0 \<le> client_level s l k" "0 \<le> tenant_level s l T"
    using level_nonneg Nil(1) by (simp_all add: limiter_ok_def)
  moreover have "0 \<le> (t - s) * rl_rate l" "0 \<le> (t - s) * rl_tenant_rate l" using Nil by (simp_all add: limiter_ok_def)
  ultimately show ?case using limiter_ok_later [OF Nil(1), of t] Nil(2) by simp
next
  case (Cons q rs)
  obtain t1 t2 r where q: "q = (t1, t2, r)" by (cases q) auto
  obtain a l' where a: "limit_request t1 t2 r l = (a, l')" by fastforce
  have o: "s \<le> t1" "t1 \<le> t2" "clock_ordered t2 rs t" using Cons.prems(2) q by simp_all
  note e = limit_request_effect [OF a Cons.prems(1) o(1,2)]
  have "limiter_ok t2 l'" "limits l' = limits l" using e by blast+
  note ih = Cons.IH [OF this(1) o(3)]
  have rates: "rl_rate l' = rl_rate l" "rl_tenant_rate l' = rl_tenant_rate l" using \<open>limits l' = limits l\<close> by (simp_all add: limits_def)
  have split_time: "(t - s) * w = (t2 - s) * w + (t - t2) * w" for w :: real by (simp add: algebra_simps)
  have p: "real (passed P (q # rs) l) = counts (\<not> is_exempt r \<and> P r \<and> a = Pass_on) + real (passed P rs l')" for P by (simp add: q a)
  have "real (passed (\<lambda>r. request_bucket r = k) (q # rs) l) \<le> client_level s l k + (t - s) * rl_rate l"
  proof -
    have "client_level t2 l' k + counts (\<not> is_exempt r \<and> request_bucket r = k \<and> a = Pass_on) \<le> client_level s l k + (t2 - s) * rl_rate l"
      using e by blast
    moreover have "real (passed (\<lambda>r. request_bucket r = k) rs l') \<le> client_level t2 l' k + (t - t2) * rl_rate l" using ih rates by auto
    ultimately show ?thesis unfolding p split_time by linarith
  qed
  moreover have "real (passed (\<lambda>r. hq_tenant r = Some T) (q # rs) l) \<le> tenant_level s l T + (t - s) * rl_tenant_rate l" if T: "T \<noteq> ''''"
  proof -
    have "tenant_level t2 l' T + counts (\<not> is_exempt r \<and> hq_tenant r = Some T \<and> T \<noteq> '''' \<and> a = Pass_on) \<le> tenant_level s l T + (t2 - s) * rl_tenant_rate l"
      using e by blast
    then have "tenant_level t2 l' T + counts (\<not> is_exempt r \<and> hq_tenant r = Some T \<and> a = Pass_on) \<le> tenant_level s l T + (t2 - s) * rl_tenant_rate l"
      using T by simp
    moreover have "real (passed (\<lambda>r. hq_tenant r = Some T) rs l') \<le> tenant_level t2 l' T + (t - t2) * rl_tenant_rate l" using ih rates T by auto
    ultimately show ?thesis unfolding p split_time by linarith
  qed
  moreover have "after_requests (q # rs) l = after_requests rs l'" by (simp add: q a)
  ultimately show ?case using ih \<open>limits l' = limits l\<close> by simp
qed

lemma level_grows:
  assumes "now \<le> now'" "0 \<le> rate"
  shows "min (of_int burst) (bucket_level rate burst now tbl k + (now' - now) * rate) \<le> bucket_level rate burst now' tbl k"
proof -
  have "0 \<le> (now' - now) * rate" using assms by simp
  then show ?thesis by (auto simp: bucket_level_def algebra_simps min_def split: option.split)
qed

text \<open>The defaults of the constructor and the settings of \<open>build_app\<close> satisfy \<open>sane_config\<close>.\<close>

definition sane_config :: "int \<Rightarrow> real \<Rightarrow> int \<Rightarrow> rate_limiter \<Rightarrow> bool" where
  "sane_config max_requests window_seconds burst l0 =
     (0 < max_requests \<and> 0 < window_seconds \<and> 1 \<le> burst \<and> of_int burst * window_seconds \<le> STALE_SECONDS * of_int max_requests \<and>
      of_int (rl_tenant_burst l0) \<le> STALE_SECONDS * rl_tenant_rate l0)"

lemma init_ok:
  assumes "rate_limiter_init max_requests window_seconds burst divisor t0 = Inr l0" "sane_config max_requests window_seconds burst l0"
  shows "limiter_ok t0 l0" "rl_rate l0 = of_int max_requests / window_seconds" "rl_burst l0 = burst"
proof -
  have l0: "rl_rate l0 = of_int max_requests / window_seconds" "rl_burst l0 = burst" "rl_buckets l0 = []" "rl_tenant_limiters l0 = []"
      "rl_tenant_rate l0 = of_int max_requests / window_seconds / max divisor 1" "1 \<le> rl_tenant_burst l0"
    using assms by (auto simp: rate_limiter_init_def sane_config_def Let_def)
  then show "rl_rate l0 = of_int max_requests / window_seconds" "rl_burst l0 = burst" by simp_all
  have "of_int burst \<le> STALE_SECONDS * (of_int max_requests / window_seconds)" using assms(2) by (simp add: sane_config_def field_simps)
  then show "limiter_ok t0 l0" using l0 assms(2) by (simp add: limiter_ok_def sane_config_def)
qed

section \<open>The order of the stack\<close>

lemma limiter_without_tenant:
  assumes "limit_request t1 t2 r l = (a, l')" "hq_tenant r = None"
  shows "rl_tenant_limiters l = [] \<Longrightarrow> rl_tenant_limiters l' = []"
proof -
  assume e: "rl_tenant_limiters l = []"
  have "rl_tenant_limiters (snd (consume now ip tenant ctx l)) = []" for now ip tenant ctx
    using e by (auto simp: consume_def maybe_cleanup_def cleanup_stale_buckets_def fresh_buckets_def Let_def split: prod.split)
  then have c: "consume now ip tenant ctx l = (x, l1) \<Longrightarrow> rl_tenant_limiters l1 = []" for now ip tenant ctx x l1
    by (metis snd_conv)
  show ?thesis using assms e by (auto simp: limit_request_def Let_def str_or_def split: prod.splits sum.splits bool.splits if_splits dest!: c)
qed

lemma session_without_context: "session_call now sid None path verb hdr s = (Session_pass None None, s)"
  by (simp add: session_call_def)

lemma session_mw_without_context:
  "ht_scope_ctx r = None \<Longrightarrow> ht_task_ctx r = None \<Longrightarrow> run_stack k (Session_mw # ms) r s = run_stack k ms r s"
  by (simp add: current_ctx_def session_without_context propagate_ctx_def)

lemma auth_keeps_state: "sv_limiter (snd (run_stack k [Auth_mw] r s)) = sv_limiter s" "sv_sessions (snd (run_stack k [Auth_mw] r s)) = sv_sessions s"
  by (auto split: auth_decision.split)

section \<open>Small examples\<close>

definition stack_demo_limiter :: rate_limiter where
  "stack_demo_limiter = \<lparr>rl_burst = 20, rl_rate = 100 / 60, rl_buckets = [], rl_tenant_rate = 1 / 6, rl_tenant_burst = 2, rl_tenant_limiters = [],
     rl_last_cleanup = 0\<rparr>"

lemma stack_demo_limiter_init: "rate_limiter_init 100 60 20 10 0 = Inr stack_demo_limiter"
  by (simp add: rate_limiter_init_def stack_demo_limiter_def py_trunc_def)

lemma stack_demo_limiter_sane: "sane_config 100 60 20 stack_demo_limiter"
  by (simp add: sane_config_def stack_demo_limiter_def STALE_SECONDS_def)

definition stack_demo_get :: limited_request where
  "stack_demo_get = \<lparr>hq_is_http = True, hq_path = ''/memory'', hq_method = ''GET'', hq_client = Some ''10.0.0.1'', hq_tenant = Some ''acme''\<rparr>"

definition stack_demo_anonymous :: limited_request where
  "stack_demo_anonymous = stack_demo_get\<lparr>hq_tenant := None\<rparr>"

definition stack_demo_slow :: rate_limiter where
  "stack_demo_slow = \<lparr>rl_burst = 1, rl_rate = 1 / 60, rl_buckets = [], rl_tenant_rate = 1 / 600, rl_tenant_burst = 1, rl_tenant_limiters = [], rl_last_cleanup = 0\<rparr>"

lemma stack_demo_slow_init: "rate_limiter_init 1 60 1 10 0 = Inr stack_demo_slow"
  by (simp add: rate_limiter_init_def stack_demo_slow_def py_trunc_def)

lemma stack_demo_slow_sane: "sane_config 1 60 1 stack_demo_slow"
  by (simp add: sane_config_def stack_demo_slow_def STALE_SECONDS_def)

definition stack_demo_spent :: rate_limiter where
  "stack_demo_spent = after_requests [(0, 0, stack_demo_anonymous)] stack_demo_slow"

definition stack_demo_empty :: rate_limiter where
  "stack_demo_empty = stack_demo_slow\<lparr>rl_buckets := [(''ip:10.0.0.1'', \<lparr>tb_tokens = 0, tb_last_refill = 0\<rparr>)]\<rparr>"

lemma stack_demo_key: "bucket_key ''10.0.0.1'' '''' None = ''ip:10.0.0.1''"
  by (simp add: bucket_key_def)

lemma stack_demo_first: "consume 0 ''10.0.0.1'' '''' None stack_demo_slow = (Inr (True, 0), stack_demo_empty)"
  unfolding consume_def stack_demo_key
  by (simp add: stack_demo_slow_def stack_demo_empty_def maybe_cleanup_def take_token_def refill_def STALE_SECONDS_def)

lemma stack_demo_second: "consume 0 ''10.0.0.1'' '''' None stack_demo_empty = (Inr (False, 60), stack_demo_empty)"
  unfolding consume_def stack_demo_key
  by (simp add: stack_demo_slow_def stack_demo_empty_def maybe_cleanup_def take_token_def refill_def STALE_SECONDS_def)

lemma stack_demo_after: "stack_demo_spent = stack_demo_empty"
proof -
  have e: "\<not> is_exempt stack_demo_anonymous"
    by (simp add: is_exempt_def stack_demo_anonymous_def stack_demo_get_def RATE_EXEMPT_PATHS_def EXEMPT_GET_PREFIXES_def py_startswith_def)
  have "hq_client stack_demo_anonymous = Some ''10.0.0.1''" "hq_tenant stack_demo_anonymous = None"
    by (simp_all add: stack_demo_anonymous_def stack_demo_get_def)
  then show ?thesis using e by (simp add: stack_demo_spent_def limit_request_def str_or_def stack_demo_first)
qed

definition stack_demo_sessions :: session_store where
  "stack_demo_sessions = \<lparr>sn_rows = Some [\<lparr>sn_session_id = ''s1'', sn_tenant_id = ''acme'', sn_user_id = ''u'', sn_team_id = '''', sn_name = '''',
     sn_status = ''active'', sn_created_at = 0, sn_archived_at = None\<rparr>]\<rparr>"

text \<open>A request that names a session of someone else.\<close>

definition stack_demo_scope :: http_scope where
  "stack_demo_scope = \<lparr>ht_path = ''/memory'', ht_method = ''POST'', ht_client = Some ''10.0.0.9'', ht_headers = [(''authorization'', ''Bearer t'')],
     ht_session_header = ''s1'', ht_scope_ctx = None, ht_task_ctx = None\<rparr>"

definition stack_demo_state :: server_state where
  "stack_demo_state = \<lparr>sv_limiter = stack_demo_limiter, sv_sessions = stack_demo_sessions, sv_draining = False\<rparr>"

section \<open>Properties\<close>

text \<open>C23. In any stretch of time from \<open>s\<close> to \<open>t\<close>, after any history and whatever other clients do, the limiter passes on at most a burst and the
  refill of that time for one bucket, and likewise for one tenant; provided ten minutes are enough to fill a bucket, since buckets
  that idle for so long are dropped and start full.\<close>

theorem request_rate_is_bounded:
  assumes "rate_limiter_init max_requests window_seconds burst divisor t0 = Inr l0" "sane_config max_requests window_seconds burst l0"
    and "clock_ordered t0 before s" "clock_ordered s reqs t"
  shows "real (passed (\<lambda>r. request_bucket r = k) reqs (after_requests before l0)) \<le> of_int burst + (t - s) * (of_int max_requests / window_seconds) \<and>
    (T \<noteq> '''' \<longrightarrow> real (passed (\<lambda>r. hq_tenant r = Some T) reqs (after_requests before l0)) \<le>
      of_int (rl_tenant_burst l0) + (t - s) * rl_tenant_rate l0)"
proof -
  let ?l = "after_requests before l0"
  note i = init_ok [OF assms(1,2)]
  have l: "limiter_ok s ?l" "limits ?l = limits l0" using passed_le_level [OF i(1) assms(3)] by blast+
  have c: "rl_rate ?l = of_int max_requests / window_seconds" "rl_burst ?l = burst" "rl_tenant_rate ?l = rl_tenant_rate l0"
      "rl_tenant_burst ?l = rl_tenant_burst l0"
    using l(2) i(2,3) by (simp_all add: limits_def)
  note p = passed_le_level [OF l(1) assms(4), of k T]
  have "client_level s ?l k \<le> of_int burst" "tenant_level s ?l T \<le> of_int (rl_tenant_burst l0)"
    using level_le_burst [of _ "rl_burst ?l"] level_le_burst [of _ "rl_tenant_burst ?l"] c by metis+
  then show ?thesis using p c by auto
qed

theorem request_rate_is_bounded_witness:
  "real (passed (\<lambda>r. request_bucket r = ''ip:10.0.0.1'') [(0, 0, stack_demo_get), (1, 1, stack_demo_get), (1, 2, stack_demo_get)] stack_demo_limiter) \<le> 20 + (60 - 0) * (100 / 60) \<and>
   real (passed (\<lambda>r. hq_tenant r = Some ''acme'') [(0, 0, stack_demo_get), (1, 1, stack_demo_get), (1, 2, stack_demo_get)] stack_demo_limiter) \<le> 2 + (60 - 0) * (1 / 6)"
  using request_rate_is_bounded [OF stack_demo_limiter_init stack_demo_limiter_sane, where before = "[]" and s = 0 and t = 60 and T = "''acme''"
      and reqs = "[(0, 0, stack_demo_get), (1, 1, stack_demo_get), (1, 2, stack_demo_get)]" and k = "''ip:10.0.0.1''"]
  by (simp add: stack_demo_limiter_def del: passed.simps)

text \<open>A client that the limiter turns away gets in when it comes back after the time it was told, if no one else used its bucket.\<close>

lemma retry_after_is_enough:
  assumes "rate_limiter_init max_requests window_seconds burst divisor t0 = Inr l0" "sane_config max_requests window_seconds burst l0"
    and "clock_ordered t0 before now" "consume now ip tenant ctx (after_requests before l0) = (Inr (False, w), l)" "now + w \<le> now'"
  shows "fst (consume now' ip tenant ctx l) = Inr (True, 0)"
proof -
  let ?l = "after_requests before l0" and ?k = "bucket_key ip tenant ctx"
  note i = init_ok [OF assms(1,2)]
  have ok: "limiter_ok now ?l" "limits ?l = limits l0" using passed_le_level [OF i(1) assms(3)] by blast+
  note e = consume_effect [OF assms(4) ok(1), of ?k]
  let ?v = "client_level now ?l ?k"
  have v: "?v < 1" "w = (1 - ?v) / rl_rate ?l" using e by (auto split: if_splits)
  have rate: "0 < rl_rate ?l" "rl_rate l = rl_rate ?l" "rl_burst l = rl_burst ?l" "1 \<le> rl_burst ?l"
    using ok e i assms(2) by (auto simp: limiter_ok_def limits_def sane_config_def)
  have w: "0 \<le> w" "(now' - now) * rl_rate ?l \<ge> 1 - ?v"
  proof -
    show "0 \<le> w" using v rate(1) by simp
    have "w * rl_rate ?l \<le> (now' - now) * rl_rate ?l" using assms(5) rate(1) by (intro mult_right_mono) auto
    then show "(now' - now) * rl_rate ?l \<ge> 1 - ?v" using v(2) rate(1) by simp
  qed
  have "client_level now l ?k = ?v" using e v(1) by simp
  then have "min (of_int (rl_burst l)) (?v + (now' - now) * rl_rate l) \<le> client_level now' l ?k"
    using level_grows [of now now' "rl_rate l" "rl_burst l" "rl_buckets l" ?k] assms(5) w(1) rate by simp
  then have "1 \<le> client_level now' l ?k" using w(2) rate by auto
  moreover have "limiter_ok now' l" using limiter_ok_later [of now l now'] e assms(5) w(1) by simp
  moreover obtain x l' where c: "consume now' ip tenant ctx l = (x, l')" by fastforce
  ultimately show ?thesis using consume_effect [OF c] by simp
qed

text \<open>C24. Outside the exempt paths, a request with a context passes the session check in one of two ways. Either it carries on in a
  session that is active and belongs to its tenant and user: the one its header names, or, for a POST of \<open>/runs\<close> without a header, one
  created for it. Or it names no session, is a GET of \<open>/runs\<close> or of a path below \<open>/runs/\<close>, and passes with its context as it was. In both
  the tenant and the user stay those of the context.\<close>

theorem session_belongs_to_the_caller:
  assumes "session_call now sid (Some c) path verb hdr s = (Session_pass (Some c') added, s')" "path \<notin> set SESSION_EXEMPT_PATHS"
  shows "sc_tenant_id c' = sc_tenant_id c \<and> sc_user_id c' = sc_user_id c \<and>
    ((\<exists>rows. sn_rows s' = Some rows \<and> (\<exists>row \<in> set rows. owns_session (sc_session_id c') (sc_tenant_id c) (sc_user_id c) row)) \<and>
       (if py_strip hdr \<noteq> '''' then sc_session_id c' = py_strip hdr \<and> s' = s
        else verb = ''POST'' \<and> path = ''/runs'' \<and> sc_session_id c' = sid) \<or>
     py_strip hdr = '''' \<and> verb = ''GET'' \<and> (path = ''/runs'' \<or> py_startswith path ''/runs/'') \<and> c' = c \<and> s' = s)"
  using assms
  by (auto simp: session_call_def validate_ownership_def session_create_def owns_session_def Let_def find_None_iff
      SESSION_AUTOCREATE_def SESSION_OPTIONAL_PREFIXES_def
      split: if_splits sum.splits bool.splits option.splits prod.splits)

theorem session_belongs_to_the_caller_witness:
  "(\<exists>rows. sn_rows stack_demo_sessions = Some rows \<and> (\<exists>row \<in> set rows. owns_session ''s1'' ''acme'' ''u'' row))"
  using session_belongs_to_the_caller [where now = 0 and sid = "''s2''" and path = "''/memory''" and verb = "''POST''" and hdr = "''s1''"
      and c = "\<lparr>sc_tenant_id = ''acme'', sc_user_id = ''u'', sc_team_id = '''', sc_session_id = ''''\<rparr>"
      and c' = "\<lparr>sc_tenant_id = ''acme'', sc_user_id = ''u'', sc_team_id = '''', sc_session_id = ''s1''\<rparr>" and s = stack_demo_sessions and s' = stack_demo_sessions
      and added = None]
  by (simp add: session_call_def SESSION_EXEMPT_PATHS_def validate_ownership_def stack_demo_sessions_def owns_session_def py_strip_def is_py_space_def)

text \<open>C25. In the stack that \<open>build_app\<close> builds, with the last middleware added outermost, the sessions and the limiter run before the
  authentication has attached a context: whether there is a session store or not, and whatever session a request names, makes no difference to
  its answer, and no tenant ever has a bucket of its own.\<close>

theorem limiter_and_sessions_see_no_tenant:
  assumes "\<And>ms. outermost_first ms = rev ms" "ht_scope_ctx r = None" "ht_task_ctx r = None"
  shows "run_stack k (outermost_first (added_middleware True)) r s = run_stack k (outermost_first (added_middleware False)) r s \<and>
    sv_sessions (snd (run_stack k (outermost_first (added_middleware True)) r s)) = sv_sessions s \<and>
    (rl_tenant_limiters (sv_limiter s) = [] \<longrightarrow>
     rl_tenant_limiters (sv_limiter (snd (run_stack k (outermost_first (added_middleware True)) r s))) = [])"
proof -
  have o: "outermost_first (added_middleware True) = [Drain_mw, Trace_id_mw, Rate_limit_mw, Session_mw, Auth_mw]"
      "outermost_first (added_middleware False) = [Drain_mw, Trace_id_mw, Rate_limit_mw, Auth_mw]"
    using assms(1) by (simp_all add: added_middleware_def)
  obtain a l where q: "limit_request (sk_clock1 k) (sk_clock2 k) (to_limiter r) (sv_limiter s) = (a, l)" by fastforce
  have t: "rl_tenant_limiters (sv_limiter s) = [] \<Longrightarrow> rl_tenant_limiters l = []"
    by (rule limiter_without_tenant [OF q]) (simp_all add: to_limiter_def assms(2))
  have m: "run_stack k (Session_mw # ms) r s' = run_stack k ms r s'" for ms s' by (rule session_mw_without_context [OF assms(2,3)])
  note au = auth_keeps_state [of k r "s\<lparr>sv_limiter := l\<rparr>"]
  show ?thesis
    by (cases a; cases "drain_passes (sv_draining s) (ht_method r) (ht_path r)")
       (simp_all add: o q t m au del: run_stack.simps(5,6))
qed

theorem limiter_and_sessions_see_no_tenant_witness:
  "\<forall>k. run_stack k (rev (added_middleware True)) stack_demo_scope stack_demo_state = run_stack k (rev (added_middleware False)) stack_demo_scope stack_demo_state"
  using limiter_and_sessions_see_no_tenant [where outermost_first = rev and r = stack_demo_scope and s = stack_demo_state]
  by (simp add: stack_demo_scope_def del: run_stack.simps)

end
