(* ===== verification/Gate_Api.thy ===== *)
theory Gate_Api
  imports Run_Store Request_Auth
begin

text \<open>
  Human gates: the context of a gate (\<open>hi_agent/management/gate_context.py\<close>), its timeout policy (\<open>gate_timeout.py\<close>), the in-memory
  manager (\<open>gate_api.py\<close>), the durable store (\<open>gate_store.py\<close>) and the commands (\<open>gate_commands.py\<close>, \<open>gate_secure_commands.py\<close>). The
  durable store validates with a throw-away in-memory manager; its reads are outside its lock, so a resolution is two steps, the
  decision and the write. Readings of the clock are arguments. Metadata is JSON, which the payload column keeps.
\<close>

section \<open>Data\<close>

record gate_context =
  gc_gate_ref :: string
  gc_run_id :: string
  gc_stage_id :: string
  gc_branch_id :: string
  gc_submitter :: string
  gc_decision_ref :: "string option"
  gc_rationale :: "string option"
  gc_opened_at :: real
  gc_metadata :: json_dict
  gc_tenant_id :: string
  gc_user_id :: string
  gc_session_id :: string
  gc_project_id :: string

datatype gate_action = Approve_gate | Reject_gate | Backtrack_gate | Remediate_gate

datatype gate_status = Gate_pending | Gate_approved | Gate_rejected | Gate_escalated | Gate_backtracked | Gate_remediated

datatype gate_timeout_policy = Timeout_approve | Timeout_reject | Timeout_escalate

record gate_record =
  gd_context :: gate_context
  gd_status :: gate_status
  gd_timeout_seconds :: real
  gd_timeout_policy :: gate_timeout_policy
  gd_resolution_by :: "string option"
  gd_resolution_comment :: "string option"
  gd_resolution_reason :: "string option"
  gd_resolved_at :: "real option"
  gd_escalation_target :: "string option"
  gd_project_id :: string

datatype gate_error =
    Empty_gate_field string
  | Negative_opened_at
  | Bad_gate_timeout
  | Clock_before_opening
  | Gate_exists string
  | Gate_row_exists
  | Gate_not_found string
  | Unscoped_gate_read string
  | Gate_posture posture_error
  | Unknown_gate_action
  | Gate_already_resolved string gate_status
  | Submitter_approves
  | Separation_of_concern
  | Gate_rbac rbac_error
  | Gate_claims jwt_error
  | Missing_role_claim string

section \<open>Contexts\<close>

text \<open>\<open>s.strip() if s and s.strip() else None\<close>, and \<open>s.strip() if s else None\<close>.\<close>

definition strip_or_none :: "string option \<Rightarrow> string option" where
  "strip_or_none s = (case s of None \<Rightarrow> None | Some t \<Rightarrow> if py_strip t = '''' then None else Some (py_strip t))"

definition strip_if_given :: "string option \<Rightarrow> string option" where
  "strip_if_given s = (case s of None \<Rightarrow> None | Some t \<Rightarrow> if t = '''' then None else Some (py_strip t))"

definition build_gate_context ::
  "string \<Rightarrow> string \<Rightarrow> string \<Rightarrow> string \<Rightarrow> string \<Rightarrow> string option \<Rightarrow> string option \<Rightarrow> json_dict option \<Rightarrow> real \<Rightarrow> gate_error + gate_context" where
  "build_gate_context gate_ref run_id stage_id branch_id submitter decision_ref rationale metadata now =
     (case find (\<lambda>f. py_strip (snd f) = '''') [(''gate_ref'', gate_ref), (''run_id'', run_id), (''stage_id'', stage_id),
         (''branch_id'', branch_id), (''submitter'', submitter)] of
        Some f \<Rightarrow> Inl (Empty_gate_field (fst f))
      | None \<Rightarrow>
          if now < 0 then Inl Negative_opened_at
          else Inr \<lparr>gc_gate_ref = py_strip gate_ref, gc_run_id = py_strip run_id, gc_stage_id = py_strip stage_id,
            gc_branch_id = py_strip branch_id, gc_submitter = py_strip submitter, gc_decision_ref = strip_or_none decision_ref,
            gc_rationale = strip_or_none rationale, gc_opened_at = now, gc_metadata = (case metadata of None \<Rightarrow> [] | Some d \<Rightarrow> d),
            gc_tenant_id = '''', gc_user_id = '''', gc_session_id = '''', gc_project_id = ''''\<rparr>)"

section \<open>Timeouts\<close>

record gate_timeout_result =
  to_timed_out :: bool
  to_action :: "gate_timeout_policy option"
  to_reason :: "string option"
  to_resolved_at :: "real option"
  to_escalation_target :: "string option"

definition resolve_gate_timeout ::
  "real \<Rightarrow> real \<Rightarrow> real \<Rightarrow> gate_timeout_policy \<Rightarrow> string option \<Rightarrow> gate_error + gate_timeout_result" where
  "resolve_gate_timeout now opened_at timeout_seconds policy escalation_target =
     (if timeout_seconds \<le> 0 then Inl Bad_gate_timeout
      else if opened_at < 0 then Inl Negative_opened_at
      else if now < opened_at then Inl Clock_before_opening
      else if \<not> now - opened_at \<ge> timeout_seconds then
        Inr \<lparr>to_timed_out = False, to_action = None, to_reason = None, to_resolved_at = None, to_escalation_target = None\<rparr>
      else case policy of
        Timeout_approve \<Rightarrow> Inr \<lparr>to_timed_out = True, to_action = Some Timeout_approve, to_reason = Some ''timeout_auto_approve'',
          to_resolved_at = Some now, to_escalation_target = None\<rparr>
      | Timeout_reject \<Rightarrow> Inr \<lparr>to_timed_out = True, to_action = Some Timeout_reject, to_reason = Some ''timeout_auto_reject'',
          to_resolved_at = Some now, to_escalation_target = None\<rparr>
      | Timeout_escalate \<Rightarrow> Inr \<lparr>to_timed_out = True, to_action = Some Timeout_escalate, to_reason = Some ''timeout_escalated'',
          to_resolved_at = Some now, to_escalation_target = strip_if_given escalation_target\<rparr>)"

section \<open>The in-memory manager\<close>

record gate_api =
  ga_records :: "(string \<times> gate_record) list"
  ga_enforce_soc :: bool

definition gate_api_init :: "bool \<Rightarrow> gate_api" where
  "gate_api_init enforce_soc = \<lparr>ga_records = [], ga_enforce_soc = enforce_soc\<rparr>"

definition check_unscoped_gate_read :: "string option \<Rightarrow> string \<Rightarrow> bool \<Rightarrow> gate_error option" where
  "check_unscoped_gate_read env read_method internal_unscoped =
     (if internal_unscoped then None
      else case posture_from_env env of
        Inl e \<Rightarrow> Some (Gate_posture e)
      | Inr p \<Rightarrow> if is_strict p then Some (Unscoped_gate_read read_method) else None)"

text \<open>The four identity arguments, from the context of the run where it has them.\<close>

definition gate_spine ::
  "run_execution_context option \<Rightarrow> string \<times> string \<times> string \<times> string \<Rightarrow> string \<times> string \<times> string \<times> string" where
  "gate_spine exec_ctx = (\<lambda>(tenant, user, session, project).
     case exec_ctx of
       None \<Rightarrow> (tenant, user, session, project)
     | Some c \<Rightarrow> (if xc_tenant_id c \<noteq> '''' then xc_tenant_id c else tenant, if xc_user_id c \<noteq> '''' then xc_user_id c else user,
         if xc_session_id c \<noteq> '''' then xc_session_id c else session, if xc_project_id c \<noteq> '''' then xc_project_id c else project))"

definition gate_fill_spine :: "string \<times> string \<times> string \<times> string \<Rightarrow> gate_context \<Rightarrow> gate_context" where
  "gate_fill_spine = (\<lambda>(tenant, user, session, project) c. c\<lparr>
     gc_tenant_id := if gc_tenant_id c \<noteq> '''' then gc_tenant_id c else tenant,
     gc_user_id := if gc_user_id c \<noteq> '''' then gc_user_id c else user,
     gc_session_id := if gc_session_id c \<noteq> '''' then gc_session_id c else session,
     gc_project_id := if gc_project_id c \<noteq> '''' then gc_project_id c else project\<rparr>)"

definition pending_record :: "gate_context \<Rightarrow> real \<Rightarrow> gate_timeout_policy \<Rightarrow> string option \<Rightarrow> string \<Rightarrow> gate_record" where
  "pending_record ctx timeout_seconds timeout_policy escalation_target project_id =
     \<lparr>gd_context = ctx, gd_status = Gate_pending, gd_timeout_seconds = timeout_seconds, gd_timeout_policy = timeout_policy,
      gd_resolution_by = None, gd_resolution_comment = None, gd_resolution_reason = None, gd_resolved_at = None,
      gd_escalation_target = strip_if_given escalation_target, gd_project_id = project_id\<rparr>"

definition create_gate ::
  "gate_context \<Rightarrow> real \<Rightarrow> gate_timeout_policy \<Rightarrow> string option \<Rightarrow> run_execution_context option \<Rightarrow> string \<times> string \<times> string \<times> string \<Rightarrow>
   gate_api \<Rightarrow> (gate_error + gate_record) \<times> gate_api" where
  "create_gate context timeout_seconds timeout_policy escalation_target exec_ctx spine a =
     (if timeout_seconds \<le> 0 then (Inl Bad_gate_timeout, a)
      else if map_of (ga_records a) (gc_gate_ref context) \<noteq> None then (Inl (Gate_exists (gc_gate_ref context)), a)
      else
        let ctx = gate_fill_spine (gate_spine exec_ctx spine) context;
            record' = pending_record ctx timeout_seconds timeout_policy escalation_target (gc_project_id ctx)
        in (Inr record', a\<lparr>ga_records := dict_set (gc_gate_ref ctx) record' (ga_records a)\<rparr>))"

definition gate_list_pending :: "string option \<Rightarrow> string option \<Rightarrow> bool \<Rightarrow> gate_api \<Rightarrow> gate_error + gate_record list" where
  "gate_list_pending env tenant_id internal_unscoped a =
     (let order = sort_key (\<lambda>r. (gc_opened_at (gd_context r), gc_gate_ref (gd_context r)));
          pending = filter (\<lambda>r. gd_status r = Gate_pending) (map snd (ga_records a)) in
      case tenant_id of
        None \<Rightarrow> (case check_unscoped_gate_read env ''list_pending'' internal_unscoped of
            Some e \<Rightarrow> Inl e | None \<Rightarrow> Inr (order pending))
      | Some t \<Rightarrow> Inr (order (filter (\<lambda>r. gc_tenant_id (gd_context r) = t) pending)))"

definition get_gate :: "string option \<Rightarrow> string \<Rightarrow> string option \<Rightarrow> bool \<Rightarrow> gate_api \<Rightarrow> gate_error + gate_record" where
  "get_gate env gate_ref tenant_id internal_unscoped a =
     (let normalized = py_strip gate_ref in
      if normalized = '''' then Inl (Empty_gate_field ''gate_ref'')
      else case (if tenant_id = None then check_unscoped_gate_read env ''get_gate'' internal_unscoped else None) of
        Some e \<Rightarrow> Inl e
      | None \<Rightarrow> (case map_of (ga_records a) normalized of
            None \<Rightarrow> Inl (Gate_not_found normalized)
          | Some r \<Rightarrow> (case tenant_id of
                None \<Rightarrow> Inr r
              | Some t \<Rightarrow> if gc_tenant_id (gd_context r) \<noteq> t then Inl (Gate_not_found normalized) else Inr r)))"

definition gate_action_of :: "string \<Rightarrow> gate_action option" where
  "gate_action_of s = (if s = ''approve'' then Some Approve_gate else if s = ''reject'' then Some Reject_gate
     else if s = ''backtrack'' then Some Backtrack_gate else if s = ''remediate'' then Some Remediate_gate else None)"

fun action_status :: "gate_action \<Rightarrow> gate_status" where
  "action_status Approve_gate = Gate_approved"
| "action_status Reject_gate = Gate_rejected"
| "action_status Backtrack_gate = Gate_backtracked"
| "action_status Remediate_gate = Gate_remediated"

definition resolve_gate ::
  "string option \<Rightarrow> real \<Rightarrow> string \<Rightarrow> string \<Rightarrow> string \<Rightarrow> string option \<Rightarrow> string option \<Rightarrow> gate_api \<Rightarrow> (gate_error + gate_record) \<times> gate_api" where
  "resolve_gate env now gate_ref action approver comment reason a =
     (if py_strip approver = '''' then (Inl (Empty_gate_field ''approver''), a)
      else case gate_action_of (py_lower (py_strip action)) of
        None \<Rightarrow> (Inl Unknown_gate_action, a)
      | Some act \<Rightarrow> (case get_gate env gate_ref None True a of
            Inl e \<Rightarrow> (Inl e, a)
          | Inr r \<Rightarrow>
              if gd_status r \<noteq> Gate_pending then (Inl (Gate_already_resolved (gc_gate_ref (gd_context r)) (gd_status r)), a)
              else if ga_enforce_soc a \<and> act = Approve_gate \<and> py_strip approver = gc_submitter (gd_context r) then (Inl Submitter_approves, a)
              else
                let resolved = r\<lparr>gd_status := action_status act, gd_resolution_by := Some (py_strip approver),
                      gd_resolution_comment := strip_or_none comment, gd_resolution_reason := strip_or_none reason, gd_resolved_at := Some now\<rparr>
                in (Inr resolved, a\<lparr>ga_records := dict_set (gc_gate_ref (gd_context r)) resolved (ga_records a)\<rparr>)))"

definition time_out_record :: "gate_timeout_result \<Rightarrow> gate_record \<Rightarrow> gate_record" where
  "time_out_record t r =
     (let r' = r\<lparr>gd_resolution_by := Some ''system:timeout'', gd_resolution_reason := to_reason t, gd_resolved_at := to_resolved_at t\<rparr> in
      case to_action t of
        Some Timeout_approve \<Rightarrow> r'\<lparr>gd_status := Gate_approved\<rparr>
      | Some Timeout_reject \<Rightarrow> r'\<lparr>gd_status := Gate_rejected\<rparr>
      | _ \<Rightarrow> r'\<lparr>gd_status := Gate_escalated, gd_escalation_target := to_escalation_target t\<rparr>)"

text \<open>The loop of \<open>apply_timeouts\<close> over the references of the pending gates; every round reads the clock. The lookup is by the reference
  under which the record is kept and does not fail.\<close>

fun time_out_gates ::
  "(nat \<Rightarrow> real) \<Rightarrow> string list \<Rightarrow> gate_record list \<Rightarrow> gate_api \<Rightarrow> (gate_error + gate_record list) \<times> gate_api" where
  "time_out_gates clock [] changed a = (Inr changed, a)"
| "time_out_gates clock (ref # refs) changed a =
     (case map_of (ga_records a) ref of
        None \<Rightarrow> (Inl (Gate_not_found ref), a)
      | Some r \<Rightarrow> (case resolve_gate_timeout (clock 0) (gc_opened_at (gd_context r)) (gd_timeout_seconds r) (gd_timeout_policy r)
            (gd_escalation_target r) of
          Inl e \<Rightarrow> (Inl e, a)
        | Inr t \<Rightarrow>
            if \<not> to_timed_out t then time_out_gates (\<lambda>i. clock (Suc i)) refs changed a
            else time_out_gates (\<lambda>i. clock (Suc i)) refs (changed @ [time_out_record t r])
              (a\<lparr>ga_records := dict_set ref (time_out_record t r) (ga_records a)\<rparr>)))"

definition apply_timeouts :: "string option \<Rightarrow> (nat \<Rightarrow> real) \<Rightarrow> gate_api \<Rightarrow> (gate_error + gate_record list) \<times> gate_api" where
  "apply_timeouts env clock a =
     (case gate_list_pending env None True a of
        Inl e \<Rightarrow> (Inl e, a)
      | Inr pending \<Rightarrow> time_out_gates clock (map (\<lambda>r. gc_gate_ref (gd_context r)) pending) [] a)"

end
