(* ===== verification/Gate_Store.thy ===== *)
theory Gate_Store
  imports Gate_Api
begin

text \<open>
  The durable gate store (\<open>hi_agent/management/gate_store.py\<close>) and the gate commands. A row keeps the record as JSON in its payload
  column beside the columns the statements use; \<open>json.loads\<close> gives back what \<open>json.dumps\<close> wrote, so the payload is the record itself.
\<close>

section \<open>The store\<close>

record gate_row =
  gw_gate_ref :: string
  gw_run_id :: string
  gw_project_id :: string
  gw_stage_id :: string
  gw_status :: gate_status
  gw_payload :: gate_record
  gw_created_at :: real
  gw_updated_at :: real
  gw_tenant_id :: string
  gw_user_id :: string
  gw_session_id :: string

type_synonym gate_store = "gate_row list"

text \<open>The payload has no field for the project of the record itself, which the constructor leaves empty.\<close>

definition row_to_gate :: "gate_row \<Rightarrow> gate_record" where
  "row_to_gate w =
     (let r = gw_payload w; c = gd_context r in
      r\<lparr>gd_context := c\<lparr>
          gc_tenant_id := if gw_tenant_id w \<noteq> '''' then gw_tenant_id w else gc_tenant_id c,
          gc_user_id := if gw_user_id w \<noteq> '''' then gw_user_id w else gc_user_id c,
          gc_session_id := if gw_session_id w \<noteq> '''' then gw_session_id w else gc_session_id c,
          gc_project_id := if gw_project_id w \<noteq> '''' then gw_project_id w else gc_project_id c\<rparr>,
        gd_project_id := ''''\<rparr>)"

definition store_create_gate ::
  "real \<Rightarrow> gate_context \<Rightarrow> real \<Rightarrow> gate_timeout_policy \<Rightarrow> string option \<Rightarrow> run_execution_context option \<Rightarrow>
   string \<times> string \<times> string \<times> string \<Rightarrow> gate_store \<Rightarrow> (gate_error + gate_record) \<times> gate_store" where
  "store_create_gate now context timeout_seconds timeout_policy escalation_target exec_ctx spine st =
     (if timeout_seconds \<le> 0 then (Inl Bad_gate_timeout, st)
      else
        let ctx = gate_fill_spine (gate_spine exec_ctx spine) context;
            record' = pending_record ctx timeout_seconds timeout_policy escalation_target ''''
        in if gc_gate_ref ctx \<in> gw_gate_ref ` set st then (Inl Gate_row_exists, st)
           else (Inr record', st @ [\<lparr>gw_gate_ref = gc_gate_ref ctx, gw_run_id = gc_run_id ctx, gw_project_id = gc_project_id ctx,
             gw_stage_id = gc_stage_id ctx, gw_status = Gate_pending, gw_payload = record', gw_created_at = now, gw_updated_at = now,
             gw_tenant_id = gc_tenant_id ctx, gw_user_id = gc_user_id ctx, gw_session_id = gc_session_id ctx\<rparr>]))"

definition store_get_gate :: "string option \<Rightarrow> string \<Rightarrow> string option \<Rightarrow> bool \<Rightarrow> gate_store \<Rightarrow> gate_error + gate_record" where
  "store_get_gate env gate_ref tenant_id internal_unscoped st =
     (let normalized = py_strip gate_ref in
      if normalized = '''' then Inl (Empty_gate_field ''gate_ref'')
      else case (if tenant_id = None then check_unscoped_gate_read env ''get_gate'' internal_unscoped else None) of
        Some e \<Rightarrow> Inl e
      | None \<Rightarrow> (case sql_lookup gw_gate_ref normalized st of
            None \<Rightarrow> Inl (Gate_not_found normalized)
          | Some w \<Rightarrow> (case tenant_id of
                None \<Rightarrow> Inr (row_to_gate w)
              | Some t \<Rightarrow> if gw_tenant_id w \<noteq> t then Inl (Gate_not_found normalized) else Inr (row_to_gate w))))"

definition store_list_pending :: "string option \<Rightarrow> string option \<Rightarrow> bool \<Rightarrow> gate_store \<Rightarrow> gate_error + gate_record list" where
  "store_list_pending env tenant_id internal_unscoped st =
     (let pending = filter (\<lambda>w. gw_status w = Gate_pending) st in
      case tenant_id of
        None \<Rightarrow> (case check_unscoped_gate_read env ''list_pending'' internal_unscoped of
            Some e \<Rightarrow> Inl e | None \<Rightarrow> Inr (map row_to_gate pending))
      | Some t \<Rightarrow> Inr (map row_to_gate (filter (\<lambda>w. gw_tenant_id w = t) pending)))"

text \<open>The write at the end of a resolution or of a timeout, and the decision before it, on a throw-away manager without separation.\<close>

definition write_gate :: "real \<Rightarrow> string \<Rightarrow> gate_record \<Rightarrow> gate_store \<Rightarrow> gate_store" where
  "write_gate now gate_ref r st =
     sql_update (\<lambda>w. gw_gate_ref w = gate_ref) (\<lambda>w. w\<lparr>gw_status := gd_status r, gw_payload := r, gw_updated_at := now\<rparr>) st"

definition store_decide ::
  "string option \<Rightarrow> real \<Rightarrow> string \<Rightarrow> string \<Rightarrow> string \<Rightarrow> string option \<Rightarrow> string option \<Rightarrow> gate_store \<Rightarrow> gate_error + gate_record" where
  "store_decide env now gate_ref action approver comment reason st =
     (case store_get_gate env gate_ref None True st of
        Inl e \<Rightarrow> Inl e
      | Inr r \<Rightarrow> fst (resolve_gate env now gate_ref action approver comment reason ((gate_api_init False)\<lparr>ga_records := [(gate_ref, r)]\<rparr>)))"

definition store_resolve ::
  "string option \<Rightarrow> real \<Rightarrow> string \<Rightarrow> string \<Rightarrow> string \<Rightarrow> string option \<Rightarrow> string option \<Rightarrow> gate_store \<Rightarrow> (gate_error + gate_record) \<times> gate_store" where
  "store_resolve env now gate_ref action approver comment reason st =
     (case store_decide env now gate_ref action approver comment reason st of
        Inl e \<Rightarrow> (Inl e, st)
      | Inr r \<Rightarrow> (Inr r, write_gate now gate_ref r st))"

definition store_apply_timeouts ::
  "string option \<Rightarrow> (nat \<Rightarrow> real) \<Rightarrow> real \<Rightarrow> gate_store \<Rightarrow> (gate_error + gate_record list) \<times> gate_store" where
  "store_apply_timeouts env clock now st =
     (case store_list_pending env None True st of
        Inl e \<Rightarrow> (Inl e, st)
      | Inr [] \<Rightarrow> (Inr [], st)
      | Inr pending \<Rightarrow>
          let records = fold (\<lambda>r. dict_set (gc_gate_ref (gd_context r)) r) pending [] in
          (case apply_timeouts env clock ((gate_api_init False)\<lparr>ga_records := records\<rparr>) of
             (Inl e, _) \<Rightarrow> (Inl e, st)
           | (Inr changed, _) \<Rightarrow> (Inr changed, fold (\<lambda>r. write_gate now (gc_gate_ref (gd_context r)) r) changed st)))"

section \<open>The commands\<close>

text \<open>The commands take either kind of manager.\<close>

datatype gate_backend = Memory_gates gate_api | Durable_gates gate_store

fun backend_get :: "string option \<Rightarrow> string \<Rightarrow> gate_backend \<Rightarrow> gate_error + gate_record" where
  "backend_get env gate_ref (Memory_gates a) = get_gate env gate_ref None True a"
| "backend_get env gate_ref (Durable_gates st) = store_get_gate env gate_ref None True st"

fun resolve_gate_api ::
  "string option \<Rightarrow> real \<Rightarrow> string \<Rightarrow> string \<Rightarrow> string \<Rightarrow> string option \<Rightarrow> string option \<Rightarrow> gate_backend \<Rightarrow>
   (gate_error + gate_record) \<times> gate_backend" where
  "resolve_gate_api env now gate_ref action approver comment reason (Memory_gates a) =
     (case resolve_gate env now gate_ref action approver comment reason a of (x, a') \<Rightarrow> (x, Memory_gates a'))"
| "resolve_gate_api env now gate_ref action approver comment reason (Durable_gates st) =
     (case store_resolve env now gate_ref action approver comment reason st of (x, st') \<Rightarrow> (x, Durable_gates st'))"

definition enforce_submitter_approver_separation :: "string \<Rightarrow> string \<Rightarrow> bool \<Rightarrow> gate_error option" where
  "enforce_submitter_approver_separation submitter approver enabled =
     (if \<not> enabled then None else if submitter = approver then Some Separation_of_concern else None)"

definition cmd_gate_resolve ::
  "string option \<Rightarrow> real \<Rightarrow> string \<Rightarrow> string \<Rightarrow> string \<Rightarrow> string option \<Rightarrow> string option \<Rightarrow> (string \<times> string list) list option \<Rightarrow>
   string option \<Rightarrow> bool \<Rightarrow> gate_backend \<Rightarrow> (gate_error + gate_record) \<times> gate_backend" where
  "cmd_gate_resolve env now gate_ref action approver comment reason rbac approver_role soc_enabled b =
     (case (case rbac of None \<Rightarrow> None
          | Some policy \<Rightarrow> rbac_enforce policy (py_strip (str_or approver_role)) ''management.gate.resolve'') of
        Some e \<Rightarrow> (Inl (Gate_rbac e), b)
      | None \<Rightarrow>
          (case (if py_lower (py_strip action) = ''approve'' \<and> soc_enabled
               then (case backend_get env gate_ref b of
                   Inl e \<Rightarrow> Some e
                 | Inr r \<Rightarrow> enforce_submitter_approver_separation (gc_submitter (gd_context r)) approver True)
               else None) of
             Some e \<Rightarrow> (Inl e, b)
           | None \<Rightarrow> resolve_gate_api env now gate_ref action approver comment reason b))"

definition secure_cmd_gate_resolve ::
  "jwt_services \<Rightarrow> string option \<Rightarrow> real \<Rightarrow> real \<Rightarrow> (string \<times> string list) list \<Rightarrow> json_dict \<Rightarrow> string \<Rightarrow> string \<Rightarrow> string \<Rightarrow> string \<Rightarrow>
   string \<Rightarrow> string option \<Rightarrow> string option \<Rightarrow> gate_backend \<Rightarrow> (gate_error + gate_record) \<times> gate_backend" where
  "secure_cmd_gate_resolve sv env claims_now now rbac claims required_audience gate_ref action approver role_claim_key comment reason b =
     (case validate_jwt_claims sv claims_now required_audience claims of
        Inl e \<Rightarrow> (Inl (Gate_claims e), b)
      | Inr normalized \<Rightarrow> (case map_of normalized role_claim_key of
            Some (JStr role) \<Rightarrow>
              if py_strip role = '''' then (Inl (Missing_role_claim role_claim_key), b)
              else cmd_gate_resolve env now gate_ref action approver comment reason (Some rbac) (Some (py_strip role)) True b
          | _ \<Rightarrow> (Inl (Missing_role_claim role_claim_key), b)))"

text \<open>The other commands: what they compute from the pending gates.\<close>

definition cmd_gate_list :: "gate_record list \<Rightarrow> (string \<times> string \<times> string \<times> string \<times> gate_status \<times> real) list" where
  "cmd_gate_list pending = map (\<lambda>r. let c = gd_context r in
     (gc_gate_ref c, gc_run_id c, gc_stage_id c, gc_submitter c, gd_status r, gc_opened_at c)) pending"

definition cmd_gate_status ::
  "string option \<Rightarrow> string \<Rightarrow> gate_backend \<Rightarrow> gate_error + string \<times> gate_status \<times> string option \<times> string option" where
  "cmd_gate_status env gate_ref b =
     (if py_strip gate_ref = '''' then Inl (Empty_gate_field ''gate_ref'')
      else case backend_get env (py_strip gate_ref) b of
        Inl e \<Rightarrow> Inl e
      | Inr r \<Rightarrow> Inr (gc_gate_ref (gd_context r), gd_status r, gd_resolution_by r, gd_resolution_reason r))"

definition oldest_gate_age :: "real \<Rightarrow> gate_record list \<Rightarrow> real option" where
  "oldest_gate_age now_seconds pending = fold (\<lambda>r oldest.
     let age = max 0 (now_seconds - gc_opened_at (gd_context r)) in
     (case oldest of None \<Rightarrow> Some age | Some o1 \<Rightarrow> Some (max o1 age))) pending None"

definition cmd_gate_operational_signal :: "real \<Rightarrow> real \<Rightarrow> gate_record list \<Rightarrow> nat \<times> real option \<times> bool" where
  "cmd_gate_operational_signal now_seconds stale_threshold pending =
     (let oldest = oldest_gate_age now_seconds pending in
      (length pending, oldest, (case oldest of None \<Rightarrow> False | Some age \<Rightarrow> stale_threshold > 0 \<and> age \<ge> stale_threshold)))"

end
