(* ===== verification/Gate_Theorems.thy ===== *)
theory Gate_Theorems
  imports Gate_Store
begin

text \<open>
  What a history of calls can do to a gate: decisions are final, nobody approves what they submitted, an overdue gate follows its policy.
  Then the durable store against the in-memory manager, which it simulates while calls do not overlap, and where the two part.
\<close>

section \<open>Histories\<close>

datatype gate_op =
    Create_gate gate_context real gate_timeout_policy "string option" "run_execution_context option" "string \<times> string \<times> string \<times> string"
  | Resolve_gate real string string string "string option" "string option"
  | Time_out_gates "nat \<Rightarrow> real"

fun gate_exec :: "string option \<Rightarrow> gate_op \<Rightarrow> gate_api \<Rightarrow> gate_api" where
  "gate_exec env (Create_gate c t p e x s) a = snd (create_gate c t p e x s a)"
| "gate_exec env (Resolve_gate now ref act by comment reason) a = snd (resolve_gate env now ref act by comment reason a)"
| "gate_exec env (Time_out_gates clock) a = snd (apply_timeouts env clock a)"

text \<open>How a gate that is approved came to be.\<close>

definition approval_ok :: "gate_record \<Rightarrow> bool" where
  "approval_ok r =
     ((gd_timeout_policy r = Timeout_approve \<and> gd_resolution_by r = Some ''system:timeout'' \<and>
         (\<exists>t. gd_resolved_at r = Some t \<and> gd_timeout_seconds r \<le> t - gc_opened_at (gd_context r))) \<or>
      (\<exists>by. gd_resolution_by r = Some by \<and> by \<noteq> '''' \<and> by \<noteq> gc_submitter (gd_context r)))"

definition gate_ok :: "bool \<Rightarrow> string \<Rightarrow> gate_record \<Rightarrow> bool" where
  "gate_ok soc k r = (gc_gate_ref (gd_context r) = k \<and> 0 < gd_timeout_seconds r \<and> (soc \<longrightarrow> gd_status r = Gate_approved \<longrightarrow> approval_ok r))"

definition gates_ok :: "gate_api \<Rightarrow> bool" where
  "gates_ok a = (distinct (map fst (ga_records a)) \<and> (\<forall>k r. map_of (ga_records a) k = Some r \<longrightarrow> gate_ok (ga_enforce_soc a) k r))"

definition gates_kept :: "gate_api \<Rightarrow> gate_api \<Rightarrow> bool" where
  "gates_kept a' a = (ga_enforce_soc a' = ga_enforce_soc a \<and> (\<forall>k r. map_of (ga_records a) k = Some r \<longrightarrow>
     (\<exists>r'. map_of (ga_records a') k = Some r' \<and> gd_context r' = gd_context r \<and> (gd_status r \<noteq> Gate_pending \<longrightarrow> r' = r))))"

lemma gates_kept_refl: "gates_kept a a"
  by (auto simp: gates_kept_def)

lemma gates_kept_trans: "gates_kept a3 a2 \<Longrightarrow> gates_kept a2 a1 \<Longrightarrow> gates_kept a3 a1"
  unfolding gates_kept_def by metis

text \<open>The two ways in which a call changes the table: a new reference, or a new record for a pending one.\<close>

lemma put_gate_ok: "gates_ok a \<Longrightarrow> gate_ok (ga_enforce_soc a) k r \<Longrightarrow> gates_ok (a\<lparr>ga_records := dict_set k r (ga_records a)\<rparr>)"
  by (auto simp: gates_ok_def distinct_dict_set)

lemma new_gate_kept: "map_of (ga_records a) k = None \<Longrightarrow> gates_kept (a\<lparr>ga_records := dict_set k r (ga_records a)\<rparr>) a"
  by (auto simp: gates_kept_def)

lemma settled_gate_kept:
  "map_of (ga_records a) k = Some r \<Longrightarrow> gd_status r = Gate_pending \<Longrightarrow> gd_context r' = gd_context r \<Longrightarrow>
   gates_kept (a\<lparr>ga_records := dict_set k r' (ga_records a)\<rparr>) a"
  by (auto simp: gates_kept_def)

lemma get_gate_Inr: "get_gate env ref None True a = Inr r \<longleftrightarrow> py_strip ref \<noteq> '''' \<and> map_of (ga_records a) (py_strip ref) = Some r"
  by (auto simp: get_gate_def check_unscoped_gate_read_def Let_def split: option.splits)

lemma fill_spine_keeps [simp]:
  "gc_gate_ref (gate_fill_spine s c) = gc_gate_ref c" "gc_opened_at (gate_fill_spine s c) = gc_opened_at c"
  "gc_submitter (gate_fill_spine s c) = gc_submitter c"
  by (simp_all add: gate_fill_spine_def split: prod.split)

lemma pending_record_simps [simp]:
  "gd_context (pending_record c t p e q) = c" "gd_status (pending_record c t p e q) = Gate_pending" "gd_timeout_seconds (pending_record c t p e q) = t"
  "gd_timeout_policy (pending_record c t p e q) = p" "gd_escalation_target (pending_record c t p e q) = strip_if_given e"
  by (simp_all add: pending_record_def)

lemma create_gate_effect:
  assumes "gates_ok a"
  shows "gates_ok (snd (create_gate c t p e x s a)) \<and> gates_kept (snd (create_gate c t p e x s a)) a"
proof (cases "t \<le> 0 \<or> map_of (ga_records a) (gc_gate_ref c) \<noteq> None")
  case False
  then show ?thesis using assms by (auto simp: create_gate_def Let_def gate_ok_def intro!: put_gate_ok new_gate_kept)
qed (use assms in \<open>auto simp: create_gate_def gates_kept_refl\<close>)

lemma resolve_gate_cases:
  obtains e where "resolve_gate env now ref act by comment reason a = (Inl e, a)"
  | r ac r' where "gate_action_of (py_lower (py_strip act)) = Some ac" "py_strip by \<noteq> ''''" "get_gate env ref None True a = Inr r"
      "gd_status r = Gate_pending" "ga_enforce_soc a \<and> ac = Approve_gate \<longrightarrow> py_strip by \<noteq> gc_submitter (gd_context r)"
      "r' = r\<lparr>gd_status := action_status ac, gd_resolution_by := Some (py_strip by),
          gd_resolution_comment := strip_or_none comment, gd_resolution_reason := strip_or_none reason, gd_resolved_at := Some now\<rparr>"
      "resolve_gate env now ref act by comment reason a = (Inr r', a\<lparr>ga_records := dict_set (gc_gate_ref (gd_context r)) r' (ga_records a)\<rparr>)"
proof (cases "\<exists>e. resolve_gate env now ref act by comment reason a = (Inl e, a)")
  case False
  then have b: "py_strip by \<noteq> ''''" by (auto simp: resolve_gate_def)
  obtain ac where ac: "gate_action_of (py_lower (py_strip act)) = Some ac"
    using False b by (cases "gate_action_of (py_lower (py_strip act))") (auto simp: resolve_gate_def)
  obtain r where r: "get_gate env ref None True a = Inr r" using False b ac by (cases "get_gate env ref None True a") (auto simp: resolve_gate_def)
  have "gd_status r = Gate_pending" "ga_enforce_soc a \<and> ac = Approve_gate \<longrightarrow> py_strip by \<noteq> gc_submitter (gd_context r)"
    using False b ac r by (simp_all add: resolve_gate_def Let_def) (metis, metis)
  then show thesis using b ac r by (intro that(2) [OF ac b r _ _ refl]) (auto simp: resolve_gate_def Let_def)
qed (use that(1) in blast)

lemma resolve_gate_effect:
  assumes "gates_ok a"
  shows "gates_ok (snd (resolve_gate env now ref act by comment reason a)) \<and> gates_kept (snd (resolve_gate env now ref act by comment reason a)) a"
proof (cases rule: resolve_gate_cases [of env now ref act "by" comment reason a])
  case (1 e)
  then show ?thesis using assms by (simp add: gates_kept_refl)
next
  case (2 r ac r')
  have m: "map_of (ga_records a) (py_strip ref) = Some r" using 2(3) by (simp add: get_gate_Inr)
  then have k: "gc_gate_ref (gd_context r) = py_strip ref" "0 < gd_timeout_seconds r" using assms by (auto simp: gates_ok_def gate_ok_def)
  have "gate_ok (ga_enforce_soc a) (py_strip ref) r'" using 2(2,5,6) k by (cases ac) (auto simp: gate_ok_def approval_ok_def)
  then show ?thesis using 2(4,6,7) m k assms by (auto intro!: put_gate_ok settled_gate_kept [OF m])
qed

lemma resolve_timeout_out:
  "resolve_gate_timeout now opened secs policy target = Inr t \<Longrightarrow> to_timed_out t \<longleftrightarrow> secs \<le> now - opened"
  by (auto simp: resolve_gate_timeout_def split: if_splits gate_timeout_policy.splits)

lemma resolve_timeout_fields:
  assumes "resolve_gate_timeout now opened secs policy target = Inr t" "to_timed_out t"
  shows "to_action t = Some policy \<and> to_resolved_at t = Some now"
  using assms by (auto simp: resolve_gate_timeout_def split: if_splits gate_timeout_policy.splits)

lemma time_out_record_simps [simp]:
  "gd_context (time_out_record t r) = gd_context r" "gd_timeout_seconds (time_out_record t r) = gd_timeout_seconds r"
  "gd_timeout_policy (time_out_record t r) = gd_timeout_policy r" "gd_resolution_by (time_out_record t r) = Some ''system:timeout''"
  "gd_resolved_at (time_out_record t r) = to_resolved_at t" "gd_status (time_out_record t r) \<noteq> Gate_pending"
  "gd_status (time_out_record t r) = Gate_approved \<longleftrightarrow> to_action t = Some Timeout_approve"
  by (auto simp: time_out_record_def Let_def split: option.split gate_timeout_policy.split)

lemma time_out_gate_effect:
  assumes "gates_ok a" "map_of (ga_records a) k = Some r" "gd_status r = Gate_pending" "to_timed_out t"
    and "resolve_gate_timeout now (gc_opened_at (gd_context r)) (gd_timeout_seconds r) (gd_timeout_policy r) target = Inr t"
  shows "gates_ok (a\<lparr>ga_records := dict_set k (time_out_record t r) (ga_records a)\<rparr>) \<and>
    gates_kept (a\<lparr>ga_records := dict_set k (time_out_record t r) (ga_records a)\<rparr>) a"
proof -
  have k: "gate_ok (ga_enforce_soc a) k r" using assms(1,2) by (simp add: gates_ok_def)
  have "gate_ok (ga_enforce_soc a) k (time_out_record t r)"
    using k resolve_timeout_fields [OF assms(5,4)] resolve_timeout_out [OF assms(5)] assms(4) by (auto simp: gate_ok_def approval_ok_def)
  then show ?thesis using assms(1,2,3) by (auto intro!: put_gate_ok settled_gate_kept [OF assms(2)])
qed

lemma time_out_gates_effect:
  assumes "gates_ok a" "distinct refs" "\<forall>k \<in> set refs. \<exists>r. map_of (ga_records a) k = Some r \<and> gd_status r = Gate_pending"
  shows "gates_ok (snd (time_out_gates clock refs changed a)) \<and> gates_kept (snd (time_out_gates clock refs changed a)) a"
  using assms
proof (induction refs arbitrary: clock changed a)
  case (Cons k refs)
  obtain r where r: "map_of (ga_records a) k = Some r" "gd_status r = Gate_pending" using Cons.prems(3) by auto
  show ?case
  proof (cases "resolve_gate_timeout (clock 0) (gc_opened_at (gd_context r)) (gd_timeout_seconds r) (gd_timeout_policy r) (gd_escalation_target r)")
    case (Inl e)
    then show ?thesis using r Cons.prems(1) by (simp add: gates_kept_refl)
  next
    case (Inr t)
    show ?thesis
    proof (cases "to_timed_out t")
      case False
      then show ?thesis using r Inr Cons by simp
    next
      case True
      let ?a = "a\<lparr>ga_records := dict_set k (time_out_record t r) (ga_records a)\<rparr>"
      note e = time_out_gate_effect [OF Cons.prems(1) r True Inr]
      have "gates_ok (snd (time_out_gates (\<lambda>i. clock (Suc i)) refs (changed @ [time_out_record t r]) ?a)) \<and>
          gates_kept (snd (time_out_gates (\<lambda>i. clock (Suc i)) refs (changed @ [time_out_record t r]) ?a)) ?a"
        using Cons.prems(2,3) e by (intro Cons.IH) auto
      then show ?thesis using r Inr True e gates_kept_trans by simp blast
    qed
  qed
qed (simp add: gates_kept_refl)

lemma pending_refs:
  assumes "gates_ok a" "gate_list_pending env None True a = Inr rs"
  shows "distinct (map (\<lambda>r. gc_gate_ref (gd_context r)) rs)"
    and "set rs = {r. \<exists>k. map_of (ga_records a) k = Some r \<and> gd_status r = Gate_pending}"
proof -
  have d: "distinct (map fst (ga_records a))" using assms(1) by (simp add: gates_ok_def)
  let ?p = "filter (\<lambda>r. gd_status r = Gate_pending) (map snd (ga_records a))"
  have rs: "rs = sort_key (\<lambda>r. (gc_opened_at (gd_context r), gc_gate_ref (gd_context r))) ?p"
    using assms(2) by (simp add: gate_list_pending_def check_unscoped_gate_read_def Let_def)
  have k: "(k, r) \<in> set (ga_records a) \<Longrightarrow> gc_gate_ref (gd_context r) = k" for k r
    using assms(1) d by (auto simp: gates_ok_def gate_ok_def)
  have "map (\<lambda>r. gc_gate_ref (gd_context r)) (map snd (ga_records a)) = map fst (ga_records a)" using k by (auto intro: map_cong)
  then have "distinct (map (\<lambda>r. gc_gate_ref (gd_context r)) ?p)" using d distinct_map_filter by metis
  then show "distinct (map (\<lambda>r. gc_gate_ref (gd_context r)) rs)"
    by (metis (no_types, lifting) rs distinct_map distinct_sort set_sort)
  show "set rs = {r. \<exists>k. map_of (ga_records a) k = Some r \<and> gd_status r = Gate_pending}"
    using d by (auto simp: rs image_iff map_of_eq_Some_iff) force+
qed

lemma apply_timeouts_effect:
  assumes "gates_ok a"
  shows "gates_ok (snd (apply_timeouts env clock a)) \<and> gates_kept (snd (apply_timeouts env clock a)) a"
proof -
  obtain rs where rs: "gate_list_pending env None True a = Inr rs"
    by (simp add: gate_list_pending_def check_unscoped_gate_read_def Let_def)
  have "\<forall>k \<in> set (map (\<lambda>r. gc_gate_ref (gd_context r)) rs). \<exists>r. map_of (ga_records a) k = Some r \<and> gd_status r = Gate_pending"
    using pending_refs(2) [OF assms rs] assms by (auto simp: gates_ok_def gate_ok_def)
  then show ?thesis using time_out_gates_effect [OF assms pending_refs(1) [OF assms rs]] rs by (simp add: apply_timeouts_def)
qed

interpretation gate_life: monotone_system "gate_exec env" gates_ok gates_kept for env
proof unfold_locales
  fix op and a :: gate_api
  assume "gates_ok a"
  then show "gates_ok (gate_exec env op a)" "gates_kept (gate_exec env op a) a"
    by (cases op; simp add: create_gate_effect resolve_gate_effect apply_timeouts_effect)+
qed (simp add: gates_kept_refl, rule gates_kept_trans)

lemma gates_ok_init: "gates_ok (gate_api_init soc)"
  by (simp add: gates_ok_def gate_api_init_def)

section \<open>Overdue gates\<close>

definition overdue :: "real \<Rightarrow> gate_record \<Rightarrow> bool" where
  "overdue now r = (gd_status r = Gate_pending \<and> gd_timeout_seconds r \<le> now - gc_opened_at (gd_context r))"

text \<open>What the policy of a gate makes of it.\<close>

definition gate_outcome :: "real \<Rightarrow> gate_record \<Rightarrow> gate_record" where
  "gate_outcome now r =
     (let r' = r\<lparr>gd_resolution_by := Some ''system:timeout'', gd_resolved_at := Some now\<rparr> in
      case gd_timeout_policy r of
        Timeout_approve \<Rightarrow> r'\<lparr>gd_status := Gate_approved, gd_resolution_reason := Some ''timeout_auto_approve''\<rparr>
      | Timeout_reject \<Rightarrow> r'\<lparr>gd_status := Gate_rejected, gd_resolution_reason := Some ''timeout_auto_reject''\<rparr>
      | Timeout_escalate \<Rightarrow> r'\<lparr>gd_status := Gate_escalated, gd_resolution_reason := Some ''timeout_escalated'',
          gd_escalation_target := strip_if_given (gd_escalation_target r)\<rparr>)"

abbreviation after_sweep :: "real \<Rightarrow> gate_record \<Rightarrow> gate_record" where
  "after_sweep now r \<equiv> (if overdue now r then gate_outcome now r else r)"

abbreviation gate_ref_of :: "gate_record \<Rightarrow> string" where
  "gate_ref_of r \<equiv> gc_gate_ref (gd_context r)"

definition opened_by :: "real \<Rightarrow> gate_api \<Rightarrow> bool" where
  "opened_by now a = (\<forall>k r. map_of (ga_records a) k = Some r \<longrightarrow> gd_status r = Gate_pending \<longrightarrow>
     0 \<le> gc_opened_at (gd_context r) \<and> gc_opened_at (gd_context r) \<le> now)"

lemma gate_outcome_simps [simp]:
  "gd_context (gate_outcome now r) = gd_context r" "gd_status (gate_outcome now r) \<noteq> Gate_pending"
  by (simp_all add: gate_outcome_def Let_def split: gate_timeout_policy.split)

lemma sweep_gate:
  assumes "0 < gd_timeout_seconds r" "0 \<le> gc_opened_at (gd_context r)" "gc_opened_at (gd_context r) \<le> now" "gd_status r = Gate_pending"
  shows "\<exists>t. resolve_gate_timeout now (gc_opened_at (gd_context r)) (gd_timeout_seconds r) (gd_timeout_policy r) (gd_escalation_target r) = Inr t \<and>
    (to_timed_out t \<longleftrightarrow> overdue now r) \<and> (overdue now r \<longrightarrow> time_out_record t r = gate_outcome now r)"
  using assms
  by (cases "gd_timeout_policy r") (auto simp: resolve_gate_timeout_def overdue_def time_out_record_def gate_outcome_def Let_def)

lemma time_out_gates_const:
  assumes "gates_ok a" "opened_by now a" "distinct refs" "\<forall>k \<in> set refs. \<exists>r. map_of (ga_records a) k = Some r \<and> gd_status r = Gate_pending"
  shows "\<exists>a'. time_out_gates (\<lambda>_. now) refs changed a =
      (Inr (changed @ map (gate_outcome now) (filter (overdue now) (map (\<lambda>k. the (map_of (ga_records a) k)) refs))), a') \<and>
    (\<forall>k. map_of (ga_records a') k = (if k \<in> set refs then map_option (after_sweep now) (map_of (ga_records a) k) else map_of (ga_records a) k))"
  using assms
proof (induction refs arbitrary: changed a)
  case (Cons k refs)
  obtain r where r: "map_of (ga_records a) k = Some r" "gd_status r = Gate_pending" using Cons.prems(4) by auto
  then have "0 < gd_timeout_seconds r" "0 \<le> gc_opened_at (gd_context r)" "gc_opened_at (gd_context r) \<le> now"
    using Cons.prems(1,2) by (auto simp: gates_ok_def gate_ok_def opened_by_def)
  then obtain t where t: "resolve_gate_timeout now (gc_opened_at (gd_context r)) (gd_timeout_seconds r) (gd_timeout_policy r) (gd_escalation_target r) = Inr t"
      "to_timed_out t \<longleftrightarrow> overdue now r" "overdue now r \<Longrightarrow> time_out_record t r = gate_outcome now r" using sweep_gate r(2) by blast
  show ?case
  proof (cases "overdue now r")
    case False
    obtain a' where "time_out_gates (\<lambda>_. now) refs changed a =
        (Inr (changed @ map (gate_outcome now) (filter (overdue now) (map (\<lambda>k. the (map_of (ga_records a) k)) refs))), a')"
        "\<forall>k. map_of (ga_records a') k = (if k \<in> set refs then map_option (after_sweep now) (map_of (ga_records a) k) else map_of (ga_records a) k)"
      using Cons.IH [OF Cons.prems(1,2), of changed] Cons.prems(3,4) by auto
    then show ?thesis using r t False by auto
  next
    case True
    let ?a = "a\<lparr>ga_records := dict_set k (gate_outcome now r) (ga_records a)\<rparr>"
    have "to_timed_out t" using t(2) True by simp
    then have ok: "gates_ok ?a" using time_out_gate_effect [OF Cons.prems(1) r _ t(1)] t(3) True by simp
    have ob: "opened_by now ?a" using Cons.prems(2) by (auto simp: opened_by_def)
    have pd: "\<forall>k' \<in> set refs. \<exists>r. map_of (ga_records ?a) k' = Some r \<and> gd_status r = Gate_pending" "distinct refs"
      using Cons.prems(3,4) by auto
    note IH = Cons.IH [OF ok ob pd(2,1), of "changed @ [gate_outcome now r]"]
    have eq: "map (\<lambda>k. the (map_of (ga_records ?a) k)) refs = map (\<lambda>k. the (map_of (ga_records a) k)) refs"
      using Cons.prems(3) by auto
    from IH [unfolded eq] obtain a' where "time_out_gates (\<lambda>_. now) refs (changed @ [gate_outcome now r]) ?a =
        (Inr ((changed @ [gate_outcome now r]) @ map (gate_outcome now) (filter (overdue now) (map (\<lambda>k. the (map_of (ga_records a) k)) refs))), a')"
        "\<forall>k. map_of (ga_records a') k = (if k \<in> set refs then map_option (after_sweep now) (map_of (ga_records ?a) k) else map_of (ga_records ?a) k)"
      by blast
    then show ?thesis using r t True Cons.prems(3) by auto
  qed
qed simp

lemma apply_timeouts_const:
  assumes "gates_ok a" "opened_by now a"
  shows "\<exists>changed a'. apply_timeouts env (\<lambda>_. now) a = (Inr changed, a') \<and>
    (\<forall>k. map_of (ga_records a') k = map_option (after_sweep now) (map_of (ga_records a) k)) \<and>
    set changed = {gate_outcome now r |k r. map_of (ga_records a) k = Some r \<and> overdue now r} \<and> distinct (map gate_ref_of changed)"
proof -
  obtain rs where rs: "gate_list_pending env None True a = Inr rs"
    by (simp add: gate_list_pending_def check_unscoped_gate_read_def Let_def)
  note p = pending_refs [OF assms(1) rs]
  have key: "map_of (ga_records a) k = Some r \<Longrightarrow> gate_ref_of r = k" for k r using assms(1) by (auto simp: gates_ok_def gate_ok_def)
  have "\<forall>k \<in> set (map gate_ref_of rs). \<exists>r. map_of (ga_records a) k = Some r \<and> gd_status r = Gate_pending"
    using p(2) key by auto
  from time_out_gates_const [OF assms p(1) this, of "[]"]
  obtain a' where a': "apply_timeouts env (\<lambda>_. now) a =
        (Inr (map (gate_outcome now) (filter (overdue now) (map (\<lambda>k. the (map_of (ga_records a) k)) (map gate_ref_of rs)))), a')"
      "\<forall>k. map_of (ga_records a') k = (if k \<in> set (map gate_ref_of rs) then map_option (after_sweep now) (map_of (ga_records a) k) else map_of (ga_records a) k)"
    using rs by (auto simp: apply_timeouts_def)
  have same: "map (\<lambda>k. the (map_of (ga_records a) k)) (map gate_ref_of rs) = rs"
    using p(2) key by (auto intro!: map_idI)
  have "map_of (ga_records a') k = map_option (after_sweep now) (map_of (ga_records a) k)" for k
  proof (cases "map_of (ga_records a) k")
    case (Some r)
    then have "k \<in> set (map gate_ref_of rs) \<or> gd_status r \<noteq> Gate_pending" using p(2) key [OF Some] by force
    then show ?thesis using a'(2) Some by (auto simp: overdue_def)
  qed (use a'(2) in auto)
  moreover have "set (map (gate_outcome now) (filter (overdue now) rs)) = {gate_outcome now r |k r. map_of (ga_records a) k = Some r \<and> overdue now r}"
    using p(2) by (auto simp: overdue_def)
  moreover have "distinct (map gate_ref_of (map (gate_outcome now) (filter (overdue now) rs)))"
    using p(1) by (simp add: comp_def distinct_map_filter)
  ultimately show ?thesis using a'(1) same by auto
qed

section \<open>A small example\<close>

definition gate_demo_context :: gate_context where
  "gate_demo_context = \<lparr>gc_gate_ref = ''g1'', gc_run_id = ''r1'', gc_stage_id = ''s1'', gc_branch_id = ''b1'', gc_submitter = ''alice'',
     gc_decision_ref = None, gc_rationale = None, gc_opened_at = 10, gc_metadata = [], gc_tenant_id = ''acme'', gc_user_id = '''',
     gc_session_id = '''', gc_project_id = ''''\<rparr>"

definition gate_demo_create :: gate_op where
  "gate_demo_create = Create_gate gate_demo_context 300 Timeout_approve None None ('''', '''', '''', '''')"

definition gate_demo_approve :: "string \<Rightarrow> gate_op" where
  "gate_demo_approve who = Resolve_gate 20 ''g1'' ''approve'' who None None"

definition gate_demo_record :: gate_record where
  "gate_demo_record = pending_record gate_demo_context 300 Timeout_approve None ''''"

definition gate_demo_approved :: "string \<Rightarrow> gate_record" where
  "gate_demo_approved who = gate_demo_record\<lparr>gd_status := Gate_approved, gd_resolution_by := Some who, gd_resolved_at := Some 20\<rparr>"

lemma gate_demo_strings: "py_strip ''bob'' = ''bob''" "py_strip ''g1'' = ''g1''" "gate_action_of (py_lower (py_strip ''approve'')) = Some Approve_gate"
  by code_simp+

lemma gate_demo_pending: "gate_exec env gate_demo_create (gate_api_init soc) = \<lparr>ga_records = [(''g1'', gate_demo_record)], ga_enforce_soc = soc\<rparr>"
proof -
  have "gate_fill_spine (gate_spine None ('''', '''', '''', '''')) gate_demo_context = gate_demo_context"
    by (simp add: gate_fill_spine_def gate_spine_def gate_demo_context_def)
  then show ?thesis by (simp add: gate_demo_create_def gate_api_init_def create_gate_def gate_demo_record_def Let_def) (simp add: gate_demo_context_def)
qed

lemma gate_demo_resolved:
  "gate_exec env (gate_demo_approve ''bob'') \<lparr>ga_records = [(''g1'', gate_demo_record)], ga_enforce_soc = True\<rparr> =
   \<lparr>ga_records = [(''g1'', gate_demo_approved ''bob'')], ga_enforce_soc = True\<rparr>"
  by (simp add: gate_demo_approve_def resolve_gate_def gate_demo_strings get_gate_def check_unscoped_gate_read_def gate_demo_record_def
      gate_demo_approved_def pending_record_def gate_demo_context_def strip_or_none_def Let_def)

lemma gate_demo_history:
  "map_of (ga_records (fold (gate_exec env) [gate_demo_create, gate_demo_approve ''bob''] (gate_api_init True))) ''g1'' = Some (gate_demo_approved ''bob'')"
  by (simp add: gate_demo_pending gate_demo_resolved)

section \<open>Properties\<close>

text \<open>C26. A decision is final: once a gate is no longer pending, no sequence of calls changes its record, and every later attempt to resolve
  it is refused.\<close>

theorem gate_decision_is_final:
  assumes "map_of (ga_records (fold (gate_exec env) before (gate_api_init soc))) k = Some r" "gd_status r \<noteq> Gate_pending"
  shows "map_of (ga_records (fold (gate_exec env) (before @ after) (gate_api_init soc))) k = Some r \<and>
    (py_strip ref = k \<longrightarrow> (\<exists>e. fst (resolve_gate env now ref act by comment reason (fold (gate_exec env) (before @ after) (gate_api_init soc))) = Inl e))"
proof -
  let ?a = "fold (gate_exec env) (before @ after) (gate_api_init soc)"
  have "gates_ok (fold (gate_exec env) before (gate_api_init soc))" by (rule gate_life.run_inv [OF gates_ok_init])
  from gate_life.run_ge [OF this, of env after] have m: "map_of (ga_records ?a) k = Some r" using assms by (auto simp: gates_kept_def)
  show ?thesis
  proof (cases rule: resolve_gate_cases [of env now ref act "by" comment reason ?a])
    case (2 r' ac r'')
    then show ?thesis using m assms(2) by (auto simp: get_gate_Inr)
  qed (use m in simp)
qed

theorem gate_decision_is_final_witness:
  "map_of (ga_records (fold (gate_exec None) ([gate_demo_create, gate_demo_approve ''bob''] @ [Time_out_gates (\<lambda>_. 900), gate_demo_create]) (gate_api_init True))) ''g1'' =
     Some (gate_demo_approved ''bob'')"
  using gate_decision_is_final [OF gate_demo_history, where after = "[Time_out_gates (\<lambda>_. 900), gate_demo_create]"]
  by (simp add: gate_demo_approved_def)

text \<open>C27. With separation of concerns enforced, whatever is called in whatever order, an approved gate was approved by someone other than its
  submitter, or by its own policy after its full time.\<close>

theorem approvals_are_separate:
  assumes "map_of (ga_records (fold (gate_exec env) ops (gate_api_init True))) k = Some r" "gd_status r = Gate_approved"
  shows "approval_ok r"
proof -
  let ?a = "fold (gate_exec env) ops (gate_api_init True)"
  have "gates_ok ?a" by (rule gate_life.run_inv [OF gates_ok_init])
  moreover have "ga_enforce_soc ?a" using gate_life.run_ge [OF gates_ok_init, of env ops True] by (simp add: gates_kept_def gate_api_init_def)
  ultimately show ?thesis using assms by (auto simp: gates_ok_def gate_ok_def)
qed

theorem approvals_are_separate_witness: "approval_ok (gate_demo_approved ''bob'')"
  using approvals_are_separate [OF gate_demo_history [of None]] by (simp add: gate_demo_approved_def)

text \<open>C30. A sweep settles every overdue gate, each by its own policy, reports exactly those, and leaves the others alone, provided no gate that
  is still pending was opened after the time of the sweep or at a negative time (either makes the sweep raise).\<close>

theorem overdue_gates_follow_their_policy:
  assumes "opened_by now (fold (gate_exec env) ops (gate_api_init soc))"
  shows "\<exists>changed a'. apply_timeouts env (\<lambda>_. now) (fold (gate_exec env) ops (gate_api_init soc)) = (Inr changed, a') \<and>
    (\<forall>k. map_of (ga_records a') k = map_option (\<lambda>r. if overdue now r then gate_outcome now r else r)
       (map_of (ga_records (fold (gate_exec env) ops (gate_api_init soc))) k)) \<and>
    set changed = {gate_outcome now r |k r. map_of (ga_records (fold (gate_exec env) ops (gate_api_init soc))) k = Some r \<and> overdue now r}"
  using apply_timeouts_const [OF gate_life.run_inv [OF gates_ok_init] assms, of env] by blast

theorem overdue_gates_follow_their_policy_witness:
  "\<exists>changed a'. apply_timeouts None (\<lambda>_. 310) (fold (gate_exec None) [gate_demo_create] (gate_api_init True)) = (Inr changed, a') \<and>
    map_of (ga_records a') ''g1'' = Some (gate_outcome 310 gate_demo_record)"
proof -
  have "opened_by 310 (fold (gate_exec None) [gate_demo_create] (gate_api_init True))"
    by (simp add: gate_demo_pending opened_by_def gate_demo_record_def gate_demo_context_def)
  from overdue_gates_follow_their_policy [OF this] show ?thesis
    by (auto simp: gate_demo_pending overdue_def gate_demo_record_def gate_demo_context_def)
qed

end
