(* ===== verification/Gate_Refinement.thy ===== *)
theory Gate_Refinement
  imports Gate_Theorems
begin

text \<open>
  The durable gate store simulates the in-memory manager without separation of concerns, call by call, as long as references are passed
  without padding and calls do not overlap; and what happens to separation and to finality when they are padded or do overlap.
\<close>

section \<open>The simulation\<close>

text \<open>The durable store does not keep the project of the record itself.\<close>

definition forget_project :: "gate_record \<Rightarrow> gate_record" where
  "forget_project r = r\<lparr>gd_project_id := ''''\<rparr>"

fun store_exec :: "string option \<Rightarrow> real \<Rightarrow> gate_op \<Rightarrow> gate_store \<Rightarrow> gate_store" where
  "store_exec env wall (Create_gate c t p e x s) st = snd (store_create_gate wall c t p e x s st)"
| "store_exec env wall (Resolve_gate now ref act by comment reason) st = snd (store_resolve env now ref act by comment reason st)"
| "store_exec env wall (Time_out_gates clock) st = snd (store_apply_timeouts env clock wall st)"

text \<open>Gates are opened between zero and \<open>T\<close>, swept after \<open>T\<close> with one reading of the clock, and named without padding.\<close>

fun plain_op :: "real \<Rightarrow> gate_op \<Rightarrow> bool" where
  "plain_op T (Create_gate c t p e x s) \<longleftrightarrow> 0 \<le> gc_opened_at c \<and> gc_opened_at c \<le> T"
| "plain_op T (Resolve_gate now ref act by comment reason) \<longleftrightarrow> py_strip ref = ref"
| "plain_op T (Time_out_gates clock) \<longleftrightarrow> T \<le> clock 0 \<and> clock = (\<lambda>_. clock 0)"

definition row_of :: "gate_record \<Rightarrow> gate_row \<Rightarrow> bool" where
  "row_of r w = (gw_payload w = forget_project r \<and> gw_status w = gd_status r \<and> gw_gate_ref w = gate_ref_of r \<and>
     gw_tenant_id w = gc_tenant_id (gd_context r) \<and> gw_user_id w = gc_user_id (gd_context r) \<and>
     gw_session_id w = gc_session_id (gd_context r) \<and> gw_project_id w = gc_project_id (gd_context r))"

definition gates_sim :: "real \<Rightarrow> gate_api \<Rightarrow> gate_store \<Rightarrow> bool" where
  "gates_sim T a st = (gates_ok a \<and> \<not> ga_enforce_soc a \<and> opened_by T a \<and> unique_key gw_gate_ref st \<and>
     (\<forall>k. rel_option row_of (map_of (ga_records a) k) (sql_lookup gw_gate_ref k st)))"

lemma forget_simps [simp]:
  "gd_context (forget_project r) = gd_context r" "gd_status (forget_project r) = gd_status r"
  "gd_timeout_seconds (forget_project r) = gd_timeout_seconds r" "forget_project (forget_project r) = forget_project r"
  by (simp_all add: forget_project_def)

lemma row_of_read: "row_of r w \<Longrightarrow> row_to_gate w = forget_project r"
  by (simp add: row_of_def row_to_gate_def forget_project_def Let_def)

lemma sim_lookup:
  assumes "gates_sim T a st"
  shows "map_of (ga_records a) k = None \<longleftrightarrow> sql_lookup gw_gate_ref k st = None"
    and "map_of (ga_records a) k = Some r \<Longrightarrow> \<exists>w. sql_lookup gw_gate_ref k st = Some w \<and> row_of r w"
    and "sql_lookup gw_gate_ref k st = Some w \<Longrightarrow> \<exists>r. map_of (ga_records a) k = Some r \<and> row_of r w"
proof -
  have "rel_option row_of (map_of (ga_records a) k) (sql_lookup gw_gate_ref k st)" using assms by (simp add: gates_sim_def)
  then show "map_of (ga_records a) k = None \<longleftrightarrow> sql_lookup gw_gate_ref k st = None"
    "map_of (ga_records a) k = Some r \<Longrightarrow> \<exists>w. sql_lookup gw_gate_ref k st = Some w \<and> row_of r w"
    "sql_lookup gw_gate_ref k st = Some w \<Longrightarrow> \<exists>r. map_of (ga_records a) k = Some r \<and> row_of r w"
    by (auto simp: option_rel_Some1 option_rel_Some2)
qed

lemma get_gate_sim:
  assumes "gates_sim T a st"
  shows "store_get_gate env ref tenant internal st = map_sum id forget_project (get_gate env ref tenant internal a)"
proof (cases "map_of (ga_records a) (py_strip ref)")
  case None
  moreover have "sql_lookup gw_gate_ref (py_strip ref) st = None" using None sim_lookup(1) [OF assms] by simp
  ultimately show ?thesis by (simp add: store_get_gate_def get_gate_def Let_def split: option.split)
next
  case (Some r)
  then obtain w where "sql_lookup gw_gate_ref (py_strip ref) st = Some w" "row_of r w" using sim_lookup(2) [OF assms] by blast
  then show ?thesis using Some
    by (simp add: store_get_gate_def get_gate_def Let_def row_of_read split: option.split) (auto simp: row_of_def)
qed

subsection \<open>Creating\<close>

lemma insert_sim:
  assumes "gates_sim T a st" "map_of (ga_records a) (gate_ref_of r) = None" "row_of r w"
    and "gates_ok (a\<lparr>ga_records := dict_set (gate_ref_of r) r (ga_records a)\<rparr>)" "0 \<le> gc_opened_at (gd_context r)" "gc_opened_at (gd_context r) \<le> T"
  shows "gates_sim T (a\<lparr>ga_records := dict_set (gate_ref_of r) r (ga_records a)\<rparr>) (st @ [w])"
  unfolding gates_sim_def
proof (intro conjI allI)
  have n: "sql_lookup gw_gate_ref (gate_ref_of r) st = None" using sim_lookup(1) [OF assms(1)] assms(2) by blast
  have w: "gw_gate_ref w = gate_ref_of r" using assms(3) by (simp add: row_of_def)
  show "unique_key gw_gate_ref (st @ [w])" using assms(1) n w by (intro unique_key_append) (simp_all add: gates_sim_def)
  fix k
  show "rel_option row_of (map_of (ga_records (a\<lparr>ga_records := dict_set (gate_ref_of r) r (ga_records a)\<rparr>)) k) (sql_lookup gw_gate_ref k (st @ [w]))"
  proof (cases "k = gate_ref_of r")
    case True
    then show ?thesis using n w assms(3) by (simp add: sql_lookup_append)
  next
    case False
    then have "sql_lookup gw_gate_ref k (st @ [w]) = sql_lookup gw_gate_ref k st" using w by (simp add: sql_lookup_append split: option.split)
    then show ?thesis using False assms(1) by (simp add: gates_sim_def)
  qed
qed (use assms in \<open>auto simp: gates_sim_def opened_by_def\<close>)

lemma create_sim:
  assumes "gates_sim T a st" "0 \<le> gc_opened_at c" "gc_opened_at c \<le> T"
  shows "gates_sim T (snd (create_gate c t p e x s a)) (snd (store_create_gate wall c t p e x s st))"
proof (cases "t \<le> 0 \<or> map_of (ga_records a) (gc_gate_ref c) \<noteq> None")
  case True
  then show ?thesis using assms(1) sim_lookup(1) [OF assms(1), of "gc_gate_ref c"]
    by (auto simp: create_gate_def store_create_gate_def Let_def sql_lookup_None_iff)
next
  case False
  then have n: "sql_lookup gw_gate_ref (gc_gate_ref c) st = None" using sim_lookup(1) [OF assms(1)] by auto
  let ?ctx = "gate_fill_spine (gate_spine x s) c"
  let ?r = "pending_record ?ctx t p e (gc_project_id ?ctx)"
  let ?w = "\<lparr>gw_gate_ref = gc_gate_ref ?ctx, gw_run_id = gc_run_id ?ctx, gw_project_id = gc_project_id ?ctx, gw_stage_id = gc_stage_id ?ctx,
      gw_status = Gate_pending, gw_payload = pending_record ?ctx t p e '''', gw_created_at = wall, gw_updated_at = wall,
      gw_tenant_id = gc_tenant_id ?ctx, gw_user_id = gc_user_id ?ctx, gw_session_id = gc_session_id ?ctx\<rparr>"
  have c: "snd (create_gate c t p e x s a) = a\<lparr>ga_records := dict_set (gate_ref_of ?r) ?r (ga_records a)\<rparr>" using False by (simp add: create_gate_def Let_def)
  have "gates_ok (snd (create_gate c t p e x s a))" using create_gate_effect assms(1) by (simp add: gates_sim_def)
  moreover have "forget_project ?r = pending_record ?ctx t p e ''''" by (simp add: forget_project_def pending_record_def)
  moreover have "snd (store_create_gate wall c t p e x s st) = st @ [?w]" using False n by (simp add: store_create_gate_def Let_def sql_lookup_None_iff)
  ultimately show ?thesis using insert_sim [OF assms(1), of ?r ?w] False assms(2,3) c by (simp add: row_of_def)
qed

subsection \<open>Writing\<close>

lemma lookup_write: "sql_lookup gw_gate_ref k (write_gate now ref r st) =
    map_option (\<lambda>w. if gw_gate_ref w = ref then w\<lparr>gw_status := gd_status r, gw_payload := r, gw_updated_at := now\<rparr> else w) (sql_lookup gw_gate_ref k st)"
  by (simp add: write_gate_def sql_lookup_update)

lemma unique_write: "unique_key gw_gate_ref st \<Longrightarrow> unique_key gw_gate_ref (write_gate now ref r st)"
  by (simp add: write_gate_def unique_key_update)

lemma row_of_write:
  "row_of r w \<Longrightarrow> gd_context r' = gd_context r \<Longrightarrow>
   row_of r' (w\<lparr>gw_status := gd_status (forget_project r'), gw_payload := forget_project r', gw_updated_at := now\<rparr>)"
  by (simp add: row_of_def)

lemma settle_sim:
  assumes "gates_sim T a st" "map_of (ga_records a) k = Some r" "gd_context r' = gd_context r" "gd_status r' \<noteq> Gate_pending"
    and "gates_ok (a\<lparr>ga_records := dict_set k r' (ga_records a)\<rparr>)"
  shows "gates_sim T (a\<lparr>ga_records := dict_set k r' (ga_records a)\<rparr>) (write_gate now k (forget_project r') st)"
  unfolding gates_sim_def
proof (intro conjI allI)
  fix k'
  obtain w where w: "sql_lookup gw_gate_ref k st = Some w" "row_of r w" using sim_lookup(2) [OF assms(1,2)] by blast
  show "rel_option row_of (map_of (ga_records (a\<lparr>ga_records := dict_set k r' (ga_records a)\<rparr>)) k')
      (sql_lookup gw_gate_ref k' (write_gate now k (forget_project r') st))"
  proof (cases "k' = k")
    case True
    have "gw_gate_ref w = k" using sql_lookup_SomeD [OF w(1)] by simp
    then show ?thesis using True w row_of_write [OF w(2) assms(3)] by (simp add: lookup_write)
  next
    case False
    have "sql_lookup gw_gate_ref k' (write_gate now k (forget_project r') st) = sql_lookup gw_gate_ref k' st"
      using False sql_lookup_SomeD by (fastforce simp: lookup_write intro: option.map_ident_strong)
    then show ?thesis using False assms(1) by (simp add: gates_sim_def)
  qed
qed (use assms in \<open>auto simp: gates_sim_def opened_by_def intro: unique_write\<close>)

subsection \<open>Resolving\<close>

text \<open>The throw-away manager decides as the in-memory one does.\<close>

lemma store_decide_sim:
  assumes "gates_sim T a st" "py_strip ref = ref"
  shows "(\<exists>e e'. store_decide env now ref act by comment reason st = Inl e \<and> resolve_gate env now ref act by comment reason a = (Inl e', a)) \<or>
    (\<exists>r r'. map_of (ga_records a) ref = Some r \<and> gd_status r = Gate_pending \<and> gd_context r' = gd_context r \<and> gd_status r' \<noteq> Gate_pending \<and>
      store_decide env now ref act by comment reason st = Inr (forget_project r') \<and>
      resolve_gate env now ref act by comment reason a = (Inr r', a\<lparr>ga_records := dict_set ref r' (ga_records a)\<rparr>))"
proof (cases rule: resolve_gate_cases [of env now ref act "by" comment reason a])
  case (1 e)
  have "\<exists>e. store_decide env now ref act by comment reason st = Inl e"
  proof (cases "get_gate env ref None True a")
    case (Inl e')
    then show ?thesis by (simp add: store_decide_def get_gate_sim [OF assms(1)])
  next
    case (Inr r)
    then have r: "py_strip ref \<noteq> ''''" "map_of (ga_records a) ref = Some r" using assms(2) by (simp_all add: get_gate_Inr)
    have "\<not> ga_enforce_soc a" using assms(1) by (simp add: gates_sim_def)
    then have "py_strip by = '''' \<or> gate_action_of (py_lower (py_strip act)) = None \<or> gd_status r \<noteq> Gate_pending"
      using 1 Inr by (auto simp: resolve_gate_def Let_def split: option.splits if_splits)
    then show ?thesis using Inr r assms
      by (auto simp: store_decide_def get_gate_sim [OF assms(1)] resolve_gate_def gate_api_init_def get_gate_def check_unscoped_gate_read_def
          Let_def split: option.split)
  qed
  then show ?thesis using 1 by blast
next
  case (2 r ac r')
  have r: "py_strip ref \<noteq> ''''" "map_of (ga_records a) ref = Some r" using 2(3) assms(2) by (simp_all add: get_gate_Inr)
  have k: "gate_ref_of r = ref" using r(2) assms(1) by (auto simp: gates_sim_def gates_ok_def gate_ok_def)
  have "store_decide env now ref act by comment reason st = Inr (forget_project r')"
    using 2(1,2,4,6) r k assms
    by (simp add: store_decide_def get_gate_sim [OF assms(1)] 2(3) resolve_gate_def gate_api_init_def Let_def)
      (simp add: get_gate_def check_unscoped_gate_read_def forget_project_def Let_def)
  moreover have "gd_status r' \<noteq> Gate_pending" using 2(6) by (cases ac) simp_all
  ultimately show ?thesis using 2(4,6,7) r(2) k by auto
qed

lemma resolve_sim:
  assumes "gates_sim T a st" "py_strip ref = ref"
  shows "gates_sim T (snd (resolve_gate env now ref act by comment reason a)) (snd (store_resolve env now ref act by comment reason st))"
proof -
  have ok: "gates_ok (snd (resolve_gate env now ref act by comment reason a))" using resolve_gate_effect assms(1) by (simp add: gates_sim_def)
  from store_decide_sim [OF assms, of env now act "by" comment reason] show ?thesis
  proof (elim disjE exE conjE)
    fix r r'
    assume d: "map_of (ga_records a) ref = Some r" "gd_context r' = gd_context r" "gd_status r' \<noteq> Gate_pending"
        "store_decide env now ref act by comment reason st = Inr (forget_project r')"
        "resolve_gate env now ref act by comment reason a = (Inr r', a\<lparr>ga_records := dict_set ref r' (ga_records a)\<rparr>)"
    show ?thesis using settle_sim [OF assms(1) d(1,2,3)] ok d(4,5) by (simp add: store_resolve_def)
  qed (use assms(1) in \<open>simp add: store_resolve_def\<close>)
qed

subsection \<open>Sweeping\<close>

lemma map_of_fold_put:
  "distinct (map gate_ref_of rs) \<Longrightarrow> \<forall>r \<in> set rs. map_of d (gate_ref_of r) = None \<Longrightarrow>
   map_of (fold (\<lambda>r. dict_set (gate_ref_of r) r) rs d) k = Some x \<longleftrightarrow> x \<in> set rs \<and> gate_ref_of x = k \<or> map_of d k = Some x"
proof (induction rs arbitrary: d)
  case (Cons r rs)
  have "\<forall>r' \<in> set rs. map_of (dict_set (gate_ref_of r) r d) (gate_ref_of r') = None" using Cons.prems by (auto simp: image_iff)
  then have "map_of (fold (\<lambda>r. dict_set (gate_ref_of r) r) (r # rs) d) k = Some x \<longleftrightarrow>
      x \<in> set rs \<and> gate_ref_of x = k \<or> map_of (dict_set (gate_ref_of r) r d) k = Some x" using Cons.IH Cons.prems(1) by simp
  then show ?case using Cons.prems by auto
qed simp

lemma distinct_fold_put: "distinct (map fst d) \<Longrightarrow> distinct (map fst (fold (\<lambda>r. dict_set (gate_ref_of r) r) rs d))"
  by (induction rs arbitrary: d) (simp_all add: distinct_dict_set)

lemma unique_fold_write:
  "unique_key gw_gate_ref st \<Longrightarrow> unique_key gw_gate_ref (fold (\<lambda>r. write_gate wall (gate_ref_of r) r) rs st)"
  by (induction rs arbitrary: st) (simp_all add: unique_write)

lemma lookup_fold_write_other:
  "k \<notin> gate_ref_of ` set rs \<Longrightarrow> sql_lookup gw_gate_ref k (fold (\<lambda>r. write_gate wall (gate_ref_of r) r) rs st) = sql_lookup gw_gate_ref k st"
proof (induction rs arbitrary: st)
  case (Cons r rs)
  have "sql_lookup gw_gate_ref k (write_gate wall (gate_ref_of r) r st) = sql_lookup gw_gate_ref k st"
    using Cons.prems sql_lookup_SomeD by (fastforce simp: lookup_write intro: option.map_ident_strong)
  then show ?case using Cons by simp
qed simp

lemma lookup_fold_write:
  assumes "distinct (map gate_ref_of rs)" "r \<in> set rs" "sql_lookup gw_gate_ref (gate_ref_of r) st = Some w"
  shows "sql_lookup gw_gate_ref (gate_ref_of r) (fold (\<lambda>r. write_gate wall (gate_ref_of r) r) rs st) =
    Some (w\<lparr>gw_status := gd_status r, gw_payload := r, gw_updated_at := wall\<rparr>)"
  using assms
proof (induction rs arbitrary: st)
  case (Cons r' rs)
  show ?case
  proof (cases "r' = r")
    case True
    then have "gate_ref_of r \<notin> gate_ref_of ` set rs" using Cons.prems(1) by simp
    moreover have "gw_gate_ref w = gate_ref_of r" using sql_lookup_SomeD [OF Cons.prems(3)] by simp
    ultimately show ?thesis using True Cons.prems(3) by (simp add: lookup_fold_write_other lookup_write)
  next
    case False
    then have "r \<in> set rs" "gate_ref_of r' \<noteq> gate_ref_of r" using Cons.prems(1,2) by (auto simp: image_iff)
    moreover have "gw_gate_ref w = gate_ref_of r" using sql_lookup_SomeD [OF Cons.prems(3)] by simp
    ultimately show ?thesis using Cons.IH [of "write_gate wall (gate_ref_of r') r' st"] Cons.prems(1,3) by (simp add: lookup_write)
  qed
qed simp

lemma gate_outcome_forget: "gate_outcome now (forget_project r) = forget_project (gate_outcome now r)" "overdue now (forget_project r) = overdue now r"
  by (simp_all add: gate_outcome_def forget_project_def overdue_def Let_def split: gate_timeout_policy.split)

lemma pending_rows:
  assumes "gates_sim T a st"
  shows "set (map row_to_gate (filter (\<lambda>w. gw_status w = Gate_pending) st)) =
      {forget_project r |k r. map_of (ga_records a) k = Some r \<and> gd_status r = Gate_pending}" (is ?A)
    and "distinct (map gate_ref_of (map row_to_gate (filter (\<lambda>w. gw_status w = Gate_pending) st)))" (is ?B)
proof -
  have u: "unique_key gw_gate_ref st" using assms by (simp add: gates_sim_def)
  have row: "\<exists>r. map_of (ga_records a) (gw_gate_ref w) = Some r \<and> row_of r w" if "w \<in> set st" for w
    using sim_lookup(3) [OF assms] sql_lookup_unique [OF u that] by blast
  then have ref: "gate_ref_of (row_to_gate w) = gw_gate_ref w" if "w \<in> set st" for w using that by (fastforce simp: row_of_read row_of_def)
  show ?A
  proof (intro set_eqI iffI)
    fix x
    assume "x \<in> set (map row_to_gate (filter (\<lambda>w. gw_status w = Gate_pending) st))"
    then obtain w where w: "w \<in> set st" "gw_status w = Gate_pending" "x = row_to_gate w" by auto
    then obtain r where "map_of (ga_records a) (gw_gate_ref w) = Some r" "row_of r w" using row by blast
    moreover from this have "gd_status r = Gate_pending" using w(2) by (simp add: row_of_def)
    ultimately show "x \<in> {forget_project r |k r. map_of (ga_records a) k = Some r \<and> gd_status r = Gate_pending}"
      using w(2,3) row_of_read [of r w] by (metis (mono_tags, lifting) mem_Collect_eq row_of_def)
  next
    fix x
    assume "x \<in> {forget_project r |k r. map_of (ga_records a) k = Some r \<and> gd_status r = Gate_pending}"
    then obtain k r where r: "map_of (ga_records a) k = Some r" "gd_status r = Gate_pending" "x = forget_project r" by auto
    then obtain w where w: "sql_lookup gw_gate_ref k st = Some w" "row_of r w" using sim_lookup(2) [OF assms] by blast
    then have "w \<in> set st" "gw_status w = Gate_pending" using sql_lookup_SomeD [OF w(1)] r(2) by (auto simp: row_of_def)
    then show "x \<in> set (map row_to_gate (filter (\<lambda>w. gw_status w = Gate_pending) st))" using r(3) row_of_read [OF w(2)] by force
  qed
  have "map gate_ref_of (map row_to_gate (filter (\<lambda>w. gw_status w = Gate_pending) st)) = map gw_gate_ref (filter (\<lambda>w. gw_status w = Gate_pending) st)"
    using ref by simp
  then show ?B using u by (simp add: unique_key_def distinct_map_filter del: map_map)
qed

lemma store_sweep:
  assumes "gates_sim T a st" "T \<le> now"
  shows "\<exists>changed. store_apply_timeouts env (\<lambda>_. now) wall st = (Inr changed, fold (\<lambda>r. write_gate wall (gate_ref_of r) r) changed st) \<and>
    set changed = {forget_project (gate_outcome now r) |k r. map_of (ga_records a) k = Some r \<and> overdue now r} \<and> distinct (map gate_ref_of changed)"
proof -
  let ?P = "map row_to_gate (filter (\<lambda>w. gw_status w = Gate_pending) st)"
  note P = pending_rows [OF assms(1)]
  have lp: "store_list_pending env None True st = Inr ?P" by (simp add: store_list_pending_def check_unscoped_gate_read_def Let_def)
  show ?thesis
  proof (cases ?P)
    case Nil
    then have "\<nexists>k r. map_of (ga_records a) k = Some r \<and> gd_status r = Gate_pending" using P(1) by auto
    then show ?thesis using Nil lp by (auto simp: store_apply_timeouts_def overdue_def)
  next
    case (Cons p ps)
    define tmp where "tmp = (gate_api_init False)\<lparr>ga_records := fold (\<lambda>r. dict_set (gate_ref_of r) r) ?P []\<rparr>"
    have ok: "gates_ok a" "opened_by T a" using assms(1) by (simp_all add: gates_sim_def)
    have find: "map_of (ga_records tmp) k = Some x \<longleftrightarrow> x \<in> set ?P \<and> gate_ref_of x = k" for k x
      unfolding tmp_def using map_of_fold_put [OF P(2), of "[]" k x] by simp
    have "gates_ok tmp"
      unfolding gates_ok_def
    proof (intro conjI allI impI)
      show "distinct (map fst (ga_records tmp))" by (simp add: tmp_def distinct_fold_put)
      fix k x
      assume "map_of (ga_records tmp) k = Some x"
      then show "gate_ok (ga_enforce_soc tmp) k x"
        using ok(1) unfolding find P(1) by (auto simp: gates_ok_def gate_ok_def tmp_def gate_api_init_def)
    qed
    moreover have "opened_by now tmp" using ok(2) assms(2) unfolding opened_by_def find P(1) by fastforce
    ultimately obtain changed a' where c: "apply_timeouts env (\<lambda>_. now) tmp = (Inr changed, a')"
        "set changed = {gate_outcome now r |k r. map_of (ga_records tmp) k = Some r \<and> overdue now r}" "distinct (map gate_ref_of changed)"
      using apply_timeouts_const [of tmp now env] by blast
    have "set changed = {gate_outcome now (forget_project r) |k r. map_of (ga_records a) k = Some r \<and> overdue now (forget_project r)}"
      unfolding c(2) find P(1) by (auto simp: overdue_def) (blast, metis forget_simps(1-3))
    then have "set changed = {forget_project (gate_outcome now r) |k r. map_of (ga_records a) k = Some r \<and> overdue now r}"
      by (simp add: gate_outcome_forget)
    then show ?thesis using c lp Cons by (auto simp: store_apply_timeouts_def tmp_def simp del: map_map)
  qed
qed

lemma timeouts_sim:
  assumes "gates_sim T a st" "T \<le> now"
  shows "gates_sim T (snd (apply_timeouts env (\<lambda>_. now) a)) (snd (store_apply_timeouts env (\<lambda>_. now) wall st))"
proof -
  have ok: "gates_ok a" "opened_by T a" "\<not> ga_enforce_soc a" "unique_key gw_gate_ref st" using assms(1) by (simp_all add: gates_sim_def)
  then have "opened_by now a" using assms(2) by (fastforce simp: opened_by_def)
  then obtain ch a' where a': "snd (apply_timeouts env (\<lambda>_. now) a) = a'"
      "\<And>k. map_of (ga_records a') k = map_option (after_sweep now) (map_of (ga_records a) k)"
    using apply_timeouts_const [OF ok(1), of now env] by (metis snd_conv)
  obtain changed where c: "snd (store_apply_timeouts env (\<lambda>_. now) wall st) = fold (\<lambda>r. write_gate wall (gate_ref_of r) r) changed st"
      "set changed = {forget_project (gate_outcome now r) |k r. map_of (ga_records a) k = Some r \<and> overdue now r}" "distinct (map gate_ref_of changed)"
    using store_sweep [OF assms, of env wall] by auto
  have key: "map_of (ga_records a) k = Some r \<Longrightarrow> gate_ref_of r = k" for k r using ok(1) by (auto simp: gates_ok_def gate_ok_def)
  have "rel_option row_of (map_of (ga_records a') k) (sql_lookup gw_gate_ref k (fold (\<lambda>r. write_gate wall (gate_ref_of r) r) changed st))" for k
  proof (cases "map_of (ga_records a) k")
    case None
    then have "k \<notin> gate_ref_of ` set changed" using key by (auto simp: c(2))
    then show ?thesis using None a'(2) sim_lookup(1) [OF assms(1)] by (simp add: lookup_fold_write_other)
  next
    case (Some r)
    obtain w where w: "sql_lookup gw_gate_ref k st = Some w" "row_of r w" using sim_lookup(2) [OF assms(1) Some] by blast
    show ?thesis
    proof (cases "overdue now r")
      case False
      then have "k \<notin> gate_ref_of ` set changed" using key Some by (auto simp: c(2))
      then show ?thesis using False Some a'(2) w by (simp add: lookup_fold_write_other)
    next
      case True
      let ?x = "forget_project (gate_outcome now r)"
      have "?x \<in> set changed" "gate_ref_of ?x = k" using True Some key [OF Some] by (auto simp: c(2))
      then have "sql_lookup gw_gate_ref k (fold (\<lambda>r. write_gate wall (gate_ref_of r) r) changed st) =
          Some (w\<lparr>gw_status := gd_status ?x, gw_payload := ?x, gw_updated_at := wall\<rparr>)"
        using lookup_fold_write [OF c(3), of ?x st w wall] w(1) by simp
      then show ?thesis using True Some a'(2) row_of_write [OF w(2), of "gate_outcome now r" wall] by simp
    qed
  qed
  moreover have "gates_ok a'" "\<not> ga_enforce_soc a'" using apply_timeouts_effect [OF ok(1), of env "\<lambda>_. now"] a'(1) ok(3) by (simp_all add: gates_kept_def)
  moreover have "opened_by T a'" using ok(2) a'(2) by (auto simp: opened_by_def split: if_splits)
  ultimately show ?thesis using a'(1) c(1) ok(4) by (simp add: gates_sim_def unique_fold_write)
qed

lemma exec_sim: "gates_sim T a st \<Longrightarrow> plain_op T op \<Longrightarrow> gates_sim T (gate_exec env op a) (store_exec env wall op st)"
proof (cases op)
  case (Time_out_gates clock)
  assume s: "gates_sim T a st" "plain_op T op"
  define now where "now = clock 0"
  have "clock = (\<lambda>_. now)" "T \<le> now" using s(2) Time_out_gates by (simp_all add: now_def)
  then show ?thesis using timeouts_sim [OF s(1)] Time_out_gates by simp
qed (simp_all add: create_sim resolve_sim)

lemma gates_sim_init: "gates_sim T (gate_api_init False) []"
  by (simp add: gates_sim_def gates_ok_init) (simp add: gate_api_init_def opened_by_def sql_lookup_def)

lemma run_sim: "gates_sim T a st \<Longrightarrow> list_all (plain_op T) ops \<Longrightarrow> gates_sim T (fold (gate_exec env) ops a) (fold (store_exec env wall) ops st)"
  by (induction ops arbitrary: a st) (auto intro: exec_sim)

section \<open>What a caller sees\<close>

lemma list_pending_sim:
  assumes "gates_sim T a st"
  shows "map_sum id set (store_list_pending env tenant internal st) =
    map_sum id (\<lambda>rs. forget_project ` set rs) (gate_list_pending env tenant internal a)"
proof -
  let ?rows = "filter (\<lambda>w. gw_status w = Gate_pending) st"
  let ?recs = "filter (\<lambda>r. gd_status r = Gate_pending) (map snd (ga_records a))"
  have d: "distinct (map fst (ga_records a))" using assms by (simp add: gates_sim_def gates_ok_def)
  have "forget_project ` set ?recs = {forget_project r |k r. map_of (ga_records a) k = Some r \<and> gd_status r = Gate_pending}"
    using d by (force simp: map_of_eq_Some_iff image_iff)
  then have eq: "set (map row_to_gate ?rows) = forget_project ` set ?recs" using pending_rows(1) [OF assms] by simp
  have "gw_tenant_id w = gc_tenant_id (gd_context (row_to_gate w))" if "w \<in> set st" for w
  proof -
    have "sql_lookup gw_gate_ref (gw_gate_ref w) st = Some w" using assms that by (intro sql_lookup_unique) (auto simp: gates_sim_def)
    then obtain r where "row_of r w" using sim_lookup(3) [OF assms] by blast
    then show ?thesis by (simp add: row_of_read) (simp add: row_of_def)
  qed
  then have "set (map row_to_gate (filter (\<lambda>w. gw_tenant_id w = t) ?rows)) = {x \<in> set (map row_to_gate ?rows). gc_tenant_id (gd_context x) = t}" for t
    by auto
  then have "set (map row_to_gate (filter (\<lambda>w. gw_tenant_id w = t) ?rows)) =
      forget_project ` set (filter (\<lambda>r. gc_tenant_id (gd_context r) = t) ?recs)" for t
    unfolding eq by auto
  then show ?thesis using eq
    by (simp add: store_list_pending_def gate_list_pending_def Let_def del: set_map set_filter map_map filter_filter split: option.split)
qed

lemma resolve_answers_sim:
  assumes "gates_sim T a st" "py_strip ref = ref"
  shows "rel_sum (\<lambda>_ _. True) (\<lambda>r r'. r' = forget_project r) (fst (resolve_gate env now ref act by comment reason a))
    (fst (store_resolve env now ref act by comment reason st))"
  using store_decide_sim [OF assms, of env now act "by" comment reason] by (auto simp: store_resolve_def)

section \<open>Overlapping decisions\<close>

lemma store_decide_pending:
  assumes "store_get_gate env ref None True st = Inr r" "py_strip ref = ref" "gate_ref_of r = ref" "gd_status r = Gate_pending"
    and "py_strip by \<noteq> ''''" "gate_action_of (py_lower (py_strip act)) = Some ac"
  shows "store_decide env now ref act by comment reason st =
    Inr (r\<lparr>gd_status := action_status ac, gd_resolution_by := Some (py_strip by), gd_resolution_comment := strip_or_none comment,
      gd_resolution_reason := strip_or_none reason, gd_resolved_at := Some now\<rparr>)"
proof -
  have "ref \<noteq> ''''" using assms(1,2) by (auto simp: store_get_gate_def Let_def split: if_splits)
  then show ?thesis using assms
    by (simp add: store_decide_def resolve_gate_def gate_api_init_def Let_def) (simp add: get_gate_def check_unscoped_gate_read_def Let_def)
qed

text \<open>Two callers that both read before either writes are both told that their decision stands; the later write is what remains.\<close>

lemma concurrent_decisions_both_succeed:
  assumes "sql_lookup gw_gate_ref ref st = Some w" "gw_status w = Gate_pending" "row_of r w" "py_strip ref = ref" "ref \<noteq> ''''"
    and "py_strip by1 \<noteq> ''''" "gate_action_of (py_lower (py_strip act1)) = Some ac1"
    and "py_strip by2 \<noteq> ''''" "gate_action_of (py_lower (py_strip act2)) = Some ac2"
  shows "\<exists>r1 r2. store_decide env t1 ref act1 by1 c1 n1 st = Inr r1 \<and> gd_status r1 = action_status ac1 \<and>
    store_decide env t2 ref act2 by2 c2 n2 st = Inr r2 \<and> gd_status r2 = action_status ac2 \<and>
    store_get_gate env ref None True (write_gate t2 ref r2 (write_gate t1 ref r1 st)) = Inr r2"
proof -
  have k: "gw_gate_ref w = ref" using sql_lookup_SomeD [OF assms(1)] by simp
  have g: "store_get_gate env ref None True st = Inr (forget_project r)"
    using assms(1,4,5) row_of_read [OF assms(3)] by (simp add: store_get_gate_def check_unscoped_gate_read_def Let_def)
  have r: "gate_ref_of (forget_project r) = ref" "gd_status (forget_project r) = Gate_pending" using assms(2,3) k by (auto simp: row_of_def)
  note d1 = store_decide_pending [OF g assms(4) r assms(6,7), of t1 c1 n1]
  note d2 = store_decide_pending [OF g assms(4) r assms(8,9), of t2 c2 n2]
  let ?r2 = "forget_project r\<lparr>gd_status := action_status ac2, gd_resolution_by := Some (py_strip by2), gd_resolution_comment := strip_or_none c2,
      gd_resolution_reason := strip_or_none n2, gd_resolved_at := Some t2\<rparr>"
  have w2: "row_of ?r2 (w\<lparr>gw_status := gd_status ?r2, gw_payload := ?r2, gw_updated_at := u\<rparr>)" for u
    using assms(3) by (simp add: row_of_def forget_project_def)
  have "row_to_gate (w\<lparr>gw_status := gd_status ?r2, gw_payload := ?r2, gw_updated_at := u\<rparr>) = ?r2" for u
    using row_of_read [OF w2 [of u]] by (simp add: forget_project_def)
  then show ?thesis using d1 d2 assms(1,4,5) k
    by (auto simp: store_get_gate_def check_unscoped_gate_read_def Let_def lookup_write)
qed

section \<open>Properties\<close>

text \<open>C28. The durable store simulates the in-memory manager without separation of concerns, up to what it does not keep. Take any
  sequence of openings, resolutions and timeout sweeps that run one after the other, where gates are opened between the times 0 and
  \<open>T\<close>, references are given without padding, and each sweep comes at \<open>T\<close> or later and reads the clock as one value. Then reading a gate
  gives the same error or the same record except for the record's own project id, which the durable store drops (\<open>forget_project\<close>);
  listing the pending gates gives the same error or the same set of records up to that field, in an order that may differ; and the next
  resolution with an unpadded reference is accepted by both, with the same record up to that field, or refused by both, for a
  reason that may differ.\<close>

theorem durable_gates_refine_memory:
  assumes "list_all (plain_op T) ops"
  shows "store_get_gate env ref tenant internal (fold (store_exec env wall) ops []) =
      map_sum id forget_project (get_gate env ref tenant internal (fold (gate_exec env) ops (gate_api_init False))) \<and>
    map_sum id set (store_list_pending env tenant internal (fold (store_exec env wall) ops [])) =
      map_sum id (\<lambda>rs. forget_project ` set rs) (gate_list_pending env tenant internal (fold (gate_exec env) ops (gate_api_init False))) \<and>
    (py_strip ref = ref \<longrightarrow> rel_sum (\<lambda>_ _. True) (\<lambda>r r'. r' = forget_project r)
      (fst (resolve_gate env now ref act by comment reason (fold (gate_exec env) ops (gate_api_init False))))
      (fst (store_resolve env now ref act by comment reason (fold (store_exec env wall) ops []))))"
proof -
  have s: "gates_sim T (fold (gate_exec env) ops (gate_api_init False)) (fold (store_exec env wall) ops [])"
    by (rule run_sim [OF gates_sim_init assms])
  show ?thesis using get_gate_sim [OF s] list_pending_sim [OF s] resolve_answers_sim [OF s] by blast
qed

theorem durable_gates_refine_memory_witness:
  "store_get_gate None ''g1'' None True (fold (store_exec None 0) [gate_demo_create, gate_demo_approve ''bob'', Time_out_gates (\<lambda>_. 900)] []) =
     map_sum id forget_project (get_gate None ''g1'' None True
       (fold (gate_exec None) [gate_demo_create, gate_demo_approve ''bob'', Time_out_gates (\<lambda>_. 900)] (gate_api_init False)))"
proof -
  have "list_all (plain_op 100) [gate_demo_create, gate_demo_approve ''bob'', Time_out_gates (\<lambda>_. 900)]"
    by (simp add: gate_demo_create_def gate_demo_approve_def gate_demo_context_def gate_demo_strings)
  from durable_gates_refine_memory [OF this] show ?thesis by blast
qed

text \<open>C29. The command that resolves a gate compares the approver with the submitter before it is stripped, and the durable store switches the
  manager's own check off: with a leading blank a submitter approves their own gate on it, though not on a manager that enforces
  separation.\<close>

theorem padding_defeats_separation:
  assumes "sql_lookup gw_gate_ref ref st = Some w" "gw_status w = Gate_pending" "row_of r w" "py_strip ref = ref" "ref \<noteq> ''''"
    and "py_strip (gc_submitter (gd_context r)) = gc_submitter (gd_context r)" "gc_submitter (gd_context r) \<noteq> ''''"
    and "case rbac of None \<Rightarrow> True | Some policy \<Rightarrow> rbac_enforce policy (py_strip (str_or role)) ''management.gate.resolve'' = None"
    and "map_of (ga_records a) ref = Some r" "ga_enforce_soc a"
  shows "(\<exists>r'. fst (cmd_gate_resolve env now ref ''approve'' (CHR '' '' # gc_submitter (gd_context r)) comment reason rbac role True (Durable_gates st)) = Inr r' \<and>
      gd_status r' = Gate_approved \<and> gd_context r' = gd_context r \<and> gd_resolution_by r' = Some (gc_submitter (gd_context r))) \<and>
    fst (cmd_gate_resolve env now ref ''approve'' (CHR '' '' # gc_submitter (gd_context r)) comment reason rbac role True (Memory_gates a)) = Inl Submitter_approves"
proof -
  let ?s = "gc_submitter (gd_context r)"
  have k: "gw_gate_ref w = ref" using sql_lookup_SomeD [OF assms(1)] by simp
  have strip: "py_strip (CHR '' '' # ?s) = ?s" using assms(6) by (simp add: py_strip_def is_py_space_def)
  have act: "gate_action_of (py_lower (py_strip ''approve'')) = Some Approve_gate" "py_lower (py_strip ''approve'') = ''approve''" by code_simp+
  have pad: "?s \<noteq> CHR '' '' # ?s" by simp
  have rb: "(case rbac of None \<Rightarrow> None | Some policy \<Rightarrow> rbac_enforce policy (py_strip (str_or role)) ''management.gate.resolve'') = None"
    using assms(8) by (auto split: option.split)
  have g: "store_get_gate env ref None True st = Inr (forget_project r)"
    using assms(1,4,5) row_of_read [OF assms(3)] by (simp add: store_get_gate_def check_unscoped_gate_read_def Let_def)
  have r: "gate_ref_of (forget_project r) = ref" "gd_status (forget_project r) = Gate_pending" using assms(2,3) k by (auto simp: row_of_def)
  have "store_decide env now ref ''approve'' (CHR '' '' # ?s) comment reason st =
      Inr (forget_project r\<lparr>gd_status := Gate_approved, gd_resolution_by := Some ?s, gd_resolution_comment := strip_or_none comment,
        gd_resolution_reason := strip_or_none reason, gd_resolved_at := Some now\<rparr>)"
    using store_decide_pending [OF g assms(4) r _ act(1), of "CHR '' '' # ?s" now comment reason] strip assms(7) by simp
  then have 1: "\<exists>r'. fst (cmd_gate_resolve env now ref ''approve'' (CHR '' '' # ?s) comment reason rbac role True (Durable_gates st)) = Inr r' \<and>
      gd_status r' = Gate_approved \<and> gd_context r' = gd_context r \<and> gd_resolution_by r' = Some (gc_submitter (gd_context r))"
    using rb g act(2) pad by (simp add: cmd_gate_resolve_def enforce_submitter_approver_separation_def store_resolve_def)
  have "get_gate env ref None True a = Inr r" using assms(4,5,9) by (simp add: get_gate_Inr)
  then have "fst (cmd_gate_resolve env now ref ''approve'' (CHR '' '' # ?s) comment reason rbac role True (Memory_gates a)) = Inl Submitter_approves"
    using rb act pad strip assms(7,10) r(2)
    by (simp add: cmd_gate_resolve_def enforce_submitter_approver_separation_def resolve_gate_def)
  then show ?thesis using 1 by blast
qed

theorem padding_defeats_separation_witness:
  "\<exists>st r'. fst (cmd_gate_resolve None 20 ''g1'' ''approve'' '' alice'' None None None None True (Durable_gates st)) = Inr r' \<and>
     gd_status r' = Gate_approved \<and> gd_resolution_by r' = Some ''alice''"
proof -
  define w where "w = \<lparr>gw_gate_ref = ''g1'', gw_run_id = ''r1'', gw_project_id = '''', gw_stage_id = ''s1'', gw_status = Gate_pending,
      gw_payload = gate_demo_record, gw_created_at = 10, gw_updated_at = 10, gw_tenant_id = ''acme'', gw_user_id = '''', gw_session_id = ''''\<rparr>"
  have c: "gc_submitter (gd_context gate_demo_record) = ''alice''" by (simp add: gate_demo_record_def gate_demo_context_def)
  have "py_strip ''alice'' = ''alice''" by code_simp
  moreover have "row_of gate_demo_record w"
    by (simp add: w_def row_of_def forget_project_def gate_demo_record_def pending_record_def gate_demo_context_def)
  moreover have "sql_lookup gw_gate_ref ''g1'' [w] = Some w" "gw_status w = Gate_pending" by (simp_all add: sql_lookup_def w_def)
  ultimately show ?thesis
    using padding_defeats_separation [where ref = "''g1''" and st = "[w]" and w = w and r = gate_demo_record and rbac = None and role = None
        and a = "\<lparr>ga_records = [(''g1'', gate_demo_record)], ga_enforce_soc = True\<rparr>" and env = None and now = 20 and comment = None and reason = None]
    by (auto simp: c gate_demo_strings intro!: exI [of _ "[w]"])
qed

end
