(* ===== verification/Spec2Isabelle.thy ===== *)
theory Spec2Isabelle
  imports Posture_Model Run_State Trace_Machines Recovery Idempotency_Theorems Dedupe_Theorems
    Circuit_Breaker Restart_Engine Task_Dag_Queries Dispatch_Theorems Recovery_Gate_Theorems Decision_Rounds
    Request_Auth_Theorems Idempotency_Gateway_Theorems Dag_Executor_Theorems Run_Manager_Theorems Http_Stack_Theorems
    Gate_Refinement
begin

text \<open>
  A verification development for the hi-agent platform: the durable coordination core that keeps
  long-running agent work exactly-once, tenant-scoped and recoverable. All paths are under \<open>src/\<close>.

  \<^bold>\<open>The program and its parts.\<close> A request enters the agent server, which authenticates it
  (\<open>agent_server/api/middleware/auth.py\<close>; the older server has its own middleware in
  \<open>hi_agent/server/auth_middleware.py\<close>, in a stack with a drain gate, a rate limiter and sessions, \<open>middleware_drain.py\<close>,
  \<open>rate_limiter.py\<close>, \<open>session_middleware.py\<close>), takes its tenant from a header, and reserves its idempotency key
  (\<open>agent_server/api/middleware/idempotency.py\<close> over \<open>hi_agent/server/idempotency.py\<close>), creates a run and puts it into the durable queue
  (\<open>hi_agent/server/run_queue.py\<close>). The run manager (\<open>hi_agent/server/run_manager.py\<close>) does this over the run store, the event
  store (\<open>run_store.py\<close>, \<open>event_store.py\<close>), the queue and the idempotency store, and gives a bounded number of runs a thread. Workers claim runs under a lease, keep the lease with heartbeats and
  complete, fail or cancel the run; exhausted runs move to the dead-letter table. Run states follow
  \<open>hi_agent/server/run_state_transitions.py\<close>. At startup \<open>_rehydrate_runs\<close>
  (\<open>hi_agent/server/app.py\<close>, with \<open>hi_agent/server/recovery.py\<close>) adopts runs whose lease expired and puts
  them back. The posture (\<open>hi_agent/config/posture.py\<close>) decides which checks fail closed. Human gates
  (\<open>hi_agent/management/gate_*.py\<close>) wait for the decision of someone other than their submitter, or for a timeout. Inside a run the
  kernel appends runtime events to an authoritative log, projects them to the state of the run
  (\<open>agent_kernel/kernel/minimal_runtime.py\<close>, \<open>persistence/sqlite_event_log.py\<close>), freezes the run's
  capabilities in a snapshot (\<open>capability_snapshot.py\<close>), asks an admission service (\<open>admission/\<close>), and takes
  turns (\<open>turn_engine.py\<close>) that dispatch actions through a dedupe ledger
  (\<open>agent_kernel/kernel/dedupe_store.py\<close> and its SQLite
  twin). A failed action goes to the recovery gate (\<open>agent_kernel/kernel/recovery/\<close>), which plans, checks
  circuit breakers and compensation handlers, may reflect, and answers with a mode and a delay. The workflow
  actor of a run (\<open>agent_kernel/substrate/temporal/run_actor_workflow.py\<close>) drives all of this: it turns
  signals into events, takes one decision round per commit and restarts itself when its history grows. Capabilities sit behind circuit breakers (\<open>hi_agent/capability/circuit_breaker.py\<close>), tasks are kept
  in a registry with an event log (\<open>agent_kernel/kernel/task_manager/\<close>), failed tasks go through the restart
  policy engine (\<open>hi_agent/task_mgmt/restart_policy.py\<close>), and decomposed work is a task graph
  (\<open>hi_agent/task_decomposition/dag.py\<close>) that an executor (\<open>executor.py\<close>) runs node by node.

  \<^bold>\<open>Theories.\<close>
  \<^item> \<open>Prelude\<close>: the Python and SQLite vocabulary (ordered dictionaries \<open>dict_set\<close>/\<open>dict_pop\<close>, string
    methods, \<open>sql_update\<close>/\<open>sql_delete\<close> on tables as lists of rows, row counts) and the locales
    \<open>op_system\<close> (an invariant kept by every operation holds after every sequence), \<open>monotone_system\<close>
    (a preorder that every operation climbs) and \<open>guarded_system\<close> (a fact that survives every sequence
    of operations within a guard).
  \<^item> \<open>Posture_Model\<close>: \<open>Posture.from_env\<close>, \<open>is_strict\<close>, \<open>resolve_runtime_mode\<close>.
  \<^item> \<open>Run_State\<close>, \<open>Trace_Machines\<close>: the legal graph of run states and \<open>transition\<close>; the generic
    \<open>StateMachine\<close> and its six instances. Terminal states are final, histories follow the graph.
  \<^item> \<open>Run_Queue\<close> (the two tables as lists of records, one definition per method),
    \<open>Run_Queue_Laws\<close> (the operation type, the execution, the table invariant),
    \<open>Run_Queue_Theorems\<close> (priority order of claims, exclusive leases, retries and dead letters, tenant
    scope, adoption, and the places where the code falls short of its documentation).
  \<^item> \<open>Json_Value\<close>, \<open>Idempotency_Store\<close>, \<open>Idempotency_Theorems\<close>: the table of reservations, replay of
    responses, expiry, isolation of tenants.
  \<^item> \<open>Dedupe_Store\<close>, \<open>Dedupe_Sqlite\<close>, \<open>Dedupe_Theorems\<close>: the port as an abstract specification
    \<open>spec_step\<close> and the locale \<open>dedupe_port\<close>, which both stores refine; at most one dispatch per key is
    proved once in the locale and holds for both interpretations.
  \<^item> \<open>Circuit_Breaker\<close>: the three-state breaker with its persisted copy.
  \<^item> \<open>Task_Registry\<close>, \<open>Task_Event_Log\<close>, \<open>Task_Theorems\<close>: registry, log and replay, with a simulation
    between the live registry and the one rebuilt from the log.
  \<^item> \<open>Restart_Engine\<close>: the engine over injected collaborators, its coroutine cut at the awaits so that calls
    overlap; the locale \<open>attempt_ledger\<close> states what it
    needs of them and is interpreted on the builder's dictionaries and on the task registry.
  \<^item> \<open>Recovery\<close>: the recovery pass over the run queue.
  \<^item> \<open>Task_Dag\<close>, \<open>Task_Dag_Theorems\<close>, \<open>Task_Dag_Queries\<close>: the task graph, with the depth-first search
    proved to decide cycles and Kahn's algorithm proved to sort; parallel groups, subgraphs, validation.
  \<^item> \<open>Kernel_Contracts\<close>: the data the kernel's components exchange (\<open>contracts.py\<close>).
  \<^item> \<open>Event_Log\<close>, \<open>Event_Log_Port\<close>: the in-memory and the durable event log, the locale \<open>event_log\<close> they
    both interpret: an append-only stream per run with offsets 1, 2, ....
  \<^item> \<open>Projection\<close>, \<open>Projection_Theorems\<close>: what an event does to a run's projection and the service that
    catches up from a log. In the locale, reading a projection is shown to be a full replay of the
    stream, whatever was read before; the flags follow the state; terminal states are final; the two
    logs serve alike.
  \<^item> \<open>Dispatch_Policy\<close>: remote contracts, host kinds, the dispatch policy of a turn and the static
    admission gate. \<open>Capability_Snapshot\<close>: building a snapshot and what its hash identifies.
    \<open>Admission\<close>: the default admission service, its rules and its sliding rate window.
  \<^item> \<open>Turn_Engine\<close>: one definition per phase and the run of a turn over a record of services.
    \<open>Turn_Engine_Theorems\<close>: the locales \<open>ledger\<close> (a store that may refuse to answer) and
    \<open>reliable_ledger\<close>, and in them what one turn and any sequence of turns do to the ledger and the
    executor. \<open>Turn_Properties\<close> interprets them on the in-memory store, the durable store and the durable
    store under lock contention. \<open>Dispatch_Theorems\<close> joins projection, admission and turns.
  \<^item> \<open>Recovery_Planner\<close>: the failure envelope, the planner and the mode registry. \<open>Compensation\<close>: the handler
    registry and \<open>execute\<close> over a ledger; in the ledger locales, handlers run in one execution only and
    the ledger records how it ended. \<open>Gate_Circuit\<close>: failure counts in the table or in dictionaries, both
    interpretations of the locale \<open>failure_store\<close>, and the probe sweep. \<open>Recovery_Gate\<close>,
    \<open>Recovery_Gate_Theorems\<close>: the gate itself and histories of calls to it; the gate is a third
    interpretation of \<open>failure_store\<close>, whichever store it is given.
  \<^item> \<open>Workflow_Stores\<close>: decision fingerprints (the locale \<open>decision_deduper\<close>, interpreted on both stores), turn
    intents, recovery outcomes. \<open>Run_Actor\<close>: the workflow actor over a record of services, composing log,
    projection, turn engine, ledger and gate. \<open>Run_Actor_Theorems\<close>: in the locale \<open>run_log\<close>, which extends
    \<open>event_log\<close>, the actor simulates a fold over the accepted signals; both logs interpret it.
    \<open>Decision_Rounds\<close>: one round per commit, what a round records, one dispatch per turn.
  \<^item> \<open>Request_Auth\<close>, \<open>Request_Auth_Theorems\<close>: claim validation, roles, the authentication of both servers
    and the tenant context, over the JWT library as a parameter: what passes under a strict posture.
  \<^item> \<open>Rate_Limiter\<close>: the token buckets and what the limiter answers. \<open>Session_Store\<close>: sessions and who may use one.
    \<open>Http_Stack\<close>, \<open>Http_Stack_Theorems\<close>: both composed with the drain gate and the authentication of \<open>hi_agent/server\<close>; what
    passes in a stretch of time, and what the order of the stack does.
  \<^item> \<open>Gate_Api\<close>: human gates in memory. \<open>Gate_Store\<close>: the durable store and the commands. \<open>Gate_Theorems\<close>: histories of
    calls as a \<open>monotone_system\<close>: decisions are final, approvals separate, overdue gates follow their policy.
    \<open>Gate_Refinement\<close>: a simulation between the two managers, and what padding and overlapping calls do to them.
  \<^item> \<open>Idempotency_Gateway\<close>, \<open>Idempotency_Gateway_Theorems\<close>: the idempotency facade and middleware on the store of
    \<open>Idempotency_Store\<close>. A request is two steps around its handler, requests interleave; a key's handler is
    called exactly when the body is readable and the key is free, and a completed request is replayed. What answers block
    their key: a success that is no JSON object, is undecodable or raises, and a cancelled request.
  \<^item> \<open>Dag_Executor\<close>, \<open>Dag_Executor_Theorems\<close>: the executor of a task graph; the loop ends unless a node was
    running before it started, and failed nodes have been rolled back for as their policy says.
  \<^item> \<open>Run_Store\<close>: run records and run events. \<open>Run_Manager\<close>: the manager's state, creating runs, publishing
    events. \<open>Run_Threads\<close>: its threads, cut at the points where they wait, as steps of an interleaving
    (\<open>manager_step\<close>). \<open>Run_Manager_Laws\<close>: what each step does to the slots and to the registry; the manager
    interprets \<open>op_system\<close>. \<open>Run_Manager_Theorems\<close>: the bound on concurrent runs, terminal states, the tenant of a run,
    the end of a run in all the stores, and the ways in which a run is lost.

  \<^bold>\<open>Conventions.\<close> A class is a record of its state, a method a function from the arguments, the readings
  of the clock and of the environment it makes and the state to the result and the new state. Exceptions
  are left values. A lock or a transaction makes a method one step; a coroutine without one is cut where it
  awaits (requests of the gateway, failures of tasks, threads of the run manager). Floating-point times are reals (the
  code adds and compares them), millisecond clocks are integers. A SQLite table is the list of its rows in rowid order; a statement updates
  the rows its condition selects. Fresh identifiers (\<open>uuid4\<close>), the JSON codec and hashes are parameters; a body is
  bytes, which \<open>json.loads\<close> may fail to decode.

  \<^bold>\<open>Bounds and fuel.\<close> The depth-first search of \<open>has_cycle\<close> takes the recursion depth the interpreter has
  left as fuel, and running out is the \<open>RecursionError\<close> Python raises; theorems that need the answer ask for
  a depth of at least the number of operations made, which bounds the number of nodes. Kahn's loop runs
  on one unit of fuel per node and one more; \<open>topological_sort_cases\<close> shows it never runs out. The event
  log drops its oldest event at capacity; the replay theorem asks that nothing was dropped. The level
  loop of \<open>get_parallel_groups\<close> and the breadth-first search of \<open>get_subgraph\<close> have fuel of the same kind.
  The executor's loop has fuel; \<open>run_to_completion_ends\<close> shows that one unit more than the number of nodes is enough.
  The in-memory runtime log forgets its oldest run at a cap; theorems on it ask for room.
  Everything else is structural recursion.

  \<^bold>\<open>Not modelled.\<close> HTTP routes, the gate coordinator, the runner and the model gateway, memory and
  knowledge stores, schema creation and migration of the databases, logging and metrics, the trace files, the postmortem
  engine and the fallback events of the run manager, the attempt
  lineage in the run store; of the kernel the facade and the substrates, the Temporal client and the resolution
  of the actor's dependencies, the observability hooks and phase timeouts of a turn. These parts call models, networks or
  processes, or only pass data on; what they decide rests on the components above.
\<close>

end
